(* ===== verification/Py_Prelude.thy ===== *)
theory Py_Prelude
  imports Complex_Main "HOL-Library.AList"
begin

text \<open>
  Shared vocabulary of the development: the shape of Python values and dictionaries, list
  slicing, and the locale of key/value stores. Every theory of a component imports this one.

  \<^item> A Python \<^verbatim>\<open>dict\<close> keeps insertion order, and assigning to an existing key keeps the key's
    position. It is an association list: \<open>dict_set\<close> overwrites in place or appends at the end,
    \<open>dict_pop\<close> removes a key, and \<^const>\<open>map_of\<close> looks a key up (\<^verbatim>\<open>d.get(k)\<close>).
  \<^item> \<open>pyval\<close> are the JSON-like values that flow through the untyped parts of the library.
  \<^item> Floats are rationals (rounding is not modelled), instants and durations of
    \<^verbatim>\<open>datetime\<close> and \<^verbatim>\<open>timedelta\<close> are integers counting microseconds.
  \<^item> The collection \<open>py_simps\<close> holds the equations that evaluate these operations.
\<close>

named_theorems py_simps \<open>equations for the Python primitives\<close>

named_theorems inv_intros \<open>preservation lemmas of the component invariants\<close>

type_synonym microseconds = int

type_synonym ('k, 'v) pydict = "('k \<times> 'v) list"

subsection \<open>Values\<close>

datatype pyval =
    PNone
  | PBool bool
  | PInt int
  | PFloat rat
  | PStr string
  | PList "pyval list"
  | PDict "(string \<times> pyval) list"

text \<open>Truthiness (\<^verbatim>\<open>bool(v)\<close>): empty containers, zero, \<^verbatim>\<open>False\<close> and \<^verbatim>\<open>None\<close> are false.\<close>

fun truthy :: "pyval \<Rightarrow> bool" where
  "truthy PNone = False"
| "truthy (PBool b) = b"
| "truthy (PInt i) = (i \<noteq> 0)"
| "truthy (PFloat q) = (q \<noteq> 0)"
| "truthy (PStr s) = (s \<noteq> [])"
| "truthy (PList xs) = (xs \<noteq> [])"
| "truthy (PDict d) = (d \<noteq> [])"

text \<open>\<^verbatim>\<open>a or b\<close> on optional strings: \<^verbatim>\<open>None\<close> and the empty string select \<^verbatim>\<open>b\<close>.\<close>

definition str_or :: "string option \<Rightarrow> string \<Rightarrow> string" where
  "str_or a b = (case a of None \<Rightarrow> b | Some s \<Rightarrow> if s = [] then b else s)"

subsection \<open>Dictionaries\<close>

definition dict_set :: "'k \<Rightarrow> 'v \<Rightarrow> ('k, 'v) pydict \<Rightarrow> ('k, 'v) pydict" where
  "dict_set k v d = AList.update k v d"

definition dict_pop :: "'k \<Rightarrow> ('k, 'v) pydict \<Rightarrow> ('k, 'v) pydict" where
  "dict_pop k d = AList.delete k d"

definition dict_keys :: "('k, 'v) pydict \<Rightarrow> 'k list" where
  "dict_keys d = map fst d"

definition dict_values :: "('k, 'v) pydict \<Rightarrow> 'v list" where
  "dict_values d = map snd d"

text \<open>\<^verbatim>\<open>d.get(k, default)\<close>.\<close>

definition dict_get_or :: "('k, 'v) pydict \<Rightarrow> 'k \<Rightarrow> 'v \<Rightarrow> 'v" where
  "dict_get_or d k v = (case map_of d k of None \<Rightarrow> v | Some w \<Rightarrow> w)"

text \<open>A dictionary holds a key once.\<close>

definition dict_ok :: "('k, 'v) pydict \<Rightarrow> bool" where
  "dict_ok d \<longleftrightarrow> distinct (map fst d)"

lemma dict_get_set [simp, py_simps]:
  "map_of (dict_set k v d) k' = (if k' = k then Some v else map_of d k')"
  by (simp add: dict_set_def update_conv)

lemma dict_get_pop [simp, py_simps]:
  "map_of (dict_pop k d) k' = (if k' = k then None else map_of d k')"
  by (simp add: dict_pop_def delete_conv)

lemma dict_set_eval [py_simps]:
  "dict_set k v [] = [(k, v)]"
  "dict_set k v ((k', w) # d) = (if k' = k then (k, v) # d else (k', w) # dict_set k v d)"
  by (simp_all add: dict_set_def)

lemma dict_pop_eval [py_simps]:
  "dict_pop k [] = []"
  "dict_pop k ((k', w) # d) = (if k' = k then dict_pop k d else (k', w) # dict_pop k d)"
  by (simp_all add: dict_pop_def AList.delete_eq)

lemma dict_ok_Nil [simp, intro]: "dict_ok []"
  by (simp add: dict_ok_def)

lemma dict_ok_Cons [simp]: "dict_ok ((k, v) # d) \<longleftrightarrow> k \<notin> fst ` set d \<and> dict_ok d"
  by (auto simp: dict_ok_def)

lemma dict_ok_snoc [simp]: "dict_ok (d @ [(k, v)]) \<longleftrightarrow> k \<notin> fst ` set d \<and> dict_ok d"
  by (auto simp: dict_ok_def)

lemma dict_ok_set [inv_intros]: "dict_ok d \<Longrightarrow> dict_ok (dict_set k v d)"
  by (simp add: dict_ok_def dict_set_def distinct_update)

lemma dict_ok_pop [inv_intros]: "dict_ok d \<Longrightarrow> dict_ok (dict_pop k d)"
  by (simp add: dict_ok_def dict_pop_def distinct_delete)

lemma keys_dict_set [simp]: "fst ` set (dict_set k v d) = insert k (fst ` set d)"
  by (simp add: dict_set_def dom_update)

lemma keys_dict_pop [simp]: "fst ` set (dict_pop k d) = fst ` set d - {k}"
  by (auto simp: dict_pop_def AList.delete_eq)

lemma length_dict_set:
  "length (dict_set k v d) = (if k \<in> fst ` set d then length d else Suc (length d))"
  by (induction d) (force simp: dict_set_eval)+

lemma length_dict_pop_le: "length (dict_pop k d) \<le> length d"
  by (simp add: dict_pop_def length_delete_le)

lemma dict_pop_idem [simp]: "k \<notin> fst ` set d \<Longrightarrow> dict_pop k d = d"
  by (simp add: dict_pop_def)

lemma dict_set_new: "k \<notin> fst ` set d \<Longrightarrow> dict_set k v d = d @ [(k, v)]"
  by (simp add: dict_set_def update_nonempty) (induction d, auto)

lemma map_of_SomeI: "dict_ok d \<Longrightarrow> (k, v) \<in> set d \<Longrightarrow> map_of d k = Some v"
  by (simp add: dict_ok_def)

lemma map_of_None_iff: "map_of d k = None \<longleftrightarrow> k \<notin> fst ` set d"
  by (rule map_of_eq_None_iff)

lemma set_dict_values: "dict_ok d \<Longrightarrow> v \<in> set (dict_values d) \<longleftrightarrow> (\<exists>k. map_of d k = Some v)"
  by (force simp: dict_values_def dict_ok_def dest: map_of_SomeD intro: map_of_is_SomeI)

text \<open>\<^verbatim>\<open>OrderedDict.move_to_end\<close> on a present key.\<close>

definition move_to_end :: "'k \<Rightarrow> ('k, 'v) pydict \<Rightarrow> ('k, 'v) pydict" where
  "move_to_end k d = (case map_of d k of None \<Rightarrow> d | Some v \<Rightarrow> dict_pop k d @ [(k, v)])"

lemma dict_get_move_to_end [simp]: "map_of (move_to_end k d) = map_of d"
  by (rule ext) (auto simp: move_to_end_def map_add_def split: option.splits)

lemma dict_ok_move_to_end [inv_intros]: "dict_ok d \<Longrightarrow> dict_ok (move_to_end k d)"
  by (auto simp: move_to_end_def dict_ok_pop split: option.splits simp flip: image_iff)

lemma length_dict_pop:
  "dict_ok d \<Longrightarrow> length (dict_pop k d) = (if k \<in> fst ` set d then length d - 1 else length d)"
proof (induction d)
  case Nil
  then show ?case by (simp add: dict_pop_eval)
next
  case (Cons p d)
  obtain k' w where p: "p = (k', w)" by (cases p)
  show ?case
  proof (cases "k' = k")
    case True
    with Cons.prems p show ?thesis by (simp add: dict_pop_eval)
  next
    case False
    with Cons p show ?thesis by (cases d) (auto simp: dict_pop_eval)
  qed
qed

lemma length_move_to_end [simp]: "dict_ok d \<Longrightarrow> length (move_to_end k d) = length d"
proof (cases "map_of d k")
  case None
  then show ?thesis by (simp add: move_to_end_def)
next
  case (Some v)
  then have "k \<in> fst ` set d" by (force dest: map_of_SomeD)
  moreover assume "dict_ok d"
  moreover from \<open>k \<in> fst ` set d\<close> have "d \<noteq> []" by auto
  ultimately show ?thesis
    using Some by (simp add: move_to_end_def length_dict_pop Suc_diff_Suc)
qed

lemma keys_move_to_end [simp]: "fst ` set (move_to_end k d) = fst ` set d"
  by (auto simp: move_to_end_def split: option.splits dest: map_of_SomeD)
     (force dest: map_of_SomeD)+

subsection \<open>Slices\<close>

text \<open>\<^verbatim>\<open>xs[i:j]\<close>: negative bounds count from the end, bounds are clipped to the list.\<close>

definition slice_bound :: "nat \<Rightarrow> int \<Rightarrow> nat" where
  "slice_bound n i = (if i < 0 then nat (int n + i) else min n (nat i))"

definition py_slice :: "'a list \<Rightarrow> int \<Rightarrow> int \<Rightarrow> 'a list" where
  "py_slice xs i j =
     take (slice_bound (length xs) j - slice_bound (length xs) i)
       (drop (slice_bound (length xs) i) xs)"

lemma py_slice_nonneg:
  assumes "0 \<le> i" and "i \<le> j"
  shows "py_slice xs i j = take (nat j - nat i) (drop (nat i) xs)"
proof (cases "nat i \<le> length xs")
  case True
  with assms show ?thesis
    by (auto simp: py_slice_def slice_bound_def min_def)
next
  case False
  with assms show ?thesis by (simp add: py_slice_def slice_bound_def)
qed

lemma length_py_slice:
  "0 \<le> i \<Longrightarrow> i \<le> j \<Longrightarrow> length (py_slice xs i j) = min (nat j - nat i) (length xs - nat i)"
  by (simp add: py_slice_nonneg min.commute)

lemma set_py_slice: "set (py_slice xs i j) \<subseteq> set xs"
  unfolding py_slice_def by (meson set_drop_subset set_take_subset subset_trans)

subsection \<open>Key/value stores\<close>

text \<open>
  The contract every in-memory store of the library rests on: what a lookup answers after a
  write or a removal. The provider is the Python dictionary; the stores of the components
  (saga records, workflow instances, inbox records, consent records, API keys) are clients.
\<close>

locale kv_store =
  fixes kv_empty :: "'s"
    and kv_get :: "'s \<Rightarrow> 'k \<Rightarrow> 'v option"
    and kv_put :: "'k \<Rightarrow> 'v \<Rightarrow> 's \<Rightarrow> 's"
    and kv_del :: "'k \<Rightarrow> 's \<Rightarrow> 's"
    and kv_ok :: "'s \<Rightarrow> bool"
  assumes get_empty: "kv_get kv_empty k = None"
    and get_put: "kv_ok s \<Longrightarrow> kv_get (kv_put k v s) k' = (if k' = k then Some v else kv_get s k')"
    and get_del: "kv_ok s \<Longrightarrow> kv_get (kv_del k s) k' = (if k' = k then None else kv_get s k')"
    and ok_empty: "kv_ok kv_empty"
    and ok_put: "kv_ok s \<Longrightarrow> kv_ok (kv_put k v s)"
    and ok_del: "kv_ok s \<Longrightarrow> kv_ok (kv_del k s)"
begin

lemma get_put_same: "kv_ok s \<Longrightarrow> kv_get (kv_put k v s) k = Some v"
  by (simp add: get_put)

lemma put_overwrites:
  "kv_ok s \<Longrightarrow> kv_get (kv_put k w (kv_put k v s)) = kv_get (kv_put k w s)"
  by (rule ext) (simp add: get_put ok_put)

lemma put_commutes:
  "kv_ok s \<Longrightarrow> j \<noteq> k \<Longrightarrow>
   kv_get (kv_put j v (kv_put k w s)) = kv_get (kv_put k w (kv_put j v s))"
  by (rule ext) (auto simp: get_put ok_put)

lemma del_put: "kv_ok s \<Longrightarrow> kv_get (kv_del k (kv_put k v s)) = kv_get (kv_del k s)"
  by (rule ext) (simp add: get_put get_del ok_put)

end

interpretation pydict: kv_store "[]" map_of dict_set dict_pop dict_ok
  by unfold_locales (auto intro: inv_intros)

subsection \<open>Rounding\<close>

text \<open>\<^verbatim>\<open>round\<close> to the nearest integer, ties to even, as \<^verbatim>\<open>timedelta\<close> rounds to microseconds.\<close>

definition py_round :: "rat \<Rightarrow> int" where
  "py_round q =
     (let f = floor q; d = q - of_int f
      in if d < 1 / 2 then f else if 1 / 2 < d then f + 1 else if even f then f else f + 1)"

lemma py_round_int [simp]: "py_round (of_int n) = n"
  by (simp add: py_round_def)

lemma py_round_close: "\<bar>of_int (py_round q) - q\<bar> \<le> 1 / 2"
proof -
  have "of_int (floor q) \<le> q" "q < of_int (floor q) + 1" by linarith+
  then show ?thesis
    unfolding py_round_def Let_def abs_if by (auto simp: algebra_simps; linarith)
qed

end
