(* ===== verification/Py_Text.thy ===== *)
theory Py_Text
  imports Py_Prelude
begin

text \<open>
  The part of Python's \<^verbatim>\<open>str\<close> the library uses, on ASCII strings: character classes, case
  mapping, stripping, splitting and joining, decimal numerals, and \<^verbatim>\<open>repr\<close>. A Python string is a
  HOL \<^typ>\<open>string\<close>; characters outside ASCII are outside the model, so \<^verbatim>\<open>str.isdigit\<close>,
  \<^verbatim>\<open>str.lower\<close> and \<^verbatim>\<open>str.strip\<close> are their ASCII restrictions.
\<close>

subsection \<open>Characters\<close>

abbreviation ord_of :: "char \<Rightarrow> nat" where
  "ord_of c \<equiv> of_char c"

definition is_digit :: "char \<Rightarrow> bool" where
  "is_digit c \<longleftrightarrow> 48 \<le> ord_of c \<and> ord_of c \<le> 57"

definition is_upper :: "char \<Rightarrow> bool" where
  "is_upper c \<longleftrightarrow> 65 \<le> ord_of c \<and> ord_of c \<le> 90"

definition is_lower :: "char \<Rightarrow> bool" where
  "is_lower c \<longleftrightarrow> 97 \<le> ord_of c \<and> ord_of c \<le> 122"

definition is_alpha :: "char \<Rightarrow> bool" where
  "is_alpha c \<longleftrightarrow> is_upper c \<or> is_lower c"

definition is_alnum :: "char \<Rightarrow> bool" where
  "is_alnum c \<longleftrightarrow> is_alpha c \<or> is_digit c"

text \<open>Whitespace: tab, line feed, vertical tab, form feed, carriage return, the four ASCII
  separators and the space.\<close>

definition is_space :: "char \<Rightarrow> bool" where
  "is_space c \<longleftrightarrow> 9 \<le> ord_of c \<and> ord_of c \<le> 13 \<or> 28 \<le> ord_of c \<and> ord_of c \<le> 32"

definition to_lower :: "char \<Rightarrow> char" where
  "to_lower c = (if is_upper c then char_of (ord_of c + 32) else c)"

definition to_upper :: "char \<Rightarrow> char" where
  "to_upper c = (if is_lower c then char_of (ord_of c - 32) else c)"

lemmas char_class_defs =
  is_digit_def is_upper_def is_lower_def is_alpha_def is_alnum_def is_space_def

definition lower :: "string \<Rightarrow> string" where
  "lower s = map to_lower s"

definition upper :: "string \<Rightarrow> string" where
  "upper s = map to_upper s"

lemma ord_to_lower:
  "ord_of (to_lower c) = (if is_upper c then ord_of c + 32 else ord_of c)"
  by (simp add: to_lower_def is_upper_def of_char_of)

lemma ord_to_upper:
  "ord_of (to_upper c) = (if is_lower c then ord_of c - 32 else ord_of c)"
  by (auto simp: to_upper_def is_lower_def of_char_of intro!: mod_less)

lemma to_lower_idem [simp]: "to_lower (to_lower c) = to_lower c"
  by (auto simp: to_lower_def is_upper_def of_char_of)

lemma to_upper_idem [simp]: "to_upper (to_upper c) = to_upper c"
  by (auto simp: to_upper_def is_lower_def of_char_of)

lemma is_upper_to_lower [simp]: "\<not> is_upper (to_lower c)"
  by (auto simp: is_upper_def ord_to_lower)

lemma is_lower_to_lower [simp]: "is_lower (to_lower c) = is_alpha c"
  by (auto simp: char_class_defs ord_to_lower)

lemma is_digit_to_lower [simp]: "is_digit (to_lower c) = is_digit c"
  by (auto simp: char_class_defs ord_to_lower)

lemma is_alnum_to_lower [simp]: "is_alnum (to_lower c) = is_alnum c"
  by (auto simp: char_class_defs ord_to_lower)

lemma is_space_to_lower [simp]: "is_space (to_lower c) = is_space c"
  by (auto simp: char_class_defs ord_to_lower)

lemma lower_idem [simp]: "lower (lower s) = lower s"
  by (simp add: lower_def)

lemma upper_idem [simp]: "upper (upper s) = upper s"
  by (simp add: upper_def)

lemma to_lower_fixed: "\<not> is_upper c \<Longrightarrow> to_lower c = c"
  by (simp add: to_lower_def)

subsection \<open>Stripping, prefixes and suffixes\<close>

definition lstrip_by :: "(char \<Rightarrow> bool) \<Rightarrow> string \<Rightarrow> string" where
  "lstrip_by P s = dropWhile P s"

definition rstrip_by :: "(char \<Rightarrow> bool) \<Rightarrow> string \<Rightarrow> string" where
  "rstrip_by P s = rev (dropWhile P (rev s))"

definition strip_by :: "(char \<Rightarrow> bool) \<Rightarrow> string \<Rightarrow> string" where
  "strip_by P s = rstrip_by P (lstrip_by P s)"

definition strip :: "string \<Rightarrow> string" where
  "strip s = strip_by is_space s"

definition startswith :: "string \<Rightarrow> string \<Rightarrow> bool" where
  "startswith s p \<longleftrightarrow> take (length p) s = p"

definition endswith :: "string \<Rightarrow> string \<Rightarrow> bool" where
  "endswith s p \<longleftrightarrow> startswith (rev s) (rev p)"

lemma startswith_append [simp]: "startswith (p @ s) p"
  by (simp add: startswith_def)

lemma startswithD: "startswith s p \<Longrightarrow> s = p @ drop (length p) s"
  unfolding startswith_def by (metis append_take_drop_id)

lemma strip_by_subset: "set (strip_by P s) \<subseteq> set s"
  by (auto simp: strip_by_def rstrip_by_def lstrip_by_def dest!: set_dropWhileD)

lemma hd_lstrip: "lstrip_by P s \<noteq> [] \<Longrightarrow> \<not> P (hd (lstrip_by P s))"
  by (simp add: lstrip_by_def hd_dropWhile)

lemma last_rstrip: "rstrip_by P s \<noteq> [] \<Longrightarrow> \<not> P (last (rstrip_by P s))"
  by (simp add: rstrip_by_def last_rev hd_dropWhile)

lemma rstrip_prefix: "\<exists>t. s = rstrip_by P s @ t"
proof -
  have "s = rev (takeWhile P (rev s) @ dropWhile P (rev s))" by simp
  also have "\<dots> = rstrip_by P s @ rev (takeWhile P (rev s))"
    by (simp only: rstrip_by_def rev_append)
  finally show ?thesis by blast
qed

lemma hd_strip_by: "strip_by P s \<noteq> [] \<Longrightarrow> \<not> P (hd (strip_by P s))"
proof -
  assume ne: "strip_by P s \<noteq> []"
  obtain t where t: "lstrip_by P s = rstrip_by P (lstrip_by P s) @ t"
    using rstrip_prefix by blast
  with ne have "hd (strip_by P s) = hd (lstrip_by P s)"
    unfolding strip_by_def by (metis hd_append2)
  moreover from t ne have "lstrip_by P s \<noteq> []" by (auto simp: strip_by_def)
  ultimately show ?thesis by (metis hd_lstrip)
qed

lemma last_strip_by: "strip_by P s \<noteq> [] \<Longrightarrow> \<not> P (last (strip_by P s))"
  unfolding strip_by_def by (rule last_rstrip)

lemma strip_by_fixed:
  "s = [] \<or> \<not> P (hd s) \<and> \<not> P (last s) \<Longrightarrow> strip_by P s = s"
proof (cases s rule: rev_cases)
  case Nil
  then show ?thesis by (simp add: strip_by_def lstrip_by_def rstrip_by_def)
next
  case (snoc t c)
  moreover assume "s = [] \<or> \<not> P (hd s) \<and> \<not> P (last s)"
  ultimately have "\<not> P (hd s)" "\<not> P c" by auto
  moreover from this have "dropWhile P s = s" by (cases s) auto
  ultimately show ?thesis
    using snoc by (simp add: strip_by_def lstrip_by_def rstrip_by_def)
qed

lemma strip_by_idem [simp]: "strip_by P (strip_by P s) = strip_by P s"
  by (rule strip_by_fixed) (metis hd_strip_by last_strip_by)

lemma strip_idem [simp]: "strip (strip s) = strip s"
  by (simp add: strip_def)

lemma strip_by_eq_Nil_iff: "strip_by P s = [] \<longleftrightarrow> (\<forall>c \<in> set s. P c)"
  by (auto simp: strip_by_def rstrip_by_def lstrip_by_def dropWhile_eq_Nil_conv
      dest: set_dropWhileD) (metis dropWhile_eq_Nil_conv hd_dropWhile hd_in_set)

subsection \<open>Splitting and joining\<close>

text \<open>\<^verbatim>\<open>s.split(c)\<close> for a one-character separator, \<^verbatim>\<open>c.join(xs)\<close>.\<close>

fun split_on :: "char \<Rightarrow> string \<Rightarrow> string list" where
  "split_on c [] = [[]]"
| "split_on c (x # s) =
     (if x = c then [] # split_on c s
      else (x # hd (split_on c s)) # tl (split_on c s))"

fun join_with :: "string \<Rightarrow> string list \<Rightarrow> string" where
  "join_with sep [] = []"
| "join_with sep [x] = x"
| "join_with sep (x # y # xs) = x @ sep @ join_with sep (y # xs)"

lemma split_on_ne [simp]: "split_on c s \<noteq> []"
  by (cases s) auto

lemma split_on_hd_tl: "hd (split_on c s) # tl (split_on c s) = split_on c s"
  by (simp add: list.collapse)

lemma split_on_no_sep: "c \<notin> set s \<Longrightarrow> split_on c s = [s]"
  by (induction s) auto

lemma split_on_append:
  "c \<notin> set s \<Longrightarrow> split_on c (s @ c # t) = s # split_on c t"
  by (induction s) auto

lemma split_join:
  "xs \<noteq> [] \<Longrightarrow> \<forall>x \<in> set xs. c \<notin> set x \<Longrightarrow> split_on c (join_with [c] xs) = xs"
  by (induction xs rule: induct_list012) (auto simp: split_on_no_sep split_on_append)

lemma join_with_Cons: "xs \<noteq> [] \<Longrightarrow> join_with sep (x # xs) = x @ sep @ join_with sep xs"
  by (cases xs) auto

lemma join_with_Cons_char: "join_with sep ((c # x) # xs) = c # join_with sep (x # xs)"
  by (cases xs) auto

lemma join_split: "join_with [c] (split_on c s) = s"
  by (induction s) (auto simp: join_with_Cons join_with_Cons_char split_on_hd_tl)

subsection \<open>Decimal numerals\<close>

definition digit_char :: "nat \<Rightarrow> char" where
  "digit_char d = char_of (48 + d)"

definition digit_val :: "char \<Rightarrow> nat" where
  "digit_val c = ord_of c - 48"

fun show_nat :: "nat \<Rightarrow> string" where
  "show_nat n = (if n < 10 then [digit_char n] else show_nat (n div 10) @ [digit_char (n mod 10)])"

declare show_nat.simps [simp del]

definition show_int :: "int \<Rightarrow> string" where
  "show_int i = (if i < 0 then CHR ''-'' # show_nat (nat (- i)) else show_nat (nat i))"

definition digits_val :: "string \<Rightarrow> nat" where
  "digits_val s = foldl (\<lambda>n c. 10 * n + digit_val c) 0 s"

text \<open>\<^verbatim>\<open>int(s)\<close> on a non-empty run of ASCII digits; anything else is refused.\<close>

definition parse_nat :: "string \<Rightarrow> nat option" where
  "parse_nat s = (if s \<noteq> [] \<and> list_all is_digit s then Some (digits_val s) else None)"

lemma ord_digit_char [simp]: "d < 10 \<Longrightarrow> ord_of (digit_char d) = 48 + d"
  by (simp add: digit_char_def of_char_of)

lemma is_digit_digit_char [simp]: "d < 10 \<Longrightarrow> is_digit (digit_char d)"
  by (simp add: is_digit_def)

lemma digit_val_digit_char [simp]: "d < 10 \<Longrightarrow> digit_val (digit_char d) = d"
  by (simp add: digit_val_def)

lemma show_nat_digits: "list_all is_digit (show_nat n)"
  by (induction n rule: show_nat.induct) (subst show_nat.simps, simp)

lemma show_nat_ne [simp]: "show_nat n \<noteq> []"
  by (subst show_nat.simps) simp

lemma digits_val_snoc [simp]: "digits_val (s @ [c]) = 10 * digits_val s + digit_val c"
  by (simp add: digits_val_def)

lemma digits_val_show_nat [simp]: "digits_val (show_nat n) = n"
proof (induction n rule: show_nat.induct)
  case (1 n)
  show ?case
  proof (cases "n < 10")
    case True
    then show ?thesis by (subst show_nat.simps) (simp add: digits_val_def)
  next
    case False
    with 1 show ?thesis by (subst show_nat.simps) simp
  qed
qed

lemma parse_show_nat [simp]: "parse_nat (show_nat n) = Some n"
  by (simp add: parse_nat_def show_nat_digits)

lemma show_nat_inj [simp]: "show_nat m = show_nat n \<longleftrightarrow> m = n"
  by (metis digits_val_show_nat)

lemma digit_in_show_nat: "c \<in> set (show_nat n) \<Longrightarrow> is_digit c"
  using show_nat_digits[of n] by (simp add: list_all_iff)

subsection \<open>Representation of strings\<close>

text \<open>\<^verbatim>\<open>repr(s)\<close>: single quotes, unless the string has a single quote and no double quote;
  backslash, the quote in use and the control characters are escaped.\<close>

definition hex_digit :: "nat \<Rightarrow> char" where
  "hex_digit d = (if d < 10 then char_of (48 + d) else char_of (87 + d))"

definition repr_char :: "char \<Rightarrow> char \<Rightarrow> string" where
  "repr_char q c =
     (if c = q \<or> ord_of c = 92 then [char_of (92::nat), c]
      else if ord_of c = 10 then [char_of (92::nat), CHR ''n'']
      else if ord_of c = 13 then [char_of (92::nat), CHR ''r'']
      else if ord_of c = 9 then [char_of (92::nat), CHR ''t'']
      else if ord_of c < 32 \<or> ord_of c = 127
        then [char_of (92::nat), CHR ''x'', hex_digit (ord_of c div 16), hex_digit (ord_of c mod 16)]
      else [c])"

definition repr_str :: "string \<Rightarrow> string" where
  "repr_str s =
     (let q = (if char_of (39::nat) \<in> set s \<and> char_of (34::nat) \<notin> set s
               then char_of (34::nat) else char_of (39::nat))
      in [q] @ concat (map (repr_char q) s) @ [q])"

subsection \<open>Signed numerals\<close>

definition int_of_str :: "string \<Rightarrow> int" where
  "int_of_str s =
     (case s of [] \<Rightarrow> 0 | c # t \<Rightarrow> if c = CHR ''-'' then - int (digits_val t) else int (digits_val s))"

lemma hd_show_nat: "hd (show_nat n) \<noteq> CHR ''-''"
proof -
  have "is_digit (hd (show_nat n))" by (rule digit_in_show_nat[of _ n]) simp
  then show ?thesis by (auto simp: is_digit_def)
qed

lemma int_of_str_show_int [simp]: "int_of_str (show_int i) = i"
proof (cases "i < 0")
  case True
  then show ?thesis by (simp add: int_of_str_def show_int_def)
next
  case False
  obtain c t where ct: "show_nat (nat i) = c # t" by (cases "show_nat (nat i)") simp_all
  then have "digits_val (c # t) = nat i" by (metis digits_val_show_nat)
  moreover have "c \<noteq> CHR ''-''" using hd_show_nat[of "nat i"] ct by simp
  ultimately show ?thesis using False ct by (simp add: int_of_str_def show_int_def)
qed

lemma show_int_inj [simp]: "show_int i = show_int j \<longleftrightarrow> i = j"
  by (metis int_of_str_show_int)

lemma show_int_ne [simp]: "show_int i \<noteq> []"
  by (simp add: show_int_def)

end
