(* ===== verification/Errors.thy ===== *)
theory Errors
  imports Py_Text
begin

text \<open>
  Exceptions (\<^verbatim>\<open>kernel/errors\<close> and the error classes the other packages declare). A class is a
  constructor of \<open>exc_class\<close>, its base class is given by \<open>superclass\<close>, and \<open>issubclass\<close> is the
  reflexive-transitive closure computed along the (single-inheritance) chain. The three classes
  Python calls \<^verbatim>\<open>TimeoutError\<close> are kept apart: \<open>BuiltinTimeoutError\<close> (also
  \<^verbatim>\<open>asyncio.TimeoutError\<close>), \<open>AppTimeoutError\<close> and \<open>InfraTimeoutError\<close>. Classes declared by users of
  the library are \<open>UserError\<close> with their name and base.

  An exception object carries its class, message, code, detail, the attributes a subclass adds,
  its cause, and a second exception a class may keep (\<^verbatim>\<open>compensation_error\<close> of a failed saga). A fallible computation returns \<open>exn + 'a\<close>; a callback that also acts on
  the world is an \<open>act\<close>.
\<close>

datatype exc_class =
    BaseException
  | Exception
  | CancelledError
  | ValueError
  | TypeError
  | LookupError
  | KeyError
  | RuntimeError
  | NotImplementedError
  | OSError
  | FileNotFoundError
  | BuiltinTimeoutError
  | BaseError
  | DomainError
  | InvariantViolationError
  | ValidationError
  | NotFoundError
  | ConflictError
  | ApplicationError
  | UnauthorizedError
  | ForbiddenError
  | RateLimitError
  | AppTimeoutError
  | BulkheadFullError
  | ConfigError
  | MissingRequiredSettingError
  | InvalidSettingValueError
  | InfrastructureError
  | InfraConnectionError
  | InfraTimeoutError
  | SerializationError
  | ExternalServiceError
  | CircuitOpenError
  | SagaError
  | SagaFailedError
  | SagaCompensationFailedError
  | OptimisticConcurrencyError
  | InvalidTransitionError
  | BackpressureError
  | ThrottledError
  | DeadlineExceededError
  | PKCEError
  | PKCEVerificationError
  | FileValidationError
  | UserError string exc_class

fun superclass :: "exc_class \<Rightarrow> exc_class option" where
  "superclass BaseException = None"
| "superclass Exception = Some BaseException"
| "superclass CancelledError = Some BaseException"
| "superclass LookupError = Some Exception"
| "superclass KeyError = Some LookupError"
| "superclass NotImplementedError = Some RuntimeError"
| "superclass FileNotFoundError = Some OSError"
| "superclass BuiltinTimeoutError = Some OSError"
| "superclass DomainError = Some BaseError"
| "superclass InvariantViolationError = Some DomainError"
| "superclass ValidationError = Some DomainError"
| "superclass NotFoundError = Some DomainError"
| "superclass ConflictError = Some DomainError"
| "superclass ApplicationError = Some BaseError"
| "superclass UnauthorizedError = Some ApplicationError"
| "superclass ForbiddenError = Some ApplicationError"
| "superclass RateLimitError = Some ApplicationError"
| "superclass AppTimeoutError = Some ApplicationError"
| "superclass BulkheadFullError = Some ApplicationError"
| "superclass ConfigError = Some ApplicationError"
| "superclass MissingRequiredSettingError = Some ConfigError"
| "superclass InvalidSettingValueError = Some ConfigError"
| "superclass InfrastructureError = Some BaseError"
| "superclass InfraConnectionError = Some InfrastructureError"
| "superclass InfraTimeoutError = Some InfrastructureError"
| "superclass SerializationError = Some InfrastructureError"
| "superclass ExternalServiceError = Some InfrastructureError"
| "superclass CircuitOpenError = Some InfrastructureError"
| "superclass SagaFailedError = Some SagaError"
| "superclass SagaCompensationFailedError = Some SagaError"
| "superclass PKCEError = Some ValueError"
| "superclass PKCEVerificationError = Some PKCEError"
| "superclass FileValidationError = Some ValueError"
| "superclass (UserError n c) = Some c"
| "superclass _ = Some Exception"

text \<open>The chain of base classes (\<^verbatim>\<open>type(e).__mro__\<close> without \<^verbatim>\<open>object\<close>). The depth of a library
  class is at most six; a user class adds one to its base.\<close>

fun class_depth :: "exc_class \<Rightarrow> nat" where
  "class_depth (UserError n c) = Suc (class_depth c)"
| "class_depth _ = 6"

fun mro_upto :: "nat \<Rightarrow> exc_class \<Rightarrow> exc_class list" where
  "mro_upto 0 c = [c]"
| "mro_upto (Suc n) c = c # (case superclass c of None \<Rightarrow> [] | Some d \<Rightarrow> mro_upto n d)"

definition mro :: "exc_class \<Rightarrow> exc_class list" where
  "mro c = mro_upto (class_depth c) c"

definition issubclass :: "exc_class \<Rightarrow> exc_class \<Rightarrow> bool" where
  "issubclass c d \<longleftrightarrow> d \<in> set (mro c)"

text \<open>\<^verbatim>\<open>default_code\<close> as the class attribute lookup finds it: the class's own entry, or the one
  inherited from the nearest base. Only subclasses of \<^verbatim>\<open>BaseError\<close> have it.\<close>

fun own_code :: "exc_class \<Rightarrow> string option" where
  "own_code BaseError = Some ''base_error''"
| "own_code DomainError = Some ''domain_error''"
| "own_code InvariantViolationError = Some ''invariant_violation''"
| "own_code ValidationError = Some ''validation_error''"
| "own_code NotFoundError = Some ''not_found''"
| "own_code ConflictError = Some ''conflict''"
| "own_code ApplicationError = Some ''application_error''"
| "own_code UnauthorizedError = Some ''unauthorized''"
| "own_code ForbiddenError = Some ''forbidden''"
| "own_code RateLimitError = Some ''rate_limit_exceeded''"
| "own_code AppTimeoutError = Some ''timeout''"
| "own_code BulkheadFullError = Some ''bulkhead_full''"
| "own_code ConfigError = Some ''config_error''"
| "own_code MissingRequiredSettingError = Some ''missing_required_setting''"
| "own_code InvalidSettingValueError = Some ''invalid_setting_value''"
| "own_code InfrastructureError = Some ''infrastructure_error''"
| "own_code InfraConnectionError = Some ''connection_error''"
| "own_code InfraTimeoutError = Some ''infrastructure_timeout''"
| "own_code SerializationError = Some ''serialization_error''"
| "own_code ExternalServiceError = Some ''external_service_error''"
| "own_code _ = None"

fun first_some :: "('a \<Rightarrow> 'b option) \<Rightarrow> 'a list \<Rightarrow> 'b option" where
  "first_some f [] = None"
| "first_some f (x # xs) = (case f x of None \<Rightarrow> first_some f xs | Some y \<Rightarrow> Some y)"

definition default_code :: "exc_class \<Rightarrow> string" where
  "default_code c = (case first_some own_code (mro c) of None \<Rightarrow> [] | Some s \<Rightarrow> s)"

subsection \<open>Exception objects\<close>

datatype exn =
  Exn (exn_class: exc_class) (exn_message: string) (exn_code: string)
    (exn_detail: "(string \<times> pyval) list") (exn_attrs: "(string \<times> pyval) list")
    (exn_cause: "exn option") (exn_other: "exn option")

text \<open>An exception that is not a \<^verbatim>\<open>BaseError\<close>: class and message only.\<close>

definition plain_exn :: "exc_class \<Rightarrow> string \<Rightarrow> exn" where
  "plain_exn c m = Exn c m [] [] [] None None"

text \<open>\<^verbatim>\<open>BaseError.__init__\<close>: \<^verbatim>\<open>code or default_code\<close>, \<^verbatim>\<open>detail or {}\<close>.\<close>

definition BaseError_init ::
  "exc_class \<Rightarrow> string \<Rightarrow> string option \<Rightarrow> (string \<times> pyval) list option \<Rightarrow> exn option \<Rightarrow> exn" where
  "BaseError_init c msg code detail cause =
     Exn c msg (str_or code (default_code c)) (case detail of None \<Rightarrow> [] | Some d \<Rightarrow> d) [] cause None"

abbreviation base_exn :: "exc_class \<Rightarrow> string \<Rightarrow> exn" where
  "base_exn c msg \<equiv> BaseError_init c msg None None None"

definition with_attr :: "string \<Rightarrow> pyval \<Rightarrow> exn \<Rightarrow> exn" where
  "with_attr k v e =
     Exn (exn_class e) (exn_message e) (exn_code e) (exn_detail e)
       (dict_set k v (exn_attrs e)) (exn_cause e) (exn_other e)"

definition opt_str :: "string option \<Rightarrow> pyval" where
  "opt_str x = (case x of None \<Rightarrow> PNone | Some s \<Rightarrow> PStr s)"

text \<open>\<open>quoted s\<close> is \<open>s\<close> between single quotes, as the f-strings of the messages write it.\<close>

definition quoted :: "string \<Rightarrow> string" where
  "quoted s = [char_of (39::nat)] @ s @ [char_of (39::nat)]"

definition ForbiddenError_init :: "string \<Rightarrow> string option \<Rightarrow> exn" where
  "ForbiddenError_init msg permission =
     with_attr ''permission'' (opt_str permission) (base_exn ForbiddenError msg)"

definition RateLimitError_init :: "string \<Rightarrow> rat option \<Rightarrow> exn" where
  "RateLimitError_init msg retry_after =
     with_attr ''retry_after_seconds''
       (case retry_after of None \<Rightarrow> PNone | Some q \<Rightarrow> PFloat q) (base_exn RateLimitError msg)"

definition ValidationError_init :: "string \<Rightarrow> pyval list option \<Rightarrow> exn" where
  "ValidationError_init msg errors =
     with_attr ''errors'' (PList (case errors of None \<Rightarrow> [] | Some es \<Rightarrow> es))
       (base_exn ValidationError msg)"

definition NotFoundError_init :: "string \<Rightarrow> string option \<Rightarrow> exn" where
  "NotFoundError_init resource identifier =
     with_attr ''identifier'' (opt_str identifier)
       (with_attr ''resource'' (PStr resource)
         (base_exn NotFoundError
           (case identifier of
              None \<Rightarrow> resource @ '' not found''
            | Some i \<Rightarrow> resource @ '' '' @ quoted i @ '' not found'')))"

definition ConnectionError_init :: "string \<Rightarrow> string option \<Rightarrow> exn" where
  "ConnectionError_init resource msg =
     with_attr ''resource'' (PStr resource)
       (base_exn InfraConnectionError (str_or msg (''Could not connect to '' @ quoted resource)))"

definition SerializationError_init :: "string \<Rightarrow> string option \<Rightarrow> exn" where
  "SerializationError_init msg payload_type =
     with_attr ''payload_type'' (opt_str payload_type) (base_exn SerializationError msg)"

definition ExternalServiceError_init :: "string \<Rightarrow> string option \<Rightarrow> int option \<Rightarrow> exn" where
  "ExternalServiceError_init service msg status =
     with_attr ''status_code'' (case status of None \<Rightarrow> PNone | Some i \<Rightarrow> PInt i)
       (with_attr ''service'' (PStr service)
         (base_exn ExternalServiceError
           (str_or msg (''External service '' @ quoted service @ '' error''))))"

definition CircuitOpenError_init :: "string \<Rightarrow> string option \<Rightarrow> exn" where
  "CircuitOpenError_init name msg =
     with_attr ''circuit_name'' (PStr name)
       (base_exn CircuitOpenError
         (str_or msg (''Circuit breaker '' @ quoted name @ '' is OPEN'')))"

definition MissingRequiredSettingError_init :: "string \<Rightarrow> exn" where
  "MissingRequiredSettingError_init name =
     with_attr ''setting_name'' (PStr name)
       (base_exn MissingRequiredSettingError
         (''Required setting '' @ quoted name @ '' is missing''))"

text \<open>\<^verbatim>\<open>to_dict\<close>: the base payload, the cause's \<^verbatim>\<open>repr\<close> when there is a cause, then what the
  overriding classes add. \<open>repr_exn\<close> stands for \<^verbatim>\<open>repr\<close> of the cause.\<close>

definition BaseError_to_dict :: "(exn \<Rightarrow> string) \<Rightarrow> exn \<Rightarrow> (string \<times> pyval) list" where
  "BaseError_to_dict repr_exn e =
     (let payload = [(''code'', PStr (exn_code e)), (''message'', PStr (exn_message e)),
                     (''detail'', PDict (exn_detail e))]
      in case exn_cause e of
           None \<Rightarrow> payload
         | Some c \<Rightarrow> dict_set ''cause'' (PStr (repr_exn c)) payload)"

definition to_dict :: "(exn \<Rightarrow> string) \<Rightarrow> exn \<Rightarrow> (string \<times> pyval) list" where
  "to_dict repr_exn e =
     (let base = BaseError_to_dict repr_exn e;
          add = (\<lambda>k. case map_of (exn_attrs e) k of None \<Rightarrow> base | Some v \<Rightarrow> dict_set k v base)
      in if issubclass (exn_class e) ValidationError then add ''errors''
         else if issubclass (exn_class e) CircuitOpenError then add ''circuit_name''
         else base)"

definition isinstance :: "exn \<Rightarrow> exc_class list \<Rightarrow> bool" where
  "isinstance e cs \<longleftrightarrow> (\<exists>c \<in> set cs. issubclass (exn_class e) c)"

text \<open>\<^verbatim>\<open>except Exception\<close> catches everything but the classes that derive from
  \<^verbatim>\<open>BaseException\<close> directly.\<close>

definition catchable :: "exn \<Rightarrow> bool" where
  "catchable e \<longleftrightarrow> isinstance e [Exception]"

type_synonym ('w, 'a) act = "'w \<Rightarrow> (exn + 'a) \<times> 'w"

subsection \<open>Facts about the hierarchy\<close>

lemma mro_step: "mro c = c # (case superclass c of None \<Rightarrow> [] | Some d \<Rightarrow> mro d)"
  by (cases c) (simp_all add: mro_def eval_nat_numeral)

lemma mro_refl [simp]: "c \<in> set (mro c)"
  by (subst mro_step) simp

lemma issubclass_refl [simp, intro]: "issubclass c c"
  by (simp add: issubclass_def)

lemma issubclass_step:
  "issubclass c d \<longleftrightarrow> d = c \<or> (case superclass c of None \<Rightarrow> False | Some b \<Rightarrow> issubclass b d)"
  by (subst issubclass_def, subst mro_step) (auto simp: issubclass_def split: option.splits)

text \<open>The chain is complete: it follows \<open>superclass\<close> up to \<^verbatim>\<open>BaseException\<close>.\<close>

inductive derives :: "exc_class \<Rightarrow> exc_class \<Rightarrow> bool" where
  derives_refl: "derives c c"
| derives_step: "superclass c = Some d \<Longrightarrow> derives d e \<Longrightarrow> derives c e"

lemma issubclass_iff_derives: "issubclass c d \<longleftrightarrow> derives c d"
proof
  assume "derives c d"
  then show "issubclass c d"
  proof induction
    case (derives_step c d e)
    then show ?case by (subst issubclass_step) simp
  qed simp
next
  have "d \<in> set (mro_upto n c) \<Longrightarrow> derives c d" for n
    by (induction n c rule: mro_upto.induct)
       (auto intro: derives.intros derives_step[OF sym] split: option.splits)
  then show "issubclass c d \<Longrightarrow> derives c d"
    by (simp add: issubclass_def mro_def)
qed

lemma derives_trans: "derives c d \<Longrightarrow> derives d e \<Longrightarrow> derives c e"
  by (induction rule: derives.induct) (auto intro: derives.intros)

lemma issubclass_trans: "issubclass c d \<Longrightarrow> issubclass d e \<Longrightarrow> issubclass c e"
  by (simp add: issubclass_iff_derives) (rule derives_trans)

lemma isinstance_sub:
  "isinstance e cs \<Longrightarrow> \<forall>c \<in> set cs. issubclass c d \<Longrightarrow> isinstance e [d]"
  by (auto simp: isinstance_def intro: issubclass_trans)

lemma exn_class_with_attr [simp]: "exn_class (with_attr k v e) = exn_class e"
  by (simp add: with_attr_def)

lemma exn_class_BaseError_init [simp]: "exn_class (BaseError_init c m co d ca) = c"
  by (simp add: BaseError_init_def)

lemma exn_class_plain [simp]: "exn_class (plain_exn c m) = c"
  by (simp add: plain_exn_def)

lemmas error_inits =
  ForbiddenError_init_def RateLimitError_init_def ValidationError_init_def NotFoundError_init_def
  ConnectionError_init_def SerializationError_init_def ExternalServiceError_init_def
  CircuitOpenError_init_def MissingRequiredSettingError_init_def

end
