(* ===== verification/Circuit_Breaker.thy ===== *)
theory Circuit_Breaker
  imports Errors
begin

text \<open>
  The in-process circuit breaker (\<^verbatim>\<open>resilience/circuit_breaker/breaker.py\<close>, \<^verbatim>\<open>policy.py\<close>,
  \<^verbatim>\<open>state.py\<close>). The lock of \<^verbatim>\<open>call\<close> is released while the guarded function runs, so a call is
  three atomic parts: admission, the function itself, and the recording of its outcome.
  \<open>CircuitBreaker_call\<close> composes them for one caller; \<open>cb_step\<close> interleaves them for any number of
  concurrent callers. The contract is the three-state machine \<open>cb_spec\<close>, which the detailed
  operations refine through \<open>cb_abs\<close>. Times are seconds (\<^verbatim>\<open>time.monotonic()\<close>).
\<close>

datatype CircuitBreakerState = CLOSED | OPEN | HALF_OPEN

record CircuitBreakerPolicy =
  failure_threshold :: int
  success_threshold :: int
  timeout_seconds :: rat
  window_seconds :: rat
  excluded_exceptions :: "exc_class list"

record CircuitBreaker =
  cb_name :: string
  cb_policy :: CircuitBreakerPolicy
  cb_state :: CircuitBreakerState
  cb_failure_count :: int
  cb_success_count :: int
  cb_opened_at :: "rat option"

definition default_CircuitBreakerPolicy :: CircuitBreakerPolicy where
  "default_CircuitBreakerPolicy =
     \<lparr>failure_threshold = 5, success_threshold = 2, timeout_seconds = 30, window_seconds = 60,
      excluded_exceptions = []\<rparr>"

definition CircuitBreaker_init :: "string \<Rightarrow> CircuitBreakerPolicy option \<Rightarrow> CircuitBreaker" where
  "CircuitBreaker_init name policy =
     \<lparr>cb_name = name,
      cb_policy = (case policy of None \<Rightarrow> default_CircuitBreakerPolicy | Some p \<Rightarrow> p),
      cb_state = CLOSED, cb_failure_count = 0, cb_success_count = 0, cb_opened_at = None\<rparr>"

definition maybe_transition_half_open :: "rat \<Rightarrow> CircuitBreaker \<Rightarrow> CircuitBreaker" where
  "maybe_transition_half_open now cb =
     (if cb_state cb = OPEN
         \<and> (case cb_opened_at cb of
              None \<Rightarrow> False
            | Some t \<Rightarrow> timeout_seconds (cb_policy cb) \<le> now - t)
      then cb\<lparr>cb_state := HALF_OPEN, cb_success_count := 0\<rparr>
      else cb)"

definition CircuitBreaker_on_success :: "CircuitBreaker \<Rightarrow> CircuitBreaker" where
  "CircuitBreaker_on_success cb =
     (case cb_state cb of
        HALF_OPEN \<Rightarrow>
          (let n = cb_success_count cb + 1
           in if success_threshold (cb_policy cb) \<le> n
              then cb\<lparr>cb_success_count := n, cb_state := CLOSED, cb_failure_count := 0\<rparr>
              else cb\<lparr>cb_success_count := n\<rparr>)
      | CLOSED \<Rightarrow> cb\<lparr>cb_failure_count := 0\<rparr>
      | OPEN \<Rightarrow> cb)"

definition CircuitBreaker_on_failure :: "rat \<Rightarrow> CircuitBreaker \<Rightarrow> CircuitBreaker" where
  "CircuitBreaker_on_failure now cb =
     (let n = cb_failure_count cb + 1
      in if failure_threshold (cb_policy cb) \<le> n
         then cb\<lparr>cb_state := OPEN, cb_opened_at := Some now, cb_failure_count := 0\<rparr>
         else cb\<lparr>cb_failure_count := n\<rparr>)"

text \<open>The two locked sections of \<^verbatim>\<open>call\<close>: admission (\<^verbatim>\<open>None\<close> when the call goes on) and the
  recording of the outcome. An exception outside \<^verbatim>\<open>Exception\<close>, such as a cancellation, skips the
  handler; an excluded one is re-raised before the failure is counted.\<close>

definition CircuitBreaker_admit :: "rat \<Rightarrow> CircuitBreaker \<Rightarrow> exn option \<times> CircuitBreaker" where
  "CircuitBreaker_admit now cb =
     (let cb' = maybe_transition_half_open now cb
      in (if cb_state cb' = OPEN then Some (CircuitOpenError_init (cb_name cb') None) else None, cb'))"

definition counts_as_failure :: "CircuitBreakerPolicy \<Rightarrow> exn \<Rightarrow> bool" where
  "counts_as_failure p e \<longleftrightarrow> catchable e \<and> \<not> isinstance e (excluded_exceptions p)"

definition CircuitBreaker_record :: "rat \<Rightarrow> exn + 'a \<Rightarrow> CircuitBreaker \<Rightarrow> CircuitBreaker" where
  "CircuitBreaker_record now outcome cb =
     (case outcome of
        Inr _ \<Rightarrow> CircuitBreaker_on_success cb
      | Inl e \<Rightarrow> if counts_as_failure (cb_policy cb) e then CircuitBreaker_on_failure now cb else cb)"

text \<open>\<^verbatim>\<open>call\<close> for a single caller; \<open>clock\<close> reads the monotonic clock of the world the function
  acts on.\<close>

definition CircuitBreaker_call ::
  "('w \<Rightarrow> rat) \<Rightarrow> ('w, 'a) act \<Rightarrow> CircuitBreaker \<Rightarrow> 'w \<Rightarrow> (exn + 'a) \<times> CircuitBreaker \<times> 'w" where
  "CircuitBreaker_call clock func cb w =
     (case CircuitBreaker_admit (clock w) cb of
        (Some e, cb') \<Rightarrow> (Inl e, cb', w)
      | (None, cb') \<Rightarrow>
          (case func w of (r, w') \<Rightarrow> (r, CircuitBreaker_record (clock w') r cb', w')))"

subsection \<open>Contract: a three-state machine\<close>

text \<open>The states carry only what matters in them: consecutive failures when closed, the opening
  time when open, successes and failures of the probe phase when half-open. Failures of calls
  admitted before the circuit opened keep being counted while it is open.\<close>

datatype cb_spec =
    SClosed int
  | SOpen "rat option" int
  | SHalfOpen int int "rat option"

fun cb_abs :: "CircuitBreaker \<Rightarrow> cb_spec" where
  "cb_abs cb =
     (case cb_state cb of
        CLOSED \<Rightarrow> SClosed (cb_failure_count cb)
      | OPEN \<Rightarrow> SOpen (cb_opened_at cb) (cb_failure_count cb)
      | HALF_OPEN \<Rightarrow> SHalfOpen (cb_success_count cb) (cb_failure_count cb) (cb_opened_at cb))"

fun spec_admit :: "CircuitBreakerPolicy \<Rightarrow> rat \<Rightarrow> cb_spec \<Rightarrow> bool \<times> cb_spec" where
  "spec_admit p now (SOpen (Some t) f) =
     (if timeout_seconds p \<le> now - t then (True, SHalfOpen 0 f (Some t)) else (False, SOpen (Some t) f))"
| "spec_admit p now (SOpen None f) = (False, SOpen None f)"
| "spec_admit p now s = (True, s)"

fun spec_success :: "CircuitBreakerPolicy \<Rightarrow> cb_spec \<Rightarrow> cb_spec" where
  "spec_success p (SClosed _) = SClosed 0"
| "spec_success p (SOpen t f) = SOpen t f"
| "spec_success p (SHalfOpen s f t) =
     (if success_threshold p \<le> s + 1 then SClosed 0 else SHalfOpen (s + 1) f t)"

fun spec_failure :: "CircuitBreakerPolicy \<Rightarrow> rat \<Rightarrow> cb_spec \<Rightarrow> cb_spec" where
  "spec_failure p now (SClosed f) =
     (if failure_threshold p \<le> f + 1 then SOpen (Some now) 0 else SClosed (f + 1))"
| "spec_failure p now (SOpen t f) =
     (if failure_threshold p \<le> f + 1 then SOpen (Some now) 0 else SOpen t (f + 1))"
| "spec_failure p now (SHalfOpen s f t) =
     (if failure_threshold p \<le> f + 1 then SOpen (Some now) 0 else SHalfOpen s (f + 1) t)"

named_theorems cb_defs \<open>definitions of the breaker operations\<close>

declare CircuitBreaker_init_def [cb_defs] maybe_transition_half_open_def [cb_defs]
  CircuitBreaker_on_success_def [cb_defs] CircuitBreaker_on_failure_def [cb_defs]
  CircuitBreaker_admit_def [cb_defs] CircuitBreaker_record_def [cb_defs]

lemma cb_abs_admit:
  "spec_admit (cb_policy cb) now (cb_abs cb) =
     (fst (CircuitBreaker_admit now cb) = None, cb_abs (snd (CircuitBreaker_admit now cb)))"
  by (cases "cb_state cb"; cases "cb_opened_at cb") (simp_all add: cb_defs)

lemma cb_abs_success:
  "cb_abs (CircuitBreaker_on_success cb) = spec_success (cb_policy cb) (cb_abs cb)"
  by (cases "cb_state cb") (simp_all add: cb_defs Let_def)

lemma cb_abs_failure:
  "cb_abs (CircuitBreaker_on_failure now cb) = spec_failure (cb_policy cb) now (cb_abs cb)"
  by (cases "cb_state cb") (simp_all add: cb_defs Let_def)

lemma cb_policy_frame [simp]:
  "cb_policy (maybe_transition_half_open now cb) = cb_policy cb"
  "cb_policy (CircuitBreaker_on_success cb) = cb_policy cb"
  "cb_policy (CircuitBreaker_on_failure now cb) = cb_policy cb"
  "cb_policy (snd (CircuitBreaker_admit now cb)) = cb_policy cb"
  "cb_policy (CircuitBreaker_record now r cb) = cb_policy cb"
  by (auto simp: cb_defs Let_def split: CircuitBreakerState.splits sum.splits)

subsection \<open>Concurrent callers\<close>

text \<open>Events of the interleaving, each one lock acquisition of some caller. The system state is
  the breaker with the number of callers that were admitted and have not recorded an outcome.\<close>

datatype cb_event =
    Admitted rat
  | Rejected rat
  | Succeeded rat
  | Failed rat
  | Dropped rat

fun event_time :: "cb_event \<Rightarrow> rat" where
  "event_time (Admitted t) = t"
| "event_time (Rejected t) = t"
| "event_time (Succeeded t) = t"
| "event_time (Failed t) = t"
| "event_time (Dropped t) = t"

type_synonym cb_system = "CircuitBreaker \<times> nat"

inductive cb_step :: "cb_system \<Rightarrow> cb_event \<Rightarrow> cb_system \<Rightarrow> bool" where
  step_admit:
    "CircuitBreaker_admit t cb = (None, cb') \<Longrightarrow> cb_step (cb, n) (Admitted t) (cb', Suc n)"
| step_reject:
    "CircuitBreaker_admit t cb = (Some e, cb') \<Longrightarrow> cb_step (cb, n) (Rejected t) (cb', n)"
| step_success:
    "cb_step (cb, Suc n) (Succeeded t) (CircuitBreaker_on_success cb, n)"
| step_failure:
    "cb_step (cb, Suc n) (Failed t) (CircuitBreaker_on_failure t cb, n)"
| step_drop:
    "cb_step (cb, Suc n) (Dropped t) (cb, n)"

inductive_cases cb_stepE [elim!]: "cb_step s ev s'"

inductive cb_run :: "cb_system \<Rightarrow> cb_event list \<Rightarrow> cb_system \<Rightarrow> bool" where
  run_nil: "cb_run s [] s"
| run_cons: "cb_step s ev s' \<Longrightarrow> cb_run s' evs s'' \<Longrightarrow> cb_run s (ev # evs) s''"

inductive_simps cb_run_Nil [simp]: "cb_run s [] s'"
inductive_simps cb_run_Cons: "cb_run s (ev # evs) s'"

text \<open>The invariant of the reachable breakers.\<close>

definition cb_inv :: "CircuitBreakerPolicy \<Rightarrow> CircuitBreaker \<Rightarrow> bool" where
  "cb_inv p cb \<longleftrightarrow>
     cb_policy cb = p
     \<and> 0 \<le> cb_failure_count cb \<and> cb_failure_count cb < max 1 (failure_threshold p)
     \<and> (cb_state cb \<noteq> CLOSED \<longrightarrow> cb_opened_at cb \<noteq> None)
     \<and> (cb_state cb = HALF_OPEN \<longrightarrow>
          0 \<le> cb_success_count cb \<and> cb_success_count cb < max 1 (success_threshold p))"

lemma cb_inv_init [inv_intros]: "cb_inv p (CircuitBreaker_init name (Some p))"
  by (simp add: cb_inv_def cb_defs)

lemma cb_inv_success [inv_intros]: "cb_inv p cb \<Longrightarrow> cb_inv p (CircuitBreaker_on_success cb)"
  by (cases "cb_state cb") (auto simp: cb_inv_def cb_defs Let_def)

lemma cb_inv_failure [inv_intros]: "cb_inv p cb \<Longrightarrow> cb_inv p (CircuitBreaker_on_failure t cb)"
  by (auto simp: cb_inv_def cb_defs Let_def)

lemma cb_inv_half_open [inv_intros]: "cb_inv p cb \<Longrightarrow> cb_inv p (maybe_transition_half_open t cb)"
  by (auto simp: cb_inv_def cb_defs)

lemma cb_inv_admit: "CircuitBreaker_admit t cb = (r, cb') \<Longrightarrow> cb_inv p cb \<Longrightarrow> cb_inv p cb'"
  by (auto simp: CircuitBreaker_admit_def Let_def intro: inv_intros)

lemma cb_inv_step: "cb_step s ev s' \<Longrightarrow> cb_inv p (fst s) \<Longrightarrow> cb_inv p (fst s')"
  by (auto intro: inv_intros dest: cb_inv_admit)

lemma cb_inv_run: "cb_run s evs s' \<Longrightarrow> cb_inv p (fst s) \<Longrightarrow> cb_inv p (fst s')"
  by (induction rule: cb_run.induct) (simp, metis cb_inv_step)

text \<open>Callers in flight: every admission is matched by at most one recorded outcome.\<close>

definition in_flight_change :: "cb_event \<Rightarrow> int" where
  "in_flight_change ev = (case ev of Admitted _ \<Rightarrow> 1 | Rejected _ \<Rightarrow> 0 | _ \<Rightarrow> -1)"

lemma cb_run_in_flight:
  "cb_run s evs s' \<Longrightarrow> int (snd s') = int (snd s) + (\<Sum>ev\<leftarrow>evs. in_flight_change ev)"
  by (induction rule: cb_run.induct) (auto simp: in_flight_change_def)

text \<open>While the timeout of an open breaker has not elapsed, it stays open.\<close>

definition open_since :: "rat \<Rightarrow> CircuitBreaker \<Rightarrow> bool" where
  "open_since t0 cb \<longleftrightarrow> cb_state cb = OPEN \<and> (\<exists>t \<ge> t0. cb_opened_at cb = Some t)"

lemma open_since_half_open:
  "open_since t0 cb \<Longrightarrow> now < t0 + timeout_seconds (cb_policy cb) \<Longrightarrow>
   maybe_transition_half_open now cb = cb"
  by (auto simp: open_since_def cb_defs)

lemma open_since_step:
  assumes "cb_step s ev s'" and "open_since t0 (fst s)"
    and "t0 \<le> event_time ev" and "event_time ev < t0 + timeout_seconds (cb_policy (fst s))"
  shows "open_since t0 (fst s') \<and> (\<forall>t. ev \<noteq> Admitted t) \<and> cb_policy (fst s') = cb_policy (fst s)"
  using assms
proof (cases rule: cb_step.cases)
  case (step_admit t cb cb' n)
  then have "maybe_transition_half_open t cb = cb" using assms open_since_half_open by simp
  with step_admit assms show ?thesis
    by (simp add: CircuitBreaker_admit_def open_since_def split: if_splits)
next
  case (step_reject t cb e cb' n)
  then have "maybe_transition_half_open t cb = cb" using assms open_since_half_open by simp
  with step_reject assms show ?thesis by (simp add: CircuitBreaker_admit_def)
next
  case (step_success cb n t)
  with assms show ?thesis by (simp add: open_since_def cb_defs)
next
  case (step_failure cb n t)
  with assms show ?thesis by (auto simp: open_since_def cb_defs Let_def)
qed simp

lemma open_since_run:
  "cb_run s evs s' \<Longrightarrow> open_since t0 (fst s) \<Longrightarrow>
   \<forall>ev \<in> set evs. t0 \<le> event_time ev \<and> event_time ev < t0 + timeout_seconds (cb_policy (fst s)) \<Longrightarrow>
   open_since t0 (fst s') \<and> (\<forall>t. Admitted t \<notin> set evs)"
proof (induction rule: cb_run.induct)
  case (run_cons s ev s' evs s'')
  then have "open_since t0 (fst s') \<and> (\<forall>t. ev \<noteq> Admitted t) \<and> cb_policy (fst s') = cb_policy (fst s)"
    using open_since_step by simp
  with run_cons show ?case by auto
qed simp

text \<open>The same events, run on the contract.\<close>

fun spec_event :: "CircuitBreakerPolicy \<Rightarrow> cb_event \<Rightarrow> cb_spec \<Rightarrow> cb_spec option" where
  "spec_event p (Admitted t) s = (case spec_admit p t s of (ok, s') \<Rightarrow> if ok then Some s' else None)"
| "spec_event p (Rejected t) s = (case spec_admit p t s of (ok, s') \<Rightarrow> if ok then None else Some s')"
| "spec_event p (Succeeded t) s = Some (spec_success p s)"
| "spec_event p (Failed t) s = Some (spec_failure p t s)"
| "spec_event p (Dropped t) s = Some s"

fun spec_run :: "CircuitBreakerPolicy \<Rightarrow> cb_event list \<Rightarrow> cb_spec \<Rightarrow> cb_spec option" where
  "spec_run p [] s = Some s"
| "spec_run p (ev # evs) s =
     (case spec_event p ev s of None \<Rightarrow> None | Some s' \<Rightarrow> spec_run p evs s')"

declare cb_abs.simps [simp del]

lemma cb_step_refines:
  assumes "cb_step s ev s'"
  shows "spec_event (cb_policy (fst s)) ev (cb_abs (fst s)) = Some (cb_abs (fst s'))
    \<and> cb_policy (fst s') = cb_policy (fst s)"
  using assms
proof (cases rule: cb_step.cases)
  case (step_admit t cb cb' n)
  then show ?thesis using cb_abs_admit[of cb t] cb_policy_frame(4)[of t cb] by simp
next
  case (step_reject t cb e cb' n)
  then show ?thesis using cb_abs_admit[of cb t] cb_policy_frame(4)[of t cb] by simp
qed (simp_all add: cb_abs_success cb_abs_failure)

lemma cb_run_refines:
  "cb_run s evs s' \<Longrightarrow> spec_run (cb_policy (fst s)) evs (cb_abs (fst s)) = Some (cb_abs (fst s'))"
proof (induction rule: cb_run.induct)
  case (run_cons s ev s' evs s'')
  then show ?case using cb_step_refines[OF run_cons.hyps(1)] by simp
qed simp

subsection \<open>One caller, many calls\<close>

text \<open>A sequence of calls on one breaker; the results are collected in order.\<close>

fun call_all ::
  "('w \<Rightarrow> rat) \<Rightarrow> ('w, 'a) act list \<Rightarrow> CircuitBreaker \<Rightarrow> 'w \<Rightarrow> (exn + 'a) list \<times> CircuitBreaker \<times> 'w" where
  "call_all clock [] cb w = ([], cb, w)"
| "call_all clock (f # fs) cb w =
     (case CircuitBreaker_call clock f cb w of
        (r, cb', w') \<Rightarrow> (case call_all clock fs cb' w' of (rs, cb'', w'') \<Rightarrow> (r # rs, cb'', w'')))"

text \<open>The functions run one after the other, without a breaker.\<close>

fun run_all :: "('w, 'a) act list \<Rightarrow> 'w \<Rightarrow> (exn + 'a) list \<times> 'w" where
  "run_all [] w = ([], w)"
| "run_all (f # fs) w =
     (case f w of (r, w') \<Rightarrow> (case run_all fs w' of (rs, w'') \<Rightarrow> (r # rs, w'')))"

definition all_counted :: "CircuitBreakerPolicy \<Rightarrow> (exn + 'a) list \<Rightarrow> bool" where
  "all_counted p rs \<longleftrightarrow>
     list_all (\<lambda>r. case r of Inl e \<Rightarrow> counts_as_failure p e | Inr _ \<Rightarrow> False) rs"

lemma call_closed:
  assumes "cb_state cb \<noteq> OPEN" and "f w = (r, w')"
  shows "CircuitBreaker_call clock f cb w = (r, CircuitBreaker_record (clock w') r cb, w')"
  using assms by (simp add: CircuitBreaker_call_def CircuitBreaker_admit_def maybe_transition_half_open_def)

lemma call_all_failures:
  assumes "run_all fs w = (rs, w')" and "all_counted (cb_policy cb) rs"
    and "cb_state cb = CLOSED" and "cb_failure_count cb + int (length fs) < failure_threshold (cb_policy cb)"
  shows "call_all clock fs cb w =
    (rs, cb\<lparr>cb_failure_count := cb_failure_count cb + int (length fs)\<rparr>, w')"
  using assms
proof (induction fs arbitrary: cb w rs w')
  case (Cons f fs)
  obtain r w1 rs1 where f: "f w = (r, w1)" and fs: "run_all fs w1 = (rs1, w')" and rs: "rs = r # rs1"
    using Cons.prems(1) by (auto split: prod.splits)
  let ?cb = "cb\<lparr>cb_failure_count := cb_failure_count cb + 1\<rparr>"
  have "CircuitBreaker_record (clock w1) r cb = ?cb"
    using Cons.prems(2,4) rs by (auto simp: cb_defs all_counted_def Let_def split: sum.splits)
  moreover have "call_all clock fs ?cb w1 =
      (rs1, ?cb\<lparr>cb_failure_count := cb_failure_count ?cb + int (length fs)\<rparr>, w')"
    using Cons.prems fs rs by (intro Cons.IH) (auto simp: all_counted_def)
  ultimately show ?case
    using Cons.prems(3) rs by (simp add: call_closed[where f = f and w = w, OF _ f] algebra_simps)
qed simp

lemma call_all_append:
  "call_all clock (fs @ gs) cb w =
     (case call_all clock fs cb w of
        (rs, cb', w') \<Rightarrow> (case call_all clock gs cb' w' of (rs', cb'', w'') \<Rightarrow> (rs @ rs', cb'', w'')))"
  by (induction fs arbitrary: cb w) (simp_all add: split_def)

lemma run_all_append:
  "run_all (fs @ gs) w =
     (case run_all fs w of (rs, w') \<Rightarrow> (case run_all gs w' of (rs', w'') \<Rightarrow> (rs @ rs', w'')))"
  by (induction fs arbitrary: w) (simp_all add: split_def)

lemma run_all_length: "run_all fs w = (rs, w') \<Longrightarrow> length rs = length fs"
  by (induction fs arbitrary: w rs) (auto simp: split_def)

text \<open>Successful calls on a half-open breaker.\<close>

definition all_succeed :: "(exn + 'a) list \<Rightarrow> bool" where
  "all_succeed rs \<longleftrightarrow> list_all (\<lambda>r. \<not> isl r) rs"

lemma call_all_successes:
  assumes "run_all fs w = (rs, w')" and "all_succeed rs" and "cb_state cb = HALF_OPEN"
    and "cb_success_count cb + int (length fs) < success_threshold (cb_policy cb)"
  shows "call_all clock fs cb w =
    (rs, cb\<lparr>cb_success_count := cb_success_count cb + int (length fs)\<rparr>, w')"
  using assms
proof (induction fs arbitrary: cb w rs w')
  case (Cons f fs)
  obtain r w1 rs1 where f: "f w = (r, w1)" and fs: "run_all fs w1 = (rs1, w')" and rs: "rs = r # rs1"
    using Cons.prems(1) by (auto split: prod.splits)
  let ?cb = "cb\<lparr>cb_success_count := cb_success_count cb + 1\<rparr>"
  have "CircuitBreaker_record (clock w1) r cb = ?cb"
    using Cons.prems(2,3,4) rs by (auto simp: cb_defs all_succeed_def Let_def split: sum.splits)
  moreover have "call_all clock fs ?cb w1 =
      (rs1, ?cb\<lparr>cb_success_count := cb_success_count ?cb + int (length fs)\<rparr>, w')"
    using Cons.prems fs rs by (intro Cons.IH) (auto simp: all_succeed_def)
  ultimately show ?case
    using Cons.prems(3) rs by (simp add: call_closed[where f = f and w = w, OF _ f] algebra_simps)
qed simp

lemma call_closed_failure_opens:
  assumes "cb_state cb = CLOSED" and "f w = (Inl e, w')" and "counts_as_failure (cb_policy cb) e"
    and "failure_threshold (cb_policy cb) \<le> cb_failure_count cb + 1"
  shows "CircuitBreaker_call clock f cb w =
    (Inl e, cb\<lparr>cb_state := OPEN, cb_opened_at := Some (clock w'), cb_failure_count := 0\<rparr>, w')"
  using assms call_closed[where f = f and w = w and cb = cb] by (simp add: cb_defs)

lemma call_half_open_success_closes:
  assumes "cb_state cb = HALF_OPEN" and "f w = (Inr x, w')"
    and "success_threshold (cb_policy cb) \<le> cb_success_count cb + 1"
  shows "CircuitBreaker_call clock f cb w =
    (Inr x, cb\<lparr>cb_success_count := cb_success_count cb + 1, cb_state := CLOSED,
              cb_failure_count := 0\<rparr>, w')"
  using assms call_closed[where f = f and w = w and cb = cb] by (simp add: cb_defs)

lemma call_all_half_open:
  assumes "cb_state cb = OPEN" and "cb_opened_at cb = Some t"
    and "timeout_seconds (cb_policy cb) \<le> clock w - t" and "fs \<noteq> []"
  shows "call_all clock fs cb w =
    call_all clock fs (cb\<lparr>cb_state := HALF_OPEN, cb_success_count := 0\<rparr>) w"
  using assms by (cases fs) (simp_all add: CircuitBreaker_call_def CircuitBreaker_admit_def
      maybe_transition_half_open_def)

inductive_simps cb_step_simps:
  "cb_step (cb, n) (Admitted t) s'"
  "cb_step (cb, n) (Rejected t) s'"
  "cb_step (cb, n) (Succeeded t) s'"
  "cb_step (cb, n) (Failed t) s'"
  "cb_step (cb, n) (Dropped t) s'"

text \<open>A policy for the examples.\<close>

definition demo_policy :: CircuitBreakerPolicy where
  "demo_policy = \<lparr>failure_threshold = 2, success_threshold = 2, timeout_seconds = 10,
     window_seconds = 60, excluded_exceptions = [KeyError]\<rparr>"

subsection \<open>Properties\<close>

text \<open>C1. Whatever the interleaving of concurrent callers, a breaker started closed keeps its
  counters in range (a failure count below the threshold, a success count below the success
  threshold while half-open), never forgets the opening time while it is not closed, and never
  changes its policy; the callers in flight are exactly the admissions without an outcome.\<close>

theorem circuit_breaker_invariant:
  assumes "cb_run (CircuitBreaker_init name (Some p), 0) evs (cb, n)"
  shows "cb_inv p cb \<and> int n = (\<Sum>ev\<leftarrow>evs. in_flight_change ev)"
  using cb_inv_run[OF assms, of p] cb_run_in_flight[OF assms] cb_inv_init by simp

theorem circuit_breaker_invariant_witness:
  "\<exists>cb. cb_run (CircuitBreaker_init ''db'' (Some demo_policy), 0)
      [Admitted 0, Admitted 1, Failed 2, Failed 3, Rejected 5, Admitted 14] (cb, 1)
    \<and> cb_inv demo_policy cb \<and> cb_state cb = HALF_OPEN"
proof -
  obtain cb where run: "cb_run (CircuitBreaker_init ''db'' (Some demo_policy), 0)
      [Admitted 0, Admitted 1, Failed 2, Failed 3, Rejected 5, Admitted 14] (cb, 1)"
    and st: "cb_state cb = HALF_OPEN"
    by (simp add: cb_run_Cons cb_step_simps cb_defs demo_policy_def)
  from circuit_breaker_invariant[OF run] run st show ?thesis by blast
qed

text \<open>C2. Under every interleaving the breaker behaves as the three-state machine: the events it
  accepts, in the order it accepts them, are a run of the contract from the closed state, ending
  in the contract's view of the final breaker.\<close>

theorem circuit_breaker_refines_contract:
  assumes "cb_run (CircuitBreaker_init name (Some p), 0) evs (cb, n)"
  shows "spec_run p evs (SClosed 0) = Some (cb_abs cb)"
  using cb_run_refines[OF assms] by (simp add: CircuitBreaker_init_def cb_abs.simps)

theorem circuit_breaker_refines_contract_witness:
  "spec_run demo_policy [Admitted 0, Failed 2] (SClosed 0)
    = Some (cb_abs ((CircuitBreaker_init ''db'' (Some demo_policy))\<lparr>cb_failure_count := 1\<rparr>))"
  by (rule circuit_breaker_refines_contract[where name = "''db''" and n = 0])
     (simp add: cb_run_Cons cb_step_simps cb_defs demo_policy_def)

text \<open>An open breaker admits nobody until its timeout has passed: in every interleaving whose
  events all happen before the recovery time, no call is admitted and the breaker is still open,
  even though calls admitted earlier keep reporting their outcomes.\<close>

theorem circuit_breaker_open_rejects:
  assumes "cb_run (cb, n) evs (cb', n')"
    and "cb_state cb = OPEN" and "cb_opened_at cb = Some t"
    and "\<forall>ev \<in> set evs. t \<le> event_time ev \<and> event_time ev < t + timeout_seconds (cb_policy cb)"
  shows "(\<forall>u. Admitted u \<notin> set evs) \<and> cb_state cb' = OPEN"
  using open_since_run[OF assms(1), of t] assms by (auto simp: open_since_def)

theorem circuit_breaker_open_rejects_witness:
  "\<exists>cb cb'. cb_run (cb, 2) [Succeeded 3, Rejected 5, Failed 9] (cb', 0)
     \<and> cb_state cb = OPEN \<and> cb_opened_at cb = Some 2 \<and> cb_state cb' = OPEN"
proof -
  let ?cb = "(CircuitBreaker_init ''db'' (Some demo_policy))\<lparr>cb_state := OPEN, cb_opened_at := Some 2\<rparr>"
  have run: "cb_run (?cb, 2) [Succeeded 3, Rejected 5, Failed 9] (?cb\<lparr>cb_failure_count := 1\<rparr>, 0)"
    by (simp add: cb_run_Cons cb_step_simps cb_defs demo_policy_def eval_nat_numeral)
  have "cb_state (?cb\<lparr>cb_failure_count := 1\<rparr>) = OPEN"
    using circuit_breaker_open_rejects[OF run, of 2]
    by (simp add: cb_defs demo_policy_def)
  with run show ?thesis by (intro exI conjI) auto
qed

text \<open>C3. The breaker opens exactly at the failure threshold: on a fresh breaker, up to
  \<^verbatim>\<open>failure_threshold\<close> consecutive counted failures are all executed and re-raised unchanged, and
  afterwards the breaker is open if and only if their number has reached the threshold.\<close>

theorem circuit_breaker_opens_at_threshold:
  assumes "run_all fs w = (rs, w')" and "all_counted p rs"
    and "0 < failure_threshold p" and "int (length fs) \<le> failure_threshold p"
  shows "\<exists>cb. call_all clock fs (CircuitBreaker_init name (Some p)) w = (rs, cb, w')
    \<and> cb_state cb = (if int (length fs) = failure_threshold p then OPEN else CLOSED)"
proof (cases fs rule: rev_cases)
  case Nil
  with assms show ?thesis by (simp add: CircuitBreaker_init_def)
next
  case (snoc gs g)
  let ?cb = "CircuitBreaker_init name (Some p)"
  obtain rs1 w1 r where gs: "run_all gs w = (rs1, w1)" and g: "g w1 = (r, w')" and rs: "rs = rs1 @ [r]"
    using assms(1) snoc by (auto simp: run_all_append split: prod.splits)
  have gs': "call_all clock gs ?cb w = (rs1, ?cb\<lparr>cb_failure_count := int (length gs)\<rparr>, w1)"
    using call_all_failures[OF gs, of ?cb] assms snoc rs
    by (simp add: CircuitBreaker_init_def all_counted_def)
  obtain e where e: "r = Inl e" "counts_as_failure p e"
    using assms(2) rs by (auto simp: all_counted_def split: sum.splits)
  show ?thesis
    using assms(4) snoc gs' e g rs
    by (auto simp: call_all_append call_closed[where f = g and w = w1, OF _ g] cb_defs)
qed

theorem circuit_breaker_opens_at_threshold_witness:
  "\<exists>cb. call_all id [\<lambda>w. (Inl (plain_exn ValueError ''x'') :: exn + int, w + 1), \<lambda>w. (Inl (plain_exn OSError ''y''), w + 1)]
      (CircuitBreaker_init ''db'' (Some demo_policy)) 0
    = ([Inl (plain_exn ValueError ''x''), Inl (plain_exn OSError ''y'')], cb, 2) \<and> cb_state cb = OPEN"
  using circuit_breaker_opens_at_threshold[of
      "[\<lambda>w. (Inl (plain_exn ValueError ''x'') :: exn + int, w + 1), \<lambda>w. (Inl (plain_exn OSError ''y''), w + 1)]"
      0 "[Inl (plain_exn ValueError ''x''), Inl (plain_exn OSError ''y'')]" 2 demo_policy id "''db''"]
  by (simp add: all_counted_def counts_as_failure_def catchable_def isinstance_def issubclass_def
      mro_def demo_policy_def eval_nat_numeral)

text \<open>C4. An open breaker recovers: once the timeout has passed, \<^verbatim>\<open>success_threshold\<close> successful calls in
  a row are all admitted, return their results, and leave the breaker closed with no failure
  counted.\<close>

theorem circuit_breaker_recovers:
  assumes "run_all fs w = (rs, w')" and "all_succeed rs"
    and "0 < success_threshold (cb_policy cb)" and "int (length fs) = success_threshold (cb_policy cb)"
    and "cb_state cb = OPEN" and "cb_opened_at cb = Some t"
    and "timeout_seconds (cb_policy cb) \<le> clock w - t"
  shows "\<exists>cb'. call_all clock fs cb w = (rs, cb', w') \<and> cb_state cb' = CLOSED \<and> cb_failure_count cb' = 0"
proof (cases fs rule: rev_cases)
  case Nil
  with assms show ?thesis by simp
next
  case (snoc gs g)
  let ?cb = "cb\<lparr>cb_state := HALF_OPEN, cb_success_count := 0\<rparr>"
  obtain rs1 w1 r where gs: "run_all gs w = (rs1, w1)" and g: "g w1 = (r, w')" and rs: "rs = rs1 @ [r]"
    using assms(1) snoc by (auto simp: run_all_append split: prod.splits)
  have gs': "call_all clock gs ?cb w = (rs1, ?cb\<lparr>cb_success_count := int (length gs)\<rparr>, w1)"
    using call_all_successes[OF gs, of ?cb] assms snoc rs by (simp add: all_succeed_def)
  obtain x where x: "r = Inr x" using assms(2) rs by (cases r) (auto simp: all_succeed_def)
  have "call_all clock fs cb w = call_all clock (gs @ [g]) ?cb w"
    using call_all_half_open[of cb t clock w fs] assms snoc by simp
  with assms snoc gs' x g rs show ?thesis
    by (simp add: call_all_append call_half_open_success_closes[where f = g and w = w1])
qed

theorem circuit_breaker_recovers_witness:
  "\<exists>cb'. call_all id [\<lambda>w. (Inr (7::int), w + 1), \<lambda>w. (Inr 8, w + 1)]
      ((CircuitBreaker_init ''db'' (Some demo_policy))\<lparr>cb_state := OPEN, cb_opened_at := Some 1\<rparr>) 20
    = ([Inr 7, Inr 8], cb', 22) \<and> cb_state cb' = CLOSED \<and> cb_failure_count cb' = 0"
  by (rule circuit_breaker_recovers[where t = 1])
     (simp_all add: all_succeed_def CircuitBreaker_init_def demo_policy_def)

end
