(* ===== verification/Redis_Breaker.thy ===== *)
theory Redis_Breaker
  imports Circuit_Breaker
begin

text \<open>
  The distributed circuit breaker (\<^verbatim>\<open>resilience/circuit_breaker/redis_breaker.py\<close>). Redis is a
  service outside the library: its commands are the fields of \<open>redis_ops\<close>, acting on a world that
  contains the server, and \<open>redis_laws\<close> states the documented behaviour of \<^verbatim>\<open>GET\<close>, \<^verbatim>\<open>SET\<close> (plain,
  \<^verbatim>\<open>XX\<close>, \<^verbatim>\<open>NX PX\<close>), \<^verbatim>\<open>INCR\<close> and \<^verbatim>\<open>DEL\<close>. The two Lua scripts are modelled command by command; a script
  runs atomically. \<open>float_ops\<close> are \<^verbatim>\<open>str(time.time())\<close> and \<^verbatim>\<open>float(raw)\<close>.
\<close>

record 'w redis_ops =
  redis_get :: "string \<Rightarrow> 'w \<Rightarrow> string option"
  redis_set :: "string \<Rightarrow> string \<Rightarrow> 'w \<Rightarrow> 'w"
  redis_set_xx :: "string \<Rightarrow> string \<Rightarrow> 'w \<Rightarrow> 'w"
  redis_set_nx :: "string \<Rightarrow> string \<Rightarrow> nat \<Rightarrow> 'w \<Rightarrow> bool \<times> 'w"
  redis_incr :: "string \<Rightarrow> 'w \<Rightarrow> int \<times> 'w"
  redis_del :: "string \<Rightarrow> 'w \<Rightarrow> 'w"

definition redis_laws :: "'w redis_ops \<Rightarrow> bool" where
  "redis_laws r \<longleftrightarrow>
     (\<forall>k k' v w. redis_get r k' (redis_set r k v w) = (if k' = k then Some v else redis_get r k' w))
     \<and> (\<forall>k k' v w. redis_get r k' (redis_set_xx r k v w) =
          (if k' = k \<and> redis_get r k w \<noteq> None then Some v else redis_get r k' w))
     \<and> (\<forall>k v ttl w. fst (redis_set_nx r k v ttl w) \<longleftrightarrow> redis_get r k w = None)
     \<and> (\<forall>k k' v ttl w. redis_get r k' (snd (redis_set_nx r k v ttl w)) =
          (if k' = k \<and> redis_get r k w = None then Some v else redis_get r k' w))
     \<and> (\<forall>k k' n w. redis_get r k w = Some (show_int n) \<or> redis_get r k w = None \<and> n = 0 \<longrightarrow>
          fst (redis_incr r k w) = n + 1
          \<and> redis_get r k' (snd (redis_incr r k w)) =
              (if k' = k then Some (show_int (n + 1)) else redis_get r k' w))
     \<and> (\<forall>k k' w. redis_get r k' (redis_del r k w) = (if k' = k then None else redis_get r k' w))"

record float_ops =
  float_str :: "rat \<Rightarrow> string"
  float_of :: "string \<Rightarrow> rat"

definition float_laws :: "float_ops \<Rightarrow> bool" where
  "float_laws f \<longleftrightarrow> (\<forall>t. float_of f (float_str f t) = t)"

record RedisCircuitBreaker =
  rb_name :: string
  rb_policy :: CircuitBreakerPolicy
  rb_probe_ttl_ms :: nat
  rb_key_state :: string
  rb_key_failures :: string
  rb_key_opened_at :: string
  rb_key_probe_lock :: string

definition RedisCircuitBreaker_init ::
  "string \<Rightarrow> CircuitBreakerPolicy option \<Rightarrow> string \<Rightarrow> nat \<Rightarrow> RedisCircuitBreaker" where
  "RedisCircuitBreaker_init name policy key_prefix ttl =
     (let prefix = key_prefix @ '':'' @ name
      in \<lparr>rb_name = name,
          rb_policy = (case policy of None \<Rightarrow> default_CircuitBreakerPolicy | Some p \<Rightarrow> p),
          rb_probe_ttl_ms = ttl,
          rb_key_state = prefix @ '':state'',
          rb_key_failures = prefix @ '':failures'',
          rb_key_opened_at = prefix @ '':opened_at'',
          rb_key_probe_lock = prefix @ '':probe_lock''\<rparr>)"

subsection \<open>The Lua scripts\<close>

definition lua_record_failure ::
  "'w redis_ops \<Rightarrow> string \<Rightarrow> string \<Rightarrow> string \<Rightarrow> int \<Rightarrow> string \<Rightarrow> 'w \<Rightarrow> string \<times> 'w" where
  "lua_record_failure r failures_key state_key opened_key threshold now w =
     (case redis_incr r failures_key w of
        (failures, w1) \<Rightarrow>
          if threshold \<le> failures
          then (''OPEN'', redis_set r opened_key now (redis_set r state_key ''OPEN'' w1))
          else (show_int failures, w1))"

definition lua_record_success ::
  "'w redis_ops \<Rightarrow> string \<Rightarrow> string \<Rightarrow> string \<Rightarrow> int \<Rightarrow> 'w \<Rightarrow> string \<times> 'w" where
  "lua_record_success r failures_key state_key opened_key threshold w =
     (let state = (case redis_get r state_key w of None \<Rightarrow> ''CLOSED'' | Some s \<Rightarrow> s)
      in if state = ''HALF_OPEN'' then
           (case redis_incr r failures_key w of
              (succ, w1) \<Rightarrow>
                if threshold \<le> succ
                then (''CLOSED'',
                      redis_del r opened_key
                        (redis_set r failures_key ''0'' (redis_set r state_key ''CLOSED'' w1)))
                else (''HALF_OPEN'', w1))
         else if state = ''CLOSED'' then (''CLOSED'', redis_set r failures_key ''0'' w)
         else (state, w))"

subsection \<open>Operations\<close>

text \<open>\<^verbatim>\<open>CircuitBreakerState(raw)\<close> raises \<^verbatim>\<open>ValueError\<close> on a string that names no state.\<close>

definition parse_state :: "string \<Rightarrow> exn + CircuitBreakerState" where
  "parse_state s =
     (if s = ''CLOSED'' then Inr CLOSED
      else if s = ''OPEN'' then Inr OPEN
      else if s = ''HALF_OPEN'' then Inr HALF_OPEN
      else Inl (plain_exn ValueError (repr_str s @ '' is not a valid CircuitBreakerState'')))"

definition RedisCircuitBreaker_state ::
  "'w redis_ops \<Rightarrow> RedisCircuitBreaker \<Rightarrow> 'w \<Rightarrow> exn + CircuitBreakerState" where
  "RedisCircuitBreaker_state r b w =
     (case redis_get r (rb_key_state b) w of None \<Rightarrow> Inr CLOSED | Some raw \<Rightarrow> parse_state raw)"

definition rb_maybe_half_open ::
  "'w redis_ops \<Rightarrow> float_ops \<Rightarrow> ('w \<Rightarrow> rat) \<Rightarrow> RedisCircuitBreaker \<Rightarrow> CircuitBreakerState \<Rightarrow> 'w
    \<Rightarrow> CircuitBreakerState \<times> 'w" where
  "rb_maybe_half_open r f clock b current w =
     (if current \<noteq> OPEN then (current, w)
      else case redis_get r (rb_key_opened_at b) w of
             None \<Rightarrow> (current, w)
           | Some raw \<Rightarrow>
               if timeout_seconds (rb_policy b) \<le> clock w - float_of f raw
               then (HALF_OPEN, redis_set_xx r (rb_key_state b) ''HALF_OPEN'' w)
               else (current, w))"

definition rb_on_failure ::
  "'w redis_ops \<Rightarrow> float_ops \<Rightarrow> ('w \<Rightarrow> rat) \<Rightarrow> RedisCircuitBreaker \<Rightarrow> 'w \<Rightarrow> 'w" where
  "rb_on_failure r f clock b w =
     snd (lua_record_failure r (rb_key_failures b) (rb_key_state b) (rb_key_opened_at b)
            (failure_threshold (rb_policy b)) (float_str f (clock w)) w)"

definition rb_on_success :: "'w redis_ops \<Rightarrow> RedisCircuitBreaker \<Rightarrow> 'w \<Rightarrow> 'w" where
  "rb_on_success r b w =
     redis_del r (rb_key_probe_lock b)
       (snd (lua_record_success r (rb_key_failures b) (rb_key_state b) (rb_key_opened_at b)
               (success_threshold (rb_policy b)) w))"

text \<open>The part of \<^verbatim>\<open>call\<close> before the function: \<^verbatim>\<open>Some e\<close> when the call is refused with \<^verbatim>\<open>e\<close>.\<close>

definition rb_admit ::
  "'w redis_ops \<Rightarrow> float_ops \<Rightarrow> ('w \<Rightarrow> rat) \<Rightarrow> RedisCircuitBreaker \<Rightarrow> 'w \<Rightarrow> exn option \<times> 'w" where
  "rb_admit r f clock b w =
     (case RedisCircuitBreaker_state r b w of
        Inl e \<Rightarrow> (Some e, w)
      | Inr current \<Rightarrow>
          (case rb_maybe_half_open r f clock b current w of
             (st, w1) \<Rightarrow>
               if st = OPEN then (Some (CircuitOpenError_init (rb_name b) None), w1)
               else if st = HALF_OPEN then
                 (case redis_set_nx r (rb_key_probe_lock b) ''1'' (rb_probe_ttl_ms b) w1 of
                    (acquired, w2) \<Rightarrow>
                      (if acquired then None else Some (CircuitOpenError_init (rb_name b) None), w2))
               else (None, w1)))"

definition RedisCircuitBreaker_call ::
  "'w redis_ops \<Rightarrow> float_ops \<Rightarrow> ('w \<Rightarrow> rat) \<Rightarrow> RedisCircuitBreaker \<Rightarrow> ('w, 'a) act \<Rightarrow> ('w, 'a) act" where
  "RedisCircuitBreaker_call r f clock b func w =
     (case rb_admit r f clock b w of
        (Some e, w1) \<Rightarrow> (Inl e, w1)
      | (None, w1) \<Rightarrow>
          (case func w1 of
             (Inr x, w2) \<Rightarrow> (Inr x, rb_on_success r b w2)
           | (Inl e, w2) \<Rightarrow>
               (Inl e, if counts_as_failure (rb_policy b) e then rb_on_failure r f clock b w2 else w2)))"

definition RedisCircuitBreaker_reset :: "'w redis_ops \<Rightarrow> RedisCircuitBreaker \<Rightarrow> 'w \<Rightarrow> 'w" where
  "RedisCircuitBreaker_reset r b w =
     redis_del r (rb_key_probe_lock b)
       (redis_del r (rb_key_opened_at b)
         (redis_del r (rb_key_failures b) (redis_del r (rb_key_state b) w)))"

subsection \<open>Facts\<close>

lemma redis_lawsD:
  assumes "redis_laws r"
  shows "redis_get r k' (redis_set r k v w) = (if k' = k then Some v else redis_get r k' w)"
    and "redis_get r k' (redis_set_xx r k v w) =
      (if k' = k \<and> redis_get r k w \<noteq> None then Some v else redis_get r k' w)"
    and "fst (redis_set_nx r k v ttl w) \<longleftrightarrow> redis_get r k w = None"
    and "redis_get r k' (snd (redis_set_nx r k v ttl w)) =
      (if k' = k \<and> redis_get r k w = None then Some v else redis_get r k' w)"
    and "redis_get r k' (redis_del r k w) = (if k' = k then None else redis_get r k' w)"
  using assms by (simp_all add: redis_laws_def)

lemma redis_incrD:
  assumes "redis_laws r" and "redis_get r k w = Some (show_int n) \<or> redis_get r k w = None \<and> n = 0"
  shows "fst (redis_incr r k w) = n + 1"
    and "redis_get r k' (snd (redis_incr r k w)) = (if k' = k then Some (show_int (n + 1)) else redis_get r k' w)"
  using assms unfolding redis_laws_def by (blast, blast)

text \<open>The keys of a breaker are four different keys.\<close>

definition rb_keys_ok :: "RedisCircuitBreaker \<Rightarrow> bool" where
  "rb_keys_ok b \<longleftrightarrow>
     distinct [rb_key_state b, rb_key_failures b, rb_key_opened_at b, rb_key_probe_lock b]"

lemma rb_keys_ok_init [simp]: "rb_keys_ok (RedisCircuitBreaker_init name p pre ttl)"
  by (simp add: rb_keys_ok_def RedisCircuitBreaker_init_def)

text \<open>What the failure counter reads as.\<close>

definition failures_are :: "'w redis_ops \<Rightarrow> RedisCircuitBreaker \<Rightarrow> int \<Rightarrow> 'w \<Rightarrow> bool" where
  "failures_are r b n w \<longleftrightarrow>
     redis_get r (rb_key_failures b) w = Some (show_int n)
     \<or> redis_get r (rb_key_failures b) w = None \<and> n = 0"

lemma rb_on_failure_gets:
  assumes "redis_laws r" and "rb_keys_ok b" and "failures_are r b n w"
  shows "failures_are r b (n + 1) (rb_on_failure r f clock b w)"
    and "redis_get r (rb_key_state b) (rb_on_failure r f clock b w) =
      (if failure_threshold (rb_policy b) \<le> n + 1 then Some ''OPEN'' else redis_get r (rb_key_state b) w)"
    and "redis_get r (rb_key_opened_at b) (rb_on_failure r f clock b w) =
      (if failure_threshold (rb_policy b) \<le> n + 1 then Some (float_str f (clock w))
       else redis_get r (rb_key_opened_at b) w)"
    and "redis_get r (rb_key_probe_lock b) (rb_on_failure r f clock b w) =
      redis_get r (rb_key_probe_lock b) w"
proof -
  note inc = redis_incrD[OF assms(1) assms(3)[unfolded failures_are_def]]
  show "failures_are r b (n + 1) (rb_on_failure r f clock b w)"
    using assms(2) inc
    by (auto simp: rb_on_failure_def lua_record_failure_def failures_are_def rb_keys_ok_def split_def
        redis_lawsD[OF assms(1)])
  show "redis_get r (rb_key_state b) (rb_on_failure r f clock b w) =
      (if failure_threshold (rb_policy b) \<le> n + 1 then Some ''OPEN'' else redis_get r (rb_key_state b) w)"
    using assms(2) inc
    by (auto simp: rb_on_failure_def lua_record_failure_def rb_keys_ok_def split_def
        redis_lawsD[OF assms(1)])
  show "redis_get r (rb_key_opened_at b) (rb_on_failure r f clock b w) =
      (if failure_threshold (rb_policy b) \<le> n + 1 then Some (float_str f (clock w))
       else redis_get r (rb_key_opened_at b) w)"
    using assms(2) inc
    by (auto simp: rb_on_failure_def lua_record_failure_def rb_keys_ok_def split_def
        redis_lawsD[OF assms(1)])
  show "redis_get r (rb_key_probe_lock b) (rb_on_failure r f clock b w) =
      redis_get r (rb_key_probe_lock b) w"
    using assms(2) inc
    by (auto simp: rb_on_failure_def lua_record_failure_def rb_keys_ok_def split_def
        redis_lawsD[OF assms(1)])
qed

lemma rb_on_success_half_open:
  assumes "redis_laws r" and "rb_keys_ok b" and "failures_are r b n w"
    and "redis_get r (rb_key_state b) w = Some ''HALF_OPEN''"
  shows "redis_get r (rb_key_state b) (rb_on_success r b w) =
      Some (if success_threshold (rb_policy b) \<le> n + 1 then ''CLOSED'' else ''HALF_OPEN'')"
    and "failures_are r b (if success_threshold (rb_policy b) \<le> n + 1 then 0 else n + 1)
      (rb_on_success r b w)"
proof -
  note inc = redis_incrD[OF assms(1) assms(3)[unfolded failures_are_def]]
  have zero: "show_int 0 = ''0''"
    by code_simp
  show "redis_get r (rb_key_state b) (rb_on_success r b w) =
      Some (if success_threshold (rb_policy b) \<le> n + 1 then ''CLOSED'' else ''HALF_OPEN'')"
    using assms(2,4) inc
    by (auto simp: rb_on_success_def lua_record_success_def rb_keys_ok_def split_def
        redis_lawsD[OF assms(1)])
  show "failures_are r b (if success_threshold (rb_policy b) \<le> n + 1 then 0 else n + 1)
      (rb_on_success r b w)"
    using assms(2,4) inc zero
    by (auto simp: rb_on_success_def lua_record_success_def rb_keys_ok_def split_def
        failures_are_def redis_lawsD[OF assms(1)])
qed

text \<open>Any number of failures recorded one after the other, by one or several instances.\<close>

lemma rb_failures:
  assumes "redis_laws r" and "rb_keys_ok b" and "failures_are r b 0 w"
  shows "failures_are r b (int k) ((rb_on_failure r f clock b ^^ k) w)
    \<and> redis_get r (rb_key_state b) ((rb_on_failure r f clock b ^^ k) w) =
        (if 0 < k \<and> failure_threshold (rb_policy b) \<le> int k then Some ''OPEN''
         else redis_get r (rb_key_state b) w)"
proof (induction k)
  case (Suc k)
  let ?w = "(rb_on_failure r f clock b ^^ k) w"
  have "failures_are r b (int k) ?w" using Suc by simp
  from rb_on_failure_gets[OF assms(1,2) this, of f clock] Suc show ?case
    by (auto simp: add.commute)
qed (simp add: assms)

lemma rb_admit_half_open:
  assumes "redis_laws r" and "rb_keys_ok b"
    and "redis_get r (rb_key_state b) w = Some ''OPEN''"
    and "redis_get r (rb_key_opened_at b) w = Some raw"
    and "timeout_seconds (rb_policy b) \<le> clock w - float_of f raw"
    and "redis_get r (rb_key_probe_lock b) w = None"
  shows "\<exists>w1. rb_admit r f clock b w = (None, w1)
    \<and> redis_get r (rb_key_state b) w1 = Some ''HALF_OPEN''
    \<and> redis_get r (rb_key_failures b) w1 = redis_get r (rb_key_failures b) w"
proof -
  let ?w0 = "redis_set_xx r (rb_key_state b) ''HALF_OPEN'' w"
  have "rb_maybe_half_open r f clock b OPEN w = (HALF_OPEN, ?w0)"
    using assms by (simp add: rb_maybe_half_open_def)
  moreover have "RedisCircuitBreaker_state r b w = Inr OPEN"
    using assms by (simp add: RedisCircuitBreaker_state_def parse_state_def)
  ultimately show ?thesis
    using assms(2-) by (auto simp: rb_admit_def split_def redis_lawsD[OF assms(1)] rb_keys_ok_def)
qed

text \<open>An in-memory server for the examples: the keys and the clock.\<close>

definition mem_redis :: "((string, string) pydict \<times> rat) redis_ops" where
  "mem_redis =
     \<lparr>redis_get = (\<lambda>k (d, t). map_of d k),
      redis_set = (\<lambda>k v (d, t). (dict_set k v d, t)),
      redis_set_xx = (\<lambda>k v (d, t). (if map_of d k = None then d else dict_set k v d, t)),
      redis_set_nx = (\<lambda>k v ttl (d, t).
        if map_of d k = None then (True, (dict_set k v d, t)) else (False, (d, t))),
      redis_incr = (\<lambda>k (d, t).
        let n = (case map_of d k of None \<Rightarrow> 0 | Some s \<Rightarrow> int_of_str s) + 1
        in (n, (dict_set k (show_int n) d, t))),
      redis_del = (\<lambda>k (d, t). (dict_pop k d, t))\<rparr>"

lemma mem_redis_laws: "redis_laws mem_redis"
  by (auto simp: redis_laws_def mem_redis_def Let_def split: option.splits)

text \<open>Rationals written as a quotient of two numerals, for the examples.\<close>

definition ratio_str :: "rat \<Rightarrow> string" where
  "ratio_str q = (case quotient_of q of (a, b) \<Rightarrow> show_int a @ ''/'' @ show_int b)"

definition ratio_of :: "string \<Rightarrow> rat" where
  "ratio_of s = (case split_on (CHR ''/'') s of
     [a, b] \<Rightarrow> rat_of_int (int_of_str a) / rat_of_int (int_of_str b) | _ \<Rightarrow> 0)"

lemma slash_notin_show_int: "CHR ''/'' \<notin> set (show_int i)"
  by (auto simp: show_int_def is_digit_def dest!: digit_in_show_nat)

lemma ratio_laws: "float_laws \<lparr>float_str = ratio_str, float_of = ratio_of\<rparr>"
proof -
  have "ratio_of (ratio_str q) = q" for q
  proof -
    obtain a b where q: "quotient_of q = (a, b)" by force
    then have "split_on (CHR ''/'') (ratio_str q) = [show_int a, show_int b]"
      using slash_notin_show_int by (simp add: ratio_str_def split_on_append split_on_no_sep)
    with quotient_of_div[OF q] show ?thesis by (simp add: ratio_of_def)
  qed
  then show ?thesis by (simp add: float_laws_def)
qed

subsection \<open>Properties\<close>

text \<open>Recording failures through the Lua script opens the shared breaker exactly at the
  threshold: from a counter at zero, after any number of failures (from any instance, since each
  script is atomic) the counter shows their number, and the state key says \<^verbatim>\<open>OPEN\<close> if and only if
  the threshold is reached; below it the state is untouched.\<close>

theorem redis_breaker_opens_at_threshold:
  assumes "redis_laws r" and "0 < failure_threshold p"
    and "b = RedisCircuitBreaker_init name (Some p) prefix ttl"
    and "redis_get r (rb_key_failures b) w = None" and "redis_get r (rb_key_state b) w = None"
  shows "failures_are r b (int k) ((rb_on_failure r f clock b ^^ k) w)
    \<and> (RedisCircuitBreaker_state r b ((rb_on_failure r f clock b ^^ k) w) =
        Inr (if failure_threshold p \<le> int k then OPEN else CLOSED))"
proof -
  have p: "rb_policy b = p" using assms(3) by (simp add: RedisCircuitBreaker_init_def Let_def)
  have "0 < k" if "failure_threshold p \<le> int k" using that assms(2) by simp
  with rb_failures[OF assms(1), of b w k f clock] assms p show ?thesis
    by (simp add: RedisCircuitBreaker_state_def parse_state_def failures_are_def)
qed

theorem redis_breaker_opens_at_threshold_witness:
  "RedisCircuitBreaker_state mem_redis (RedisCircuitBreaker_init ''db'' (Some demo_policy) ''cb'' 5000)
     ((rb_on_failure mem_redis \<lparr>float_str = ratio_str, float_of = ratio_of\<rparr> snd
        (RedisCircuitBreaker_init ''db'' (Some demo_policy) ''cb'' 5000) ^^ 2) ([], 0)) = Inr OPEN"
  using redis_breaker_opens_at_threshold[OF mem_redis_laws _ refl, of demo_policy "''db''" "''cb''" 5000
      "([], 0)" 2 "\<lparr>float_str = ratio_str, float_of = ratio_of\<rparr>" snd]
  by (simp add: mem_redis_def demo_policy_def)

text \<open>The success threshold of the shared breaker is measured on the failure counter, which the
  opening left at the failure threshold or above: when the breaker is open, its timeout has
  passed, the probe lock is free and \<^verbatim>\<open>success_threshold\<close> is at most one more than the failures
  counted, a single successful call closes it.\<close>

theorem redis_breaker_single_success_closes:
  assumes "redis_laws r" and "b = RedisCircuitBreaker_init name (Some p) prefix ttl"
    and "redis_get r (rb_key_state b) w = Some ''OPEN''"
    and "redis_get r (rb_key_opened_at b) w = Some raw"
    and "timeout_seconds p \<le> clock w - float_of f raw"
    and "redis_get r (rb_key_probe_lock b) w = None"
    and "redis_get r (rb_key_failures b) w = Some (show_int n)" and "success_threshold p \<le> n + 1"
    and "\<forall>w1. fst (func w1) = Inr x \<and> (\<forall>k. redis_get r k (snd (func w1)) = redis_get r k w1)"
  shows "fst (RedisCircuitBreaker_call r f clock b func w) = Inr x
    \<and> RedisCircuitBreaker_state r b (snd (RedisCircuitBreaker_call r f clock b func w)) = Inr CLOSED"
proof -
  have p: "rb_policy b = p" and ok: "rb_keys_ok b"
    using assms(2) by (simp_all add: RedisCircuitBreaker_init_def Let_def rb_keys_ok_def)
  obtain w1 where w1: "rb_admit r f clock b w = (None, w1)"
      "redis_get r (rb_key_state b) w1 = Some ''HALF_OPEN''"
      "redis_get r (rb_key_failures b) w1 = Some (show_int n)"
    using rb_admit_half_open[OF assms(1) ok assms(3,4) _ assms(6)] p assms(5,7) by auto
  obtain w2 where w2: "func w1 = (Inr x, w2)" "\<forall>k. redis_get r k w2 = redis_get r k w1"
    using assms(9) by (metis prod.collapse)
  have "redis_get r (rb_key_state b) (rb_on_success r b w2) = Some ''CLOSED''"
    using rb_on_success_half_open(1)[OF assms(1) ok, of n w2] w1 w2 p assms(8)
    by (simp add: failures_are_def)
  with w1 w2 show ?thesis
    by (simp add: RedisCircuitBreaker_call_def RedisCircuitBreaker_state_def parse_state_def)
qed

theorem redis_breaker_single_success_closes_witness:
  "let b = RedisCircuitBreaker_init ''db'' None ''cb'' 5000;
       f = \<lparr>float_str = ratio_str, float_of = ratio_of\<rparr>;
       w = ([(rb_key_state b, ''OPEN''), (rb_key_opened_at b, ratio_str 0),
             (rb_key_failures b, show_int 5)], 100)
   in RedisCircuitBreaker_state mem_redis b
        (snd (RedisCircuitBreaker_call mem_redis f snd b (\<lambda>w. (Inr (1::int), w)) w)) = Inr CLOSED"
proof -
  let ?b = "RedisCircuitBreaker_init ''db'' (Some default_CircuitBreakerPolicy) ''cb'' 5000"
  let ?f = "\<lparr>float_str = ratio_str, float_of = ratio_of\<rparr>"
  let ?w = "([(rb_key_state ?b, ''OPEN''), (rb_key_opened_at ?b, ratio_str 0),
              (rb_key_failures ?b, show_int 5)], 100)"
  have "ratio_of (ratio_str 0) = 0" using ratio_laws by (simp add: float_laws_def)
  then have "RedisCircuitBreaker_state mem_redis ?b
        (snd (RedisCircuitBreaker_call mem_redis ?f snd ?b (\<lambda>w. (Inr (1::int), w)) ?w)) = Inr CLOSED"
    using redis_breaker_single_success_closes[OF mem_redis_laws refl, where x = "1::int" and n = 5
        and name = "''db''" and prefix = "''cb''" and ttl = 5000 and p = default_CircuitBreakerPolicy
        and f = ?f and clock = snd and w = ?w and raw = "ratio_str 0" and func = "\<lambda>w. (Inr 1, w)"]
    by (simp add: mem_redis_def RedisCircuitBreaker_init_def Let_def default_CircuitBreakerPolicy_def)
  then show ?thesis by (simp add: RedisCircuitBreaker_init_def Let_def)
qed

end
