(* ===== verification/Retry.thy ===== *)
theory Retry
  imports Errors
begin

text \<open>
  Retries (\<^verbatim>\<open>resilience/retry\<close>): backoff and jitter strategies and the retry loop of \<^verbatim>\<open>RetryPolicy\<close>.
  The loop over \<^verbatim>\<open>range(1, max_attempts + 1)\<close> is a recursion on the list of attempt numbers. Sleeping
  and drawing a random number act on the world and are the fields of \<open>retry_env\<close>
  (\<^verbatim>\<open>random.uniform(a, b)\<close> is \<^verbatim>\<open>a + (b - a) * random()\<close>). \<open>logged\<close> and \<open>logged_env\<close> extend a world by the
  list of calls and sleeps, so that statements can speak about every attempt the loop makes.
\<close>

datatype BackoffStrategy =
    ConstantBackoff rat
  | LinearBackoff rat rat
  | ExponentialBackoff rat rat

fun backoff_compute :: "BackoffStrategy \<Rightarrow> nat \<Rightarrow> rat" where
  "backoff_compute (ConstantBackoff delay) attempt = delay"
| "backoff_compute (LinearBackoff base mx) attempt = min (base * of_nat attempt) mx"
| "backoff_compute (ExponentialBackoff base mx) attempt = min (base * 2 ^ attempt) mx"

record 'w retry_env =
  env_random :: "'w \<Rightarrow> rat \<times> 'w"
  env_sleep :: "rat \<Rightarrow> 'w \<Rightarrow> 'w"

definition uniform :: "'w retry_env \<Rightarrow> rat \<Rightarrow> rat \<Rightarrow> 'w \<Rightarrow> rat \<times> 'w" where
  "uniform env a b w = (case env_random env w of (u, w') \<Rightarrow> (a + (b - a) * u, w'))"

datatype JitterStrategy = NoJitter | FullJitter | EqualJitter

fun jitter_apply :: "'w retry_env \<Rightarrow> JitterStrategy \<Rightarrow> rat \<Rightarrow> 'w \<Rightarrow> rat \<times> 'w" where
  "jitter_apply env NoJitter delay w = (delay, w)"
| "jitter_apply env FullJitter delay w = uniform env 0 delay w"
| "jitter_apply env EqualJitter delay w =
     (let half = delay / 2 in case uniform env 0 half w of (u, w') \<Rightarrow> (half + u, w'))"

record RetryPolicy =
  rp_max_attempts :: int
  rp_backoff :: BackoffStrategy
  rp_jitter :: JitterStrategy
  rp_retryable :: "exc_class list"

definition RetryPolicy_init ::
  "int \<Rightarrow> BackoffStrategy option \<Rightarrow> JitterStrategy option \<Rightarrow> exc_class list \<Rightarrow> RetryPolicy" where
  "RetryPolicy_init max_attempts backoff jitter retryable =
     \<lparr>rp_max_attempts = max_attempts,
      rp_backoff = (case backoff of None \<Rightarrow> ExponentialBackoff (1 / 10) 30 | Some b \<Rightarrow> b),
      rp_jitter = (case jitter of None \<Rightarrow> FullJitter | Some j \<Rightarrow> j),
      rp_retryable = retryable\<rparr>"

definition should_retry :: "RetryPolicy \<Rightarrow> exn \<Rightarrow> bool" where
  "should_retry p e \<longleftrightarrow> isinstance e (rp_retryable p)"

text \<open>One pass of the loop per attempt number still to come; after the last one, \<^verbatim>\<open>raise last_exc\<close>,
  which is a \<^verbatim>\<open>TypeError\<close> when no attempt was made at all.\<close>

fun retry_loop ::
  "'w retry_env \<Rightarrow> RetryPolicy \<Rightarrow> ('w, 'a) act \<Rightarrow> nat list \<Rightarrow> exn option \<Rightarrow> ('w, 'a) act" where
  "retry_loop env p func [] lst w =
     (Inl (case lst of None \<Rightarrow> plain_exn TypeError ''exceptions must derive from BaseException''
           | Some e \<Rightarrow> e), w)"
| "retry_loop env p func (attempt # rest) lst w =
     (case func w of
        (Inr x, w1) \<Rightarrow> (Inr x, w1)
      | (Inl e, w1) \<Rightarrow>
          if \<not> catchable e then (Inl e, w1)
          else if \<not> should_retry p e \<or> int attempt = rp_max_attempts p then (Inl e, w1)
          else (case jitter_apply env (rp_jitter p) (backoff_compute (rp_backoff p) attempt) w1 of
                  (delay, w2) \<Rightarrow> retry_loop env p func rest (Some e) (env_sleep env delay w2)))"

definition RetryPolicy_execute ::
  "'w retry_env \<Rightarrow> RetryPolicy \<Rightarrow> ('w, 'a) act \<Rightarrow> ('w, 'a) act" where
  "RetryPolicy_execute env p func w =
     retry_loop env p func [1..<nat (rp_max_attempts p + 1)] None w"

text \<open>\<^verbatim>\<open>execute_async\<close> has the body of \<^verbatim>\<open>execute\<close> with \<^verbatim>\<open>asyncio.sleep\<close>; \<^verbatim>\<open>RetryExecutor\<close> wraps a function.\<close>

definition RetryPolicy_execute_async ::
  "'w retry_env \<Rightarrow> RetryPolicy \<Rightarrow> ('w, 'a) act \<Rightarrow> ('w, 'a) act" where
  "RetryPolicy_execute_async env p func w =
     retry_loop env p func [1..<nat (rp_max_attempts p + 1)] None w"

definition RetryExecutor_call ::
  "'w retry_env \<Rightarrow> RetryPolicy \<Rightarrow> ('args \<Rightarrow> ('w, 'a) act) \<Rightarrow> 'args \<Rightarrow> ('w, 'a) act" where
  "RetryExecutor_call env p func args = RetryPolicy_execute_async env p (func args)"

subsection \<open>Observing the attempts\<close>

datatype 'a retry_event = Called "exn + 'a" | Slept rat

definition logged :: "('w, 'a) act \<Rightarrow> ('a retry_event list \<times> 'w, 'a) act" where
  "logged func = (\<lambda>(hist, w). case func w of (r, w') \<Rightarrow> (r, (hist @ [Called r], w')))"

definition logged_env :: "'w retry_env \<Rightarrow> ('a retry_event list \<times> 'w) retry_env" where
  "logged_env env =
     \<lparr>env_random = (\<lambda>(hist, w). case env_random env w of (u, w') \<Rightarrow> (u, (hist, w'))),
      env_sleep = (\<lambda>d (hist, w). (hist @ [Slept d], env_sleep env d w))\<rparr>"

definition calls :: "'a retry_event list \<Rightarrow> (exn + 'a) list" where
  "calls hist = concat (map (\<lambda>e. case e of Called r \<Rightarrow> [r] | Slept _ \<Rightarrow> []) hist)"

definition sleeps :: "'a retry_event list \<Rightarrow> rat list" where
  "sleeps hist = concat (map (\<lambda>e. case e of Called _ \<Rightarrow> [] | Slept d \<Rightarrow> [d]) hist)"

definition retryable :: "RetryPolicy \<Rightarrow> exn + 'a \<Rightarrow> bool" where
  "retryable p r \<longleftrightarrow> (case r of Inl e \<Rightarrow> catchable e \<and> should_retry p e | Inr _ \<Rightarrow> False)"

lemma calls_simps [simp]:
  "calls [] = []" "calls (a @ b) = calls a @ calls b" "calls [Called r] = [r]" "calls [Slept d] = []"
  by (simp_all add: calls_def)

lemma sleeps_simps [simp]:
  "sleeps [] = []" "sleeps (a @ b) = sleeps a @ sleeps b" "sleeps [Called r] = []" "sleeps [Slept d] = [d]"
  by (simp_all add: sleeps_def)

lemma jitter_logged:
  "jitter_apply (logged_env env) j d (hist, w) =
     (case jitter_apply env j d w of (x, w') \<Rightarrow> (x, (hist, w')))"
  by (cases j) (simp_all add: logged_env_def uniform_def Let_def split_def)

lemma env_sleep_logged [simp]:
  "env_sleep (logged_env env) d (hist, w) = (hist @ [Slept d], env_sleep env d w)"
  by (simp add: logged_env_def)

text \<open>Observing does not change what the loop does.\<close>

lemma retry_loop_logged:
  "\<exists>hist'. retry_loop (logged_env env) p (logged func) atts lst (hist, w) =
     (fst (retry_loop env p func atts lst w), (hist @ hist', snd (retry_loop env p func atts lst w)))"
proof (induction atts arbitrary: lst hist w)
  case (Cons a atts)
  obtain r w1 where f: "func w = (r, w1)" by force
  then have g: "logged func (hist, w) = (r, (hist @ [Called r], w1))" by (simp add: logged_def)
  show ?case
  proof (cases r)
    case (Inl e)
    obtain d w2 where "jitter_apply env (rp_jitter p) (backoff_compute (rp_backoff p) a) w1 = (d, w2)"
      by force
    then show ?thesis
      using f g Inl Cons.IH[of "Some e" "hist @ [Called r, Slept d]" "env_sleep env d w2"]
      by (auto simp: jitter_logged)
  qed (use f g in simp)
qed simp

subsection \<open>Delays\<close>

definition backoff_ok :: "BackoffStrategy \<Rightarrow> bool" where
  "backoff_ok b = (case b of ConstantBackoff d \<Rightarrow> 0 \<le> d
     | LinearBackoff base mx \<Rightarrow> 0 \<le> base \<and> 0 \<le> mx
     | ExponentialBackoff base mx \<Rightarrow> 0 \<le> base \<and> 0 \<le> mx)"

definition random_ok :: "'w retry_env \<Rightarrow> bool" where
  "random_ok env \<longleftrightarrow> (\<forall>w. 0 \<le> fst (env_random env w) \<and> fst (env_random env w) < 1)"

lemma backoff_nonneg: "backoff_ok b \<Longrightarrow> 0 \<le> backoff_compute b n"
  by (cases b) (auto simp: backoff_ok_def)

lemma scale_unit_le: "0 \<le> (d::rat) \<Longrightarrow> 0 \<le> u \<Longrightarrow> u < 1 \<Longrightarrow> d * u \<le> d"
  using mult_left_mono[of u 1 d] by simp

lemma jitter_bounds:
  assumes "random_ok env" and "0 \<le> d"
  shows "0 \<le> fst (jitter_apply env j d w) \<and> fst (jitter_apply env j d w) \<le> d"
  using assms(1)[unfolded random_ok_def, rule_format, of w] assms(2)
    scale_unit_le[of d "fst (env_random env w)"] scale_unit_le[of "d / 2" "fst (env_random env w)"]
  by (cases j) (auto simp: uniform_def Let_def split_def)

lemma jitter_equal_lower:
  assumes "random_ok env" and "0 \<le> d"
  shows "d / 2 \<le> fst (jitter_apply env EqualJitter d w)"
  using assms by (simp add: random_ok_def uniform_def Let_def split_def)

lemma backoff_mono:
  assumes "backoff_ok b" and "m \<le> n"
  shows "backoff_compute b m \<le> backoff_compute b n"
proof (cases b)
  case (LinearBackoff base mx)
  then have "base * of_nat m \<le> base * of_nat n"
    using assms by (intro mult_left_mono) (auto simp: backoff_ok_def)
  then show ?thesis using LinearBackoff by (auto simp: min_def)
next
  case (ExponentialBackoff base mx)
  then have "base * 2 ^ m \<le> base * 2 ^ n"
    using assms by (intro mult_left_mono power_increasing) (auto simp: backoff_ok_def)
  then show ?thesis using ExponentialBackoff by (auto simp: min_def)
qed simp

lemma backoff_bounded: "b \<noteq> ConstantBackoff d \<Longrightarrow> 
  backoff_compute b n \<le> (case b of ConstantBackoff d \<Rightarrow> d | LinearBackoff _ mx \<Rightarrow> mx | ExponentialBackoff _ mx \<Rightarrow> mx)"
  by (cases b) auto

subsection \<open>The log of a run\<close>

text \<open>What a run of the loop leaves in the log: the calls, all but the last of which failed in a
  retryable way, and one sleep after each of those, within the bounds of its backoff.\<close>

definition delays_ok :: "RetryPolicy \<Rightarrow> nat \<Rightarrow> rat list \<Rightarrow> bool" where
  "delays_ok p k ds \<longleftrightarrow>
     (\<forall>i < length ds. 0 \<le> ds ! i \<and> ds ! i \<le> backoff_compute (rp_backoff p) (k + i))"

lemma delays_ok_Cons [simp]:
  "delays_ok p k (d # ds) \<longleftrightarrow>
     0 \<le> d \<and> d \<le> backoff_compute (rp_backoff p) k \<and> delays_ok p (Suc k) ds"
  by (auto simp: delays_ok_def nth_Cons split: nat.splits)

lemma retry_loop_log:
  assumes "atts = [k..<nat (rp_max_attempts p + 1)]" and "atts \<noteq> []"
    and "backoff_ok (rp_backoff p)" and "random_ok env"
    and "retry_loop (logged_env env) p (logged func) atts lst (hist, w) = (r, (hist @ new, w'))"
  shows "calls new \<noteq> [] \<and> List.last (calls new) = r \<and> length (calls new) \<le> length atts
    \<and> (\<forall>c \<in> set (butlast (calls new)). retryable p c)
    \<and> (length (calls new) = length atts \<or> \<not> retryable p r)
    \<and> length (sleeps new) = length (calls new) - 1 \<and> delays_ok p k (sleeps new)"
  using assms
proof (induction atts arbitrary: k lst hist w new)
  case (Cons a atts)
  have k: "a = k" "atts = [Suc k..<nat (rp_max_attempts p + 1)]"
    using Cons.prems(1) by (cases "k < nat (rp_max_attempts p + 1)"; simp add: upt_conv_Cons)+
  obtain c w1 where f: "func w = (c, w1)" by force
  then have g: "logged func (hist, w) = (c, (hist @ [Called c], w1))" by (simp add: logged_def)
  show ?case
  proof (cases "retryable p c \<and> int a \<noteq> rp_max_attempts p")
    case False
    then have "new = [Called c]" "r = c"
      using Cons.prems(5) g by (auto simp: retryable_def split: sum.splits if_splits)
    moreover have "atts = []" if "int a = rp_max_attempts p" using that k by simp
    ultimately show ?thesis using False by (auto simp: delays_ok_def)
  next
    case True
    then obtain e where e: "c = Inl e" "catchable e" "should_retry p e"
      by (auto simp: retryable_def split: sum.splits)
    obtain d w2 where j: "jitter_apply env (rp_jitter p) (backoff_compute (rp_backoff p) a) w1 = (d, w2)"
      by force
    have d: "0 \<le> d" "d \<le> backoff_compute (rp_backoff p) k"
      using jitter_bounds[OF Cons.prems(4) backoff_nonneg[OF Cons.prems(3)], of "rp_jitter p" a w1] j k
      by simp_all
    have ne: "atts \<noteq> []" using True k Cons.prems(1) by auto
    have rec: "retry_loop (logged_env env) p (logged func) atts (Some e)
        (hist @ [Called c, Slept d], env_sleep env d w2) = (r, (hist @ new, w'))"
      using Cons.prems(5) g e j True by (simp add: jitter_logged)
    obtain new' where new: "new = [Called c, Slept d] @ new'"
      using retry_loop_logged[of env p func atts "Some e" "hist @ [Called c, Slept d]" "env_sleep env d w2"] rec
      by auto
    have split: "calls new = c # calls new'" "sleeps new = d # sleeps new'"
      using new by (simp_all add: calls_def sleeps_def)
    from Cons.IH[OF k(2) ne Cons.prems(3,4), of "Some e" "hist @ [Called c, Slept d]" "env_sleep env d w2" new']
      rec new have IH: "calls new' \<noteq> []" "List.last (calls new') = r" "length (calls new') \<le> length atts"
        "\<forall>c \<in> set (butlast (calls new')). retryable p c"
        "length (calls new') = length atts \<or> \<not> retryable p r"
        "length (sleeps new') = length (calls new') - 1" "delays_ok p (Suc k) (sleeps new')"
      by simp_all
    then show ?thesis using True d by (auto simp: split Suc_diff_Suc)
  qed
qed simp

subsection \<open>Properties\<close>

text \<open>C5. The retry loop, for a policy with at least one attempt: it makes between one and
  \<^verbatim>\<open>max_attempts\<close> calls, returns or raises exactly the outcome of the last call, every earlier call
  failed with a retryable exception, and it gives up before the last attempt only on a success or
  a non-retryable exception. Between two calls it sleeps once, for a delay between zero and the
  backoff of that attempt. Logging the calls changes neither the outcome nor the world.\<close>

theorem retry_execute_correct:
  assumes "1 \<le> rp_max_attempts p" and "backoff_ok (rp_backoff p)" and "random_ok env"
  shows "\<exists>r hist w'.
     RetryPolicy_execute (logged_env env) p (logged func) ([], w) = (r, (hist, w'))
     \<and> RetryPolicy_execute env p func w = (r, w')
     \<and> calls hist \<noteq> [] \<and> length (calls hist) \<le> nat (rp_max_attempts p)
     \<and> List.last (calls hist) = r \<and> (\<forall>c \<in> set (butlast (calls hist)). retryable p c)
     \<and> (length (calls hist) = nat (rp_max_attempts p) \<or> \<not> retryable p r)
     \<and> length (sleeps hist) = length (calls hist) - 1 \<and> delays_ok p 1 (sleeps hist)"
proof -
  let ?atts = "[1..<nat (rp_max_attempts p + 1)]"
  have len: "length ?atts = nat (rp_max_attempts p)" "?atts \<noteq> []" using assms(1) by auto
  obtain hist where hist: "retry_loop (logged_env env) p (logged func) ?atts None ([], w) =
      (fst (retry_loop env p func ?atts None w), ([] @ hist, snd (retry_loop env p func ?atts None w)))"
    using retry_loop_logged[of env p func ?atts None "[]" w] by blast
  from retry_loop_log[OF refl len(2) assms(2,3) hist] len(1) hist show ?thesis
    by (intro exI[of _ "fst (retry_loop env p func ?atts None w)"] exI[of _ hist]
        exI[of _ "snd (retry_loop env p func ?atts None w)"])
       (auto simp: RetryPolicy_execute_def)
qed

theorem retry_execute_correct_witness:
  "\<exists>r hist w'.
     RetryPolicy_execute (logged_env \<lparr>env_random = (\<lambda>w. (1 / 2, w)), env_sleep = (\<lambda>d w. w)\<rparr>)
       (RetryPolicy_init 3 None None [Exception])
       (logged (\<lambda>n. (if n < 2 then Inl (plain_exn OSError ''down'') else Inr n, n + 1))) ([], 0::nat)
     = (r, (hist, w')) \<and> length (calls hist) \<le> 3 \<and> List.last (calls hist) = r"
proof -
  let ?p = "RetryPolicy_init 3 None None [Exception]"
  let ?env = "\<lparr>env_random = (\<lambda>w. (1 / 2, w)), env_sleep = (\<lambda>d w. w)\<rparr> :: nat retry_env"
  have "1 \<le> rp_max_attempts ?p" "backoff_ok (rp_backoff ?p)" "random_ok ?env"
    by (simp_all add: RetryPolicy_init_def backoff_ok_def random_ok_def)
  from retry_execute_correct[OF this, of "\<lambda>n. (if n < 2 then Inl (plain_exn OSError ''down'') else Inr n, n + 1)" 0]
  show ?thesis by (auto simp: RetryPolicy_init_def)
qed

end
