(* ===== verification/Token_Bucket.thy ===== *)
theory Token_Bucket
  imports Errors
begin

text \<open>
  The token-bucket throttle (\<^verbatim>\<open>resilience/throttle/token_bucket.py\<close>). Refill and withdrawal happen
  under one lock, so \<open>TokenBucket_acquire\<close> is one atomic step taking the time of the clock reading;
  a history is a list of requests with their times. The rate bound holds for every window of every
  history. Infinite waiting time (no refill) is \<open>None\<close>.
\<close>

record TokenBucket =
  tb_capacity :: rat
  tb_refill_rate :: rat
  tb_tokens :: rat
  tb_last_refill :: rat

definition TokenBucket_init :: "rat \<Rightarrow> rat \<Rightarrow> rat \<Rightarrow> TokenBucket" where
  "TokenBucket_init capacity rate now =
     \<lparr>tb_capacity = capacity, tb_refill_rate = rate, tb_tokens = capacity, tb_last_refill = now\<rparr>"

definition TokenBucket_refill :: "rat \<Rightarrow> TokenBucket \<Rightarrow> TokenBucket" where
  "TokenBucket_refill now tb =
     (let elapsed = now - tb_last_refill tb
      in tb\<lparr>tb_tokens := min (tb_capacity tb) (tb_tokens tb + elapsed * tb_refill_rate tb),
            tb_last_refill := now\<rparr>)"

definition TokenBucket_acquire :: "rat \<Rightarrow> rat \<Rightarrow> TokenBucket \<Rightarrow> bool \<times> TokenBucket" where
  "TokenBucket_acquire now tokens tb =
     (let tb' = TokenBucket_refill now tb
      in if tokens \<le> tb_tokens tb' then (True, tb'\<lparr>tb_tokens := tb_tokens tb' - tokens\<rparr>)
         else (False, tb'))"

definition TokenBucket_retry_after_ms :: "rat \<Rightarrow> TokenBucket \<Rightarrow> rat option" where
  "TokenBucket_retry_after_ms tokens tb =
     (let needed = tokens - tb_tokens tb
      in if needed \<le> 0 then Some 0
         else if tb_refill_rate tb \<le> 0 then None
         else Some (needed / tb_refill_rate tb * 1000))"

text \<open>The error carries the waiting time; its text is outside ASCII and left out.\<close>

definition ThrottledError_init :: "rat option \<Rightarrow> exn" where
  "ThrottledError_init retry_after =
     with_attr ''retry_after_ms'' (case retry_after of None \<Rightarrow> PStr ''inf'' | Some q \<Rightarrow> PFloat q)
       (plain_exn ThrottledError [])"

definition ThrottlePolicy_execute ::
  "('w \<Rightarrow> rat) \<Rightarrow> rat \<Rightarrow> ('w, 'a) act \<Rightarrow> TokenBucket \<Rightarrow> 'w \<Rightarrow> (exn + 'a) \<times> TokenBucket \<times> 'w" where
  "ThrottlePolicy_execute clock tokens fn tb w =
     (case TokenBucket_acquire (clock w) tokens tb of
        (False, tb') \<Rightarrow> (Inl (ThrottledError_init (TokenBucket_retry_after_ms tokens tb')), tb', w)
      | (True, tb') \<Rightarrow> (case fn w of (r, w') \<Rightarrow> (r, tb', w')))"

subsection \<open>Histories\<close>

text \<open>Requests are pairs of a time and an amount; the sum is what the granted ones took.\<close>

fun tb_run :: "(rat \<times> rat) list \<Rightarrow> TokenBucket \<Rightarrow> rat \<times> TokenBucket" where
  "tb_run [] tb = (0, tb)"
| "tb_run ((t, n) # reqs) tb =
     (case TokenBucket_acquire t n tb of
        (ok, tb1) \<Rightarrow> (case tb_run reqs tb1 of (granted, tb2) \<Rightarrow> ((if ok then n else 0) + granted, tb2)))"

definition tb_ok :: "TokenBucket \<Rightarrow> bool" where
  "tb_ok tb \<longleftrightarrow> 0 \<le> tb_tokens tb \<and> tb_tokens tb \<le> tb_capacity tb \<and> 0 \<le> tb_refill_rate tb"

text \<open>A history with a monotonic clock and no negative amounts.\<close>

fun reqs_ok :: "rat \<Rightarrow> (rat \<times> rat) list \<Rightarrow> bool" where
  "reqs_ok t0 [] \<longleftrightarrow> True"
| "reqs_ok t0 ((t, n) # reqs) \<longleftrightarrow> t0 \<le> t \<and> 0 \<le> n \<and> reqs_ok t reqs"

named_theorems tb_defs \<open>definitions of the bucket operations\<close>

declare TokenBucket_init_def [tb_defs] TokenBucket_refill_def [tb_defs] TokenBucket_acquire_def [tb_defs]

lemma tb_frame [simp]:
  "tb_capacity (snd (TokenBucket_acquire t n tb)) = tb_capacity tb"
  "tb_refill_rate (snd (TokenBucket_acquire t n tb)) = tb_refill_rate tb"
  "tb_last_refill (snd (TokenBucket_acquire t n tb)) = t"
  by (simp_all add: tb_defs Let_def)

lemma tb_ok_init [inv_intros]: "0 \<le> c \<Longrightarrow> 0 \<le> r \<Longrightarrow> tb_ok (TokenBucket_init c r now)"
  by (simp add: tb_ok_def tb_defs)

lemma tb_ok_acquire [inv_intros]:
  "tb_ok tb \<Longrightarrow> tb_last_refill tb \<le> t \<Longrightarrow> 0 \<le> n \<Longrightarrow> tb_ok (snd (TokenBucket_acquire t n tb))"
  by (auto simp: tb_ok_def tb_defs Let_def min_def)

text \<open>What a request takes comes out of the stock and the refill.\<close>

lemma acquire_balance:
  assumes "tb_ok tb" and "tb_last_refill tb \<le> t"
  shows "(if fst (TokenBucket_acquire t n tb) then n else 0) + tb_tokens (snd (TokenBucket_acquire t n tb))
    \<le> tb_tokens tb + tb_refill_rate tb * (t - tb_last_refill tb)"
  by (auto simp: tb_defs Let_def mult.commute)

lemma tb_run_balance:
  "tb_ok tb \<Longrightarrow> reqs_ok (tb_last_refill tb) reqs \<Longrightarrow> tb_run reqs tb = (granted, tb') \<Longrightarrow>
   granted + tb_tokens tb' \<le> tb_tokens tb + tb_refill_rate tb * (tb_last_refill tb' - tb_last_refill tb)
   \<and> tb_ok tb' \<and> tb_capacity tb' = tb_capacity tb \<and> tb_refill_rate tb' = tb_refill_rate tb
   \<and> tb_last_refill tb' = fst (last ((tb_last_refill tb, 0) # reqs))"
proof (induction reqs arbitrary: tb granted)
  case (Cons q reqs)
  obtain t n where q: "q = (t, n)" by force
  let ?ok = "fst (TokenBucket_acquire t n tb)" and ?tb1 = "snd (TokenBucket_acquire t n tb)"
  obtain rest where rest: "tb_run reqs ?tb1 = (rest, tb')" "granted = (if ?ok then n else 0) + rest"
    using Cons.prems(3) q by (cases "tb_run reqs ?tb1") (auto simp: split_def)
  have "rest + tb_tokens tb' \<le> tb_tokens ?tb1 + tb_refill_rate tb * (tb_last_refill tb' - t)
      \<and> tb_ok tb' \<and> tb_capacity tb' = tb_capacity tb \<and> tb_refill_rate tb' = tb_refill_rate tb
      \<and> tb_last_refill tb' = fst (last ((t, 0) # reqs))"
    using Cons.IH[OF _ _ rest(1)] Cons.prems(1,2) q tb_ok_acquire by (auto split: if_splits)
  moreover have "(if ?ok then n else 0) + tb_tokens ?tb1 \<le> tb_tokens tb + tb_refill_rate tb * (t - tb_last_refill tb)"
    using acquire_balance Cons.prems q by simp
  ultimately show ?case using rest(2) q by (auto simp: algebra_simps)
qed simp

lemma acquire_refilled:
  "tb_last_refill tb \<le> t \<Longrightarrow>
   TokenBucket_acquire t n tb = TokenBucket_acquire t n (TokenBucket_refill t tb)"
  by (simp add: tb_defs Let_def)

lemma tb_ok_refill: "tb_ok tb \<Longrightarrow> tb_last_refill tb \<le> t \<Longrightarrow> tb_ok (TokenBucket_refill t tb)"
  by (auto simp: tb_ok_def tb_defs Let_def)

subsection \<open>Properties\<close>

text \<open>C6. The rate bound. Take any bucket with its stock in range and any window of requests under a
  monotonic clock: the tokens granted in the window are at most the capacity plus what the refill
  rate yields between the window's first and last request; and the stock stays between zero and
  the capacity.\<close>

theorem token_bucket_rate_bound:
  assumes "tb_ok tb" and "reqs_ok (tb_last_refill tb) ((t, n) # reqs)"
    and "tb_run ((t, n) # reqs) tb = (granted, tb')"
  shows "granted \<le> tb_capacity tb + tb_refill_rate tb * (fst (last ((t, n) # reqs)) - t)
    \<and> 0 \<le> tb_tokens tb' \<and> tb_tokens tb' \<le> tb_capacity tb"
proof -
  let ?tb = "TokenBucket_refill t tb"
  have le: "tb_last_refill tb \<le> t" using assms(2) by simp
  have run: "tb_run ((t, n) # reqs) ?tb = (granted, tb')"
    using assms(3) acquire_refilled[OF le, of n] by simp
  have "tb_last_refill ?tb = t" "tb_tokens ?tb \<le> tb_capacity tb"
    "tb_refill_rate ?tb = tb_refill_rate tb" "tb_capacity ?tb = tb_capacity tb"
    by (simp_all add: TokenBucket_refill_def Let_def)
  with tb_run_balance[OF tb_ok_refill[OF assms(1) le] _ run] assms(2) show ?thesis
    by (auto simp: tb_ok_def split: if_splits)
qed

theorem token_bucket_rate_bound_witness:
  "fst (tb_run [(1, 2), (1, 1), (3, 1)] (TokenBucket_init 2 (1 / 2) 0)) \<le> 2 + 1 / 2 * (3 - 1)"
  using token_bucket_rate_bound[of "TokenBucket_init 2 (1 / 2) 0" 1 2 "[(1, 1), (3, 1)]"
      "fst (tb_run [(1, 2), (1, 1), (3, 1)] (TokenBucket_init 2 (1 / 2) 0))"
      "snd (tb_run [(1, 2), (1, 1), (3, 1)] (TokenBucket_init 2 (1 / 2) 0))"]
  by (simp add: tb_ok_def TokenBucket_init_def del: tb_run.simps)

text \<open>The advertised waiting time is exact: after a refused request for no more than the
  capacity, the same request is granted at the time \<^verbatim>\<open>retry_after_ms\<close> announces and at no time
  before it.\<close>

theorem token_bucket_retry_after_exact:
  assumes "TokenBucket_acquire now n tb = (False, tb')" and "n \<le> tb_capacity tb"
    and "0 < tb_refill_rate tb" and "TokenBucket_retry_after_ms n tb' = Some ms" and "now \<le> t"
  shows "fst (TokenBucket_acquire t n tb') \<longleftrightarrow> now + ms / 1000 \<le> t"
proof -
  have tb': "tb' = TokenBucket_refill now tb" "tb_tokens tb' < n"
    using assms(1) by (auto simp: TokenBucket_acquire_def Let_def split: if_splits)
  then have fields: "tb_last_refill tb' = now" "tb_capacity tb' = tb_capacity tb"
    "tb_refill_rate tb' = tb_refill_rate tb" by (simp_all add: TokenBucket_refill_def Let_def)
  have ms: "ms / 1000 = (n - tb_tokens tb') / tb_refill_rate tb"
    using assms(3,4) tb' fields by (auto simp: TokenBucket_retry_after_ms_def Let_def split: if_splits)
  have "fst (TokenBucket_acquire t n tb') \<longleftrightarrow> n \<le> tb_tokens tb' + (t - now) * tb_refill_rate tb"
    using assms(2) fields by (auto simp: TokenBucket_acquire_def TokenBucket_refill_def Let_def)
  also have "\<dots> \<longleftrightarrow> (n - tb_tokens tb') / tb_refill_rate tb \<le> t - now"
    using assms(3) by (subst pos_divide_le_eq) (auto simp: algebra_simps)
  also have "\<dots> \<longleftrightarrow> now + ms / 1000 \<le> t" unfolding ms by linarith
  finally show ?thesis .
qed

theorem token_bucket_retry_after_exact_witness:
  "fst (TokenBucket_acquire 3 1 (snd (TokenBucket_acquire 1 1
      \<lparr>tb_capacity = 2, tb_refill_rate = 1 / 2, tb_tokens = 0, tb_last_refill = 1\<rparr>)))"
  using token_bucket_retry_after_exact[of 1 1
      "\<lparr>tb_capacity = 2, tb_refill_rate = 1 / 2, tb_tokens = 0, tb_last_refill = 1\<rparr>"
      "\<lparr>tb_capacity = 2, tb_refill_rate = 1 / 2, tb_tokens = 0, tb_last_refill = 1\<rparr>" 2000 3]
  by (simp add: tb_defs TokenBucket_retry_after_ms_def)

text \<open>The throttle runs the function exactly when the bucket grants the tokens.\<close>

lemma throttle_execute:
  "ThrottlePolicy_execute clock n fn tb w =
     (if fst (TokenBucket_acquire (clock w) n tb)
      then (fst (fn w), snd (TokenBucket_acquire (clock w) n tb), snd (fn w))
      else (Inl (ThrottledError_init
                  (TokenBucket_retry_after_ms n (snd (TokenBucket_acquire (clock w) n tb)))),
            snd (TokenBucket_acquire (clock w) n tb), w))"
  by (auto simp: ThrottlePolicy_execute_def split_def split: bool.splits)

end
