(* ===== verification/Bulkhead.thy ===== *)
theory Bulkhead
  imports Errors
begin

text \<open>
  Concurrency limits: \<^verbatim>\<open>resilience/bulkhead\<close> (\<^verbatim>\<open>ConcurrencyLimiter\<close>, \<^verbatim>\<open>QueueLimiter\<close>, \<^verbatim>\<open>Bulkhead\<close>) and
  \<^verbatim>\<open>resilience/backpressure.py\<close>. Both are built on \<^verbatim>\<open>asyncio.Semaphore\<close>, modelled as Python 3.12 implements it: a value and a
  queue of futures. A release gives the slot to the first future that is not done, but the future stays in the queue until its task
  resumes, and until then the semaphore counts as locked even if its value is positive. Between two suspension points a
  coroutine runs alone, so entering (check, acquire or queue up), leaving, being cancelled while waiting and resuming are
  atomic. The step relations \<open>bh_step\<close>, \<open>cl_step\<close> and \<open>bp_step\<close> interleave these for any tasks.
\<close>

subsection \<open>asyncio.Semaphore\<close>

text \<open>A future in the queue, with the task that waits for it: not done; done with a result, where the flag says that the task was
  cancelled since; or cancelled.\<close>

datatype waiter = Pending nat | Woken nat bool | Cancelled nat

fun is_pending :: "waiter \<Rightarrow> bool" where
  "is_pending (Pending t) = True"
| "is_pending w = False"

fun is_woken :: "waiter \<Rightarrow> bool" where
  "is_woken (Woken t c) = True"
| "is_woken w = False"

fun is_cancelled :: "waiter \<Rightarrow> bool" where
  "is_cancelled (Cancelled t) = True"
| "is_cancelled w = False"

record Semaphore =
  sem_value :: nat
  sem_waiters :: "waiter list"

definition Semaphore_init :: "nat \<Rightarrow> Semaphore" where
  "Semaphore_init v = \<lparr>sem_value = v, sem_waiters = []\<rparr>"

definition sem_locked :: "Semaphore \<Rightarrow> bool" where
  "sem_locked s \<longleftrightarrow> sem_value s = 0 \<or> list_ex (\<lambda>w. \<not> is_cancelled w) (sem_waiters s)"

text \<open>The first part of \<^verbatim>\<open>acquire\<close>. \<open>True\<close>: acquired at once; \<open>False\<close>: the task is now waiting.\<close>

definition sem_acquire :: "nat \<Rightarrow> Semaphore \<Rightarrow> bool \<times> Semaphore" where
  "sem_acquire t s =
     (if \<not> sem_locked s then (True, s\<lparr>sem_value := sem_value s - 1\<rparr>)
      else (False, s\<lparr>sem_waiters := sem_waiters s @ [Pending t]\<rparr>))"

text \<open>\<^verbatim>\<open>_wake_up_next\<close>: the first future that is not done gets a result and the slot.\<close>

fun set_first_result :: "waiter list \<Rightarrow> waiter list" where
  "set_first_result [] = []"
| "set_first_result (Pending t # ws) = Woken t False # ws"
| "set_first_result (w # ws) = w # set_first_result ws"

definition sem_wake_up_next :: "Semaphore \<Rightarrow> Semaphore" where
  "sem_wake_up_next s =
     (if list_ex is_pending (sem_waiters s)
      then s\<lparr>sem_value := sem_value s - 1, sem_waiters := set_first_result (sem_waiters s)\<rparr> else s)"

definition sem_release :: "Semaphore \<Rightarrow> Semaphore" where
  "sem_release s = sem_wake_up_next (s\<lparr>sem_value := Suc (sem_value s)\<rparr>)"

text \<open>The task of the \<open>i\<close>-th future is cancelled: a future that is not done is cancelled with it.\<close>

fun cancel_waiter :: "waiter \<Rightarrow> waiter" where
  "cancel_waiter (Pending t) = Cancelled t"
| "cancel_waiter (Woken t c) = Woken t True"
| "cancel_waiter (Cancelled t) = Cancelled t"

definition sem_cancel :: "nat \<Rightarrow> Semaphore \<Rightarrow> Semaphore" where
  "sem_cancel i s = s\<lparr>sem_waiters := (sem_waiters s)[i := cancel_waiter (sem_waiters s ! i)]\<rparr>"

text \<open>The rest of \<^verbatim>\<open>acquire\<close>, when the task of the \<open>i\<close>-th future, which is done, resumes: the future leaves the queue; a task that
  was cancelled after it got the slot gives it back. The task, if it has acquired the semaphore.\<close>

definition sem_resume :: "nat \<Rightarrow> Semaphore \<Rightarrow> nat option \<times> Semaphore" where
  "sem_resume i s =
     (let s1 = s\<lparr>sem_waiters := take i (sem_waiters s) @ drop (Suc i) (sem_waiters s)\<rparr>
      in case sem_waiters s ! i of
           Woken t False \<Rightarrow> (Some t, if 0 < sem_value s1 then sem_wake_up_next s1 else s1)
         | Woken t True \<Rightarrow> (None, sem_wake_up_next (s1\<lparr>sem_value := Suc (sem_value s1)\<rparr>))
         | _ \<Rightarrow> (None, s1))"

lemmas sem_defs = Semaphore_init_def sem_locked_def sem_acquire_def sem_wake_up_next_def sem_release_def

subsection \<open>Slots of a semaphore\<close>

text \<open>Slots are free or held by tasks that were given one and have not resumed yet; the rest is with the tasks that run. A
  task that waits while a slot is free waits behind one that was woken.\<close>

definition sem_slots :: "Semaphore \<Rightarrow> nat" where
  "sem_slots s = sem_value s + length (filter is_woken (sem_waiters s))"

definition sem_fair :: "Semaphore \<Rightarrow> bool" where
  "sem_fair s \<longleftrightarrow> 0 < sem_value s \<and> list_ex is_pending (sem_waiters s) \<longrightarrow> list_ex is_woken (sem_waiters s)"

lemma set_first_result_facts:
  "length (set_first_result ws) = length ws"
  "list_ex is_pending ws \<Longrightarrow> length (filter is_woken (set_first_result ws)) = Suc (length (filter is_woken ws))"
  "list_ex is_pending ws \<Longrightarrow> list_ex is_woken (set_first_result ws)"
  by (induction ws rule: set_first_result.induct) auto

lemma sem_init_facts: "sem_slots (Semaphore_init v) = v" "sem_fair (Semaphore_init v)" "sem_waiters (Semaphore_init v) = []"
  by (simp_all add: sem_slots_def sem_fair_def Semaphore_init_def)

lemma sem_acquire_facts:
  assumes "sem_acquire t s = (ok, s')" "sem_fair s"
  shows "sem_slots s = sem_slots s' + of_bool ok" "sem_fair s'"
    and "length (sem_waiters s') = length (sem_waiters s) + of_bool (\<not> ok)"
  using assms by (auto simp: sem_acquire_def sem_locked_def sem_slots_def sem_fair_def list_ex_iff split: if_splits)
    (metis is_cancelled.simps(1) is_pending.cases is_pending.simps(1) is_woken.simps(1))+

lemma sem_wake_facts:
  assumes "0 < sem_value s"
  shows "sem_slots (sem_wake_up_next s) = sem_slots s" "sem_fair (sem_wake_up_next s)"
    and "length (sem_waiters (sem_wake_up_next s)) = length (sem_waiters s)"
  using assms set_first_result_facts[of "sem_waiters s"]
  by (auto simp: sem_wake_up_next_def sem_slots_def sem_fair_def)

lemma sem_release_facts:
  "sem_slots (sem_release s) = Suc (sem_slots s)" "sem_fair (sem_release s)"
  "length (sem_waiters (sem_release s)) = length (sem_waiters s)"
  using sem_wake_facts[of "s\<lparr>sem_value := Suc (sem_value s)\<rparr>"] by (simp_all add: sem_release_def sem_slots_def)

lemma sem_release_idle: "sem_waiters s = [] \<Longrightarrow> sem_release s = s\<lparr>sem_value := Suc (sem_value s)\<rparr>"
  by (simp add: sem_release_def sem_wake_up_next_def)

lemma split_at: "i < length ws \<Longrightarrow> \<exists>us w vs. ws = us @ w # vs \<and> length us = i"
  by (metis id_take_nth_drop length_take min.absorb4)

lemma length_remove1_Suc: "t \<in> set xs \<Longrightarrow> Suc (length (remove1 t xs)) = length xs"
  by (induction xs) auto

lemma sem_cancel_facts:
  assumes "i < length (sem_waiters s)" "sem_fair s"
  shows "sem_slots (sem_cancel i s) = sem_slots s" "sem_fair (sem_cancel i s)"
    and "length (sem_waiters (sem_cancel i s)) = length (sem_waiters s)"
proof -
  obtain us w vs where ws: "sem_waiters s = us @ w # vs" "length us = i" using split_at[OF assms(1)] by auto
  then have cancelled: "sem_waiters (sem_cancel i s) = us @ cancel_waiter w # vs" "sem_value (sem_cancel i s) = sem_value s"
    by (auto simp: sem_cancel_def nth_append)
  show "sem_slots (sem_cancel i s) = sem_slots s" "sem_fair (sem_cancel i s)"
      "length (sem_waiters (sem_cancel i s)) = length (sem_waiters s)"
    using assms(2) ws cancelled by (cases w; auto simp: sem_slots_def sem_fair_def)+
qed

lemma sem_resume_facts:
  assumes "i < length (sem_waiters s)" "\<not> is_pending (sem_waiters s ! i)" "sem_resume i s = (r, s')" "sem_fair s"
  shows "sem_slots s = sem_slots s' + of_bool (r \<noteq> None)" "sem_fair s'" "length (sem_waiters s) = Suc (length (sem_waiters s'))"
proof -
  obtain us w vs where ws: "sem_waiters s = us @ w # vs" "length us = i" using split_at[OF assms(1)] by auto
  let ?s1 = "s\<lparr>sem_waiters := us @ vs\<rparr>" and ?s2 = "s\<lparr>sem_waiters := us @ vs, sem_value := Suc (sem_value s)\<rparr>"
  have s': "(r, s') = (case w of
      Woken t False \<Rightarrow> (Some t, if 0 < sem_value s then sem_wake_up_next ?s1 else ?s1)
    | Woken t True \<Rightarrow> (None, sem_wake_up_next ?s2) | _ \<Rightarrow> (None, ?s1))"
    using assms(3) ws by (auto simp: sem_resume_def Let_def nth_append split: waiter.splits bool.splits)
  show "sem_slots s = sem_slots s' + of_bool (r \<noteq> None)" "sem_fair s'" "length (sem_waiters s) = Suc (length (sem_waiters s'))"
    using s' assms(2,4) ws sem_wake_facts[of ?s1] sem_wake_facts[of ?s2]
    by (auto simp: sem_slots_def sem_fair_def nth_append split: waiter.splits bool.splits if_splits)
qed

subsection \<open>ConcurrencyLimiter\<close>

record ConcurrencyLimiter =
  cl_semaphore :: Semaphore
  cl_max_concurrent :: nat

definition ConcurrencyLimiter_init :: "nat \<Rightarrow> ConcurrencyLimiter" where
  "ConcurrencyLimiter_init n = \<lparr>cl_semaphore = Semaphore_init n, cl_max_concurrent = n\<rparr>"

definition ConcurrencyLimiter_available :: "ConcurrencyLimiter \<Rightarrow> nat" where
  "ConcurrencyLimiter_available l = sem_value (cl_semaphore l)"

datatype entry = Entered | Waiting | Refused exn

text \<open>\<^verbatim>\<open>__aenter__\<close> waits at most 10 ms for the semaphore: the task enters at once or queues up. When
  the time is over, \<^verbatim>\<open>asyncio.wait_for\<close> cancels the waiter and raises \<^verbatim>\<open>TimeoutError\<close>. As \<^verbatim>\<open>acquire\<close> only
  ever returns \<^verbatim>\<open>True\<close>, the \<^verbatim>\<open>BulkheadFullError\<close> branch is never taken.\<close>

definition ConcurrencyLimiter_enter :: "nat \<Rightarrow> ConcurrencyLimiter \<Rightarrow> entry \<times> ConcurrencyLimiter" where
  "ConcurrencyLimiter_enter t l =
     (case sem_acquire t (cl_semaphore l) of
        (ok, s) \<Rightarrow> (if ok then Entered else Waiting, l\<lparr>cl_semaphore := s\<rparr>))"

definition ConcurrencyLimiter_cancel :: "nat \<Rightarrow> ConcurrencyLimiter \<Rightarrow> ConcurrencyLimiter" where
  "ConcurrencyLimiter_cancel i l = l\<lparr>cl_semaphore := sem_cancel i (cl_semaphore l)\<rparr>"

definition ConcurrencyLimiter_resume :: "nat \<Rightarrow> ConcurrencyLimiter \<Rightarrow> entry \<times> ConcurrencyLimiter" where
  "ConcurrencyLimiter_resume i l =
     (case sem_resume i (cl_semaphore l) of
        (r, s) \<Rightarrow> (if r = None then Refused (plain_exn BuiltinTimeoutError []) else Entered, l\<lparr>cl_semaphore := s\<rparr>))"

definition ConcurrencyLimiter_exit :: "ConcurrencyLimiter \<Rightarrow> ConcurrencyLimiter" where
  "ConcurrencyLimiter_exit l = l\<lparr>cl_semaphore := sem_release (cl_semaphore l)\<rparr>"

subsection \<open>QueueLimiter and Bulkhead\<close>

record QueueLimiter =
  ql_semaphore :: Semaphore
  ql_queue :: Semaphore
  ql_max_concurrent :: nat
  ql_max_queue :: nat

definition QueueLimiter_init :: "nat \<Rightarrow> nat \<Rightarrow> QueueLimiter" where
  "QueueLimiter_init max_concurrent max_queue =
     \<lparr>ql_semaphore = Semaphore_init max_concurrent,
      ql_queue = Semaphore_init (max_concurrent + max_queue),
      ql_max_concurrent = max_concurrent, ql_max_queue = max_queue\<rparr>"

definition QueueLimiter_enter :: "nat \<Rightarrow> QueueLimiter \<Rightarrow> entry \<times> QueueLimiter" where
  "QueueLimiter_enter t l =
     (if sem_value (ql_queue l) = 0 then (Refused (base_exn BulkheadFullError ''Queue is full''), l)
      else let q = snd (sem_acquire t (ql_queue l))
           in case sem_acquire t (ql_semaphore l) of
                (ok, s) \<Rightarrow> (if ok then Entered else Waiting, l\<lparr>ql_queue := q, ql_semaphore := s\<rparr>))"

definition QueueLimiter_exit :: "QueueLimiter \<Rightarrow> QueueLimiter" where
  "QueueLimiter_exit l = l\<lparr>ql_semaphore := sem_release (ql_semaphore l), ql_queue := sem_release (ql_queue l)\<rparr>"

text \<open>Waiting in \<^verbatim>\<open>self._semaphore.acquire()\<close>: the task of the \<open>i\<close>-th future is cancelled or resumes. When it resumes
  without the slot, the exception leaves \<^verbatim>\<open>__aenter__\<close>; \<^verbatim>\<open>__aexit__\<close> never runs.\<close>

definition QueueLimiter_cancel :: "nat \<Rightarrow> QueueLimiter \<Rightarrow> QueueLimiter" where
  "QueueLimiter_cancel i l = l\<lparr>ql_semaphore := sem_cancel i (ql_semaphore l)\<rparr>"

definition QueueLimiter_resume :: "nat \<Rightarrow> QueueLimiter \<Rightarrow> nat option \<times> QueueLimiter" where
  "QueueLimiter_resume i l = (case sem_resume i (ql_semaphore l) of (r, s) \<Rightarrow> (r, l\<lparr>ql_semaphore := s\<rparr>))"

record Bulkhead =
  bh_name :: string
  bh_limiter :: QueueLimiter

definition Bulkhead_init :: "string \<Rightarrow> nat \<Rightarrow> nat \<Rightarrow> Bulkhead" where
  "Bulkhead_init name max_concurrent max_queue =
     \<lparr>bh_name = name, bh_limiter = QueueLimiter_init max_concurrent max_queue\<rparr>"

definition Bulkhead_enter :: "nat \<Rightarrow> Bulkhead \<Rightarrow> entry \<times> Bulkhead" where
  "Bulkhead_enter t b =
     (case QueueLimiter_enter t (bh_limiter b) of (r, l) \<Rightarrow> (r, b\<lparr>bh_limiter := l\<rparr>))"

definition Bulkhead_exit :: "Bulkhead \<Rightarrow> Bulkhead" where
  "Bulkhead_exit b = b\<lparr>bh_limiter := QueueLimiter_exit (bh_limiter b)\<rparr>"

definition Bulkhead_cancel :: "nat \<Rightarrow> Bulkhead \<Rightarrow> Bulkhead" where
  "Bulkhead_cancel i b = b\<lparr>bh_limiter := QueueLimiter_cancel i (bh_limiter b)\<rparr>"

definition Bulkhead_resume :: "nat \<Rightarrow> Bulkhead \<Rightarrow> nat option \<times> Bulkhead" where
  "Bulkhead_resume i b = (case QueueLimiter_resume i (bh_limiter b) of (r, l) \<Rightarrow> (r, b\<lparr>bh_limiter := l\<rparr>))"

definition bh_waiting_tasks :: "Bulkhead \<Rightarrow> waiter list" where
  "bh_waiting_tasks b = sem_waiters (ql_semaphore (bh_limiter b))"

text \<open>The bulkhead with the tasks running inside it and the number of cancelled waiters that have resumed so far.\<close>

type_synonym bh_system = "Bulkhead \<times> nat list \<times> nat"

inductive bh_step :: "bh_system \<Rightarrow> bh_system \<Rightarrow> bool" where
  bh_entered:
    "Bulkhead_enter t b = (Entered, b') \<Longrightarrow> bh_step (b, run, c) (b', t # run, c)"
| bh_waiting:
    "Bulkhead_enter t b = (Waiting, b') \<Longrightarrow> bh_step (b, run, c) (b', run, c)"
| bh_refused:
    "Bulkhead_enter t b = (Refused e, b') \<Longrightarrow> bh_step (b, run, c) (b', run, c)"
| bh_exit:
    "t \<in> set run \<Longrightarrow> bh_step (b, run, c) (Bulkhead_exit b, remove1 t run, c)"
| bh_cancel:
    "i < length (bh_waiting_tasks b) \<Longrightarrow> bh_step (b, run, c) (Bulkhead_cancel i b, run, c)"
| bh_resumed:
    "i < length (bh_waiting_tasks b) \<Longrightarrow> \<not> is_pending (bh_waiting_tasks b ! i) \<Longrightarrow> Bulkhead_resume i b = (Some t, b') \<Longrightarrow>
     bh_step (b, run, c) (b', t # run, c)"
| bh_gave_up:
    "i < length (bh_waiting_tasks b) \<Longrightarrow> \<not> is_pending (bh_waiting_tasks b ! i) \<Longrightarrow> Bulkhead_resume i b = (None, b') \<Longrightarrow>
     bh_step (b, run, c) (b', run, Suc c)"

inductive bh_reach :: "nat \<Rightarrow> nat \<Rightarrow> bh_system \<Rightarrow> bool" for mc mq where
  bh_start: "bh_reach mc mq (Bulkhead_init name mc mq, [], 0)"
| bh_next: "bh_reach mc mq s \<Longrightarrow> bh_step s s' \<Longrightarrow> bh_reach mc mq s'"

definition bh_inv :: "nat \<Rightarrow> nat \<Rightarrow> bh_system \<Rightarrow> bool" where
  "bh_inv mc mq s \<longleftrightarrow>
     (case s of (b, run, c) \<Rightarrow>
        let l = bh_limiter b
        in sem_waiters (ql_queue l) = [] \<and> sem_fair (ql_semaphore l)
           \<and> sem_slots (ql_semaphore l) + length run = mc
           \<and> sem_value (ql_queue l) + length run + length (sem_waiters (ql_semaphore l)) + c = mc + mq)"

lemmas bh_defs = Bulkhead_init_def Bulkhead_enter_def Bulkhead_exit_def Bulkhead_cancel_def Bulkhead_resume_def
  QueueLimiter_init_def QueueLimiter_enter_def QueueLimiter_exit_def QueueLimiter_cancel_def QueueLimiter_resume_def
  bh_waiting_tasks_def

lemma bh_inv_init: "bh_inv mc mq (Bulkhead_init name mc mq, [], 0)"
  by (simp add: bh_inv_def bh_defs sem_init_facts) (simp add: Semaphore_init_def)

lemma bh_inv_enter:
  assumes "Bulkhead_enter t b = (r, b')" "bh_inv mc mq (b, run, c)"
  shows "bh_inv mc mq (b', if r = Entered then t # run else run, c)"
proof (cases "sem_value (ql_queue (bh_limiter b)) = 0")
  case False
  obtain ok s where acquired: "sem_acquire t (ql_semaphore (bh_limiter b)) = (ok, s)" by fastforce
  moreover have "snd (sem_acquire t (ql_queue (bh_limiter b))) = (ql_queue (bh_limiter b))\<lparr>sem_value := sem_value (ql_queue (bh_limiter b)) - 1\<rparr>"
    using assms(2) False by (simp add: bh_inv_def Let_def sem_acquire_def sem_locked_def)
  ultimately show ?thesis
    using assms False sem_acquire_facts[OF acquired] by (auto simp: bh_inv_def bh_defs Let_def split: if_splits)
qed (use assms in \<open>auto simp: bh_defs\<close>)

lemma bh_inv_step: "bh_step s s' \<Longrightarrow> bh_inv mc mq s \<Longrightarrow> bh_inv mc mq s'"
proof (induction rule: bh_step.induct)
  case (bh_exit t run b c)
  from this(2) length_remove1_Suc[OF this(1)] show ?case
    by (auto simp: bh_inv_def bh_defs Let_def sem_release_facts sem_release_idle)
next
  case (bh_resumed i b t b' run c)
  then obtain s where "sem_resume i (ql_semaphore (bh_limiter b)) = (Some t, s)"
    "b' = b\<lparr>bh_limiter := (bh_limiter b)\<lparr>ql_semaphore := s\<rparr>\<rparr>"
    by (auto simp: bh_defs split: prod.splits)
  with bh_resumed sem_resume_facts[of i "ql_semaphore (bh_limiter b)" "Some t" s] show ?case
    by (auto simp: bh_inv_def bh_defs Let_def)
next
  case (bh_gave_up i b b' run c)
  then obtain s where "sem_resume i (ql_semaphore (bh_limiter b)) = (None, s)"
    "b' = b\<lparr>bh_limiter := (bh_limiter b)\<lparr>ql_semaphore := s\<rparr>\<rparr>"
    by (auto simp: bh_defs split: prod.splits)
  with bh_gave_up sem_resume_facts[of i "ql_semaphore (bh_limiter b)" None s] show ?case
    by (auto simp: bh_inv_def bh_defs Let_def)
next
  case (bh_cancel i b run c)
  then show ?case
    using sem_cancel_facts[of i "ql_semaphore (bh_limiter b)"] by (auto simp: bh_inv_def bh_defs Let_def)
qed (use bh_inv_enter in fastforce)+

lemma bh_inv_reach: "bh_reach mc mq s \<Longrightarrow> bh_inv mc mq s"
  by (induction rule: bh_reach.induct) (auto intro: bh_inv_init bh_inv_step)

text \<open>Without cancellations, an empty bulkhead has all its queue slots back.\<close>

lemma bh_idle_slots:
  "bh_inv mc mq (b, [], c) \<Longrightarrow> bh_waiting_tasks b = [] \<Longrightarrow> sem_value (ql_queue (bh_limiter b)) = mc + mq - c"
  by (auto simp: bh_inv_def Let_def bh_waiting_tasks_def)

text \<open>A done future can always resume, and resuming shortens the queue: the tasks that were woken or cancelled leave it.\<close>

lemma bh_can_resume:
  assumes "i < length (bh_waiting_tasks b)" "\<not> is_pending (bh_waiting_tasks b ! i)" "bh_inv mc mq (b, run, c)"
  shows "\<exists>b' run' c'. bh_step (b, run, c) (b', run', c') \<and> length (bh_waiting_tasks b) = Suc (length (bh_waiting_tasks b'))"
proof -
  obtain r b' where r: "Bulkhead_resume i b = (r, b')" by fastforce
  then have "length (bh_waiting_tasks b) = Suc (length (bh_waiting_tasks b'))"
    using assms sem_resume_facts(3)[of i "ql_semaphore (bh_limiter b)"]
    by (auto simp: bh_defs bh_inv_def Let_def split: prod.splits)
  then show ?thesis
    using bh_resumed[OF assms(1,2)] bh_gave_up[OF assms(1,2)] r by (cases r) blast+
qed

subsection \<open>ConcurrencyLimiter: invariant\<close>

type_synonym cl_system = "ConcurrencyLimiter \<times> nat list"

inductive cl_step :: "cl_system \<Rightarrow> cl_system \<Rightarrow> bool" where
  cl_entered: "ConcurrencyLimiter_enter t l = (Entered, l') \<Longrightarrow> cl_step (l, run) (l', t # run)"
| cl_waiting: "ConcurrencyLimiter_enter t l = (Waiting, l') \<Longrightarrow> cl_step (l, run) (l', run)"
| cl_timeout: "i < length (sem_waiters (cl_semaphore l)) \<Longrightarrow> cl_step (l, run) (ConcurrencyLimiter_cancel i l, run)"
| cl_resumed:
    "i < length (sem_waiters (cl_semaphore l)) \<Longrightarrow> \<not> is_pending (sem_waiters (cl_semaphore l) ! i) \<Longrightarrow>
     ConcurrencyLimiter_resume i l = (Entered, l') \<Longrightarrow> cl_step (l, run) (l', t # run)"
| cl_refused:
    "i < length (sem_waiters (cl_semaphore l)) \<Longrightarrow> \<not> is_pending (sem_waiters (cl_semaphore l) ! i) \<Longrightarrow>
     ConcurrencyLimiter_resume i l = (Refused e, l') \<Longrightarrow> cl_step (l, run) (l', run)"
| cl_exit: "t \<in> set run \<Longrightarrow> cl_step (l, run) (ConcurrencyLimiter_exit l, remove1 t run)"

definition cl_inv :: "nat \<Rightarrow> cl_system \<Rightarrow> bool" where
  "cl_inv n s \<longleftrightarrow> (case s of (l, run) \<Rightarrow> sem_slots (cl_semaphore l) + length run = n \<and> sem_fair (cl_semaphore l))"

lemmas cl_defs = ConcurrencyLimiter_init_def ConcurrencyLimiter_enter_def ConcurrencyLimiter_cancel_def
  ConcurrencyLimiter_resume_def ConcurrencyLimiter_exit_def

lemma cl_inv_init: "cl_inv n (ConcurrencyLimiter_init n, [])"
  by (simp add: cl_inv_def cl_defs sem_init_facts)

lemma cl_inv_step: "cl_step s s' \<Longrightarrow> cl_inv n s \<Longrightarrow> cl_inv n s'"
proof (induction rule: cl_step.induct)
  case (cl_exit t run l)
  from this(2) length_remove1_Suc[OF this(1)] show ?case by (auto simp: cl_inv_def cl_defs sem_release_facts)
next
  case (cl_timeout i l run)
  then show ?case using sem_cancel_facts[of i "cl_semaphore l"] by (auto simp: cl_inv_def cl_defs)
qed (auto simp: cl_inv_def cl_defs dest: sem_acquire_facts sem_resume_facts split: prod.splits if_splits)

subsection \<open>BackpressurePolicy\<close>

record BackpressurePolicy =
  bp_max :: int
  bp_semaphore :: Semaphore

definition BackpressureError_init :: "int \<Rightarrow> int \<Rightarrow> exn" where
  "BackpressureError_init in_flight max_in_flight =
     with_attr ''max_in_flight'' (PInt max_in_flight)
       (with_attr ''in_flight'' (PInt in_flight)
         (plain_exn BackpressureError
           (''Backpressure limit reached: '' @ show_int in_flight @ ''/'' @ show_int max_in_flight
             @ '' slots in use'')))"

definition BackpressurePolicy_init :: "int \<Rightarrow> exn + BackpressurePolicy" where
  "BackpressurePolicy_init n =
     (if n < 1 then Inl (plain_exn ValueError (''max_in_flight must be >= 1, got '' @ show_int n))
      else Inr \<lparr>bp_max = n, bp_semaphore = Semaphore_init (nat n)\<rparr>)"

definition bp_in_flight :: "BackpressurePolicy \<Rightarrow> int" where
  "bp_in_flight p = bp_max p - int (sem_value (bp_semaphore p))"

definition bp_utilization :: "BackpressurePolicy \<Rightarrow> rat" where
  "bp_utilization p = of_int (bp_in_flight p) / of_int (bp_max p)"

definition bp_is_overloaded :: "BackpressurePolicy \<Rightarrow> bool" where
  "bp_is_overloaded p \<longleftrightarrow> sem_value (bp_semaphore p) = 0"

definition BackpressurePolicy_aenter :: "nat \<Rightarrow> BackpressurePolicy \<Rightarrow> entry \<times> BackpressurePolicy" where
  "BackpressurePolicy_aenter t p =
     (if sem_value (bp_semaphore p) = 0
      then (Refused (BackpressureError_init (bp_in_flight p) (bp_max p)), p)
      else case sem_acquire t (bp_semaphore p) of
             (ok, s) \<Rightarrow> (if ok then Entered else Waiting, p\<lparr>bp_semaphore := s\<rparr>))"

definition BackpressurePolicy_aexit :: "BackpressurePolicy \<Rightarrow> BackpressurePolicy" where
  "BackpressurePolicy_aexit p = p\<lparr>bp_semaphore := sem_release (bp_semaphore p)\<rparr>"

text \<open>\<^verbatim>\<open>asyncio.wait_for(coro, timeout=0)\<close> on a coroutine: the task made for it is cancelled before its
  first step, and \<^verbatim>\<open>TimeoutError\<close> is raised.\<close>

definition wait_for_zero :: "('w, 'a) act \<Rightarrow> ('w, 'a) act" where
  "wait_for_zero coro w = (Inl (plain_exn BuiltinTimeoutError []), w)"

text \<open>\<^verbatim>\<open>acquire()\<close>, the context manager: \<open>body\<close> is what runs at the \<^verbatim>\<open>yield\<close>.\<close>

definition BackpressurePolicy_acquire ::
  "nat \<Rightarrow> (BackpressurePolicy, 'a) act \<Rightarrow> (BackpressurePolicy, 'a) act" where
  "BackpressurePolicy_acquire t body p =
     (if sem_locked (bp_semaphore p) \<or> sem_value (bp_semaphore p) = 0
      then (Inl (BackpressureError_init (bp_in_flight p) (bp_max p)), p)
      else case wait_for_zero
                  (\<lambda>p. case sem_acquire t (bp_semaphore p) of (ok, s) \<Rightarrow> (Inr ok, p\<lparr>bp_semaphore := s\<rparr>)) p of
             (Inl e, p1) \<Rightarrow> (Inl e, p1)
           | (Inr ok, p1) \<Rightarrow>
               if \<not> ok then (Inl (BackpressureError_init (bp_in_flight p1) (bp_max p1)), p1)
               else (case body p1 of (r, p2) \<Rightarrow> (r, BackpressurePolicy_aexit p2)))"

inductive bp_step :: "BackpressurePolicy \<times> nat list \<Rightarrow> BackpressurePolicy \<times> nat list \<Rightarrow> bool" where
  bp_entered: "BackpressurePolicy_aenter t p = (Entered, p') \<Longrightarrow> bp_step (p, run) (p', t # run)"
| bp_waiting: "BackpressurePolicy_aenter t p = (Waiting, p') \<Longrightarrow> bp_step (p, run) (p', run)"
| bp_refused: "BackpressurePolicy_aenter t p = (Refused e, p') \<Longrightarrow> bp_step (p, run) (p', run)"
| bp_left: "t \<in> set run \<Longrightarrow> bp_step (p, run) (BackpressurePolicy_aexit p, remove1 t run)"

inductive bp_reach :: "int \<Rightarrow> BackpressurePolicy \<times> nat list \<Rightarrow> bool" for n where
  bp_start: "BackpressurePolicy_init n = Inr p \<Longrightarrow> bp_reach n (p, [])"
| bp_next: "bp_reach n s \<Longrightarrow> bp_step s s' \<Longrightarrow> bp_reach n s'"

definition bp_inv :: "int \<Rightarrow> BackpressurePolicy \<times> nat list \<Rightarrow> bool" where
  "bp_inv n s \<longleftrightarrow>
     (case s of (p, run) \<Rightarrow>
        bp_max p = n \<and> 1 \<le> n \<and> sem_waiters (bp_semaphore p) = []
        \<and> int (sem_value (bp_semaphore p)) + int (length run) = n)"

lemmas bp_defs = BackpressurePolicy_aenter_def BackpressurePolicy_aexit_def BackpressurePolicy_init_def
  bp_in_flight_def bp_is_overloaded_def

lemma bp_inv_init: "BackpressurePolicy_init n = Inr p \<Longrightarrow> bp_inv n (p, [])"
  by (auto simp: bp_inv_def bp_defs sem_defs split: if_splits)

lemma bp_inv_step: "bp_step s s' \<Longrightarrow> bp_inv n s \<Longrightarrow> bp_inv n s'"
  by (induction rule: bp_step.induct)
     (auto simp: bp_inv_def bp_defs sem_defs dest: length_remove1_Suc
       split: list.splits if_splits)

lemma bp_inv_reach: "bp_reach n s \<Longrightarrow> bp_inv n s"
  by (induction rule: bp_reach.induct)
     (auto simp: bp_inv_init intro: bp_inv_step)

subsection \<open>Properties\<close>

text \<open>C7. Capacity of a bulkhead, in every reachable state of every interleaving of tasks that enter, leave, are cancelled and
  resume. The tasks that run and those that were woken but have not resumed hold at most \<^verbatim>\<open>max_concurrent\<close> slots, and every
  other slot is free. At most \<^verbatim>\<open>max_concurrent + max_queue\<close> tasks are inside, and each cancelled waiter that has resumed
  has taken one of these places out of the bulkhead for good. A task waits while a slot is free only behind a woken one;
  so when every woken task has resumed, nobody waits unless all slots are in use, and then at most \<^verbatim>\<open>max_queue\<close> tasks wait.\<close>

theorem bulkhead_capacity:
  assumes "bh_reach mc mq (b, run, cancelled)"
  defines "waiting \<equiv> bh_waiting_tasks b" and "free \<equiv> sem_value (ql_semaphore (bh_limiter b))"
  shows "free + length run + length (filter is_woken waiting) = mc
    \<and> sem_value (ql_queue (bh_limiter b)) + length run + length waiting + cancelled = mc + mq
    \<and> (0 < free \<and> list_ex is_pending waiting \<longrightarrow> list_ex is_woken waiting)
    \<and> (list_ex is_pending waiting \<and> \<not> list_ex is_woken waiting \<longrightarrow> length run = mc \<and> length waiting \<le> mq)"
proof -
  have inv: "bh_inv mc mq (b, run, cancelled)" by (rule bh_inv_reach[OF assms(1)])
  then have slots: "free + length run + length (filter is_woken waiting) = mc"
      "sem_value (ql_queue (bh_limiter b)) + length run + length waiting + cancelled = mc + mq"
      "0 < free \<and> list_ex is_pending waiting \<longrightarrow> list_ex is_woken waiting"
    by (auto simp: bh_inv_def Let_def sem_slots_def sem_fair_def waiting_def free_def bh_waiting_tasks_def)
  moreover have "\<not> list_ex is_woken waiting \<Longrightarrow> filter is_woken waiting = []"
    by (simp add: list_ex_iff filter_empty_conv)
  ultimately show ?thesis by auto
qed

theorem bulkhead_capacity_witness:
  "\<exists>b. bh_reach 1 1 (b, [1], 1) \<and> sem_value (ql_queue (bh_limiter b)) = 0"
proof -
  let ?b0 = "Bulkhead_init ''db'' 1 1"
  let ?b1 = "snd (Bulkhead_enter 1 ?b0)" and ?b2 = "snd (Bulkhead_enter 2 (snd (Bulkhead_enter 1 ?b0)))"
  let ?b3 = "Bulkhead_cancel 0 ?b2" and ?b4 = "snd (Bulkhead_resume 0 (Bulkhead_cancel 0 ?b2))"
  note eval = bh_defs sem_defs sem_cancel_def sem_resume_def
  have "bh_reach 1 1 (?b1, [1], 0)"
    by (rule bh_next[OF bh_start[of _ _ "''db''"]], rule bh_entered) (simp add: eval)
  then have "bh_reach 1 1 (?b2, [1], 0)"
    by (rule bh_next) (rule bh_waiting[of 2], simp add: eval)
  then have "bh_reach 1 1 (?b3, [1], 0)"
    by (rule bh_next) (rule bh_cancel, simp add: eval)
  then have *: "bh_reach 1 1 (?b4, [1], Suc 0)"
    by (rule bh_next) (rule bh_gave_up[of 0], simp_all add: eval)
  from bulkhead_capacity[OF *] have "sem_value (ql_queue (bh_limiter ?b4)) = 0"
    by (simp add: eval)
  with * show ?thesis by auto
qed

text \<open>A new task waits although a slot is free: the second of two slots is released before the task that was given the first
  one resumes. Then more than \<^verbatim>\<open>max_queue\<close> tasks may wait for a moment.\<close>

lemma bulkhead_waits_with_free_slot:
  "\<exists>b. bh_reach 2 1 (b, [], 0) \<and> sem_value (ql_semaphore (bh_limiter b)) = 1
     \<and> bh_waiting_tasks b = [Woken 3 False, Pending 4, Pending 5]"
proof -
  let ?enter = "\<lambda>t b. snd (Bulkhead_enter t b)"
  let ?b3 = "?enter 3 (?enter 2 (?enter 1 (Bulkhead_init ''db'' 2 1)))"
  let ?b5 = "Bulkhead_exit (Bulkhead_exit ?b3)"
  note eval = bh_defs sem_defs
  have "bh_reach 2 1 (?enter 2 (?enter 1 (Bulkhead_init ''db'' 2 1)), [2, 1], 0)"
    by (rule bh_next[OF bh_next[OF bh_start[of _ _ "''db''"]]], rule bh_entered[of 1], simp add: eval,
        rule bh_entered) (simp add: eval)
  then have "bh_reach 2 1 (?b3, [2, 1], 0)"
    by (rule bh_next) (rule bh_waiting[of 3], simp add: eval)
  from bh_next[OF bh_next[OF this bh_exit[of 2]] bh_exit[of 1]] have "bh_reach 2 1 (?b5, [], 0)" by simp
  then have "bh_reach 2 1 (?enter 5 (?enter 4 ?b5), [], 0)"
    by (rule bh_next[OF bh_next]) (rule bh_waiting[of 4], simp add: eval, rule bh_waiting[of 5], simp add: eval)
  moreover have "sem_value (ql_semaphore (bh_limiter (?enter 5 (?enter 4 ?b5)))) = 1"
      "bh_waiting_tasks (?enter 5 (?enter 4 ?b5)) = [Woken 3 False, Pending 4, Pending 5]"
    by (simp_all add: eval)
  ultimately show ?thesis by blast
qed

text \<open>Backpressure through \<^verbatim>\<open>async with policy\<close>: in every reachable state the reported in-flight
  number is the number of tasks inside and at most the limit, nobody ever waits, and an entry is
  refused exactly when the limit is reached.\<close>

theorem backpressure_in_flight:
  assumes "bp_reach n (p, run)"
  shows "bp_in_flight p = int (length run) \<and> int (length run) \<le> n
    \<and> fst (BackpressurePolicy_aenter t p) =
        (if int (length run) = n then Refused (BackpressureError_init n n) else Entered)"
  using bp_inv_reach[OF assms] by (auto simp: bp_inv_def bp_defs sem_defs split: if_splits)

theorem backpressure_in_flight_witness:
  "\<exists>p. bp_reach 1 (p, [7]) \<and> fst (BackpressurePolicy_aenter 8 p) = Refused (BackpressureError_init 1 1)"
proof -
  let ?p = "\<lparr>bp_max = 1, bp_semaphore = \<lparr>sem_value = 0, sem_waiters = []\<rparr>\<rparr>"
  have "bp_reach 1 (\<lparr>bp_max = 1, bp_semaphore = Semaphore_init 1\<rparr>, [])"
    by (rule bp_start) (simp add: bp_defs)
  then have "bp_reach 1 (?p, [7])"
    by (rule bp_next) (rule bp_entered, simp add: bp_defs sem_defs)
  with backpressure_in_flight[OF this, of 8] show ?thesis by auto
qed

text \<open>The context manager \<^verbatim>\<open>acquire()\<close> never reaches its body: waiting with a zero timeout fails
  before the semaphore is touched, so with free slots the caller gets \<^verbatim>\<open>TimeoutError\<close>, with none
  \<^verbatim>\<open>BackpressureError\<close>, and the policy is left unchanged.\<close>

theorem backpressure_acquire_never_enters:
  "BackpressurePolicy_acquire t body p =
     (Inl (if sem_locked (bp_semaphore p) then BackpressureError_init (bp_in_flight p) (bp_max p)
           else plain_exn BuiltinTimeoutError []), p)"
  by (simp add: BackpressurePolicy_acquire_def wait_for_zero_def sem_locked_def)

end
