(* ===== verification/Fallbacks.thy ===== *)
theory Fallbacks
  imports Errors
begin

text \<open>
  The remaining resilience policies: fallbacks (\<^verbatim>\<open>resilience/fallback/policy.py\<close>), hedged requests
  (\<^verbatim>\<open>resilience/hedge/policy.py\<close>), graceful shutdown (\<^verbatim>\<open>resilience/graceful_shutdown.py\<close>) and the replay of
  dead letters (\<^verbatim>\<open>resilience/dead_letter_scheduler.py\<close>). In which order the hedged tasks finish, and how
  a hook behaves under a timeout, is decided by the event loop and is an argument.
\<close>

subsection \<open>Fallbacks\<close>

datatype ('w, 'a) fallback = FallbackCall "('w, 'a) act" | FallbackConst 'a

fun run_fallback :: "('w, 'a) fallback \<Rightarrow> ('w, 'a) act" where
  "run_fallback (FallbackCall f) w = f w"
| "run_fallback (FallbackConst x) w = (Inr x, w)"

definition FallbackPolicy_execute ::
  "('w, 'a) fallback \<Rightarrow> exc_class list \<Rightarrow> ('w, 'a) act \<Rightarrow> ('w, 'a) act" where
  "FallbackPolicy_execute fb on_exceptions fn w =
     (case fn w of
        (Inr x, w') \<Rightarrow> (Inr x, w')
      | (Inl e, w') \<Rightarrow> if isinstance e on_exceptions then run_fallback fb w' else (Inl e, w'))"

text \<open>\<^verbatim>\<open>CachedFallbackPolicy\<close> keeps the last result (\<^verbatim>\<open>_MISSING\<close> is \<open>None\<close>).\<close>

definition CachedFallbackPolicy_execute ::
  "('w, 'a) fallback \<Rightarrow> exc_class list \<Rightarrow> ('w, 'a) act \<Rightarrow> 'a option \<Rightarrow> 'w
    \<Rightarrow> (exn + 'a) \<times> 'a option \<times> 'w" where
  "CachedFallbackPolicy_execute fb on_exceptions fn last_success w =
     (case fn w of
        (Inr x, w') \<Rightarrow> (Inr x, Some x, w')
      | (Inl e, w') \<Rightarrow>
          if isinstance e on_exceptions then
            (case last_success of
               Some x \<Rightarrow> (Inr x, last_success, w')
             | None \<Rightarrow> (case run_fallback fb w' of (r, w'') \<Rightarrow> (r, last_success, w'')))
          else (Inl e, last_success, w'))"

definition cached_value :: "'a option \<Rightarrow> exn + 'a" where
  "cached_value last_success =
     (case last_success of None \<Rightarrow> Inl (plain_exn ValueError ''No cached value available'')
      | Some x \<Rightarrow> Inr x)"

lemma cached_fallback_serves_last:
  assumes "CachedFallbackPolicy_execute fb cs f None w = (Inr x, c, w1)" and "f w = (Inr x, w1)"
    and "g w1 = (Inl e, w2)" and "isinstance e cs"
  shows "CachedFallbackPolicy_execute fb cs g c w1 = (Inr x, Some x, w2)"
  using assms by (auto simp: CachedFallbackPolicy_execute_def)

lemma fallback_never_raises:
  assumes "\<And>v. run_fallback fb v = (Inr y, v)" and "\<And>e w'. fn w = (Inl e, w') \<Longrightarrow> isinstance e cs"
  shows "\<not> isl (fst (FallbackPolicy_execute fb cs fn w))"
  using assms by (auto simp: FallbackPolicy_execute_def split: prod.splits sum.splits)

subsection \<open>Hedged requests\<close>

record 'a HedgeResult =
  hr_value :: 'a
  hr_winner_index :: nat

text \<open>The consumer of the queue: \<open>arrivals\<close> are the outcomes in the order they are put, one per task.
  The first success wins; without any, the first error is raised.\<close>

fun hedge_collect :: "(nat \<times> (exn + 'a)) list \<Rightarrow> exn list \<Rightarrow> exn + 'a HedgeResult" where
  "hedge_collect [] errors =
     (case errors of [] \<Rightarrow> Inl (plain_exn LookupError ''list index out of range'') | e # _ \<Rightarrow> Inl e)"
| "hedge_collect ((i, Inr x) # rest) errors = Inr \<lparr>hr_value = x, hr_winner_index = i\<rparr>"
| "hedge_collect ((i, Inl e) # rest) errors = hedge_collect rest (errors @ [e])"

definition HedgePolicy_execute :: "(nat \<times> (exn + 'a)) list \<Rightarrow> exn + 'a HedgeResult" where
  "HedgePolicy_execute arrivals = hedge_collect arrivals []"

definition successes :: "(nat \<times> (exn + 'a)) list \<Rightarrow> (nat \<times> 'a) list" where
  "successes arrivals =
     concat (map (\<lambda>(i, r). case r of Inl _ \<Rightarrow> [] | Inr x \<Rightarrow> [(i, x)]) arrivals)"

definition failures_of :: "(nat \<times> (exn + 'a)) list \<Rightarrow> exn list" where
  "failures_of arrivals =
     concat (map (\<lambda>(i, r). case r of Inl e \<Rightarrow> [e] | Inr _ \<Rightarrow> []) arrivals)"

lemma arrivals_simps [simp]:
  "successes [] = []" "failures_of [] = []"
  "successes ((i, Inr x) # as) = (i, x) # successes as"
  "successes ((i, Inl e) # as) = successes as"
  "failures_of ((i, Inr x) # as) = failures_of as"
  "failures_of ((i, Inl e) # as) = e # failures_of as"
  by (simp_all add: successes_def failures_of_def)

lemma hedge_collect_success:
  "successes arrivals = (i, x) # rest \<Longrightarrow>
   hedge_collect arrivals errors = Inr \<lparr>hr_value = x, hr_winner_index = i\<rparr>"
  by (induction arrivals errors rule: hedge_collect.induct) auto

lemma hedge_collect_failure:
  "successes arrivals = [] \<Longrightarrow> errors @ failures_of arrivals = e # rest \<Longrightarrow>
   hedge_collect arrivals errors = Inl e"
  by (induction arrivals errors rule: hedge_collect.induct) auto

lemma hedge_first_success:
  "HedgePolicy_execute arrivals =
     (case successes arrivals of
        (i, x) # _ \<Rightarrow> Inr \<lparr>hr_value = x, hr_winner_index = i\<rparr>
      | [] \<Rightarrow> (case failures_of arrivals of
                 [] \<Rightarrow> Inl (plain_exn LookupError ''list index out of range'') | e # _ \<Rightarrow> Inl e))"
proof (cases arrivals)
  case Nil
  then show ?thesis by (simp add: HedgePolicy_execute_def)
next
  case (Cons a as)
  then have "successes arrivals = [] \<Longrightarrow> failures_of arrivals \<noteq> []"
    by (cases a; cases "snd a") auto
  then show ?thesis
    by (auto simp: HedgePolicy_execute_def hedge_collect_success hedge_collect_failure
        split: list.splits)
qed

subsection \<open>Graceful shutdown\<close>

text \<open>A hook is its name and what running it does within the remaining time budget (a coroutine is
  run under \<^verbatim>\<open>asyncio.wait_for\<close>, a plain function ignores the budget).\<close>

type_synonym 'w hook = "string \<times> (rat \<Rightarrow> ('w, unit) act)"

record 'w GracefulShutdown =
  gs_drain_timeout :: rat
  gs_hooks :: "'w hook list"
  gs_event :: bool
  gs_triggered_by :: "string option"

definition GracefulShutdown_init :: "rat \<Rightarrow> 'w GracefulShutdown" where
  "GracefulShutdown_init timeout =
     \<lparr>gs_drain_timeout = timeout, gs_hooks = [], gs_event = False, gs_triggered_by = None\<rparr>"

definition GracefulShutdown_register :: "'w hook \<Rightarrow> 'w GracefulShutdown \<Rightarrow> 'w GracefulShutdown" where
  "GracefulShutdown_register h g = g\<lparr>gs_hooks := gs_hooks g @ [h]\<rparr>"

definition GracefulShutdown_handle_signal :: "string \<Rightarrow> 'w GracefulShutdown \<Rightarrow> 'w GracefulShutdown" where
  "GracefulShutdown_handle_signal sig g =
     (if gs_event g then g else g\<lparr>gs_triggered_by := Some sig, gs_event := True\<rparr>)"

definition GracefulShutdown_trigger :: "'w GracefulShutdown \<Rightarrow> 'w GracefulShutdown" where
  "GracefulShutdown_trigger g = (if gs_event g then g else g\<lparr>gs_event := True\<rparr>)"

text \<open>The loop of \<^verbatim>\<open>run_hooks\<close>; the first component names the hooks that were called. Exceptions are
  logged and dropped; those outside \<^verbatim>\<open>Exception\<close> propagate.\<close>

fun run_hooks_loop ::
  "('w \<Rightarrow> rat) \<Rightarrow> rat \<Rightarrow> 'w hook list \<Rightarrow> 'w \<Rightarrow> string list \<times> (exn + unit) \<times> 'w" where
  "run_hooks_loop clock deadline [] w = ([], Inr (), w)"
| "run_hooks_loop clock deadline ((name, hook) # hooks) w =
     (let remaining = deadline - clock w
      in if remaining \<le> 0 then ([], Inr (), w)
         else (case hook remaining w of
                 (Inl e, w') \<Rightarrow>
                   if catchable e
                   then (case run_hooks_loop clock deadline hooks w' of (ns, r, w'') \<Rightarrow> (name # ns, r, w''))
                   else ([name], Inl e, w')
               | (Inr _, w') \<Rightarrow>
                   (case run_hooks_loop clock deadline hooks w' of (ns, r, w'') \<Rightarrow> (name # ns, r, w''))))"

definition GracefulShutdown_run_hooks ::
  "('w \<Rightarrow> rat) \<Rightarrow> 'w GracefulShutdown \<Rightarrow> 'w \<Rightarrow> string list \<times> (exn + unit) \<times> 'w" where
  "GracefulShutdown_run_hooks clock g w =
     (let hooks = rev (gs_hooks g)
      in if hooks = [] then ([], Inr (), w)
         else run_hooks_loop clock (clock w + gs_drain_timeout g) hooks w)"

lemma run_hooks_prefix:
  "\<exists>rest. map fst hooks = fst (run_hooks_loop clock deadline hooks w) @ rest"
proof (induction clock deadline hooks w rule: run_hooks_loop.induct)
  case (2 clock deadline name hook hooks w)
  show ?case
  proof (cases "deadline - clock w \<le> 0")
    case True
    then show ?thesis by simp
  next
    case False
    obtain r w' where h: "hook (deadline - clock w) w = (r, w')" by force
    show ?thesis using False h 2
      by (cases r) (auto simp: Let_def split_def)
  qed
qed simp

text \<open>With time left after every hook, and hooks raising at most ordinary exceptions, all are called.\<close>

lemma run_hooks_all:
  assumes "\<And>v. clock v < deadline"
    and "\<And>n h q v e v'. (n, h) \<in> set hooks \<Longrightarrow> h q v = (Inl e, v') \<Longrightarrow> catchable e"
  shows "fst (run_hooks_loop clock deadline hooks w) = map fst hooks
    \<and> fst (snd (run_hooks_loop clock deadline hooks w)) = Inr ()"
  using assms(2)
proof (induction hooks arbitrary: w)
  case (Cons h hooks)
  obtain name hook where h: "h = (name, hook)" by force
  obtain r w' where r: "hook (deadline - clock w) w = (r, w')" by force
  have IH: "fst (run_hooks_loop clock deadline hooks w') = map fst hooks
      \<and> fst (snd (run_hooks_loop clock deadline hooks w')) = Inr ()"
    by (rule Cons.IH) (meson Cons.prems list.set_intros(2))
  have c: "catchable e" if "r = Inl e" for e 
    using Cons.prems[of name hook "deadline - clock w" w e w'] r h that by simp
  have "\<not> deadline - clock w \<le> 0" using assms(1)[of w] by simp
  then show ?case using IH h r c by (cases r) (auto simp: Let_def split_def)
qed simp

subsection \<open>Dead letters\<close>

record DeadLetterEntry =
  de_id :: string
  de_message_id :: string
  de_topic :: string
  de_reason :: string
  de_retry_count :: nat
  de_replayed :: bool

record DeadLetterReplayScheduler =
  ds_interval :: rat
  ds_max_retries :: int
  ds_backoff_base :: rat
  ds_max_backoff :: rat
  ds_batch_size :: nat
  ds_running :: bool

text \<open>The messages of the two \<^verbatim>\<open>ValueError\<close>s end with the offending number, which is left out.\<close>

definition DeadLetterReplayScheduler_init ::
  "rat \<Rightarrow> int \<Rightarrow> rat \<Rightarrow> rat \<Rightarrow> nat \<Rightarrow> exn + DeadLetterReplayScheduler" where
  "DeadLetterReplayScheduler_init interval max_retries base max_backoff batch =
     (if interval \<le> 0 then Inl (plain_exn ValueError ''interval_seconds must be positive'')
      else if max_retries < 0 then Inl (plain_exn ValueError ''max_retries must be non-negative'')
      else Inr \<lparr>ds_interval = interval, ds_max_retries = max_retries, ds_backoff_base = base,
                ds_max_backoff = max_backoff, ds_batch_size = batch, ds_running = False\<rparr>)"

text \<open>\<^verbatim>\<open>start\<close> answers whether a background task is created, \<^verbatim>\<open>stop\<close> cancels it.\<close>

definition DeadLetterReplayScheduler_start ::
  "DeadLetterReplayScheduler \<Rightarrow> bool \<times> DeadLetterReplayScheduler" where
  "DeadLetterReplayScheduler_start s = (if ds_running s then (False, s) else (True, s\<lparr>ds_running := True\<rparr>))"

definition DeadLetterReplayScheduler_stop :: "DeadLetterReplayScheduler \<Rightarrow> DeadLetterReplayScheduler" where
  "DeadLetterReplayScheduler_stop s = s\<lparr>ds_running := False\<rparr>"

text \<open>One cycle. \<open>store_list\<close> and \<open>store_replay\<close> are the store's operations, \<open>sleep\<close> waits. A failing replay
  is logged and skipped; a cancellation, also one that arrives while the cycle sleeps, propagates.\<close>

definition wants_replay :: "DeadLetterReplayScheduler \<Rightarrow> DeadLetterEntry \<Rightarrow> bool" where
  "wants_replay s e \<longleftrightarrow> \<not> de_replayed e \<and> int (de_retry_count e) < ds_max_retries s"

definition entry_backoff :: "DeadLetterReplayScheduler \<Rightarrow> DeadLetterEntry \<Rightarrow> rat" where
  "entry_backoff s e = min (ds_backoff_base s ^ de_retry_count e) (ds_max_backoff s)"

text \<open>\<^verbatim>\<open>except asyncio.CancelledError: raise\<close> before \<^verbatim>\<open>except Exception\<close>.\<close>

definition ends_cycle :: "exn \<Rightarrow> bool" where
  "ends_cycle ex \<longleftrightarrow> isinstance ex [CancelledError] \<or> \<not> catchable ex"

fun replay_entries ::
  "DeadLetterReplayScheduler \<Rightarrow> (string \<Rightarrow> ('w, unit) act) \<Rightarrow> (rat \<Rightarrow> ('w, unit) act) \<Rightarrow> DeadLetterEntry list
    \<Rightarrow> nat \<Rightarrow> ('w, nat) act" where
  "replay_entries s store_replay sleep [] replayed w = (Inr replayed, w)"
| "replay_entries s store_replay sleep (e # es) replayed w =
     (if de_replayed e then replay_entries s store_replay sleep es replayed w
      else if ds_max_retries s \<le> int (de_retry_count e) then replay_entries s store_replay sleep es replayed w
      else let backoff = entry_backoff s e
           in case (if 0 < backoff then sleep backoff w else (Inr (), w)) of
                (Inl ex, w1) \<Rightarrow> (Inl ex, w1)
              | (Inr _, w1) \<Rightarrow>
                  (case store_replay (de_id e) w1 of
                     (Inr _, w2) \<Rightarrow> replay_entries s store_replay sleep es (replayed + 1) w2
                   | (Inl ex, w2) \<Rightarrow>
                       if ends_cycle ex then (Inl ex, w2) else replay_entries s store_replay sleep es replayed w2))"

definition replay_batch ::
  "DeadLetterReplayScheduler \<Rightarrow> (nat \<Rightarrow> ('w, DeadLetterEntry list) act) \<Rightarrow> (string \<Rightarrow> ('w, unit) act)
    \<Rightarrow> (rat \<Rightarrow> ('w, unit) act) \<Rightarrow> ('w, nat) act" where
  "replay_batch s store_list store_replay sleep w =
     (case store_list (ds_batch_size s) w of
        (Inl e, w') \<Rightarrow> (Inl e, w')
      | (Inr es, w') \<Rightarrow> replay_entries s store_replay sleep es 0 w')"

subsection \<open>The calls of a cycle\<close>

text \<open>Any store and any clock, observed: every sleep and every replay with its outcome is noted in order.\<close>

datatype dl_call = Slept rat | Replayed string "exn + unit"

type_synonym 'w observed = "dl_call list \<times> 'w"

definition observed_sleep :: "(rat \<Rightarrow> ('w, unit) act) \<Rightarrow> rat \<Rightarrow> ('w observed, unit) act" where
  "observed_sleep sleep d ow = (case sleep d (snd ow) of (r, w) \<Rightarrow> (r, fst ow @ [Slept d], w))"

definition observed_replay :: "(string \<Rightarrow> ('w, unit) act) \<Rightarrow> string \<Rightarrow> ('w observed, unit) act" where
  "observed_replay replay i ow = (case replay i (snd ow) of (r, w) \<Rightarrow> (r, fst ow @ [Replayed i r], w))"

definition observed_list :: "(nat \<Rightarrow> ('w, 'a) act) \<Rightarrow> nat \<Rightarrow> ('w observed, 'a) act" where
  "observed_list store_list n ow = (case store_list n (snd ow) of (r, w) \<Rightarrow> (r, fst ow, w))"

definition waits_of :: "DeadLetterReplayScheduler \<Rightarrow> DeadLetterEntry \<Rightarrow> dl_call list" where
  "waits_of s e = (if 0 < entry_backoff s e then [Slept (entry_backoff s e)] else [])"

definition calls_of :: "DeadLetterReplayScheduler \<Rightarrow> (DeadLetterEntry \<times> (exn + unit)) list \<Rightarrow> dl_call list" where
  "calls_of s xs = concat (map (\<lambda>(e, r). waits_of s e @ [Replayed (de_id e) r]) xs)"

definition recovered :: "exn + unit \<Rightarrow> bool" where
  "recovered r = (case r of Inl ex \<Rightarrow> \<not> ends_cycle ex | Inr _ \<Rightarrow> True)"

definition successful :: "(DeadLetterEntry \<times> (exn + unit)) list \<Rightarrow> nat" where
  "successful xs = length (filter (\<lambda>x. snd x = Inr ()) xs)"

text \<open>What a finished and what an interrupted cycle over the entries \<open>es\<close> has done, after \<open>pre\<close> and \<open>n\<close> replays.\<close>

definition finished_cycle ::
  "DeadLetterReplayScheduler \<Rightarrow> DeadLetterEntry list \<Rightarrow> dl_call list \<Rightarrow> nat \<Rightarrow> nat \<Rightarrow> dl_call list \<Rightarrow> bool" where
  "finished_cycle s es pre n m calls \<longleftrightarrow>
     (\<exists>xs. map fst xs = filter (wants_replay s) es \<and> list_all (recovered \<circ> snd) xs
        \<and> m = n + successful xs \<and> calls = pre @ calls_of s xs)"

definition interrupted_cycle ::
  "DeadLetterReplayScheduler \<Rightarrow> DeadLetterEntry list \<Rightarrow> dl_call list \<Rightarrow> exn \<Rightarrow> dl_call list \<Rightarrow> bool" where
  "interrupted_cycle s es pre ex calls \<longleftrightarrow>
     (\<exists>xs e rest. map fst xs @ e # rest = filter (wants_replay s) es \<and> list_all (recovered \<circ> snd) xs
        \<and> (calls = pre @ calls_of s xs @ waits_of s e \<and> waits_of s e \<noteq> []
           \<or> calls = pre @ calls_of s xs @ waits_of s e @ [Replayed (de_id e) (Inl ex)] \<and> ends_cycle ex))"

lemma finished_cycle_Nil: "finished_cycle s [] pre n n pre"
  by (auto simp: finished_cycle_def calls_of_def successful_def)

lemma cycle_Cons:
  assumes "wants_replay s e" "recovered r"
  shows "finished_cycle s es (pre @ waits_of s e @ [Replayed (de_id e) r]) (n + of_bool (r = Inr ())) m calls \<Longrightarrow>
      finished_cycle s (e # es) pre n m calls"
    and "interrupted_cycle s es (pre @ waits_of s e @ [Replayed (de_id e) r]) ex calls \<Longrightarrow> interrupted_cycle s (e # es) pre ex calls"
proof -
  assume "finished_cycle s es (pre @ waits_of s e @ [Replayed (de_id e) r]) (n + of_bool (r = Inr ())) m calls"
  then obtain xs where "map fst xs = filter (wants_replay s) es" "list_all (recovered \<circ> snd) xs"
    "m = n + of_bool (r = Inr ()) + successful xs" "calls = pre @ waits_of s e @ [Replayed (de_id e) r] @ calls_of s xs"
    by (auto simp: finished_cycle_def)
  then show "finished_cycle s (e # es) pre n m calls"
    unfolding finished_cycle_def using assms
    by (intro exI[of _ "(e, r) # xs"]) (simp add: calls_of_def successful_def)
next
  assume "interrupted_cycle s es (pre @ waits_of s e @ [Replayed (de_id e) r]) ex calls"
  then obtain xs f rest where "map fst xs @ f # rest = filter (wants_replay s) es" "list_all (recovered \<circ> snd) xs"
    "calls = pre @ calls_of s ((e, r) # xs) @ waits_of s f \<and> waits_of s f \<noteq> []
     \<or> calls = pre @ calls_of s ((e, r) # xs) @ waits_of s f @ [Replayed (de_id f) (Inl ex)] \<and> ends_cycle ex"
    by (auto simp: interrupted_cycle_def calls_of_def)
  then show "interrupted_cycle s (e # es) pre ex calls"
    unfolding interrupted_cycle_def using assms
    by (intro exI[of _ "(e, r) # xs"] exI[of _ f] exI[of _ rest]) simp
qed

lemma cycle_skip:
  assumes "\<not> wants_replay s e"
  shows "finished_cycle s (e # es) = finished_cycle s es" "interrupted_cycle s (e # es) = interrupted_cycle s es"
  using assms by (auto simp: finished_cycle_def interrupted_cycle_def fun_eq_iff)

lemma cycle_here:
  assumes "wants_replay s e"
  shows "waits_of s e \<noteq> [] \<Longrightarrow> interrupted_cycle s (e # es) pre ex (pre @ waits_of s e)"
    and "ends_cycle ex \<Longrightarrow> interrupted_cycle s (e # es) pre ex (pre @ waits_of s e @ [Replayed (de_id e) (Inl ex)])"
  using assms unfolding interrupted_cycle_def
  by (intro exI[of _ "[]"] exI[of _ e] exI[of _ "filter (wants_replay s) es"], simp add: calls_of_def)+

lemma observed_wait:
  assumes "(if 0 < entry_backoff s e then observed_sleep sleep (entry_backoff s e) (pre, w) else (Inr (), pre, w)) = (r, calls, v)"
  shows "calls = pre @ waits_of s e \<and> (isl r \<longrightarrow> waits_of s e \<noteq> [])"
  using assms by (auto simp: observed_sleep_def waits_of_def split: if_splits prod.splits)

lemma replay_entries_observed:
  assumes "replay_entries s (observed_replay replay) (observed_sleep sleep) es n (pre, w) = (r, calls, w')"
  shows "case r of Inr m \<Rightarrow> finished_cycle s es pre n m calls | Inl ex \<Rightarrow> interrupted_cycle s es pre ex calls"
  using assms
proof (induction es arbitrary: n pre w)
  case Nil
  then show ?case by (auto simp: finished_cycle_Nil)
next
  case (Cons e es)
  show ?case
  proof (cases "wants_replay s e")
    case False
    then have "replay_entries s (observed_replay replay) (observed_sleep sleep) es n (pre, w) = (r, calls, w')"
      using Cons.prems by (auto simp: wants_replay_def split: if_splits)
    from Cons.IH[OF this] show ?thesis unfolding cycle_skip[OF False] .
  next
    case wants: True
    obtain q mid v where wait: "(if 0 < entry_backoff s e then observed_sleep sleep (entry_backoff s e) (pre, w) else (Inr (), pre, w)) = (q, mid, v)"
      by (metis prod_cases3)
    note mid = observed_wait[OF wait]
    have unfolded: "(case q of Inl ex \<Rightarrow> (Inl ex, mid, v)
        | Inr _ \<Rightarrow> (case observed_replay replay (de_id e) (mid, v) of
            (Inr _, o2) \<Rightarrow> replay_entries s (observed_replay replay) (observed_sleep sleep) es (n + 1) o2
          | (Inl ex, o2) \<Rightarrow> if ends_cycle ex then (Inl ex, o2)
              else replay_entries s (observed_replay replay) (observed_sleep sleep) es n o2)) = (r, calls, w')"
      using Cons.prems wants wait by (cases q) (simp_all add: wants_replay_def Let_def)
    show ?thesis
    proof (cases q)
      case (Inl ex)
      then show ?thesis using unfolded mid cycle_here(1)[OF wants] by auto
    next
      case (Inr u)
      obtain z v2 where z: "replay (de_id e) v = (z, v2)" by fastforce
      have after: "observed_replay replay (de_id e) (mid, v) = (z, pre @ waits_of s e @ [Replayed (de_id e) z], v2)"
        using mid z by (simp add: observed_replay_def)
      show ?thesis
      proof (cases z)
        case (Inl ex)
        then show ?thesis
          using unfolded after \<open>q = Inr u\<close> cycle_here(2)[OF wants] Cons.IH[of n "pre @ waits_of s e @ [Replayed (de_id e) z]" v2]
            cycle_Cons[OF wants, of z] by (auto simp: recovered_def split: sum.splits if_splits)
      next
        case z_ok: (Inr y)
        then show ?thesis
          using unfolded after \<open>q = Inr u\<close> Cons.IH[of "n + 1" "pre @ waits_of s e @ [Replayed (de_id e) z]" v2]
            cycle_Cons[OF wants, of z] by (auto simp: recovered_def split: sum.splits)
      qed
    qed
  qed
qed

subsection \<open>Properties\<close>

text \<open>C8. A replay cycle over any store. When it returns, it has replayed, in the store's order, exactly the listed entries that were
  not replayed yet and have retries left, each after its own backoff; replays that failed were skipped, and the number returned
  is that of the replays that succeeded. When it raises, it has done the same for some of the first of these entries and was stopped
  at the next one, by its sleep or by a replay that was cancelled.\<close>

theorem dead_letter_cycle:
  assumes "store_list (ds_batch_size s) w = (Inr es, w1)"
    and "replay_batch s (observed_list store_list) (observed_replay replay) (observed_sleep sleep) ([], w) = (r, calls, w2)"
  shows "case r of
      Inr m \<Rightarrow> (\<exists>xs. map fst xs = filter (wants_replay s) es \<and> list_all (recovered \<circ> snd) xs
                  \<and> m = length (filter (\<lambda>x. snd x = Inr ()) xs) \<and> calls = calls_of s xs)
    | Inl ex \<Rightarrow> (\<exists>xs e rest. map fst xs @ e # rest = filter (wants_replay s) es \<and> list_all (recovered \<circ> snd) xs
                  \<and> (calls = calls_of s xs @ waits_of s e \<and> waits_of s e \<noteq> []
                     \<or> calls = calls_of s xs @ waits_of s e @ [Replayed (de_id e) (Inl ex)] \<and> ends_cycle ex))"
  using replay_entries_observed[of s replay sleep es 0 "[]" w1 r calls w2] assms
  by (auto simp: replay_batch_def observed_list_def finished_cycle_def interrupted_cycle_def successful_def split: sum.splits)

definition demo_scheduler :: DeadLetterReplayScheduler where
  "demo_scheduler = \<lparr>ds_interval = 60, ds_max_retries = 3, ds_backoff_base = 2, ds_max_backoff = 10, ds_batch_size = 3, ds_running = False\<rparr>"

definition demo_entry :: "string \<Rightarrow> nat \<Rightarrow> DeadLetterEntry" where
  "demo_entry i n = \<lparr>de_id = i, de_message_id = [], de_topic = [], de_reason = [], de_retry_count = n, de_replayed = False\<rparr>"

theorem dead_letter_cycle_witness:
  "\<exists>calls w. replay_batch demo_scheduler (observed_list (\<lambda>n w. (Inr [demo_entry ''a'' 3, demo_entry ''b'' 1, demo_entry ''c'' 0], w)))
      (observed_replay (\<lambda>i w. (if i = ''b'' then Inl (plain_exn ValueError ''gone'') else Inr (), w)))
      (observed_sleep (\<lambda>d t. (Inr (), t + d))) ([], 0 :: rat) = (Inr 1, calls, w)
    \<and> (\<exists>xs. map fst xs = [demo_entry ''b'' 1, demo_entry ''c'' 0] \<and> calls = calls_of demo_scheduler xs)"
proof -
  let ?list = "\<lambda>(n :: nat) (w :: rat). (Inr [demo_entry ''a'' 3, demo_entry ''b'' 1, demo_entry ''c'' 0], w)"
  let ?replay = "\<lambda>i (w :: rat). (if i = ''b'' then Inl (plain_exn ValueError ''gone'') else Inr (), w)"
  let ?sleep = "\<lambda>d (t :: rat). (Inr (), t + d)"
  have "\<not> ends_cycle (plain_exn ValueError ''gone'')" by code_simp
  then have "\<exists>calls w. replay_batch demo_scheduler (observed_list ?list) (observed_replay ?replay) (observed_sleep ?sleep) ([], 0)
      = (Inr 1, calls, w)"
    by (simp add: replay_batch_def observed_list_def observed_replay_def observed_sleep_def demo_scheduler_def demo_entry_def
        entry_backoff_def Let_def)
  then obtain calls w where run: "replay_batch demo_scheduler (observed_list ?list) (observed_replay ?replay) (observed_sleep ?sleep) ([], 0)
      = (Inr 1, calls, w)" by blast
  have wanted: "filter (wants_replay demo_scheduler) [demo_entry ''a'' 3, demo_entry ''b'' 1, demo_entry ''c'' 0]
      = [demo_entry ''b'' 1, demo_entry ''c'' 0]"
    by (simp add: wants_replay_def demo_scheduler_def demo_entry_def)
  have "\<exists>xs. map fst xs = filter (wants_replay demo_scheduler) [demo_entry ''a'' 3, demo_entry ''b'' 1, demo_entry ''c'' 0]
      \<and> calls = calls_of demo_scheduler xs"
    using dead_letter_cycle[where store_list = ?list and w = 0, OF refl run] by (simp only: sum.case) blast
  then show ?thesis unfolding wanted by (intro exI[of _ calls] exI[of _ w] conjI run)
qed

text \<open>Shutdown hooks run in the reverse of their registration order, and whatever fails or is
  skipped, the hooks called are the last registered ones; with time left throughout and hooks
  raising only ordinary exceptions, every hook is called exactly once and the failure of one does
  not reach the caller.\<close>

theorem shutdown_hooks_lifo:
  "(\<exists>skipped. map fst (gs_hooks g) = skipped @ rev (fst (GracefulShutdown_run_hooks clock g w)))
   \<and> ((\<forall>v. clock v < clock w + gs_drain_timeout g)
       \<and> (\<forall>(n, h) \<in> set (gs_hooks g). \<forall>q v e v'. h q v = (Inl e, v') \<longrightarrow> catchable e)
      \<longrightarrow> fst (GracefulShutdown_run_hooks clock g w) = rev (map fst (gs_hooks g))
          \<and> fst (snd (GracefulShutdown_run_hooks clock g w)) = Inr ())"
proof (intro conjI impI)
  obtain rest where "map fst (rev (gs_hooks g)) =
      fst (run_hooks_loop clock (clock w + gs_drain_timeout g) (rev (gs_hooks g)) w) @ rest"
    using run_hooks_prefix[of "rev (gs_hooks g)" clock "clock w + gs_drain_timeout g" w] by blast
  then have "map fst (gs_hooks g) =
      rev (fst (run_hooks_loop clock (clock w + gs_drain_timeout g) (rev (gs_hooks g)) w) @ rest)"
    by (metis rev_map rev_rev_ident)
  then show "\<exists>skipped. map fst (gs_hooks g) = skipped @ rev (fst (GracefulShutdown_run_hooks clock g w))"
    by (cases "gs_hooks g = []") (auto simp: GracefulShutdown_run_hooks_def Let_def)
next
  assume *: "(\<forall>v. clock v < clock w + gs_drain_timeout g)
       \<and> (\<forall>(n, h) \<in> set (gs_hooks g). \<forall>q v e v'. h q v = (Inl e, v') \<longrightarrow> catchable e)"
  have "fst (run_hooks_loop clock (clock w + gs_drain_timeout g) (rev (gs_hooks g)) w) = map fst (rev (gs_hooks g))
    \<and> fst (snd (run_hooks_loop clock (clock w + gs_drain_timeout g) (rev (gs_hooks g)) w)) = Inr ()"
    by (rule run_hooks_all) (use * in \<open>simp, fastforce\<close>)
  then show "fst (GracefulShutdown_run_hooks clock g w) = rev (map fst (gs_hooks g))"
    "fst (snd (GracefulShutdown_run_hooks clock g w)) = Inr ()"
    by (auto simp: GracefulShutdown_run_hooks_def Let_def rev_map)
qed

theorem shutdown_hooks_lifo_witness:
  "fst (GracefulShutdown_run_hooks (\<lambda>_. 0)
      (GracefulShutdown_register (''db'', \<lambda>q w. (Inl (plain_exn ValueError ''x''), w))
        (GracefulShutdown_register (''http'', \<lambda>q w. (Inr (), w)) (GracefulShutdown_init 30))) (0::nat))
    = [''db'', ''http'']"
  using shutdown_hooks_lifo[of "GracefulShutdown_register (''db'', \<lambda>q w. (Inl (plain_exn ValueError ''x''), w))
        (GracefulShutdown_register (''http'', \<lambda>q w. (Inr (), w)) (GracefulShutdown_init 30))"
      "\<lambda>_. 0" "0::nat"]
  by (auto simp: GracefulShutdown_register_def GracefulShutdown_init_def catchable_def isinstance_def
      issubclass_def mro_def eval_nat_numeral)

end
