(* ===== verification/Contexts.thy ===== *)
theory Contexts
  imports Errors
begin

text \<open>
  Principals (\<^verbatim>\<open>kernel/security/principal.py\<close>) and the ambient contexts kept in context variables:
  tenant (\<^verbatim>\<open>kernel/ddd/tenant.py\<close>), principal (\<^verbatim>\<open>kernel/security/security_context.py\<close>), request
  (\<^verbatim>\<open>observability/correlation/context.py\<close>), deadline (\<^verbatim>\<open>resilience/deadline/context.py\<close>,
  \<^verbatim>\<open>resilience/timeouts\<close>). The variables of the running task are the fields of the record \<open>ambient\<close>,
  next to the rest of the world; a reset token is the previous content. The locale \<open>context_var\<close> is
  the contract of one variable; the scoping lemmas are proved in it once.
\<close>

subsection \<open>Principals\<close>

record Principal =
  pr_subject :: string
  pr_tenant_id :: "string option"
  pr_roles :: "string list"
  pr_permissions :: "string list"
  pr_claims :: "(string \<times> pyval) list"
  pr_is_service_account :: bool

definition has_role :: "Principal \<Rightarrow> string \<Rightarrow> bool" where
  "has_role p role \<longleftrightarrow> role \<in> set (pr_roles p)"

definition has_permission :: "Principal \<Rightarrow> string \<Rightarrow> bool" where
  "has_permission p permission \<longleftrightarrow> permission \<in> set (pr_permissions p)"

subsection \<open>Deadlines and requests\<close>

text \<open>\<^verbatim>\<open>expires_at\<close> is an instant in microseconds; \<^verbatim>\<open>after\<close> rounds the delay to microseconds.\<close>

record Deadline =
  dl_expires_at :: microseconds

definition Deadline_after :: "microseconds \<Rightarrow> rat \<Rightarrow> Deadline" where
  "Deadline_after now seconds = \<lparr>dl_expires_at = now + py_round (seconds * 1000000)\<rparr>"

definition remaining_seconds :: "microseconds \<Rightarrow> Deadline \<Rightarrow> rat" where
  "remaining_seconds now d = max 0 (of_int (dl_expires_at d - now) / 1000000)"

definition is_expired :: "microseconds \<Rightarrow> Deadline \<Rightarrow> bool" where
  "is_expired now d \<longleftrightarrow> dl_expires_at d \<le> now"

definition raise_if_expired :: "microseconds \<Rightarrow> Deadline \<Rightarrow> exn + unit" where
  "raise_if_expired now d =
     (if is_expired now d then Inl (base_exn AppTimeoutError ''Deadline exceeded'') else Inr ())"

record RequestContext =
  rc_correlation_id :: string
  rc_tenant_id :: "string option"
  rc_user_id :: "string option"
  rc_trace_id :: "string option"
  rc_span_id :: "string option"

definition RequestContext_new :: "string \<Rightarrow> string option \<Rightarrow> string option \<Rightarrow> RequestContext" where
  "RequestContext_new uuid tenant user =
     \<lparr>rc_correlation_id = uuid, rc_tenant_id = tenant, rc_user_id = user, rc_trace_id = None,
      rc_span_id = None\<rparr>"

subsection \<open>Ambient variables\<close>

record 'w ambient =
  amb_tenant :: "string option"
  amb_principal :: "Principal option"
  amb_request :: "RequestContext option"
  amb_deadline :: "Deadline option"
  amb_world :: 'w

text \<open>\<^verbatim>\<open>token = VAR.set(v); try: yield; finally: VAR.reset(token)\<close> around a body.\<close>

definition ctx_scoped :: "('c \<Rightarrow> 'v option) \<Rightarrow> ('v option \<Rightarrow> 'c \<Rightarrow> 'c) \<Rightarrow> 'v \<Rightarrow> ('c, 'a) act \<Rightarrow> ('c, 'a) act" where
  "ctx_scoped get put v body c =
     (let token = get c in case body (put (Some v) c) of (r, c') \<Rightarrow> (r, put token c'))"

locale context_var =
  fixes get :: "'c \<Rightarrow> 'v option"
    and put :: "'v option \<Rightarrow> 'c \<Rightarrow> 'c"
  assumes get_put: "get (put v c) = v"
    and put_put: "put v (put u c) = put v c"
    and put_get: "put (get c) c = c"
begin

lemma scoped_restores: "get (snd (ctx_scoped get put v body c)) = get c"
  by (simp add: ctx_scoped_def Let_def split_def get_put)

lemma scoped_body: "fst (ctx_scoped get put v body c) = fst (body (put (Some v) c))"
  by (simp add: ctx_scoped_def Let_def split_def)

lemma scoped_pure:
  assumes "snd (body (put (Some v) c)) = put (Some v) c"
  shows "snd (ctx_scoped get put v body c) = c"
  using assms by (simp add: ctx_scoped_def Let_def split_def put_put put_get)

lemma scoped_nested:
  "get (snd (ctx_scoped get put v (ctx_scoped get put u body) c)) = get c"
  by (rule scoped_restores)

end

text \<open>Two different variables: scoping one leaves the other alone when the body does.\<close>

locale context_vars = a: context_var get1 put1 + b: context_var get2 put2
  for get1 :: "'c \<Rightarrow> 'v option" and put1 and get2 :: "'c \<Rightarrow> 'u option" and put2 +
  assumes get2_put1: "get2 (put1 v c) = get2 c"
    and get1_put2: "get1 (put2 u c) = get1 c"
begin

lemma scoped_frame:
  assumes "\<And>c. get2 (snd (body c)) = get2 c"
  shows "get2 (snd (ctx_scoped get1 put1 v body c)) = get2 c"
  using assms by (simp add: ctx_scoped_def Let_def split_def get2_put1)

end

abbreviation put_tenant :: "string option \<Rightarrow> 'w ambient \<Rightarrow> 'w ambient" where
  "put_tenant v c \<equiv> c\<lparr>amb_tenant := v\<rparr>"

abbreviation put_principal :: "Principal option \<Rightarrow> 'w ambient \<Rightarrow> 'w ambient" where
  "put_principal v c \<equiv> c\<lparr>amb_principal := v\<rparr>"

abbreviation put_request :: "RequestContext option \<Rightarrow> 'w ambient \<Rightarrow> 'w ambient" where
  "put_request v c \<equiv> c\<lparr>amb_request := v\<rparr>"

abbreviation put_deadline :: "Deadline option \<Rightarrow> 'w ambient \<Rightarrow> 'w ambient" where
  "put_deadline v c \<equiv> c\<lparr>amb_deadline := v\<rparr>"

interpretation tenant_var: context_var amb_tenant put_tenant
  by unfold_locales simp_all

interpretation principal_var: context_var amb_principal put_principal
  by unfold_locales simp_all

interpretation request_var: context_var amb_request put_request
  by unfold_locales simp_all

interpretation deadline_var: context_var amb_deadline put_deadline
  by unfold_locales simp_all

interpretation tenant_principal: context_vars amb_tenant put_tenant amb_principal put_principal
  by unfold_locales simp_all

subsection \<open>TenantContext\<close>

definition TenantContext_set :: "string \<Rightarrow> 'w ambient \<Rightarrow> string option \<times> 'w ambient" where
  "TenantContext_set tenant c = (amb_tenant c, put_tenant (Some tenant) c)"

definition TenantContext_require :: "'w ambient \<Rightarrow> exn + string" where
  "TenantContext_require c =
     (case amb_tenant c of None \<Rightarrow> Inl (ValidationError_init ''No tenant in context'' None)
      | Some t \<Rightarrow> Inr t)"

definition TenantContext_reset :: "string option \<Rightarrow> 'w ambient \<Rightarrow> 'w ambient" where
  "TenantContext_reset token c = put_tenant token c"

definition TenantContext_clear :: "'w ambient \<Rightarrow> 'w ambient" where
  "TenantContext_clear c = put_tenant None c"

definition TenantContext_scoped :: "string \<Rightarrow> ('w ambient, 'a) act \<Rightarrow> ('w ambient, 'a) act" where
  "TenantContext_scoped tenant = ctx_scoped amb_tenant put_tenant tenant"

text \<open>\<^verbatim>\<open>TenantAware._init_tenant\<close>.\<close>

definition init_tenant :: "string option \<Rightarrow> 'w ambient \<Rightarrow> exn + string" where
  "init_tenant tenant c = (case tenant of Some t \<Rightarrow> Inr t | None \<Rightarrow> TenantContext_require c)"

subsection \<open>SecurityContext and CorrelationContext\<close>

definition SecurityContext_set_current :: "Principal \<Rightarrow> 'w ambient \<Rightarrow> Principal option \<times> 'w ambient" where
  "SecurityContext_set_current p c = (amb_principal c, put_principal (Some p) c)"

definition SecurityContext_clear :: "'w ambient \<Rightarrow> 'w ambient" where
  "SecurityContext_clear c = put_principal None c"

definition SecurityContext_require :: "'w ambient \<Rightarrow> exn + Principal" where
  "SecurityContext_require c =
     (case amb_principal c of
        None \<Rightarrow> Inl (base_exn UnauthorizedError ''No authenticated principal in context'')
      | Some p \<Rightarrow> Inr p)"

definition CorrelationContext_require :: "'w ambient \<Rightarrow> exn + RequestContext" where
  "CorrelationContext_require c =
     (case amb_request c of
        None \<Rightarrow> Inl (plain_exn RuntimeError ''No RequestContext in current context'')
      | Some r \<Rightarrow> Inr r)"

definition CorrelationContext_get_or_new :: "string \<Rightarrow> 'w ambient \<Rightarrow> RequestContext \<times> 'w ambient" where
  "CorrelationContext_get_or_new uuid c =
     (case amb_request c of
        None \<Rightarrow> (let r = RequestContext_new uuid None None in (r, put_request (Some r) c))
      | Some r \<Rightarrow> (r, c))"

text \<open>\<^verbatim>\<open>set_from_headers\<close>: names are lower-cased into a dictionary (a later header wins), empty values
  count as absent.\<close>

definition norm_headers :: "(string \<times> string) list \<Rightarrow> (string \<times> string) list" where
  "norm_headers headers = fold (\<lambda>(k, v) d. dict_set (lower k) v d) headers []"

definition parse_traceparent :: "string option \<Rightarrow> string option" where
  "parse_traceparent tp =
     (case tp of
        None \<Rightarrow> None
      | Some s \<Rightarrow>
          if s = [] then None
          else (case split_on (CHR ''-'') s of
                  _ # part # _ \<Rightarrow> if part = [] then None else Some part
                | _ \<Rightarrow> None))"

definition CorrelationContext_set_from_headers ::
  "string \<Rightarrow> (string \<times> string) list \<Rightarrow> 'w ambient \<Rightarrow> RequestContext \<times> 'w ambient" where
  "CorrelationContext_set_from_headers uuid headers c =
     (let norm = norm_headers headers;
          cid = str_or (map_of norm ''x-correlation-id'') (str_or (map_of norm ''x-request-id'') uuid);
          ctx = \<lparr>rc_correlation_id = cid, rc_tenant_id = None, rc_user_id = None,
                 rc_trace_id = parse_traceparent (map_of norm ''traceparent''), rc_span_id = None\<rparr>
      in (ctx, put_request (Some ctx) c))"

subsection \<open>DeadlineContext\<close>

definition DeadlineContext_raise_if_exceeded :: "microseconds \<Rightarrow> 'w ambient \<Rightarrow> exn + unit" where
  "DeadlineContext_raise_if_exceeded now c =
     (case amb_deadline c of
        None \<Rightarrow> Inr ()
      | Some d \<Rightarrow> if is_expired now d then Inl (plain_exn DeadlineExceededError ''Deadline exceeded'')
                  else Inr ())"

definition DeadlineContext_scoped :: "Deadline \<Rightarrow> ('w ambient, 'a) act \<Rightarrow> ('w ambient, 'a) act" where
  "DeadlineContext_scoped d = ctx_scoped amb_deadline put_deadline d"

text \<open>\<open>wait_for\<close> runs a coroutine under a timeout in seconds; what it answers depends on the event loop
  and is an argument. Any \<^verbatim>\<open>TimeoutError\<close> that comes out, from the timer or from the coroutine itself,
  is turned into \<^verbatim>\<open>DeadlineExceededError\<close>.\<close>

definition deadline_aware ::
  "(rat \<Rightarrow> ('w ambient, 'a) act \<Rightarrow> ('w ambient, 'a) act) \<Rightarrow> ('w ambient \<Rightarrow> microseconds)
    \<Rightarrow> Deadline option \<Rightarrow> ('w ambient, 'a) act \<Rightarrow> ('w ambient, 'a) act" where
  "deadline_aware wait_for now deadline coro c =
     (case (case deadline of Some d \<Rightarrow> Some d | None \<Rightarrow> amb_deadline c) of
        None \<Rightarrow> coro c
      | Some d \<Rightarrow>
          (let remaining = remaining_seconds (now c) d
           in if remaining \<le> 0 then (Inl (plain_exn DeadlineExceededError ''Deadline already exceeded''), c)
              else (case wait_for remaining coro c of
                      (Inr x, c') \<Rightarrow> (Inr x, c')
                    | (Inl e, c') \<Rightarrow>
                        if isinstance e [BuiltinTimeoutError]
                        then (Inl (plain_exn DeadlineExceededError ''Deadline exceeded during execution''), c')
                        else (Inl e, c'))))"

text \<open>\<^verbatim>\<open>TimeoutPolicy.execute\<close>; \<open>fstr\<close> renders the configured seconds in the message.\<close>

definition TimeoutPolicy_execute ::
  "(rat \<Rightarrow> ('w, 'a) act \<Rightarrow> ('w, 'a) act) \<Rightarrow> (rat \<Rightarrow> string) \<Rightarrow> rat \<Rightarrow> ('w, 'a) act \<Rightarrow> ('w, 'a) act" where
  "TimeoutPolicy_execute wait_for fstr timeout func w =
     (case wait_for timeout func w of
        (Inr x, w') \<Rightarrow> (Inr x, w')
      | (Inl e, w') \<Rightarrow>
          if isinstance e [BuiltinTimeoutError]
          then (Inl (BaseError_init AppTimeoutError
                       (''Operation timed out after '' @ fstr timeout @ ''s'') None None None), w')
          else (Inl e, w'))"

subsection \<open>Facts\<close>

lemma remaining_pos_iff: "0 < remaining_seconds now d \<longleftrightarrow> \<not> is_expired now d"
  by (auto simp: remaining_seconds_def is_expired_def)

lemma deadline_after_not_expired:
  "1 / 1000000 \<le> s \<Longrightarrow> \<not> is_expired now (Deadline_after now s)"
proof -
  assume "1 / 1000000 \<le> s"
  then have "1 \<le> s * 1000000" by simp
  with py_round_close[of "s * 1000000"] have "(1::rat) / 2 \<le> of_int (py_round (s * 1000000))"
    by linarith
  then have "0 < py_round (s * 1000000)"
    by (metis less_le_trans of_int_0_less_iff zero_less_divide_1_iff zero_less_numeral)
  then show ?thesis by (simp add: is_expired_def Deadline_after_def)
qed

lemma tenant_scoped_inside:
  "TenantContext_scoped t body c = (r, c') \<Longrightarrow>
   r = fst (body (put_tenant (Some t) c)) \<and> amb_tenant c' = amb_tenant c"
  using tenant_var.scoped_body[of t body c] tenant_var.scoped_restores[of t body c]
  by (simp add: TenantContext_scoped_def)

lemma get_or_new_idem:
  "CorrelationContext_get_or_new u c = (r, c') \<Longrightarrow> CorrelationContext_get_or_new v c' = (r, c')"
  by (auto simp: CorrelationContext_get_or_new_def Let_def split: option.splits)

end
