(* ===== verification/Saga.thy ===== *)
theory Saga
  imports Errors
begin

text \<open>
  The saga orchestrator (\<^verbatim>\<open>application/saga\<close>): context, steps, store and \<^verbatim>\<open>SagaOrchestrator.run\<close>. A step's
  action and compensation act on the saga context and on the world. The store is a port: \<open>saga_run\<close>
  takes its \<^verbatim>\<open>save\<close> as an argument (\<open>None\<close> for no store), the locale \<open>saga_store\<close> states what a store
  promises, and the in-memory store of the library is its provider. \<open>watch_step\<close> and \<open>watch_save\<close> add
  an event log to the world, in which the order of actions, compensations and saves is visible.
\<close>

type_synonym saga_ctx = "(string, pyval) pydict"

text \<open>\<^verbatim>\<open>SagaContext\<close>: a private dictionary; \<^verbatim>\<open>snapshot\<close> copies it.\<close>

definition SagaContext_init :: "saga_ctx option \<Rightarrow> saga_ctx" where
  "SagaContext_init initial = (case initial of None \<Rightarrow> [] | Some d \<Rightarrow> d)"

definition SagaContext_set :: "string \<Rightarrow> pyval \<Rightarrow> saga_ctx \<Rightarrow> saga_ctx" where
  "SagaContext_set k v ctx = dict_set k v ctx"

definition SagaContext_get :: "string \<Rightarrow> pyval \<Rightarrow> saga_ctx \<Rightarrow> pyval" where
  "SagaContext_get k d ctx = dict_get_or ctx k d"

definition SagaContext_snapshot :: "saga_ctx \<Rightarrow> saga_ctx" where
  "SagaContext_snapshot ctx = ctx"

definition SagaContext_from_snapshot :: "saga_ctx \<Rightarrow> saga_ctx" where
  "SagaContext_from_snapshot data = SagaContext_init (Some data)"

datatype SagaState = RUNNING | COMPLETED | COMPENSATING | COMPENSATION_FAILED | FAILED

record 'w SagaStep =
  ss_name :: string
  ss_action :: "(saga_ctx \<times> 'w, unit) act"
  ss_compensate :: "(saga_ctx \<times> 'w, unit) act"

record SagaRecord =
  sr_saga_id :: string
  sr_state :: SagaState
  sr_step_index :: nat
  sr_ctx_snapshot :: saga_ctx

subsection \<open>Stores\<close>

type_synonym InMemorySagaStore = "(string, SagaRecord) pydict"

definition InMemorySagaStore_save ::
  "string \<Rightarrow> SagaState \<Rightarrow> nat \<Rightarrow> saga_ctx \<Rightarrow> InMemorySagaStore \<Rightarrow> InMemorySagaStore" where
  "InMemorySagaStore_save sid st i snap store =
     dict_set sid \<lparr>sr_saga_id = sid, sr_state = st, sr_step_index = i, sr_ctx_snapshot = snap\<rparr> store"

definition InMemorySagaStore_load :: "string \<Rightarrow> InMemorySagaStore \<Rightarrow> SagaRecord option" where
  "InMemorySagaStore_load sid store = map_of store sid"

locale saga_store =
  fixes save :: "string \<Rightarrow> SagaState \<Rightarrow> nat \<Rightarrow> saga_ctx \<Rightarrow> 's \<Rightarrow> 's"
    and load :: "string \<Rightarrow> 's \<Rightarrow> SagaRecord option"
  assumes load_save: "load sid' (save sid st i snap s) =
    (if sid' = sid
     then Some \<lparr>sr_saga_id = sid, sr_state = st, sr_step_index = i, sr_ctx_snapshot = snap\<rparr>
     else load sid' s)"
begin

lemma load_save_last:
  "load sid (save sid st i snap (save sid st' i' snap' s)) = load sid (save sid st i snap s)"
  by (simp add: load_save)

text \<open>A recorded snapshot restores the context it was taken from.\<close>

lemma resume_context:
  "load sid (save sid st i (SagaContext_snapshot ctx) s) = Some r \<Longrightarrow>
   SagaContext_from_snapshot (sr_ctx_snapshot r) = ctx"
  by (auto simp: load_save SagaContext_snapshot_def SagaContext_from_snapshot_def SagaContext_init_def)

end

interpretation mem_saga: saga_store InMemorySagaStore_save InMemorySagaStore_load
  by unfold_locales (simp add: InMemorySagaStore_save_def InMemorySagaStore_load_def)

subsection \<open>The orchestrator\<close>

type_synonym 'w saga_save = "string \<Rightarrow> SagaState \<Rightarrow> nat \<Rightarrow> saga_ctx \<Rightarrow> ('w, unit) act"

definition SagaError_init :: "exc_class \<Rightarrow> string \<Rightarrow> string \<Rightarrow> exn \<Rightarrow> exn option \<Rightarrow> exn" where
  "SagaError_init c sid step cause compensation =
     Exn c (''Saga '' @ quoted sid @ '' failed at step '' @ quoted step) [] []
       [(''saga_id'', PStr sid), (''failed_step'', PStr step)] (Some cause) compensation"

definition saga_persist ::
  "'w saga_save option \<Rightarrow> string \<Rightarrow> SagaState \<Rightarrow> nat \<Rightarrow> (saga_ctx \<times> 'w, unit) act" where
  "saga_persist store sid st i s =
     (case s of (ctx, w) \<Rightarrow>
        (case store of
           None \<Rightarrow> (Inr (), (ctx, w))
         | Some save \<Rightarrow> (case save sid st i (SagaContext_snapshot ctx) w of (r, w') \<Rightarrow> (r, (ctx, w')))))"

text \<open>\<^verbatim>\<open>_compensate\<close>: every compensation is tried, the first error is kept; an exception outside
  \<^verbatim>\<open>Exception\<close> ends the loop.\<close>

fun saga_compensate ::
  "'w SagaStep list \<Rightarrow> nat list \<Rightarrow> exn option \<Rightarrow> (saga_ctx \<times> 'w, exn option) act" where
  "saga_compensate steps [] first s = (Inr first, s)"
| "saga_compensate steps (i # ks) first s =
     (case ss_compensate (steps ! i) s of
        (Inr _, s') \<Rightarrow> saga_compensate steps ks first s'
      | (Inl e, s') \<Rightarrow>
          if catchable e
          then saga_compensate steps ks (case first of None \<Rightarrow> Some e | Some f \<Rightarrow> Some f) s'
          else (Inl e, s'))"

text \<open>The \<^verbatim>\<open>except\<close> branch of the forward pass.\<close>

definition saga_fail ::
  "'w saga_save option \<Rightarrow> string \<Rightarrow> 'w SagaStep list \<Rightarrow> nat \<Rightarrow> string \<Rightarrow> exn \<Rightarrow> nat list
    \<Rightarrow> (saga_ctx \<times> 'w, saga_ctx) act" where
  "saga_fail store sid steps idx name e completed s =
     (case saga_persist store sid COMPENSATING idx s of
        (Inl e', s1) \<Rightarrow> (Inl e', s1)
      | (Inr _, s1) \<Rightarrow>
          (case saga_compensate steps (rev completed) None s1 of
             (Inl e', s2) \<Rightarrow> (Inl e', s2)
           | (Inr cerr, s2) \<Rightarrow>
               (case cerr of
                  Some ce \<Rightarrow>
                    (case saga_persist store sid COMPENSATION_FAILED idx s2 of
                       (Inl e', s3) \<Rightarrow> (Inl e', s3)
                     | (Inr _, s3) \<Rightarrow>
                         (Inl (SagaError_init SagaCompensationFailedError sid name e (Some ce)), s3))
                | None \<Rightarrow>
                    (case saga_persist store sid FAILED idx s2 of
                       (Inl e', s3) \<Rightarrow> (Inl e', s3)
                     | (Inr _, s3) \<Rightarrow> (Inl (SagaError_init SagaFailedError sid name e None), s3)))))"

text \<open>The forward pass over the steps still to come, \<open>idx\<close> being the index of the next one. An exception
  of the action or of the save that follows it starts the compensation.\<close>

fun saga_forward ::
  "'w saga_save option \<Rightarrow> string \<Rightarrow> 'w SagaStep list \<Rightarrow> nat \<Rightarrow> 'w SagaStep list \<Rightarrow> nat list
    \<Rightarrow> (saga_ctx \<times> 'w, saga_ctx) act" where
  "saga_forward store sid steps idx [] completed s =
     (case saga_persist store sid COMPLETED (length steps) s of
        (Inl e, s1) \<Rightarrow> (Inl e, s1)
      | (Inr _, s1) \<Rightarrow> (Inr (fst s1), s1))"
| "saga_forward store sid steps idx (step # rest) completed s =
     (case ss_action step s of
        (Inl e, s1) \<Rightarrow>
          if catchable e then saga_fail store sid steps idx (ss_name step) e completed s1 else (Inl e, s1)
      | (Inr _, s1) \<Rightarrow>
          (case saga_persist store sid RUNNING (idx + 1) s1 of
             (Inl e, s2) \<Rightarrow>
               if catchable e
               then saga_fail store sid steps idx (ss_name step) e (completed @ [idx]) s2 else (Inl e, s2)
           | (Inr _, s2) \<Rightarrow> saga_forward store sid steps (idx + 1) rest (completed @ [idx]) s2))"

definition SagaOrchestrator_init :: "'w SagaStep list \<Rightarrow> exn + 'w SagaStep list" where
  "SagaOrchestrator_init steps =
     (if steps = [] then Inl (plain_exn ValueError ''SagaOrchestrator requires at least one step'')
      else Inr steps)"

definition saga_run ::
  "'w saga_save option \<Rightarrow> string \<Rightarrow> 'w SagaStep list \<Rightarrow> saga_ctx option \<Rightarrow> 'w
    \<Rightarrow> (exn + saga_ctx) \<times> saga_ctx \<times> 'w" where
  "saga_run store sid steps initial w =
     (case saga_persist store sid RUNNING 0 (SagaContext_init initial, w) of
        (Inl e, s) \<Rightarrow> (Inl e, s)
      | (Inr _, s) \<Rightarrow> saga_forward store sid steps 0 steps [] s)"

subsection \<open>Watching a run\<close>

datatype saga_event =
    Acted nat "exn + unit"
  | Compensated nat "exn + unit"
  | Saved SagaState nat saga_ctx

definition watch_step :: "nat \<Rightarrow> 'w SagaStep \<Rightarrow> (saga_event list \<times> 'w) SagaStep" where
  "watch_step i step =
     \<lparr>ss_name = ss_name step,
      ss_action = (\<lambda>(ctx, (evs, w)).
        case ss_action step (ctx, w) of (r, (ctx', w')) \<Rightarrow> (r, (ctx', (evs @ [Acted i r], w')))),
      ss_compensate = (\<lambda>(ctx, (evs, w)).
        case ss_compensate step (ctx, w) of (r, (ctx', w')) \<Rightarrow> (r, (ctx', (evs @ [Compensated i r], w'))))\<rparr>"

definition watch_steps :: "'w SagaStep list \<Rightarrow> (saga_event list \<times> 'w) SagaStep list" where
  "watch_steps steps = map (\<lambda>(i, step). watch_step i step) (enumerate 0 steps)"

text \<open>A store whose saves succeed: \<open>save\<close> of a store as a total operation on the world.\<close>

definition watch_save ::
  "(string \<Rightarrow> SagaState \<Rightarrow> nat \<Rightarrow> saga_ctx \<Rightarrow> 'w \<Rightarrow> 'w) \<Rightarrow> (saga_event list \<times> 'w) saga_save" where
  "watch_save save sid st i snap = (\<lambda>(evs, w). (Inr (), (evs @ [Saved st i snap], save sid st i snap w)))"

definition acts_of :: "saga_event list \<Rightarrow> (nat \<times> (exn + unit)) list" where
  "acts_of evs = concat (map (\<lambda>ev. case ev of Acted i r \<Rightarrow> [(i, r)] | _ \<Rightarrow> []) evs)"

definition comps_of :: "saga_event list \<Rightarrow> (nat \<times> (exn + unit)) list" where
  "comps_of evs = concat (map (\<lambda>ev. case ev of Compensated i r \<Rightarrow> [(i, r)] | _ \<Rightarrow> []) evs)"

definition saves_of :: "saga_event list \<Rightarrow> (SagaState \<times> nat) list" where
  "saves_of evs = concat (map (\<lambda>ev. case ev of Saved st i _ \<Rightarrow> [(st, i)] | _ \<Rightarrow> []) evs)"

lemma event_projections [simp]:
  "acts_of [] = []" "comps_of [] = []" "saves_of [] = []"
  "acts_of (a @ b) = acts_of a @ acts_of b" "comps_of (a @ b) = comps_of a @ comps_of b"
  "saves_of (a @ b) = saves_of a @ saves_of b"
  "acts_of (Acted i r # a) = (i, r) # acts_of a" "comps_of (Acted i r # a) = comps_of a"
  "saves_of (Acted i r # a) = saves_of a"
  "acts_of (Compensated i r # a) = acts_of a" "comps_of (Compensated i r # a) = (i, r) # comps_of a"
  "saves_of (Compensated i r # a) = saves_of a"
  "acts_of (Saved st j c # a) = acts_of a" "comps_of (Saved st j c # a) = comps_of a"
  "saves_of (Saved st j c # a) = (st, j) # saves_of a"
  by (simp_all add: acts_of_def comps_of_def saves_of_def)

text \<open>The first error among compensation outcomes.\<close>

definition first_error :: "(nat \<times> (exn + unit)) list \<Rightarrow> exn option" where
  "first_error outs = first_some (\<lambda>(i, r). case r of Inl e \<Rightarrow> Some e | Inr _ \<Rightarrow> None) outs"

lemma first_error_simps [simp]:
  "first_error [] = None"
  "first_error ((i, Inl e) # outs) = Some e"
  "first_error ((i, Inr u) # outs) = first_error outs"
  by (simp_all add: first_error_def)

text \<open>Steps that raise only ordinary exceptions.\<close>

definition steps_ok :: "'w SagaStep list \<Rightarrow> bool" where
  "steps_ok steps \<longleftrightarrow>
     (\<forall>step \<in> set steps. \<forall>s e s'.
        (ss_action step s = (Inl e, s') \<longrightarrow> catchable e)
        \<and> (ss_compensate step s = (Inl e, s') \<longrightarrow> catchable e))"

lemma steps_okD:
  assumes "steps_ok steps" and "step \<in> set steps"
  shows "ss_action step s = (Inl e, s') \<Longrightarrow> catchable e"
    and "ss_compensate step s = (Inl e, s') \<Longrightarrow> catchable e"
  using assms unfolding steps_ok_def by (blast, blast)

lemma watch_steps_nth [simp]:
  "i < length steps \<Longrightarrow> watch_steps steps ! i = watch_step i (steps ! i)"
  by (simp add: watch_steps_def nth_enumerate_eq)

lemma length_watch_steps [simp]: "length (watch_steps steps) = length steps"
  by (simp add: watch_steps_def)

lemma watch_action:
  "ss_action (watch_step i step) (ctx, (evs, w)) =
     (case ss_action step (ctx, w) of (r, (ctx', w')) \<Rightarrow> (r, (ctx', (evs @ [Acted i r], w'))))"
  by (simp add: watch_step_def)

lemma watch_compensate:
  "ss_compensate (watch_step i step) (ctx, (evs, w)) =
     (case ss_compensate step (ctx, w) of (r, (ctx', w')) \<Rightarrow> (r, (ctx', (evs @ [Compensated i r], w'))))"
  by (simp add: watch_step_def)

lemma watch_persist:
  "saga_persist (Some (watch_save save)) sid st i (ctx, (evs, w)) =
     (Inr (), (ctx, (evs @ [Saved st i ctx], save sid st i ctx w)))"
  by (simp add: saga_persist_def watch_save_def SagaContext_snapshot_def)

lemma saga_compensate_first:
  "saga_compensate steps ks (Some e) s =
     (case saga_compensate steps ks None s of
        (Inl e', s') \<Rightarrow> (Inl e', s') | (Inr x, s') \<Rightarrow> (Inr (Some e), s'))"
proof (induction ks arbitrary: e s)
  case (Cons i ks)
  obtain r s' where Pair: "ss_compensate (steps ! i) s = (r, s')" by (metis prod.collapse)
  show ?case
  proof (cases r)
    case (Inl ex)
    with Pair show ?thesis
      by (simp add: Cons.IH[of e s'] Cons.IH[of ex s'] split: prod.splits sum.splits)
  qed (simp add: Pair Cons.IH[of e s'])
qed simp

lemma saga_compensate_watch:
  assumes "steps_ok steps" and "\<forall>i \<in> set ks. i < length steps"
  shows "\<exists>cs ctx' w'. saga_compensate (watch_steps steps) ks None (ctx, (evs, w)) =
      (Inr (first_error (comps_of cs)), (ctx', (evs @ cs, w')))
    \<and> acts_of cs = [] \<and> saves_of cs = [] \<and> map fst (comps_of cs) = ks"
  using assms(2)
proof (induction ks arbitrary: ctx evs w)
  case (Cons i ks)
  obtain r ctx1 w1 where c: "ss_compensate (steps ! i) (ctx, w) = (r, (ctx1, w1))"
    by (metis prod.collapse)
  obtain cs ctx' w' where IH:
      "saga_compensate (watch_steps steps) ks None (ctx1, (evs @ [Compensated i r], w1)) =
        (Inr (first_error (comps_of cs)), (ctx', ((evs @ [Compensated i r]) @ cs, w')))"
      "acts_of cs = []" "saves_of cs = []" "map fst (comps_of cs) = ks"
    using Cons.IH[of ctx1 "evs @ [Compensated i r]" w1] Cons.prems by auto
  have "catchable e" if "r = Inl e" for e
    using steps_okD(2)[OF assms(1), of "steps ! i"] c that Cons.prems by simp
  then have "saga_compensate (watch_steps steps) (i # ks) None (ctx, (evs, w)) =
      (Inr (first_error (comps_of (Compensated i r # cs))), (ctx', (evs @ Compensated i r # cs, w')))"
    using c IH(1) Cons.prems
    by (cases r) (simp_all add: watch_compensate saga_compensate_first)
  then show ?case using IH
    by (intro exI[of _ "Compensated i r # cs"] exI[of _ ctx'] exI[of _ w']) simp
qed (auto intro: exI[of _ "[]"])

text \<open>The end of a failed run.\<close>

definition failed_with :: "string \<Rightarrow> string \<Rightarrow> exn \<Rightarrow> exn option \<Rightarrow> exn" where
  "failed_with sid name e ce =
     SagaError_init (case ce of None \<Rightarrow> SagaFailedError | Some _ \<Rightarrow> SagaCompensationFailedError) sid name e ce"

definition failed_state :: "exn option \<Rightarrow> SagaState" where
  "failed_state ce = (case ce of None \<Rightarrow> FAILED | Some _ \<Rightarrow> COMPENSATION_FAILED)"

lemma saga_fail_watch:
  assumes "steps_ok steps" and "k < length steps"
  shows "\<exists>bs ctx' w'. saga_fail (Some (watch_save save)) sid (watch_steps steps) k name e [0..<k] (ctx, (evs, w)) =
      (Inl (failed_with sid name e (first_error (comps_of bs))), (ctx', (evs @ bs, w')))
    \<and> acts_of bs = [] \<and> map fst (comps_of bs) = rev [0..<k]
    \<and> saves_of bs = [(COMPENSATING, k), (failed_state (first_error (comps_of bs)), k)]"
proof -
  let ?evs = "evs @ [Saved COMPENSATING k ctx]" and ?w = "save sid COMPENSATING k ctx w"
  obtain cs ctx' w' where cs:
      "saga_compensate (watch_steps steps) (rev [0..<k]) None (ctx, (?evs, ?w)) =
        (Inr (first_error (comps_of cs)), (ctx', (?evs @ cs, w')))"
      "acts_of cs = []" "saves_of cs = []" "map fst (comps_of cs) = rev [0..<k]"
    using saga_compensate_watch[OF assms(1), of "rev [0..<k]" ctx ?evs ?w] assms(2) by auto
  let ?st = "failed_state (first_error (comps_of cs))"
  let ?bs = "[Saved COMPENSATING k ctx] @ cs @ [Saved ?st k ctx']"
  have "saga_fail (Some (watch_save save)) sid (watch_steps steps) k name e [0..<k] (ctx, (evs, w)) =
      (Inl (failed_with sid name e (first_error (comps_of ?bs))), (ctx', (evs @ ?bs, save sid ?st k ctx' w')))"
    using cs by (simp add: saga_fail_def watch_persist failed_with_def failed_state_def split: option.splits)
  then show ?thesis using cs
    by (intro exI[of _ ?bs] exI[of _ ctx'] exI[of _ "save sid ?st k ctx' w'"]) simp
qed

text \<open>How a watched run may end: completed, or failed at step \<open>k\<close> with error \<open>e\<close>.\<close>

definition saga_completed :: "nat \<Rightarrow> saga_event list \<Rightarrow> bool" where
  "saga_completed n evs \<longleftrightarrow>
     acts_of evs = map (\<lambda>i. (i, Inr ())) [0..<n] \<and> comps_of evs = []
     \<and> saves_of evs = map (\<lambda>i. (RUNNING, i)) [0..<Suc n] @ [(COMPLETED, n)]"

definition saga_failed_at :: "nat \<Rightarrow> exn \<Rightarrow> saga_event list \<Rightarrow> bool" where
  "saga_failed_at k e evs \<longleftrightarrow>
     acts_of evs = map (\<lambda>i. (i, Inr ())) [0..<k] @ [(k, Inl e)]
     \<and> map fst (comps_of evs) = rev [0..<k]
     \<and> saves_of evs = map (\<lambda>i. (RUNNING, i)) [0..<Suc k]
         @ [(COMPENSATING, k), (failed_state (first_error (comps_of evs)), k)]
     \<and> (\<exists>fwd bwd. evs = fwd @ bwd \<and> comps_of fwd = [] \<and> acts_of bwd = [])"

lemma watch_steps_drop:
  "idx < length steps \<Longrightarrow>
   drop idx (watch_steps steps) = watch_step idx (steps ! idx) # drop (Suc idx) (watch_steps steps)"
  by (metis Cons_nth_drop_Suc length_watch_steps watch_steps_nth)

lemma name_watch_step [simp]: "ss_name (watch_step i step) = ss_name step"
  by (simp add: watch_step_def)

lemma saga_forward_watch:
  assumes "steps_ok steps" and "idx \<le> length steps"
    and "acts_of evs = map (\<lambda>i. (i, Inr ())) [0..<idx]" and "comps_of evs = []"
    and "saves_of evs = map (\<lambda>i. (RUNNING, i)) [0..<Suc idx]"
  shows "\<exists>ctx' evs' w'.
     saga_forward (Some (watch_save save)) sid (watch_steps steps) idx (drop idx (watch_steps steps))
         [0..<idx] (ctx, (evs, w)) = (Inr ctx', (ctx', (evs', w'))) \<and> saga_completed (length steps) evs'
   \<or> (\<exists>k e. k < length steps \<and> saga_failed_at k e evs'
       \<and> saga_forward (Some (watch_save save)) sid (watch_steps steps) idx (drop idx (watch_steps steps))
           [0..<idx] (ctx, (evs, w)) =
         (Inl (failed_with sid (ss_name (steps ! k)) e (first_error (comps_of evs'))), (ctx', (evs', w'))))"
  using assms(2-)
proof (induction "length steps - idx" arbitrary: idx ctx evs w)
  case 0
  then have "idx = length steps" by simp
  with 0 show ?case
    by (intro exI[of _ ctx] exI[of _ "evs @ [Saved COMPLETED (length steps) ctx]"])
       (simp add: watch_persist saga_completed_def)
next
  case (Suc n)
  then have idx: "idx < length steps" by simp
  obtain r ctx1 w1 where a: "ss_action (steps ! idx) (ctx, w) = (r, (ctx1, w1))" by (metis prod.collapse)
  let ?evs = "evs @ [Acted idx r]"
  show ?case
  proof (cases r)
    case (Inl e)
    have "catchable e" using steps_okD(1)[OF assms(1), of "steps ! idx"] a Inl idx by simp
    moreover obtain bs ctx' w' where
      "saga_fail (Some (watch_save save)) sid (watch_steps steps) idx (ss_name (steps ! idx)) e [0..<idx]
          (ctx1, (?evs, w1)) =
        (Inl (failed_with sid (ss_name (steps ! idx)) e (first_error (comps_of bs))), (ctx', (?evs @ bs, w')))"
      "acts_of bs = []" "map fst (comps_of bs) = rev [0..<idx]"
      "saves_of bs = [(COMPENSATING, idx), (failed_state (first_error (comps_of bs)), idx)]"
      using saga_fail_watch[OF assms(1) idx, of save sid "ss_name (steps ! idx)" e ctx1 ?evs w1] by blast
    moreover from this have "\<exists>fwd bwd. ?evs @ bs = fwd @ bwd \<and> comps_of fwd = [] \<and> acts_of bwd = []"
      using Suc.prems by (intro exI[of _ ?evs] exI[of _ bs]) simp
    moreover from calculation have "saga_failed_at idx e (?evs @ bs)"
      using Suc.prems Inl by (simp add: saga_failed_at_def)
    ultimately show ?thesis
      using a Inl idx Suc.prems
      by (intro exI[of _ ctx'] exI[of _ "?evs @ bs"] exI[of _ w'])
         (auto simp: watch_steps_drop watch_action intro!: exI[of _ idx] exI[of _ e])
  next
    case (Inr u)
    let ?evs' = "?evs @ [Saved RUNNING (Suc idx) ctx1]" and ?w' = "save sid RUNNING (Suc idx) ctx1 w1"
    have step: "saga_forward (Some (watch_save save)) sid (watch_steps steps) idx
        (drop idx (watch_steps steps)) [0..<idx] (ctx, (evs, w)) =
      saga_forward (Some (watch_save save)) sid (watch_steps steps) (Suc idx)
        (drop (Suc idx) (watch_steps steps)) [0..<Suc idx] (ctx1, (?evs', ?w'))"
      using a Inr idx by (simp add: watch_steps_drop watch_action watch_persist)
    show ?thesis unfolding step
      using Suc.hyps(2) Suc.prems Inr idx by (intro Suc.hyps(1)) auto
  qed
qed

subsection \<open>The final record\<close>

text \<open>A run over a store whose saves succeed ends by saving what it reports.\<close>

definition total_save ::
  "(string \<Rightarrow> SagaState \<Rightarrow> nat \<Rightarrow> saga_ctx \<Rightarrow> 'w \<Rightarrow> 'w) \<Rightarrow> 'w saga_save" where
  "total_save save sid st i snap w = (Inr (), save sid st i snap w)"

definition reported_state :: "exn + saga_ctx \<Rightarrow> SagaState" where
  "reported_state r =
     (case r of
        Inr _ \<Rightarrow> COMPLETED
      | Inl e \<Rightarrow> if exn_class e = SagaCompensationFailedError then COMPENSATION_FAILED else FAILED)"

lemma total_persist:
  "saga_persist (Some (total_save save)) sid st i (ctx, w) = (Inr (), (ctx, save sid st i ctx w))"
  by (simp add: saga_persist_def total_save_def SagaContext_snapshot_def)

lemma saga_compensate_ok:
  assumes "steps_ok steps" and "\<forall>i \<in> set ks. i < length steps"
  shows "\<exists>x s'. saga_compensate steps ks first s = (Inr x, s')"
  using assms(2)
proof (induction ks arbitrary: first s)
  case (Cons i ks)
  obtain r s' where c: "ss_compensate (steps ! i) s = (r, s')" by (metis prod.collapse)
  have "catchable e" if "r = Inl e" for e
    using steps_okD(2)[OF assms(1), of "steps ! i"] c that Cons.prems by simp
  with c Cons show ?case by (cases r) auto
qed simp

lemma saga_fail_saves:
  assumes "steps_ok steps" and "\<forall>i \<in> set cmpl. i < length steps"
    and "saga_fail (Some (total_save save)) sid steps k name e cmpl s = (r, (ctx, w))"
  shows "isl r \<and> (\<exists>w0. w = save sid (reported_state r) k ctx w0)"
proof -
  obtain ctx0 w0 where s: "s = (ctx0, w0)" by force
  obtain x ctx1 w1 where "saga_compensate steps (rev cmpl) None (ctx0, save sid COMPENSATING k ctx0 w0) = (Inr x, (ctx1, w1))"
    using saga_compensate_ok[OF assms(1), of "rev cmpl"] assms(2) by (metis prod.collapse set_rev)
  with assms(3) s show ?thesis
    by (cases x) (auto simp: saga_fail_def total_persist reported_state_def SagaError_init_def)
qed

lemma saga_forward_saves:
  assumes "steps_ok steps"
  shows "set rest \<subseteq> set steps \<Longrightarrow> idx + length rest = length steps \<Longrightarrow> \<forall>i \<in> set cmpl. i < idx \<Longrightarrow>
    saga_forward (Some (total_save save)) sid steps idx rest cmpl s = (r, (ctx, w)) \<Longrightarrow>
    \<exists>k w0. w = save sid (reported_state r) k ctx w0"
proof (induction rest arbitrary: idx cmpl s)
  case Nil
  then show ?case
    by (cases s) (auto simp: total_persist reported_state_def, blast)
next
  case (Cons step rest)
  obtain a s1 where a: "ss_action step s = (a, s1)" by (metis prod.collapse)
  obtain ctx1 w1 where s1: "s1 = (ctx1, w1)" by force
  show ?case
  proof (cases a)
    case (Inl e)
    then have "catchable e" using steps_okD(1)[OF assms, of step] Cons.prems(1) a by simp
    then have "saga_fail (Some (total_save save)) sid steps idx (ss_name step) e cmpl s1 = (r, (ctx, w))"
      using Cons.prems(4) a Inl by simp
    moreover have "\<forall>i \<in> set cmpl. i < length steps" using Cons.prems(2,3) by auto
    ultimately show ?thesis using saga_fail_saves[OF assms] by blast
  next
    case (Inr u)
    then have "saga_forward (Some (total_save save)) sid steps (Suc idx) rest (cmpl @ [idx])
        (ctx1, save sid RUNNING (Suc idx) ctx1 w1) = (r, (ctx, w))"
      using Cons.prems(4) a s1 by (simp add: total_persist)
    with Cons.prems show ?thesis by (intro Cons.IH) auto
  qed
qed

context saga_store
begin

lemma run_record:
  assumes "steps_ok steps" and "saga_run (Some (total_save save)) sid steps initial w = (r, (ctx, w'))"
  shows "\<exists>k. load sid w' = Some \<lparr>sr_saga_id = sid, sr_state = reported_state r, sr_step_index = k,
      sr_ctx_snapshot = ctx\<rparr>"
proof -
  have "\<exists>k w0. w' = save sid (reported_state r) k ctx w0"
    using assms(2) by (intro saga_forward_saves[OF assms(1), where rest = steps and idx = 0 and cmpl = "[]"])
      (auto simp: saga_run_def total_persist)
  then show ?thesis by (auto simp: load_save)
qed

end

subsection \<open>Properties\<close>

text \<open>Two steps for the examples: the first succeeds, the second fails; a failing compensation.\<close>

definition reserve_step :: "nat SagaStep" where
  "reserve_step = \<lparr>ss_name = ''reserve'',
     ss_action = (\<lambda>(ctx, w). (Inr (), (SagaContext_set ''r'' (PInt 1) ctx, w + 1))),
     ss_compensate = (\<lambda>(ctx, w). (Inl (plain_exn OSError ''gone''), (ctx, w)))\<rparr>"

definition pay_step :: "nat SagaStep" where
  "pay_step = \<lparr>ss_name = ''pay'',
     ss_action = (\<lambda>s. (Inl (plain_exn ValueError ''declined''), s)),
     ss_compensate = (\<lambda>s. (Inr (), s))\<rparr>"

lemma demo_steps_ok: "steps_ok [reserve_step, pay_step]"
  by (auto simp: steps_ok_def reserve_step_def pay_step_def catchable_def isinstance_def issubclass_def
      mro_def eval_nat_numeral)

text \<open>C9. A saga over a store whose saves succeed, with steps that raise only ordinary exceptions,
  ends in one of two ways. Either every action ran, once and in order, nothing was compensated, and
  the progress records end with \<^verbatim>\<open>COMPLETED\<close>; or the actions ran in order up to the first failing
  one, after which exactly the completed steps were compensated, in reverse order, the records end
  with \<^verbatim>\<open>COMPENSATING\<close> and then \<^verbatim>\<open>FAILED\<close> or \<^verbatim>\<open>COMPENSATION_FAILED\<close>, and the error raised names the failed
  step, the original exception and the first compensation error if there was one.\<close>

theorem saga_run_outcome:
  assumes "steps_ok steps"
  shows "\<exists>r ctx evs w'.
     saga_run (Some (watch_save save)) sid (watch_steps steps) initial ([], w) = (r, (ctx, (evs, w')))
     \<and> (r = Inr ctx \<and> saga_completed (length steps) evs
        \<or> (\<exists>k e. k < length steps \<and> saga_failed_at k e evs
             \<and> r = Inl (failed_with sid (ss_name (steps ! k)) e (first_error (comps_of evs)))))"
proof -
  let ?ctx = "SagaContext_init initial"
  let ?evs = "[Saved RUNNING 0 ?ctx]" and ?w = "save sid RUNNING 0 (SagaContext_init initial) w"
  have run: "saga_run (Some (watch_save save)) sid (watch_steps steps) initial ([], w) =
      saga_forward (Some (watch_save save)) sid (watch_steps steps) 0 (drop 0 (watch_steps steps)) [0..<0]
        (?ctx, (?evs, ?w))"
    by (simp add: saga_run_def watch_persist)
  show ?thesis
    using saga_forward_watch[OF assms, of 0 ?evs save sid ?ctx ?w] unfolding run by simp blast
qed

theorem saga_run_outcome_witness:
  "\<exists>r ctx evs w'.
     saga_run (Some (watch_save (\<lambda>_ _ _ _ w. w))) ''s1'' (watch_steps [reserve_step, pay_step]) None ([], 0)
       = (r, (ctx, (evs, w')))
     \<and> (r = Inr ctx \<and> saga_completed 2 evs
        \<or> (\<exists>k e. k < 2 \<and> saga_failed_at k e evs
             \<and> r = Inl (failed_with ''s1'' (ss_name ([reserve_step, pay_step] ! k)) e (first_error (comps_of evs)))))"
  using saga_run_outcome[OF demo_steps_ok, of "\<lambda>_ _ _ _ w. w" "''s1''" None 0]
  by (simp add: numeral_2_eq_2)

text \<open>C10. The in-memory store ends up saying what the caller is told: after a run, the saga's record
  is \<^verbatim>\<open>COMPLETED\<close> when the run returned, \<^verbatim>\<open>COMPENSATION_FAILED\<close> when it raised
  \<^verbatim>\<open>SagaCompensationFailedError\<close> and \<^verbatim>\<open>FAILED\<close> otherwise, with the final context as snapshot.\<close>

theorem saga_final_record:
  assumes "steps_ok steps"
    and "saga_run (Some (total_save InMemorySagaStore_save)) sid steps initial store = (r, (ctx, store'))"
  shows "\<exists>k. InMemorySagaStore_load sid store' =
    Some \<lparr>sr_saga_id = sid, sr_state = reported_state r, sr_step_index = k, sr_ctx_snapshot = ctx\<rparr>"
  using assms by (rule mem_saga.run_record)

theorem saga_final_record_witness:
  "\<exists>k. InMemorySagaStore_load ''s1''
      (snd (snd (saga_run (Some (total_save InMemorySagaStore_save)) ''s1''
        [\<lparr>ss_name = ''pay'', ss_action = (\<lambda>s. (Inl (plain_exn ValueError ''declined''), s)),
           ss_compensate = (\<lambda>s. (Inr (), s))\<rparr>] None []))) =
    Some \<lparr>sr_saga_id = ''s1'', sr_state = FAILED, sr_step_index = k, sr_ctx_snapshot = []\<rparr>"
proof -
  let ?steps = "[\<lparr>ss_name = ''pay'', ss_action = (\<lambda>s. (Inl (plain_exn ValueError ''declined''), s)),
           ss_compensate = (\<lambda>s. (Inr (), s))\<rparr>] :: InMemorySagaStore SagaStep list"
  have ok: "steps_ok ?steps"
    by (auto simp: steps_ok_def catchable_def isinstance_def issubclass_def mro_def eval_nat_numeral)
  obtain r ctx store' where run:
      "saga_run (Some (total_save InMemorySagaStore_save)) ''s1'' ?steps None [] = (r, (ctx, store'))"
    by (metis prod.collapse)
  moreover have "r = Inl (SagaError_init SagaFailedError ''s1'' ''pay'' (plain_exn ValueError ''declined'') None)"
      "ctx = []"
    using run by (simp_all add: saga_run_def total_persist saga_fail_def SagaContext_init_def catchable_def
        isinstance_def issubclass_def mro_def eval_nat_numeral)
  ultimately show ?thesis
    using saga_final_record[OF ok run] by (simp add: reported_state_def SagaError_init_def)
qed

end
