(* ===== verification/Domain_Model.thy ===== *)
theory Domain_Model
  imports Errors
begin

text \<open>
  The building blocks of the domain layer (\<^verbatim>\<open>kernel/ddd\<close>): domain events and envelopes, entities and
  aggregates, invariant assertions, the service registry, event-driven sagas and the unit of work.
  An aggregate's own attributes are the type parameter \<open>'s\<close>. A class is represented by its name.
\<close>

subsection \<open>Domain events\<close>

record DomainEvent =
  ev_id :: string
  ev_occurred_at :: microseconds
  ev_event_type :: string
  ev_fields :: "(string \<times> pyval) list"

record DomainEventEnvelope =
  env_event :: DomainEvent
  env_aggregate_id :: string
  env_aggregate_type :: string
  env_sequence :: int
  env_tenant_id :: "string option"
  env_correlation_id :: "string option"
  env_schema_version :: int
  env_metadata :: "(string \<times> pyval) list"

definition envelope_event_type :: "DomainEventEnvelope \<Rightarrow> string" where
  "envelope_event_type e = ev_event_type (env_event e)"

subsection \<open>Entities and aggregates\<close>

record 's Aggregate =
  ag_class :: string
  ag_id :: string
  ag_version :: int
  ag_events :: "DomainEvent list"
  ag_state :: 's

text \<open>\<open>sub c d\<close>: class \<open>c\<close> is \<open>d\<close> or derives from it.\<close>

definition Entity_eq :: "(string \<Rightarrow> string \<Rightarrow> bool) \<Rightarrow> 's Aggregate \<Rightarrow> 't Aggregate \<Rightarrow> bool" where
  "Entity_eq sub a b \<longleftrightarrow> sub (ag_class b) (ag_class a) \<and> ag_id a = ag_id b"

definition AggregateRoot_init :: "string \<Rightarrow> string \<Rightarrow> 's \<Rightarrow> 's Aggregate" where
  "AggregateRoot_init cls i st =
     \<lparr>ag_class = cls, ag_id = i, ag_version = 0, ag_events = [], ag_state = st\<rparr>"

definition raise_event :: "DomainEvent \<Rightarrow> 's Aggregate \<Rightarrow> 's Aggregate" where
  "raise_event e a = a\<lparr>ag_events := ag_events a @ [e], ag_version := ag_version a + 1\<rparr>"

definition pull_events :: "'s Aggregate \<Rightarrow> DomainEvent list \<times> 's Aggregate" where
  "pull_events a = (ag_events a, a\<lparr>ag_events := []\<rparr>)"

lemma raise_events:
  "fold raise_event es a = a\<lparr>ag_events := ag_events a @ es, ag_version := ag_version a + int (length es)\<rparr>"
  by (induction es arbitrary: a) (simp_all add: raise_event_def)

text \<open>Since the last pull, the version has grown by the number of pending events.\<close>

definition agg_ok :: "int \<Rightarrow> 's Aggregate \<Rightarrow> bool" where
  "agg_ok base a \<longleftrightarrow> ag_version a = base + int (length (ag_events a))"

lemma agg_ok_init [inv_intros]: "agg_ok 0 (AggregateRoot_init c i st)"
  by (simp add: agg_ok_def AggregateRoot_init_def)

lemma agg_ok_raise [inv_intros]: "agg_ok b a \<Longrightarrow> agg_ok b (raise_event e a)"
  by (simp add: agg_ok_def raise_event_def)

lemma agg_ok_pull: "agg_ok b a \<Longrightarrow> agg_ok (ag_version a) (snd (pull_events a))"
  by (simp add: agg_ok_def pull_events_def)

subsection \<open>Invariant assertions\<close>

definition Invariant_require :: "bool \<Rightarrow> string \<Rightarrow> exn + unit" where
  "Invariant_require condition message =
     (if condition then Inr () else Inl (base_exn InvariantViolationError message))"

definition Invariant_not_none :: "'a option \<Rightarrow> string \<Rightarrow> exn + 'a" where
  "Invariant_not_none x name =
     (case x of None \<Rightarrow> Inl (base_exn InvariantViolationError (name @ '' must not be None''))
      | Some v \<Rightarrow> Inr v)"

subsection \<open>Service registry\<close>

text \<open>Services are compared by identity, here by equality of object references \<open>'a\<close>.\<close>

definition ServiceRegistry_register ::
  "string \<Rightarrow> 'a \<Rightarrow> (string, 'a) pydict \<Rightarrow> (exn + unit) \<times> (string, 'a) pydict" where
  "ServiceRegistry_register name service store =
     (case map_of store name of
        Some existing \<Rightarrow>
          if existing \<noteq> service
          then (Inl (plain_exn ValueError
                  (''A different service is already registered under '' @ repr_str name)), store)
          else (Inr (), dict_set name service store)
      | None \<Rightarrow> (Inr (), dict_set name service store))"

definition ServiceRegistry_get :: "string \<Rightarrow> (string, 'a) pydict \<Rightarrow> exn + 'a" where
  "ServiceRegistry_get name store =
     (case map_of store name of
        None \<Rightarrow> Inl (plain_exn KeyError (''No service registered under '' @ repr_str name))
      | Some s \<Rightarrow> Inr s)"

text \<open>\<open>inst\<close> tests membership of the expected class, \<open>cls_name\<close> and \<open>type_name\<close> are the names in the message.\<close>

definition ServiceRegistry_get_typed ::
  "('a \<Rightarrow> bool) \<Rightarrow> string \<Rightarrow> ('a \<Rightarrow> string) \<Rightarrow> string \<Rightarrow> (string, 'a) pydict \<Rightarrow> exn + 'a" where
  "ServiceRegistry_get_typed inst cls_name type_name name store =
     (case ServiceRegistry_get name store of
        Inl e \<Rightarrow> Inl e
      | Inr s \<Rightarrow>
          if inst s then Inr s
          else Inl (plain_exn TypeError (''Service '' @ repr_str name @ '' is ''
                 @ repr_str (type_name s) @ '', expected '' @ repr_str cls_name)))"

text \<open>The decorator \<^verbatim>\<open>domain_service\<close> registers the class under its name in the default registry.\<close>

definition domain_service ::
  "(string \<Rightarrow> 'a) \<Rightarrow> string \<Rightarrow> (string, 'a) pydict \<Rightarrow> (exn + 'a) \<times> (string, 'a) pydict" where
  "domain_service class_object name store =
     (case ServiceRegistry_register name (class_object name) store of
        (Inl e, store') \<Rightarrow> (Inl e, store')
      | (Inr _, store') \<Rightarrow> (Inr (class_object name), store'))"

lemma registry_get_after_register:
  assumes "ServiceRegistry_register n s store = (Inr (), store')"
  shows "ServiceRegistry_get n store' = Inr s"
    and "m \<noteq> n \<Longrightarrow> ServiceRegistry_get m store' = ServiceRegistry_get m store"
  using assms by (auto simp: ServiceRegistry_register_def ServiceRegistry_get_def
      split: option.splits if_splits)

text \<open>A name never changes its service: whatever is registered later, a lookup answers the same.\<close>

fun register_all :: "(string \<times> 'a) list \<Rightarrow> (string, 'a) pydict \<Rightarrow> (string, 'a) pydict" where
  "register_all [] store = store"
| "register_all ((n, s) # rs) store = register_all rs (snd (ServiceRegistry_register n s store))"

lemma registry_stable:
  "ServiceRegistry_get n store = Inr s \<Longrightarrow> ServiceRegistry_get n (register_all rs store) = Inr s"
proof (induction rs arbitrary: store)
  case (Cons r rs)
  obtain m t where r: "r = (m, t)" by force
  from Cons.prems have "ServiceRegistry_get n (snd (ServiceRegistry_register m t store)) = Inr s"
    by (auto simp: ServiceRegistry_register_def ServiceRegistry_get_def split: option.splits)
  then show ?case using Cons.IH r by simp
qed simp

subsection \<open>Event-driven sagas\<close>

record 'w KernelSaga =
  ks_saga_id :: string
  ks_completed :: bool
  ks_handlers :: "(string, DomainEvent \<Rightarrow> ('w, unit) act) pydict"

definition KernelSaga_init :: "string \<Rightarrow> 'w KernelSaga" where
  "KernelSaga_init i = \<lparr>ks_saga_id = i, ks_completed = False, ks_handlers = []\<rparr>"

definition KernelSaga_register ::
  "string \<Rightarrow> (DomainEvent \<Rightarrow> ('w, unit) act) \<Rightarrow> 'w KernelSaga \<Rightarrow> 'w KernelSaga" where
  "KernelSaga_register event_type handler s = s\<lparr>ks_handlers := dict_set event_type handler (ks_handlers s)\<rparr>"

definition KernelSaga_mark_completed :: "'w KernelSaga \<Rightarrow> 'w KernelSaga" where
  "KernelSaga_mark_completed s = s\<lparr>ks_completed := True\<rparr>"

definition KernelSaga_handle :: "'w KernelSaga \<Rightarrow> DomainEvent \<Rightarrow> ('w, unit) act" where
  "KernelSaga_handle s event w =
     (case map_of (ks_handlers s) (ev_event_type event) of
        None \<Rightarrow> (Inr (), w)
      | Some handler \<Rightarrow> handler event w)"

subsection \<open>Unit of work\<close>

text \<open>\<^verbatim>\<open>async with uow:\<close> around a body, and the decorator \<^verbatim>\<open>transactional\<close> built on it: commit on a clean
  exit, rollback on any exception; an exception of \<^verbatim>\<open>commit\<close> or \<^verbatim>\<open>rollback\<close> replaces the outcome.\<close>

definition with_uow ::
  "('w, unit) act \<Rightarrow> ('w, unit) act \<Rightarrow> ('w, 'a) act \<Rightarrow> ('w, 'a) act" where
  "with_uow commit rollback body w =
     (case body w of
        (Inr x, w1) \<Rightarrow> (case commit w1 of (Inr _, w2) \<Rightarrow> (Inr x, w2) | (Inl e, w2) \<Rightarrow> (Inl e, w2))
      | (Inl e, w1) \<Rightarrow> (case rollback w1 of (Inr _, w2) \<Rightarrow> (Inl e, w2) | (Inl e', w2) \<Rightarrow> (Inl e', w2)))"

text \<open>A transaction over a store with a working copy: committing publishes the copy, rolling back
  drops it.\<close>

definition commit_copy :: "('s \<times> 's, unit) act" where
  "commit_copy = (\<lambda>(committed, working). (Inr (), (working, working)))"

definition rollback_copy :: "('s \<times> 's, unit) act" where
  "rollback_copy = (\<lambda>(committed, working). (Inr (), (committed, committed)))"

text \<open>A body that works on the copy only.\<close>

definition on_copy :: "('s, 'a) act \<Rightarrow> ('s \<times> 's, 'a) act" where
  "on_copy body = (\<lambda>(committed, working). case body working of (r, s) \<Rightarrow> (r, (committed, s)))"

lemma uow_atomic:
  "with_uow commit_copy rollback_copy (on_copy body) (s, s) =
     (case body s of (Inr x, s') \<Rightarrow> (Inr x, (s', s')) | (Inl e, s') \<Rightarrow> (Inl e, (s, s)))"
  by (simp add: with_uow_def commit_copy_def rollback_copy_def on_copy_def split: prod.splits sum.splits)

text \<open>\<^verbatim>\<open>transactional\<close>: without a unit of work on the object, the method runs unwrapped.\<close>

definition transactional ::
  "(('w, unit) act \<times> ('w, unit) act) option \<Rightarrow> ('w, 'a) act \<Rightarrow> ('w, 'a) act" where
  "transactional uow body w =
     (case uow of None \<Rightarrow> body w | Some (commit, rollback) \<Rightarrow> with_uow commit rollback body w)"

end
