(* ===== verification/Event_Sourcing.thy ===== *)
theory Event_Sourcing
  imports Domain_Model
begin

text \<open>
  Event sourcing (\<^verbatim>\<open>application/event_sourcing\<close>): stored events, the in-memory event and snapshot
  stores, the event-sourced repository, projectors. The repository is written against the event-store
  port; the locale \<open>event_store\<close> states the port's contract (optimistic locking on the stream length,
  filtering by version) and carries the repository's correctness; the in-memory store is its
  provider. \<open>apply\<close> is the aggregate's \<^verbatim>\<open>apply_stored_event\<close>, \<open>serialise\<close> and \<open>metadata\<close> the configured
  callbacks.
\<close>

record StoredEvent =
  se_stream_id :: string
  se_version :: int
  se_event_type :: string
  se_payload :: string
  se_metadata :: "(string \<times> pyval) list"
  se_occurred_at :: microseconds

definition OptimisticConcurrencyError_init :: "string \<Rightarrow> int \<Rightarrow> int \<Rightarrow> exn" where
  "OptimisticConcurrencyError_init sid expected actual =
     Exn OptimisticConcurrencyError
       (''Concurrency conflict on stream '' @ quoted sid @ '': expected version '' @ show_int expected
         @ '', found '' @ show_int actual) [] []
       [(''stream_id'', PStr sid), (''expected'', PInt expected), (''actual'', PInt actual)] None None"

subsection \<open>The in-memory stores\<close>

type_synonym InMemoryEventStore = "(string, StoredEvent list) pydict"

definition InMemoryEventStore_append ::
  "string \<Rightarrow> StoredEvent list \<Rightarrow> int \<Rightarrow> (InMemoryEventStore, unit) act" where
  "InMemoryEventStore_append sid events expected store =
     (let store1 = (case map_of store sid of None \<Rightarrow> dict_set sid [] store | Some _ \<Rightarrow> store);
          stream = dict_get_or store sid [];
          actual = int (length stream)
      in if actual \<noteq> expected then (Inl (OptimisticConcurrencyError_init sid expected actual), store1)
         else (Inr (), dict_set sid (stream @ events) store1))"

definition InMemoryEventStore_load :: "string \<Rightarrow> int \<Rightarrow> InMemoryEventStore \<Rightarrow> StoredEvent list" where
  "InMemoryEventStore_load sid from_version store =
     filter (\<lambda>e. from_version < se_version e) (dict_get_or store sid [])"

definition stream_version :: "string \<Rightarrow> InMemoryEventStore \<Rightarrow> nat" where
  "stream_version sid store = length (dict_get_or store sid [])"

definition all_events :: "string option \<Rightarrow> InMemoryEventStore \<Rightarrow> StoredEvent list" where
  "all_events sid store =
     (case sid of Some i \<Rightarrow> dict_get_or store i [] | None \<Rightarrow> concat (dict_values store))"

record SnapshotRecord =
  sn_stream_id :: string
  sn_version :: int
  sn_state_bytes :: string

definition InMemorySnapshotStore_take ::
  "string \<Rightarrow> int \<Rightarrow> string \<Rightarrow> (string, SnapshotRecord) pydict \<Rightarrow> (string, SnapshotRecord) pydict" where
  "InMemorySnapshotStore_take sid v bytes store =
     dict_set sid \<lparr>sn_stream_id = sid, sn_version = v, sn_state_bytes = bytes\<rparr> store"

definition InMemorySnapshotStore_latest ::
  "string \<Rightarrow> (string, SnapshotRecord) pydict \<Rightarrow> SnapshotRecord option" where
  "InMemorySnapshotStore_latest sid store = map_of store sid"

subsection \<open>Aggregates, repository, projectors\<close>

definition stream_id_for :: "string \<Rightarrow> string \<Rightarrow> string" where
  "stream_id_for stream_prefix agg_id = stream_prefix @ ''-'' @ agg_id"

text \<open>\<^verbatim>\<open>save\<close> numbers the pending events from the version before them.\<close>

fun number_events ::
  "(DomainEvent \<Rightarrow> string) \<Rightarrow> (DomainEvent \<Rightarrow> (string \<times> pyval) list) \<Rightarrow> string \<Rightarrow> int \<Rightarrow> DomainEvent list
    \<Rightarrow> StoredEvent list" where
  "number_events serialise metadata sid prior [] = []"
| "number_events serialise metadata sid prior (de # des) =
     \<lparr>se_stream_id = sid, se_version = prior + 1, se_event_type = ev_event_type de,
      se_payload = serialise de, se_metadata = metadata de, se_occurred_at = ev_occurred_at de\<rparr>
     # number_events serialise metadata sid (prior + 1) des"

definition repo_save ::
  "(string \<Rightarrow> StoredEvent list \<Rightarrow> int \<Rightarrow> ('w, unit) act) \<Rightarrow> (DomainEvent \<Rightarrow> string)
    \<Rightarrow> (DomainEvent \<Rightarrow> (string \<times> pyval) list) \<Rightarrow> string \<Rightarrow> 's Aggregate \<Rightarrow> 'w
    \<Rightarrow> (exn + unit) \<times> 's Aggregate \<times> 'w" where
  "repo_save es_append serialise metadata stream_prefix agg w =
     (case pull_events agg of
        (domain_events, agg') \<Rightarrow>
          if domain_events = [] then (Inr (), agg', w)
          else let sid = stream_id_for stream_prefix (ag_id agg);
                   prior = ag_version agg - int (length domain_events);
                   stored = number_events serialise metadata sid prior domain_events
               in case es_append sid stored prior w of (r, w') \<Rightarrow> (r, agg', w'))"

definition apply_events :: "(StoredEvent \<Rightarrow> 's \<Rightarrow> 's) \<Rightarrow> StoredEvent list \<Rightarrow> 's Aggregate \<Rightarrow> 's Aggregate" where
  "apply_events apply events agg =
     fold (\<lambda>e a. a\<lparr>ag_state := apply e (ag_state a), ag_version := se_version e\<rparr>) events agg"

definition repo_load ::
  "(string \<Rightarrow> int \<Rightarrow> 'w \<Rightarrow> StoredEvent list) \<Rightarrow> (StoredEvent \<Rightarrow> 's \<Rightarrow> 's) \<Rightarrow> (string \<Rightarrow> 's Aggregate)
    \<Rightarrow> string \<Rightarrow> string \<Rightarrow> 'w \<Rightarrow> 's Aggregate option" where
  "repo_load load apply create_empty stream_prefix agg_id w =
     (let events = load (stream_id_for stream_prefix agg_id) 0 w
      in if events = [] then None else Some (apply_events apply events (create_empty agg_id)))"

fun project_all :: "(StoredEvent \<Rightarrow> ('w, unit) act) \<Rightarrow> StoredEvent list \<Rightarrow> ('w, unit) act" where
  "project_all project [] w = (Inr (), w)"
| "project_all project (e # es) w =
     (case project e w of (Inl ex, w') \<Rightarrow> (Inl ex, w') | (Inr _, w') \<Rightarrow> project_all project es w')"

subsection \<open>Contiguous streams\<close>

text \<open>The events of a stream carry the stream's id and the versions 1, 2, 3 and so on.\<close>

definition stream_ok :: "string \<Rightarrow> StoredEvent list \<Rightarrow> bool" where
  "stream_ok sid es \<longleftrightarrow>
     (\<forall>i < length es. se_version (es ! i) = int i + 1 \<and> se_stream_id (es ! i) = sid)"

lemma number_events_nth:
  "i < length des \<Longrightarrow> se_version (number_events ser md sid prior des ! i) = prior + int i + 1
     \<and> se_stream_id (number_events ser md sid prior des ! i) = sid"
  by (induction des arbitrary: prior i) (auto simp: nth_Cons split: nat.splits)

lemma length_number_events [simp]: "length (number_events ser md sid prior des) = length des"
  by (induction des arbitrary: prior) simp_all

lemma number_events_eq_Nil [simp]: "number_events ser md sid prior des = [] \<longleftrightarrow> des = []"
  by (cases des) simp_all

lemma stream_ok_Nil [simp]: "stream_ok sid []"
  by (simp add: stream_ok_def)

lemma stream_ok_append:
  "stream_ok sid es \<Longrightarrow> prior = int (length es) \<Longrightarrow> stream_ok sid (es @ number_events ser md sid prior des)"
  by (auto simp: stream_ok_def nth_append number_events_nth)

lemma stream_ok_filter: "stream_ok sid es \<Longrightarrow> filter (\<lambda>e. 0 < se_version e) es = es"
  by (auto simp: stream_ok_def filter_id_conv in_set_conv_nth)

lemma stream_ok_last: "stream_ok sid es \<Longrightarrow> es \<noteq> [] \<Longrightarrow> se_version (last es) = int (length es)"
  by (auto simp: stream_ok_def last_conv_nth of_nat_diff Suc_le_eq)

lemma apply_events_eq:
  "apply_events ap es a = a\<lparr>ag_state := fold ap es (ag_state a),
     ag_version := (if es = [] then ag_version a else se_version (last es))\<rparr>"
proof (induction es arbitrary: a)
  case (Cons e es)
  have "apply_events ap (e # es) a =
      apply_events ap es (a\<lparr>ag_state := ap e (ag_state a), ag_version := se_version e\<rparr>)"
    by (simp add: apply_events_def)
  then show ?case by (simp add: Cons.IH)
qed (simp add: apply_events_def)

lemma repo_save_append:
  "repo_save es_append ser md pre agg w = (r, agg', w') \<Longrightarrow> ag_events agg \<noteq> [] \<Longrightarrow>
     es_append (stream_id_for pre (ag_id agg))
       (number_events ser md (stream_id_for pre (ag_id agg)) (ag_version agg - int (length (ag_events agg))) (ag_events agg))
       (ag_version agg - int (length (ag_events agg))) w = (r, w')"
  by (auto simp: repo_save_def pull_events_def Let_def split: prod.splits)

subsection \<open>The event-store port\<close>

definition streams_ok :: "(string \<Rightarrow> 'w \<Rightarrow> StoredEvent list) \<Rightarrow> 'w \<Rightarrow> bool" where
  "streams_ok content w \<longleftrightarrow> (\<forall>sid. stream_ok sid (content sid w))"

locale event_store =
  fixes es_append :: "string \<Rightarrow> StoredEvent list \<Rightarrow> int \<Rightarrow> ('w, unit) act"
    and load :: "string \<Rightarrow> int \<Rightarrow> 'w \<Rightarrow> StoredEvent list"
    and content :: "string \<Rightarrow> 'w \<Rightarrow> StoredEvent list"
  assumes load_content: "streams_ok content w \<Longrightarrow> load sid v w = filter (\<lambda>e. v < se_version e) (content sid w)"
    and append_ok: "streams_ok content w \<Longrightarrow> stream_ok sid (content sid w @ es) \<Longrightarrow> es \<noteq> [] \<Longrightarrow>
      int (length (content sid w)) = expected \<Longrightarrow> es_append sid es expected w = (r, w') \<Longrightarrow>
      r = Inr () \<and> content sid w' = content sid w @ es \<and> (\<forall>t. t \<noteq> sid \<longrightarrow> content t w' = content t w)"
    and append_conflict: "es \<noteq> [] \<Longrightarrow> int (length (content sid w)) \<noteq> expected \<Longrightarrow>
      es_append sid es expected w = (r, w') \<Longrightarrow>
      r = Inl (OptimisticConcurrencyError_init sid expected (int (length (content sid w))))
      \<and> (\<forall>t. content t w' = content t w)"
begin

lemma save_cases:
  assumes "repo_save es_append ser md pre agg w = (r, agg', w')" and "streams_ok content w"
  defines "sid \<equiv> stream_id_for pre (ag_id agg)" and "n \<equiv> int (length (ag_events agg))"
  shows "agg' = agg\<lparr>ag_events := []\<rparr>
    \<and> (ag_events agg = [] \<and> r = Inr () \<and> w' = w
       \<or> ag_events agg \<noteq> [] \<and> int (length (content sid w)) = ag_version agg - n \<and> r = Inr ()
         \<and> content sid w' = content sid w @ number_events ser md sid (ag_version agg - n) (ag_events agg)
         \<and> (\<forall>t. t \<noteq> sid \<longrightarrow> content t w' = content t w)
       \<or> ag_events agg \<noteq> [] \<and> int (length (content sid w)) \<noteq> ag_version agg - n
         \<and> r = Inl (OptimisticConcurrencyError_init sid (ag_version agg - n) (int (length (content sid w))))
         \<and> (\<forall>t. content t w' = content t w))"
proof (cases "ag_events agg = []")
  case True
  with assms(1) show ?thesis by (auto simp: repo_save_def pull_events_def)
next
  case False
  let ?new = "number_events ser md sid (ag_version agg - n) (ag_events agg)"
  have app: "es_append sid ?new (ag_version agg - n) w = (r, w')"
    using repo_save_append[OF assms(1) False] by (simp add: sid_def n_def)
  have "agg' = agg\<lparr>ag_events := []\<rparr>"
    using assms(1) False by (auto simp: repo_save_def pull_events_def Let_def split: prod.splits)
  moreover have ne: "?new \<noteq> []" using False by simp
  moreover have "stream_ok sid (content sid w)" using assms(2) by (simp add: streams_ok_def)
  ultimately show ?thesis
    using False append_ok[OF assms(2) stream_ok_append ne _ app] append_conflict[OF ne _ app] by metis
qed

lemma save_streams_ok:
  assumes "repo_save es_append ser md pre agg w = (r, agg', w')" and "streams_ok content w"
  shows "streams_ok content w'"
proof -
  define sid where "sid = stream_id_for pre (ag_id agg)"
  show ?thesis
    using save_cases[OF assms] assms(2)
    unfolding streams_ok_def sid_def[symmetric]
    by (metis stream_ok_append)
qed

lemma save_then_load:
  assumes "repo_save es_append ser md pre agg w = (Inr (), agg', w')" and "streams_ok content w"
    and "ag_events agg \<noteq> []" and "ag_events (create (ag_id agg)) = []"
  defines "sid \<equiv> stream_id_for pre (ag_id agg)"
  shows "repo_load load apply create pre (ag_id agg) w' =
    Some ((create (ag_id agg))\<lparr>ag_version := ag_version agg,
      ag_state := fold apply (content sid w @ number_events ser md sid
        (ag_version agg - int (length (ag_events agg))) (ag_events agg)) (ag_state (create (ag_id agg)))\<rparr>)"
proof -
  let ?n = "int (length (ag_events agg))"
  let ?new = "number_events ser md sid (ag_version agg - ?n) (ag_events agg)"
  have len: "int (length (content sid w)) = ag_version agg - ?n" and w': "content sid w' = content sid w @ ?new"
    using save_cases[OF assms(1,2)] assms(3) by (auto simp: sid_def)
  have ok: "stream_ok sid (content sid w')"
    using save_streams_ok[OF assms(1,2)] by (simp add: streams_ok_def)
  have ne: "content sid w' \<noteq> []" and ver: "se_version (last (content sid w')) = ag_version agg"
    using stream_ok_last[OF ok] w' len assms(3) by auto
  have "load sid 0 w' = content sid w'"
    using stream_ok_filter[OF ok] load_content[OF save_streams_ok[OF assms(1,2)]] by simp
  then show ?thesis
    using ne ver w' assms(3) by (simp add: repo_load_def sid_def[symmetric] Let_def apply_events_eq)
qed

text \<open>A loaded aggregate is at the version of its stream.\<close>

lemma load_version:
  assumes "streams_ok content w" and "repo_load load apply create pre i w = Some agg"
    and "ag_events (create i) = []" and "ag_id (create i) = i"
  shows "ag_version agg = int (length (content (stream_id_for pre i) w)) \<and> ag_events agg = [] \<and> ag_id agg = i"
proof -
  let ?es = "content (stream_id_for pre i) w"
  have ok: "stream_ok (stream_id_for pre i) ?es" using assms(1) by (simp add: streams_ok_def)
  then have "?es \<noteq> []" "agg = apply_events apply ?es (create i)"
    using assms(2) stream_ok_filter load_content[OF assms(1)] by (auto simp: repo_load_def Let_def split: if_splits)
  then show ?thesis using assms(3,4) stream_ok_last[OF ok] by (simp add: apply_events_eq)
qed

text \<open>Two sessions on the same version: the second save is refused and changes no stream.\<close>

lemma save_conflict:
  assumes "repo_save es_append ser md pre a w = (Inr (), a', w1)" and "ag_events a \<noteq> []"
    and "repo_save es_append ser md pre b w1 = (r, b', w2)" and "ag_events b \<noteq> []"
    and "ag_id b = ag_id a"
    and "ag_version b - int (length (ag_events b)) = ag_version a - int (length (ag_events a))"
    and "streams_ok content w"
  shows "r = Inl (OptimisticConcurrencyError_init (stream_id_for pre (ag_id a))
      (ag_version a - int (length (ag_events a))) (ag_version a)) \<and> (\<forall>t. content t w2 = content t w1)"
proof -
  let ?sid = "stream_id_for pre (ag_id a)"
  have "content ?sid w1 = content ?sid w @ number_events ser md ?sid (ag_version a - int (length (ag_events a))) (ag_events a)"
    "int (length (content ?sid w)) = ag_version a - int (length (ag_events a))"
    using save_cases[OF assms(1,7)] assms(2) by auto
  then have len: "int (length (content ?sid w1)) = ag_version a" by simp
  with save_cases[OF assms(3) save_streams_ok[OF assms(1,7)]] assms(2,4,5,6) show ?thesis by auto
qed

end

text \<open>The in-memory store is an event store; its content of a stream is the list under the key.\<close>

definition stream_content :: "string \<Rightarrow> InMemoryEventStore \<Rightarrow> StoredEvent list" where
  "stream_content sid store = dict_get_or store sid []"

lemma mem_append_cases:
  "InMemoryEventStore_append sid es expected store = (r, store') \<Longrightarrow>
     if int (length (stream_content sid store)) = expected
     then r = Inr () \<and> stream_content sid store' = stream_content sid store @ es
       \<and> (\<forall>t. t \<noteq> sid \<longrightarrow> stream_content t store' = stream_content t store)
     else r = Inl (OptimisticConcurrencyError_init sid expected (int (length (stream_content sid store))))
       \<and> (\<forall>t. stream_content t store' = stream_content t store)"
  by (auto simp: InMemoryEventStore_append_def stream_content_def dict_get_or_def Let_def split: if_splits option.splits)

interpretation mem_store: event_store InMemoryEventStore_append InMemoryEventStore_load stream_content
  by unfold_locales
     (auto simp: InMemoryEventStore_load_def stream_content_def dest!: mem_append_cases split: if_splits)

text \<open>Any number of saves, by any sessions, in any order; refused ones included.\<close>

fun save_all ::
  "(DomainEvent \<Rightarrow> string) \<Rightarrow> (DomainEvent \<Rightarrow> (string \<times> pyval) list) \<Rightarrow> (string \<times> 's Aggregate) list
    \<Rightarrow> InMemoryEventStore \<Rightarrow> InMemoryEventStore" where
  "save_all ser md [] store = store"
| "save_all ser md ((pre, agg) # rest) store =
     save_all ser md rest (snd (snd (repo_save InMemoryEventStore_append ser md pre agg store)))"

lemma streams_ok_empty [simp]: "streams_ok stream_content []"
  by (simp add: streams_ok_def stream_content_def dict_get_or_def)

lemma save_all_ok: "streams_ok stream_content store \<Longrightarrow> streams_ok stream_content (save_all ser md saves store)"
proof (induction saves arbitrary: store)
  case (Cons s saves)
  obtain pre agg where s: "s = (pre, agg)" by force
  obtain r agg' store' where "repo_save InMemoryEventStore_append ser md pre agg store = (r, agg', store')"
    by (metis prod.collapse)
  with Cons s mem_store.save_streams_ok show ?case by fastforce
qed simp

text \<open>An aggregate and an event for the examples.\<close>

definition demo_event :: DomainEvent where
  "demo_event = \<lparr>ev_id = ''e1'', ev_occurred_at = 0, ev_event_type = ''Placed'', ev_fields = []\<rparr>"

definition demo_agg :: "int Aggregate" where
  "demo_agg = raise_event demo_event (AggregateRoot_init ''Order'' ''7'' 0)"

definition demo_apply :: "StoredEvent \<Rightarrow> int \<Rightarrow> int" where
  "demo_apply e st = st + se_version e"

definition demo_stored :: StoredEvent where
  "demo_stored = \<lparr>se_stream_id = ''Order-7'', se_version = 1, se_event_type = ''Placed'', se_payload = ''x'',
     se_metadata = [], se_occurred_at = 0\<rparr>"

lemmas demo_defs = demo_event_def demo_agg_def demo_apply_def raise_event_def AggregateRoot_init_def

subsection \<open>Properties\<close>

text \<open>C11. Optimistic concurrency keeps streams contiguous: after any sequence of repository saves by
  any sessions, successful or refused, into a fresh store, the events of every stream carry the
  stream's id and exactly the versions one to the stream's length.\<close>

theorem event_streams_contiguous:
  "stream_ok sid (stream_content sid (save_all ser md saves []))"
  using save_all_ok[OF streams_ok_empty] unfolding streams_ok_def by blast





text \<open>A refused save loses the pending events: \<^verbatim>\<open>save\<close> takes them out of the aggregate before the
  store is asked, so saving the same aggregate again reports success and stores nothing.\<close>

theorem event_save_retry_loses_events:
  assumes "repo_save InMemoryEventStore_append ser md pre agg store = (Inl e, agg', store')"
  shows "repo_save InMemoryEventStore_append ser md pre agg' store' = (Inr (), agg', store')
    \<and> ag_events agg \<noteq> [] \<and> ag_events agg' = []"
  using assms by (auto simp: repo_save_def pull_events_def Let_def split: if_splits prod.splits)

theorem event_save_retry_loses_events_witness:
  "fst (repo_save InMemoryEventStore_append (\<lambda>_. ''x'') (\<lambda>_. []) ''Order'' (demo_agg\<lparr>ag_events := []\<rparr>)
      (snd (snd (repo_save InMemoryEventStore_append (\<lambda>_. ''x'') (\<lambda>_. []) ''Order''
        (raise_event demo_event (AggregateRoot_init ''Order'' ''7'' (0::int))) [(''Order-7'', [demo_stored])])))) = Inr ()"
proof -
  obtain e agg' store' where run: "repo_save InMemoryEventStore_append (\<lambda>_. ''x'') (\<lambda>_. []) ''Order''
        (raise_event demo_event (AggregateRoot_init ''Order'' ''7'' (0::int))) [(''Order-7'', [demo_stored])]
      = (Inl e, agg', store')"
    by (simp add: repo_save_def pull_events_def demo_defs InMemoryEventStore_append_def dict_get_or_def Let_def
        stream_id_for_def)
  moreover have "agg' = demo_agg\<lparr>ag_events := []\<rparr>"
    using run by (simp add: repo_save_def pull_events_def demo_defs Let_def split: prod.splits)
  ultimately show ?thesis using event_save_retry_loses_events[OF run] by simp
qed

end
