(* ===== verification/Workflow.thy ===== *)
theory Workflow
  imports Errors
begin

text \<open>
  The workflow engine (\<^verbatim>\<open>application/workflow\<close>): definitions, instances, \<^verbatim>\<open>start\<close> and \<^verbatim>\<open>trigger\<close> with guards,
  actions and enter/exit callbacks. Callbacks act on the world \<open>'w\<close>, the instance store on \<open>'s\<close>. The
  instance a store returns is mutated in place before \<^verbatim>\<open>save\<close> is called; \<open>share\<close> is the effect of that on
  the store (the in-memory store hands out the stored object itself). Identifiers and timestamps of
  history entries are left out; the id of a new instance is an argument.
\<close>

record ('c, 'w) WorkflowState =
  ws_name :: string
  ws_is_initial :: bool
  ws_is_terminal :: bool
  ws_on_enter :: "(string \<Rightarrow> 'c \<Rightarrow> ('w, unit) act) option"
  ws_on_exit :: "(string \<Rightarrow> 'c \<Rightarrow> ('w, unit) act) option"

record ('c, 'w) WorkflowTransition =
  wt_from_state :: string
  wt_to_state :: string
  wt_trigger :: string
  wt_guard :: "('c \<Rightarrow> ('w, bool) act) option"
  wt_action :: "('c \<Rightarrow> ('w, unit) act) option"

record 'c TransitionRecord =
  tr_from_state :: string
  tr_to_state :: string
  tr_trigger :: string
  tr_context :: 'c

record 'c WorkflowInstance =
  wi_id :: string
  wi_workflow_name :: string
  wi_current_state :: string
  wi_history :: "'c TransitionRecord list"
  wi_context :: 'c

record ('c, 'w) WorkflowDefinition =
  wd_name :: string
  wd_states :: "(string, ('c, 'w) WorkflowState) pydict"
  wd_transitions :: "('c, 'w) WorkflowTransition list"

type_synonym ('c, 'w) engine = "(string, ('c, 'w) WorkflowDefinition) pydict"

definition InvalidTransitionError_init :: "string \<Rightarrow> string \<Rightarrow> exn" where
  "InvalidTransitionError_init from_state trigger =
     with_attr ''trigger'' (PStr trigger) (with_attr ''from_state'' (PStr from_state)
       (plain_exn InvalidTransitionError
         (''No transition from '' @ quoted from_state @ '' on trigger '' @ quoted trigger)))"

text \<open>The first state marked initial, in the order of the dictionary.\<close>

definition initial_state :: "('c, 'w) WorkflowDefinition \<Rightarrow> exn + ('c, 'w) WorkflowState" where
  "initial_state d =
     (case filter ws_is_initial (dict_values (wd_states d)) of
        [] \<Rightarrow> Inl (plain_exn ValueError (''No initial state defined in workflow '' @ quoted (wd_name d)))
      | s # _ \<Rightarrow> Inr s)"

definition states_dict :: "('c, 'w) WorkflowState list \<Rightarrow> (string, ('c, 'w) WorkflowState) pydict" where
  "states_dict states = fold (\<lambda>s d. dict_set (ws_name s) s d) states []"

definition WorkflowEngine_define ::
  "string \<Rightarrow> ('c, 'w) WorkflowState list \<Rightarrow> ('c, 'w) WorkflowTransition list \<Rightarrow> ('c, 'w) engine
    \<Rightarrow> ('c, 'w) WorkflowDefinition \<times> ('c, 'w) engine" where
  "WorkflowEngine_define name states transitions engine =
     (let d = \<lparr>wd_name = name, wd_states = states_dict states, wd_transitions = transitions\<rparr>
      in (d, dict_set name d engine))"

text \<open>Optional callbacks.\<close>

definition run_callback :: "(string \<Rightarrow> 'c \<Rightarrow> ('w, unit) act) option \<Rightarrow> string \<Rightarrow> 'c \<Rightarrow> ('w, unit) act" where
  "run_callback cb i ctx w = (case cb of None \<Rightarrow> (Inr (), w) | Some f \<Rightarrow> f i ctx w)"

definition run_action :: "('c \<Rightarrow> ('w, unit) act) option \<Rightarrow> 'c \<Rightarrow> ('w, unit) act" where
  "run_action a ctx w = (case a of None \<Rightarrow> (Inr (), w) | Some f \<Rightarrow> f ctx w)"

definition WorkflowEngine_start ::
  "('c WorkflowInstance \<Rightarrow> 's \<Rightarrow> 's) \<Rightarrow> ('c, 'w) engine \<Rightarrow> string \<Rightarrow> string \<Rightarrow> 'c \<Rightarrow> 's \<times> 'w
    \<Rightarrow> (exn + 'c WorkflowInstance) \<times> 's \<times> 'w" where
  "WorkflowEngine_start save engine new_id name ctx sw =
     (case sw of (s, w) \<Rightarrow>
        (case map_of engine name of
           None \<Rightarrow> (Inl (plain_exn KeyError name), s, w)
         | Some d \<Rightarrow>
             (case initial_state d of
                Inl e \<Rightarrow> (Inl e, s, w)
              | Inr initial \<Rightarrow>
                  let inst = \<lparr>wi_id = new_id, wi_workflow_name = name, wi_current_state = ws_name initial,
                              wi_history = [], wi_context = ctx\<rparr>
                  in case run_callback (ws_on_enter initial) new_id ctx w of
                       (Inl e, w') \<Rightarrow> (Inl e, s, w')
                     | (Inr _, w') \<Rightarrow> (Inr inst, save inst s, w'))))"

text \<open>The loop over the transitions: the first one from the current state on this trigger whose guard
  is absent or true. Guards are evaluated only for matching transitions, and not after the first hit.\<close>

fun find_transition ::
  "string \<Rightarrow> string \<Rightarrow> 'c \<Rightarrow> ('c, 'w) WorkflowTransition list
    \<Rightarrow> ('w, ('c, 'w) WorkflowTransition option) act" where
  "find_transition cur event ctx [] w = (Inr None, w)"
| "find_transition cur event ctx (t # ts) w =
     (if wt_from_state t = cur \<and> wt_trigger t = event then
        (case wt_guard t of
           None \<Rightarrow> (Inr (Some t), w)
         | Some g \<Rightarrow>
             (case g ctx w of
                (Inl e, w') \<Rightarrow> (Inl e, w')
              | (Inr ok, w') \<Rightarrow> if ok then (Inr (Some t), w') else find_transition cur event ctx ts w'))
      else find_transition cur event ctx ts w)"

text \<open>The part of \<^verbatim>\<open>trigger\<close> after a transition was found; the instance moves before \<^verbatim>\<open>on_enter\<close> runs.\<close>

definition advance ::
  "('c WorkflowInstance \<Rightarrow> 's \<Rightarrow> 's) \<Rightarrow> ('c WorkflowInstance \<Rightarrow> 's \<Rightarrow> 's) \<Rightarrow> ('c, 'w) WorkflowDefinition
    \<Rightarrow> ('c, 'w) WorkflowState \<Rightarrow> ('c, 'w) WorkflowTransition \<Rightarrow> string \<Rightarrow> 'c \<Rightarrow> 'c WorkflowInstance
    \<Rightarrow> 's \<times> 'w \<Rightarrow> (exn + 'c WorkflowInstance) \<times> 's \<times> 'w" where
  "advance save share d cur_obj t event ctx inst sw =
     (case sw of (s, w) \<Rightarrow>
        (case run_callback (ws_on_exit cur_obj) (wi_id inst) ctx w of
           (Inl e, w1) \<Rightarrow> (Inl e, s, w1)
         | (Inr _, w1) \<Rightarrow>
             (case run_action (wt_action t) ctx w1 of
                (Inl e, w2) \<Rightarrow> (Inl e, s, w2)
              | (Inr _, w2) \<Rightarrow>
                  let record = \<lparr>tr_from_state = wt_from_state t, tr_to_state = wt_to_state t,
                                tr_trigger = event, tr_context = ctx\<rparr>;
                      inst' = inst\<lparr>wi_history := wi_history inst @ [record],
                                   wi_current_state := wt_to_state t\<rparr>;
                      s' = share inst' s
                  in case map_of (wd_states d) (wt_to_state t) of
                       None \<Rightarrow> (Inl (plain_exn KeyError (wt_to_state t)), s', w2)
                     | Some new_obj \<Rightarrow>
                         (case run_callback (ws_on_enter new_obj) (wi_id inst) ctx w2 of
                            (Inl e, w3) \<Rightarrow> (Inl e, s', w3)
                          | (Inr _, w3) \<Rightarrow> (Inr inst', save inst' s', w3)))))"

definition WorkflowEngine_trigger ::
  "(string \<Rightarrow> 's \<Rightarrow> 'c WorkflowInstance option) \<Rightarrow> ('c WorkflowInstance \<Rightarrow> 's \<Rightarrow> 's)
    \<Rightarrow> ('c WorkflowInstance \<Rightarrow> 's \<Rightarrow> 's) \<Rightarrow> ('c, 'w) engine \<Rightarrow> string \<Rightarrow> string \<Rightarrow> 'c \<Rightarrow> 's \<times> 'w
    \<Rightarrow> (exn + 'c WorkflowInstance) \<times> 's \<times> 'w" where
  "WorkflowEngine_trigger load save share engine i event ctx sw =
     (case sw of (s, w) \<Rightarrow>
        (case load i s of
           None \<Rightarrow> (Inl (plain_exn KeyError (''Workflow instance '' @ quoted i @ '' not found'')), s, w)
         | Some inst \<Rightarrow>
             (case map_of engine (wi_workflow_name inst) of
                None \<Rightarrow> (Inl (plain_exn KeyError (wi_workflow_name inst)), s, w)
              | Some d \<Rightarrow>
                  (case map_of (wd_states d) (wi_current_state inst) of
                     None \<Rightarrow> (Inl (plain_exn KeyError (wi_current_state inst)), s, w)
                   | Some cur_obj \<Rightarrow>
                       (case find_transition (wi_current_state inst) event ctx (wd_transitions d) w of
                          (Inl e, w') \<Rightarrow> (Inl e, s, w')
                        | (Inr None, w') \<Rightarrow>
                            (Inl (InvalidTransitionError_init (wi_current_state inst) event), s, w')
                        | (Inr (Some t), w') \<Rightarrow> advance save share d cur_obj t event ctx inst (s, w'))))))"

subsection \<open>The in-memory instance store\<close>

type_synonym 'c InMemoryWorkflowInstanceStore = "(string, 'c WorkflowInstance) pydict"

definition InMemoryWorkflowInstanceStore_save ::
  "'c WorkflowInstance \<Rightarrow> 'c InMemoryWorkflowInstanceStore \<Rightarrow> 'c InMemoryWorkflowInstanceStore" where
  "InMemoryWorkflowInstanceStore_save inst s = dict_set (wi_id inst) inst s"

definition InMemoryWorkflowInstanceStore_load ::
  "string \<Rightarrow> 'c InMemoryWorkflowInstanceStore \<Rightarrow> 'c WorkflowInstance option" where
  "InMemoryWorkflowInstanceStore_load i s = map_of s i"

text \<open>Mutating the loaded instance mutates the stored one: it is the same object.\<close>

definition InMemoryWorkflowInstanceStore_share ::
  "'c WorkflowInstance \<Rightarrow> 'c InMemoryWorkflowInstanceStore \<Rightarrow> 'c InMemoryWorkflowInstanceStore" where
  "InMemoryWorkflowInstanceStore_share inst s = dict_set (wi_id inst) inst s"

subsection \<open>Paths\<close>

text \<open>\<open>history_path d a h b\<close>: the history \<open>h\<close> leads from state \<open>a\<close> to state \<open>b\<close> along declared transitions.\<close>

fun history_path ::
  "('c, 'w) WorkflowDefinition \<Rightarrow> string \<Rightarrow> 'c TransitionRecord list \<Rightarrow> string \<Rightarrow> bool" where
  "history_path d a [] b \<longleftrightarrow> a = b"
| "history_path d a (r # rs) b \<longleftrightarrow>
     tr_from_state r = a
     \<and> (\<exists>t \<in> set (wd_transitions d). wt_from_state t = a \<and> wt_to_state t = tr_to_state r
          \<and> wt_trigger t = tr_trigger r)
     \<and> history_path d (tr_to_state r) rs b"

lemma history_path_snoc:
  "history_path d a h b \<Longrightarrow> tr_from_state r = b \<Longrightarrow> t \<in> set (wd_transitions d) \<Longrightarrow>
   wt_from_state t = b \<Longrightarrow> wt_to_state t = tr_to_state r \<Longrightarrow> wt_trigger t = tr_trigger r \<Longrightarrow>
   history_path d a (h @ [r]) (tr_to_state r)"
  by (induction h arbitrary: a) auto

text \<open>A stored instance is sound: its workflow is defined and its history is a path from the initial
  state to its current state.\<close>

definition inst_ok :: "('c, 'w) engine \<Rightarrow> 'c WorkflowInstance \<Rightarrow> bool" where
  "inst_ok engine inst \<longleftrightarrow>
     (\<exists>d initial. map_of engine (wi_workflow_name inst) = Some d \<and> initial_state d = Inr initial
        \<and> history_path d (ws_name initial) (wi_history inst) (wi_current_state inst))"

lemma find_transition_sound:
  "find_transition cur event ctx ts w = (Inr (Some t), w') \<Longrightarrow>
   t \<in> set ts \<and> wt_from_state t = cur \<and> wt_trigger t = event"
  by (induction ts arbitrary: w)
     (auto split: if_splits option.splits prod.splits sum.splits)

lemma advance_cases:
  assumes "advance save share d cur t event ctx inst (s, w) = (r, s', w')"
  defines "inst' \<equiv> inst\<lparr>wi_history := wi_history inst @
      [\<lparr>tr_from_state = wt_from_state t, tr_to_state = wt_to_state t, tr_trigger = event, tr_context = ctx\<rparr>],
      wi_current_state := wt_to_state t\<rparr>"
  shows "s' = s \<and> isl r \<or> s' = share inst' s \<and> isl r \<or> s' = save inst' (share inst' s) \<and> r = Inr inst'"
  using assms(1) unfolding advance_def inst'_def
  by (auto simp: Let_def split: prod.splits sum.splits option.splits)

lemma inst_ok_advance:
  assumes "inst_ok engine inst" and "map_of engine (wi_workflow_name inst) = Some d"
    and "t \<in> set (wd_transitions d)" and "wt_from_state t = wi_current_state inst" and "wt_trigger t = event"
  shows "inst_ok engine (inst\<lparr>wi_history := wi_history inst @
      [\<lparr>tr_from_state = wt_from_state t, tr_to_state = wt_to_state t, tr_trigger = event, tr_context = ctx\<rparr>],
      wi_current_state := wt_to_state t\<rparr>)"
proof -
  let ?r = "\<lparr>tr_from_state = wt_from_state t, tr_to_state = wt_to_state t, tr_trigger = event, tr_context = ctx\<rparr>"
  obtain initial where "initial_state d = Inr initial"
    "history_path d (ws_name initial) (wi_history inst) (wi_current_state inst)"
    using assms(1,2) by (auto simp: inst_ok_def)
  moreover from this have "history_path d (ws_name initial) (wi_history inst @ [?r]) (tr_to_state ?r)"
    using assms(3-5) by (intro history_path_snoc[where t = t]) auto
  ultimately show ?thesis using assms(2) by (simp add: inst_ok_def)
qed

subsection \<open>The instance-store port\<close>

locale workflow_store =
  fixes load :: "string \<Rightarrow> 's \<Rightarrow> 'c WorkflowInstance option"
    and save :: "'c WorkflowInstance \<Rightarrow> 's \<Rightarrow> 's"
    and share :: "'c WorkflowInstance \<Rightarrow> 's \<Rightarrow> 's"
  assumes load_save: "load i (save inst s) = (if i = wi_id inst then Some inst else load i s)"
    and load_share: "load i (share inst s) = load i s \<or> load i (share inst s) = Some inst \<and> i = wi_id inst"
begin

lemma start_ok:
  assumes "\<forall>i inst. load i s = Some inst \<longrightarrow> inst_ok engine inst"
    and "WorkflowEngine_start save engine new_id name ctx (s, w) = (r, s', w')"
  shows "\<forall>i inst. load i s' = Some inst \<longrightarrow> inst_ok engine inst"
  using assms unfolding WorkflowEngine_start_def
  by (auto simp: Let_def load_save inst_ok_def split: option.splits sum.splits prod.splits if_splits)

lemma trigger_ok:
  assumes ok: "\<forall>i inst. load i s = Some inst \<longrightarrow> inst_ok engine inst"
    and run: "WorkflowEngine_trigger load save share engine i event ctx (s, w) = (r, s', w')"
  shows "\<forall>i inst. load i s' = Some inst \<longrightarrow> inst_ok engine inst"
proof (cases "s' = s")
  case True
  with ok show ?thesis by simp
next
  case False
  then obtain inst d cur_obj t w1 where
      inst: "load i s = Some inst" and d: "map_of engine (wi_workflow_name inst) = Some d"
      and t: "find_transition (wi_current_state inst) event ctx (wd_transitions d) w = (Inr (Some t), w1)"
      and adv: "advance save share d cur_obj t event ctx inst (s, w1) = (r, s', w')"
    using run unfolding WorkflowEngine_trigger_def
    by (auto split: option.splits sum.splits prod.splits)
  define inst' where "inst' = inst\<lparr>wi_history := wi_history inst @
      [\<lparr>tr_from_state = wt_from_state t, tr_to_state = wt_to_state t, tr_trigger = event, tr_context = ctx\<rparr>],
      wi_current_state := wt_to_state t\<rparr>"
  have ok': "inst_ok engine inst'"
    using inst_ok_advance[OF _ d] find_transition_sound[OF t] ok inst unfolding inst'_def by blast
  have shared: "inst_ok engine x" if "load j (share inst' s) = Some x" for j x
    using that load_share[of j inst' s] ok ok' by auto
  have "s' = share inst' s \<or> s' = save inst' (share inst' s)"
    using advance_cases[OF adv] False unfolding inst'_def by blast
  then show ?thesis
    using shared ok' by (auto simp: load_save split: if_splits)
qed

end

interpretation mem_workflow: workflow_store InMemoryWorkflowInstanceStore_load
    InMemoryWorkflowInstanceStore_save InMemoryWorkflowInstanceStore_share
  by unfold_locales
     (auto simp: InMemoryWorkflowInstanceStore_load_def InMemoryWorkflowInstanceStore_save_def
       InMemoryWorkflowInstanceStore_share_def)

text \<open>A durable store hands out copies: mutating a loaded instance does not reach it.\<close>

interpretation copy_workflow: workflow_store InMemoryWorkflowInstanceStore_load
    InMemoryWorkflowInstanceStore_save "\<lambda>_ s. s"
  by unfold_locales
     (auto simp: InMemoryWorkflowInstanceStore_load_def InMemoryWorkflowInstanceStore_save_def)

text \<open>With guards that only look, the transition found is the first enabled one.\<close>

definition enabled :: "string \<Rightarrow> string \<Rightarrow> 'c \<Rightarrow> 'w \<Rightarrow> ('c, 'w) WorkflowTransition \<Rightarrow> bool" where
  "enabled cur event ctx w t \<longleftrightarrow>
     wt_from_state t = cur \<and> wt_trigger t = event
     \<and> (case wt_guard t of None \<Rightarrow> True | Some g \<Rightarrow> fst (g ctx w) = Inr True)"

definition pure_guards :: "('c, 'w) WorkflowTransition list \<Rightarrow> bool" where
  "pure_guards ts \<longleftrightarrow>
     (\<forall>t \<in> set ts. \<forall>g ctx w. wt_guard t = Some g \<longrightarrow> (\<exists>b. g ctx w = (Inr b, w)))"

lemma find_transition_first:
  "pure_guards ts \<Longrightarrow> find_transition cur event ctx ts w = (Inr (find (enabled cur event ctx w) ts), w)"
proof (induction ts)
  case (Cons t ts)
  then have IH: "find_transition cur event ctx ts w = (Inr (find (enabled cur event ctx w) ts), w)"
    by (simp add: pure_guards_def)
  note en = enabled_def[of cur event ctx w t]
  show ?case
  proof (cases "wt_guard t")
    case (Some g)
    then obtain b where "g ctx w = (Inr b, w)" using Cons.prems by (fastforce simp: pure_guards_def)
    with Some IH show ?thesis by (auto simp: en)
  qed (auto simp: IH en)
qed simp

text \<open>Sequences of engine calls.\<close>

datatype 'c wf_call = Start string string 'c | Trigger string string 'c

fun wf_run ::
  "('c, 'w) engine \<Rightarrow> 'c wf_call list \<Rightarrow> 'c InMemoryWorkflowInstanceStore \<times> 'w
    \<Rightarrow> 'c InMemoryWorkflowInstanceStore \<times> 'w" where
  "wf_run engine [] sw = sw"
| "wf_run engine (Start i name ctx # calls) sw =
     wf_run engine calls (snd (WorkflowEngine_start InMemoryWorkflowInstanceStore_save engine i name ctx sw))"
| "wf_run engine (Trigger i event ctx # calls) sw =
     wf_run engine calls (snd (WorkflowEngine_trigger InMemoryWorkflowInstanceStore_load
       InMemoryWorkflowInstanceStore_save InMemoryWorkflowInstanceStore_share engine i event ctx sw))"

lemma wf_run_ok:
  "\<forall>i inst. InMemoryWorkflowInstanceStore_load i (fst sw) = Some inst \<longrightarrow> inst_ok engine inst \<Longrightarrow>
   \<forall>i inst. InMemoryWorkflowInstanceStore_load i (fst (wf_run engine calls sw)) = Some inst \<longrightarrow>
     inst_ok engine inst"
proof (induction engine calls sw rule: wf_run.induct)
  case (2 engine i name ctx calls sw)
  obtain r s' w' where "WorkflowEngine_start InMemoryWorkflowInstanceStore_save engine i name ctx
      (fst sw, snd sw) = (r, s', w')" by (metis prod.collapse)
  with 2 mem_workflow.start_ok[OF "2.prems" this] show ?case by simp
next
  case (3 engine i event ctx calls sw)
  obtain r s' w' where "WorkflowEngine_trigger InMemoryWorkflowInstanceStore_load
      InMemoryWorkflowInstanceStore_save InMemoryWorkflowInstanceStore_share engine i event ctx
      (fst sw, snd sw) = (r, s', w')" by (metis prod.collapse)
  with 3 mem_workflow.trigger_ok[OF "3.prems" this] show ?case by simp
qed simp

text \<open>Workflows for the examples.\<close>

definition demo_engine :: "(unit, nat) engine" where
  "demo_engine = snd (WorkflowEngine_define ''order''
     [\<lparr>ws_name = ''new'', ws_is_initial = True, ws_is_terminal = False, ws_on_enter = None, ws_on_exit = None\<rparr>,
      \<lparr>ws_name = ''paid'', ws_is_initial = False, ws_is_terminal = True, ws_on_enter = None, ws_on_exit = None\<rparr>]
     [\<lparr>wt_from_state = ''new'', wt_to_state = ''paid'', wt_trigger = ''pay'', wt_guard = None, wt_action = None\<rparr>] [])"

lemmas wf_eval = demo_engine_def WorkflowEngine_define_def states_dict_def WorkflowEngine_start_def
  WorkflowEngine_trigger_def advance_def initial_state_def dict_values_def run_callback_def run_action_def
  InMemoryWorkflowInstanceStore_save_def InMemoryWorkflowInstanceStore_load_def
  InMemoryWorkflowInstanceStore_share_def Let_def dict_set_eval

definition demo_a :: "(unit, nat) WorkflowState" where
  "demo_a = \<lparr>ws_name = ''a'', ws_is_initial = True, ws_is_terminal = False, ws_on_enter = None, ws_on_exit = None\<rparr>"

definition demo_b :: "(unit, nat) WorkflowState" where
  "demo_b = \<lparr>ws_name = ''b'', ws_is_initial = False, ws_is_terminal = False,
     ws_on_enter = Some (\<lambda>_ _ w. (Inl (plain_exn ValueError ''boom''), w)), ws_on_exit = None\<rparr>"

definition demo_go :: "(unit, nat) WorkflowTransition" where
  "demo_go = \<lparr>wt_from_state = ''a'', wt_to_state = ''b'', wt_trigger = ''go'', wt_guard = None, wt_action = None\<rparr>"

definition demo_bad_workflow :: "(unit, nat) WorkflowDefinition" where
  "demo_bad_workflow = \<lparr>wd_name = ''x'', wd_states = [(''a'', demo_a), (''b'', demo_b)], wd_transitions = [demo_go]\<rparr>"

definition demo_instance :: "unit WorkflowInstance" where
  "demo_instance = \<lparr>wi_id = ''i'', wi_workflow_name = ''x'', wi_current_state = ''a'', wi_history = [], wi_context = ()\<rparr>"

subsection \<open>Overlapping calls\<close>

text \<open>Guards, \<^verbatim>\<open>on_exit\<close>, actions and \<^verbatim>\<open>on_enter\<close> are awaited, and meanwhile other calls, also calls made by the awaited code
  itself, run on the same instance object. A call of \<^verbatim>\<open>trigger\<close> that has been admitted is a frame: it awaits a guard (with
  the transitions that come after it), or \<^verbatim>\<open>on_exit\<close> and the action of the transition it has chosen, or \<^verbatim>\<open>on_enter\<close>. What
  the awaited code does is not restricted.\<close>

datatype ('c, 'w) wf_pc =
    Guarding "('c, 'w) WorkflowTransition" "('c, 'w) WorkflowTransition list"
  | Leaving "('c, 'w) WorkflowTransition"
  | Entering

record ('c, 'w) wf_frame =
  wf_instance_id :: string
  wf_defn :: "('c, 'w) WorkflowDefinition"
  wf_event :: string
  wf_ctx :: 'c
  wf_pc :: "('c, 'w) wf_pc"

text \<open>The loop over the transitions up to the next guard that must be awaited; \<^verbatim>\<open>instance.current_state\<close> is read in every round.\<close>

fun search_transitions :: "string \<Rightarrow> string \<Rightarrow> ('c, 'w) WorkflowTransition list \<Rightarrow> ('c, 'w) wf_pc option" where
  "search_transitions cur event [] = None"
| "search_transitions cur event (t # ts) =
     (if wt_from_state t = cur \<and> wt_trigger t = event
      then Some (case wt_guard t of None \<Rightarrow> Leaving t | Some g \<Rightarrow> Guarding t ts)
      else search_transitions cur event ts)"

definition record_transition :: "('c, 'w) WorkflowTransition \<Rightarrow> string \<Rightarrow> 'c \<Rightarrow> 'c WorkflowInstance \<Rightarrow> 'c WorkflowInstance" where
  "record_transition t event ctx inst =
     inst\<lparr>wi_history := wi_history inst @ [\<lparr>tr_from_state = wt_from_state t, tr_to_state = wt_to_state t, tr_trigger = event, tr_context = ctx\<rparr>],
          wi_current_state := wt_to_state t\<rparr>"

definition without :: "nat \<Rightarrow> 'a list \<Rightarrow> 'a list" where
  "without j xs = take j xs @ drop (Suc j) xs"

text \<open>The stored instances, the calls under way and the instances on which a call has recorded a transition from a state that the
  instance was no longer in.\<close>

type_synonym ('c, 'w) wf_system = "'c InMemoryWorkflowInstanceStore \<times> ('c, 'w) wf_frame list \<times> string set"

inductive wf_step :: "('c, 'w) engine \<Rightarrow> ('c, 'w) wf_system \<Rightarrow> ('c, 'w) wf_system \<Rightarrow> bool" for engine where
  wf_start:
    "map_of engine name = Some d \<Longrightarrow> initial_state d = Inr initial \<Longrightarrow> map_of s i = None \<Longrightarrow>
     wf_step engine (s, fs, stale)
       (InMemoryWorkflowInstanceStore_save
          \<lparr>wi_id = i, wi_workflow_name = name, wi_current_state = ws_name initial, wi_history = [], wi_context = ctx\<rparr> s, fs, stale)"
| wf_begin:
    "InMemoryWorkflowInstanceStore_load i s = Some inst \<Longrightarrow> map_of engine (wi_workflow_name inst) = Some d \<Longrightarrow>
     map_of (wd_states d) (wi_current_state inst) = Some cur \<Longrightarrow>
     search_transitions (wi_current_state inst) event (wd_transitions d) = Some pc \<Longrightarrow>
     wf_step engine (s, fs, stale)
       (s, fs @ [\<lparr>wf_instance_id = i, wf_defn = d, wf_event = event, wf_ctx = ctx, wf_pc = pc\<rparr>], stale)"
| wf_guard_true:
    "j < length fs \<Longrightarrow> wf_pc (fs ! j) = Guarding t ts \<Longrightarrow>
     wf_step engine (s, fs, stale) (s, fs[j := (fs ! j)\<lparr>wf_pc := Leaving t\<rparr>], stale)"
| wf_guard_false:
    "j < length fs \<Longrightarrow> wf_pc (fs ! j) = Guarding t ts \<Longrightarrow> map_of s (wf_instance_id (fs ! j)) = Some inst \<Longrightarrow>
     search_transitions (wi_current_state inst) (wf_event (fs ! j)) ts = Some pc \<Longrightarrow>
     wf_step engine (s, fs, stale) (s, fs[j := (fs ! j)\<lparr>wf_pc := pc\<rparr>], stale)"
| wf_commit:
    "j < length fs \<Longrightarrow> wf_pc (fs ! j) = Leaving t \<Longrightarrow> map_of s (wf_instance_id (fs ! j)) = Some inst \<Longrightarrow>
     wf_step engine (s, fs, stale)
       (dict_set (wf_instance_id (fs ! j)) (record_transition t (wf_event (fs ! j)) (wf_ctx (fs ! j)) inst) s,
        fs[j := (fs ! j)\<lparr>wf_pc := Entering\<rparr>],
        if wi_current_state inst = wt_from_state t then stale else insert (wf_instance_id (fs ! j)) stale)"
| wf_finish:
    "j < length fs \<Longrightarrow> wf_pc (fs ! j) = Entering \<Longrightarrow> wf_step engine (s, fs, stale) (s, without j fs, stale)"
| wf_raise:
    "j < length fs \<Longrightarrow> wf_step engine (s, fs, stale) (s, without j fs, stale)"

inductive wf_reach :: "('c, 'w) engine \<Rightarrow> ('c, 'w) wf_system \<Rightarrow> bool" for engine where
  wf_init: "wf_reach engine ([], [], {})"
| wf_next: "wf_reach engine st \<Longrightarrow> wf_step engine st st' \<Longrightarrow> wf_reach engine st'"

definition declared :: "('c, 'w) WorkflowDefinition \<Rightarrow> 'c TransitionRecord \<Rightarrow> bool" where
  "declared d r \<longleftrightarrow> (\<exists>t \<in> set (wd_transitions d). wt_from_state t = tr_from_state r \<and> wt_to_state t = tr_to_state r \<and> wt_trigger t = tr_trigger r)"

text \<open>What holds of every instance under overlapping calls, and what holds in addition while no call was overtaken.\<close>

definition inst_moves :: "('c, 'w) engine \<Rightarrow> bool \<Rightarrow> 'c WorkflowInstance \<Rightarrow> bool" where
  "inst_moves engine overtaken inst \<longleftrightarrow>
     (\<exists>d initial. map_of engine (wi_workflow_name inst) = Some d \<and> initial_state d = Inr initial
        \<and> list_all (declared d) (wi_history inst)
        \<and> wi_current_state inst = last (ws_name initial # map tr_to_state (wi_history inst))
        \<and> (\<not> overtaken \<longrightarrow> history_path d (ws_name initial) (wi_history inst) (wi_current_state inst)))"

text \<open>A frame holds only declared transitions on its event.\<close>

fun pc_ok :: "('c, 'w) WorkflowDefinition \<Rightarrow> string \<Rightarrow> ('c, 'w) wf_pc \<Rightarrow> bool" where
  "pc_ok d event (Guarding t ts) \<longleftrightarrow> t \<in> set (wd_transitions d) \<and> wt_trigger t = event \<and> set ts \<subseteq> set (wd_transitions d)"
| "pc_ok d event (Leaving t) \<longleftrightarrow> t \<in> set (wd_transitions d) \<and> wt_trigger t = event"
| "pc_ok d event Entering \<longleftrightarrow> True"

definition frame_ok :: "('c, 'w) engine \<Rightarrow> 'c InMemoryWorkflowInstanceStore \<Rightarrow> ('c, 'w) wf_frame \<Rightarrow> bool" where
  "frame_ok engine s f \<longleftrightarrow>
     pc_ok (wf_defn f) (wf_event f) (wf_pc f)
     \<and> (\<exists>inst. map_of s (wf_instance_id f) = Some inst \<and> map_of engine (wi_workflow_name inst) = Some (wf_defn f))"

definition wf_inv :: "('c, 'w) engine \<Rightarrow> ('c, 'w) wf_system \<Rightarrow> bool" where
  "wf_inv engine st \<longleftrightarrow>
     (case st of (s, fs, stale) \<Rightarrow>
        (\<forall>i inst. map_of s i = Some inst \<longrightarrow> inst_moves engine (i \<in> stale) inst) \<and> list_all (frame_ok engine s) fs)"

lemma dict_set_same: "dict_set k v (dict_set k v d) = dict_set k v d"
  by (induction d) (auto simp: dict_set_eval)

lemma search_transitions_ok:
  "search_transitions cur event ts = Some pc \<Longrightarrow> set ts \<subseteq> set (wd_transitions d) \<Longrightarrow> pc_ok d event pc"
  by (induction ts) (auto split: if_splits option.splits)

lemma set_without: "set (without j xs) \<subseteq> set xs"
  by (auto simp: without_def dest: in_set_takeD in_set_dropD)

lemma inst_moves_record:
  assumes "inst_moves engine b inst" "map_of engine (wi_workflow_name inst) = Some d" "pc_ok d event (Leaving t)"
  shows "inst_moves engine (b \<or> wi_current_state inst \<noteq> wt_from_state t) (record_transition t event ctx inst)"
proof -
  let ?r = "\<lparr>tr_from_state = wt_from_state t, tr_to_state = wt_to_state t, tr_trigger = event, tr_context = ctx\<rparr>"
  obtain initial where i: "initial_state d = Inr initial" "list_all (declared d) (wi_history inst)"
      "\<not> b \<longrightarrow> history_path d (ws_name initial) (wi_history inst) (wi_current_state inst)"
    using assms(1,2) by (auto simp: inst_moves_def)
  have "history_path d (ws_name initial) (wi_history inst @ [?r]) (tr_to_state ?r)"
    if "\<not> b" "wi_current_state inst = wt_from_state t"
    using that i(3) assms(3) by (intro history_path_snoc[where t = t]) auto
  moreover have "declared d ?r" using assms(3) by (auto simp: declared_def)
  ultimately show ?thesis using i(1,2) assms(2) by (auto simp: inst_moves_def record_transition_def)
qed

lemma frame_ok_store:
  assumes "frame_ok engine s f" "map_of s i = Some inst" "wi_workflow_name inst' = wi_workflow_name inst"
  shows "frame_ok engine (dict_set i inst' s) f"
  using assms by (auto simp: frame_ok_def)

lemma wf_inv_step: "wf_step engine st st' \<Longrightarrow> wf_inv engine st \<Longrightarrow> wf_inv engine st'"
proof (induction rule: wf_step.induct)
  case (wf_start name d initial s i fs stale ctx)
  then show ?case
    by (auto simp: wf_inv_def InMemoryWorkflowInstanceStore_save_def inst_moves_def frame_ok_def list_all_iff split: if_splits)
next
  case (wf_begin i s inst d cur event pc fs stale ctx)
  then show ?case
    using search_transitions_ok[OF wf_begin(4) subset_refl]
    by (auto simp: wf_inv_def frame_ok_def InMemoryWorkflowInstanceStore_load_def)
next
  case (wf_guard_true j fs t ts s stale)
  then have "frame_ok engine s (fs ! j)" by (auto simp: wf_inv_def list_all_length)
  then have "frame_ok engine s ((fs ! j)\<lparr>wf_pc := Leaving t\<rparr>)" using wf_guard_true(2) by (auto simp: frame_ok_def)
  then show ?case using wf_guard_true by (auto simp: wf_inv_def list_all_iff dest!: set_update_subset_insert[THEN subsetD])
next
  case (wf_guard_false j fs t ts s inst pc stale)
  then have "frame_ok engine s (fs ! j)" by (auto simp: wf_inv_def list_all_length)
  then have "frame_ok engine s ((fs ! j)\<lparr>wf_pc := pc\<rparr>)"
    using wf_guard_false(2) search_transitions_ok[OF wf_guard_false(4), of "wf_defn (fs ! j)"] by (auto simp: frame_ok_def)
  then show ?case using wf_guard_false by (auto simp: wf_inv_def list_all_iff dest!: set_update_subset_insert[THEN subsetD])
next
  case (wf_commit j fs t s inst stale)
  let ?f = "fs ! j" and ?inst = "record_transition t (wf_event (fs ! j)) (wf_ctx (fs ! j)) inst"
  let ?s = "dict_set (wf_instance_id ?f) ?inst s"
  have f: "frame_ok engine s ?f" using wf_commit by (auto simp: wf_inv_def list_all_length)
  then have moved: "inst_moves engine (wf_instance_id ?f \<in> stale \<or> wi_current_state inst \<noteq> wt_from_state t) ?inst"
    using wf_commit by (intro inst_moves_record[where d = "wf_defn ?f"]) (auto simp: wf_inv_def frame_ok_def)
  have kept: "frame_ok engine ?s g" if "frame_ok engine s g" for g
    using frame_ok_store[OF that wf_commit(3), of ?inst] by (simp add: record_transition_def)
  have "frame_ok engine ?s (?f\<lparr>wf_pc := Entering\<rparr>)" using kept[OF f] by (auto simp: frame_ok_def)
  then have "list_all (frame_ok engine ?s) (fs[j := ?f\<lparr>wf_pc := Entering\<rparr>])"
    using wf_commit(4) kept by (auto simp: wf_inv_def list_all_iff dest!: set_update_subset_insert[THEN subsetD])
  moreover have "inst_moves engine (i \<in> (if wi_current_state inst = wt_from_state t then stale else insert (wf_instance_id ?f) stale)) x"
    if "map_of ?s i = Some x" for i x
    using that moved wf_commit(4) by (auto simp: wf_inv_def split: if_splits)
  ultimately show ?case by (simp add: wf_inv_def)
next
  case (wf_finish j fs s stale)
  then show ?case using set_without[of j fs] by (auto simp: wf_inv_def list_all_iff)
next
  case (wf_raise j fs s stale)
  then show ?case using set_without[of j fs] by (auto simp: wf_inv_def list_all_iff)
qed

lemma wf_inv_reach: "wf_reach engine st \<Longrightarrow> wf_inv engine st"
proof (induction rule: wf_reach.induct)
  case (wf_next st st')
  then show ?case by (blast intro: wf_inv_step)
qed (simp add: wf_inv_def)

subsection \<open>Properties\<close>


definition demo_choice :: "string \<Rightarrow> (unit, nat) WorkflowTransition" where
  "demo_choice target = \<lparr>wt_from_state = ''a'', wt_to_state = target, wt_trigger = target, wt_guard = Some (\<lambda>_ w. (Inr True, w)), wt_action = None\<rparr>"

definition demo_plain :: "string \<Rightarrow> (unit, nat) WorkflowState" where
  "demo_plain n = \<lparr>ws_name = n, ws_is_initial = (n = ''a''), ws_is_terminal = (n \<noteq> ''a''), ws_on_enter = None, ws_on_exit = None\<rparr>"

definition demo_fork :: "(unit, nat) WorkflowDefinition" where
  "demo_fork = \<lparr>wd_name = ''fork'', wd_states = [(''a'', demo_plain ''a''), (''b'', demo_plain ''b''), (''c'', demo_plain ''c'')],
     wd_transitions = [demo_choice ''b'', demo_choice ''c'']\<rparr>"

definition demo_fork_instance :: "unit WorkflowInstance" where
  "demo_fork_instance = \<lparr>wi_id = ''i'', wi_workflow_name = ''fork'', wi_current_state = ''a'', wi_history = [], wi_context = ()\<rparr>"

definition demo_frame :: "string \<Rightarrow> (unit, nat) wf_pc \<Rightarrow> (unit, nat) wf_frame" where
  "demo_frame event pc = \<lparr>wf_instance_id = ''i'', wf_defn = demo_fork, wf_event = event, wf_ctx = (), wf_pc = pc\<rparr>"

definition demo_moved :: "string list \<Rightarrow> unit WorkflowInstance" where
  "demo_moved targets = fold (\<lambda>x. record_transition (demo_choice x) x ()) targets demo_fork_instance"

lemmas fork_eval = demo_fork_def demo_plain_def demo_choice_def demo_fork_instance_def demo_frame_def demo_moved_def
  record_transition_def initial_state_def dict_values_def InMemoryWorkflowInstanceStore_save_def
  InMemoryWorkflowInstanceStore_load_def dict_set_eval without_def

lemma fork_started: "wf_reach [(''fork'', demo_fork)] ([(''i'', demo_fork_instance)], [], {})"
  using wf_next[OF wf_init wf_start[of "[(''fork'', demo_fork)]" "''fork''" demo_fork "demo_plain ''a''" "[]" "''i''" "[]" "{}" "()"]]
  by (simp add: fork_eval)

lemma fork_chosen:
  assumes "wf_reach [(''fork'', demo_fork)] ([(''i'', demo_fork_instance)], fs, {})" "x \<in> {''b'', ''c''}"
  shows "wf_reach [(''fork'', demo_fork)] ([(''i'', demo_fork_instance)], fs @ [demo_frame x (Leaving (demo_choice x))], {})"
proof -
  have "\<exists>ts. search_transitions ''a'' x (wd_transitions demo_fork) = Some (Guarding (demo_choice x) ts)"
    using assms(2) by (auto simp: fork_eval)
  then obtain ts where "wf_step [(''fork'', demo_fork)] ([(''i'', demo_fork_instance)], fs, {})
      ([(''i'', demo_fork_instance)], fs @ [demo_frame x (Guarding (demo_choice x) ts)], {})"
    using wf_begin[of "''i''" "[(''i'', demo_fork_instance)]" demo_fork_instance "[(''fork'', demo_fork)]" demo_fork "demo_plain ''a''" x _ fs "{}" "()"]
    by (auto simp: demo_frame_def InMemoryWorkflowInstanceStore_load_def demo_fork_instance_def demo_fork_def)
  from wf_next[OF wf_next[OF assms(1) this] wf_guard_true[of "length fs" _ "demo_choice x" ts]] show ?thesis
    by (simp add: demo_frame_def)
qed

lemma demo_moved_snoc: "demo_moved (xs @ [x]) = record_transition (demo_choice x) x () (demo_moved xs)"
  by (simp add: demo_moved_def)

lemma demo_choice_from: "wt_from_state (demo_choice x) = ''a''"
  by (simp add: demo_choice_def)

lemma fork_committed:
  assumes "wf_reach [(''fork'', demo_fork)] ([(''i'', demo_moved xs)], fs, stale)" "j < length fs" "fs ! j = demo_frame x (Leaving (demo_choice x))"
  shows "wf_reach [(''fork'', demo_fork)] ([(''i'', demo_moved (xs @ [x]))], without j fs,
    if wi_current_state (demo_moved xs) = ''a'' then stale else insert ''i'' stale)"
proof -
  let ?fs = "fs[j := demo_frame x Entering]"
  have "wf_reach [(''fork'', demo_fork)] ([(''i'', demo_moved (xs @ [x]))], ?fs, if wi_current_state (demo_moved xs) = ''a'' then stale else insert ''i'' stale)"
    using wf_next[OF assms(1) wf_commit[OF assms(2), of "demo_choice x" "[(''i'', demo_moved xs)]" "demo_moved xs"]] assms(3)
    by (simp add: demo_frame_def dict_set_eval demo_moved_snoc demo_choice_from split: if_splits)
  from wf_next[OF this wf_finish[of j]] show ?thesis
    using assms(2) by (simp add: demo_frame_def without_def)
qed


text \<open>Two calls that both choose their transition in state \<^verbatim>\<open>a\<close> record \<^verbatim>\<open>a -> b\<close> and \<^verbatim>\<open>a -> c\<close>, which is not a path.\<close>

lemma overlapping_triggers_break_path:
  "\<exists>inst. wf_reach [(''fork'', demo_fork)] ([(''i'', inst)], [], {''i''})
    \<and> \<not> history_path demo_fork ''a'' (wi_history inst) (wi_current_state inst)"
proof -
  let ?b = "demo_frame ''b'' (Leaving (demo_choice ''b''))" and ?c = "demo_frame ''c'' (Leaving (demo_choice ''c''))"
  have "wf_reach [(''fork'', demo_fork)] ([(''i'', demo_moved [])], [?b, ?c], {})"
    using fork_chosen[OF fork_chosen[OF fork_started, of "''b''"], of "''c''"] by (simp add: demo_moved_def)
  from fork_committed[OF this, of 0 "''b''"] have "wf_reach [(''fork'', demo_fork)] ([(''i'', demo_moved [''b''])], [?c], {})"
    by (simp add: without_def) (simp add: demo_moved_def demo_fork_instance_def)
  from fork_committed[OF this, of 0 "''c''"] have "wf_reach [(''fork'', demo_fork)] ([(''i'', demo_moved [''b'', ''c''])], [], {''i''})"
    by (simp add: without_def) (simp add: demo_moved_def demo_fork_instance_def record_transition_def demo_choice_def)
  moreover have "\<not> history_path demo_fork ''a'' (wi_history (demo_moved [''b'', ''c''])) (wi_current_state (demo_moved [''b'', ''c'']))"
    by (simp add: fork_eval)
  ultimately show ?thesis by blast
qed

text \<open>A call of \<^verbatim>\<open>trigger\<close> that nothing interferes with is a run of these steps.\<close>

lemma search_steps:
  fixes d :: "('c, 'w) WorkflowDefinition"
  assumes "find_transition (wi_current_state inst) event ctx ts w = (Inr (Some t), w')" "map_of s i = Some inst"
  defines "frame \<equiv> \<lambda>pc. \<lparr>wf_instance_id = i, wf_defn = d, wf_event = event, wf_ctx = ctx, wf_pc = pc\<rparr>"
  shows "\<exists>pc. search_transitions (wi_current_state inst) event ts = Some pc
    \<and> (wf_step engine)\<^sup>*\<^sup>* (s, fs @ [frame pc], stale) (s, fs @ [frame (Leaving t)], stale)"
  using assms(1)
proof (induction ts arbitrary: w)
  case (Cons u us)
  show ?case
  proof (cases "wt_from_state u = wi_current_state inst \<and> wt_trigger u = event")
    case match: True
    show ?thesis
    proof (cases "wt_guard u")
      case None
      then show ?thesis using Cons.prems match by simp
    next
      case (Some g)
      let ?here = "(s, fs @ [frame (Guarding u us)], stale)"
      have yes: "wf_step engine ?here (s, fs @ [frame (Leaving u)], stale)"
        using wf_guard_true[of "length fs" "fs @ [frame (Guarding u us)]" u us] by (simp add: frame_def)
      have no: "wf_step engine ?here (s, fs @ [frame pc], stale)"
        if "search_transitions (wi_current_state inst) event us = Some pc" for pc
        using wf_guard_false[of "length fs" "fs @ [frame (Guarding u us)]" u us s inst pc] assms(2) that by (simp add: frame_def)
      obtain q v where g: "g ctx w = (q, v)" by fastforce
      show ?thesis
      proof (cases "q = Inr True")
        case True
        then show ?thesis using Cons.prems match Some g yes by auto
      next
        case False
        then have "find_transition (wi_current_state inst) event ctx us v = (Inr (Some t), w')"
          using Cons.prems match Some g by (auto split: sum.splits)
        from Cons.IH[OF this] no show ?thesis using match Some by (auto intro: converse_rtranclp_into_rtranclp)
      qed
    qed
  next
    case False
    then show ?thesis using Cons by auto
  qed
qed simp

lemma trigger_simulated:
  assumes "WorkflowEngine_trigger InMemoryWorkflowInstanceStore_load InMemoryWorkflowInstanceStore_save
      InMemoryWorkflowInstanceStore_share engine i event ctx (s, w) = (r, s', w')"
    and "\<And>inst. map_of s i = Some inst \<Longrightarrow> wi_id inst = i"
  shows "(wf_step engine)\<^sup>*\<^sup>* (s, fs, stale) (s', fs, stale)"
proof (cases "s' = s")
  case False
  then obtain inst d cur t w1 where inst: "map_of s i = Some inst" "map_of engine (wi_workflow_name inst) = Some d"
      "map_of (wd_states d) (wi_current_state inst) = Some cur"
      and t: "find_transition (wi_current_state inst) event ctx (wd_transitions d) w = (Inr (Some t), w1)"
      and adv: "advance InMemoryWorkflowInstanceStore_save InMemoryWorkflowInstanceStore_share d cur t event ctx inst (s, w1) = (r, s', w')"
    using assms(1) unfolding WorkflowEngine_trigger_def InMemoryWorkflowInstanceStore_load_def
    by (auto split: option.splits sum.splits prod.splits)
  let ?frame = "\<lambda>pc. \<lparr>wf_instance_id = i, wf_defn = d, wf_event = event, wf_ctx = ctx, wf_pc = pc\<rparr>"
  let ?s = "dict_set i (record_transition t event ctx inst) s"
  obtain pc where pc: "search_transitions (wi_current_state inst) event (wd_transitions d) = Some pc"
      "(wf_step engine)\<^sup>*\<^sup>* (s, fs @ [?frame pc], stale) (s, fs @ [?frame (Leaving t)], stale)"
    using search_steps[OF t inst(1)] by blast
  have "wf_step engine (s, fs, stale) (s, fs @ [?frame pc], stale)"
    using wf_begin[of i s inst engine d cur event pc] inst pc(1) by (simp add: InMemoryWorkflowInstanceStore_load_def)
  moreover have "wf_step engine (s, fs @ [?frame (Leaving t)], stale) (?s, fs @ [?frame Entering], stale)"
    using wf_commit[of "length fs" "fs @ [?frame (Leaving t)]" t s inst engine stale] inst(1) find_transition_sound[OF t] by simp
  moreover have "wf_step engine (?s, fs @ [?frame Entering], stale) (?s, fs, stale)"
    using wf_finish[of "length fs" "fs @ [?frame Entering]"] by (simp add: without_def)
  moreover have "s' = ?s"
    using advance_cases[OF adv] False assms(2)[OF inst(1)] find_transition_sound[OF t]
    by (auto simp: InMemoryWorkflowInstanceStore_save_def InMemoryWorkflowInstanceStore_share_def record_transition_def dict_set_same)
  ultimately show ?thesis using pc(2) by (meson converse_rtranclp_into_rtranclp rtranclp.rtrancl_into_rtrancl)
qed simp

text \<open>One call after the other, with callbacks that leave the engine alone: every history is a path.\<close>

lemma sequential_history_is_path:
  assumes "InMemoryWorkflowInstanceStore_load i (fst (wf_run engine calls ([], w))) = Some inst"
  shows "inst_ok engine inst"
  using wf_run_ok[of "([], w)" engine calls] assms by (simp add: InMemoryWorkflowInstanceStore_load_def)

text \<open>A trigger whose \<^verbatim>\<open>on_enter\<close> callback raises has nevertheless moved the instance in the
  in-memory store: the transition is recorded and the state changed before the callback runs, and
  the stored object is the one being changed.\<close>

theorem workflow_failed_enter_still_moves:
  assumes "InMemoryWorkflowInstanceStore_load i s = Some inst" and "wi_id inst = i"
    and "map_of engine (wi_workflow_name inst) = Some d"
    and "map_of (wd_states d) (wi_current_state inst) = Some cur" and "ws_on_exit cur = None"
    and "find_transition (wi_current_state inst) event ctx (wd_transitions d) w = (Inr (Some t), w)"
    and "wt_action t = None" and "map_of (wd_states d) (wt_to_state t) = Some new"
    and "ws_on_enter new = Some f" and "f i ctx w = (Inl e, w')"
  shows "\<exists>s'. WorkflowEngine_trigger InMemoryWorkflowInstanceStore_load InMemoryWorkflowInstanceStore_save
      InMemoryWorkflowInstanceStore_share engine i event ctx (s, w) = (Inl e, s', w')
    \<and> (\<exists>inst'. InMemoryWorkflowInstanceStore_load i s' = Some inst' \<and> wi_current_state inst' = wt_to_state t)"
  using assms
  by (simp add: WorkflowEngine_trigger_def advance_def run_callback_def run_action_def Let_def
      InMemoryWorkflowInstanceStore_load_def InMemoryWorkflowInstanceStore_share_def)

theorem workflow_failed_enter_still_moves_witness:
  "\<exists>s'. WorkflowEngine_trigger InMemoryWorkflowInstanceStore_load InMemoryWorkflowInstanceStore_save
      InMemoryWorkflowInstanceStore_share [(''x'', demo_bad_workflow)] ''i'' ''go'' () ([(''i'', demo_instance)], 0) =
        (Inl (plain_exn ValueError ''boom''), s', 0)
    \<and> (\<exists>inst'. InMemoryWorkflowInstanceStore_load ''i'' s' = Some inst' \<and> wi_current_state inst' = ''b'')"
  using workflow_failed_enter_still_moves[where i = "''i''" and s = "[(''i'', demo_instance)]"
      and inst = demo_instance and engine = "[(''x'', demo_bad_workflow)]" and d = demo_bad_workflow
      and cur = demo_a and event = "''go''" and ctx = "()" and w = 0 and t = demo_go and new = demo_b
      and f = "\<lambda>_ _ w. (Inl (plain_exn ValueError ''boom''), w)" and e = "plain_exn ValueError ''boom''" and w' = 0]
  by (simp add: InMemoryWorkflowInstanceStore_load_def demo_bad_workflow_def demo_instance_def demo_a_def
      demo_b_def demo_go_def)

end
