(* ===== verification/Inbox.thy ===== *)
theory Inbox
  imports Errors
begin

text \<open>
  The transactional inbox (\<^verbatim>\<open>application/inbox\<close>). \<open>InboxProcessor_process\<close> is written against the store
  port and the command bus; the locale \<open>inbox_store\<close> is the store's contract, the in-memory store its
  provider. The bus acts on the world, \<open>now\<close> reads its clock and \<open>exn_str\<close> is \<^verbatim>\<open>str(exc)\<close>. \<open>deliver\<close>
  processes the same message again and again, each time as a fresh pending record.
\<close>

datatype InboxStatus = PENDING | PROCESSED | FAILED | DUPLICATE

record 'p InboxRecord =
  ib_id :: string
  ib_source :: string
  ib_event_type :: string
  ib_payload :: 'p
  ib_processed_at :: "microseconds option"
  ib_status :: InboxStatus
  ib_error :: "string option"

type_synonym 'p InMemoryInboxStore = "(string, 'p InboxRecord) pydict"

definition InMemoryInboxStore_save :: "'p InboxRecord \<Rightarrow> 'p InMemoryInboxStore \<Rightarrow> 'p InMemoryInboxStore" where
  "InMemoryInboxStore_save rec s = dict_set (ib_id rec) rec s"

definition InMemoryInboxStore_load :: "string \<Rightarrow> 'p InMemoryInboxStore \<Rightarrow> 'p InboxRecord option" where
  "InMemoryInboxStore_load i s = map_of s i"

definition InMemoryInboxStore_is_duplicate :: "string \<Rightarrow> 'p InMemoryInboxStore \<Rightarrow> bool" where
  "InMemoryInboxStore_is_duplicate i s =
     (case map_of s i of None \<Rightarrow> False | Some rec \<Rightarrow> ib_status rec = PROCESSED)"

definition InboxProcessor_process ::
  "(string \<Rightarrow> 's \<Rightarrow> bool) \<Rightarrow> ('p InboxRecord \<Rightarrow> 's \<Rightarrow> 's) \<Rightarrow> (string \<Rightarrow> 'p \<Rightarrow> ('w, unit) act)
    \<Rightarrow> ('w \<Rightarrow> microseconds) \<Rightarrow> (exn \<Rightarrow> string) \<Rightarrow> 'p InboxRecord \<Rightarrow> 's \<times> 'w
    \<Rightarrow> (exn + 'p InboxRecord) \<times> 's \<times> 'w" where
  "InboxProcessor_process is_duplicate save dispatch now exn_str rec sw =
     (case sw of (s, w) \<Rightarrow>
        if is_duplicate (ib_id rec) s then
          let rec' = rec\<lparr>ib_status := DUPLICATE\<rparr> in (Inr rec', save rec' s, w)
        else
          let s1 = save rec s
          in case dispatch (ib_event_type rec) (ib_payload rec) w of
               (Inr _, w1) \<Rightarrow>
                 let rec' = rec\<lparr>ib_status := PROCESSED, ib_processed_at := Some (now w1)\<rparr>
                 in (Inr rec', save rec' s1, w1)
             | (Inl e, w1) \<Rightarrow>
                 if catchable e then
                   let rec' = rec\<lparr>ib_status := FAILED, ib_error := Some (exn_str e)\<rparr>
                   in (Inr rec', save rec' s1, w1)
                 else (Inl e, s1, w1))"

subsection \<open>The store port\<close>

locale inbox_store =
  fixes is_duplicate :: "string \<Rightarrow> 's \<Rightarrow> bool"
    and save :: "'p InboxRecord \<Rightarrow> 's \<Rightarrow> 's"
    and load :: "string \<Rightarrow> 's \<Rightarrow> 'p InboxRecord option"
  assumes load_save: "load i (save rec s) = (if i = ib_id rec then Some rec else load i s)"
    and duplicate_iff: "is_duplicate i s \<longleftrightarrow> (\<exists>rec. load i s = Some rec \<and> ib_status rec = PROCESSED)"
begin

text \<open>The bus is called if and only if the message is not recorded as processed.\<close>

lemma process_dispatch:
  assumes "InboxProcessor_process is_duplicate save dispatch now str rec (s, w) = (r, s', w')"
  shows "if is_duplicate (ib_id rec) s then w' = w else w' = snd (dispatch (ib_event_type rec) (ib_payload rec) w)"
  using assms by (auto simp: InboxProcessor_process_def Let_def split: prod.splits sum.splits if_splits)

text \<open>What is returned is what is stored.\<close>

lemma process_stored:
  assumes "InboxProcessor_process is_duplicate save dispatch now str rec (s, w) = (Inr rec', s', w')"
  shows "load (ib_id rec) s' = Some rec' \<and> ib_id rec' = ib_id rec \<and> ib_status rec' \<noteq> PENDING"
  using assms
  by (auto simp: InboxProcessor_process_def Let_def load_save split: prod.splits sum.splits if_splits)

lemma process_status:
  assumes "InboxProcessor_process is_duplicate save dispatch now str rec (s, w) = (Inr rec', s', w')"
  shows "ib_status rec' = (if is_duplicate (ib_id rec) s then DUPLICATE
     else if isl (fst (dispatch (ib_event_type rec) (ib_payload rec) w)) then FAILED else PROCESSED)"
  using assms
  by (auto simp: InboxProcessor_process_def Let_def split: prod.splits sum.splits if_splits)

lemma process_other:
  assumes "InboxProcessor_process is_duplicate save dispatch now str rec (s, w) = (r, s', w')" and "i \<noteq> ib_id rec"
  shows "load i s' = load i s"
  using assms
  by (auto simp: InboxProcessor_process_def Let_def load_save split: prod.splits sum.splits if_splits)

end

interpretation mem_inbox: inbox_store InMemoryInboxStore_is_duplicate InMemoryInboxStore_save
    InMemoryInboxStore_load
  by unfold_locales
     (auto simp: InMemoryInboxStore_is_duplicate_def InMemoryInboxStore_save_def InMemoryInboxStore_load_def
       split: option.splits)

subsection \<open>Repeated delivery\<close>

text \<open>The world counts the calls of a bus that always succeeds.\<close>

definition counting_bus :: "string \<Rightarrow> 'p \<Rightarrow> (nat, unit) act" where
  "counting_bus ty p n = (Inr (), Suc n)"

abbreviation process_mem ::
  "'p InboxRecord \<Rightarrow> 'p InMemoryInboxStore \<times> nat \<Rightarrow> (exn + 'p InboxRecord) \<times> 'p InMemoryInboxStore \<times> nat" where
  "process_mem \<equiv> InboxProcessor_process InMemoryInboxStore_is_duplicate InMemoryInboxStore_save counting_bus
     (\<lambda>_. 0) (\<lambda>_. [])"

fun deliver :: "nat \<Rightarrow> 'p InboxRecord \<Rightarrow> 'p InMemoryInboxStore \<times> nat \<Rightarrow> 'p InMemoryInboxStore \<times> nat" where
  "deliver 0 rec sw = sw"
| "deliver (Suc k) rec sw = deliver k rec (snd (process_mem rec sw))"

definition processed_in :: "string \<Rightarrow> 'p InMemoryInboxStore \<Rightarrow> bool" where
  "processed_in i s = InMemoryInboxStore_is_duplicate i s"

lemma process_mem_step:
  "processed_in (ib_id rec) (fst (snd (process_mem rec (s, n)))) = (\<not> processed_in (ib_id rec) s)
   \<and> snd (snd (process_mem rec (s, n))) = (if processed_in (ib_id rec) s then n else Suc n)"
  by (simp add: InboxProcessor_process_def counting_bus_def processed_in_def InMemoryInboxStore_is_duplicate_def
      InMemoryInboxStore_save_def Let_def)

lemma deliver_count:
  "snd (deliver k rec (s, n)) = n + (if processed_in (ib_id rec) s then k div 2 else (k + 1) div 2)"
proof (induction k arbitrary: s n)
  case (Suc k)
  obtain r s' n' where p: "process_mem rec (s, n) = (r, s', n')" by (metis prod.collapse)
  with process_mem_step[of rec s n] have
    "processed_in (ib_id rec) s' = (\<not> processed_in (ib_id rec) s)"
    "n' = (if processed_in (ib_id rec) s then n else Suc n)" by simp_all
  with Suc.IH[of s' n'] p show ?case by simp
qed simp

subsection \<open>Properties\<close>

text \<open>One delivery: the bus is called exactly when the store has no processed record of the
  message; the record returned is the one stored, its status is \<^verbatim>\<open>DUPLICATE\<close>, \<^verbatim>\<open>PROCESSED\<close> or \<^verbatim>\<open>FAILED\<close>
  accordingly, and no other message's record changes.\<close>

theorem inbox_process_once:
  assumes "InboxProcessor_process InMemoryInboxStore_is_duplicate InMemoryInboxStore_save dispatch now str rec
      (s, w) = (Inr rec', s', w')"
  shows "w' = (if InMemoryInboxStore_is_duplicate (ib_id rec) s then w
               else snd (dispatch (ib_event_type rec) (ib_payload rec) w))
    \<and> InMemoryInboxStore_load (ib_id rec) s' = Some rec'
    \<and> ib_status rec' = (if InMemoryInboxStore_is_duplicate (ib_id rec) s then DUPLICATE
         else if isl (fst (dispatch (ib_event_type rec) (ib_payload rec) w)) then FAILED else PROCESSED)
    \<and> (\<forall>i. i \<noteq> ib_id rec \<longrightarrow> InMemoryInboxStore_load i s' = InMemoryInboxStore_load i s)"
  using mem_inbox.process_dispatch[OF assms] mem_inbox.process_stored[OF assms]
    mem_inbox.process_status[OF assms] mem_inbox.process_other[OF assms] by auto

definition demo_record :: "nat InboxRecord" where
  "demo_record = \<lparr>ib_id = ''m1'', ib_source = ''s'', ib_event_type = ''Paid'', ib_payload = 5,
     ib_processed_at = None, ib_status = PENDING, ib_error = None\<rparr>"

theorem inbox_process_once_witness:
  "ib_status (case fst (process_mem demo_record ([], 0)) of Inr r \<Rightarrow> r) = PROCESSED"
proof -
  obtain rec' s' w' where run: "process_mem demo_record ([], 0) = (Inr rec', s', w')"
    by (simp add: InboxProcessor_process_def counting_bus_def InMemoryInboxStore_is_duplicate_def Let_def)
  from inbox_process_once[OF run] run show ?thesis
    by (simp add: InMemoryInboxStore_is_duplicate_def counting_bus_def)
qed

text \<open>Repeated delivery is not exactly-once: recognising a duplicate overwrites the processed
  record with the status \<^verbatim>\<open>DUPLICATE\<close>, which no longer counts as processed, so of \<open>k\<close> deliveries of one
  message every other one reaches the bus.\<close>

theorem inbox_every_other_delivery_dispatched:
  "snd (deliver k rec ([], 0)) = (k + 1) div 2"
  using deliver_count[of k rec "[]" 0] by (simp add: processed_in_def InMemoryInboxStore_is_duplicate_def)

end
