(* ===== verification/Lru_Cache.thy ===== *)
theory Lru_Cache
  imports Errors
begin

text \<open>
  The in-process LRU cache (\<^verbatim>\<open>application/cache/lru.py\<close>). The store is an ordered dictionary, least
  recently used entry first; each operation runs under the cache's lock and is one function. Cached
  values are \<open>'v option\<close>, \<open>None\<close> being Python's \<^verbatim>\<open>None\<close>, which \<^verbatim>\<open>get\<close> also answers on a miss. Times are
  seconds of the monotonic clock.
\<close>

record ('k, 'v) AsyncLRUCache =
  lru_maxsize :: nat
  lru_ttl :: "rat option"
  lru_store :: "('k, 'v option \<times> rat option) pydict"
  lru_hits :: nat
  lru_misses :: nat

definition AsyncLRUCache_init :: "int \<Rightarrow> rat option \<Rightarrow> exn + ('k, 'v) AsyncLRUCache" where
  "AsyncLRUCache_init maxsize ttl =
     (if maxsize < 1 then Inl (plain_exn ValueError (''maxsize must be >= 1, got '' @ show_int maxsize))
      else Inr \<lparr>lru_maxsize = nat maxsize, lru_ttl = ttl, lru_store = [], lru_hits = 0, lru_misses = 0\<rparr>)"

definition lru_hit_rate :: "('k, 'v) AsyncLRUCache \<Rightarrow> rat" where
  "lru_hit_rate c =
     (let all = lru_hits c + lru_misses c in if 0 < all then of_nat (lru_hits c) / of_nat all else 0)"

definition AsyncLRUCache_get :: "rat \<Rightarrow> 'k \<Rightarrow> ('k, 'v) AsyncLRUCache \<Rightarrow> 'v option \<times> ('k, 'v) AsyncLRUCache" where
  "AsyncLRUCache_get now key c =
     (case map_of (lru_store c) key of
        None \<Rightarrow> (None, c\<lparr>lru_misses := Suc (lru_misses c)\<rparr>)
      | Some (v, expires_at) \<Rightarrow>
          if (case expires_at of None \<Rightarrow> False | Some t \<Rightarrow> t < now)
          then (None, c\<lparr>lru_store := dict_pop key (lru_store c), lru_misses := Suc (lru_misses c)\<rparr>)
          else (v, c\<lparr>lru_store := move_to_end key (lru_store c), lru_hits := Suc (lru_hits c)\<rparr>))"

definition AsyncLRUCache_set ::
  "rat \<Rightarrow> 'k \<Rightarrow> 'v option \<Rightarrow> rat option \<Rightarrow> ('k, 'v) AsyncLRUCache \<Rightarrow> ('k, 'v) AsyncLRUCache" where
  "AsyncLRUCache_set now key v ttl c =
     (let effective = (case ttl of Some t \<Rightarrow> Some t | None \<Rightarrow> lru_ttl c);
          expires_at = (case effective of Some t \<Rightarrow> Some (now + t) | None \<Rightarrow> None);
          store1 = (if key \<in> fst ` set (lru_store c) then move_to_end key (lru_store c) else lru_store c);
          store2 = dict_set key (v, expires_at) store1;
          store3 = (if lru_maxsize c < length store2 then tl store2 else store2)
      in c\<lparr>lru_store := store3\<rparr>)"

definition AsyncLRUCache_delete :: "'k \<Rightarrow> ('k, 'v) AsyncLRUCache \<Rightarrow> bool \<times> ('k, 'v) AsyncLRUCache" where
  "AsyncLRUCache_delete key c =
     (if key \<in> fst ` set (lru_store c) then (True, c\<lparr>lru_store := dict_pop key (lru_store c)\<rparr>)
      else (False, c))"

definition AsyncLRUCache_clear :: "('k, 'v) AsyncLRUCache \<Rightarrow> ('k, 'v) AsyncLRUCache" where
  "AsyncLRUCache_clear c = c\<lparr>lru_store := []\<rparr>"

text \<open>\<^verbatim>\<open>get_or_load\<close> for one caller: the lock is not held while the loader runs.\<close>

definition AsyncLRUCache_get_or_load ::
  "('w \<Rightarrow> rat) \<Rightarrow> 'k \<Rightarrow> ('w, 'v option) act \<Rightarrow> rat option \<Rightarrow> ('k, 'v) AsyncLRUCache \<Rightarrow> 'w
    \<Rightarrow> (exn + 'v option) \<times> ('k, 'v) AsyncLRUCache \<times> 'w" where
  "AsyncLRUCache_get_or_load clock key loader ttl c w =
     (case AsyncLRUCache_get (clock w) key c of
        (Some x, c1) \<Rightarrow> (Inr (Some x), c1, w)
      | (None, c1) \<Rightarrow>
          (case loader w of
             (Inl e, w1) \<Rightarrow> (Inl e, c1, w1)
           | (Inr v, w1) \<Rightarrow> (Inr v, AsyncLRUCache_set (clock w1) key v ttl c1, w1)))"

subsection \<open>Invariant\<close>

definition lru_ok :: "('k, 'v) AsyncLRUCache \<Rightarrow> bool" where
  "lru_ok c \<longleftrightarrow> 1 \<le> lru_maxsize c \<and> dict_ok (lru_store c) \<and> length (lru_store c) \<le> lru_maxsize c"

lemma dict_ok_tl: "dict_ok d \<Longrightarrow> dict_ok (tl d)"
  by (cases d) (auto simp: dict_ok_def)

lemma lru_ok_init: "AsyncLRUCache_init n ttl = Inr c \<Longrightarrow> lru_ok c"
  by (auto simp: AsyncLRUCache_init_def lru_ok_def split: if_splits)

lemma lru_ok_get [inv_intros]: "lru_ok c \<Longrightarrow> lru_ok (snd (AsyncLRUCache_get now k c))"
  using length_dict_pop_le[of k "lru_store c"]
  by (auto simp: lru_ok_def AsyncLRUCache_get_def intro: inv_intros split: option.splits)

lemma lru_ok_set [inv_intros]: "lru_ok c \<Longrightarrow> lru_ok (AsyncLRUCache_set now k v ttl c)"
  by (auto simp: lru_ok_def AsyncLRUCache_set_def Let_def length_dict_set intro!: dict_ok_tl inv_intros)

lemma lru_ok_delete [inv_intros]: "lru_ok c \<Longrightarrow> lru_ok (snd (AsyncLRUCache_delete k c))"
  using length_dict_pop_le[of k "lru_store c"]
  by (auto simp: lru_ok_def AsyncLRUCache_delete_def intro: inv_intros)

lemma lru_ok_clear [inv_intros]: "lru_ok c \<Longrightarrow> lru_ok (AsyncLRUCache_clear c)"
  by (simp add: lru_ok_def AsyncLRUCache_clear_def)

subsection \<open>The key order\<close>

text \<open>Keys of the store, least recently used first, and what touching a key does to them.\<close>

definition lru_keys :: "('k, 'v) AsyncLRUCache \<Rightarrow> 'k list" where
  "lru_keys c = map fst (lru_store c)"

lemma map_fst_dict_pop: "map fst (dict_pop k d) = removeAll k (map fst d)"
  by (induction d) (auto simp: dict_pop_eval)

lemma map_fst_move_to_end:
  "k \<in> fst ` set d \<Longrightarrow> map fst (move_to_end k d) = removeAll k (map fst d) @ [k]"
  by (auto simp: move_to_end_def map_fst_dict_pop split: option.splits dest: map_of_SomeD)
     (metis map_of_eq_None_iff option.distinct(1) image_eqI fst_conv)

lemma map_fst_dict_set:
  "map fst (dict_set k v d) = (if k \<in> fst ` set d then map fst d else map fst d @ [k])"
  by (simp add: dict_set_def update_keys)

lemma lru_keys_set:
  "lru_keys (AsyncLRUCache_set now k v ttl c) =
     (let ks = removeAll k (lru_keys c) @ [k] in if lru_maxsize c < length ks then tl ks else ks)"
proof -
  define d where "d = (if k \<in> fst ` set (lru_store c) then move_to_end k (lru_store c) else lru_store c)"
  have "removeAll k (lru_keys c) = lru_keys c" if "k \<notin> fst ` set (lru_store c)"
    using that by (simp add: lru_keys_def)
  then have ks: "map fst (dict_set k x d) = removeAll k (lru_keys c) @ [k]" for x
    by (simp add: d_def map_fst_dict_set map_fst_move_to_end lru_keys_def)
  then have len: "length (dict_set k x d) = length (removeAll k (lru_keys c) @ [k])" for x
    by (metis length_map)
  have store: "\<exists>x. lru_store (AsyncLRUCache_set now k v ttl c) =
      (if lru_maxsize c < length (dict_set k x d) then tl (dict_set k x d) else dict_set k x d)"
    by (auto simp: AsyncLRUCache_set_def Let_def d_def)
  then obtain x where "lru_store (AsyncLRUCache_set now k v ttl c) =
      (if lru_maxsize c < length (dict_set k x d) then tl (dict_set k x d) else dict_set k x d)" by blast
  then show ?thesis by (simp add: lru_keys_def[of "AsyncLRUCache_set now k v ttl c"] map_tl ks len Let_def)
qed

lemma lru_keys_get:
  assumes "\<forall>(v, t) \<in> snd ` set (lru_store c). t = None"
  shows "lru_keys (snd (AsyncLRUCache_get now k c)) =
    (if k \<in> set (lru_keys c) then removeAll k (lru_keys c) @ [k] else lru_keys c)"
proof (cases "map_of (lru_store c) k")
  case None
  then have "k \<notin> set (lru_keys c)" by (simp add: lru_keys_def map_of_eq_None_iff)
  with None show ?thesis by (simp add: AsyncLRUCache_get_def lru_keys_def)
next
  case (Some e)
  obtain v t where e: "e = (v, t)" by force
  have mem: "(k, v, t) \<in> set (lru_store c)" using Some e by (simp add: map_of_SomeD)
  then have "t = None" using assms by force
  moreover have "k \<in> fst ` set (lru_store c)" using mem by force
  ultimately show ?thesis
    using Some e map_fst_move_to_end[of k "lru_store c"]
    by (simp add: AsyncLRUCache_get_def lru_keys_def)
qed

subsection \<open>Least recently used\<close>

text \<open>The reference: of the keys touched so far, each at its last touch, the most recent \<open>m\<close>.\<close>

definition last_n :: "nat \<Rightarrow> 'a list \<Rightarrow> 'a list" where
  "last_n m xs = drop (length xs - m) xs"

definition most_recent :: "nat \<Rightarrow> 'k list \<Rightarrow> 'k list" where
  "most_recent m touched = last_n m (remdups touched)"

lemma remdups_snoc: "remdups (xs @ [k]) = removeAll k (remdups xs) @ [k]"
  by (induction xs) auto

lemma last_n_split: "\<exists>p. xs = p @ last_n m xs \<and> (p = [] \<or> length (last_n m xs) = m)"
  unfolding last_n_def
  by (rule exI[of _ "take (length xs - m) xs"]) auto

lemma last_n_append: "length b \<le> m \<Longrightarrow> last_n m (a @ b) = last_n (m - length b) a @ b"
  by (auto simp: last_n_def)

lemma length_last_n: "length (last_n m xs) = min m (length xs)"
  by (auto simp: last_n_def)

lemma distinct_removeAll_length:
  "distinct xs \<Longrightarrow> k \<in> set xs \<Longrightarrow> Suc (length (removeAll k xs)) = length xs"
  by (induction xs) auto

text \<open>Touching a key, then keeping the last \<open>m\<close>.\<close>

lemma most_recent_touch:
  assumes "1 \<le> m"
  shows "most_recent m (touched @ [k]) =
    (let ks = removeAll k (most_recent m touched) @ [k] in if m < length ks then tl ks else ks)"
proof -
  define r where "r = remdups touched"
  define b where "b = last_n m r"
  obtain a where r: "r = a @ b" and full: "a = [] \<or> length b = m"
    using last_n_split[of r m] unfolding b_def by blast
  have dist: "distinct r" by (simp add: r_def)
  have new: "most_recent m (touched @ [k]) = last_n m (removeAll k r @ [k])"
    by (simp add: most_recent_def remdups_snoc r_def)
  have b: "most_recent m touched = b" by (simp add: most_recent_def b_def r_def)
  have len: "length b \<le> m" by (simp add: b_def length_last_n)
  show ?thesis
  proof (cases "k \<in> set b")
    case True
    have lb: "Suc (length (removeAll k b)) = length b"
      using dist r True by (intro distinct_removeAll_length) auto
    have "k \<notin> set a" using dist r True by auto
    then have "removeAll k r = a @ removeAll k b" using r by simp
    moreover have "last_n m (a @ removeAll k b @ [k]) = removeAll k b @ [k]"
      using full lb len by (auto simp: last_n_def)
    ultimately show ?thesis using new b lb len by (simp add: Let_def)
  next
    case False
    then have "removeAll k r = removeAll k a @ b" using r by simp
    then have eq: "most_recent m (touched @ [k]) = last_n m (removeAll k a @ b @ [k])" using new by simp
    show ?thesis
    proof (cases "length b = m")
      case True
      then obtain x b' where xb: "b = x # b'" using assms by (cases b) auto
      with True eq False b show ?thesis by (auto simp: last_n_def Let_def)
    next
      case False
      with full have "a = []" by simp
      with False len eq \<open>k \<notin> set b\<close> b show ?thesis by (auto simp: last_n_def Let_def)
    qed
  qed
qed

text \<open>Histories of reads and writes without expiry; the second result lists the touches.\<close>

datatype ('k, 'v) lru_op = LSet rat 'k "'v option" | LGet rat 'k

fun lru_run ::
  "('k, 'v) lru_op list \<Rightarrow> ('k, 'v) AsyncLRUCache \<Rightarrow> 'k list \<Rightarrow> ('k, 'v) AsyncLRUCache \<times> 'k list" where
  "lru_run [] c touched = (c, touched)"
| "lru_run (LSet now k v # ops) c touched = lru_run ops (AsyncLRUCache_set now k v None c) (touched @ [k])"
| "lru_run (LGet now k # ops) c touched =
     lru_run ops (snd (AsyncLRUCache_get now k c))
       (if k \<in> set (lru_keys c) then touched @ [k] else touched)"

definition no_expiry :: "('k, 'v) AsyncLRUCache \<Rightarrow> bool" where
  "no_expiry c \<longleftrightarrow> lru_ttl c = None \<and> (\<forall>(v, t) \<in> snd ` set (lru_store c). t = None)"

lemma set_dict_set_subset: "set (dict_set k x d) \<subseteq> insert (k, x) (set d)"
  by (induction d) (auto simp: dict_set_eval split: if_splits)

lemma set_move_to_end_subset: "set (move_to_end k d) \<subseteq> set d"
  by (auto simp: move_to_end_def dict_pop_def AList.delete_eq split: option.splits dest: map_of_SomeD)

lemma set_tl_subset: "set (tl xs) \<subseteq> set xs"
  by (cases xs) auto

lemma no_expiry_iff: "no_expiry c \<longleftrightarrow> lru_ttl c = None \<and> (\<forall>p \<in> set (lru_store c). snd (snd p) = None)"
  by (auto simp: no_expiry_def split_def)

lemma no_expiry_set:
  assumes "no_expiry c"
  shows "no_expiry (AsyncLRUCache_set now k v None c)"
proof -
  define d where "d = (if k \<in> fst ` set (lru_store c) then move_to_end k (lru_store c) else lru_store c)"
  have ttl: "lru_ttl c = None" using assms by (simp add: no_expiry_iff)
  then have "lru_store (AsyncLRUCache_set now k v None c) =
      (if lru_maxsize c < length (dict_set k (v, None) d) then tl (dict_set k (v, None) d)
       else dict_set k (v, None) d)"
    by (simp add: AsyncLRUCache_set_def Let_def d_def)
  then have "set (lru_store (AsyncLRUCache_set now k v None c)) \<subseteq> set (dict_set k (v, None) d)"
    using set_tl_subset[of "dict_set k (v, None) d"] by (simp split: if_splits)
  moreover have "set d \<subseteq> set (lru_store c)"
    using set_move_to_end_subset[of k "lru_store c"] by (simp add: d_def)
  ultimately have "set (lru_store (AsyncLRUCache_set now k v None c)) \<subseteq> insert (k, (v, None)) (set (lru_store c))"
    using set_dict_set_subset[of k "(v, None)" d] by blast
  then have "snd (snd p) = None" if "p \<in> set (lru_store (AsyncLRUCache_set now k v None c))" for p
    using that assms unfolding no_expiry_iff by auto
  moreover have "lru_ttl (AsyncLRUCache_set now k v None c) = None"
    using ttl by (simp add: AsyncLRUCache_set_def Let_def)
  ultimately show ?thesis unfolding no_expiry_iff by blast
qed

lemma no_expiry_get: "no_expiry c \<Longrightarrow> no_expiry (snd (AsyncLRUCache_get now k c))"
  using set_move_to_end_subset[of k "lru_store c"]
  by (auto simp: no_expiry_iff AsyncLRUCache_get_def dict_pop_def AList.delete_eq split: option.splits)

lemma lru_maxsize_frame [simp]:
  "lru_maxsize (AsyncLRUCache_set now k v ttl c) = lru_maxsize c"
  "lru_maxsize (snd (AsyncLRUCache_get now k c)) = lru_maxsize c"
  by (auto simp: AsyncLRUCache_set_def AsyncLRUCache_get_def Let_def split: option.splits)

lemma lru_run_recent:
  "lru_ok c \<Longrightarrow> no_expiry c \<Longrightarrow> lru_keys c = most_recent (lru_maxsize c) touched \<Longrightarrow>
   lru_run ops c touched = (c', touched') \<Longrightarrow>
   lru_ok c' \<and> lru_keys c' = most_recent (lru_maxsize c) touched'"
proof (induction ops c touched rule: lru_run.induct)
  case (2 now k v ops c touched)
  have "lru_keys (AsyncLRUCache_set now k v None c) = most_recent (lru_maxsize c) (touched @ [k])"
    using most_recent_touch[of "lru_maxsize c" touched k] 2 by (simp add: lru_keys_set lru_ok_def)
  with 2 show ?case by (simp add: lru_ok_set no_expiry_set)
next
  case (3 now k ops c touched)
  have "length (removeAll k (lru_keys c) @ [k]) \<le> lru_maxsize c" if "k \<in> set (lru_keys c)"
    using distinct_removeAll_length[of "lru_keys c" k] that 3 by (simp add: lru_ok_def lru_keys_def dict_ok_def)
  then have "lru_keys (snd (AsyncLRUCache_get now k c)) =
      most_recent (lru_maxsize c) (if k \<in> set (lru_keys c) then touched @ [k] else touched)"
    using most_recent_touch[of "lru_maxsize c" touched k] 3
    by (auto simp: lru_keys_get no_expiry_def lru_ok_def Let_def)
  with 3 show ?case by (simp add: lru_ok_get no_expiry_get)
qed simp

text \<open>A value just written is found, until it expires.\<close>

lemma map_of_tl:
  assumes "dict_ok d" and "last (map fst d) = k" and "1 < length d"
  shows "map_of (tl d) k = map_of d k"
proof -
  obtain p rest where p: "d = p # rest" "rest \<noteq> []" using assms(3) by (cases d) auto
  then have "last (map fst rest) = k" using assms(2) by simp
  then have "k \<in> set (map fst rest)" using p(2) last_in_set[of "map fst rest"] by simp
  then have "fst p \<noteq> k" using assms(1) p by (cases p) auto
  then show ?thesis using p by (cases p) simp
qed

lemma lru_last_set:
  assumes "lru_ok c"
  shows "map_of (lru_store (AsyncLRUCache_set now k v ttl c)) k =
    Some (v, case (case ttl of Some t \<Rightarrow> Some t | None \<Rightarrow> lru_ttl c) of Some t \<Rightarrow> Some (now + t) | None \<Rightarrow> None)"
proof -
  define x where "x = (v, case (case ttl of Some t \<Rightarrow> Some t | None \<Rightarrow> lru_ttl c) of
    Some t \<Rightarrow> Some (now + t) | None \<Rightarrow> None)"
  define d where "d = (if k \<in> fst ` set (lru_store c) then move_to_end k (lru_store c) else lru_store c)"
  have store: "lru_store (AsyncLRUCache_set now k v ttl c) =
      (if lru_maxsize c < length (dict_set k x d) then tl (dict_set k x d) else dict_set k x d)"
    by (simp add: AsyncLRUCache_set_def Let_def d_def x_def)
  have lst: "last (map fst (dict_set k x d)) = k"
    by (simp add: d_def map_fst_dict_set map_fst_move_to_end)
  have ok: "dict_ok (dict_set k x d)"
    using assms by (simp add: lru_ok_def d_def dict_ok_set dict_ok_move_to_end)
  have "map_of (lru_store (AsyncLRUCache_set now k v ttl c)) k = Some x"
    using map_of_tl[OF ok lst] assms by (simp add: store lru_ok_def)
  then show ?thesis by (simp add: x_def)
qed

subsection \<open>Properties\<close>

text \<open>C15. The cache keeps exactly the most recently used keys: after any sequence of reads and writes
  without expiry on a fresh cache, its keys are the last \<^verbatim>\<open>maxsize\<close> distinct keys touched by a write or a
  successful read, in the order of their last touch, and it never holds more than \<^verbatim>\<open>maxsize\<close> entries.\<close>

theorem lru_keeps_most_recent:
  assumes "AsyncLRUCache_init n None = Inr c" and "lru_run ops c [] = (c', touched)"
  shows "lru_keys c' = most_recent (nat n) touched \<and> length (lru_store c') \<le> nat n"
proof -
  have c: "c = \<lparr>lru_maxsize = nat n, lru_ttl = None, lru_store = [], lru_hits = 0, lru_misses = 0\<rparr>"
    using assms(1) by (auto simp: AsyncLRUCache_init_def split: if_splits)
  have "lru_ok c' \<and> lru_keys c' = most_recent (lru_maxsize c) touched"
    using lru_run_recent[OF lru_ok_init[OF assms(1)] _ _ assms(2)] c
    by (simp add: no_expiry_def lru_keys_def most_recent_def last_n_def)
  then show ?thesis using c
    by (metis AsyncLRUCache.select_convs(1) length_last_n length_map lru_keys_def min.cobounded1 most_recent_def)
qed

theorem lru_keeps_most_recent_witness:
  "lru_keys (fst (lru_run [LSet 0 ''a'' (Some 1), LSet 0 ''b'' (Some 2), LGet 0 ''a'', LSet 0 ''c'' (Some (3::nat))]
      \<lparr>lru_maxsize = 2, lru_ttl = None, lru_store = [], lru_hits = 0, lru_misses = 0\<rparr> [])) = [''a'', ''c'']"
proof -
  let ?c = "\<lparr>lru_maxsize = 2, lru_ttl = None, lru_store = [], lru_hits = 0, lru_misses = 0\<rparr>"
  let ?ops = "[LSet 0 ''a'' (Some 1), LSet 0 ''b'' (Some 2), LGet 0 ''a'', LSet 0 ''c'' (Some (3::nat))]"
  obtain c' where run: "lru_run ?ops ?c [] = (c', [''a'', ''b'', ''a'', ''c''])"
    by (simp add: lru_keys_set lru_keys_def[of ?c])
  have "AsyncLRUCache_init 2 None = Inr ?c" by (simp add: AsyncLRUCache_init_def)
  from lru_keeps_most_recent[OF this run] run show ?thesis
    by (simp add: most_recent_def last_n_def)
qed

text \<open>A value written is read back, unless it has expired: right after a write, whatever had to be
  evicted, a read answers the value written as long as the entry's time to live (the entry's own, else
  the cache's) has not passed, and a miss afterwards.\<close>

theorem lru_get_after_set:
  assumes "lru_ok c"
  shows "fst (AsyncLRUCache_get later k (AsyncLRUCache_set now k v ttl c)) =
    (case (case ttl of Some t \<Rightarrow> Some t | None \<Rightarrow> lru_ttl c) of
       None \<Rightarrow> v
     | Some t \<Rightarrow> if now + t < later then None else v)"
  using lru_last_set[OF assms, of now k v ttl]
  by (simp add: AsyncLRUCache_get_def split: option.splits)

theorem lru_get_after_set_witness:
  "fst (AsyncLRUCache_get 5 ''b'' (AsyncLRUCache_set 0 ''b'' (Some (1::nat)) None
      \<lparr>lru_maxsize = 1, lru_ttl = Some 9, lru_store = [(''a'', (Some 7, None))], lru_hits = 0, lru_misses = 0\<rparr>)) = Some 1"
  using lru_get_after_set[of "\<lparr>lru_maxsize = 1, lru_ttl = Some 9, lru_store = [(''a'', (Some 7, None))],
      lru_hits = 0, lru_misses = 0\<rparr>" 5 "''b''" 0 "Some (1::nat)" None]
  by (simp add: lru_ok_def)

end
