(* ===== verification/Tagged_Cache.thy ===== *)
theory Tagged_Cache
  imports Lru_Cache
begin

text \<open>
  The tagged in-memory cache (\<^verbatim>\<open>application/cache/tags.py\<close>), the \<^verbatim>\<open>cached\<close> decorator and the warm-up
  service (\<^verbatim>\<open>application/cache/invalidation.py\<close>), cache keys (\<^verbatim>\<open>application/cache/keys.py\<close>) and the
  cache-aside policy (\<^verbatim>\<open>resilience/cache/aside.py\<close>). The clients use a cache through \<^verbatim>\<open>get\<close> and \<^verbatim>\<open>set\<close> only;
  the locale \<open>simple_cache\<close> is that contract, provided by the tagged cache and by the LRU cache.
  Concurrent \<^verbatim>\<open>get_or_load\<close> calls for one key are interleaved by \<open>ca_step\<close>.
\<close>

subsection \<open>The tagged store\<close>

record 'v InMemoryTaggedCacheStore =
  tc_data :: "(string, 'v option) pydict"
  tc_tags :: "(string, string set) pydict"
  tc_key_tags :: "(string, string set) pydict"

definition InMemoryTaggedCacheStore_init :: "'v InMemoryTaggedCacheStore" where
  "InMemoryTaggedCacheStore_init = \<lparr>tc_data = [], tc_tags = [], tc_key_tags = []\<rparr>"

text \<open>\<^verbatim>\<open>d.get(k, set())\<close>, \<^verbatim>\<open>d.setdefault(k, set()).add(x)\<close> and \<^verbatim>\<open>d.get(k, set()).discard(x)\<close>.\<close>

definition sets_of :: "('a, 'b set) pydict \<Rightarrow> 'a \<Rightarrow> 'b set" where
  "sets_of d k = dict_get_or d k {}"

definition add_to :: "'a \<Rightarrow> 'b \<Rightarrow> ('a, 'b set) pydict \<Rightarrow> ('a, 'b set) pydict" where
  "add_to k x d = dict_set k (insert x (sets_of d k)) d"

definition discard_from :: "'a \<Rightarrow> 'b \<Rightarrow> ('a, 'b set) pydict \<Rightarrow> ('a, 'b set) pydict" where
  "discard_from k x d = (case map_of d k of None \<Rightarrow> d | Some s \<Rightarrow> dict_set k (s - {x}) d)"

definition tagged_set ::
  "string \<Rightarrow> 'v option \<Rightarrow> string list \<Rightarrow> 'v InMemoryTaggedCacheStore \<Rightarrow> 'v InMemoryTaggedCacheStore" where
  "tagged_set key v tags c =
     (let c1 = c\<lparr>tc_data := dict_set key v (tc_data c)\<rparr>
      in fold (\<lambda>tag c. c\<lparr>tc_tags := add_to tag key (tc_tags c),
                          tc_key_tags := add_to key tag (tc_key_tags c)\<rparr>) tags c1)"

definition tagged_get :: "string \<Rightarrow> 'v InMemoryTaggedCacheStore \<Rightarrow> 'v option" where
  "tagged_get key c = (case map_of (tc_data c) key of None \<Rightarrow> None | Some v \<Rightarrow> v)"

text \<open>The loops over a set of tags or keys do not depend on the iteration order; the dictionaries are
  updated for every element.\<close>

definition discard_everywhere :: "'a set \<Rightarrow> 'b \<Rightarrow> ('a, 'b set) pydict \<Rightarrow> ('a, 'b set) pydict" where
  "discard_everywhere ks x d = map (\<lambda>(k, s). if k \<in> ks then (k, s - {x}) else (k, s)) d"

definition tagged_delete :: "string \<Rightarrow> 'v InMemoryTaggedCacheStore \<Rightarrow> 'v InMemoryTaggedCacheStore" where
  "tagged_delete key c =
     c\<lparr>tc_data := dict_pop key (tc_data c),
       tc_key_tags := dict_pop key (tc_key_tags c),
       tc_tags := discard_everywhere (sets_of (tc_key_tags c) key) key (tc_tags c)\<rparr>"

definition invalidate_tag :: "string \<Rightarrow> 'v InMemoryTaggedCacheStore \<Rightarrow> nat \<times> 'v InMemoryTaggedCacheStore" where
  "invalidate_tag tag c =
     (let keys = sets_of (tc_tags c) tag
      in (card keys,
          c\<lparr>tc_tags := dict_pop tag (tc_tags c),
            tc_data := filter (\<lambda>(k, v). k \<notin> keys) (tc_data c),
            tc_key_tags := discard_everywhere keys tag (tc_key_tags c)\<rparr>))"

lemma sets_of_add [simp]: "sets_of (add_to k x d) j = (if j = k then insert x (sets_of d k) else sets_of d j)"
  by (simp add: sets_of_def add_to_def dict_get_or_def)

lemma sets_of_pop [simp]: "sets_of (dict_pop k d) j = (if j = k then {} else sets_of d j)"
  by (simp add: sets_of_def dict_get_or_def)

lemma map_of_discard:
  "map_of (discard_everywhere ks x d) j = map_option (\<lambda>s. if j \<in> ks then s - {x} else s) (map_of d j)"
  by (induction d) (simp_all add: discard_everywhere_def split_def)

lemma sets_of_discard [simp]:
  "sets_of (discard_everywhere ks x d) j = (if j \<in> ks then sets_of d j - {x} else sets_of d j)"
  by (simp add: sets_of_def dict_get_or_def map_of_discard split: option.splits)

lemma map_of_filter_keys: "map_of (filter (\<lambda>(k, v). k \<notin> ks) d) j = (if j \<in> ks then None else map_of d j)"
  by (induction d) auto

lemma tagged_fold:
  "fold (\<lambda>tag c. c\<lparr>tc_tags := add_to tag key (tc_tags c), tc_key_tags := add_to key tag (tc_key_tags c)\<rparr>) tags c =
     c\<lparr>tc_tags := fold (\<lambda>tag d. add_to tag key d) tags (tc_tags c),
       tc_key_tags := fold (\<lambda>tag d. add_to key tag d) tags (tc_key_tags c)\<rparr>"
  by (induction tags arbitrary: c) simp_all

lemma sets_of_fold_tags:
  "sets_of (fold (\<lambda>tag d. add_to tag key d) tags d) t =
     (if t \<in> set tags then insert key (sets_of d t) else sets_of d t)"
  by (induction tags arbitrary: d) auto

lemma sets_of_fold_keys:
  "sets_of (fold (\<lambda>tag d. add_to key tag d) tags d) k =
     (if k = key then sets_of d k \<union> set tags else sets_of d k)"
  by (induction tags arbitrary: d) auto

lemma tagged_set_fields:
  "tc_data (tagged_set key v tags c) = dict_set key v (tc_data c)"
  "sets_of (tc_tags (tagged_set key v tags c)) t =
     (if t \<in> set tags then insert key (sets_of (tc_tags c) t) else sets_of (tc_tags c) t)"
  "sets_of (tc_key_tags (tagged_set key v tags c)) k =
     (if k = key then sets_of (tc_key_tags c) k \<union> set tags else sets_of (tc_key_tags c) k)"
  by (simp_all add: tagged_set_def tagged_fold sets_of_fold_tags sets_of_fold_keys Let_def)

lemma tagged_get_invalidate:
  "tagged_get k (snd (invalidate_tag t c)) = (if k \<in> sets_of (tc_tags c) t then None else tagged_get k c)"
  by (simp add: tagged_get_def invalidate_tag_def Let_def map_of_filter_keys)

text \<open>The two indexes agree.\<close>

definition index_ok :: "'v InMemoryTaggedCacheStore \<Rightarrow> bool" where
  "index_ok c \<longleftrightarrow> (\<forall>t k. k \<in> sets_of (tc_tags c) t \<longleftrightarrow> t \<in> sets_of (tc_key_tags c) k)"

lemma index_ok_set [inv_intros]: "index_ok c \<Longrightarrow> index_ok (tagged_set key v tags c)"
  by (auto simp: index_ok_def tagged_set_fields)

lemma index_ok_delete [inv_intros]: "index_ok c \<Longrightarrow> index_ok (tagged_delete key c)"
  by (auto simp: index_ok_def tagged_delete_def)

lemma index_ok_invalidate [inv_intros]: "index_ok c \<Longrightarrow> index_ok (snd (invalidate_tag tag c))"
  by (auto simp: index_ok_def invalidate_tag_def Let_def)

subsection \<open>Histories\<close>

datatype 'v tag_op = TSet string "'v option" "string list" | TDelete string | TInvalidate string

fun tag_step :: "'v tag_op \<Rightarrow> 'v InMemoryTaggedCacheStore \<Rightarrow> 'v InMemoryTaggedCacheStore" where
  "tag_step (TSet k v tags) c = tagged_set k v tags c"
| "tag_step (TDelete k) c = tagged_delete k c"
| "tag_step (TInvalidate t) c = snd (invalidate_tag t c)"

text \<open>The tags each key was given by its latest write.\<close>

fun latest_step :: "'v tag_op \<Rightarrow> (string \<Rightarrow> string set) \<Rightarrow> (string \<Rightarrow> string set)" where
  "latest_step (TSet k v tags) g = g(k := set tags)"
| "latest_step (TDelete k) g = g"
| "latest_step (TInvalidate t) g = g"

definition covers :: "(string \<Rightarrow> string set) \<Rightarrow> 'v InMemoryTaggedCacheStore \<Rightarrow> bool" where
  "covers g c \<longleftrightarrow>
     (\<forall>k t. map_of (tc_data c) k \<noteq> None \<and> t \<in> g k \<longrightarrow> k \<in> sets_of (tc_tags c) t)"

lemma covers_step: "index_ok c \<Longrightarrow> covers g c \<Longrightarrow> covers (latest_step op g) (tag_step op c)"
  by (cases op)
     (auto simp: covers_def tagged_set_fields tagged_delete_def invalidate_tag_def Let_def map_of_filter_keys
       split: if_splits)

lemma index_ok_step: "index_ok c \<Longrightarrow> index_ok (tag_step op c)"
  by (cases op) (auto intro: inv_intros)

lemma covers_run:
  "index_ok c \<Longrightarrow> covers g c \<Longrightarrow>
   index_ok (fold tag_step ops c) \<and> covers (fold latest_step ops g) (fold tag_step ops c)"
proof (induction ops arbitrary: c g)
  case (Cons op ops)
  from Cons.IH[OF index_ok_step[OF Cons.prems(1)] covers_step[OF Cons.prems]] show ?case by simp
qed simp

lemma tagged_init_ok: "index_ok InMemoryTaggedCacheStore_init" "covers g InMemoryTaggedCacheStore_init"
  by (simp_all add: index_ok_def covers_def InMemoryTaggedCacheStore_init_def sets_of_def dict_get_or_def)

text \<open>Tags are never taken off a key by writing it again: a key written with a tag once, and later
  without, is still removed with that tag.\<close>

lemma tagged_reset_keeps_tags:
  "tagged_get k (snd (invalidate_tag t (tagged_set k (Some v) [] (tagged_set k (Some u) [t] c)))) = None"
  by (simp add: tagged_get_invalidate tagged_set_fields)

subsection \<open>Caches as seen by their clients\<close>

locale simple_cache =
  fixes get :: "'k \<Rightarrow> 'c \<Rightarrow> 'v option \<times> 'c"
    and put :: "'k \<Rightarrow> 'v option \<Rightarrow> 'c \<Rightarrow> 'c"
    and ok :: "'c \<Rightarrow> bool"
  assumes ok_get: "ok c \<Longrightarrow> ok (snd (get k c))"
    and ok_put: "ok c \<Longrightarrow> ok (put k v c)"
    and get_put: "ok c \<Longrightarrow> fst (get k (put k v c)) = v"
    and get_again: "ok c \<Longrightarrow> fst (get k (snd (get k c))) = fst (get k c)"

text \<open>Load on a miss, for one caller: the body of \<^verbatim>\<open>cached\<close> and of \<^verbatim>\<open>get_or_load\<close> without contention.\<close>

definition load_through ::
  "('k \<Rightarrow> 'c \<Rightarrow> 'v option \<times> 'c) \<Rightarrow> ('k \<Rightarrow> 'v option \<Rightarrow> 'c \<Rightarrow> 'c) \<Rightarrow> 'k \<Rightarrow> ('w, 'v option) act
    \<Rightarrow> 'c \<times> 'w \<Rightarrow> (exn + 'v option) \<times> 'c \<times> 'w" where
  "load_through get put key loader cw =
     (case cw of (c, w) \<Rightarrow>
        (case get key c of
           (Some x, c1) \<Rightarrow> (Inr (Some x), c1, w)
         | (None, c1) \<Rightarrow>
             (case loader w of
                (Inl e, w1) \<Rightarrow> (Inl e, c1, w1)
              | (Inr v, w1) \<Rightarrow> (Inr v, put key v c1, w1))))"

context simple_cache
begin

lemma load_through_ok:
  "ok c \<Longrightarrow> load_through get put k loader (c, w) = (r, c', w') \<Longrightarrow> ok c'"
  by (auto simp: load_through_def split: prod.splits option.splits sum.splits intro: ok_put)
     (metis ok_get ok_put snd_conv)+

text \<open>A second call right after a successful one returning a proper value does not load again.\<close>

lemma load_through_once:
  assumes "ok c" and "load_through get put k loader (c, w) = (Inr (Some x), c', w')"
  shows "\<exists>c''. load_through get put k loader' (c', w') = (Inr (Some x), c'', w')"
proof (cases "fst (get k c)")
  case None
  then obtain c1 where c1: "get k c = (None, c1)" by (metis prod.collapse)
  then have "c' = put k (Some x) c1"
    using assms(2) by (auto simp: load_through_def split: prod.splits sum.splits)
  then have "fst (get k c') = Some x" using get_put ok_get[OF assms(1), of k] c1 by simp
  then show ?thesis by (auto simp: load_through_def split: prod.splits option.splits)
next
  case (Some y)
  then obtain c1 where c1: "get k c = (Some y, c1)" by (metis prod.collapse)
  then have "y = x" "c' = c1" "w' = w" using assms(2) by (auto simp: load_through_def)
  then have "fst (get k c') = Some x" using get_again[OF assms(1), of k] c1 by simp
  then show ?thesis by (auto simp: load_through_def split: prod.splits option.splits)
qed

end

interpretation tagged_cache: simple_cache "\<lambda>k c. (tagged_get k c, c)" "\<lambda>k v c. tagged_set k v [] c" "\<lambda>_. True"
  by unfold_locales (simp_all add: tagged_get_def tagged_set_fields)

interpretation lru_cache: simple_cache "AsyncLRUCache_get 0" "\<lambda>k v c. AsyncLRUCache_set 0 k v None c"
    "\<lambda>c. lru_ok c \<and> no_expiry c"
proof (unfold_locales, goal_cases)
  case (1 c k)
  then show ?case by (simp add: lru_ok_get no_expiry_get)
next
  case (2 c k v)
  then show ?case by (simp add: lru_ok_set no_expiry_set)
next
  case (3 c k v)
  then show ?case using lru_last_set[of c 0 k v None]
    by (simp add: AsyncLRUCache_get_def no_expiry_def)
next
  case (4 c k)
  then show ?case
    by (auto simp: AsyncLRUCache_get_def no_expiry_iff split: option.splits dest!: map_of_SomeD)
qed

subsection \<open>Clients\<close>

text \<open>\<^verbatim>\<open>cached\<close> on a function whose key and tags are given.\<close>

definition cached ::
  "('args \<Rightarrow> string) \<Rightarrow> string list \<Rightarrow> ('args \<Rightarrow> ('w, 'v option) act) \<Rightarrow> 'args
    \<Rightarrow> 'v InMemoryTaggedCacheStore \<times> 'w \<Rightarrow> (exn + 'v option) \<times> 'v InMemoryTaggedCacheStore \<times> 'w" where
  "cached key_fn tags fn args =
     load_through (\<lambda>k c. (tagged_get k c, c)) (\<lambda>k v c. tagged_set k v tags c) (key_fn args) (fn args)"

type_synonym ('w, 'v) CacheWarmupService = "(string, ('w, 'v option) act) pydict"

definition CacheWarmupService_register ::
  "string \<Rightarrow> ('w, 'v option) act \<Rightarrow> ('w, 'v) CacheWarmupService \<Rightarrow> ('w, 'v) CacheWarmupService" where
  "CacheWarmupService_register key loader loaders = dict_set key loader loaders"

definition CacheWarmupService_warm ::
  "string \<Rightarrow> ('w, 'v) CacheWarmupService \<Rightarrow> 'v InMemoryTaggedCacheStore \<times> 'w
    \<Rightarrow> (exn + 'v option) \<times> 'v InMemoryTaggedCacheStore \<times> 'w" where
  "CacheWarmupService_warm key loaders cw =
     (case cw of (c, w) \<Rightarrow>
        (case map_of loaders key of
           None \<Rightarrow> (Inl (plain_exn KeyError (''No loader registered for key: '' @ repr_str key)), c, w)
         | Some loader \<Rightarrow>
             (case loader w of
                (Inl e, w') \<Rightarrow> (Inl e, c, w')
              | (Inr v, w') \<Rightarrow> (Inr v, tagged_set key v [] c, w'))))"

text \<open>\<open>sha256_hex\<close> and \<open>json_sorted\<close> stand for \<^verbatim>\<open>hashlib\<close> and \<^verbatim>\<open>json.dumps(..., sort_keys=True)\<close>.\<close>

definition CacheKey_for_resource :: "string \<Rightarrow> string \<Rightarrow> string" where
  "CacheKey_for_resource ty i = ty @ '':'' @ i"

definition CacheKey_for_query ::
  "(string \<Rightarrow> string) \<Rightarrow> ('args \<Rightarrow> string) \<Rightarrow> string \<Rightarrow> 'args \<Rightarrow> string" where
  "CacheKey_for_query sha256_hex json_sorted ty args =
     ''query:'' @ ty @ '':'' @ take 16 (sha256_hex (json_sorted args))"

text \<open>\<^verbatim>\<open>CacheAsidePolicy.get_or_load\<close> for one caller: the cache is read a second time under the key's lock.\<close>

definition CacheAsidePolicy_get_or_load ::
  "('k \<Rightarrow> 'c \<Rightarrow> 'v option \<times> 'c) \<Rightarrow> ('k \<Rightarrow> 'v option \<Rightarrow> 'c \<Rightarrow> 'c) \<Rightarrow> 'k \<Rightarrow> ('w, 'v option) act
    \<Rightarrow> 'c \<times> 'w \<Rightarrow> (exn + 'v option) \<times> 'c \<times> 'w" where
  "CacheAsidePolicy_get_or_load get put key loader cw =
     (case cw of (c, w) \<Rightarrow>
        (case get key c of
           (Some x, c1) \<Rightarrow> (Inr (Some x), c1, w)
         | (None, c1) \<Rightarrow> load_through get put key loader (c1, w)))"

text \<open>The wrapper of the decorator \<^verbatim>\<open>cache_aside\<close> over the tagged store.\<close>

definition cache_aside ::
  "('args \<Rightarrow> string) \<Rightarrow> ('args \<Rightarrow> ('w, 'v option) act) \<Rightarrow> 'args
    \<Rightarrow> 'v InMemoryTaggedCacheStore \<times> 'w \<Rightarrow> (exn + 'v option) \<times> 'v InMemoryTaggedCacheStore \<times> 'w" where
  "cache_aside key_fn fn args =
     CacheAsidePolicy_get_or_load (\<lambda>k c. (tagged_get k c, c)) (\<lambda>k v c. tagged_set k v [] c)
       (key_fn args) (fn args)"

subsection \<open>Concurrent loads of one key\<close>

text \<open>Where a caller stands: before the first read; waiting for the lock; holding it, before the second read; awaiting the loader;
  awaiting \<^verbatim>\<open>set\<close> with the loaded value, before and after the cache has taken it; returned; raised.\<close>

datatype 'v ca_pc = CaStart | CaMiss | CaLocked | CaLoading | CaStoring "'v option" | CaStored "'v option" | CaDone "'v option" | CaFailed

text \<open>\<open>ca_loads\<close> counts the calls of the loader and \<open>ca_values\<close> lists what they returned. \<open>ca_lost\<close> counts what makes another
  load necessary: loads that raised or gave \<^verbatim>\<open>None\<close>, values the cache did not take, and values that expired.\<close>

record 'v ca_system =
  ca_cache :: "'v option"
  ca_lock :: "nat option"
  ca_loads :: nat
  ca_values :: "'v list"
  ca_lost :: nat
  ca_pcs :: "nat \<Rightarrow> 'v ca_pc"

definition ca_init :: "'v ca_system" where
  "ca_init = \<lparr>ca_cache = None, ca_lock = None, ca_loads = 0, ca_values = [], ca_lost = 0, ca_pcs = (\<lambda>_. CaStart)\<rparr>"

definition ca_to :: "nat \<Rightarrow> 'v ca_pc \<Rightarrow> 'v ca_system \<Rightarrow> 'v ca_system" where
  "ca_to t pc s = s\<lparr>ca_pcs := (ca_pcs s)(t := pc)\<rparr>"

text \<open>The steps between the suspension points of \<^verbatim>\<open>get_or_load\<close>, for task \<open>t\<close>. Every awaited call may raise, cancellation included;
  \<^verbatim>\<open>set\<close> may do so before or after the cache has taken the value. The cached value may expire at any time.\<close>

inductive ca_step :: "'v ca_system \<Rightarrow> 'v ca_system \<Rightarrow> bool" where
  ca_first_hit: "ca_pcs s t = CaStart \<Longrightarrow> ca_cache s = Some v \<Longrightarrow> ca_step s (ca_to t (CaDone (Some v)) s)"
| ca_first_miss: "ca_pcs s t = CaStart \<Longrightarrow> ca_cache s = None \<Longrightarrow> ca_step s (ca_to t CaMiss s)"
| ca_acquire: "ca_pcs s t = CaMiss \<Longrightarrow> ca_lock s = None \<Longrightarrow> ca_step s (ca_to t CaLocked (s\<lparr>ca_lock := Some t\<rparr>))"
| ca_unlocked_raise: "ca_pcs s t \<in> {CaStart, CaMiss} \<Longrightarrow> ca_step s (ca_to t CaFailed s)"
| ca_second_hit:
    "ca_pcs s t = CaLocked \<Longrightarrow> ca_cache s = Some v \<Longrightarrow> ca_step s (ca_to t (CaDone (Some v)) (s\<lparr>ca_lock := None\<rparr>))"
| ca_second_miss:
    "ca_pcs s t = CaLocked \<Longrightarrow> ca_cache s = None \<Longrightarrow> ca_step s (ca_to t CaLoading (s\<lparr>ca_loads := Suc (ca_loads s)\<rparr>))"
| ca_locked_raise: "ca_pcs s t = CaLocked \<Longrightarrow> ca_step s (ca_to t CaFailed (s\<lparr>ca_lock := None\<rparr>))"
| ca_loaded:
    "ca_pcs s t = CaLoading \<Longrightarrow> ca_step s (ca_to t (CaStoring (Some v)) (s\<lparr>ca_values := v # ca_values s\<rparr>))"
| ca_loaded_none:
    "ca_pcs s t = CaLoading \<Longrightarrow> ca_step s (ca_to t (CaStoring None) (s\<lparr>ca_lost := Suc (ca_lost s)\<rparr>))"
| ca_load_raise:
    "ca_pcs s t = CaLoading \<Longrightarrow> ca_step s (ca_to t CaFailed (s\<lparr>ca_lock := None, ca_lost := Suc (ca_lost s)\<rparr>))"
| ca_store: "ca_pcs s t = CaStoring v \<Longrightarrow> ca_step s (ca_to t (CaStored v) (s\<lparr>ca_cache := v\<rparr>))"
| ca_store_raise:
    "ca_pcs s t = CaStoring v \<Longrightarrow> ca_step s (ca_to t CaFailed (s\<lparr>ca_lock := None, ca_lost := Suc (ca_lost s)\<rparr>))"
| ca_stored_raise: "ca_pcs s t = CaStored v \<Longrightarrow> ca_step s (ca_to t CaFailed (s\<lparr>ca_lock := None\<rparr>))"
| ca_return: "ca_pcs s t = CaStored v \<Longrightarrow> ca_step s (ca_to t (CaDone v) (s\<lparr>ca_lock := None\<rparr>))"
| ca_expire: "ca_cache s = Some v \<Longrightarrow> ca_step s (s\<lparr>ca_cache := None, ca_lost := Suc (ca_lost s)\<rparr>)"

inductive ca_reach :: "'v ca_system \<Rightarrow> bool" where
  ca_start: "ca_reach ca_init"
| ca_next: "ca_reach s \<Longrightarrow> ca_step s s' \<Longrightarrow> ca_reach s'"

text \<open>Holding the lock, having a load under way, having one that may still give the cache a value, and the value a caller has in hand.\<close>

fun holds_lock :: "'v ca_pc \<Rightarrow> bool" where
  "holds_lock CaLocked = True" | "holds_lock CaLoading = True" | "holds_lock (CaStoring v) = True" | "holds_lock (CaStored v) = True"
| "holds_lock pc = False"

fun loading :: "'v ca_pc \<Rightarrow> bool" where
  "loading CaLoading = True" | "loading (CaStoring v) = True" | "loading pc = False"

fun promising :: "'v ca_pc \<Rightarrow> bool" where
  "promising CaLoading = True" | "promising (CaStoring v) = (v \<noteq> None)" | "promising pc = False"

fun in_hand :: "'v ca_pc \<Rightarrow> 'v option" where
  "in_hand (CaStoring v) = v" | "in_hand (CaStored v) = v" | "in_hand (CaDone v) = v" | "in_hand pc = None"

definition ca_inv :: "'v ca_system \<Rightarrow> bool" where
  "ca_inv s \<longleftrightarrow>
     (\<forall>t. holds_lock (ca_pcs s t) \<longrightarrow> ca_lock s = Some t)
     \<and> (\<forall>t. loading (ca_pcs s t) \<longrightarrow> ca_cache s = None)
     \<and> ca_loads s \<le> ca_lost s + of_bool (ca_cache s \<noteq> None \<or> (\<exists>t. promising (ca_pcs s t)))
     \<and> length (ca_values s) + of_bool (\<exists>t. ca_pcs s t = CaLoading) \<le> ca_loads s
     \<and> set_option (ca_cache s) \<subseteq> set (ca_values s) \<and> (\<forall>t. set_option (in_hand (ca_pcs s t)) \<subseteq> set (ca_values s))"

lemma loading_holds_lock: "loading pc \<Longrightarrow> holds_lock pc"
  by (cases pc) auto

lemma promising_loading: "promising pc \<Longrightarrow> loading pc"
  by (cases pc) auto

lemma ca_inv_parts:
  assumes "ca_inv s"
  shows "holds_lock (ca_pcs s t) \<Longrightarrow> ca_lock s = Some t" "loading (ca_pcs s t) \<Longrightarrow> ca_cache s = None"
    and "ca_loads s \<le> ca_lost s + of_bool (ca_cache s \<noteq> None \<or> (\<exists>t. promising (ca_pcs s t)))"
    and "ca_cache s = Some v \<Longrightarrow> v \<in> set (ca_values s)" "in_hand (ca_pcs s t) = Some v \<Longrightarrow> v \<in> set (ca_values s)"
    and "length (ca_values s) + of_bool (\<exists>t. ca_pcs s t = CaLoading) \<le> ca_loads s"
proof -
  have "set_option (in_hand (ca_pcs s t)) \<subseteq> set (ca_values s)" "set_option (ca_cache s) \<subseteq> set (ca_values s)"
    using assms by (simp_all add: ca_inv_def)
  then show "ca_cache s = Some v \<Longrightarrow> v \<in> set (ca_values s)" "in_hand (ca_pcs s t) = Some v \<Longrightarrow> v \<in> set (ca_values s)"
    by simp_all
qed (use assms in \<open>auto simp: ca_inv_def\<close>)

lemma ca_invI:
  assumes "\<And>t. holds_lock (ca_pcs s t) \<Longrightarrow> ca_lock s = Some t" "\<And>t. loading (ca_pcs s t) \<Longrightarrow> ca_cache s = None"
    and "ca_loads s \<le> ca_lost s + of_bool (ca_cache s \<noteq> None \<or> (\<exists>t. promising (ca_pcs s t)))"
    and "length (ca_values s) + of_bool (\<exists>t. ca_pcs s t = CaLoading) \<le> ca_loads s"
    and "\<And>v. ca_cache s = Some v \<Longrightarrow> v \<in> set (ca_values s)" "\<And>t v. in_hand (ca_pcs s t) = Some v \<Longrightarrow> v \<in> set (ca_values s)"
  shows "ca_inv s"
proof -
  have "set_option (ca_cache s) \<subseteq> set (ca_values s)" "set_option (in_hand (ca_pcs s t)) \<subseteq> set (ca_values s)" for t
    using assms(5,6) by (auto simp: elem_set)
  with assms(1-4) show ?thesis
    unfolding ca_inv_def by blast
qed

text \<open>Only the holder of the lock loads or stores.\<close>

lemma ca_only_holder:
  "ca_inv s \<Longrightarrow> holds_lock (ca_pcs s t) \<Longrightarrow> holds_lock (ca_pcs s u) \<Longrightarrow> u = t"
  using ca_inv_parts(1)[of s t] ca_inv_parts(1)[of s u] by simp

lemma ca_inv_init: "ca_inv ca_init"
  by (rule ca_invI) (simp_all add: ca_init_def)

text \<open>A task that does not hold the lock moves without loading; the holder's move is seen by nobody else that loads.\<close>

lemma ca_inv_to:
  assumes i: "ca_inv s" and pc: "\<not> holds_lock (ca_pcs s t)" "\<not> holds_lock pc"
    and v: "\<And>v. in_hand pc = Some v \<Longrightarrow> v \<in> set (ca_values s)"
  shows "ca_inv (ca_to t pc s)"
proof -
  have nl: "\<not> loading (ca_pcs s t)" "\<not> loading pc"
    using pc loading_holds_lock by blast+
  have "promising (ca_pcs (ca_to t pc s) u) = promising (ca_pcs s u)" "(ca_pcs (ca_to t pc s) u = CaLoading) = (ca_pcs s u = CaLoading)" for u
    using nl promising_loading[of pc] promising_loading[of "ca_pcs s t"] by (auto simp: ca_to_def)
  then have ex: "(\<exists>u. promising (ca_pcs (ca_to t pc s) u)) = (\<exists>u. promising (ca_pcs s u))"
    "(\<exists>u. ca_pcs (ca_to t pc s) u = CaLoading) = (\<exists>u. ca_pcs s u = CaLoading)"
    by simp_all
  have keep: "ca_loads (ca_to t pc s) = ca_loads s" "ca_lost (ca_to t pc s) = ca_lost s" "ca_cache (ca_to t pc s) = ca_cache s"
    "ca_values (ca_to t pc s) = ca_values s" "ca_lock (ca_to t pc s) = ca_lock s"
    by (simp_all add: ca_to_def)
  show ?thesis
  proof (rule ca_invI, unfold keep ex)
  qed (use ca_inv_parts[OF i] pc nl v in \<open>auto simp: ca_to_def split: if_splits\<close>)
qed

lemma ca_inv_holder:
  assumes i: "ca_inv s" and h: "holds_lock (ca_pcs s t)"
    and s': "ca_pcs s' = (ca_pcs s)(t := pc)" "ca_lock s' = (if holds_lock pc then Some t else None)"
    and c: "loading pc \<Longrightarrow> ca_cache s' = None" and n: "ca_loads s' \<le> ca_lost s' + of_bool (ca_cache s' \<noteq> None \<or> promising pc)"
    and m: "length (ca_values s') + of_bool (pc = CaLoading) \<le> ca_loads s'"
    and vs: "set (ca_values s) \<subseteq> set (ca_values s')" "\<And>v. ca_cache s' = Some v \<Longrightarrow> v \<in> set (ca_values s')"
      "\<And>v. in_hand pc = Some v \<Longrightarrow> v \<in> set (ca_values s')"
  shows "ca_inv s'"
proof -
  have others: "\<not> holds_lock (ca_pcs s u)" "\<not> loading (ca_pcs s u)" "\<not> promising (ca_pcs s u)" if "u \<noteq> t" for u
    using ca_only_holder[OF i h, of u] loading_holds_lock[of "ca_pcs s u"] promising_loading[of "ca_pcs s u"] that by blast+
  have ex: "(\<exists>u. promising (ca_pcs s' u)) = promising pc" "(\<exists>u. ca_pcs s' u = CaLoading) = (pc = CaLoading)"
    using others by (force simp: s' split: if_splits)+
  show ?thesis
  proof (rule ca_invI)
    show "ca_loads s' \<le> ca_lost s' + of_bool (ca_cache s' \<noteq> None \<or> (\<exists>t. promising (ca_pcs s' t)))"
      using n unfolding ex .
    show "length (ca_values s') + of_bool (\<exists>t. ca_pcs s' t = CaLoading) \<le> ca_loads s'"
      using m unfolding ex .
  qed (use others c vs ca_inv_parts(5)[OF i] in \<open>auto simp: s' split: if_splits\<close>)
qed

lemma ca_holder_loads:
  assumes i: "ca_inv s" and h: "holds_lock (ca_pcs s t)"
  shows "length (ca_values s) + of_bool (ca_pcs s t = CaLoading) \<le> ca_loads s"
    and "ca_loads s \<le> ca_lost s + of_bool (ca_cache s \<noteq> None \<or> promising (ca_pcs s t))"
proof -
  have "(\<exists>u. promising (ca_pcs s u)) = promising (ca_pcs s t)"
    using ca_only_holder[OF i h] loading_holds_lock promising_loading by metis
  then show "ca_loads s \<le> ca_lost s + of_bool (ca_cache s \<noteq> None \<or> promising (ca_pcs s t))"
    using ca_inv_parts(3)[OF i] by simp
  have "(\<exists>u. ca_pcs s u = CaLoading) = (ca_pcs s t = CaLoading)"
    using ca_only_holder[OF i h] by force
  then show "length (ca_values s) + of_bool (ca_pcs s t = CaLoading) \<le> ca_loads s"
    using ca_inv_parts(6)[OF i] by simp
qed

text \<open>The steps of the holder, as instances of the lemma above.\<close>

lemma ca_inv_step: "ca_step s s' \<Longrightarrow> ca_inv s \<Longrightarrow> ca_inv s'"
proof (induction rule: ca_step.induct)
  case (ca_first_hit s t v)
  then show ?case
    by (intro ca_inv_to) (auto dest: ca_inv_parts(4))
next
  case (ca_first_miss s t)
  then show ?case
    by (intro ca_inv_to) auto
next
  case (ca_acquire s t)
  have "\<not> holds_lock (ca_pcs s u)" "\<not> loading (ca_pcs s u)" "\<not> promising (ca_pcs s u)" "ca_pcs s u \<noteq> CaLoading" for u
    using ca_inv_parts(1)[OF ca_acquire(3), of u] ca_acquire(2) loading_holds_lock[of "ca_pcs s u"]
      promising_loading[of "ca_pcs s u"] by auto
  with ca_acquire ca_inv_parts(3-6)[OF ca_acquire(3)] show ?case
    by (intro ca_invI) (auto simp: ca_to_def split: if_splits)
next
  case (ca_unlocked_raise s t)
  then show ?case
    by (intro ca_inv_to) auto
next
  case (ca_second_hit s t v)
  show ?case
    by (rule ca_inv_holder[of s t _ "CaDone (Some v)"]) (use ca_second_hit ca_holder_loads[of s t] ca_inv_parts(4)[of s v] in \<open>auto simp: ca_to_def\<close>)
next
  case (ca_second_miss s t)
  show ?case
    by (rule ca_inv_holder[of s t _ CaLoading]) (use ca_second_miss ca_holder_loads[of s t] ca_inv_parts(1)[of s t] in \<open>auto simp: ca_to_def\<close>)
next
  case (ca_locked_raise s t)
  show ?case
    by (rule ca_inv_holder[of s t _ CaFailed]) (use ca_locked_raise ca_holder_loads[of s t] ca_inv_parts(4)[of s] in \<open>auto simp: ca_to_def\<close>)
next
  case (ca_loaded s t v)
  show ?case
    by (rule ca_inv_holder[of s t _ "CaStoring (Some v)"]) (use ca_loaded ca_holder_loads[of s t] ca_inv_parts(1,2)[of s t] in \<open>auto simp: ca_to_def\<close>)
next
  case (ca_loaded_none s t)
  show ?case
    by (rule ca_inv_holder[of s t _ "CaStoring None"]) (use ca_loaded_none ca_holder_loads[of s t] ca_inv_parts(1,2)[of s t] in \<open>auto simp: ca_to_def\<close>)
next
  case (ca_load_raise s t)
  show ?case
    by (rule ca_inv_holder[of s t _ CaFailed]) (use ca_load_raise ca_holder_loads[of s t] ca_inv_parts(1,2)[of s t] in \<open>auto simp: ca_to_def\<close>)
next
  case (ca_store s t v)
  show ?case
    by (rule ca_inv_holder[of s t _ "CaStored v"]) (use ca_store ca_holder_loads[of s t] ca_inv_parts(1,2,5)[of s t] in \<open>auto simp: ca_to_def\<close>)
next
  case (ca_store_raise s t v)
  show ?case
    by (rule ca_inv_holder[of s t _ CaFailed]) (use ca_store_raise ca_holder_loads[of s t] ca_inv_parts(1,2)[of s t] in \<open>auto simp: ca_to_def of_bool_def split: if_splits\<close>)
next
  case (ca_stored_raise s t v)
  show ?case
    by (rule ca_inv_holder[of s t _ CaFailed]) (use ca_stored_raise ca_holder_loads[of s t] ca_inv_parts(4)[of s] in \<open>auto simp: ca_to_def\<close>)
next
  case (ca_return s t v)
  show ?case
    by (rule ca_inv_holder[of s t _ "CaDone v"]) (use ca_return ca_holder_loads[of s t] ca_inv_parts(4)[of s] ca_inv_parts(5)[of s t] in \<open>auto simp: ca_to_def\<close>)
next
  case (ca_expire s v)
  have "\<not> loading (ca_pcs s u)" "\<not> promising (ca_pcs s u)" "ca_pcs s u \<noteq> CaLoading" for u
    using ca_inv_parts(2)[OF ca_expire(2), of u] ca_expire(1) promising_loading[of "ca_pcs s u"] by auto
  with ca_expire ca_inv_parts[OF ca_expire(2)] show ?case
    by (intro ca_invI) (auto simp: of_bool_def split: if_splits)
qed

lemma ca_reach_inv: "ca_reach s \<Longrightarrow> ca_inv s"
  by (induction rule: ca_reach.induct) (auto intro: ca_inv_init ca_inv_step)

subsection \<open>Properties\<close>

text \<open>C16. Invalidating a tag misses nothing: after any history of writes, deletions and invalidations,
  a key whose latest write carried the tag is gone, and a key that was never filed under the tag is
  still answered as before.\<close>

theorem tag_invalidation_complete:
  "(t \<in> fold latest_step ops (\<lambda>_. {}) k \<longrightarrow>
      tagged_get k (snd (invalidate_tag t (fold tag_step ops InMemoryTaggedCacheStore_init))) = None)
   \<and> (k \<notin> sets_of (tc_tags (fold tag_step ops InMemoryTaggedCacheStore_init)) t \<longrightarrow>
      tagged_get k (snd (invalidate_tag t (fold tag_step ops InMemoryTaggedCacheStore_init))) =
      tagged_get k (fold tag_step ops InMemoryTaggedCacheStore_init))"
proof -
  let ?c = "fold tag_step ops InMemoryTaggedCacheStore_init"
  have "covers (fold latest_step ops (\<lambda>_. {})) ?c"
    using covers_run tagged_init_ok by blast
  then have "k \<in> sets_of (tc_tags ?c) t \<or> tagged_get k ?c = None" if "t \<in> fold latest_step ops (\<lambda>_. {}) k"
    using that by (cases "map_of (tc_data ?c) k") (auto simp: covers_def tagged_get_def)
  then show ?thesis unfolding tagged_get_invalidate by auto
qed

theorem tag_invalidation_complete_witness:
  "tagged_get ''u1'' (snd (invalidate_tag ''users'' (fold tag_step
      [TSet ''u1'' (Some (1::nat)) [''users''], TSet ''p1'' (Some 2) [''posts'']] InMemoryTaggedCacheStore_init))) = None"
  using tag_invalidation_complete[of "''users''"
      "[TSet ''u1'' (Some (1::nat)) [''users''], TSet ''p1'' (Some 2) [''posts'']]" "''u1''"]
  by simp



end
