(* ===== verification/Rate_Limit.thy ===== *)
theory Rate_Limit
  imports Errors
begin

text \<open>
  Application rate limiting (\<^verbatim>\<open>application/rate_limit/rate_limiter.py\<close> and
  \<^verbatim>\<open>application/rate_limit/local.py\<close>). Instants are microseconds, the resolution of Python's
  \<^verbatim>\<open>datetime\<close>. Despite its name the local limiter counts requests in a window that opens with
  the first request; the lemmas give its exact bounds.
\<close>

subsection \<open>Quota and result\<close>

datatype RateLimitDecision = ALLOWED | DENIED

record Quota =
  q_key :: string
  q_limit :: int
  q_window_seconds :: int

definition window_label :: "Quota \<Rightarrow> string" where
  "window_label q = show_int (q_limit q) @ '' req/'' @ show_int (q_window_seconds q) @ ''s''"

record RateLimitResult =
  rl_decision :: RateLimitDecision
  rl_remaining :: int
  rl_reset_at :: int
  rl_quota :: Quota

definition rl_allowed :: "RateLimitResult \<Rightarrow> bool" where
  "rl_allowed r \<longleftrightarrow> rl_decision r = ALLOWED"

definition microseconds :: "int \<Rightarrow> int" where
  "microseconds s = s * 1000000"

definition retry_after_seconds :: "int \<Rightarrow> RateLimitResult \<Rightarrow> rat" where
  "retry_after_seconds now r = max 0 (of_int (rl_reset_at r - now) / 1000000)"

subsection \<open>The local limiter\<close>

type_synonym LocalTokenBucketRateLimiter = "(string, int \<times> int) pydict"

definition rl_key :: "Quota \<Rightarrow> string \<Rightarrow> string" where
  "rl_key q identifier = q_key q @ '':'' @ identifier"

definition rl_check ::
  "int \<Rightarrow> Quota \<Rightarrow> string \<Rightarrow> LocalTokenBucketRateLimiter \<Rightarrow> RateLimitResult \<times> LocalTokenBucketRateLimiter" where
  "rl_check now q identifier buckets =
     (let key = rl_key q identifier;
          (count, window_start) = dict_get_or buckets key (0, now);
          (count, window_start) =
            (if now - window_start \<ge> microseconds (q_window_seconds q) then (0, now) else (count, window_start));
          reset_at = window_start + microseconds (q_window_seconds q)
      in if count < q_limit q
         then (\<lparr>rl_decision = ALLOWED, rl_remaining = q_limit q - count - 1, rl_reset_at = reset_at, rl_quota = q\<rparr>,
               dict_set key (count + 1, window_start) buckets)
         else (\<lparr>rl_decision = DENIED, rl_remaining = 0, rl_reset_at = reset_at, rl_quota = q\<rparr>, buckets))"

definition rl_reset :: "Quota \<Rightarrow> string \<Rightarrow> LocalTokenBucketRateLimiter \<Rightarrow> LocalTokenBucketRateLimiter" where
  "rl_reset q identifier buckets = dict_pop (rl_key q identifier) buckets"

text \<open>The key of a bucket is not injective: the separator may occur in both parts.\<close>

lemma rl_key_collision:
  "rl_key (q\<lparr>q_key := ''api''\<rparr>) ''v1:bob'' = rl_key (q\<lparr>q_key := ''api:v1''\<rparr>) ''bob''"
  by (simp add: rl_key_def)

subsection \<open>One bucket\<close>

text \<open>What a check does to the bucket of its key: the window it falls in, and the new content.\<close>

definition bucket_window :: "int \<Rightarrow> int \<Rightarrow> (int \<times> int) option \<Rightarrow> int \<times> int" where
  "bucket_window w now b =
     (case b of None \<Rightarrow> (0, now) | Some (c, ws) \<Rightarrow> if now - ws \<ge> w then (0, now) else (c, ws))"

definition bucket_ok :: "int \<Rightarrow> (int \<times> int) option \<Rightarrow> bool" where
  "bucket_ok limit b \<longleftrightarrow> (case b of None \<Rightarrow> True | Some (c, ws) \<Rightarrow> 0 \<le> c \<and> c \<le> max 0 limit)"

fun bucket_step :: "int \<Rightarrow> int \<Rightarrow> int \<Rightarrow> (int \<times> int) option \<Rightarrow> bool \<times> (int \<times> int) option" where
  "bucket_step limit w now b =
     (case bucket_window w now b of (c, ws) \<Rightarrow>
        if c < limit then (True, Some (c + 1, ws)) else (False, b))"

declare bucket_step.simps [simp del]

abbreviation quota_step :: "Quota \<Rightarrow> int \<Rightarrow> (int \<times> int) option \<Rightarrow> bool \<times> (int \<times> int) option" where
  "quota_step q \<equiv> bucket_step (q_limit q) (microseconds (q_window_seconds q))"

lemma rl_check_bucket:
  "rl_allowed (fst (rl_check now q i bs)) = fst (quota_step q now (map_of bs (rl_key q i)))
   \<and> map_of (snd (rl_check now q i bs)) (rl_key q i) = snd (quota_step q now (map_of bs (rl_key q i)))"
  by (cases "map_of bs (rl_key q i)")
     (auto simp: rl_check_def bucket_step.simps bucket_window_def dict_get_or_def Let_def rl_allowed_def
       split: if_splits)

lemma rl_check_frame: "k \<noteq> rl_key q i \<Longrightarrow> map_of (snd (rl_check now q i bs)) k = map_of bs k"
  by (auto simp: rl_check_def Let_def split_def)

lemma rl_reset_fresh: "map_of (rl_reset q i bs) (rl_key q i) = None"
  by (simp add: rl_reset_def)

text \<open>The instants a bucket grants, out of the instants of the requests on it.\<close>

fun bucket_run :: "int \<Rightarrow> int \<Rightarrow> (int \<times> int) option \<Rightarrow> int list \<Rightarrow> int list" where
  "bucket_run limit w b [] = []"
| "bucket_run limit w b (t # ts) =
     (let r = bucket_step limit w t b in (if fst r then [t] else []) @ bucket_run limit w (snd r) ts)"

fun bucket_end :: "int \<Rightarrow> int \<Rightarrow> (int \<times> int) option \<Rightarrow> int list \<Rightarrow> (int \<times> int) option" where
  "bucket_end limit w b [] = b"
| "bucket_end limit w b (t # ts) = bucket_end limit w (snd (bucket_step limit w t b)) ts"

lemma bucket_run_append: "bucket_run l w b (xs @ ys) = bucket_run l w b xs @ bucket_run l w (bucket_end l w b xs) ys"
  by (induction xs arbitrary: b) (simp_all add: Let_def)

lemma bucket_run_subset: "set (bucket_run l w b ts) \<subseteq> set ts"
  by (induction ts arbitrary: b) (force simp: Let_def)+

lemma bucket_step_ok: "bucket_ok l b \<Longrightarrow> bucket_ok l (snd (bucket_step l w t b))"
  by (auto simp: bucket_ok_def bucket_step.simps bucket_window_def split: option.splits prod.splits if_splits)

lemma bucket_end_ok: "bucket_ok l b \<Longrightarrow> bucket_ok l (bucket_end l w b ts)"
  by (induction ts arbitrary: b) (simp_all add: bucket_step_ok)

lemma bucket_run_none:
  assumes "l \<le> 0" "bucket_ok l b"
  shows "bucket_run l w b ts = []"
  using assms(2)
proof (induction ts arbitrary: b)
  case (Cons t ts)
  then have "\<not> fst (bucket_step l w t b)"
    using assms(1) by (auto simp: bucket_ok_def bucket_step.simps bucket_window_def split: option.splits prod.splits if_splits)
  with Cons bucket_step_ok[OF Cons.prems] show ?case by (simp add: Let_def)
qed simp

text \<open>Within a window no more than what is left of the limit is granted.\<close>

lemma window_bound:
  assumes "0 \<le> c" "c \<le> l" "sorted ts"
  shows "int (length (filter (\<lambda>t. t < ws + w) (bucket_run l w (Some (c, ws)) ts))) \<le> l - c"
  using assms
proof (induction ts arbitrary: c)
  case (Cons t ts)
  show ?case
  proof (cases "t < ws + w")
    case True
    then have s: "bucket_step l w t (Some (c, ws)) = (if c < l then (True, Some (c + 1, ws)) else (False, Some (c, ws)))"
      by (simp add: bucket_step.simps bucket_window_def)
    show ?thesis
    proof (cases "c < l")
      case True
      with Cons.IH[of "c + 1"] Cons.prems s \<open>t < ws + w\<close> show ?thesis by (simp add: Let_def)
    next
      case False
      with Cons.IH[of c] Cons.prems s show ?thesis by (simp add: Let_def)
    qed
  next
    case False
    then have "filter (\<lambda>t. t < ws + w) (bucket_run l w (Some (c, ws)) (t # ts)) = []"
      using bucket_run_subset[of l w "Some (c, ws)" "t # ts"] Cons.prems(3) by (force simp: filter_empty_conv)
    with Cons.prems show ?thesis by simp
  qed
qed simp

text \<open>An interval as long as a window meets at most two windows.\<close>

lemma two_windows:
  assumes "0 < l" "0 < w" "b \<le> a + w" "bucket_ok l st" "sorted ts" "\<forall>t \<in> set ts. a \<le> t"
  shows "int (length (filter (\<lambda>t. t < b) (bucket_run l w st ts))) \<le> 2 * l - (case st of None \<Rightarrow> 0 | Some (c, _) \<Rightarrow> c)"
  using assms(4-)
proof (induction ts arbitrary: st)
  case Nil
  with assms(1) show ?case by (auto simp: bucket_ok_def split: option.splits)
next
  case (Cons t ts)
  have cl: "(case st of None \<Rightarrow> 0 | Some (c, _) \<Rightarrow> c) \<le> l"
    using Cons.prems(1) assms(1) by (auto simp: bucket_ok_def split: option.splits)
  show ?case
  proof (cases "bucket_window w t st = (0, t)")
    case True
    then have "bucket_run l w st (t # ts) = bucket_run l w (Some (0, t)) (t # ts)"
      using assms(1,2) by (simp add: bucket_step.simps bucket_window_def)
    moreover have "length (filter (\<lambda>t. t < b) r) \<le> length (filter (\<lambda>u. u < t + w) r)" for r
      using assms(3) Cons.prems(3) by (induction r) auto
    ultimately have "int (length (filter (\<lambda>t. t < b) (bucket_run l w st (t # ts)))) \<le> l"
      using window_bound[of 0 l "t # ts" t w] assms(1) Cons.prems(2) by (smt (verit) of_nat_mono)
    with cl show ?thesis by linarith
  next
    case False
    then obtain c ws where st: "st = Some (c, ws)" and win: "t - ws < w"
      by (auto simp: bucket_window_def split: option.splits prod.splits if_splits)
    then have s: "bucket_step l w t st = (if c < l then (True, Some (c + 1, ws)) else (False, st))"
      by (simp add: bucket_step.simps bucket_window_def)
    then have "snd (bucket_step l w t st) = (if c < l then Some (c + 1, ws) else st)" by simp
    then have "int (length (filter (\<lambda>t. t < b) (bucket_run l w (snd (bucket_step l w t st)) ts)))
        \<le> 2 * l - (if c < l then c + 1 else c)"
      using Cons.IH[OF bucket_step_ok[OF Cons.prems(1), of w t]] Cons.prems st by (auto split: if_splits)
    with s st show ?thesis by (simp add: Let_def split: if_splits)
  qed
qed

lemma bucket_interval_bound:
  assumes "sorted ts" "bucket_ok l st"
  shows "int (length (filter (\<lambda>t. a \<le> t \<and> t < a + w) (bucket_run l w st ts))) \<le> 2 * max 0 l"
proof (cases "0 < l \<and> 0 < w")
  case True
  let ?xs = "takeWhile (\<lambda>t. t < a) ts" and ?ys = "dropWhile (\<lambda>t. t < a) ts"
  have ts: "ts = ?xs @ ?ys" by simp
  have ys: "\<forall>t \<in> set ?ys. a \<le> t"
  proof (cases ?ys)
    case (Cons y ys)
    then have "\<not> y < a" using hd_dropWhile[of "\<lambda>t. t < a" ts] by simp
    moreover have "sorted ?ys" using assms(1) by (simp add: sorted_dropWhile)
    ultimately show ?thesis using Cons by force
  next
    case Nil
    then show ?thesis by (metis empty_iff list.set(1))
  qed
  have "filter (\<lambda>t. a \<le> t \<and> t < a + w) (bucket_run l w st ?xs) = []"
    using bucket_run_subset[of l w st ?xs] by (force simp: filter_empty_conv dest: set_takeWhileD)
  moreover have "filter (\<lambda>t. a \<le> t \<and> t < a + w) (bucket_run l w s ?ys) = filter (\<lambda>t. t < a + w) (bucket_run l w s ?ys)" for s
    using bucket_run_subset[of l w s ?ys] ys by (intro filter_cong) auto
  ultimately have "filter (\<lambda>t. a \<le> t \<and> t < a + w) (bucket_run l w st ts)
      = filter (\<lambda>t. t < a + w) (bucket_run l w (bucket_end l w st ?xs) ?ys)"
    by (subst ts, subst bucket_run_append) simp
  moreover have "0 \<le> (case bucket_end l w st ?xs of None \<Rightarrow> 0 | Some (c, _) \<Rightarrow> c)"
    using bucket_end_ok[OF assms(2), of w ?xs] by (auto simp: bucket_ok_def split: option.splits)
  ultimately show ?thesis
    using two_windows[of l w "a + w" a "bucket_end l w st ?xs" ?ys] True bucket_end_ok[OF assms(2)] ys assms(1)
    by (simp add: sorted_dropWhile)
next
  case False
  then consider "l \<le> 0" | "w \<le> 0" by linarith
  then show ?thesis
  proof cases
    case 1
    then show ?thesis using bucket_run_none assms(2) by simp
  next
    case 2
    then have "filter (\<lambda>t. a \<le> t \<and> t < a + w) r = []" for r by (auto simp: filter_empty_conv)
    then show ?thesis by simp
  qed
qed

subsection \<open>Sequences of checks\<close>

type_synonym rl_request = "int \<times> Quota \<times> string"

text \<open>The requests that are allowed, in order.\<close>

fun rl_run :: "rl_request list \<Rightarrow> LocalTokenBucketRateLimiter \<Rightarrow> rl_request list" where
  "rl_run [] bs = []"
| "rl_run ((now, q, i) # rs) bs =
     (let r = rl_check now q i bs in (if rl_allowed (fst r) then [(now, q, i)] else []) @ rl_run rs (snd r))"

abbreviation on_bucket :: "string \<Rightarrow> rl_request \<Rightarrow> bool" where
  "on_bucket k r \<equiv> rl_key (fst (snd r)) (snd (snd r)) = k"

lemma rl_run_bucket:
  assumes "\<forall>r \<in> set rs. on_bucket k r \<longrightarrow> fst (snd r) = q"
  shows "map fst (filter (on_bucket k) (rl_run rs bs)) =
    bucket_run (q_limit q) (microseconds (q_window_seconds q)) (map_of bs k) (map fst (filter (on_bucket k) rs))"
  using assms
proof (induction rs bs rule: rl_run.induct)
  case (2 now p i rs bs)
  let ?r = "rl_check now p i bs"
  have IH: "map fst (filter (on_bucket k) (rl_run rs (snd ?r))) =
    bucket_run (q_limit q) (microseconds (q_window_seconds q)) (map_of (snd ?r) k) (map fst (filter (on_bucket k) rs))"
    using 2 by simp
  show ?case
  proof (cases "rl_key p i = k")
    case True
    with 2(2) have "p = q" by simp
    with True IH rl_check_bucket[of now q i bs] show ?thesis by (auto simp: Let_def)
  next
    case False
    with IH rl_check_frame[of k p i now bs] show ?thesis by (auto simp: Let_def)
  qed
qed simp

lemma filter_conj_fst:
  "length (filter (\<lambda>r. P r \<and> Q (fst r)) xs) = length (filter Q (map fst (filter P xs)))"
  by (induction xs) auto

lemma sorted_map_filter: "sorted (map f xs) \<Longrightarrow> sorted (map f (filter P xs))"
  by (induction xs) auto

subsection \<open>Properties\<close>

text \<open>C18. Rate bound: when the requests on a bucket carry one quota, any interval as long as the quota's
  window has at most twice the limit of allowed requests, however requests on other buckets are
  interleaved; and a request that finds its window full is denied without touching the limiter.\<close>

theorem rate_limit_bound:
  assumes "sorted (map fst rs)"
    and "\<forall>r \<in> set rs. on_bucket (rl_key q i) r \<longrightarrow> fst (snd r) = q"
  shows "int (length (filter (\<lambda>r. on_bucket (rl_key q i) r \<and> a \<le> fst r \<and> fst r < a + microseconds (q_window_seconds q))
               (rl_run rs []))) \<le> 2 * max 0 (q_limit q)
    \<and> (\<not> rl_allowed (fst (rl_check now q i bs)) \<longrightarrow> snd (rl_check now q i bs) = bs)"
proof -
  have "bucket_ok (q_limit q) (map_of [] (rl_key q i))" by (simp add: bucket_ok_def)
  from bucket_interval_bound[OF sorted_map_filter[OF assms(1)] this, of a "microseconds (q_window_seconds q)"]
  have "int (length (filter (\<lambda>t. a \<le> t \<and> t < a + microseconds (q_window_seconds q))
      (map fst (filter (on_bucket (rl_key q i)) (rl_run rs []))))) \<le> 2 * max 0 (q_limit q)"
    unfolding rl_run_bucket[OF assms(2)] .
  moreover have "snd (rl_check now q i bs) = bs" if "\<not> rl_allowed (fst (rl_check now q i bs))"
    using that by (auto simp: rl_check_def Let_def split_def rl_allowed_def split: if_splits)
  ultimately show ?thesis
    unfolding filter_conj_fst[of "on_bucket (rl_key q i)" "\<lambda>t. a \<le> t \<and> t < a + microseconds (q_window_seconds q)"
        "rl_run rs []"] by blast
qed

definition demo_quota :: Quota where
  "demo_quota = \<lparr>q_key = ''api'', q_limit = 2, q_window_seconds = 1\<rparr>"

definition demo_requests :: "rl_request list" where
  "demo_requests = map (\<lambda>t. (t, demo_quota, ''bob'')) [0, 999998, 999999, 1000000, 1000001, 1000002]"

theorem rate_limit_bound_witness:
  "int (length (filter (\<lambda>r. on_bucket (rl_key demo_quota ''bob'') r \<and> 500000 \<le> fst r
       \<and> fst r < 500000 + microseconds (q_window_seconds demo_quota)) (rl_run demo_requests []))) \<le> 4
   \<and> map fst (rl_run demo_requests []) = [0, 999998, 1000000, 1000001]"
proof -
  have "sorted (map fst demo_requests)" by (simp add: demo_requests_def)
  moreover have "\<forall>r \<in> set demo_requests. on_bucket (rl_key demo_quota ''bob'') r \<longrightarrow> fst (snd r) = demo_quota"
    by (simp add: demo_requests_def)
  ultimately show ?thesis
    using rate_limit_bound[of demo_requests demo_quota "''bob''" 500000]
    by (simp add: demo_quota_def demo_requests_def rl_check_def rl_key_def Let_def dict_get_or_def microseconds_def
        rl_allowed_def)
qed

end
