(* ===== verification/Pagination.thy ===== *)
theory Pagination
  imports Errors
begin

text \<open>
  Offset pagination (\<^verbatim>\<open>application/pagination/page_request.py\<close> and
  \<^verbatim>\<open>application/pagination/page.py\<close>): validated requests, pages cut out of a list by slicing, and
  the navigation properties of a page.
\<close>

subsection \<open>Requests\<close>

datatype SortDirection = ASC | DESC

record Sort =
  sort_field :: string
  sort_direction :: SortDirection

record Filter =
  filter_field :: string
  filter_operator :: string
  filter_value :: pyval

record PageRequest =
  pr_page :: int
  pr_size :: int
  pr_sorts :: "Sort list"
  pr_filters :: "Filter list"

definition default_PageRequest :: PageRequest where
  "default_PageRequest = \<lparr>pr_page = 1, pr_size = 20, pr_sorts = [], pr_filters = []\<rparr>"

definition PageRequest_post_init :: "PageRequest \<Rightarrow> exn + PageRequest" where
  "PageRequest_post_init r =
     (if pr_page r < 1 then Inl (plain_exn ValueError ''page must be >= 1'')
      else if pr_size r < 1 \<or> pr_size r > 1000 then Inl (plain_exn ValueError ''size must be between 1 and 1000'')
      else Inr r)"

definition pr_offset :: "PageRequest \<Rightarrow> int" where
  "pr_offset r = (pr_page r - 1) * pr_size r"

subsection \<open>Pages\<close>

record 'a Page =
  pg_items :: "'a list"
  pg_total :: int
  pg_page :: int
  pg_size :: int

definition total_pages :: "'a Page \<Rightarrow> int" where
  "total_pages p = (if pg_size p \<le> 0 \<or> pg_total p \<le> 0 then 0
                    else ceiling (of_int (pg_total p) / of_int (pg_size p) :: rat))"

definition has_next :: "'a Page \<Rightarrow> bool" where
  "has_next p \<longleftrightarrow> pg_page p < total_pages p"

definition has_previous :: "'a Page \<Rightarrow> bool" where
  "has_previous p \<longleftrightarrow> pg_page p > 1"

definition Page_map :: "('a \<Rightarrow> 'b) \<Rightarrow> 'a Page \<Rightarrow> 'b Page" where
  "Page_map f p = \<lparr>pg_items = map f (pg_items p), pg_total = pg_total p, pg_page = pg_page p, pg_size = pg_size p\<rparr>"

definition Page_of :: "'a list \<Rightarrow> PageRequest \<Rightarrow> 'a Page" where
  "Page_of all_items r =
     (let start = pr_offset r; stop = start + pr_size r
      in \<lparr>pg_items = py_slice all_items start stop, pg_total = int (length all_items),
          pg_page = pr_page r, pg_size = pr_size r\<rparr>)"

record 'a CursorPage =
  cp_items :: "'a list"
  cp_next_cursor :: "string option"
  cp_has_more :: bool

subsection \<open>Lemmas\<close>

lemma PageRequest_valid: "PageRequest_post_init r = Inr s \<longleftrightarrow> s = r \<and> 1 \<le> pr_page r \<and> 1 \<le> pr_size r \<and> pr_size r \<le> 1000"
  by (auto simp: PageRequest_post_init_def)

lemma Page_of_items:
  assumes "1 \<le> pr_page r" "1 \<le> pr_size r"
  shows "pg_items (Page_of xs r) = take (nat (pr_size r)) (drop (nat (pr_page r - 1) * nat (pr_size r)) xs)"
proof -
  have "nat (pr_offset r) = nat (pr_page r - 1) * nat (pr_size r)" "0 \<le> pr_offset r"
    using assms by (simp_all add: pr_offset_def nat_mult_distrib)
  with assms show ?thesis by (simp add: Page_of_def Let_def py_slice_nonneg nat_add_distrib)
qed

lemma Page_map_of: "Page_map f (Page_of xs r) = Page_of (map f xs) r"
  by (simp add: Page_map_def Page_of_def Let_def py_slice_def take_map drop_map)

lemma concat_blocks: "concat (map (\<lambda>k. take n (drop (k * n) xs)) [0..<m]) = take (m * n) xs"
proof (induction m)
  case (Suc m)
  have "take (Suc m * n) xs = take (m * n + n) xs" by (simp add: add.commute)
  with Suc show ?case by (simp add: take_add)
qed simp

lemma total_pages_of:
  assumes "1 \<le> pr_size r"
  shows "total_pages (Page_of xs r) = ceiling (of_nat (length xs) / of_int (pr_size r) :: rat)"
  using assms by (auto simp: total_pages_def Page_of_def Let_def)

lemma page_before_end:
  assumes "1 \<le> pr_size r"
  shows "k < total_pages (Page_of xs r) \<longleftrightarrow> k * pr_size r < int (length xs)"
proof -
  have "k < total_pages (Page_of xs r) \<longleftrightarrow> of_int k < (of_nat (length xs) / of_int (pr_size r) :: rat)"
    unfolding total_pages_of[OF assms] by (rule less_ceiling_iff)
  also have "\<dots> \<longleftrightarrow> of_int k * of_int (pr_size r) < (of_nat (length xs) :: rat)"
    using assms by (simp add: pos_less_divide_eq)
  also have "\<dots> \<longleftrightarrow> of_int (k * pr_size r) < (of_int (int (length xs)) :: rat)" by simp
  finally show ?thesis by (simp only: of_int_less_iff)
qed

subsection \<open>Properties\<close>

text \<open>Pages partition the list: for a valid request, the items of pages 1 to \<^verbatim>\<open>total_pages\<close> of that size,
  in order, are the list itself; no page has more than \<^verbatim>\<open>size\<close> items; and \<^verbatim>\<open>has_next\<close> holds exactly when
  items remain after the page.\<close>

theorem pages_partition:
  assumes "PageRequest_post_init r = Inr r"
  shows "concat (map (\<lambda>k. pg_items (Page_of xs (r\<lparr>pr_page := int k\<rparr>))) [1..<Suc (nat (total_pages (Page_of xs r)))]) = xs
    \<and> length (pg_items (Page_of xs r)) \<le> nat (pr_size r)
    \<and> (has_next (Page_of xs r) \<longleftrightarrow> pr_offset r + pr_size r < int (length xs))"
proof (intro conjI)
  have v: "1 \<le> pr_page r" "1 \<le> pr_size r" using assms PageRequest_valid by auto
  let ?n = "nat (pr_size r)" and ?m = "nat (total_pages (Page_of xs r))"
  have "map (\<lambda>k. pg_items (Page_of xs (r\<lparr>pr_page := int k\<rparr>))) [1..<Suc ?m] = map (\<lambda>k. take ?n (drop (k * ?n) xs)) [0..<?m]"
    using v by (simp add: map_Suc_upt[symmetric] comp_def Page_of_items del: upt_Suc)
  moreover have "length xs \<le> ?m * ?n"
  proof -
    have "int (length xs) \<le> total_pages (Page_of xs r) * pr_size r"
      using page_before_end[OF v(2), of "total_pages (Page_of xs r)" xs] by linarith
    then have "length xs \<le> nat (total_pages (Page_of xs r) * pr_size r)" by linarith
    with v show ?thesis by (simp add: nat_mult_distrib mult.commute)
  qed
  ultimately show "concat (map (\<lambda>k. pg_items (Page_of xs (r\<lparr>pr_page := int k\<rparr>))) [1..<Suc ?m]) = xs"
    by (simp add: concat_blocks del: upt_Suc)
  show "length (pg_items (Page_of xs r)) \<le> ?n" using v by (simp add: Page_of_items)
  have "pg_page (Page_of xs r) = pr_page r" by (simp add: Page_of_def Let_def)
  then show "has_next (Page_of xs r) \<longleftrightarrow> pr_offset r + pr_size r < int (length xs)"
    using page_before_end[OF v(2), of "pr_page r" xs] by (simp add: has_next_def pr_offset_def algebra_simps)
qed

theorem pages_partition_witness:
  "concat (map (\<lambda>k. pg_items (Page_of [1::nat, 2, 3, 4, 5] (default_PageRequest\<lparr>pr_size := 2, pr_page := int k\<rparr>)))
     [1..<Suc (nat (total_pages (Page_of [1::nat, 2, 3, 4, 5] (default_PageRequest\<lparr>pr_size := 2\<rparr>))))]) = [1, 2, 3, 4, 5]
   \<and> total_pages (Page_of [1::nat, 2, 3, 4, 5] (default_PageRequest\<lparr>pr_size := 2\<rparr>)) = 3"
proof -
  let ?r = "default_PageRequest\<lparr>pr_size := 2\<rparr>"
  have "PageRequest_post_init ?r = Inr ?r" by (simp add: PageRequest_post_init_def default_PageRequest_def)
  moreover have "total_pages (Page_of [1::nat, 2, 3, 4, 5] ?r) = 3"
    by (simp add: total_pages_of default_PageRequest_def) (simp add: ceiling_eq_iff)
  ultimately show ?thesis using pages_partition[of ?r "[1::nat, 2, 3, 4, 5]"] by simp
qed

end
