(* ===== verification/Access_Control.thy ===== *)
theory Access_Control
  imports Contexts "HOL-Library.Sublist" "HOL-Library.Multiset"
begin

text \<open>
  Access control and audit: permissions with wildcards, roles and their store, the RBAC policy and the
  \<^verbatim>\<open>require_permission\<close> decorator (\<^verbatim>\<open>kernel/security/rbac.py\<close>), the policy port
  (\<^verbatim>\<open>kernel/security/policy.py\<close>), and audit events with the in-memory audit store
  (\<^verbatim>\<open>kernel/security/audit.py\<close>).
\<close>

subsection \<open>Permissions and roles\<close>

definition permission_matches :: "string \<Rightarrow> string \<Rightarrow> bool" where
  "permission_matches stored required =
     (if stored = ''*'' then True
      else if stored = required then True
      else if endswith stored '':*'' then startswith required (butlast stored)
      else False)"

record RBACRole =
  role_name :: string
  role_permissions :: "string set"

definition RBACRole_has_permission :: "RBACRole \<Rightarrow> string \<Rightarrow> bool" where
  "RBACRole_has_permission r required \<longleftrightarrow> (\<exists>p \<in> role_permissions r. permission_matches p required)"

type_synonym InMemoryRoleStore = "(string, RBACRole set) pydict"

definition add_role :: "string \<Rightarrow> RBACRole \<Rightarrow> InMemoryRoleStore \<Rightarrow> InMemoryRoleStore" where
  "add_role principal_id role store =
     dict_set principal_id (insert role (dict_get_or store principal_id {})) store"

definition remove_role :: "string \<Rightarrow> RBACRole \<Rightarrow> InMemoryRoleStore \<Rightarrow> InMemoryRoleStore" where
  "remove_role principal_id role store =
     (case map_of store principal_id of
        None \<Rightarrow> store
      | Some rs \<Rightarrow> dict_set principal_id (rs - {role}) store)"

definition get_roles :: "string \<Rightarrow> InMemoryRoleStore \<Rightarrow> RBACRole set" where
  "get_roles principal_id store = dict_get_or store principal_id {}"

definition RoleStore_has_permission :: "string \<Rightarrow> string \<Rightarrow> InMemoryRoleStore \<Rightarrow> bool" where
  "RoleStore_has_permission principal_id perm store \<longleftrightarrow>
     (\<exists>r \<in> get_roles principal_id store. RBACRole_has_permission r perm)"

definition RoleStore_clear :: "InMemoryRoleStore \<Rightarrow> InMemoryRoleStore" where
  "RoleStore_clear store = []"

subsection \<open>The policy\<close>

record RBACResult =
  rr_allowed :: bool
  rr_principal :: Principal
  rr_missing_permission :: "string option"

definition RBACResult_reason :: "RBACResult \<Rightarrow> string option" where
  "RBACResult_reason r =
     (case rr_missing_permission r of
        Some m \<Rightarrow> if \<not> rr_allowed r
                  then Some (''principal '' @ repr_str (pr_subject (rr_principal r)) @ '' lacks permission '' @ repr_str m)
                  else None
      | None \<Rightarrow> None)"

definition RBACPolicy_evaluate :: "string \<Rightarrow> InMemoryRoleStore option \<Rightarrow> Principal \<Rightarrow> RBACResult" where
  "RBACPolicy_evaluate req role_store user =
     (if \<exists>p \<in> set (pr_permissions user). permission_matches p req
      then \<lparr>rr_allowed = True, rr_principal = user, rr_missing_permission = None\<rparr>
      else if (case role_store of None \<Rightarrow> False | Some store \<Rightarrow> RoleStore_has_permission (pr_subject user) req store)
      then \<lparr>rr_allowed = True, rr_principal = user, rr_missing_permission = None\<rparr>
      else \<lparr>rr_allowed = False, rr_principal = user, rr_missing_permission = Some req\<rparr>)"

text \<open>\<^verbatim>\<open>result.reason or "forbidden"\<close>.\<close>

definition forbidden_message :: "RBACResult \<Rightarrow> string" where
  "forbidden_message r = (case RBACResult_reason r of None \<Rightarrow> ''forbidden'' | Some m \<Rightarrow> if m = [] then ''forbidden'' else m)"

definition require_permission ::
  "string \<Rightarrow> InMemoryRoleStore option \<Rightarrow> ('w ambient, 'a) act \<Rightarrow> ('w ambient, 'a) act" where
  "require_permission perm role_store fn w =
     (case SecurityContext_require w of
        Inl e \<Rightarrow> (Inl e, w)
      | Inr user \<Rightarrow>
          let result = RBACPolicy_evaluate perm role_store user
          in if \<not> rr_allowed result then (Inl (ForbiddenError_init (forbidden_message result) None), w) else fn w)"

subsection \<open>The policy port\<close>

datatype PolicyDecision = ALLOW | DENY

record PolicyContext =
  pc_principal :: Principal
  pc_resource :: string
  pc_action :: string
  pc_attributes :: "(string, pyval) pydict"

type_synonym 'w PolicyEngine = "PolicyContext \<Rightarrow> ('w, PolicyDecision) act"

subsection \<open>What a grant means\<close>

text \<open>The pattern language: everything, one permission, or every permission of a resource.\<close>

definition grants :: "string \<Rightarrow> string \<Rightarrow> bool" where
  "grants pattern required \<longleftrightarrow>
     pattern = ''*'' \<or> pattern = required
     \<or> (\<exists>resource action. pattern = resource @ '':*'' \<and> required = resource @ '':'' @ action)"

lemma endswith_iff: "endswith s p \<longleftrightarrow> (\<exists>r. s = r @ p)"
proof
  assume "endswith s p"
  then have "rev s = rev p @ drop (length (rev p)) (rev s)" unfolding endswith_def by (rule startswithD)
  then have "s = rev (drop (length (rev p)) (rev s)) @ p" by (metis rev_append rev_rev_ident)
  then show "\<exists>r. s = r @ p" by blast
qed (auto simp: endswith_def)

lemma permission_matches_grants: "permission_matches stored required \<longleftrightarrow> grants stored required"
proof -
  have "endswith stored '':*'' \<longleftrightarrow> (\<exists>res. stored = res @ '':*'')"
    using endswith_iff[of stored "'':*''"] by blast
  moreover have "butlast (res @ '':*'') = res @ '':''" for res by (simp add: butlast_append)
  moreover have "startswith required (res @ '':'') \<longleftrightarrow> (\<exists>a. required = res @ '':'' @ a)" for res
    by (metis append.assoc startswithD startswith_append)
  ultimately show ?thesis unfolding permission_matches_def grants_def by auto
qed

text \<open>The patterns a principal holds, directly or through roles.\<close>

definition held_patterns :: "InMemoryRoleStore option \<Rightarrow> Principal \<Rightarrow> string set" where
  "held_patterns role_store p =
     set (pr_permissions p) \<union>
     (case role_store of None \<Rightarrow> {} | Some s \<Rightarrow> (\<Union>r \<in> get_roles (pr_subject p) s. role_permissions r))"

lemma evaluate_allowed:
  "rr_allowed (RBACPolicy_evaluate req rs p) \<longleftrightarrow> (\<exists>g \<in> held_patterns rs p. grants g req)"
  by (auto simp: RBACPolicy_evaluate_def held_patterns_def RoleStore_has_permission_def RBACRole_has_permission_def
      permission_matches_grants split: option.splits)

lemma get_roles_add: "get_roles q (add_role p r s) = (if q = p then insert r (get_roles p s) else get_roles q s)"
  by (simp add: get_roles_def add_role_def dict_get_or_def)

lemma get_roles_remove: "get_roles q (remove_role p r s) = (if q = p then get_roles p s - {r} else get_roles q s)"
  by (auto simp: get_roles_def remove_role_def dict_get_or_def split: option.splits)

lemma held_patterns_add:
  "held_patterns (Some (add_role (pr_subject p) r s)) p = held_patterns (Some s) p \<union> role_permissions r"
  by (auto simp: held_patterns_def get_roles_add)

lemma held_patterns_remove:
  "held_patterns (Some (remove_role (pr_subject p) r s)) p \<subseteq> held_patterns (Some s) p"
  by (auto simp: held_patterns_def get_roles_remove)

subsection \<open>Audit\<close>

datatype AuditOutcome = Allow | Deny

record AuditEvent =
  au_principal_id :: string
  au_action :: string
  au_resource_type :: string
  au_resource_id :: string
  au_outcome :: AuditOutcome
  au_event_id :: string
  au_occurred_at :: microseconds
  au_metadata :: "(string, pyval) pydict"

definition is_denied :: "AuditEvent \<Rightarrow> bool" where
  "is_denied e \<longleftrightarrow> au_outcome e = Deny"

definition is_allowed :: "AuditEvent \<Rightarrow> bool" where
  "is_allowed e \<longleftrightarrow> au_outcome e = Allow"

type_synonym InMemoryAuditStore = "AuditEvent list"

definition InMemoryAuditStore_record :: "AuditEvent \<Rightarrow> InMemoryAuditStore \<Rightarrow> InMemoryAuditStore" where
  "InMemoryAuditStore_record e records = records @ [e]"

text \<open>One optional criterion of a query.\<close>

definition opt_filter :: "'c option \<Rightarrow> ('c \<Rightarrow> 'e \<Rightarrow> bool) \<Rightarrow> 'e list \<Rightarrow> 'e list" where
  "opt_filter c keep es = (case c of None \<Rightarrow> es | Some x \<Rightarrow> filter (keep x) es)"

record audit_query =
  aq_principal_id :: "string option"
  aq_from_dt :: "microseconds option"
  aq_to_dt :: "microseconds option"
  aq_action_filter :: "string option"
  aq_outcome :: "AuditOutcome option"
  aq_limit :: int

definition InMemoryAuditStore_query :: "audit_query \<Rightarrow> InMemoryAuditStore \<Rightarrow> AuditEvent list" where
  "InMemoryAuditStore_query q records =
     (let results = records;
          results = opt_filter (aq_principal_id q) (\<lambda>p e. au_principal_id e = p) results;
          results = opt_filter (aq_from_dt q) (\<lambda>t e. au_occurred_at e \<ge> t) results;
          results = opt_filter (aq_to_dt q) (\<lambda>t e. au_occurred_at e \<le> t) results;
          results = opt_filter (aq_action_filter q) (\<lambda>a e. sublist a (au_action e)) results;
          results = opt_filter (aq_outcome q) (\<lambda>x e. au_outcome e = x) results;
          results = sort_key au_occurred_at results
      in py_slice results 0 (aq_limit q))"

definition opt_holds :: "'c option \<Rightarrow> ('c \<Rightarrow> bool) \<Rightarrow> bool" where
  "opt_holds c P \<longleftrightarrow> (case c of None \<Rightarrow> True | Some x \<Rightarrow> P x)"

definition audit_matches :: "audit_query \<Rightarrow> AuditEvent \<Rightarrow> bool" where
  "audit_matches q e \<longleftrightarrow>
     opt_holds (aq_principal_id q) (\<lambda>p. au_principal_id e = p)
     \<and> opt_holds (aq_from_dt q) (\<lambda>t. t \<le> au_occurred_at e)
     \<and> opt_holds (aq_to_dt q) (\<lambda>t. au_occurred_at e \<le> t)
     \<and> opt_holds (aq_action_filter q) (\<lambda>a. sublist a (au_action e))
     \<and> opt_holds (aq_outcome q) (\<lambda>x. au_outcome e = x)"

lemma opt_filter_holds: "opt_filter c keep es = filter (\<lambda>e. opt_holds c (\<lambda>x. keep x e)) es"
  by (cases c) (simp_all add: opt_filter_def opt_holds_def)

lemma audit_query_slice:
  "InMemoryAuditStore_query q records = py_slice (sort_key au_occurred_at (filter (audit_matches q) records)) 0 (aq_limit q)"
  unfolding InMemoryAuditStore_query_def Let_def opt_filter_holds filter_filter
  by (simp add: audit_matches_def conj_ac cong: filter_cong)

lemma sorted_take_drop:
  assumes "sorted (map f xs)" "x \<in> set (take n xs)" "y \<in> set (drop n xs)"
  shows "f x \<le> f y"
proof -
  have "sorted (map f (take n xs) @ map f (drop n xs))"
    using assms(1) by (simp flip: map_append)
  with assms(2,3) show ?thesis by (auto simp: sorted_append)
qed

subsection \<open>Properties\<close>

text \<open>C19. Enforcement: the decorated function runs exactly when there is a principal in context that holds a
  grant for the permission, directly or through a role of the store; otherwise it does not run, nothing
  changes, and the caller gets \<^verbatim>\<open>UnauthorizedError\<close> without a principal and \<^verbatim>\<open>ForbiddenError\<close> with one.\<close>

theorem require_permission_enforced:
  "require_permission perm rs fn w =
     (case amb_principal w of
        None \<Rightarrow> (Inl (base_exn UnauthorizedError ''No authenticated principal in context''), w)
      | Some p \<Rightarrow>
          if \<exists>g \<in> held_patterns rs p. grants g perm then fn w
          else (Inl (ForbiddenError_init (''principal '' @ repr_str (pr_subject p) @ '' lacks permission '' @ repr_str perm) None), w))"
proof (cases "amb_principal w")
  case None
  then show ?thesis by (simp add: require_permission_def SecurityContext_require_def)
next
  case (Some p)
  show ?thesis
  proof (cases "rr_allowed (RBACPolicy_evaluate perm rs p)")
    case True
    then show ?thesis using Some evaluate_allowed[of perm rs p]
      by (simp add: require_permission_def SecurityContext_require_def)
  next
    case False
    then have "RBACPolicy_evaluate perm rs p = \<lparr>rr_allowed = False, rr_principal = p, rr_missing_permission = Some perm\<rparr>"
      by (auto simp: RBACPolicy_evaluate_def split: if_splits)
    then show ?thesis using Some evaluate_allowed[of perm rs p]
      by (simp add: require_permission_def SecurityContext_require_def forbidden_message_def RBACResult_reason_def)
  qed
qed

text \<open>Audit queries: with a non-negative limit the answer is oldest-first, has only recorded events that
  meet every criterion, as many of them as the limit allows, and no event left out is older than one returned.\<close>

theorem audit_query_correct:
  assumes "0 \<le> aq_limit q"
  shows "let found = InMemoryAuditStore_query q records in
    sorted (map au_occurred_at found)
    \<and> mset found \<subseteq># filter_mset (audit_matches q) (mset records)
    \<and> length found = min (nat (aq_limit q)) (length (filter (audit_matches q) records))
    \<and> (\<forall>e f. f \<in># filter_mset (audit_matches q) (mset records) - mset found \<longrightarrow> e \<in> set found
         \<longrightarrow> au_occurred_at e \<le> au_occurred_at f)"
proof -
  let ?ms = "sort_key au_occurred_at (filter (audit_matches q) records)" and ?n = "nat (aq_limit q)"
  define found where "found = InMemoryAuditStore_query q records"
  have found: "found = take ?n ?ms"
    using assms by (simp add: found_def audit_query_slice py_slice_nonneg)
  have "filter_mset (audit_matches q) (mset records) = mset ?ms" by simp
  also have "\<dots> = mset (take ?n ?ms) + mset (drop ?n ?ms)" by (metis append_take_drop_id mset_append)
  finally have rest: "filter_mset (audit_matches q) (mset records) = mset found + mset (drop ?n ?ms)"
    by (simp add: found)
  have "sorted (map au_occurred_at ?ms)" by simp
  then have "sorted (map au_occurred_at found)" unfolding found by (simp add: take_map[symmetric] sorted_wrt_take)
  moreover have "\<forall>e f. f \<in># mset (drop ?n ?ms) \<longrightarrow> e \<in> set found \<longrightarrow> au_occurred_at e \<le> au_occurred_at f"
    unfolding found using sorted_take_drop[OF \<open>sorted (map au_occurred_at ?ms)\<close>] by simp
  ultimately show ?thesis unfolding found_def[symmetric] Let_def rest by (simp add: found min.commute)
qed

definition demo_audit :: "int \<Rightarrow> AuditOutcome \<Rightarrow> AuditEvent" where
  "demo_audit t x = \<lparr>au_principal_id = ''bob'', au_action = ''orders:create'', au_resource_type = ''Order'',
     au_resource_id = ''1'', au_outcome = x, au_event_id = ''e'', au_occurred_at = t, au_metadata = []\<rparr>"

definition demo_query :: audit_query where
  "demo_query = \<lparr>aq_principal_id = Some ''bob'', aq_from_dt = Some 2, aq_to_dt = None, aq_action_filter = None,
     aq_outcome = Some Deny, aq_limit = 1\<rparr>"

theorem audit_query_correct_witness:
  "InMemoryAuditStore_query demo_query [demo_audit 5 Deny, demo_audit 3 Deny, demo_audit 4 Allow, demo_audit 1 Deny]
     = [demo_audit 3 Deny]
   \<and> sorted (map au_occurred_at (InMemoryAuditStore_query demo_query
       [demo_audit 5 Deny, demo_audit 3 Deny, demo_audit 4 Allow, demo_audit 1 Deny]))"
proof -
  have "0 \<le> aq_limit demo_query" by (simp add: demo_query_def)
  then show ?thesis
    using audit_query_correct[of demo_query "[demo_audit 5 Deny, demo_audit 3 Deny, demo_audit 4 Allow, demo_audit 1 Deny]"]
    by (simp add: InMemoryAuditStore_query_def opt_filter_def demo_query_def demo_audit_def py_slice_nonneg)
qed

end
