(* ===== verification/Pipeline.thy ===== *)
theory Pipeline
  imports Access_Control Retry Domain_Model
begin

text \<open>
  The middleware pipeline (\<^verbatim>\<open>application/pipeline\<close>) and the CQRS buses (\<^verbatim>\<open>application/cqrs\<close>). A request
  is a record of its class, its attributes and its optional \<^verbatim>\<open>validate\<close> method; a middleware takes the
  request and the rest of the chain. Loggers, tracers, metrics, clocks, caches and idempotency stores
  are parameters; the locale \<open>idempotency_store\<close> states what the deduplicating middlewares rely on.
\<close>

subsection \<open>Requests and replies\<close>

datatype request_kind = CommandKind | QueryKind | OtherKind

record 'w Request =
  rq_type :: string
  rq_kind :: request_kind
  rq_attrs :: "(string, pyval) pydict"
  rq_validate :: "('w, unit) act option"
  rq_settable :: bool

text \<open>What a chain answers: the handler's result, or the response bytes of an idempotency record.\<close>

datatype 'a reply = Fresh 'a | Replayed "string option"

type_synonym ('w, 'a) Handler = "'w Request \<Rightarrow> ('w, 'a reply) act"
type_synonym ('w, 'a) Middleware = "'w Request \<Rightarrow> ('w, 'a) Handler \<Rightarrow> ('w, 'a reply) act"

text \<open>\<^verbatim>\<open>getattr(request, name, None)\<close>.\<close>

definition getattr :: "'w Request \<Rightarrow> string \<Rightarrow> pyval" where
  "getattr r name = dict_get_or (rq_attrs r) name PNone"

definition setattr :: "string \<Rightarrow> pyval \<Rightarrow> 'w Request \<Rightarrow> 'w Request" where
  "setattr name v r = r\<lparr>rq_attrs := dict_set name v (rq_attrs r)\<rparr>"

subsection \<open>The pipeline\<close>

type_synonym ('w, 'a) Pipeline = "('w, 'a) Middleware list"

definition Pipeline_add :: "('w, 'a) Middleware \<Rightarrow> ('w, 'a) Pipeline \<Rightarrow> ('w, 'a) Pipeline" where
  "Pipeline_add m ms = ms @ [m]"

definition Pipeline_execute :: "('w, 'a) Pipeline \<Rightarrow> 'w Request \<Rightarrow> ('w, 'a) Handler \<Rightarrow> ('w, 'a reply) act" where
  "Pipeline_execute ms request handler = fold (\<lambda>mw chain req. mw req chain) (rev ms) handler request"

subsection \<open>Built-in middlewares\<close>

definition LoggingMiddleware :: "(string \<Rightarrow> string \<Rightarrow> 'w \<Rightarrow> 'w) \<Rightarrow> ('w, 'a) Middleware" where
  "LoggingMiddleware emit request next w =
     (case next request w of
        (Inr result, w') \<Rightarrow> (Inr result, emit ''use_case.completed'' (rq_type request) w')
      | (Inl e, w') \<Rightarrow>
          if catchable e then (Inl e, emit ''use_case.failed'' (rq_type request) w') else (Inl e, w'))"

record 'w tracer =
  span_start :: "string \<Rightarrow> 'w \<Rightarrow> 'w"
  span_set_attribute :: "string \<Rightarrow> string \<Rightarrow> 'w \<Rightarrow> 'w"
  span_set_status_ok :: "'w \<Rightarrow> 'w"
  span_record_exception :: "exn \<Rightarrow> 'w \<Rightarrow> 'w"
  span_end :: "'w \<Rightarrow> 'w"

definition TracingMiddleware :: "'w tracer \<Rightarrow> ('w, 'a) Middleware" where
  "TracingMiddleware tr request next w =
     (let name = rq_type request;
          w0 = span_set_attribute tr ''use_case.type'' name (span_start tr (''use_case.'' @ name) w)
      in case next request w0 of
           (Inr result, w1) \<Rightarrow> (Inr result, span_end tr (span_set_status_ok tr w1))
         | (Inl e, w1) \<Rightarrow>
             (Inl e, span_end tr (if catchable e then span_record_exception tr e w1 else w1)))"

text \<open>The counters and the histogram, with their labels; \<open>timer\<close> reads \<^verbatim>\<open>time.perf_counter()\<close> in seconds.\<close>

record 'w metrics =
  calls_add :: "rat \<Rightarrow> (string \<times> string) list \<Rightarrow> 'w \<Rightarrow> 'w"
  latency_record :: "rat \<Rightarrow> (string \<times> string) list \<Rightarrow> 'w \<Rightarrow> 'w"
  errors_add :: "rat \<Rightarrow> (string \<times> string) list \<Rightarrow> 'w \<Rightarrow> 'w"

definition MetricsMiddleware :: "('w \<Rightarrow> rat) \<Rightarrow> 'w metrics \<Rightarrow> ('w, 'a) Middleware" where
  "MetricsMiddleware timer m request next w =
     (let labels = [(''use_case'', rq_type request)]; start = timer w
      in case next request w of
           (Inr result, w1) \<Rightarrow>
             (Inr result, latency_record m ((timer w1 - start) * 1000) labels (calls_add m 1 labels w1))
         | (Inl e, w1) \<Rightarrow>
             (Inl e, if catchable e then errors_add m 1 (labels @ [(''status'', ''error'')]) w1 else w1))"

definition RetryMiddleware :: "'w retry_env \<Rightarrow> int \<Rightarrow> ('w, 'a) Middleware" where
  "RetryMiddleware env max_attempts request next =
     RetryPolicy_execute_async env (RetryPolicy_init max_attempts None None [Exception]) (next request)"

definition AuthzMiddleware ::
  "(pyval \<Rightarrow> string) \<Rightarrow> 'w ambient PolicyEngine \<Rightarrow> bool \<Rightarrow> ('w ambient, 'a) Middleware" where
  "AuthzMiddleware fstr engine require_auth request next w =
     (case amb_principal w of
        None \<Rightarrow>
          if require_auth then (Inl (base_exn UnauthorizedError ''No authenticated principal in context''), w)
          else next request w
      | Some user \<Rightarrow>
          let resource = fstr (dict_get_or (rq_attrs request) ''_resource'' (PStr (rq_type request)));
              action = fstr (dict_get_or (rq_attrs request) ''_action'' (PStr ''execute''));
              ctx = \<lparr>pc_principal = user, pc_resource = resource, pc_action = action, pc_attributes = []\<rparr>
          in case engine ctx w of
               (Inl e, w') \<Rightarrow> (Inl e, w')
             | (Inr d, w') \<Rightarrow>
                 if d = DENY then (Inl (ForbiddenError_init (''Access denied: '' @ resource @ '':'' @ action) None), w')
                 else next request w')"

definition CorrelationMiddleware :: "('w \<Rightarrow> string \<times> 'w) \<Rightarrow> ('w, 'a) Middleware" where
  "CorrelationMiddleware uuid4 request next w =
     (if truthy (getattr request ''correlation_id'') then next request w
      else case uuid4 w of (u, w') \<Rightarrow>
             next (if rq_settable request then setattr ''correlation_id'' (PStr u) request else request) w')"

definition ValidationMiddleware :: "('w, 'a) Middleware" where
  "ValidationMiddleware request next w =
     (case rq_validate request of
        None \<Rightarrow> next request w
      | Some v \<Rightarrow> (case v w of (Inl e, w') \<Rightarrow> (Inl e, w') | (Inr _, w') \<Rightarrow> next request w'))"

text \<open>\<open>assign\<close> is the assignment \<^verbatim>\<open>request._uow = uow\<close>, which a frozen request refuses.\<close>

definition UnitOfWorkMiddleware ::
  "('w, unit) act \<Rightarrow> ('w, unit) act \<Rightarrow> ('w Request \<Rightarrow> exn + 'w Request) \<Rightarrow> ('w, 'a) Middleware" where
  "UnitOfWorkMiddleware commit rollback assign request next =
     with_uow commit rollback
       (\<lambda>w. case assign request of Inl e \<Rightarrow> (Inl e, w) | Inr request' \<Rightarrow> next request' w)"

definition TimeoutMiddleware ::
  "(rat \<Rightarrow> ('w, 'a reply) act \<Rightarrow> ('w, 'a reply) act) \<Rightarrow> (rat \<Rightarrow> string) \<Rightarrow> rat \<Rightarrow> ('w, 'a) Middleware" where
  "TimeoutMiddleware wait_for fstr timeout request next w =
     (case wait_for timeout (next request) w of
        (Inr x, w') \<Rightarrow> (Inr x, w')
      | (Inl e, w') \<Rightarrow>
          if isinstance e [BuiltinTimeoutError]
          then (Inl (base_exn AppTimeoutError (''Use case timed out after '' @ fstr timeout @ ''s'')), w')
          else (Inl e, w'))"

text \<open>The cache is a port over the world; \<open>digest\<close> is the SHA-256 hex text of the request's JSON (or its
  \<^verbatim>\<open>repr\<close>), \<open>dumps\<close> and \<open>loads\<close> are \<^verbatim>\<open>pickle\<close>.\<close>

definition CachingMiddleware ::
  "(string \<Rightarrow> 'w \<Rightarrow> string option \<times> 'w) \<Rightarrow> (string \<Rightarrow> string \<Rightarrow> int \<Rightarrow> 'w \<Rightarrow> 'w) \<Rightarrow> ('w Request \<Rightarrow> string)
    \<Rightarrow> ('a reply \<Rightarrow> string) \<Rightarrow> (string \<Rightarrow> 'a reply) \<Rightarrow> int \<Rightarrow> (string, int) pydict \<Rightarrow> ('w, 'a) Middleware" where
  "CachingMiddleware cache_get cache_set digest dumps loads default_ttl ttl_map request next w =
     (if rq_kind request \<noteq> QueryKind then next request w
      else
        let key = ''query:'' @ rq_type request @ '':'' @ take 16 (digest request)
        in case cache_get key w of
             (Some bs, w1) \<Rightarrow> (Inr (loads bs), w1)
           | (None, w1) \<Rightarrow>
               (case next request w1 of
                  (Inl e, w2) \<Rightarrow> (Inl e, w2)
                | (Inr result, w2) \<Rightarrow>
                    (Inr result, cache_set key (dumps result) (dict_get_or ttl_map (rq_type request) default_ttl) w2)))"

text \<open>\<open>new_id\<close> and \<open>now\<close> stand for the defaults \<^verbatim>\<open>EntityId.generate\<close> and \<^verbatim>\<open>datetime.now\<close> of the event;
  \<open>store_record\<close> is the store's \<^verbatim>\<open>record\<close>.\<close>

definition nonempty_or :: "string option \<Rightarrow> string \<Rightarrow> string" where
  "nonempty_or x d = (case x of None \<Rightarrow> d | Some s \<Rightarrow> if s = [] then d else s)"

definition AuditMiddleware ::
  "(AuditEvent \<Rightarrow> ('w ambient, unit) act) \<Rightarrow> (pyval \<Rightarrow> string) \<Rightarrow> ('w ambient \<Rightarrow> string) \<Rightarrow> ('w ambient \<Rightarrow> microseconds)
    \<Rightarrow> string option \<Rightarrow> string option \<Rightarrow> ('w ambient, 'a) Middleware" where
  "AuditMiddleware store_record fstr new_id now action resource_type request next w =
     (let who = (case amb_principal w of None \<Rightarrow> ''anonymous'' | Some u \<Rightarrow> pr_subject u);
          event = (\<lambda>x w'. \<lparr>au_principal_id = who, au_action = nonempty_or action (rq_type request),
                     au_resource_type = nonempty_or resource_type (rq_type request),
                     au_resource_id = fstr (dict_get_or (rq_attrs request) ''id'' (PStr ''-'')), au_outcome = x,
                     au_event_id = new_id w', au_occurred_at = now w', au_metadata = []\<rparr>);
          finish = (\<lambda>x r w'. case store_record (event x w') w' of
                               (Inl e, w2) \<Rightarrow> (Inl e, w2) | (Inr _, w2) \<Rightarrow> (r, w2))
      in case next request w of
           (Inr result, w') \<Rightarrow> finish Allow (Inr result) w'
         | (Inl e, w') \<Rightarrow> if catchable e then finish Deny (Inl e) w' else (Inl e, w'))"

subsection \<open>Idempotency\<close>

datatype DeduplicationPolicy = RETURN_CACHED | RAISE_ERROR | IGNORE

record IdempotencyKey =
  ik_client_key :: string
  ik_operation :: string

definition IdempotencyKey_str :: "IdempotencyKey \<Rightarrow> string" where
  "IdempotencyKey_str k = ik_operation k @ '':'' @ ik_client_key k"

record IdempotencyRecord =
  ir_key :: string
  ir_response :: "string option"
  ir_status :: string
  ir_created_at :: microseconds
  ir_expires_at :: "microseconds option"

definition IdempotencyRecord_init :: "microseconds \<Rightarrow> string \<Rightarrow> IdempotencyRecord" where
  "IdempotencyRecord_init now key =
     \<lparr>ir_key = key, ir_response = None, ir_status = ''PROCESSING'', ir_created_at = now, ir_expires_at = None\<rparr>"

record 'w idem_port =
  idem_get :: "IdempotencyKey \<Rightarrow> 'w \<Rightarrow> IdempotencyRecord option"
  idem_save :: "IdempotencyKey \<Rightarrow> IdempotencyRecord \<Rightarrow> 'w \<Rightarrow> 'w"
  idem_complete :: "IdempotencyKey \<Rightarrow> string \<Rightarrow> 'w \<Rightarrow> 'w"
  idem_now :: "'w \<Rightarrow> microseconds"

text \<open>The tail both middlewares share: reserve the key, run the rest, complete the record. \<open>encode\<close> is
  \<^verbatim>\<open>json.dumps({"result": str(result)}).encode()\<close>.\<close>

definition run_recorded ::
  "'w idem_port \<Rightarrow> ('a reply \<Rightarrow> string) \<Rightarrow> IdempotencyKey \<Rightarrow> ('w, 'a reply) act \<Rightarrow> ('w, 'a reply) act" where
  "run_recorded store encode ikey body w =
     (case body (idem_save store ikey (IdempotencyRecord_init (idem_now store w) (IdempotencyKey_str ikey)) w) of
        (Inl e, w') \<Rightarrow> (Inl e, w')
      | (Inr result, w') \<Rightarrow> (Inr result, idem_complete store ikey (encode result) w'))"

definition IdempotencyMiddleware ::
  "'w idem_port \<Rightarrow> (pyval \<Rightarrow> string) \<Rightarrow> ('a reply \<Rightarrow> string) \<Rightarrow> ('w, 'a) Middleware" where
  "IdempotencyMiddleware store fstr encode request next w =
     (let key_value = getattr request ''idempotency_key''
      in if key_value = PNone then next request w
         else
           let ikey = \<lparr>ik_client_key = fstr key_value, ik_operation = rq_type request\<rparr>
           in case idem_get store ikey w of
                Some existing \<Rightarrow>
                  if ir_status existing = ''COMPLETED'' then (Inr (Replayed (ir_response existing)), w)
                  else run_recorded store encode ikey (next request) w
              | None \<Rightarrow> run_recorded store encode ikey (next request) w)"

definition command_id :: "'w Request \<Rightarrow> pyval" where
  "command_id request =
     (let c = getattr request ''command_id'' in if truthy c then c else getattr request ''idempotency_key'')"

definition command_key :: "(pyval \<Rightarrow> string) \<Rightarrow> 'w Request \<Rightarrow> IdempotencyKey" where
  "command_key fstr request = \<lparr>ik_client_key = fstr (command_id request), ik_operation = rq_type request\<rparr>"

definition DeduplicationMiddleware ::
  "'w idem_port \<Rightarrow> (pyval \<Rightarrow> string) \<Rightarrow> ('a reply \<Rightarrow> string) \<Rightarrow> ('w, 'a) Middleware" where
  "DeduplicationMiddleware store fstr encode request next w =
     (if rq_kind request \<noteq> CommandKind then next request w
      else if command_id request = PNone then next request w
      else
        let ikey = command_key fstr request
        in case idem_get store ikey w of
             Some existing \<Rightarrow>
               if ir_status existing = ''COMPLETED'' then (Inr (Replayed (ir_response existing)), w)
               else (Inl (base_exn ConflictError
                       (''Duplicate command '' @ rq_type request @ '':'' @ fstr (command_id request))), w)
           | None \<Rightarrow> run_recorded store encode ikey (next request) w)"

text \<open>The dictionary-backed store of \<^verbatim>\<open>testing/fakes/idempotency.py\<close>.\<close>

type_synonym InMemoryIdempotencyStore = "(string, IdempotencyRecord) pydict"

definition mem_idem_complete ::
  "microseconds \<Rightarrow> IdempotencyKey \<Rightarrow> string \<Rightarrow> InMemoryIdempotencyStore \<Rightarrow> InMemoryIdempotencyStore" where
  "mem_idem_complete now k response records =
     (case map_of records (IdempotencyKey_str k) of
        None \<Rightarrow> records
      | Some r \<Rightarrow>
          dict_set (IdempotencyKey_str k)
            \<lparr>ir_key = ir_key r, ir_response = Some response, ir_status = ''COMPLETED'', ir_created_at = now,
             ir_expires_at = None\<rparr> records)"

text \<open>It stands beside the rest of the world, which has the clock.\<close>

definition mem_idem_port :: "('w \<Rightarrow> microseconds) \<Rightarrow> (InMemoryIdempotencyStore \<times> 'w) idem_port" where
  "mem_idem_port now =
     \<lparr>idem_get = (\<lambda>k (s, w). map_of s (IdempotencyKey_str k)),
      idem_save = (\<lambda>k r (s, w). (dict_set (IdempotencyKey_str k) r s, w)),
      idem_complete = (\<lambda>k resp (s, w). (mem_idem_complete (now w) k resp s, w)),
      idem_now = (\<lambda>(s, w). now w)\<rparr>"

locale idempotency_store =
  fixes store :: "'w idem_port"
  assumes get_save: "\<exists>r'. idem_get store k (idem_save store k r w) = Some r' \<and> ir_status r' = ir_status r"
    and get_complete: "idem_get store k w = Some r \<Longrightarrow>
      \<exists>r'. idem_get store k (idem_complete store k resp w) = Some r'
         \<and> ir_status r' = ''COMPLETED'' \<and> ir_response r' = Some resp"
begin

lemma dedup_completed:
  assumes "idem_get store (command_key fstr rq) w = Some r" "ir_status r = ''COMPLETED''"
    and "rq_kind rq = CommandKind" "command_id rq \<noteq> PNone"
  shows "DeduplicationMiddleware store fstr encode rq next w = (Inr (Replayed (ir_response r)), w)"
  using assms by (simp add: DeduplicationMiddleware_def Let_def)

lemma dedup_processing:
  assumes "idem_get store (command_key fstr rq) w = Some r" "ir_status r \<noteq> ''COMPLETED''"
    and "rq_kind rq = CommandKind" "command_id rq \<noteq> PNone"
  shows "DeduplicationMiddleware store fstr encode rq next w =
    (Inl (base_exn ConflictError (''Duplicate command '' @ rq_type rq @ '':'' @ fstr (command_id rq))), w)"
  using assms by (simp add: DeduplicationMiddleware_def Let_def)

text \<open>After a first delivery every later one leaves the world alone: it replays the recorded response of
  a success, and conflicts after a failure.\<close>

lemma dedup_after_first:
  assumes fresh: "idem_get store (command_key fstr rq) w = None"
    and cmd: "rq_kind rq = CommandKind" "command_id rq \<noteq> PNone"
    and keeps: "\<And>v. idem_get store (command_key fstr rq) (snd (next rq v)) = idem_get store (command_key fstr rq) v"
    and first: "DeduplicationMiddleware store fstr encode rq next w = (res, w1)"
  shows "DeduplicationMiddleware store fstr encode rq next w1 =
    (case res of
       Inr x \<Rightarrow> (Inr (Replayed (Some (encode x))), w1)
     | Inl e \<Rightarrow> (Inl (base_exn ConflictError
                  (''Duplicate command '' @ rq_type rq @ '':'' @ fstr (command_id rq))), w1))"
proof -
  let ?k = "command_key fstr rq"
  let ?r0 = "IdempotencyRecord_init (idem_now store w) (IdempotencyKey_str ?k)"
  let ?w0 = "idem_save store ?k ?r0 w"
  obtain r w' where n: "next rq ?w0 = (r, w')" by fastforce
  obtain r1 where g: "idem_get store ?k w' = Some r1" and processing: "ir_status r1 = ''PROCESSING''"
    using keeps[of ?w0] n get_save[of ?k ?r0 w] by (auto simp: IdempotencyRecord_init_def)
  have run: "run_recorded store encode ?k (next rq) w = (res, w1)"
    using first fresh cmd by (simp add: DeduplicationMiddleware_def Let_def)
  show ?thesis
  proof (cases r)
    case (Inl e)
    with run n have "res = Inl e" "w1 = w'" by (simp_all add: run_recorded_def)
    with dedup_processing[of fstr rq w' r1] g processing cmd show ?thesis by simp
  next
    case (Inr x)
    with run n have "res = Inr x" "w1 = idem_complete store ?k (encode x) w'" by (simp_all add: run_recorded_def)
    moreover obtain r' where "idem_get store ?k (idem_complete store ?k (encode x) w') = Some r'"
        "ir_status r' = ''COMPLETED''" "ir_response r' = Some (encode x)"
      using get_complete[OF g] by blast
    ultimately show ?thesis using dedup_completed[of fstr rq w1 r'] cmd by simp
  qed
qed

lemma idempotency_replays:
  assumes "idem_get store \<lparr>ik_client_key = fstr (getattr rq ''idempotency_key''), ik_operation = rq_type rq\<rparr> w = Some r"
    and "ir_status r = ''COMPLETED''" "getattr rq ''idempotency_key'' \<noteq> PNone"
  shows "IdempotencyMiddleware store fstr encode rq next w = (Inr (Replayed (ir_response r)), w)"
  using assms by (simp add: IdempotencyMiddleware_def Let_def)

end

interpretation mem_idem: idempotency_store "mem_idem_port now"
  by unfold_locales (auto simp: mem_idem_port_def mem_idem_complete_def split_def)

subsection \<open>Buses\<close>

text \<open>Handlers are registered under the class of the command; the later registration wins.\<close>

type_synonym ('w, 'a) CommandBus = "(string, ('w, 'a) Handler) pydict"

definition no_handler :: "string \<Rightarrow> exn" where
  "no_handler type_name = plain_exn KeyError (''No handler registered for '' @ repr_str type_name)"

definition CommandBus_register :: "string \<Rightarrow> ('w, 'a) Handler \<Rightarrow> ('w, 'a) CommandBus \<Rightarrow> ('w, 'a) CommandBus" where
  "CommandBus_register command_type handler bus = dict_set command_type handler bus"

definition InProcessCommandBus_dispatch :: "('w, 'a) CommandBus \<Rightarrow> 'w Request \<Rightarrow> ('w, 'a reply) act" where
  "InProcessCommandBus_dispatch bus command w =
     (case map_of bus (rq_type command) of
        None \<Rightarrow> (Inl (no_handler (rq_type command)), w)
      | Some handler \<Rightarrow> handler command w)"

definition QueryBus_register :: "string \<Rightarrow> ('w, 'a) Handler \<Rightarrow> ('w, 'a) CommandBus \<Rightarrow> ('w, 'a) CommandBus" where
  "QueryBus_register query_type handler bus = dict_set query_type handler bus"

definition InProcessQueryBus_ask :: "('w, 'a) CommandBus \<Rightarrow> 'w Request \<Rightarrow> ('w, 'a reply) act" where
  "InProcessQueryBus_ask bus query w =
     (case map_of bus (rq_type query) of
        None \<Rightarrow> (Inl (no_handler (rq_type query)), w)
      | Some handler \<Rightarrow> handler query w)"

definition MiddlewareAwareCommandBus_dispatch ::
  "('w, 'a) Pipeline \<Rightarrow> ('w, 'a) CommandBus \<Rightarrow> 'w Request \<Rightarrow> ('w, 'a reply) act" where
  "MiddlewareAwareCommandBus_dispatch pipeline bus command w =
     (case map_of bus (rq_type command) of
        None \<Rightarrow> (Inl (no_handler (rq_type command)), w)
      | Some handler \<Rightarrow> Pipeline_execute pipeline command handler w)"

text \<open>The global registries filled by the class decorators, and the bus built from one of them: the
  extra handlers are registered last. A handler class is its no-argument constructor.\<close>

type_synonym ('w, 'a) handler_registry = "(string, unit \<Rightarrow> ('w, 'a) Handler) pydict"

definition command_handler ::
  "string \<Rightarrow> (unit \<Rightarrow> ('w, 'a) Handler) \<Rightarrow> ('w, 'a) handler_registry \<Rightarrow> ('w, 'a) handler_registry" where
  "command_handler command_type handler_class registry = dict_set command_type handler_class registry"

definition make_command_bus ::
  "('w, 'a) handler_registry \<Rightarrow> (string, ('w, 'a) Handler) pydict \<Rightarrow> ('w, 'a) CommandBus" where
  "make_command_bus registry extra =
     fold (\<lambda>(t, h) bus. CommandBus_register t h bus) extra
       (fold (\<lambda>(t, cls) bus. CommandBus_register t (cls ()) bus) registry [])"

definition make_query_bus ::
  "('w, 'a) handler_registry \<Rightarrow> (string, ('w, 'a) Handler) pydict \<Rightarrow> ('w, 'a) CommandBus" where
  "make_query_bus registry extra =
     fold (\<lambda>(t, h) bus. QueryBus_register t h bus) extra
       (fold (\<lambda>(t, cls) bus. QueryBus_register t (cls ()) bus) registry [])"

text \<open>The event bus. The handlers of an event are gathered: each of them runs, and the first exception is
  raised to the publisher; here they run one after the other in the order of their registration.\<close>

type_synonym 'w EventBus = "(string, (DomainEvent \<Rightarrow> ('w, unit) act) list) pydict"

definition EventBus_register :: "string \<Rightarrow> (DomainEvent \<Rightarrow> ('w, unit) act) \<Rightarrow> 'w EventBus \<Rightarrow> 'w EventBus" where
  "EventBus_register event_type handler bus =
     dict_set event_type (dict_get_or bus event_type [] @ [handler]) bus"

fun gather :: "('w, unit) act list \<Rightarrow> ('w, unit) act" where
  "gather [] w = (Inr (), w)"
| "gather (a # as) w =
     (case a w of (r, w1) \<Rightarrow> case gather as w1 of (rs, w2) \<Rightarrow> (case r of Inl e \<Rightarrow> Inl e | Inr _ \<Rightarrow> rs, w2))"

definition InProcessEventBus_publish :: "'w EventBus \<Rightarrow> DomainEvent \<Rightarrow> ('w, unit) act" where
  "InProcessEventBus_publish bus event = gather (map (\<lambda>h. h event) (dict_get_or bus (ev_event_type event) []))"

lemma map_of_fold_register:
  "map_of (fold (\<lambda>(t, h) bus. CommandBus_register t h bus) hs bus) t =
     (case map_of (rev hs) t of None \<Rightarrow> map_of bus t | Some h \<Rightarrow> Some h)"
  by (induction hs arbitrary: bus) (auto simp: CommandBus_register_def map_add_def split: option.splits)

lemma map_of_rev_dict: "dict_ok d \<Longrightarrow> map_of (rev d) k = map_of d k"
  by (metis dict_ok_def distinct_rev map_of_inject_set rev_map set_rev)

lemma command_bus_routes:
  "InProcessCommandBus_dispatch (CommandBus_register t h bus) cmd w =
     (if rq_type cmd = t then h cmd w else InProcessCommandBus_dispatch bus cmd w)"
  by (simp add: InProcessCommandBus_dispatch_def CommandBus_register_def)

lemma gather_all_run: "snd (gather as w) = fold (\<lambda>a v. snd (a v)) as w"
  by (induction as arbitrary: w) (simp_all add: split_def)

lemma event_bus_fan_out:
  "dict_get_or (EventBus_register t h bus) t' [] = (if t' = t then dict_get_or bus t [] @ [h] else dict_get_or bus t' [])"
  by (simp add: EventBus_register_def dict_get_or_def)

lemma command_bus_from_registry:
  "InProcessCommandBus_dispatch (make_command_bus registry (extra @ [(rq_type cmd, h)])) cmd w = h cmd w"
  by (simp add: make_command_bus_def command_bus_routes)

subsection \<open>Order of the chain\<close>

lemma Pipeline_execute_Nil [simp]: "Pipeline_execute [] rq h = h rq"
  by (simp add: Pipeline_execute_def)

lemma Pipeline_execute_Cons [simp]:
  "Pipeline_execute (m # ms) rq h = m rq (\<lambda>rq'. Pipeline_execute ms rq' h)"
  by (simp add: Pipeline_execute_def)

lemma Pipeline_execute_append:
  "Pipeline_execute (ms @ ns) rq h = Pipeline_execute ms rq (\<lambda>rq'. Pipeline_execute ns rq' h)"
  by (induction ms arbitrary: rq) simp_all

lemma Pipeline_add_all: "fold Pipeline_add ms acc = acc @ ms"
  by (induction ms arbitrary: acc) (simp_all add: Pipeline_add_def)

text \<open>A middleware that notes when it is entered and when it is left, around a piece of its own.\<close>

datatype mark = Enter nat | Leave nat | Handled

definition probe :: "nat \<Rightarrow> (mark list \<times> 'w, 'a) Middleware" where
  "probe i rq next lw =
     (case next rq (fst lw @ [Enter i], snd lw) of (r, lw') \<Rightarrow> (r, (fst lw' @ [Leave i], snd lw')))"

definition probed :: "('w Request \<Rightarrow> ('w, 'a reply) act) \<Rightarrow> 'w Request \<Rightarrow> (mark list \<times> 'w, 'a) Handler" where
  "probed h r0 rq lw = (case h r0 (snd lw) of (r, w') \<Rightarrow> (r, (fst lw @ [Handled], w')))"

lemma probes_nest:
  "Pipeline_execute (map probe is) rq (probed h r0) (l, w) =
     (fst (h r0 w), (l @ map Enter is @ [Handled] @ map Leave (rev is), snd (h r0 w)))"
  by (induction "is" arbitrary: l w rq) (simp_all add: probe_def probed_def split_def)

subsection \<open>Repeated deliveries\<close>

fun redeliver :: "nat \<Rightarrow> ('w, 'r) act \<Rightarrow> 'w \<Rightarrow> (exn + 'r) list \<times> 'w" where
  "redeliver 0 f w = ([], w)"
| "redeliver (Suc n) f w = (case f w of (r, w1) \<Rightarrow> case redeliver n f w1 of (rs, w2) \<Rightarrow> (r # rs, w2))"

lemma redeliver_stable: "f w = (r, w) \<Longrightarrow> redeliver n f w = (replicate n r, w)"
  by (induction n) simp_all

text \<open>A handler of the rest of the world.\<close>

definition beside :: "('w, 'r) act \<Rightarrow> ('s \<times> 'w, 'r) act" where
  "beside f sw = (case f (snd sw) of (r, w') \<Rightarrow> (r, (fst sw, w')))"

subsection \<open>Properties\<close>

text \<open>Order: the middlewares run around the handler in the order they were added, the first one outermost,
  and unwind in the reverse order, whether the handler returns or raises; the outcome is the handler's.\<close>

theorem pipeline_nesting:
  "Pipeline_execute (fold Pipeline_add (map probe is) []) rq (probed h r0) ([], w) =
     (fst (h r0 w), (map Enter is @ [Handled] @ map Leave (rev is), snd (h r0 w)))"
  using probes_nest[of "is" rq h r0 "[]" w] by (simp add: Pipeline_add_all)

text \<open>C20. Deduplication: of any number of deliveries of one command to the middleware over the in-memory store,
  only the first reaches the handler; the others replay its recorded response when it succeeded, and
  raise \<^verbatim>\<open>ConflictError\<close> when it failed, for good.\<close>

theorem deduplication_runs_once:
  assumes "map_of s (IdempotencyKey_str (command_key fstr rq)) = None"
    and "rq_kind rq = CommandKind" "command_id rq \<noteq> PNone"
  shows "\<exists>s'. redeliver (Suc n)
      (DeduplicationMiddleware (mem_idem_port now) fstr encode rq (\<lambda>_. beside h)) (s, w) =
    (fst (h w) # replicate n
       (case fst (h w) of
          Inr x \<Rightarrow> Inr (Replayed (Some (encode x)))
        | Inl e \<Rightarrow> Inl (base_exn ConflictError
            (''Duplicate command '' @ rq_type rq @ '':'' @ fstr (command_id rq)))),
     (s', snd (h w)))"
proof -
  let ?D = "DeduplicationMiddleware (mem_idem_port now) fstr encode rq (\<lambda>_. beside h)"
  have first: "\<exists>s1. ?D (s, w) = (fst (h w), (s1, snd (h w)))"
    using assms by (auto simp: DeduplicationMiddleware_def Let_def mem_idem_port_def run_recorded_def beside_def
        split_def split: sum.splits)
  then obtain s1 where d: "?D (s, w) = (fst (h w), (s1, snd (h w)))" by blast
  have "idem_get (mem_idem_port now) k (snd (beside h v)) = idem_get (mem_idem_port now) k v" for k v
    by (simp add: mem_idem_port_def beside_def split_def)
  from mem_idem.dedup_after_first[OF _ assms(2,3) this d] assms(1)
  have "?D (s1, snd (h w)) = (case fst (h w) of
          Inr x \<Rightarrow> Inr (Replayed (Some (encode x)))
        | Inl e \<Rightarrow> Inl (base_exn ConflictError
            (''Duplicate command '' @ rq_type rq @ '':'' @ fstr (command_id rq))), (s1, snd (h w)))"
    by (auto simp: mem_idem_port_def split: sum.splits)
  then have "redeliver n ?D (s1, snd (h w)) = (replicate n (fst (?D (s1, snd (h w)))), (s1, snd (h w)))"
    by (intro redeliver_stable) simp
  with d \<open>?D (s1, snd (h w)) = _\<close> show ?thesis by simp
qed

definition demo_command :: "(InMemoryIdempotencyStore \<times> nat) Request" where
  "demo_command = \<lparr>rq_type = ''Pay'', rq_kind = CommandKind, rq_attrs = [(''command_id'', PStr ''c1'')],
     rq_validate = None, rq_settable = True\<rparr>"

definition demo_str :: "pyval \<Rightarrow> string" where
  "demo_str v = (case v of PStr s \<Rightarrow> s | _ \<Rightarrow> '''')"

theorem deduplication_runs_once_witness:
  "\<exists>s'. redeliver 3 (DeduplicationMiddleware (mem_idem_port (\<lambda>_. 0)) demo_str (\<lambda>_. ''ok'') demo_command
      (\<lambda>_. beside (\<lambda>n. (Inr (Fresh n), Suc n)))) ([], 7) =
    ([Inr (Fresh 7), Inr (Replayed (Some ''ok'')), Inr (Replayed (Some ''ok''))], (s', 8))"
  using deduplication_runs_once[of "[]" demo_str demo_command 2 "\<lambda>_. 0" "\<lambda>_. ''ok''" "\<lambda>n. (Inr (Fresh n), Suc n)" 7]
  by (simp add: demo_command_def command_id_def getattr_def dict_get_or_def Let_def numeral_eq_Suc)

end
