(* ===== verification/Py_Regex.thy ===== *)
theory Py_Regex
  imports Py_Text
begin

text \<open>
  The part of Python's \<^verbatim>\<open>re\<close> the library uses: a backtracking matcher over characters classes,
  sequence, alternation, greedy repetition, \<^verbatim>\<open>$\<close> and \<^verbatim>\<open>\b\<close>. \<open>ends r s i\<close> lists the positions where a
  match of \<open>r\<close> that starts at \<open>i\<close> may end, in the order backtracking tries them, so its first element
  is the match Python takes. \<open>rmatch\<close> is the declarative reading; the two agree. Substitution is for
  patterns that do not match the empty string, which are the only ones the library substitutes.
\<close>

subsection \<open>Expressions\<close>

datatype rexp =
    Eps
  | Cls "char \<Rightarrow> bool"
  | Seq rexp rexp
  | Alt rexp rexp
  | Star rexp
  | Eos
  | Wordb

definition Plus1 :: "rexp \<Rightarrow> rexp" where
  "Plus1 r = Seq r (Star r)"

definition Opt :: "rexp \<Rightarrow> rexp" where
  "Opt r = Alt r Eps"

definition Chr :: "char \<Rightarrow> rexp" where
  "Chr c = Cls (\<lambda>d. d = c)"

primrec Rep :: "nat \<Rightarrow> rexp \<Rightarrow> rexp" where
  "Rep 0 r = Eps"
| "Rep (Suc n) r = Seq r (Rep n r)"

primrec Upto :: "nat \<Rightarrow> rexp \<Rightarrow> rexp" where
  "Upto 0 r = Eps"
| "Upto (Suc n) r = Alt (Seq r (Upto n r)) Eps"

text \<open>\<^verbatim>\<open>r{m,n}\<close> and \<^verbatim>\<open>r{m,}\<close>.\<close>

definition Between :: "nat \<Rightarrow> nat \<Rightarrow> rexp \<Rightarrow> rexp" where
  "Between m n r = Seq (Rep m r) (Upto (n - m) r)"

definition At_least :: "nat \<Rightarrow> rexp \<Rightarrow> rexp" where
  "At_least m r = Seq (Rep m r) (Star r)"

lemmas rexp_defs = Plus1_def Opt_def Chr_def Between_def At_least_def

text \<open>\<^verbatim>\<open>\w\<close>.\<close>

definition is_word :: "char \<Rightarrow> bool" where
  "is_word c \<longleftrightarrow> is_alnum c \<or> c = CHR ''_''"

definition newline :: char where
  "newline = CHR 0x0A"

text \<open>\<^verbatim>\<open>$\<close> without flags: the end, or just before a newline that ends the string.\<close>

definition at_end :: "string \<Rightarrow> nat \<Rightarrow> bool" where
  "at_end s i \<longleftrightarrow> i = length s \<or> (Suc i = length s \<and> s ! i = newline)"

definition at_word_boundary :: "string \<Rightarrow> nat \<Rightarrow> bool" where
  "at_word_boundary s i \<longleftrightarrow>
     (0 < i \<and> i \<le> length s \<and> is_word (s ! (i - 1))) \<noteq> (i < length s \<and> is_word (s ! i))"

subsection \<open>The matcher\<close>

primrec star_ends :: "nat \<Rightarrow> (nat \<Rightarrow> nat list) \<Rightarrow> nat \<Rightarrow> nat list" where
  "star_ends 0 f i = [i]"
| "star_ends (Suc n) f i = concat (map (\<lambda>j. if i < j then star_ends n f j else []) (f i)) @ [i]"

primrec ends :: "rexp \<Rightarrow> string \<Rightarrow> nat \<Rightarrow> nat list" where
  "ends Eps s i = [i]"
| "ends (Cls p) s i = (if i < length s \<and> p (s ! i) then [Suc i] else [])"
| "ends (Seq a b) s i = concat (map (ends b s) (ends a s i))"
| "ends (Alt a b) s i = ends a s i @ ends b s i"
| "ends (Star a) s i = star_ends (length s - i) (ends a s) i"
| "ends Eos s i = (if at_end s i then [i] else [])"
| "ends Wordb s i = (if at_word_boundary s i then [i] else [])"

text \<open>\<^verbatim>\<open>re.match\<close>: anchored at the start.\<close>

definition re_match :: "rexp \<Rightarrow> string \<Rightarrow> bool" where
  "re_match r s \<longleftrightarrow> ends r s 0 \<noteq> []"

function re_sub_from :: "rexp \<Rightarrow> string \<Rightarrow> string \<Rightarrow> nat \<Rightarrow> string" where
  "re_sub_from r rep s i =
     (if length s \<le> i then []
      else case ends r s i of
             [] \<Rightarrow> s ! i # re_sub_from r rep s (Suc i)
           | j # _ \<Rightarrow> if i < j then rep @ re_sub_from r rep s j else s ! i # re_sub_from r rep s (Suc i))"
  by pat_completeness auto
termination by (relation "measure (\<lambda>(r, rep, s, i). length s - i)") auto

declare re_sub_from.simps [simp del]

definition re_sub :: "rexp \<Rightarrow> string \<Rightarrow> string \<Rightarrow> string" where
  "re_sub r rep s = re_sub_from r rep s 0"

subsection \<open>Declarative reading\<close>

inductive rmatch :: "rexp \<Rightarrow> string \<Rightarrow> nat \<Rightarrow> nat \<Rightarrow> bool" where
  m_eps: "rmatch Eps s i i"
| m_cls: "i < length s \<Longrightarrow> p (s ! i) \<Longrightarrow> rmatch (Cls p) s i (Suc i)"
| m_seq: "rmatch a s i j \<Longrightarrow> rmatch b s j k \<Longrightarrow> rmatch (Seq a b) s i k"
| m_alt1: "rmatch a s i j \<Longrightarrow> rmatch (Alt a b) s i j"
| m_alt2: "rmatch b s i j \<Longrightarrow> rmatch (Alt a b) s i j"
| m_star0: "rmatch (Star a) s i i"
| m_star1: "rmatch a s i j \<Longrightarrow> rmatch (Star a) s j k \<Longrightarrow> rmatch (Star a) s i k"
| m_eos: "at_end s i \<Longrightarrow> rmatch Eos s i i"
| m_wordb: "at_word_boundary s i \<Longrightarrow> rmatch Wordb s i i"

inductive_simps rmatch_simps [simp]:
  "rmatch Eps s i j" "rmatch (Cls p) s i j" "rmatch (Seq a b) s i j" "rmatch (Alt a b) s i j"
  "rmatch Eos s i j" "rmatch Wordb s i j"

lemma rmatch_mono: "rmatch r s i j \<Longrightarrow> i \<le> length s \<Longrightarrow> i \<le> j \<and> j \<le> length s"
  by (induction rule: rmatch.induct) auto

text \<open>A repetition may be taken to make progress at each turn.\<close>

lemma star_progress:
  assumes "rmatch (Star a) s i k" "i \<le> length s" "i \<noteq> k"
  shows "\<exists>j. i < j \<and> rmatch a s i j \<and> rmatch (Star a) s j k"
  using assms
proof (induction "Star a" s i k rule: rmatch.induct)
  case (m_star1 s i j k)
  show ?case
  proof (cases "i = j")
    case True
    with m_star1 show ?thesis by blast
  next
    case False
    then have "i < j" using rmatch_mono[OF m_star1(1)] m_star1.prems by simp
    then show ?thesis using m_star1(1,3) by blast
  qed
qed simp

lemma star_ends_sound:
  assumes "\<And>i j. j \<in> set (f i) \<Longrightarrow> rmatch a s i j"
  shows "k \<in> set (star_ends n f i) \<Longrightarrow> rmatch (Star a) s i k"
proof (induction n arbitrary: i)
  case 0
  then show ?case by (simp add: m_star0)
next
  case (Suc n)
  then show ?case by (auto split: if_splits intro: m_star0 m_star1 assms)
qed

lemma star_ends_complete:
  assumes "\<And>i j. i \<le> length s \<Longrightarrow> rmatch a s i j \<Longrightarrow> j \<in> set (f i)"
  shows "rmatch (Star a) s i k \<Longrightarrow> i \<le> length s \<Longrightarrow> length s - i \<le> n \<Longrightarrow> k \<in> set (star_ends n f i)"
proof (induction n arbitrary: i)
  case 0
  then show ?case using rmatch_mono[of "Star a" s i k] by simp
next
  case (Suc n)
  show ?case
  proof (cases "i = k")
    case False
    then obtain j where j: "i < j" "rmatch a s i j" "rmatch (Star a) s j k"
      using star_progress Suc.prems by blast
    moreover have "j \<le> length s" using rmatch_mono[OF j(2)] Suc.prems by blast
    ultimately have "k \<in> set (star_ends n f j)" using Suc by simp
    moreover have "j \<in> set (f i)" using assms j Suc.prems by blast
    ultimately show ?thesis using j(1) by auto
  qed simp
qed

lemma ends_sound: "j \<in> set (ends r s i) \<Longrightarrow> rmatch r s i j"
proof (induction r arbitrary: i j)
  case (Seq a b)
  then show ?case by (simp add: Bex_def) blast
next
  case (Star a)
  then show ?case using star_ends_sound[of "ends a s" a s] by simp
qed (auto split: if_splits intro: rmatch.intros)

lemma ends_complete: "rmatch r s i j \<Longrightarrow> i \<le> length s \<Longrightarrow> j \<in> set (ends r s i)"
proof (induction r arbitrary: i j)
  case (Seq a b)
  then show ?case using rmatch_mono by fastforce
next
  case (Star a)
  then show ?case using star_ends_complete[of s a "ends a s"] by simp
qed auto

lemma ends_iff: "i \<le> length s \<Longrightarrow> j \<in> set (ends r s i) \<longleftrightarrow> rmatch r s i j"
  using ends_sound ends_complete by blast

lemma re_match_iff: "re_match r s \<longleftrightarrow> (\<exists>j. rmatch r s 0 j)"
  unfolding re_match_def using ends_iff[of 0 s _ r] by (metis empty_iff equals0I le0 list.set(1) set_empty)

subsection \<open>Runs of a class\<close>

lemma rmatch_star_cls:
  "i \<le> length s \<Longrightarrow> rmatch (Star (Cls p)) s i k \<longleftrightarrow> i \<le> k \<and> k \<le> length s \<and> (\<forall>m. i \<le> m \<and> m < k \<longrightarrow> p (s ! m))"
proof
  assume "rmatch (Star (Cls p)) s i k" "i \<le> length s"
  then show "i \<le> k \<and> k \<le> length s \<and> (\<forall>m. i \<le> m \<and> m < k \<longrightarrow> p (s ! m))"
  proof (induction "Star (Cls p)" s i k rule: rmatch.induct)
    case (m_star1 s i j k)
    then show ?case by (auto simp: le_Suc_eq) (metis Suc_leI le_neq_implies_less)
  qed auto
next
  assume "i \<le> k \<and> k \<le> length s \<and> (\<forall>m. i \<le> m \<and> m < k \<longrightarrow> p (s ! m))"
  then show "rmatch (Star (Cls p)) s i k"
  proof (induction "k - i" arbitrary: i)
    case 0
    then show ?case by (simp add: m_star0)
  next
    case (Suc n)
    then have "i < k" "rmatch (Cls p) s i (Suc i)" by auto
    moreover have "rmatch (Star (Cls p)) s (Suc i) k" using Suc by simp
    ultimately show ?case by (blast intro: m_star1)
  qed
qed

lemma rmatch_rep_cls:
  "i \<le> length s \<Longrightarrow> rmatch (Rep n (Cls p)) s i k \<longleftrightarrow> k = i + n \<and> k \<le> length s \<and> (\<forall>m. i \<le> m \<and> m < k \<longrightarrow> p (s ! m))"
proof (induction n arbitrary: i)
  case (Suc n)
  show ?case
  proof
    assume "rmatch (Rep (Suc n) (Cls p)) s i k"
    then have "i < length s" "p (s ! i)" "rmatch (Rep n (Cls p)) s (Suc i) k" by auto
    with Suc.IH[of "Suc i"] show "k = i + Suc n \<and> k \<le> length s \<and> (\<forall>m. i \<le> m \<and> m < k \<longrightarrow> p (s ! m))"
      by (metis Suc_leI add_Suc_shift le_neq_implies_less)
  next
    assume "k = i + Suc n \<and> k \<le> length s \<and> (\<forall>m. i \<le> m \<and> m < k \<longrightarrow> p (s ! m))"
    with Suc.IH[of "Suc i"] show "rmatch (Rep (Suc n) (Cls p)) s i k" by simp
  qed
qed auto

lemma rmatch_upto_cls:
  "i \<le> length s \<Longrightarrow> rmatch (Upto n (Cls p)) s i k \<longleftrightarrow> i \<le> k \<and> k \<le> i + n \<and> k \<le> length s \<and> (\<forall>m. i \<le> m \<and> m < k \<longrightarrow> p (s ! m))"
proof (induction n arbitrary: i)
  case (Suc n)
  show ?case
  proof (cases "k = i")
    case True
    with Suc.prems show ?thesis by auto
  next
    case False
    then have "rmatch (Upto (Suc n) (Cls p)) s i k \<longleftrightarrow> i < length s \<and> p (s ! i) \<and> rmatch (Upto n (Cls p)) s (Suc i) k"
      by auto
    also have "\<dots> \<longleftrightarrow> i \<le> k \<and> k \<le> i + Suc n \<and> k \<le> length s \<and> (\<forall>m. i \<le> m \<and> m < k \<longrightarrow> p (s ! m))"
      using Suc.IH[of "Suc i"] False by (auto simp: Suc_le_eq) (metis le_neq_implies_less)+
    finally show ?thesis .
  qed
qed auto

lemma all_between_nth: "(\<forall>m. 0 \<le> m \<and> m < k \<longrightarrow> p (s ! m)) \<longleftrightarrow> list_all p (take k s)" if "k \<le> length s" for k
  using that by (auto simp: list_all_length)

text \<open>Full patterns \<^verbatim>\<open>^[class]{m,n}$\<close>: a string of the class, perhaps with a final newline.\<close>

definition upto_newline :: "(string \<Rightarrow> bool) \<Rightarrow> string \<Rightarrow> bool" where
  "upto_newline P s \<longleftrightarrow> P s \<or> (s \<noteq> [] \<and> last s = newline \<and> P (butlast s))"

lemma match_to_end:
  assumes "\<And>k. rmatch r s 0 k \<longleftrightarrow> k \<le> length s \<and> P (take k s)"
  shows "re_match (Seq r Eos) s \<longleftrightarrow> upto_newline P s"
proof
  assume "re_match (Seq r Eos) s"
  then obtain k where k: "k \<le> length s" "P (take k s)" "at_end s k" using assms by (auto simp: re_match_iff)
  show "upto_newline P s"
  proof (cases "k = length s")
    case True
    with k show ?thesis by (simp add: upto_newline_def)
  next
    case False
    with k have "Suc k = length s" "s ! k = newline" by (auto simp: at_end_def)
    then have "s \<noteq> []" "length s - 1 = k" by auto
    then have "last s = newline" "butlast s = take k s"
      using \<open>s ! k = newline\<close> by (simp_all add: last_conv_nth butlast_conv_take)
    with k \<open>s \<noteq> []\<close> show ?thesis by (simp add: upto_newline_def)
  qed
next
  assume "upto_newline P s"
  then consider "P s" | "s \<noteq> []" "last s = newline" "P (butlast s)" by (auto simp: upto_newline_def)
  then show "re_match (Seq r Eos) s"
  proof cases
    case 1
    then show ?thesis using assms[of "length s"] by (auto simp: re_match_iff at_end_def)
  next
    case 2
    then have "at_end s (length s - 1)" by (auto simp: at_end_def last_conv_nth)
    moreover have "rmatch r s 0 (length s - 1)" using 2 assms by (simp add: butlast_conv_take)
    ultimately show ?thesis by (auto simp: re_match_iff)
  qed
qed

lemma match_cls_between:
  assumes "m \<le> n"
  shows "re_match (Seq (Between m n (Cls p)) Eos) s \<longleftrightarrow>
    upto_newline (\<lambda>t. m \<le> length t \<and> length t \<le> n \<and> list_all p t) s"
proof (rule match_to_end)
  fix k
  show "rmatch (Between m n (Cls p)) s 0 k \<longleftrightarrow>
    k \<le> length s \<and> m \<le> length (take k s) \<and> length (take k s) \<le> n \<and> list_all p (take k s)"
  proof
    assume "rmatch (Between m n (Cls p)) s 0 k"
    then have "m \<le> length s" "\<forall>j. j < m \<longrightarrow> p (s ! j)" "rmatch (Upto (n - m) (Cls p)) s m k"
      by (auto simp: Between_def rmatch_rep_cls)
    then have "k \<le> length s" "m \<le> k" "k \<le> n" "\<forall>j. j < k \<longrightarrow> p (s ! j)"
      using assms by (auto simp: rmatch_upto_cls) (metis le_neq_implies_less linorder_not_le)
    then show "k \<le> length s \<and> m \<le> length (take k s) \<and> length (take k s) \<le> n \<and> list_all p (take k s)"
      by (auto simp: list_all_length)
  next
    assume "k \<le> length s \<and> m \<le> length (take k s) \<and> length (take k s) \<le> n \<and> list_all p (take k s)"
    then show "rmatch (Between m n (Cls p)) s 0 k"
      by (auto simp: Between_def rmatch_rep_cls rmatch_upto_cls list_all_length min_def intro!: exI[of _ m] split: if_splits)
  qed
qed

subsection \<open>Substitution of a class\<close>

lemma star_ends_ne [simp]: "star_ends n f i \<noteq> []"
  by (cases n) auto

lemma hd_star_cls:
  "length s - i \<le> n \<Longrightarrow> hd (star_ends n (ends (Cls p) s) i) = i + length (takeWhile p (drop i s))"
proof (induction n arbitrary: i)
  case 0
  then show ?case by simp
next
  case (Suc n)
  show ?case
  proof (cases "i < length s \<and> p (s ! i)")
    case True
    with Suc.prems have "length s - Suc i \<le> n" by simp
    from Suc.IH[OF this] True show ?thesis by (simp add: hd_append Cons_nth_drop_Suc[symmetric])
  next
    case False
    then have "takeWhile p (drop i s) = []"
      by (cases "i < length s") (auto simp: Cons_nth_drop_Suc[symmetric])
    with False show ?thesis by auto
  qed
qed

lemma re_sub_cls: "re_sub_from (Cls p) rep s i = concat (map (\<lambda>c. if p c then rep else [c]) (drop i s))"
proof (induction "Cls p" rep s i rule: re_sub_from.induct)
  case (1 rep s i)
  then show ?case by (subst re_sub_from.simps) (auto simp: Cons_nth_drop_Suc[symmetric])
qed

function squeeze :: "(char \<Rightarrow> bool) \<Rightarrow> string \<Rightarrow> string \<Rightarrow> string" where
  "squeeze p rep [] = []"
| "squeeze p rep (c # s) = (if p c then rep @ squeeze p rep (dropWhile p s) else c # squeeze p rep s)"
  by pat_completeness auto
termination by (relation "measure (\<lambda>(p, rep, s). length s)") (auto simp: le_imp_less_Suc length_dropWhile_le)

lemma re_sub_run: "re_sub_from (Plus1 (Cls p)) rep s i = squeeze p rep (drop i s)"
proof (induction "Plus1 (Cls p)" rep s i rule: re_sub_from.induct)
  case (1 rep s i)
  show ?case
  proof (cases "i < length s")
    case False
    then show ?thesis by (subst re_sub_from.simps) simp
  next
    case True
    then have d: "drop i s = s ! i # drop (Suc i) s" by (simp add: Cons_nth_drop_Suc)
    show ?thesis
    proof (cases "p (s ! i)")
      case False
      with True have "ends (Plus1 (Cls p)) s i = []" by (simp add: Plus1_def)
      with 1 True False d show ?thesis by (subst re_sub_from.simps) simp
    next
      case p: True
      let ?es = "star_ends (length s - Suc i) (ends (Cls p) s) (Suc i)"
      have e: "ends (Plus1 (Cls p)) s i = ?es" using True p by (simp add: Plus1_def)
      then obtain j js where j: "ends (Plus1 (Cls p)) s i = j # js" by (metis list.exhaust star_ends_ne)
      then have "j = Suc i + length (takeWhile p (drop (Suc i) s))" using hd_star_cls[of s "Suc i"] e by (metis le_refl list.sel(1))
      then have "drop j s = dropWhile p (drop (Suc i) s)" "i < j"
        by (simp_all add: dropWhile_eq_drop add.commute)
      with 1(2)[OF _ j] True p d show ?thesis by (subst re_sub_from.simps) (simp add: j)
    qed
  qed
qed

lemma re_sub_simps:
  "re_sub (Cls p) rep s = concat (map (\<lambda>c. if p c then rep else [c]) s)"
  "re_sub (Plus1 (Cls p)) rep s = squeeze p rep s"
  by (simp_all add: re_sub_def re_sub_cls re_sub_run)

lemma concat_filter: "concat (map (\<lambda>c. if p c then [] else [c]) s) = filter (\<lambda>c. \<not> p c) s"
  by (induction s) auto

lemma squeeze_subset: "set (squeeze p rep s) \<subseteq> set rep \<union> {c \<in> set s. \<not> p c}"
proof (induction p rep s rule: squeeze.induct)
  case (2 p rep c s)
  have "set (dropWhile p s) \<subseteq> set s" by (auto dest: set_dropWhileD)
  with 2 show ?case by (cases "p c") auto
qed simp

subsection \<open>Languages\<close>

text \<open>Expressions without anchors match a substring by its content alone.\<close>

primrec pure :: "rexp \<Rightarrow> bool" where
  "pure Eps = True"
| "pure (Cls p) = True"
| "pure (Seq a b) = (pure a \<and> pure b)"
| "pure (Alt a b) = (pure a \<and> pure b)"
| "pure (Star a) = pure a"
| "pure Eos = False"
| "pure Wordb = False"

primrec lang :: "rexp \<Rightarrow> string set" where
  "lang Eps = {[]}"
| "lang (Cls p) = {[c] |c. p c}"
| "lang (Seq a b) = {u @ v |u v. u \<in> lang a \<and> v \<in> lang b}"
| "lang (Alt a b) = lang a \<union> lang b"
| "lang (Star a) = {concat ws |ws. set ws \<subseteq> lang a}"
| "lang Eos = {}"
| "lang Wordb = {}"

definition slice :: "string \<Rightarrow> nat \<Rightarrow> nat \<Rightarrow> string" where
  "slice s i j = take (j - i) (drop i s)"

lemma slice_append:
  assumes "i \<le> j" "j \<le> k"
  shows "slice s i j @ slice s j k = slice s i k"
proof -
  obtain a b where "j = i + a" "k = i + a + b" using assms by (metis le_iff_add)
  then show ?thesis by (simp add: slice_def take_add add.commute)
qed

lemma slice_split:
  assumes "slice s i k = u @ v" "i \<le> k" "k \<le> length s"
  shows "\<exists>j. i \<le> j \<and> j \<le> k \<and> u = slice s i j \<and> v = slice s j k"
proof -
  let ?j = "i + length u"
  have l: "length u + length v = k - i" using arg_cong[OF assms(1), of length] assms(2,3) by (simp add: slice_def)
  have "u = take (length u) (slice s i k)" "v = drop (length u) (slice s i k)" using assms(1) by simp_all
  then have "u = slice s i ?j" "v = slice s ?j k"
    using l assms by (simp_all add: slice_def drop_take min_def add.commute diff_diff_eq split: if_splits)
  with l assms(2) show ?thesis by (intro exI[of _ ?j]) auto
qed

lemma rmatch_imp_lang: "rmatch r s i j \<Longrightarrow> pure r \<Longrightarrow> i \<le> length s \<Longrightarrow> slice s i j \<in> lang r"
proof (induction rule: rmatch.induct)
  case (m_cls i s p)
  then show ?case by (simp add: slice_def Cons_nth_drop_Suc[symmetric])
next
  case (m_seq a s i j b k)
  then have "i \<le> j" "j \<le> k" "j \<le> length s" using rmatch_mono by fastforce+
  with m_seq slice_append[of i j k s] show ?case by simp metis
next
  case (m_star0 a s i)
  then show ?case by (auto simp: slice_def intro!: exI[of _ "[]"])
next
  case (m_star1 a s i j k)
  then have ij: "i \<le> j" "j \<le> k" "j \<le> length s" using rmatch_mono by fastforce+
  then obtain ws where "slice s j k = concat ws" "set ws \<subseteq> lang a" using m_star1 by auto
  with m_star1 ij slice_append[of i j k s] show ?case by (auto intro!: exI[of _ "slice s i j # ws"])
qed (auto simp: slice_def)

lemma lang_imp_rmatch:
  "pure r \<Longrightarrow> slice s i j \<in> lang r \<Longrightarrow> i \<le> j \<Longrightarrow> j \<le> length s \<Longrightarrow> rmatch r s i j"
proof (induction r arbitrary: i j)
  case (Cls p)
  then obtain c where c: "slice s i j = [c]" "p c" by auto
  have "length (slice s i j) = j - i" using Cls.prems by (simp add: slice_def)
  with c(1) Cls.prems have "j = Suc i" by simp
  moreover from this have "s ! i = c" using c Cls.prems by (simp add: slice_def Cons_nth_drop_Suc[symmetric])
  ultimately show ?case using c Cls.prems by simp
next
  case (Seq a b)
  then obtain u v where "slice s i j = u @ v" "u \<in> lang a" "v \<in> lang b" by auto
  with slice_split[of s i j u v] Seq.prems obtain m where
    m: "i \<le> m" "m \<le> j" "slice s i m \<in> lang a" "slice s m j \<in> lang b" by blast
  then have "rmatch a s i m" "rmatch b s m j" using Seq.IH(1)[of i m] Seq.IH(2)[of m j] Seq.prems by simp_all
  then show ?case by (rule m_seq)
next
  case (Star a)
  then obtain ws where "slice s i j = concat ws" "set ws \<subseteq> lang a" by auto
  then show ?case using Star.prems(3,4)
  proof (induction ws arbitrary: i)
    case Nil
    then have "i = j" by (auto simp: slice_def)
    then show ?case by (simp add: m_star0)
  next
    case (Cons w ws)
    then obtain m where m: "i \<le> m" "m \<le> j" "w = slice s i m" "concat ws = slice s m j"
      using slice_split[of s i j w "concat ws"] by auto
    then have "rmatch a s i m" using Star.IH[of i m] Star.prems(1) Cons.prems by auto
    moreover have "rmatch (Star a) s m j" using Cons.IH[of m] Cons.prems m by auto
    ultimately show ?case by (rule m_star1)
  qed
qed (auto simp: slice_def)

lemma match_pure: "pure r \<Longrightarrow> re_match (Seq r Eos) s \<longleftrightarrow> upto_newline (\<lambda>t. t \<in> lang r) s"
proof (rule match_to_end)
  fix k
  assume "pure r"
  then show "rmatch r s 0 k \<longleftrightarrow> k \<le> length s \<and> take k s \<in> lang r"
    using rmatch_imp_lang[of r s 0 k] lang_imp_rmatch[of r s 0 k] rmatch_mono[of r s 0 k] by (auto simp: slice_def)
qed

lemma lang_star_cls: "lang (Star (Cls p)) = {w. list_all p w}"
proof (intro set_eqI)
  fix w
  show "w \<in> lang (Star (Cls p)) \<longleftrightarrow> w \<in> {w. list_all p w}"
  proof
    assume "w \<in> {w. list_all p w}"
    then show "w \<in> lang (Star (Cls p))"
      by (auto simp: list_all_iff intro!: exI[of _ "map (\<lambda>c. [c]) w"] simp: concat_map_singleton)
  qed (fastforce simp: list_all_iff)
qed

lemma lang_plus_cls: "lang (Plus1 (Cls p)) = {w. w \<noteq> [] \<and> list_all p w}"
  unfolding Plus1_def lang.simps(3) lang_star_cls
proof (intro set_eqI)
  fix w
  show "w \<in> {u @ v |u v. u \<in> lang (Cls p) \<and> v \<in> {w. list_all p w}} \<longleftrightarrow> w \<in> {w. w \<noteq> [] \<and> list_all p w}"
  proof (cases w)
    case (Cons c t)
    then show ?thesis by auto (metis append_Cons append_Nil)
  qed auto
qed

end
