(* ===== verification/Py_Base64.thy ===== *)
theory Py_Base64
  imports Py_Text "HOL-Library.Word"
begin

text \<open>
  \<^verbatim>\<open>base64.urlsafe_b64encode\<close> and its inverse on lists of bytes, as the library uses them for tokens and
  PKCE challenges: groups of three bytes become four characters of the URL-safe alphabet, a last group
  of one or two bytes is padded with \<^verbatim>\<open>=\<close>.
\<close>

type_synonym bytes = "8 word list"

definition b64_alphabet :: string where
  "b64_alphabet = ''ABCDEFGHIJKLMNOPQRSTUVWXYZabcdefghijklmnopqrstuvwxyz0123456789-_''"

definition b64_char :: "nat \<Rightarrow> char" where
  "b64_char n = b64_alphabet ! n"

definition pad_char :: char where
  "pad_char = CHR ''=''"

text \<open>The four sextets of a group of 24 bits.\<close>

definition sextets :: "nat \<Rightarrow> nat list" where
  "sextets n = [n div 262144, n div 4096 mod 64, n div 64 mod 64, n mod 64]"

definition group24 :: "8 word \<Rightarrow> 8 word \<Rightarrow> 8 word \<Rightarrow> nat" where
  "group24 a b c = unat a * 65536 + unat b * 256 + unat c"

text \<open>Without padding: \<^verbatim>\<open>urlsafe_b64encode(raw).rstrip(b"=")\<close>.\<close>

fun b64_unpadded :: "bytes \<Rightarrow> string" where
  "b64_unpadded [] = []"
| "b64_unpadded [a] = map b64_char (take 2 (sextets (group24 a 0 0)))"
| "b64_unpadded [a, b] = map b64_char (take 3 (sextets (group24 a b 0)))"
| "b64_unpadded (a # b # c # bs) = map b64_char (sextets (group24 a b c)) @ b64_unpadded bs"

definition urlsafe_b64encode :: "bytes \<Rightarrow> string" where
  "urlsafe_b64encode bs = b64_unpadded bs @ replicate ((3 - length bs mod 3) mod 3) pad_char"

definition b64_val :: "char \<Rightarrow> nat" where
  "b64_val c = length (takeWhile (\<lambda>d. d \<noteq> c) b64_alphabet)"

text \<open>The decoder of unpadded text.\<close>

fun b64_decode :: "string \<Rightarrow> bytes" where
  "b64_decode (p # q # r # s # cs) =
     (let n = b64_val p * 262144 + b64_val q * 4096 + b64_val r * 64 + b64_val s
      in [word_of_nat (n div 65536), word_of_nat (n div 256 mod 256), word_of_nat (n mod 256)] @ b64_decode cs)"
| "b64_decode [p, q, r] =
     (let n = b64_val p * 262144 + b64_val q * 4096 + b64_val r * 64
      in [word_of_nat (n div 65536), word_of_nat (n div 256 mod 256)])"
| "b64_decode [p, q] = (let n = b64_val p * 262144 + b64_val q * 4096 in [word_of_nat (n div 65536)])"
| "b64_decode _ = []"

subsection \<open>Facts\<close>

definition is_b64 :: "char \<Rightarrow> bool" where
  "is_b64 c \<longleftrightarrow> is_alnum c \<or> c = CHR ''-'' \<or> c = CHR ''_''"

lemma length_b64_alphabet [simp]: "length b64_alphabet = 64"
  by (simp add: b64_alphabet_def)

lemma alphabet_is_b64: "list_all is_b64 b64_alphabet"
  by (simp add: b64_alphabet_def is_b64_def is_alnum_def is_alpha_def is_upper_def is_lower_def is_digit_def)

lemma distinct_alphabet: "distinct b64_alphabet"
  unfolding b64_alphabet_def by code_simp

lemma b64_char_is_b64 [simp]: "n < 64 \<Longrightarrow> is_b64 (b64_char n)"
  using alphabet_is_b64 by (simp add: b64_char_def list_all_length)

lemma takeWhile_index: "distinct xs \<Longrightarrow> n < length xs \<Longrightarrow> length (takeWhile (\<lambda>d. d \<noteq> xs ! n) xs) = n"
proof (induction xs arbitrary: n)
  case (Cons x xs)
  then show ?case by (cases n) auto
qed simp

lemma b64_val_char [simp]: "n < 64 \<Longrightarrow> b64_val (b64_char n) = n"
  by (simp add: b64_val_def b64_char_def takeWhile_index distinct_alphabet)

lemma byte_bound: "unat (a :: 8 word) < 256"
  using unsigned_less[of a, where 'a = nat] by simp

lemma group24_bound: "group24 a b c < 16777216"
proof -
  have "unat a < 256" "unat b < 256" "unat c < 256" by (rule byte_bound)+
  then show ?thesis by (simp add: group24_def)
qed

lemma sextet_bounds:
  assumes "n < (16777216 :: nat)"
  shows "n div 262144 < 64" "n div 4096 mod 64 < 64" "n div 64 mod 64 < 64" "n mod 64 < 64"
  using assms by simp_all

lemma sextets_sum: "n div 262144 * 262144 + n div 4096 mod 64 * 4096 + n div 64 mod 64 * 64 + n mod 64 = (n::nat)"
proof -
  have "n = n div 64 * 64 + n mod 64" by simp
  moreover have "n div 64 = n div 4096 * 64 + n div 64 mod 64"
    using div_mult_mod_eq[of "n div 64" 64] by (simp add: div_mult2_eq[symmetric])
  moreover have "n div 4096 = n div 262144 * 64 + n div 4096 mod 64"
    using div_mult_mod_eq[of "n div 4096" 64] by (simp add: div_mult2_eq[symmetric])
  ultimately show ?thesis by linarith
qed

lemma byte_block: "c < 256 \<Longrightarrow> (q * 256 + c) div 256 = (q::nat) \<and> (q * 256 + c) mod 256 = c"
  by simp

lemma group24_parts:
  "group24 a b c div 65536 = unat a" "group24 a b c div 256 mod 256 = unat b" "group24 a b c mod 256 = unat c"
proof -
  have b: "unat b * 256 + unat c < 65536" "unat b < 256" "unat c < 256"
    using byte_bound[of b] byte_bound[of c] by linarith+
  have "group24 a b c = unat a * 65536 + (unat b * 256 + unat c)" by (simp add: group24_def)
  then show "group24 a b c div 65536 = unat a" using b(1) by simp
  have "group24 a b c = (unat a * 256 + unat b) * 256 + unat c" by (simp add: group24_def)
  then have "group24 a b c div 256 = unat a * 256 + unat b" "group24 a b c mod 256 = unat c"
    using byte_block[OF b(3), of "unat a * 256 + unat b"] by simp_all
  then show "group24 a b c div 256 mod 256 = unat b" "group24 a b c mod 256 = unat c" using b(2) by simp_all
qed

lemma group24_bytes:
  "word_of_nat (group24 a b c div 65536) = a" "word_of_nat (group24 a b c div 256 mod 256) = b"
  "word_of_nat (group24 a b c mod 256) = c"
  by (simp_all add: group24_parts)

lemma group24_low1: "group24 a 0 0 mod 4096 = 0"
proof -
  have "group24 a 0 0 = unat a * 16 * 4096" by (simp add: group24_def)
  then show ?thesis by (metis mod_mult_self2_is_0)
qed

lemma group24_low2: "group24 a b 0 mod 64 = 0"
proof -
  have "group24 a b 0 = (unat a * 1024 + unat b * 4) * 64" by (simp add: group24_def)
  then show ?thesis by (metis mod_mult_self2_is_0)
qed

lemma sextets_two: "n mod 4096 = 0 \<Longrightarrow> n div 262144 * 262144 + n div 4096 mod 64 * 4096 = (n::nat)"
proof -
  assume "n mod 4096 = 0"
  then have "n div 4096 * 4096 = n" using div_mult_mod_eq[of n 4096] by simp
  moreover have "n div 4096 = n div 262144 * 64 + n div 4096 mod 64"
    using div_mult_mod_eq[of "n div 4096" 64] by (simp add: div_mult2_eq[symmetric])
  ultimately show ?thesis by linarith
qed

lemma b64_round_trip: "b64_decode (b64_unpadded bs) = bs"
proof (induction bs rule: b64_unpadded.induct)
  case (2 a)
  let ?n = "group24 a 0 0"
  have "?n div 262144 * 262144 + ?n div 4096 mod 64 * 4096 = ?n"
    by (rule sextets_two[OF group24_low1])
  then show ?case using group24_bytes(1)[of a 0 0] sextet_bounds[OF group24_bound[of a 0 0]]
    by (simp add: sextets_def)
next
  case (3 a b)
  let ?n = "group24 a b 0"
  have "?n div 262144 * 262144 + ?n div 4096 mod 64 * 4096 + ?n div 64 mod 64 * 64 = ?n"
    using sextets_sum[of ?n] group24_low2[of a b] by simp
  then show ?case using group24_bytes(1,2)[of a b 0] sextet_bounds[OF group24_bound[of a b 0]]
    by (simp add: sextets_def numeral_3_eq_3)
next
  case (4 a b c bs)
  then show ?case
    using sextets_sum[of "group24 a b c"] group24_bytes[of a b c] sextet_bounds[OF group24_bound[of a b c]]
    by (simp add: sextets_def Let_def)
qed simp

lemma b64_unpadded_inj: "b64_unpadded a = b64_unpadded b \<longleftrightarrow> a = b"
  by (metis b64_round_trip)

lemma b64_unpadded_chars: "list_all is_b64 (b64_unpadded bs)"
proof (induction bs rule: b64_unpadded.induct)
  case (2 a)
  then show ?case using sextet_bounds[OF group24_bound[of a 0 0]] by (simp add: sextets_def)
next
  case (3 a b)
  then show ?case using sextet_bounds[OF group24_bound[of a b 0]] by (simp add: sextets_def numeral_3_eq_3)
next
  case (4 a b c bs)
  then show ?case using sextet_bounds[OF group24_bound[of a b c]] by (simp add: sextets_def)
qed simp

lemma b64_unpadded_length: "length (b64_unpadded bs) = (4 * length bs + 2) div 3"
  by (induction bs rule: b64_unpadded.induct) (simp_all add: sextets_def)

end
