(* ===== verification/Value_Objects.thy ===== *)
theory Value_Objects
  imports Errors Py_Regex Py_Base64
begin

text \<open>
  The value objects of \<^verbatim>\<open>kernel/types\<close> (\<^verbatim>\<open>Result\<close>, \<^verbatim>\<open>Option\<close>, \<^verbatim>\<open>Money\<close>, \<^verbatim>\<open>Email\<close>, identifiers, phone
  numbers, slugs, unique ids) and the contracts of \<^verbatim>\<open>kernel/contracts\<close>. A constructor that validates
  returns the object or the error it raises. Amounts are the rational numbers that finite decimals
  denote; arithmetic on them rounds to the 28 digits of Python's default decimal context.
\<close>

subsection \<open>Result and Option\<close>

datatype ('t, 'e) Result = Ok 't | Err 'e

fun Result_is_ok :: "('t, 'e) Result \<Rightarrow> bool" where
  "Result_is_ok (Ok v) = True"
| "Result_is_ok (Err e) = False"

fun Result_unwrap :: "('t, exn) Result \<Rightarrow> exn + 't" where
  "Result_unwrap (Ok v) = Inr v"
| "Result_unwrap (Err e) = Inl e"

fun Result_unwrap_or :: "('t, 'e) Result \<Rightarrow> 't \<Rightarrow> 't" where
  "Result_unwrap_or (Ok v) d = v"
| "Result_unwrap_or (Err e) d = d"

fun Result_map :: "('t \<Rightarrow> 'u) \<Rightarrow> ('t, 'e) Result \<Rightarrow> ('u, 'e) Result" where
  "Result_map f (Ok v) = Ok (f v)"
| "Result_map f (Err e) = Err e"

fun Result_flat_map :: "('t \<Rightarrow> ('u, 'e) Result) \<Rightarrow> ('t, 'e) Result \<Rightarrow> ('u, 'e) Result" where
  "Result_flat_map f (Ok v) = f v"
| "Result_flat_map f (Err e) = Err e"

datatype 't Option = Something 't | Nothing

fun Option_is_some :: "'t Option \<Rightarrow> bool" where
  "Option_is_some (Something v) = True"
| "Option_is_some Nothing = False"

fun Option_unwrap :: "'t Option \<Rightarrow> exn + 't" where
  "Option_unwrap (Something v) = Inr v"
| "Option_unwrap Nothing = Inl (plain_exn ValueError ''Called unwrap() on Nothing'')"

fun Option_unwrap_or :: "'t Option \<Rightarrow> 't \<Rightarrow> 't" where
  "Option_unwrap_or (Something v) d = v"
| "Option_unwrap_or Nothing d = d"

fun Option_map :: "('t \<Rightarrow> 'u) \<Rightarrow> 't Option \<Rightarrow> 'u Option" where
  "Option_map f (Something v) = Something (f v)"
| "Option_map f Nothing = Nothing"

fun Option_flat_map :: "('t \<Rightarrow> 'u Option) \<Rightarrow> 't Option \<Rightarrow> 'u Option" where
  "Option_flat_map f (Something v) = f v"
| "Option_flat_map f Nothing = Nothing"

fun Option_filter :: "('t \<Rightarrow> bool) \<Rightarrow> 't Option \<Rightarrow> 't Option" where
  "Option_filter p (Something v) = (if p v then Something v else Nothing)"
| "Option_filter p Nothing = Nothing"

fun Option_iter :: "'t Option \<Rightarrow> 't list" where
  "Option_iter (Something v) = [v]"
| "Option_iter Nothing = []"

lemma Result_flat_map_assoc:
  "Result_flat_map g (Result_flat_map f r) = Result_flat_map (\<lambda>x. Result_flat_map g (f x)) r"
  by (cases r) simp_all

lemma Result_map_flat_map: "Result_map f r = Result_flat_map (\<lambda>x. Ok (f x)) r"
  by (cases r) simp_all

lemma Option_iter_flat_map: "Option_iter (Option_flat_map f t) = concat (map (\<lambda>x. Option_iter (f x)) (Option_iter t))"
  by (cases t) simp_all

lemma Option_iter_filter: "Option_iter (Option_filter p t) = filter p (Option_iter t)"
  by (cases t) simp_all

subsection \<open>Decimals and Money\<close>

definition digits_of :: "int \<Rightarrow> int" where
  "digits_of n = int (length (show_nat (nat \<bar>n\<bar>)))"

text \<open>The exponent of the leading digit of a positive number.\<close>

definition adjusted :: "rat \<Rightarrow> int" where
  "adjusted x =
     (case quotient_of x of (p, q) \<Rightarrow>
        let k = digits_of p - digits_of q in if 10 powi k \<le> x then k else k - 1)"

text \<open>Rounding to 28 significant digits, ties to even.\<close>

definition dec_fix :: "rat \<Rightarrow> rat" where
  "dec_fix x =
     (if x = 0 then 0
      else let e = adjusted \<bar>x\<bar> - 27 in of_int (py_round (x / 10 powi e)) * 10 powi e)"

lemma py_round_nonneg: "0 \<le> q \<Longrightarrow> 0 \<le> py_round q"
proof -
  assume "0 \<le> q"
  with py_round_close[of q] have "- 1 < (of_int (py_round q) :: rat)" by linarith
  then have "- 1 < py_round q" by (metis of_int_1 of_int_less_iff of_int_minus)
  then show ?thesis by simp
qed

lemma py_round_nonpos: "q \<le> 0 \<Longrightarrow> py_round q \<le> 0"
proof -
  assume "q \<le> 0"
  with py_round_close[of q] have "(of_int (py_round q) :: rat) < 1" by linarith
  then have "py_round q < 1" by (metis of_int_1 of_int_less_iff)
  then show ?thesis by simp
qed

lemma dec_fix_nonneg: "0 \<le> x \<Longrightarrow> 0 \<le> dec_fix x"
proof -
  assume "0 \<le> x"
  then have "0 \<le> py_round (x / 10 powi e)" for e :: int
    by (rule_tac py_round_nonneg) simp
  then show ?thesis by (simp add: dec_fix_def Let_def)
qed

lemma dec_fix_neg: "x < 0 \<Longrightarrow> dec_fix x \<le> 0"
proof -
  assume "x < 0"
  then have "py_round (x / 10 powi e) \<le> 0" for e :: int
    by (rule_tac py_round_nonpos) (simp add: divide_nonpos_pos)
  then show ?thesis by (simp add: dec_fix_def Let_def mult_nonpos_nonneg)
qed

record Money =
  mo_amount :: rat
  mo_currency :: string

abbreviation verr :: "string \<Rightarrow> exn" where
  "verr msg \<equiv> ValidationError_init msg None"

definition ISO4217 :: rexp where
  "ISO4217 = Seq (Between 3 3 (Cls is_upper)) Eos"

definition Money_init :: "rat \<Rightarrow> string \<Rightarrow> exn + Money" where
  "Money_init amount currency =
     (if \<not> re_match ISO4217 currency then Inl (verr (''Invalid ISO 4217 currency code: '' @ repr_str currency))
      else if amount < 0 then Inl (verr ''Money amount must be non-negative'')
      else Inr \<lparr>mo_amount = amount, mo_currency = currency\<rparr>)"

definition assert_same_currency :: "Money \<Rightarrow> Money \<Rightarrow> exn + unit" where
  "assert_same_currency a b =
     (if mo_currency a \<noteq> mo_currency b
      then Inl (verr (''Currency mismatch: '' @ mo_currency a @ '' vs '' @ mo_currency b)) else Inr ())"

definition Money_add :: "Money \<Rightarrow> Money \<Rightarrow> exn + Money" where
  "Money_add a b =
     (case assert_same_currency a b of
        Inl e \<Rightarrow> Inl e
      | Inr _ \<Rightarrow> Money_init (dec_fix (mo_amount a + mo_amount b)) (mo_currency a))"

definition Money_sub :: "Money \<Rightarrow> Money \<Rightarrow> exn + Money" where
  "Money_sub a b =
     (case assert_same_currency a b of
        Inl e \<Rightarrow> Inl e
      | Inr _ \<Rightarrow>
          let result = dec_fix (mo_amount a - mo_amount b)
          in if result < 0 then Inl (verr ''Subtraction would produce negative Money'')
             else Money_init result (mo_currency a))"

text \<open>\<open>amount\<close> is the number that \<^verbatim>\<open>Decimal(str(amount))\<close> denotes.\<close>

definition Money_of :: "rat \<Rightarrow> string \<Rightarrow> exn + Money" where
  "Money_of amount currency = Money_init amount (upper currency)"

definition Money_multiply :: "Money \<Rightarrow> rat \<Rightarrow> exn + Money" where
  "Money_multiply m factor =
     (let result = dec_fix (mo_amount m * factor)
      in if result < 0 then Inl (verr ''multiply() would produce negative Money'')
         else Money_init result (mo_currency m))"

definition money_ok :: "Money \<Rightarrow> bool" where
  "money_ok m \<longleftrightarrow> 0 \<le> mo_amount m \<and> re_match ISO4217 (mo_currency m)"

lemma Money_init_ok: "Money_init a c = Inr m \<Longrightarrow> money_ok m \<and> mo_amount m = a \<and> mo_currency m = c"
  by (auto simp: Money_init_def money_ok_def split: if_splits)

lemma Money_init_total: "money_ok m \<Longrightarrow> Money_init (mo_amount m) (mo_currency m) = Inr m"
  by (simp add: Money_init_def money_ok_def)

lemma Money_add_total:
  assumes "money_ok a" "money_ok b" "mo_currency a = mo_currency b"
  shows "Money_add a b = Inr \<lparr>mo_amount = dec_fix (mo_amount a + mo_amount b), mo_currency = mo_currency a\<rparr>"
proof -
  have "0 \<le> dec_fix (mo_amount a + mo_amount b)" using assms by (intro dec_fix_nonneg) (simp add: money_ok_def)
  with assms show ?thesis by (simp add: Money_add_def assert_same_currency_def Money_init_def money_ok_def)
qed

text \<open>The pattern ends with \<^verbatim>\<open>$\<close>, so a currency code followed by a newline is accepted.\<close>

lemma currency_language: "re_match ISO4217 c \<longleftrightarrow> upto_newline (\<lambda>t. length t = 3 \<and> list_all is_upper t) c"
proof -
  have "(\<lambda>t :: string. 3 \<le> length t \<and> length t \<le> 3 \<and> list_all is_upper t) = (\<lambda>t. length t = 3 \<and> list_all is_upper t)"
    by (rule ext) (simp add: eq_iff conj_commute conj_assoc)
  then show ?thesis unfolding ISO4217_def using match_cls_between[of 3 3 is_upper c] by simp
qed

lemma currency_with_newline: "re_match ISO4217 (''USD'' @ [newline])"
  by (simp add: currency_language upto_newline_def is_upper_def)

subsection \<open>Identifiers\<close>

definition StrId_init :: "string \<Rightarrow> string \<Rightarrow> exn + string" where
  "StrId_init cls v = (if v = [] then Inl (verr (cls @ '' must not be empty'')) else Inr v)"

definition EntityId_generate :: "string \<Rightarrow> exn + string" where
  "EntityId_generate uuid7 = StrId_init ''EntityId'' uuid7"

definition EntityId_from_str :: "string \<Rightarrow> exn + string" where
  "EntityId_from_str v = StrId_init ''EntityId'' v"

definition CorrelationId_generate :: "string \<Rightarrow> exn + string" where
  "CorrelationId_generate uuid7 = StrId_init ''CorrelationId'' uuid7"

subsection \<open>Email\<close>

definition email_local :: "char \<Rightarrow> bool" where
  "email_local c \<longleftrightarrow> is_alnum c \<or> c \<in> set ''._%+-''"

definition email_host :: "char \<Rightarrow> bool" where
  "email_host c \<longleftrightarrow> is_alnum c \<or> c \<in> set ''.-''"

definition EMAIL_BODY :: rexp where
  "EMAIL_BODY = Seq (Plus1 (Cls email_local)) (Seq (Chr CHR ''@'') (Seq (Plus1 (Cls email_host))
     (Seq (Chr CHR ''.'') (At_least 2 (Cls is_alpha)))))"

definition EMAIL_PATTERN :: rexp where
  "EMAIL_PATTERN = Seq EMAIL_BODY Eos"

definition Email_init :: "string \<Rightarrow> exn + string" where
  "Email_init v =
     (let normalised = strip (lower v)
      in if \<not> re_match EMAIL_PATTERN normalised then Inl (verr (''Invalid email address: '' @ repr_str normalised))
         else Inr normalised)"

text \<open>\<^verbatim>\<open>self.value.split("@", 1)[1]\<close>; \<^verbatim>\<open>IndexError\<close> cannot happen for a constructed address.\<close>

definition Email_domain :: "string \<Rightarrow> string option" where
  "Email_domain v = (case dropWhile (\<lambda>c. c \<noteq> CHR ''@'') v of [] \<Rightarrow> None | _ # d \<Rightarrow> Some d)"

lemma pure_Rep: "pure r \<Longrightarrow> pure (Rep n r)"
  by (induction n) simp_all

lemma pure_email: "pure EMAIL_BODY"
  by (simp add: EMAIL_BODY_def rexp_defs pure_Rep numeral_2_eq_2)

lemma last_strip_not_space: "strip s \<noteq> [] \<Longrightarrow> \<not> is_space (last (strip s))"
  unfolding strip_def by (rule last_strip_by)

lemma newline_space: "is_space newline"
  by (simp add: is_space_def newline_def)

text \<open>Normalising strips a trailing newline, so an email is in the language of its pattern.\<close>

lemma Email_language: "Email_init v = Inr e \<Longrightarrow> e = strip (lower v) \<and> e \<in> lang EMAIL_BODY"
proof -
  assume "Email_init v = Inr e"
  then have e: "e = strip (lower v)" "re_match EMAIL_PATTERN e"
    by (auto simp: Email_init_def Let_def split: if_splits)
  then have "upto_newline (\<lambda>t. t \<in> lang EMAIL_BODY) e"
    using match_pure[OF pure_email] by (simp add: EMAIL_PATTERN_def)
  moreover have "e \<noteq> [] \<Longrightarrow> last e \<noteq> newline"
    using last_strip_not_space[of "lower v"] newline_space e(1) by metis
  ultimately show ?thesis using e(1) by (auto simp: upto_newline_def)
qed

lemma Email_idem: "Email_init v = Inr e \<Longrightarrow> Email_init e = Inr e"
proof -
  assume a: "Email_init v = Inr e"
  then have "e = strip (lower v)" "re_match EMAIL_PATTERN e"
    by (auto simp: Email_init_def Let_def split: if_splits)
  moreover have "lower (strip (lower v)) = strip (lower v)"
  proof -
    have "set (strip (lower v)) \<subseteq> set (lower v)" unfolding strip_def by (rule strip_by_subset)
    then have "\<forall>c \<in> set (strip (lower v)). \<not> is_upper c" by (auto simp: lower_def)
    then show ?thesis by (simp add: lower_def to_lower_fixed map_idI)
  qed
  ultimately show ?thesis by (simp add: Email_init_def Let_def)
qed

lemma Email_has_domain: "Email_init v = Inr e \<Longrightarrow> \<exists>d. Email_domain e = Some d \<and> d \<noteq> []"
proof -
  assume "Email_init v = Inr e"
  then have "e \<in> lang EMAIL_BODY" using Email_language by blast
  then obtain u w where e: "e = u @ CHR ''@'' # w" and u: "list_all email_local u" and w: "w \<noteq> []"
    unfolding EMAIL_BODY_def lang.simps(3) lang_plus_cls by (auto simp: Chr_def)
  have "CHR ''@'' \<notin> set u" using u by (auto simp: list_all_iff email_local_def is_alnum_def is_alpha_def is_upper_def is_lower_def is_digit_def)
  then have "dropWhile (\<lambda>c. c \<noteq> CHR ''@'') e = CHR ''@'' # w" using e by (induction u arbitrary: e) auto
  with w show ?thesis by (simp add: Email_domain_def)
qed

subsection \<open>Phone numbers\<close>

definition E164_BODY :: rexp where
  "E164_BODY = Seq (Chr CHR ''+'') (Seq (Cls (\<lambda>c. is_digit c \<and> c \<noteq> CHR ''0'')) (Between 6 14 (Cls is_digit)))"

definition PhoneNumber_init :: "string \<Rightarrow> exn + string" where
  "PhoneNumber_init v =
     (if \<not> re_match (Seq E164_BODY Eos) v then Inl (verr (''Invalid E.164 phone number: '' @ repr_str v)) else Inr v)"

definition CC1 :: "string list" where
  "CC1 = [''1'', ''7'']"

definition CC2 :: "string list" where
  "CC2 = [''20'', ''27'', ''30'', ''31'', ''32'', ''33'', ''34'', ''36'', ''39'', ''40'', ''41'', ''43'', ''44'', ''45'',
     ''46'', ''47'', ''48'', ''49'', ''51'', ''52'', ''53'', ''54'', ''55'', ''56'', ''57'', ''58'', ''60'', ''61'', ''62'',
     ''63'', ''64'', ''65'', ''66'', ''81'', ''82'', ''84'', ''86'', ''90'', ''91'', ''92'', ''93'', ''94'', ''95'', ''98'']"

definition country_code :: "string \<Rightarrow> string" where
  "country_code v =
     (let digits = drop 1 v
      in if take 1 digits \<in> set CC1 then take 1 digits
         else if take 2 digits \<in> set CC2 then take 2 digits
         else take 3 digits)"

definition national_number :: "string \<Rightarrow> string" where
  "national_number v = drop (1 + length (country_code v)) v"

lemma pure_Upto: "pure r \<Longrightarrow> pure (Upto n r)"
  by (induction n) simp_all

lemma country_code_prefix: "\<exists>n \<in> {1, 2, 3}. country_code v = take n (drop 1 v)"
  by (auto simp: country_code_def Let_def)

lemma phone_parts: "v \<noteq> [] \<Longrightarrow> hd v # country_code v @ national_number v = v"
proof (cases v)
  case (Cons c d)
  obtain n where n: "country_code v = take n d" using country_code_prefix[of v] Cons by auto
  have "take n d @ drop (length (take n d)) d = d" by (metis append_take_drop_id append_eq_conv_conj)
  with n Cons show ?thesis by (simp add: national_number_def)
qed simp

lemma PhoneNumber_starts_plus: "PhoneNumber_init v = Inr p \<Longrightarrow> p = v \<and> v \<noteq> [] \<and> hd v = CHR ''+''"
proof -
  assume "PhoneNumber_init v = Inr p"
  then have "p = v" "re_match (Seq E164_BODY Eos) v" by (auto simp: PhoneNumber_init_def split: if_splits)
  moreover have "pure E164_BODY" by (simp add: E164_BODY_def Chr_def Between_def pure_Rep pure_Upto)
  ultimately have "upto_newline (\<lambda>t. t \<in> lang E164_BODY) v" by (simp add: match_pure)
  moreover have "t \<in> lang E164_BODY \<Longrightarrow> t \<noteq> [] \<and> hd t = CHR ''+''" for t
    unfolding E164_BODY_def lang.simps(3)[of "Chr CHR ''+''"] by (auto simp: Chr_def)
  ultimately show ?thesis using \<open>p = v\<close> by (auto simp: upto_newline_def) (metis append_butlast_last_id hd_append2)+
qed

text \<open>A phone number is its plus sign, country code and national number.\<close>

lemma phone_split: "PhoneNumber_init v = Inr p \<Longrightarrow> p = ''+'' @ country_code p @ national_number p"
  using PhoneNumber_starts_plus[of v p] phone_parts[of v] by fastforce

subsection \<open>Unique identifiers\<close>

definition crockford :: "char \<Rightarrow> bool" where
  "crockford c \<longleftrightarrow> is_digit c \<or> (is_upper c \<and> c \<notin> set ''ILOU'')"

definition ULID_init :: "string \<Rightarrow> exn + string" where
  "ULID_init v =
     (if \<not> re_match (Seq (Between 26 26 (Cls crockford)) Eos) (upper v)
      then Inl (verr (''Invalid ULID: '' @ repr_str v)) else Inr v)"

text \<open>\<open>version\<close> is the version field of the UUID.\<close>

definition UUIDv7_init :: "('u \<Rightarrow> int option) \<Rightarrow> 'u \<Rightarrow> exn + 'u" where
  "UUIDv7_init version u =
     (if version u \<noteq> Some 7
      then Inl (verr (''Expected UUID v7, got v'' @ (case version u of None \<Rightarrow> ''None'' | Some n \<Rightarrow> show_int n)))
      else Inr u)"

definition UID_init :: "string \<Rightarrow> exn + string" where
  "UID_init v =
     (if length v \<noteq> 12 then Inl (verr (''UID must be exactly 12 characters, got '' @ show_nat (length v))) else Inr v)"

text \<open>\<open>raw\<close> is \<^verbatim>\<open>secrets.token_bytes(9)\<close>.\<close>

definition UID_generate :: "bytes \<Rightarrow> exn + string" where
  "UID_generate raw = UID_init (urlsafe_b64encode raw)"

lemma UID_generate_total:
  assumes "length raw = 9"
  shows "\<exists>u. UID_generate raw = Inr u \<and> length u = 12 \<and> list_all is_b64 u"
proof -
  have "urlsafe_b64encode raw = b64_unpadded raw" using assms by (simp add: urlsafe_b64encode_def)
  then show ?thesis using assms b64_unpadded_length[of raw] b64_unpadded_chars[of raw]
    by (simp add: UID_generate_def UID_init_def)
qed

lemma UID_generate_inj:
  "length a = 9 \<Longrightarrow> length b = 9 \<Longrightarrow> UID_generate a = UID_generate b \<Longrightarrow> a = b"
  using b64_unpadded_length[of a] b64_unpadded_length[of b]
  by (simp add: UID_generate_def UID_init_def urlsafe_b64encode_def b64_unpadded_inj)

subsection \<open>Slugs\<close>

definition slug_char :: "char \<Rightarrow> bool" where
  "slug_char c \<longleftrightarrow> is_lower c \<or> is_digit c"

definition hyphen :: char where
  "hyphen = CHR ''-''"

definition SLUG_BODY :: rexp where
  "SLUG_BODY = Seq (Plus1 (Cls slug_char)) (Star (Seq (Chr hyphen) (Plus1 (Cls slug_char))))"

definition Slug_init :: "string \<Rightarrow> exn + string" where
  "Slug_init v =
     (if \<not> re_match (Seq SLUG_BODY Eos) v
      then Inl (verr (''Invalid slug (must be lowercase alphanumeric + hyphens): '' @ repr_str v)) else Inr v)"

text \<open>\<^verbatim>\<open>from_text\<close> takes any text: on it \<^verbatim>\<open>str.lower\<close>, \<^verbatim>\<open>str.strip\<close>, \<^verbatim>\<open>\w\<close> and \<^verbatim>\<open>\s\<close> are Unicode ones. They are given here for the
  256 characters of the model: the alphanumeric characters above ASCII (the ordinal indicators, micro sign, superscript digits, fractions
  and the accented letters, which the multiplication and division signs interrupt), the two spaces above ASCII, and lower-casing.\<close>

definition latin_alnum :: "char \<Rightarrow> bool" where
  "latin_alnum c \<longleftrightarrow> ord_of c \<in> {0xAA, 0xB2, 0xB3, 0xB5, 0xB9, 0xBA, 0xBC, 0xBD, 0xBE} \<or> 0xC0 \<le> ord_of c \<and> ord_of c \<notin> {0xD7, 0xF7}"

definition uni_alnum :: "char \<Rightarrow> bool" where
  "uni_alnum c \<longleftrightarrow> is_alnum c \<or> latin_alnum c"

definition uni_space :: "char \<Rightarrow> bool" where
  "uni_space c \<longleftrightarrow> is_space c \<or> ord_of c \<in> {0x85, 0xA0}"

definition uni_to_lower :: "char \<Rightarrow> char" where
  "uni_to_lower c = (if is_upper c \<or> 0xC0 \<le> ord_of c \<and> ord_of c \<le> 0xDE \<and> ord_of c \<noteq> 0xD7 then char_of (ord_of c + 32) else c)"

definition slugify :: "string \<Rightarrow> string" where
  "slugify text =
     (let v = strip_by uni_space (map uni_to_lower text);
          v = re_sub (Cls (\<lambda>c. \<not> (uni_alnum c \<or> c = CHR ''_'' \<or> uni_space c \<or> c = hyphen))) '''' v;
          v = re_sub (Plus1 (Cls (\<lambda>c. uni_space c \<or> c = CHR ''_''))) [hyphen] v
      in strip_by (\<lambda>c. c = hyphen) (re_sub (Plus1 (Chr hyphen)) [hyphen] v))"

definition Slug_from_text :: "string \<Rightarrow> exn + string" where
  "Slug_from_text text = Slug_init (slugify text)"

abbreviation no_double_hyphen :: "string \<Rightarrow> bool" where
  "no_double_hyphen \<equiv> successively (\<lambda>a b. \<not> (a = hyphen \<and> b = hyphen))"

definition slug_ok :: "string \<Rightarrow> bool" where
  "slug_ok w \<longleftrightarrow> w \<noteq> [] \<and> (\<forall>c \<in> set w. slug_char c \<or> c = hyphen) \<and> hd w \<noteq> hyphen \<and> last w \<noteq> hyphen
     \<and> no_double_hyphen w"

lemma slug_char_not_hyphen: "slug_char c \<Longrightarrow> c \<noteq> hyphen"
  by (auto simp: slug_char_def hyphen_def is_lower_def is_digit_def)

abbreviation slug_word :: rexp where
  "slug_word \<equiv> Plus1 (Cls slug_char)"

lemma slug_single: "u \<in> lang slug_word \<Longrightarrow> u \<in> lang SLUG_BODY"
proof -
  assume "u \<in> lang slug_word"
  moreover have "[] \<in> lang (Star (Seq (Chr hyphen) slug_word))"
    unfolding lang.simps(5) by (rule CollectI, rule exI[of _ "[]"]) simp
  ultimately have "u @ [] \<in> lang SLUG_BODY" unfolding SLUG_BODY_def lang.simps(3)[of slug_word] by blast
  then show ?thesis by (simp only: append_Nil2)
qed

lemma slug_cons:
  assumes "u \<in> lang slug_word" "v \<in> lang SLUG_BODY"
  shows "u @ hyphen # v \<in> lang SLUG_BODY"
proof -
  obtain u' ws where v: "v = u' @ concat ws" "u' \<in> lang slug_word" "set ws \<subseteq> lang (Seq (Chr hyphen) slug_word)"
    using assms(2) unfolding SLUG_BODY_def lang.simps(3)[of slug_word] lang.simps(5) by blast
  then have "[hyphen] @ u' \<in> lang (Seq (Chr hyphen) slug_word)"
    unfolding lang.simps(3)[of "Chr hyphen"] by (auto simp: Chr_def)
  with v(3) have "set (([hyphen] @ u') # ws) \<subseteq> lang (Seq (Chr hyphen) slug_word)" by simp
  then have "concat (([hyphen] @ u') # ws) \<in> lang (Star (Seq (Chr hyphen) slug_word))"
    unfolding lang.simps(5) by blast
  moreover have "u @ hyphen # v = u @ concat (([hyphen] @ u') # ws)" using v(1) by simp
  ultimately show ?thesis unfolding SLUG_BODY_def lang.simps(3)[of slug_word] using assms(1) by blast
qed

lemma slug_ok_tail:
  assumes "slug_ok (u @ hyphen # v)"
  shows "slug_ok v"
proof -
  have "v \<noteq> []" using assms by (auto simp: slug_ok_def)
  moreover from assms have "no_double_hyphen (hyphen # v)" by (simp add: slug_ok_def successively_append_iff)
  ultimately have "hd v \<noteq> hyphen" "no_double_hyphen v" by (auto simp: successively_Cons)
  with \<open>v \<noteq> []\<close> assms show ?thesis by (simp add: slug_ok_def)
qed

lemma slug_ok_lang: "slug_ok w \<Longrightarrow> w \<in> lang SLUG_BODY"
proof (induction "length w" arbitrary: w rule: less_induct)
  case less
  let ?u = "takeWhile slug_char w" and ?r = "dropWhile slug_char w"
  have w: "w = ?u @ ?r" by simp
  have "slug_char (hd w)" "w \<noteq> []" using less.prems by (auto simp: slug_ok_def)
  then have "?u \<noteq> []" by (cases w) auto
  then have u: "?u \<in> lang slug_word" unfolding lang_plus_cls by (auto simp: list_all_iff dest: set_takeWhileD)
  show ?case
  proof (cases ?r)
    case Nil
    with w u show ?thesis using slug_single by (metis append_Nil2)
  next
    case (Cons c v)
    have "\<not> slug_char c" using hd_dropWhile[of slug_char w] Cons by simp
    moreover have "c \<in> set w" using w Cons by (metis in_set_conv_decomp)
    ultimately have "c = hyphen" using less.prems by (auto simp: slug_ok_def)
    then have wv: "w = ?u @ hyphen # v" using w Cons by simp
    then have "slug_ok v" using less.prems slug_ok_tail by metis
    moreover have "length v < length w" by (subst wv) simp
    ultimately have "v \<in> lang SLUG_BODY" using less.hyps by blast
    with u wv show ?thesis using slug_cons by metis
  qed
qed

text \<open>What each step of \<^verbatim>\<open>from_text\<close> does to the characters.\<close>

lemma squeeze_hyphen_successively: "no_double_hyphen (squeeze (\<lambda>c. c = hyphen) [hyphen] s)"
proof -
  have "squeeze p rep (dropWhile p t) \<noteq> [] \<Longrightarrow> \<not> p (hd (squeeze p rep (dropWhile p t)))" for p rep t
    by (cases "dropWhile p t") (use hd_dropWhile[of p t] in auto)
  then show ?thesis
    by (induction "\<lambda>c. c = hyphen" "[hyphen]" s rule: squeeze.induct) (auto simp: successively_Cons)
qed

lemma filter_squeeze:
  assumes "\<And>c. q c \<Longrightarrow> \<not> p c" "filter q rep = []"
  shows "filter q (squeeze p rep s) = filter q s"
  using assms
proof (induction p rep s rule: squeeze.induct)
  case (2 p rep c s)
  have "filter q (dropWhile p s) = filter q s" using 2(3) by (induction s) auto
  with 2 show ?case by auto
qed simp

lemma strip_by_split: "\<exists>a b. s = a @ strip_by P s @ b \<and> (\<forall>c \<in> set a \<union> set b. P c)"
proof -
  have "lstrip_by P s = dropWhile P s" by (simp add: lstrip_by_def)
  moreover have "\<exists>b. t = rstrip_by P t @ b \<and> (\<forall>c \<in> set b. P c)" for t
  proof -
    have "t = rev (dropWhile P (rev t)) @ rev (takeWhile P (rev t))"
      by (metis rev_append rev_rev_ident takeWhile_dropWhile_id)
    moreover have "\<forall>c \<in> set (rev (takeWhile P (rev t))). P c" by (auto dest: set_takeWhileD)
    ultimately show ?thesis unfolding rstrip_by_def by blast
  qed
  ultimately obtain b where "dropWhile P s = strip_by P s @ b" "\<forall>c \<in> set b. P c"
    unfolding strip_by_def by metis
  then have "s = takeWhile P s @ strip_by P s @ b" "\<forall>c \<in> set (takeWhile P s) \<union> set b. P c"
    by (metis takeWhile_dropWhile_id) (use \<open>\<forall>c \<in> set b. P c\<close> in \<open>auto dest: set_takeWhileD\<close>)
  then show ?thesis by blast
qed

lemma filter_strip_by: "(\<And>c. q c \<Longrightarrow> \<not> P c) \<Longrightarrow> filter q (strip_by P s) = filter q s"
proof -
  assume q: "\<And>c. q c \<Longrightarrow> \<not> P c"
  obtain a b where s: "s = a @ strip_by P s @ b" "\<forall>c \<in> set a \<union> set b. P c" using strip_by_split by blast
  then have "filter q a = []" "filter q b = []" using q by (auto simp: filter_empty_conv)
  with s(1) show ?thesis by (metis append_Nil append_Nil2 filter_append)
qed

lemma successively_strip_by: "successively R s \<Longrightarrow> successively R (strip_by P s)"
  using strip_by_split[of s P] by (metis successively_append_iff)

lemma uni_alnum_not:
  "uni_alnum c \<Longrightarrow> \<not> uni_space c" "uni_alnum c \<Longrightarrow> c \<noteq> CHR ''_''" "uni_alnum c \<Longrightarrow> c \<noteq> hyphen"
  by (auto simp: uni_alnum_def latin_alnum_def uni_space_def char_class_defs hyphen_def)

lemma ord_uni_to_lower:
  "ord_of (uni_to_lower c) =
     (if is_upper c \<or> 0xC0 \<le> ord_of c \<and> ord_of c \<le> 0xDE \<and> ord_of c \<noteq> 0xD7 then ord_of c + 32 else ord_of c)"
  by (auto simp: uni_to_lower_def is_upper_def of_char_of intro!: mod_less)

lemma latin_alnum_to_lower [simp]: "latin_alnum (uni_to_lower c) = latin_alnum c"
  unfolding latin_alnum_def char_class_defs ord_uni_to_lower by auto

lemma is_alnum_uni_to_lower [simp]: "is_alnum (uni_to_lower c) = is_alnum c"
  unfolding char_class_defs ord_uni_to_lower by auto

lemma uni_alnum_to_lower [simp]: "uni_alnum (uni_to_lower c) = uni_alnum c"
  by (simp add: uni_alnum_def)

lemma not_upper_uni_to_lower [simp]: "\<not> is_upper (uni_to_lower c)"
  unfolding char_class_defs ord_uni_to_lower by auto

lemma slug_char_iff: "slug_char c \<longleftrightarrow> uni_alnum c \<and> \<not> latin_alnum c \<and> \<not> is_upper c"
  by (auto simp: slug_char_def uni_alnum_def latin_alnum_def char_class_defs)

lemma latin_alnum_not: "latin_alnum c \<Longrightarrow> \<not> slug_char c \<and> c \<noteq> hyphen \<and> c \<noteq> newline"
  by (auto simp: latin_alnum_def slug_char_def is_lower_def is_digit_def hyphen_def newline_def)

lemma uni_to_lower_slug_char: "slug_char c \<or> c = hyphen \<Longrightarrow> uni_to_lower c = c"
  by (auto simp: uni_to_lower_def slug_char_def char_class_defs hyphen_def)

lemma uni_to_lower_ascii: "is_alnum c \<Longrightarrow> uni_to_lower c = to_lower c"
  by (auto simp: uni_to_lower_def to_lower_def char_class_defs)

definition slug_stage :: "string \<Rightarrow> string" where
  "slug_stage text =
     squeeze (\<lambda>c. uni_space c \<or> c = CHR ''_'') [hyphen]
       (filter (\<lambda>c. uni_alnum c \<or> c = CHR ''_'' \<or> uni_space c \<or> c = hyphen) (strip_by uni_space (map uni_to_lower text)))"

lemma slugify_stages:
  "slugify text = strip_by (\<lambda>c. c = hyphen) (squeeze (\<lambda>c. c = hyphen) [hyphen] (slug_stage text))"
  by (simp add: slugify_def slug_stage_def Let_def Chr_def re_sub_simps concat_filter del: de_Morgan_disj)

lemma slug_stage_chars: "c \<in> set (slug_stage text) \<Longrightarrow> uni_alnum c \<and> \<not> is_upper c \<or> c = hyphen"
proof -
  assume "c \<in> set (slug_stage text)"
  then have "c = hyphen \<or> (c \<in> set (strip_by uni_space (map uni_to_lower text)) \<and> (uni_alnum c \<or> c = hyphen))"
    unfolding slug_stage_def using squeeze_subset by fastforce
  moreover have "c \<in> set (strip_by uni_space (map uni_to_lower text)) \<Longrightarrow> \<not> is_upper c"
    using strip_by_subset[of uni_space "map uni_to_lower text"] by auto
  ultimately show ?thesis by auto
qed

lemma slugify_chars: "c \<in> set (slugify text) \<Longrightarrow> uni_alnum c \<and> \<not> is_upper c \<or> c = hyphen"
proof -
  assume "c \<in> set (slugify text)"
  then have "c \<in> set (squeeze (\<lambda>c. c = hyphen) [hyphen] (slug_stage text))"
    unfolding slugify_stages using strip_by_subset by fastforce
  then have "c = hyphen \<or> c \<in> set (slug_stage text)" using squeeze_subset by fastforce
  then show ?thesis using slug_stage_chars by blast
qed

lemma slugify_alnum: "filter uni_alnum (slugify text) = map uni_to_lower (filter uni_alnum text)"
proof -
  have "filter uni_alnum (slugify text) = filter uni_alnum (slug_stage text)"
    unfolding slugify_stages
    by (subst filter_strip_by, blast dest: uni_alnum_not(3), rule filter_squeeze) (auto dest: uni_alnum_not(3))
  also have "\<dots> = filter uni_alnum
      (filter (\<lambda>c. uni_alnum c \<or> c = CHR ''_'' \<or> uni_space c \<or> c = hyphen) (strip_by uni_space (map uni_to_lower text)))"
    unfolding slug_stage_def by (rule filter_squeeze) (auto dest: uni_alnum_not)
  also have "\<dots> = filter uni_alnum (strip_by uni_space (map uni_to_lower text))"
    unfolding filter_filter by (rule filter_cong) auto
  also have "\<dots> = filter uni_alnum (map uni_to_lower text)" using uni_alnum_not(1) by (simp add: filter_strip_by)
  finally show ?thesis by (simp add: filter_map comp_def)
qed

text \<open>The letters and digits above ASCII of the text stay in the result; without any, the rest is what ASCII lower-casing gives.\<close>

lemma slugify_latin: "(\<exists>c \<in> set (slugify text). latin_alnum c) \<longleftrightarrow> (\<exists>c \<in> set text. latin_alnum c)"
proof -
  have f: "(\<exists>c \<in> set t. latin_alnum c) \<longleftrightarrow> (\<exists>c \<in> set (filter uni_alnum t). latin_alnum c)" for t
    by (auto simp: uni_alnum_def)
  show ?thesis
    unfolding f[of "slugify text"] f[of "text"] slugify_alnum by simp
qed

lemma slugify_ascii_alnum:
  assumes "\<forall>c \<in> set text. \<not> latin_alnum c"
  shows "filter is_alnum (slugify text) = lower (filter is_alnum text)"
proof -
  have f: "filter is_alnum t = filter uni_alnum t" if "\<forall>c \<in> set t. \<not> latin_alnum c" for t
    using that by (intro filter_cong) (auto simp: uni_alnum_def)
  have "\<forall>c \<in> set (slugify text). \<not> latin_alnum c" using slugify_latin assms by blast
  then show ?thesis
    using assms by (auto simp: f slugify_alnum lower_def uni_alnum_def uni_to_lower_ascii)
qed

lemma slugify_ok: "slugify text \<noteq> [] \<Longrightarrow> \<forall>c \<in> set text. \<not> latin_alnum c \<Longrightarrow> slug_ok (slugify text)"
proof -
  assume ne: "slugify text \<noteq> []" and a: "\<forall>c \<in> set text. \<not> latin_alnum c"
  then have "hd (slugify text) \<noteq> hyphen" "last (slugify text) \<noteq> hyphen"
    unfolding slugify_stages using hd_strip_by last_strip_by by fastforce+
  moreover have "no_double_hyphen (slugify text)"
    unfolding slugify_stages by (intro successively_strip_by squeeze_hyphen_successively)
  moreover have "slug_char c \<or> c = hyphen" if "c \<in> set (slugify text)" for c
    using slugify_chars[OF that] slugify_latin[of "text"] a that by (auto simp: slug_char_iff)
  ultimately show ?thesis using ne by (auto simp: slug_ok_def)
qed

lemma slugify_empty_iff: "slugify text = [] \<longleftrightarrow> (\<forall>c \<in> set text. \<not> uni_alnum c)"
proof
  assume "slugify text = []"
  then have "map uni_to_lower (filter uni_alnum text) = []" using slugify_alnum[of "text"] by simp
  then show "\<forall>c \<in> set text. \<not> uni_alnum c" by (simp add: filter_empty_conv)
next
  assume a: "\<forall>c \<in> set text. \<not> uni_alnum c"
  then have "filter uni_alnum (slugify text) = []" by (simp add: slugify_alnum filter_empty_conv)
  then have "\<forall>c \<in> set (slugify text). c = hyphen"
    using slugify_chars by (fastforce simp: filter_empty_conv)
  moreover have "\<forall>c \<in> set text. \<not> latin_alnum c" using a by (simp add: uni_alnum_def)
  ultimately show "slugify text = []" using slugify_ok[of "text"] by (metis hd_in_set slug_ok_def)
qed

text \<open>A slug is left as it is.\<close>

lemma squeeze_id: "\<forall>c \<in> set s. \<not> p c \<Longrightarrow> squeeze p rep s = s"
  by (induction p rep s rule: squeeze.induct) auto

lemma squeeze_hyphen_id: "no_double_hyphen s \<Longrightarrow> squeeze (\<lambda>c. c = hyphen) [hyphen] s = s"
proof (induction "\<lambda>c. c = hyphen" "[hyphen]" s rule: squeeze.induct)
  case (2 c s)
  have "dropWhile (\<lambda>c. c = hyphen) s = s" if "c = hyphen"
    using 2(3) that by (cases s) auto
  with 2 show ?case
    by (auto simp: successively_Cons)
qed simp

lemma slugify_slug: "slug_ok w \<Longrightarrow> slugify w = w"
proof -
  assume w: "slug_ok w"
  then have ch: "slug_char c \<or> c = hyphen" if "c \<in> set w" for c
    using that by (simp add: slug_ok_def)
  have lw: "map uni_to_lower w = w"
    using uni_to_lower_slug_char[OF ch] by (intro map_idI) blast
  have plain: "\<not> uni_space c" "c \<noteq> CHR ''_''" "uni_alnum c \<or> c = hyphen" if "c \<in> set w" for c
    using ch[OF that] by (auto simp: slug_char_def uni_alnum_def uni_space_def char_class_defs hyphen_def)
  have "strip_by uni_space w = w"
    using plain(1) by (intro strip_by_fixed) (metis hd_in_set last_in_set)
  moreover have "filter (\<lambda>c. uni_alnum c \<or> c = CHR ''_'' \<or> uni_space c \<or> c = hyphen) w = w"
    using plain(3) by (intro filter_True) auto
  ultimately have "slug_stage w = w"
    unfolding slug_stage_def lw using plain by (simp add: squeeze_id)
  moreover have "squeeze (\<lambda>c. c = hyphen) [hyphen] w = w" "strip_by (\<lambda>c. c = hyphen) w = w"
    using w by (auto simp: slug_ok_def squeeze_hyphen_id intro!: strip_by_fixed)
  ultimately show ?thesis
    by (simp add: slugify_stages)
qed

lemma SLUG_BODY_chars: "w \<in> lang SLUG_BODY \<Longrightarrow> c \<in> set w \<Longrightarrow> slug_char c \<or> c = hyphen"
proof -
  assume w: "w \<in> lang SLUG_BODY" and c: "c \<in> set w"
  have word: "\<forall>x \<in> set u. slug_char x" if "u \<in> lang slug_word" for u
    using that unfolding lang_plus_cls by (auto simp: list_all_iff)
  have rest: "\<forall>x \<in> set (concat ws). slug_char x \<or> x = hyphen" if "set ws \<subseteq> lang (Seq (Chr hyphen) slug_word)" for ws
    using that by (induction ws) (auto simp: Chr_def dest: word)
  obtain u ws where "w = u @ concat ws" "u \<in> lang slug_word" "set ws \<subseteq> lang (Seq (Chr hyphen) slug_word)"
    using w unfolding SLUG_BODY_def lang.simps(3)[of slug_word] lang.simps(5) by blast
  with word[of u] rest[of ws] c show ?thesis
    by auto
qed

lemma slug_match:
  "re_match (Seq SLUG_BODY Eos) v \<longleftrightarrow> v \<in> lang SLUG_BODY \<or> (\<exists>u \<in> lang SLUG_BODY. v = u @ [newline])"
proof -
  have "pure SLUG_BODY" by (simp add: SLUG_BODY_def rexp_defs)
  then show ?thesis
    by (cases v rule: rev_cases) (auto simp: match_pure upto_newline_def)
qed

subsection \<open>Contracts\<close>

datatype CompatibilityMode = BACKWARD | FORWARD | FULL | NO_CHECK

datatype ContractVersion = ContractVersion (cv_major: int) (cv_minor: int) (cv_patch: int)

text \<open>\<^verbatim>\<open>dataclass(order=True)\<close> compares the fields in order.\<close>

instantiation ContractVersion :: linorder
begin

definition less_eq_ContractVersion :: "ContractVersion \<Rightarrow> ContractVersion \<Rightarrow> bool" where
  "less_eq_ContractVersion v w \<longleftrightarrow>
     cv_major v < cv_major w
     \<or> (cv_major v = cv_major w \<and> (cv_minor v < cv_minor w
          \<or> (cv_minor v = cv_minor w \<and> cv_patch v \<le> cv_patch w)))"

definition less_ContractVersion :: "ContractVersion \<Rightarrow> ContractVersion \<Rightarrow> bool" where
  "less_ContractVersion v w \<longleftrightarrow> v \<le> w \<and> \<not> w \<le> (v :: ContractVersion)"

instance
proof
  fix u v w :: ContractVersion
  show "v < w \<longleftrightarrow> v \<le> w \<and> \<not> w \<le> v" by (rule less_ContractVersion_def)
  show "v \<le> v" by (simp add: less_eq_ContractVersion_def)
  show "u \<le> v \<Longrightarrow> v \<le> w \<Longrightarrow> u \<le> w" by (auto simp: less_eq_ContractVersion_def)
  show "v \<le> w \<Longrightarrow> w \<le> v \<Longrightarrow> v = w" by (cases v; cases w) (auto simp: less_eq_ContractVersion_def)
  show "v \<le> w \<or> w \<le> v" by (auto simp: less_eq_ContractVersion_def)
qed

end

definition ContractVersion_str :: "ContractVersion \<Rightarrow> string" where
  "ContractVersion_str v = show_int (cv_major v) @ ''.'' @ show_int (cv_minor v) @ ''.'' @ show_int (cv_patch v)"

text \<open>\<^verbatim>\<open>int(s)\<close>: surrounding white space, a sign, and digits with single underscores between them.\<close>

definition py_digits :: "string \<Rightarrow> nat option" where
  "py_digits s =
     (if s \<noteq> [] \<and> is_digit (hd s) \<and> is_digit (last s) \<and> list_all (\<lambda>c. is_digit c \<or> c = CHR ''_'') s
         \<and> successively (\<lambda>a b. \<not> (a = CHR ''_'' \<and> b = CHR ''_'')) s
      then Some (digits_val (filter is_digit s)) else None)"

definition py_int :: "string \<Rightarrow> int option" where
  "py_int s =
     (case strip s of
        [] \<Rightarrow> None
      | c # t \<Rightarrow>
          if c = CHR ''-'' then map_option (\<lambda>n. - int n) (py_digits t)
          else if c = CHR ''+'' then map_option int (py_digits t)
          else map_option int (py_digits (c # t)))"

definition int_error :: "string \<Rightarrow> exn" where
  "int_error s = plain_exn ValueError (''invalid literal for int() with base 10: '' @ repr_str s)"

fun py_ints :: "string list \<Rightarrow> exn + int list" where
  "py_ints [] = Inr []"
| "py_ints (p # ps) =
     (case py_int p of
        None \<Rightarrow> Inl (int_error p)
      | Some n \<Rightarrow> (case py_ints ps of Inl e \<Rightarrow> Inl e | Inr ns \<Rightarrow> Inr (n # ns)))"

definition ContractVersion_from_str :: "string \<Rightarrow> exn + ContractVersion" where
  "ContractVersion_from_str v =
     (let parts = split_on CHR ''.'' (strip v)
      in if length parts \<noteq> 3 then Inl (plain_exn ValueError (''Invalid ContractVersion string: '' @ repr_str v))
         else case py_ints parts of
                Inl e \<Rightarrow> Inl e
              | Inr ns \<Rightarrow> Inr (ContractVersion (ns ! 0) (ns ! 1) (ns ! 2)))"

record Contract =
  ct_id :: string
  ct_version :: int
  ct_mode :: CompatibilityMode
  ct_schema :: "(string, pyval) pydict"

lemma digit_not_space: "is_digit c \<Longrightarrow> \<not> is_space c \<and> c \<noteq> CHR ''_'' \<and> c \<noteq> CHR ''-'' \<and> c \<noteq> CHR ''+'' \<and> c \<noteq> CHR ''.''"
  by (auto simp: is_digit_def is_space_def)

lemma py_digits_show_nat [simp]: "py_digits (show_nat n) = Some n"
proof -
  have d: "list_all is_digit (show_nat n)" by (rule show_nat_digits)
  then have "\<forall>c \<in> set (show_nat n). is_digit c" by (simp add: list_all_iff)
  moreover from this have "successively (\<lambda>a b. \<not> (a = CHR ''_'' \<and> b = CHR ''_'')) (show_nat n)"
    using digit_not_space by (auto simp: successively_conv_nth)
  ultimately show ?thesis by (simp add: py_digits_def list_all_iff filter_id_conv[THEN iffD2])
qed

lemma strip_no_space: "\<forall>c \<in> set s. \<not> is_space c \<Longrightarrow> strip s = s"
  using strip_by_split[of s is_space] unfolding strip_def by (metis UnCI append_Nil append_Nil2 in_set_conv_decomp list.exhaust set_append)

lemma show_int_chars: "c \<in> set (show_int i) \<Longrightarrow> is_digit c \<or> c = CHR ''-''"
  by (auto simp: show_int_def split: if_splits dest: digit_in_show_nat)

lemma show_int_no_space: "c \<in> set (show_int i) \<Longrightarrow> \<not> is_space c"
proof -
  assume "c \<in> set (show_int i)"
  moreover have "\<not> is_space CHR ''-''" by (simp add: is_space_def)
  ultimately show ?thesis using show_int_chars digit_not_space by blast
qed

lemma py_int_show_int [simp]: "py_int (show_int i) = Some i"
proof -
  have "strip (show_int i) = show_int i"
    using show_int_no_space by (blast intro: strip_no_space)
  moreover obtain c t where "show_nat (nat i) = c # t" by (cases "show_nat (nat i)") simp_all
  moreover from this have "is_digit c" using digit_in_show_nat[of c "nat i"] by simp
  ultimately show ?thesis
    using digit_not_space[of c] py_digits_show_nat[of "nat i"] by (auto simp: py_int_def show_int_def)
qed

lemma split_dot_show:
  "split_on CHR ''.'' (show_int i @ ''.'' @ s) = show_int i # split_on CHR ''.'' s"
proof -
  have "CHR ''.'' \<notin> set (show_int i)" using show_int_chars digit_not_space by fastforce
  then show ?thesis using split_on_append[of "CHR ''.''" "show_int i" s] by simp
qed

lemma split_dot_last: "split_on CHR ''.'' (show_int i) = [show_int i]"
  using show_int_chars[of "CHR ''.''" i] digit_not_space by (intro split_on_no_sep) auto

subsection \<open>Properties\<close>



text \<open>Contract versions: parsing the printed form gives the version back, and the order is the
  lexicographic one on the numbers.\<close>

theorem contract_version_roundtrip:
  "ContractVersion_from_str (ContractVersion_str v) = Inr v
   \<and> (v < w \<longleftrightarrow> cv_major v < cv_major w \<or> (cv_major v = cv_major w \<and>
        (cv_minor v < cv_minor w \<or> (cv_minor v = cv_minor w \<and> cv_patch v < cv_patch w))))"
proof -
  have "strip (ContractVersion_str v) = ContractVersion_str v"
    using show_int_no_space by (intro strip_no_space) (auto simp: ContractVersion_str_def is_space_def)
  moreover have "split_on CHR ''.'' (ContractVersion_str v) = [show_int (cv_major v), show_int (cv_minor v), show_int (cv_patch v)]"
    by (simp add: ContractVersion_str_def split_dot_show[simplified] split_dot_last)
  ultimately have "ContractVersion_from_str (ContractVersion_str v) = Inr v"
    by (cases v) (simp add: ContractVersion_from_str_def Let_def)
  then show ?thesis by (auto simp: less_ContractVersion_def less_eq_ContractVersion_def)
qed

end
