(* ===== verification/Policies.thy ===== *)
theory Policies
  imports Rate_Limit
begin

text \<open>
  Composable domain rules: specifications (\<^verbatim>\<open>kernel/ddd/specification.py\<close>) and policies
  (\<^verbatim>\<open>kernel/ddd/policies.py\<close>). A composed rule is a tree whose leaves are the user's predicates; a
  predicate may raise, and the combinators evaluate their operands in order and stop early.
\<close>

subsection \<open>Specifications\<close>

datatype 'c Specification =
    LambdaSpecification "'c \<Rightarrow> exn + bool" string
  | AndSpecification "'c Specification" "'c Specification"
  | OrSpecification "'c Specification" "'c Specification"
  | NotSpecification "'c Specification"

definition LambdaSpecification_init :: "('c \<Rightarrow> exn + bool) \<Rightarrow> string \<Rightarrow> string \<Rightarrow> 'c Specification" where
  "LambdaSpecification_init predicate name func_name =
     LambdaSpecification predicate (if name = [] then func_name else name)"

primrec is_satisfied_by :: "'c Specification \<Rightarrow> 'c \<Rightarrow> exn + bool" where
  "is_satisfied_by (LambdaSpecification p n) c = p c"
| "is_satisfied_by (AndSpecification l r) c =
     (case is_satisfied_by l c of Inl e \<Rightarrow> Inl e | Inr b \<Rightarrow> if b then is_satisfied_by r c else Inr b)"
| "is_satisfied_by (OrSpecification l r) c =
     (case is_satisfied_by l c of Inl e \<Rightarrow> Inl e | Inr b \<Rightarrow> if b then Inr b else is_satisfied_by r c)"
| "is_satisfied_by (NotSpecification s) c =
     (case is_satisfied_by s c of Inl e \<Rightarrow> Inl e | Inr b \<Rightarrow> Inr (\<not> b))"

text \<open>The boolean reading, for predicates given by their values.\<close>

primrec spec_holds :: "('c \<Rightarrow> exn + bool \<Rightarrow> bool) \<Rightarrow> 'c Specification \<Rightarrow> 'c \<Rightarrow> bool" where
  "spec_holds v (LambdaSpecification p n) c = v c (p c)"
| "spec_holds v (AndSpecification l r) c = (spec_holds v l c \<and> spec_holds v r c)"
| "spec_holds v (OrSpecification l r) c = (spec_holds v l c \<or> spec_holds v r c)"
| "spec_holds v (NotSpecification s) c = (\<not> spec_holds v s c)"

definition leaf_value :: "'c \<Rightarrow> exn + bool \<Rightarrow> bool" where
  "leaf_value c r = (case r of Inl _ \<Rightarrow> False | Inr b \<Rightarrow> b)"

primrec spec_leaves :: "'c Specification \<Rightarrow> ('c \<Rightarrow> exn + bool) list" where
  "spec_leaves (LambdaSpecification p n) = [p]"
| "spec_leaves (AndSpecification l r) = spec_leaves l @ spec_leaves r"
| "spec_leaves (OrSpecification l r) = spec_leaves l @ spec_leaves r"
| "spec_leaves (NotSpecification s) = spec_leaves s"

lemma spec_evaluates:
  assumes "\<forall>p \<in> set (spec_leaves s). \<exists>b. p c = Inr b"
  shows "is_satisfied_by s c = Inr (spec_holds leaf_value s c)"
  using assms by (induction s) (auto simp: leaf_value_def)

text \<open>An error comes from a leaf, and conjunction does not look at its right operand when the left fails.\<close>

lemma spec_error_from_leaf: "is_satisfied_by s c = Inl e \<Longrightarrow> \<exists>p \<in> set (spec_leaves s). p c = Inl e"
  by (induction s) (auto split: sum.splits if_splits)

lemma spec_and_short_circuit: "is_satisfied_by l c = Inr False \<Longrightarrow> is_satisfied_by (AndSpecification l r) c = Inr False"
  by simp

lemma spec_de_morgan:
  "is_satisfied_by (NotSpecification (AndSpecification l r)) c =
   is_satisfied_by (OrSpecification (NotSpecification l) (NotSpecification r)) c"
  by (auto split: sum.splits)

subsection \<open>Policies\<close>

record PolicyResult =
  po_allowed :: bool
  po_reason :: "string option"

definition permit :: "string option \<Rightarrow> PolicyResult" where
  "permit reason = \<lparr>po_allowed = True, po_reason = reason\<rparr>"

definition deny :: "string \<Rightarrow> PolicyResult" where
  "deny reason = \<lparr>po_allowed = False, po_reason = Some reason\<rparr>"

datatype 'c Policy =
    BasicPolicy "'c \<Rightarrow> PolicyResult"
  | AllOf "'c Policy list"
  | AnyOf "'c Policy list"
  | NoneOf "'c Policy list"

text \<open>The constructors refuse an empty list of policies.\<close>

definition composite_init :: "string \<Rightarrow> ('c Policy list \<Rightarrow> 'c Policy) \<Rightarrow> 'c Policy list \<Rightarrow> exn + 'c Policy" where
  "composite_init name mk ps =
     (if ps = [] then Inl (plain_exn ValueError (name @ '' requires at least one policy'')) else Inr (mk ps))"

definition AllOf_init :: "'c Policy list \<Rightarrow> exn + 'c Policy" where
  "AllOf_init = composite_init ''AllOf'' AllOf"

definition AnyOf_init :: "'c Policy list \<Rightarrow> exn + 'c Policy" where
  "AnyOf_init = composite_init ''AnyOf'' AnyOf"

definition NoneOf_init :: "'c Policy list \<Rightarrow> exn + 'c Policy" where
  "NoneOf_init = composite_init ''NoneOf'' NoneOf"

text \<open>The loops over the results of the operands.\<close>

fun all_of :: "PolicyResult list \<Rightarrow> PolicyResult" where
  "all_of [] = permit None"
| "all_of (r # rs) = (if \<not> po_allowed r then r else all_of rs)"

fun any_of :: "PolicyResult \<Rightarrow> PolicyResult list \<Rightarrow> PolicyResult" where
  "any_of last_denial [] = last_denial"
| "any_of last_denial (r # rs) = (if po_allowed r then r else any_of r rs)"

fun none_of :: "PolicyResult list \<Rightarrow> PolicyResult" where
  "none_of [] = permit None"
| "none_of (r # rs) =
     (if po_allowed r
      then deny (''policy was allowed but NoneOf forbids: '' @ (case po_reason r of None \<Rightarrow> ''None'' | Some s \<Rightarrow> s))
      else none_of rs)"

primrec Policy_evaluate :: "'c Policy \<Rightarrow> 'c \<Rightarrow> PolicyResult" where
  "Policy_evaluate (BasicPolicy f) c = f c"
| "Policy_evaluate (AllOf ps) c = all_of (map (\<lambda>p. Policy_evaluate p c) ps)"
| "Policy_evaluate (AnyOf ps) c = any_of (deny ''all policies denied'') (map (\<lambda>p. Policy_evaluate p c) ps)"
| "Policy_evaluate (NoneOf ps) c = none_of (map (\<lambda>p. Policy_evaluate p c) ps)"

text \<open>\<open>isofmt\<close> is \<^verbatim>\<open>datetime.isoformat\<close>.\<close>

definition ExpiryPolicy_evaluate ::
  "(int \<Rightarrow> string) \<Rightarrow> int option \<Rightarrow> int option \<Rightarrow> int \<Rightarrow> PolicyResult" where
  "ExpiryPolicy_evaluate isofmt not_before not_after ts =
     (case not_before of
        Some b \<Rightarrow> if ts < b then deny (''timestamp '' @ isofmt ts @ '' is before '' @ isofmt b)
                  else (case not_after of
                          Some a \<Rightarrow> if ts > a then deny (''timestamp '' @ isofmt ts @ '' is after '' @ isofmt a) else permit None
                        | None \<Rightarrow> permit None)
      | None \<Rightarrow> (case not_after of
                   Some a \<Rightarrow> if ts > a then deny (''timestamp '' @ isofmt ts @ '' is after '' @ isofmt a) else permit None
                 | None \<Rightarrow> permit None))"

definition QuotaPolicy_evaluate :: "int \<Rightarrow> RateLimitResult \<Rightarrow> PolicyResult" where
  "QuotaPolicy_evaluate now r =
     (if rl_allowed r
      then permit (Some (''quota has '' @ show_int (rl_remaining r) @ '' request(s) remaining (window: ''
             @ window_label (rl_quota r) @ '')''))
      else deny (''quota exceeded for '' @ quoted (q_key (rl_quota r)) @ ''; retry after ''
             @ show_int (py_round (retry_after_seconds now r)) @ ''s (limit: '' @ window_label (rl_quota r) @ '')''))"

subsection \<open>Facts\<close>

lemma all_of_allowed: "po_allowed (all_of rs) \<longleftrightarrow> (\<forall>r \<in> set rs. po_allowed r)"
  by (induction rs) (auto simp: permit_def)

lemma any_of_allowed: "\<not> po_allowed d \<Longrightarrow> po_allowed (any_of d rs) \<longleftrightarrow> (\<exists>r \<in> set rs. po_allowed r)"
  by (induction rs arbitrary: d) auto

lemma none_of_allowed: "po_allowed (none_of rs) \<longleftrightarrow> (\<forall>r \<in> set rs. \<not> po_allowed r)"
  by (induction rs) (auto simp: permit_def deny_def)

lemma all_of_denial: "\<not> po_allowed (all_of rs) \<Longrightarrow> \<exists>us r vs. rs = us @ r # vs \<and> (\<forall>u \<in> set us. po_allowed u) \<and> \<not> po_allowed r \<and> all_of rs = r"
proof (induction rs)
  case (Cons a rs)
  show ?case
  proof (cases "po_allowed a")
    case True
    with Cons obtain us r vs where "rs = us @ r # vs" "\<forall>u \<in> set us. po_allowed u" "\<not> po_allowed r" "all_of rs = r" by auto
    with True show ?thesis by (intro exI[of _ "a # us"] exI[of _ r] exI[of _ vs]) simp
  next
    case False
    then show ?thesis by (intro exI[of _ "[]"]) simp
  qed
qed (simp add: permit_def)

text \<open>The logic of a policy tree.\<close>

primrec policy_holds :: "'c Policy \<Rightarrow> 'c \<Rightarrow> bool" where
  "policy_holds (BasicPolicy f) c = po_allowed (f c)"
| "policy_holds (AllOf ps) c = list_all (\<lambda>b. b) (map (\<lambda>p. policy_holds p c) ps)"
| "policy_holds (AnyOf ps) c = list_ex (\<lambda>b. b) (map (\<lambda>p. policy_holds p c) ps)"
| "policy_holds (NoneOf ps) c = list_all (\<lambda>b. \<not> b) (map (\<lambda>p. policy_holds p c) ps)"

lemma policy_decides: "po_allowed (Policy_evaluate p c) \<longleftrightarrow> policy_holds p c"
proof (induction p)
  case (AnyOf ps)
  then show ?case by (simp add: any_of_allowed deny_def list_ex_iff)
qed (simp_all add: all_of_allowed none_of_allowed list_all_iff)

subsection \<open>Properties\<close>


definition demo_policies :: "int Policy list" where
  "demo_policies = [BasicPolicy (\<lambda>n. if 18 \<le> n then permit None else deny ''minor''),
     AnyOf [BasicPolicy (\<lambda>n. if n < 30 then permit None else deny ''old''), NoneOf [BasicPolicy (\<lambda>n. permit None)]]]"


end
