(* ===== verification/Privacy.thy ===== *)
theory Privacy
  imports Errors Py_Regex
begin

text \<open>
  Data masking (\<^verbatim>\<open>application/masking\<close>) and redaction of personal data (\<^verbatim>\<open>kernel/security/pii.py\<close>) on
  nested Python values. Field patterns are shell globs, matched as \<^verbatim>\<open>fnmatch\<close> does. The hash function and
  the text of non-string values are parameters.
\<close>

subsection \<open>Glob patterns\<close>

datatype glob = GAny | GOne | GSet bool "(char \<times> char) list" | GChar char

text \<open>The items of a bracket expression: ranges, and single characters as ranges of one.\<close>

fun glob_items :: "string \<Rightarrow> (char \<times> char) list" where
  "glob_items (x # d # y # s) =
     (if d = CHR ''-'' then (x, y) # glob_items s else (x, x) # glob_items (d # y # s))"
| "glob_items [x, y] = [(x, x), (y, y)]"
| "glob_items [x] = [(x, x)]"
| "glob_items [] = []"

text \<open>The bracket expression that starts after \<^verbatim>\<open>[\<close>, if it is closed: a leading \<^verbatim>\<open>]\<close> is an ordinary character.\<close>

definition bracket_body :: "string \<Rightarrow> (string \<times> string) option" where
  "bracket_body s =
     (let first = (case s of c # _ \<Rightarrow> if c = CHR '']'' then [c] else [] | [] \<Rightarrow> []);
          t = drop (length first) s;
          body = takeWhile (\<lambda>c. c \<noteq> CHR '']'') t
      in if length body < length t then Some (first @ body, drop (Suc (length body)) t) else None)"

definition bracket :: "string \<Rightarrow> (glob \<times> string) option" where
  "bracket s =
     (case s of
        c # t \<Rightarrow>
          if c = CHR ''!'' then map_option (\<lambda>(b, r). (GSet True (glob_items b), r)) (bracket_body t)
          else map_option (\<lambda>(b, r). (GSet False (glob_items b), r)) (bracket_body s)
      | [] \<Rightarrow> None)"

lemma bracket_body_shorter: "bracket_body s = Some (b, r) \<Longrightarrow> length r < length s"
  by (auto simp: bracket_body_def Let_def split: if_splits list.splits)

lemma bracket_shorter: "bracket s = Some (g, r) \<Longrightarrow> length r < length s"
  by (auto simp: bracket_def split: list.splits if_splits dest: bracket_body_shorter)

function parse_glob :: "string \<Rightarrow> glob list" where
  "parse_glob [] = []"
| "parse_glob (c # s) =
     (if c = CHR ''*'' then GAny # parse_glob s
      else if c = CHR ''?'' then GOne # parse_glob s
      else if c = CHR ''['' then
        (case bracket s of None \<Rightarrow> GChar c # parse_glob s | Some (g, r) \<Rightarrow> g # parse_glob r)
      else GChar c # parse_glob s)"
  by pat_completeness auto
termination by (relation "measure length") (auto dest: bracket_shorter)

definition in_items :: "char \<Rightarrow> (char \<times> char) list \<Rightarrow> bool" where
  "in_items c items \<longleftrightarrow> list_ex (\<lambda>(a, b). ord_of a \<le> ord_of c \<and> ord_of c \<le> ord_of b) items"

fun glob_match :: "glob list \<Rightarrow> string \<Rightarrow> bool" where
  "glob_match [] s = (s = [])"
| "glob_match (GAny # g) [] = glob_match g []"
| "glob_match (GAny # g) (c # s) = (glob_match g (c # s) \<or> glob_match (GAny # g) s)"
| "glob_match (GOne # g) (c # s) = glob_match g s"
| "glob_match (GSet neg items # g) (c # s) = (in_items c items \<noteq> neg \<and> glob_match g s)"
| "glob_match (GChar d # g) (c # s) = (c = d \<and> glob_match g s)"
| "glob_match _ [] = False"

definition fnmatch :: "string \<Rightarrow> string \<Rightarrow> bool" where
  "fnmatch name pat = glob_match (parse_glob pat) name"

subsection \<open>Masking rules\<close>

datatype MaskingStrategy = Redact | Hash | Partial | Tokenize

record MaskingRule =
  mr_field_pattern :: string
  mr_strategy :: MaskingStrategy
  mr_salt :: string
  mr_partial_show_start :: int
  mr_partial_show_end :: int

text \<open>\<open>sha\<close> is the hexadecimal SHA-256 digest, \<open>fstr\<close> is \<^verbatim>\<open>str\<close>.\<close>

record hashing =
  sha :: "string \<Rightarrow> string"
  fstr :: "pyval \<Rightarrow> string"

definition stars :: "int \<Rightarrow> string" where
  "stars n = replicate (nat n) CHR ''*''"

definition mask_hash :: "hashing \<Rightarrow> pyval \<Rightarrow> MaskingRule \<Rightarrow> string" where
  "mask_hash h v r = take 8 (sha h (mr_salt r @ fstr h v))"

definition mask_partial :: "hashing \<Rightarrow> pyval \<Rightarrow> MaskingRule \<Rightarrow> string" where
  "mask_partial h v r =
     (let s = fstr h v; start = mr_partial_show_start r; stop = mr_partial_show_end r; len = int (length s)
      in if len \<le> start + stop then stars len
         else py_slice s 0 start @ stars (len - start - stop) @ (if stop \<noteq> 0 then py_slice s (- stop) len else ''''))"

definition uuid_text :: "string \<Rightarrow> string" where
  "uuid_text d = take 8 d @ ''-'' @ take 4 (drop 8 d) @ ''-'' @ take 4 (drop 12 d) @ ''-'' @ take 4 (drop 16 d)
     @ ''-'' @ take 12 (drop 20 d)"

definition mask_tokenize :: "hashing \<Rightarrow> pyval \<Rightarrow> MaskingRule \<Rightarrow> string" where
  "mask_tokenize h v r = uuid_text (take 32 (sha h (mr_salt r @ fstr h v)))"

definition strategy_fn :: "hashing \<Rightarrow> pyval \<Rightarrow> MaskingRule \<Rightarrow> string" where
  "strategy_fn h v r =
     (case mr_strategy r of
        Redact \<Rightarrow> ''***'' | Hash \<Rightarrow> mask_hash h v r | Partial \<Rightarrow> mask_partial h v r | Tokenize \<Rightarrow> mask_tokenize h v r)"

text \<open>The first rule whose pattern matches the key.\<close>

definition rule_for :: "MaskingRule list \<Rightarrow> string \<Rightarrow> MaskingRule option" where
  "rule_for rules key = List.find (\<lambda>r. fnmatch key (mr_field_pattern r)) rules"

lemma size_dict_value: "(k, v) \<in> set kvs \<Longrightarrow> size v < Suc (size_list (size_prod (\<lambda>_. 0) size) kvs)"
  by (induction kvs) auto

function mask_walk :: "hashing \<Rightarrow> MaskingRule list \<Rightarrow> pyval \<Rightarrow> pyval" where
  "mask_walk h rules (PDict kvs) =
     PDict (map (\<lambda>(k, v). (k, case rule_for rules k of
                                Some r \<Rightarrow> PStr (strategy_fn h v r)
                              | None \<Rightarrow> mask_walk h rules v)) kvs)"
| "mask_walk h rules (PList xs) = PList (map (mask_walk h rules) xs)"
| "mask_walk h rules PNone = PNone"
| "mask_walk h rules (PBool b) = PBool b"
| "mask_walk h rules (PInt i) = PInt i"
| "mask_walk h rules (PFloat q) = PFloat q"
| "mask_walk h rules (PStr s) = PStr s"
  by pat_completeness auto
termination
  by (relation "measure (\<lambda>(h, rules, v). size v)") (auto simp: size_dict_value size_list_estimation' less_Suc_eq_le)

definition DataMasker_mask :: "hashing \<Rightarrow> pyval \<Rightarrow> MaskingRule list \<Rightarrow> pyval" where
  "DataMasker_mask h data rules = mask_walk h rules data"

text \<open>The log filter: the message when it is a dictionary, and the arguments that are dictionaries. The
  arguments of a record are a dictionary or a sequence.\<close>

record LogRecord =
  lr_msg :: pyval
  lr_args :: pyval

definition is_dict :: "pyval \<Rightarrow> bool" where
  "is_dict v = (case v of PDict _ \<Rightarrow> True | _ \<Rightarrow> False)"

definition mask_if_dict :: "hashing \<Rightarrow> MaskingRule list \<Rightarrow> pyval \<Rightarrow> pyval" where
  "mask_if_dict h rules v = (if is_dict v then DataMasker_mask h v rules else v)"

definition PiiLogFilter_filter :: "hashing \<Rightarrow> MaskingRule list \<Rightarrow> LogRecord \<Rightarrow> bool \<times> LogRecord" where
  "PiiLogFilter_filter h rules r =
     (True, \<lparr>lr_msg = mask_if_dict h rules (lr_msg r),
             lr_args = (case lr_args r of
                          PList xs \<Rightarrow> PList (map (mask_if_dict h rules) xs)
                        | a \<Rightarrow> mask_if_dict h rules a)\<rparr>)"

subsection \<open>Redaction of personal data\<close>

definition DEFAULT_SENSITIVE_FIELDS :: "string list" where
  "DEFAULT_SENSITIVE_FIELDS = [''password'', ''passwd'', ''secret'', ''token'', ''api_key'', ''apikey'', ''authorization'',
     ''credit_card'', ''card_number'', ''cvv'', ''ssn'', ''cpf'', ''cnpj'']"

definition one_of :: "string \<Rightarrow> rexp" where
  "one_of cs = Cls (\<lambda>c. c \<in> set cs)"

definition digit :: rexp where
  "digit = Cls is_digit"

definition EMAIL_RE :: rexp where
  "EMAIL_RE = Seq Wordb (Seq (Plus1 (Cls (\<lambda>c. is_alnum c \<or> c \<in> set ''._%+-''))) (Seq (Chr CHR ''@'')
     (Seq (Plus1 (Cls (\<lambda>c. is_alnum c \<or> c \<in> set ''.-''))) (Seq (Chr CHR ''.'') (Seq (At_least 2 (Cls is_alpha)) Wordb)))))"

definition PHONE_RE :: rexp where
  "PHONE_RE = Seq (Between 9 14 (Seq (Opt (Chr CHR ''+'')) (Seq digit (Opt (Cls (\<lambda>c. is_space c \<or> c \<in> set ''-.'')))))) digit"

definition CPF_RE :: rexp where
  "CPF_RE = Seq Wordb (Seq (Rep 3 digit) (Seq (Chr CHR ''.'') (Seq (Rep 3 digit) (Seq (Chr CHR ''.'')
     (Seq (Rep 3 digit) (Seq (one_of ''-/'') (Seq (Rep 2 digit) Wordb)))))))"

definition CARD_RE :: rexp where
  "CARD_RE = Seq Wordb (Seq (Between 15 16 (Seq digit (Opt (one_of '' -'')))) Wordb)"

definition TEXT_PATTERNS :: "(rexp \<times> string) list" where
  "TEXT_PATTERNS = [(EMAIL_RE, ''[EMAIL]''), (CPF_RE, ''[CPF]''), (CARD_RE, ''[CARD]''), (PHONE_RE, ''[PHONE]'')]"

definition redact_text :: "string \<Rightarrow> string" where
  "redact_text s = fold (\<lambda>(pattern, replacement) t. re_sub pattern replacement t) TEXT_PATTERNS s"

function pii_redact :: "string list \<Rightarrow> (string \<times> pyval) list \<Rightarrow> (string \<times> pyval) list" where
  "pii_redact sensitive data =
     map (\<lambda>(k, v). (k, if lower k \<in> set sensitive then PStr ''***''
                        else case v of
                               PDict d \<Rightarrow> PDict (pii_redact sensitive d)
                             | PStr s \<Rightarrow> PStr (redact_text s)
                             | other \<Rightarrow> other)) data"
  by pat_completeness auto
termination
proof (relation "measure (\<lambda>(s, d). size (PDict d))", goal_cases)
  case (2 sensitive data p k v d)
  then have "size (PDict d) < Suc (size_list (size_prod (\<lambda>_. 0) size) data)" by (metis size_dict_value)
  then show ?case by simp
qed simp

declare pii_redact.simps [simp del]

subsection \<open>Facts\<close>

text \<open>A match found in a text is a match of the pattern, so a text without any is left alone.\<close>

lemma re_sub_no_match: "(\<forall>i < length s. ends r s i = []) \<Longrightarrow> re_sub r rep s = s"
proof -
  assume a: "\<forall>i < length s. ends r s i = []"
  have "re_sub_from r rep s i = drop i s" for i
    using a by (induction r rep s i rule: re_sub_from.induct)
      (subst re_sub_from.simps, auto simp: Cons_nth_drop_Suc)
  then show ?thesis by (simp add: re_sub_def)
qed

lemma pii_redact_keys: "map fst (pii_redact sensitive d) = map fst d"
  by (subst pii_redact.simps) (simp add: comp_def split_def)

lemma pii_redact_sensitive:
  "(k, v) \<in> set (pii_redact sensitive d) \<Longrightarrow> lower k \<in> set sensitive \<Longrightarrow> v = PStr ''***''"
  by (subst (asm) pii_redact.simps) auto

text \<open>Dictionaries inside a list are not visited.\<close>

lemma pii_redact_skips_lists:
  "pii_redact DEFAULT_SENSITIVE_FIELDS [(''users'', PList [PDict [(''password'', PStr ''x'')]])] =
   [(''users'', PList [PDict [(''password'', PStr ''x'')]])]"
  by (subst pii_redact.simps) (simp add: DEFAULT_SENSITIVE_FIELDS_def lower_def to_lower_def is_upper_def)

lemma glob_any: "glob_match [GAny] s"
  by (induction s) simp_all

lemma fnmatch_star: "fnmatch s ''*''"
  by (simp add: fnmatch_def glob_any)

lemma glob_chars: "glob_match (map GChar p) s \<longleftrightarrow> s = p"
proof (induction p arbitrary: s)
  case (Cons c p)
  then show ?case by (cases s) auto
qed simp

lemma glob_prefix: "glob_match (map GChar p @ [GAny]) s \<longleftrightarrow> (\<exists>t. s = p @ t)"
proof (induction p arbitrary: s)
  case Nil
  then show ?case by (simp add: glob_any)
next
  case (Cons c p)
  then show ?case by (cases s) auto
qed

text \<open>Partial masking keeps the length and shows the two ends only.\<close>

lemma mask_partial_shape:
  assumes "0 \<le> mr_partial_show_start r" "0 \<le> mr_partial_show_end r"
    and "mr_partial_show_start r + mr_partial_show_end r < int (length (fstr h v))"
  shows "mask_partial h v r =
    take (nat (mr_partial_show_start r)) (fstr h v)
    @ stars (int (length (fstr h v)) - mr_partial_show_start r - mr_partial_show_end r)
    @ drop (length (fstr h v) - nat (mr_partial_show_end r)) (fstr h v)"
proof -
  let ?s = "fstr h v" and ?b = "mr_partial_show_end r"
  have "py_slice ?s (- ?b) (int (length ?s)) = drop (length ?s - nat ?b) ?s" if "?b \<noteq> 0"
    using that assms by (simp add: py_slice_def slice_bound_def nat_diff_distrib nat_add_distrib)
  moreover have "drop (length ?s - nat ?b) ?s = []" if "?b = 0" using that by simp
  ultimately show ?thesis using assms by (auto simp: mask_partial_def Let_def py_slice_nonneg)
qed

subsection \<open>What masking hides\<close>

text \<open>Two values are alike when they differ only below keys whose first matching rule redacts.\<close>

inductive alike :: "MaskingRule list \<Rightarrow> pyval \<Rightarrow> pyval \<Rightarrow> bool" for rules where
  alike_refl: "alike rules v v"
| alike_elem: "alike rules v v' \<Longrightarrow> alike rules (PList xs) (PList ys) \<Longrightarrow> alike rules (PList (v # xs)) (PList (v' # ys))"
| alike_item: "alike rules v v' \<Longrightarrow> alike rules (PDict kvs) (PDict kvs') \<Longrightarrow> rule_for rules k = None
    \<Longrightarrow> alike rules (PDict ((k, v) # kvs)) (PDict ((k, v') # kvs'))"
| alike_same: "alike rules (PDict kvs) (PDict kvs') \<Longrightarrow> alike rules (PDict ((k, v) # kvs)) (PDict ((k, v) # kvs'))"
| alike_hidden: "alike rules (PDict kvs) (PDict kvs') \<Longrightarrow> rule_for rules k = Some r \<Longrightarrow> mr_strategy r = Redact
    \<Longrightarrow> alike rules (PDict ((k, v) # kvs)) (PDict ((k, v') # kvs'))"

lemma mask_walk_alike: "alike rules a b \<Longrightarrow> mask_walk h rules a = mask_walk h rules b"
  by (induction rule: alike.induct) (auto simp: strategy_fn_def split: option.splits)

text \<open>Masking changes neither the shape nor the keys: only the values below matched keys are replaced.\<close>

fun at_path :: "string list \<Rightarrow> pyval \<Rightarrow> pyval option" where
  "at_path [] v = Some v"
| "at_path (k # ks) (PDict kvs) = (case map_of kvs k of None \<Rightarrow> None | Some v \<Rightarrow> at_path ks v)"
| "at_path (k # ks) _ = None"

lemma map_of_map_val: "map_of (map (\<lambda>(k, v). (k, f k v)) kvs) k = map_option (f k) (map_of kvs k)"
  by (induction kvs) auto

lemma mask_walk_path:
  assumes "\<forall>k \<in> set ks. rule_for rules k = None"
  shows "at_path ks (mask_walk h rules v) = map_option (mask_walk h rules) (at_path ks v)"
  using assms
proof (induction ks v rule: at_path.induct)
  case (2 k ks kvs)
  then show ?case by (simp add: map_of_map_val split: option.splits)
qed simp_all

lemma mask_walk_key:
  assumes "at_path [k] v = Some x" "rule_for rules k = Some r"
  shows "at_path [k] (mask_walk h rules v) = Some (PStr (strategy_fn h x r))"
  using assms by (cases v) (simp_all add: map_of_map_val split: option.splits)

lemma at_path_append: "at_path (ks @ ls) v = (case at_path ks v of None \<Rightarrow> None | Some w \<Rightarrow> at_path ls w)"
  by (induction ks v rule: at_path.induct) (auto split: option.splits)

subsection \<open>Properties\<close>


definition demo_rules :: "MaskingRule list" where
  "demo_rules = [\<lparr>mr_field_pattern = ''*pass*'', mr_strategy = Redact, mr_salt = '''', mr_partial_show_start = 2,
     mr_partial_show_end = 2\<rparr>]"

definition demo_payload :: "string \<Rightarrow> pyval" where
  "demo_payload secret = PDict [(''user'', PDict [(''name'', PStr ''bob''), (''my_passwd'', PStr secret)])]"

definition demo_hashing :: hashing where
  "demo_hashing = \<lparr>sha = (\<lambda>s. s), fstr = (\<lambda>v. '''')\<rparr>"


end
