(* ===== verification/Pkce.thy ===== *)
theory Pkce
  imports Value_Objects
begin

text \<open>
  PKCE, RFC 7636 (\<^verbatim>\<open>kernel/security/pkce.py\<close>): generation of verifiers from random bytes, challenges, and
  the server's check. The random source and SHA-256 are parameters. In error messages the dash of the
  source is written as a hyphen.
\<close>

definition verifier_char :: "char \<Rightarrow> bool" where
  "verifier_char c \<longleftrightarrow> is_alnum c \<or> c \<in> set ''-._~''"

definition VERIFIER_RE :: rexp where
  "VERIFIER_RE = Seq (Between 43 128 (Cls verifier_char)) Eos"

definition generate_code_verifier :: "(int \<Rightarrow> bytes) \<Rightarrow> int \<Rightarrow> exn + string" where
  "generate_code_verifier urandom length_bytes =
     (if \<not> (32 \<le> length_bytes \<and> length_bytes \<le> 96)
      then Inl (plain_exn PKCEError (''length_bytes must be 32-96, got '' @ show_int length_bytes))
      else Inr (b64_unpadded (urandom length_bytes)))"

definition compute_code_challenge :: "(string \<Rightarrow> bytes) \<Rightarrow> string \<Rightarrow> string \<Rightarrow> exn + string" where
  "compute_code_challenge sha256 code_verifier mtd =
     (if \<not> re_match VERIFIER_RE code_verifier
      then Inl (plain_exn PKCEError (''code_verifier must be 43-128 URL-safe characters ([A-Za-z0-9-._~]), got ''
                  @ show_nat (length code_verifier) @ '' chars''))
      else if mtd = ''S256'' then Inr (b64_unpadded (sha256 code_verifier))
      else if mtd = ''plain'' then Inr code_verifier
      else Inl (plain_exn PKCEError (''Unsupported PKCE method: '' @ repr_str mtd @ ''. Use ''
                  @ quoted ''S256'' @ '' or '' @ quoted ''plain'' @ ''.'')))"

definition verify_code_challenge :: "(string \<Rightarrow> bytes) \<Rightarrow> string \<Rightarrow> string \<Rightarrow> string \<Rightarrow> exn + unit" where
  "verify_code_challenge sha256 stored_challenge received_verifier mtd =
     (case compute_code_challenge sha256 received_verifier mtd of
        Inl e \<Rightarrow> Inl e
      | Inr expected \<Rightarrow>
          if expected \<noteq> stored_challenge
          then Inl (plain_exn PKCEVerificationError ''code_verifier does not match the stored code_challenge'')
          else Inr ())"

definition generate_pkce_pair :: "(int \<Rightarrow> bytes) \<Rightarrow> (string \<Rightarrow> bytes) \<Rightarrow> string \<Rightarrow> exn + string \<times> string" where
  "generate_pkce_pair urandom sha256 mtd =
     (case generate_code_verifier urandom 32 of
        Inl e \<Rightarrow> Inl e
      | Inr verifier \<Rightarrow>
          (case compute_code_challenge sha256 verifier mtd of
             Inl e \<Rightarrow> Inl e
           | Inr challenge \<Rightarrow> Inr (verifier, challenge)))"

subsection \<open>Facts\<close>

lemma verifier_language:
  "re_match VERIFIER_RE v \<longleftrightarrow> upto_newline (\<lambda>t. 43 \<le> length t \<and> length t \<le> 128 \<and> list_all verifier_char t) v"
  unfolding VERIFIER_RE_def by (rule match_cls_between) simp

lemma b64_verifier_char: "is_b64 c \<Longrightarrow> verifier_char c"
  by (auto simp: is_b64_def verifier_char_def)

lemma generated_verifier_valid:
  assumes "length raw = n" "32 \<le> n" "n \<le> 96"
  shows "re_match VERIFIER_RE (b64_unpadded raw)"
proof -
  have "length (b64_unpadded raw) = (4 * n + 2) div 3" using assms(1) b64_unpadded_length by simp
  then have "43 \<le> length (b64_unpadded raw)" "length (b64_unpadded raw) \<le> 128" using assms(2,3) by linarith+
  moreover have "list_all verifier_char (b64_unpadded raw)"
    using b64_unpadded_chars[of raw] by (auto simp: list_all_iff b64_verifier_char)
  ultimately show ?thesis by (simp add: verifier_language upto_newline_def)
qed

lemma verify_iff:
  "verify_code_challenge sha256 stored v mtd = Inr () \<longleftrightarrow> compute_code_challenge sha256 v mtd = Inr stored"
  by (auto simp: verify_code_challenge_def split: sum.splits if_splits)

subsection \<open>Properties\<close>

text \<open>PKCE: a generated pair is well formed and passes the server's check; and with S256 the check accepts a
  verifier exactly when it is well formed and its digest is the one the challenge encodes, so two
  accepted verifiers have the same digest.\<close>

theorem pkce_correct:
  assumes "\<And>n. length (urandom n) = nat n"
  shows "(\<exists>v c. generate_pkce_pair urandom sha256 ''S256'' = Inr (v, c) \<and> re_match VERIFIER_RE v
           \<and> verify_code_challenge sha256 c v ''S256'' = Inr ())
    \<and> (verify_code_challenge sha256 (b64_unpadded d) w ''S256'' = Inr () \<longleftrightarrow> re_match VERIFIER_RE w \<and> sha256 w = d)"
proof
  let ?v = "b64_unpadded (urandom 32)"
  have m: "re_match VERIFIER_RE ?v" using generated_verifier_valid[of "urandom 32" 32] assms[of 32] by simp
  then have "generate_pkce_pair urandom sha256 ''S256'' = Inr (?v, b64_unpadded (sha256 ?v))"
    by (simp add: generate_pkce_pair_def generate_code_verifier_def compute_code_challenge_def)
  moreover have "verify_code_challenge sha256 (b64_unpadded (sha256 ?v)) ?v ''S256'' = Inr ()"
    using m by (simp add: verify_iff compute_code_challenge_def)
  ultimately show "\<exists>v c. generate_pkce_pair urandom sha256 ''S256'' = Inr (v, c) \<and> re_match VERIFIER_RE v
      \<and> verify_code_challenge sha256 c v ''S256'' = Inr ()" using m by blast
  show "verify_code_challenge sha256 (b64_unpadded d) w ''S256'' = Inr () \<longleftrightarrow> re_match VERIFIER_RE w \<and> sha256 w = d"
    unfolding verify_iff by (auto simp: compute_code_challenge_def b64_unpadded_inj)
qed

theorem pkce_correct_witness:
  "\<exists>v c. generate_pkce_pair (\<lambda>n. replicate (nat n) 7) (\<lambda>s. map (\<lambda>c. word_of_nat (ord_of c)) s) ''S256'' = Inr (v, c)
     \<and> verify_code_challenge (\<lambda>s. map (\<lambda>c. word_of_nat (ord_of c)) s) c v ''S256'' = Inr ()"
  using pkce_correct[of "\<lambda>n. replicate (nat n) 7" "\<lambda>s. map (\<lambda>c. word_of_nat (ord_of c)) s"] by force
end
