(* ===== verification/Credentials.thy ===== *)
theory Credentials
  imports Value_Objects
begin

text \<open>
  Credentials (\<^verbatim>\<open>security/\<close>): API keys and the migration of their hashes, secret rotation, JWT claims, AES-GCM
  framing and key rotation, certificate pinning. The cryptographic packages (bcrypt, argon2, PyJWT, the
  AES-GCM cipher, SHA-256, the random source) are parameters; datetimes are microseconds.
\<close>

subsection \<open>API keys\<close>

record ApiKey =
  ak_key_id :: string
  ak_key_hash :: string
  ak_principal_id :: string
  ak_scopes :: "string set"
  ak_expires_at :: "microseconds option"
  ak_revoked :: bool

definition PREFIX_LEN :: nat where
  "PREFIX_LEN = 8"

definition ApiKey_is_expired :: "microseconds \<Rightarrow> ApiKey \<Rightarrow> bool" where
  "ApiKey_is_expired now k = (case ak_expires_at k of None \<Rightarrow> False | Some t \<Rightarrow> now \<ge> t)"

definition ApiKey_is_valid :: "microseconds \<Rightarrow> ApiKey \<Rightarrow> bool" where
  "ApiKey_is_valid now k \<longleftrightarrow> \<not> ak_revoked k \<and> \<not> ApiKey_is_expired now k"

text \<open>The store is a port; \<^verbatim>\<open>InMemoryApiKeyStore\<close> is the one of the package.\<close>

definition mem_key_save :: "ApiKey \<Rightarrow> ((string, ApiKey) pydict, unit) act" where
  "mem_key_save k d = (Inr (), dict_set (ak_key_id k) k d)"

definition mem_key_find :: "string \<Rightarrow> ((string, ApiKey) pydict, ApiKey option) act" where
  "mem_key_find key_id d = (Inr (map_of d key_id), d)"

definition mem_key_revoke :: "string \<Rightarrow> ((string, ApiKey) pydict, unit) act" where
  "mem_key_revoke key_id d =
     (Inr (), case map_of d key_id of None \<Rightarrow> d | Some k \<Rightarrow> dict_set key_id (k\<lparr>ak_revoked := True\<rparr>) d)"

text \<open>\<open>token\<close> is what \<^verbatim>\<open>secrets.token_urlsafe(32)\<close> returned, \<open>hashpw\<close> bcrypt with a fresh salt.\<close>

definition ApiKey_generate ::
    "(string \<Rightarrow> string) \<Rightarrow> string \<Rightarrow> microseconds \<Rightarrow> string \<Rightarrow> string set \<Rightarrow> int option \<Rightarrow> string \<times> ApiKey" where
  "ApiKey_generate hashpw token now principal_id scopes ttl_days =
     (let raw_key = token; key_id = take PREFIX_LEN raw_key; key_hash = hashpw raw_key;
          expires_at = map_option (\<lambda>n. now + n * 86400000000) ttl_days
      in (raw_key, \<lparr>ak_key_id = key_id, ak_key_hash = key_hash, ak_principal_id = principal_id,
                    ak_scopes = scopes, ak_expires_at = expires_at, ak_revoked = False\<rparr>))"

definition ApiKey_verify ::
    "(string \<Rightarrow> ('w, ApiKey option) act) \<Rightarrow> (string \<Rightarrow> string \<Rightarrow> exn + bool) \<Rightarrow> microseconds \<Rightarrow> string
      \<Rightarrow> ('w, ApiKey option) act" where
  "ApiKey_verify find_by_id checkpw now raw_key w =
     (if length raw_key < PREFIX_LEN then (Inr None, w)
      else case find_by_id (take PREFIX_LEN raw_key) w of
             (Inl e, w') \<Rightarrow> (Inl e, w')
           | (Inr None, w') \<Rightarrow> (Inr None, w')
           | (Inr (Some record), w') \<Rightarrow>
               if \<not> ApiKey_is_valid now record then (Inr None, w')
               else (case checkpw raw_key (ak_key_hash record) of
                       Inl e \<Rightarrow> (Inl e, w')
                     | Inr ok \<Rightarrow> (Inr (if ok then Some record else None), w')))"

subsection \<open>Hash migration\<close>

definition is_bcrypt :: "string \<Rightarrow> bool" where
  "is_bcrypt key_hash = startswith key_hash ''$2''"

definition is_argon2 :: "string \<Rightarrow> bool" where
  "is_argon2 key_hash = startswith key_hash ''$argon2''"

record hashers =
  bcrypt_checkpw :: "string \<Rightarrow> string \<Rightarrow> exn + bool"
  argon2_hash :: "string \<Rightarrow> exn + string"
  argon2_verify :: "string \<Rightarrow> string \<Rightarrow> exn + unit"
  argon2_needs_rehash :: "string \<Rightarrow> exn + bool"

text \<open>Hash the raw key with argon2 and save the record with the new hash.\<close>

definition rehash_and_save ::
    "hashers \<Rightarrow> (ApiKey \<Rightarrow> ('w, unit) act) \<Rightarrow> string \<Rightarrow> ApiKey \<Rightarrow> ('w, ApiKey) act" where
  "rehash_and_save h save raw_key record w =
     (case argon2_hash h raw_key of
        Inl e \<Rightarrow> (Inl e, w)
      | Inr new_hash \<Rightarrow>
          let upgraded = \<lparr>ak_key_id = ak_key_id record, ak_key_hash = new_hash,
                          ak_principal_id = ak_principal_id record, ak_scopes = ak_scopes record,
                          ak_expires_at = ak_expires_at record, ak_revoked = ak_revoked record\<rparr>
          in case save upgraded w of
               (Inl e, w') \<Rightarrow> (Inl e, w')
             | (Inr _, w') \<Rightarrow> (Inr upgraded, w'))"

definition upgrade_bcrypt ::
    "hashers \<Rightarrow> (ApiKey \<Rightarrow> ('w, unit) act) \<Rightarrow> string \<Rightarrow> ApiKey \<Rightarrow> ('w, ApiKey option) act" where
  "upgrade_bcrypt h save raw_key record w =
     (case bcrypt_checkpw h raw_key (ak_key_hash record) of
        Inl e \<Rightarrow> (Inl e, w)
      | Inr False \<Rightarrow> (Inr None, w)
      | Inr True \<Rightarrow>
          (case rehash_and_save h save raw_key record w of
             (Inl e, w') \<Rightarrow> (if catchable e then Inr (Some record) else Inl e, w')
           | (Inr upgraded, w') \<Rightarrow> (Inr (Some upgraded), w')))"

definition verify_argon2 ::
    "hashers \<Rightarrow> (ApiKey \<Rightarrow> ('w, unit) act) \<Rightarrow> string \<Rightarrow> ApiKey \<Rightarrow> ('w, ApiKey option) act" where
  "verify_argon2 h save raw_key record w =
     (let body = (case argon2_verify h (ak_key_hash record) raw_key of
                    Inl e \<Rightarrow> (Inl e, w)
                  | Inr _ \<Rightarrow>
                      (case argon2_needs_rehash h (ak_key_hash record) of
                         Inl e \<Rightarrow> (Inl e, w)
                       | Inr True \<Rightarrow> rehash_and_save h save raw_key record w
                       | Inr False \<Rightarrow> (Inr record, w)))
      in case body of
           (Inl e, w') \<Rightarrow> (if catchable e then Inr None else Inl e, w')
         | (Inr r, w') \<Rightarrow> (Inr (Some r), w'))"

definition verify_and_upgrade ::
    "hashers \<Rightarrow> (string \<Rightarrow> ('w, ApiKey option) act) \<Rightarrow> (ApiKey \<Rightarrow> ('w, unit) act) \<Rightarrow> microseconds \<Rightarrow> string
      \<Rightarrow> ('w, ApiKey option) act" where
  "verify_and_upgrade h find_by_id save now raw_key w =
     (if length raw_key < PREFIX_LEN then (Inr None, w)
      else case find_by_id (take PREFIX_LEN raw_key) w of
             (Inl e, w') \<Rightarrow> (Inl e, w')
           | (Inr None, w') \<Rightarrow> (Inr None, w')
           | (Inr (Some record), w') \<Rightarrow>
               if \<not> ApiKey_is_valid now record then (Inr None, w')
               else if is_bcrypt (ak_key_hash record) then upgrade_bcrypt h save raw_key record w'
               else if is_argon2 (ak_key_hash record) then verify_argon2 h save raw_key record w'
               else (case bcrypt_checkpw h raw_key (ak_key_hash record) of
                       Inl e \<Rightarrow> (if catchable e then Inr None else Inl e, w')
                     | Inr ok \<Rightarrow> (Inr (if ok then Some record else None), w')))"

text \<open>What the record promises: the raw key passes the check of the algorithm its hash names.\<close>

definition hash_accepts :: "hashers \<Rightarrow> string \<Rightarrow> string \<Rightarrow> bool" where
  "hash_accepts h raw_key key_hash =
     (if is_bcrypt key_hash \<or> \<not> is_argon2 key_hash then bcrypt_checkpw h raw_key key_hash = Inr True
      else argon2_verify h key_hash raw_key = Inr ())"

subsection \<open>Secret rotation\<close>

record SecretRotatedEvent =
  sre_name :: string
  sre_at :: microseconds

record 'w RotatableSecret =
  rs_name :: string
  rs_rotate :: "('w, string) act"

record 'w SecretRotator =
  sr_secrets :: "'w RotatableSecret list"
  sr_on_rotated :: "(SecretRotatedEvent \<Rightarrow> ('w, unit) act) option"
  sr_errors :: "(string, exn) pydict"

definition SecretRotator_register :: "'w RotatableSecret \<Rightarrow> 'w SecretRotator \<Rightarrow> 'w SecretRotator" where
  "SecretRotator_register s r = r\<lparr>sr_secrets := sr_secrets r @ [s]\<rparr>"

text \<open>One pass of the loop body: the event (appended before the callback runs) and how the body ended.\<close>

definition rotate_one ::
    "(SecretRotatedEvent \<Rightarrow> ('w, unit) act) option \<Rightarrow> ('w \<Rightarrow> microseconds) \<Rightarrow> 'w RotatableSecret \<Rightarrow> 'w
      \<Rightarrow> SecretRotatedEvent option \<times> exn option \<times> 'w" where
  "rotate_one on_rotated clock s w =
     (case rs_rotate s w of
        (Inl e, w') \<Rightarrow> (None, Some e, w')
      | (Inr _, w') \<Rightarrow>
          let event = \<lparr>sre_name = rs_name s, sre_at = clock w'\<rparr>
          in case on_rotated of
               None \<Rightarrow> (Some event, None, w')
             | Some cb \<Rightarrow> (case cb event w' of
                             (Inl e, w'') \<Rightarrow> (Some event, Some e, w'')
                           | (Inr _, w'') \<Rightarrow> (Some event, None, w'')))"

fun rotate_loop ::
    "(SecretRotatedEvent \<Rightarrow> ('w, unit) act) option \<Rightarrow> ('w \<Rightarrow> microseconds) \<Rightarrow> 'w RotatableSecret list
      \<Rightarrow> SecretRotatedEvent list \<Rightarrow> (string, exn) pydict \<Rightarrow> 'w
      \<Rightarrow> (exn + SecretRotatedEvent list) \<times> (string, exn) pydict \<times> 'w" where
  "rotate_loop cb clock [] events errors w = (Inr events, errors, w)"
| "rotate_loop cb clock (s # ss) events errors w =
     (case rotate_one cb clock s w of
        (ev, None, w') \<Rightarrow> rotate_loop cb clock ss (events @ (case ev of None \<Rightarrow> [] | Some x \<Rightarrow> [x])) errors w'
      | (ev, Some e, w') \<Rightarrow>
          if catchable e
          then rotate_loop cb clock ss (events @ (case ev of None \<Rightarrow> [] | Some x \<Rightarrow> [x])) (dict_set (rs_name s) e errors) w'
          else (Inl e, errors, w'))"

definition rotate_all ::
    "('w \<Rightarrow> microseconds) \<Rightarrow> 'w SecretRotator \<Rightarrow> 'w \<Rightarrow> (exn + SecretRotatedEvent list) \<times> 'w SecretRotator \<times> 'w" where
  "rotate_all clock r w =
     (case rotate_loop (sr_on_rotated r) clock (sr_secrets r) [] [] w of
        (res, errors, w') \<Rightarrow> (res, r\<lparr>sr_errors := errors\<rparr>, w'))"

definition PASSWORD_ALPHABET :: string where
  "PASSWORD_ALPHABET = map (\<lambda>n. char_of (n::nat))
     ([97..<123] @ [65..<91] @ [48..<58] @ [33..<48] @ [58..<65] @ [91..<97] @ [123..<127])"

text \<open>\<open>choices i\<close> is the index the \<open>i\<close>-th call of \<^verbatim>\<open>secrets.choice\<close> drew.\<close>

definition generate_strong_password :: "(nat \<Rightarrow> nat) \<Rightarrow> nat \<Rightarrow> string" where
  "generate_strong_password choices n = map (\<lambda>i. PASSWORD_ALPHABET ! (choices i mod length PASSWORD_ALPHABET)) [0..<n]"

record DatabasePasswordRotatable =
  dbp_user :: string
  dbp_current :: string

definition DatabasePassword_secret_name :: "DatabasePasswordRotatable \<Rightarrow> string" where
  "DatabasePassword_secret_name d = ''db_password:'' @ dbp_user d"

text \<open>\<open>alter\<close> runs the \<^verbatim>\<open>ALTER USER\<close> statement on the engine, when there is one.\<close>

definition DatabasePassword_rotate ::
    "(nat \<Rightarrow> nat) \<Rightarrow> (string \<Rightarrow> string \<Rightarrow> ('w, unit) act) option \<Rightarrow> DatabasePasswordRotatable \<times> 'w
      \<Rightarrow> (exn + string) \<times> DatabasePasswordRotatable \<times> 'w" where
  "DatabasePassword_rotate choices alter dw =
     (let d = fst dw; w = snd dw; new_password = generate_strong_password choices 32
      in case alter of
           None \<Rightarrow> (Inr new_password, d\<lparr>dbp_current := new_password\<rparr>, w)
         | Some f \<Rightarrow> (case f (dbp_user d) new_password w of
                         (Inl e, w') \<Rightarrow> (Inl e, d, w')
                       | (Inr _, w') \<Rightarrow> (Inr new_password, d\<lparr>dbp_current := new_password\<rparr>, w')))"

text \<open>The five fields \<^verbatim>\<open>RotationScheduler.start\<close> passes to the scheduler.\<close>

definition cron_fields :: "string \<Rightarrow> string list" where
  "cron_fields cron =
     (let parts = filter (\<lambda>p. p \<noteq> []) (split_on CHR '' '' (map (\<lambda>c. if is_space c then CHR '' '' else c) cron))
      in if length parts = 5 then parts else [''0'', ''3'', ''*'', ''*'', ''*''])"

subsection \<open>JWT claims\<close>

text \<open>A claim is a JSON value or, before encoding, a datetime.\<close>

datatype claim = Claim pyval | ClaimTime microseconds

record JwtClaims =
  jc_sub :: claim
  jc_iss :: claim
  jc_aud :: claim
  jc_exp :: microseconds
  jc_iat :: microseconds
  jc_jti :: claim
  jc_extra :: "(string, claim) pydict"

definition JwtClaims_is_expired :: "microseconds \<Rightarrow> JwtClaims \<Rightarrow> bool" where
  "JwtClaims_is_expired now c \<longleftrightarrow> now \<ge> jc_exp c"

text \<open>\<^verbatim>\<open>datetime.fromtimestamp(n, tz=UTC)\<close> for a whole number of seconds: years 1 to 9999.\<close>

definition fromtimestamp :: "int \<Rightarrow> exn + microseconds" where
  "fromtimestamp n =
     (if - 62135596800 \<le> n \<and> n < 253402300800 then Inr (n * 1000000)
      else Inl (plain_exn ValueError ''year is out of range''))"

fun claim_dt :: "claim \<Rightarrow> exn + microseconds" where
  "claim_dt (ClaimTime t) = Inr t"
| "claim_dt (Claim (PInt n)) = fromtimestamp n"
| "claim_dt (Claim (PBool b)) = fromtimestamp (if b then 1 else 0)"
| "claim_dt (Claim (PFloat q)) = fromtimestamp (if q < 0 then ceiling q else floor q)"
| "claim_dt (Claim (PStr s)) = (case py_int s of None \<Rightarrow> Inl (int_error s) | Some n \<Rightarrow> fromtimestamp n)"
| "claim_dt (Claim _) = Inl (plain_exn TypeError
     ''int() argument must be a string, a bytes-like object or a real number'')"

definition claim_time :: "microseconds \<Rightarrow> (string, claim) pydict \<Rightarrow> string \<Rightarrow> exn + microseconds" where
  "claim_time now payload k = (case map_of payload k of None \<Rightarrow> Inr now | Some v \<Rightarrow> claim_dt v)"

definition KNOWN_CLAIMS :: "string set" where
  "KNOWN_CLAIMS = {''sub'', ''iss'', ''aud'', ''exp'', ''iat'', ''jti''}"

definition JwtClaims_from_payload :: "microseconds \<Rightarrow> (string, claim) pydict \<Rightarrow> exn + JwtClaims" where
  "JwtClaims_from_payload now payload =
     (let extra = filter (\<lambda>(k, v). k \<notin> KNOWN_CLAIMS) payload;
          get = (\<lambda>k. dict_get_or payload k (Claim (PStr [])))
      in case claim_time now payload ''exp'' of
           Inl e \<Rightarrow> Inl e
         | Inr ex \<Rightarrow>
             (case claim_time now payload ''iat'' of
                Inl e \<Rightarrow> Inl e
              | Inr ia \<Rightarrow> Inr \<lparr>jc_sub = get ''sub'', jc_iss = get ''iss'', jc_aud = get ''aud'', jc_exp = ex,
                                jc_iat = ia, jc_jti = get ''jti'', jc_extra = extra\<rparr>))"

text \<open>How \<^verbatim>\<open>jwt.decode\<close> can fail. \<open>pyjwt_decode\<close> takes the token, the key, the algorithms, the audience and
  whether the audience is verified.\<close>

datatype jwt_failure = ExpiredSignatureError | InvalidAudienceError | PyJWTError string

definition JwtValidationError :: "string \<Rightarrow> exn" where
  "JwtValidationError m = plain_exn (UserError ''JwtValidationError'' Exception) m"

definition JwtDecoder_decode ::
    "(string \<Rightarrow> string \<Rightarrow> string list \<Rightarrow> string list option \<Rightarrow> bool \<Rightarrow> jwt_failure + (string, claim) pydict)
      \<Rightarrow> microseconds \<Rightarrow> string \<Rightarrow> string \<Rightarrow> string list option \<Rightarrow> string list option \<Rightarrow> exn + JwtClaims" where
  "JwtDecoder_decode pyjwt_decode now token key algorithms audience =
     (let algs = (case algorithms of None \<Rightarrow> [''HS256''] | Some a \<Rightarrow> if a = [] then [''HS256''] else a)
      in case pyjwt_decode token key algs audience (audience \<noteq> None) of
           Inl ExpiredSignatureError \<Rightarrow> Inl (JwtValidationError ''Token has expired'')
         | Inl InvalidAudienceError \<Rightarrow> Inl (JwtValidationError ''Invalid audience'')
         | Inl (PyJWTError m) \<Rightarrow> Inl (JwtValidationError m)
         | Inr payload \<Rightarrow> JwtClaims_from_payload now payload)"

definition dict_setdefault :: "'k \<Rightarrow> 'v \<Rightarrow> ('k, 'v) pydict \<Rightarrow> ('k, 'v) pydict" where
  "dict_setdefault k v d = (case map_of d k of None \<Rightarrow> dict_set k v d | Some _ \<Rightarrow> d)"

definition jwt_payload ::
    "string \<Rightarrow> microseconds \<Rightarrow> (string, claim) pydict \<Rightarrow> microseconds option \<Rightarrow> (string, claim) pydict" where
  "jwt_payload issuer now claims expires_in =
     (let p1 = dict_setdefault ''iat'' (ClaimTime now) claims;
          p2 = (if issuer \<noteq> [] then dict_setdefault ''iss'' (Claim (PStr issuer)) p1 else p1)
      in case expires_in of None \<Rightarrow> p2 | Some d \<Rightarrow> dict_set ''exp'' (ClaimTime (now + d)) p2)"

definition JwtIssuer_issue ::
    "((string, claim) pydict \<Rightarrow> string \<Rightarrow> string \<Rightarrow> exn + string) \<Rightarrow> string \<Rightarrow> microseconds
      \<Rightarrow> (string, claim) pydict \<Rightarrow> string \<Rightarrow> string \<Rightarrow> microseconds option \<Rightarrow> exn + string" where
  "JwtIssuer_issue pyjwt_encode issuer now claims key algorithm expires_in =
     pyjwt_encode (jwt_payload issuer now claims expires_in) key algorithm"

subsection \<open>Encryption\<close>

text \<open>A provider encrypts with the random bytes it draws, and decryption may fail.\<close>

record 'b provider =
  pv_encrypt :: "'b list \<Rightarrow> 'b list"
  pv_decrypt :: "'b list \<Rightarrow> exn + 'b list"

definition NONCE_LEN :: nat where
  "NONCE_LEN = 12"

definition AesGcm_init :: "'b list \<Rightarrow> exn + 'b list" where
  "AesGcm_init key =
     (if length key \<notin> {16, 24, 32} then Inl (plain_exn ValueError ''AES key must be 16, 24 or 32 bytes'')
      else Inr key)"

definition AesGcm_encrypt :: "('b list \<Rightarrow> 'b list \<Rightarrow> 'b list \<Rightarrow> 'b list) \<Rightarrow> (nat \<Rightarrow> 'b list) \<Rightarrow> 'b list \<Rightarrow> 'b list \<Rightarrow> 'b list" where
  "AesGcm_encrypt seal urandom key plaintext = (let nonce = urandom NONCE_LEN in nonce @ seal key nonce plaintext)"

definition AesGcm_decrypt :: "('b list \<Rightarrow> 'b list \<Rightarrow> 'b list \<Rightarrow> exn + 'b list) \<Rightarrow> 'b list \<Rightarrow> 'b list \<Rightarrow> exn + 'b list" where
  "AesGcm_decrypt unseal key ciphertext = unseal key (take NONCE_LEN ciphertext) (drop NONCE_LEN ciphertext)"

definition re_encrypt :: "'b provider \<Rightarrow> 'b provider \<Rightarrow> 'b list \<Rightarrow> exn + 'b list" where
  "re_encrypt old new ciphertext =
     (case pv_decrypt old ciphertext of Inl e \<Rightarrow> Inl e | Inr plaintext \<Rightarrow> Inr (pv_encrypt new plaintext))"

text \<open>The rows of the column: what the session holds after the loop, and the count, or the error.\<close>

fun rotate_column :: "'b provider \<Rightarrow> 'b provider \<Rightarrow> 'b list option list \<Rightarrow> (exn + nat) \<times> 'b list option list" where
  "rotate_column old new [] = (Inr 0, [])"
| "rotate_column old new (row # rows) =
     (case row of
        None \<Rightarrow> (case rotate_column old new rows of (r, rows') \<Rightarrow> (r, row # rows'))
      | Some [] \<Rightarrow> (case rotate_column old new rows of (r, rows') \<Rightarrow> (r, row # rows'))
      | Some ct \<Rightarrow>
          (case re_encrypt old new ct of
             Inl e \<Rightarrow> (Inl e, row # rows)
           | Inr new_ct \<Rightarrow>
               (case rotate_column old new rows of
                  (Inl e, rows') \<Rightarrow> (Inl e, Some new_ct # rows')
                | (Inr n, rows') \<Rightarrow> (Inr (Suc n), Some new_ct # rows'))))"

subsection \<open>TLS\<close>

type_synonym CertificatePinner = "(string, string set) pydict"

definition normalise_fingerprint :: "string \<Rightarrow> string" where
  "normalise_fingerprint fp = filter (\<lambda>c. c \<noteq> CHR '':'') (lower fp)"

definition pinner_pin :: "string \<Rightarrow> string list \<Rightarrow> CertificatePinner \<Rightarrow> CertificatePinner" where
  "pinner_pin host expected pins =
     dict_set host (dict_get_or pins host {} \<union> set (map normalise_fingerprint expected)) pins"

definition pinner_verify :: "('c \<Rightarrow> string) \<Rightarrow> CertificatePinner \<Rightarrow> string \<Rightarrow> 'c \<Rightarrow> exn + bool" where
  "pinner_verify sha256_hexdigest pins host cert_der =
     (case map_of pins host of
        None \<Rightarrow> Inr True
      | Some fps \<Rightarrow>
          let fp = lower (sha256_hexdigest cert_der)
          in if fp \<in> fps then Inr True
             else Inl (plain_exn (UserError ''CertPinningError'' Exception)
                         (''Certificate fingerprint '' @ repr_str fp @ '' for host '' @ repr_str host
                           @ '' does not match pinned values.'')))"

text \<open>\<^verbatim>\<open>delta.days\<close> rounds towards minus infinity.\<close>

definition days_until_expiry :: "microseconds \<Rightarrow> microseconds \<Rightarrow> int" where
  "days_until_expiry not_valid_after now = (not_valid_after - now) div 86400000000"

definition is_expiring_soon :: "microseconds \<Rightarrow> microseconds \<Rightarrow> int \<Rightarrow> bool" where
  "is_expiring_soon not_valid_after now threshold_days \<longleftrightarrow> days_until_expiry not_valid_after now < threshold_days"

subsection \<open>Facts: API keys\<close>

lemma verify_sound:
  assumes "ApiKey_verify find_by_id checkpw now raw w = (Inr (Some k), w')"
  shows "find_by_id (take PREFIX_LEN raw) w = (Inr (Some k), w') \<and> ApiKey_is_valid now k
    \<and> checkpw raw (ak_key_hash k) = Inr True \<and> PREFIX_LEN \<le> length raw"
  using assms by (auto simp: ApiKey_verify_def split: if_splits prod.splits sum.splits option.splits)

text \<open>A generated key that was saved verifies until it expires, and never again once revoked.\<close>

lemma api_key_life_cycle:
  assumes law: "\<And>r. checkpw r (hashpw r) = Inr True" and len: "PREFIX_LEN \<le> length token"
    and gen: "ApiKey_generate hashpw token now0 p scopes ttl = (raw, k)"
  shows "fst (ApiKey_verify mem_key_find checkpw now raw (snd (mem_key_save k d)))
           = Inr (if ApiKey_is_expired now k then None else Some k)"
    and "fst (ApiKey_verify mem_key_find checkpw now raw
           (snd (mem_key_revoke (ak_key_id k) (snd (mem_key_save k d))))) = Inr None"
  using law[of token] len gen
  by (auto simp: ApiKey_generate_def ApiKey_verify_def mem_key_find_def mem_key_save_def mem_key_revoke_def
      ApiKey_is_valid_def Let_def)

lemma rehash_and_saveD:
  assumes "rehash_and_save h save raw k w = (Inr k', w')"
  shows "\<exists>nh. argon2_hash h raw = Inr nh \<and> k' = k\<lparr>ak_key_hash := nh\<rparr> \<and> save k' w = (Inr (), w')"
  using assms by (auto simp: rehash_and_save_def Let_def split: sum.splits prod.splits)

text \<open>Migration never changes who the key belongs to, what it may do or how long: the returned record is the
  stored one up to its hash, the stored hash accepted the raw key, and a new hash accepts it as well.\<close>

lemma verify_and_upgrade_sound:
  assumes law: "\<And>r nh. argon2_hash h r = Inr nh \<Longrightarrow> is_argon2 nh \<and> argon2_verify h nh r = Inr ()"
    and res: "verify_and_upgrade h find_by_id save now raw w = (Inr (Some k'), w')"
  shows "\<exists>k w1. find_by_id (take PREFIX_LEN raw) w = (Inr (Some k), w1) \<and> ApiKey_is_valid now k
    \<and> hash_accepts h raw (ak_key_hash k) \<and> hash_accepts h raw (ak_key_hash k')
    \<and> k' = k\<lparr>ak_key_hash := ak_key_hash k'\<rparr>"
proof -
  obtain k w1 where f: "find_by_id (take PREFIX_LEN raw) w = (Inr (Some k), w1)" and v: "ApiKey_is_valid now k"
    and body: "(if is_bcrypt (ak_key_hash k) then upgrade_bcrypt h save raw k w1
               else if is_argon2 (ak_key_hash k) then verify_argon2 h save raw k w1
               else (case bcrypt_checkpw h raw (ak_key_hash k) of
                       Inl e \<Rightarrow> (if catchable e then Inr None else Inl e, w1)
                     | Inr ok \<Rightarrow> (Inr (if ok then Some k else None), w1))) = (Inr (Some k'), w')"
    using res unfolding verify_and_upgrade_def by (auto split: if_splits prod.splits sum.splits option.splits)
  have nb: "\<not> is_bcrypt s" if "is_argon2 s" for s
    using that by (cases s; cases "tl s") (auto simp: is_bcrypt_def is_argon2_def startswith_def)
  have "hash_accepts h raw (ak_key_hash k) \<and> hash_accepts h raw (ak_key_hash k') \<and> k' = k\<lparr>ak_key_hash := ak_key_hash k'\<rparr>"
    using body law nb
    by (auto simp: upgrade_bcrypt_def verify_argon2_def Let_def hash_accepts_def
        dest!: rehash_and_saveD split: if_splits prod.splits sum.splits bool.splits)
  with f v show ?thesis by blast
qed

subsection \<open>Facts: rotation of secrets\<close>

text \<open>A failing secret does not stop the others: unless something outside \<^verbatim>\<open>Exception\<close> is raised, the loop reports
  every secret, as an event, as an error or, when only the callback failed, as both.\<close>

lemma rotate_loop_reports:
  assumes "rotate_loop cb clock ss events errors w = (Inr evs, errs, w')"
  shows "set (map rs_name ss) \<subseteq> set (map sre_name evs) \<union> fst ` set errs
    \<and> set events \<subseteq> set evs \<and> fst ` set errors \<subseteq> fst ` set errs
    \<and> length evs \<le> length events + length ss"
  using assms
proof (induction ss arbitrary: events errors w)
  case (Cons s ss)
  obtain ev er w1 where o: "rotate_one cb clock s w = (ev, er, w1)" by (metis prod_cases3)
  then have ev: "ev = None \<Longrightarrow> er \<noteq> None" "\<And>x. ev = Some x \<Longrightarrow> sre_name x = rs_name s"
    by (auto simp: rotate_one_def Let_def split: prod.splits sum.splits option.splits)
  define events' where "events' = events @ (case ev of None \<Rightarrow> [] | Some x \<Rightarrow> [x])"
  define errors' where "errors' = (case er of None \<Rightarrow> errors | Some e \<Rightarrow> dict_set (rs_name s) e errors)"
  have "rotate_loop cb clock ss events' errors' w1 = (Inr evs, errs, w')"
    using Cons.prems o by (auto simp: events'_def errors'_def split: option.splits if_splits)
  note IH = Cons.IH[OF this]
  have "rs_name s \<in> set (map sre_name events') \<union> fst ` set errors'" "set events \<subseteq> set events'"
      "fst ` set errors \<subseteq> fst ` set errors'" "length events' \<le> Suc (length events)"
    using ev by (auto simp: events'_def errors'_def dict_set_def dom_update split: option.splits)
  with IH show ?case by (auto 0 3)
qed simp

lemma generate_strong_password_ok:
  "length (generate_strong_password choices n) = n"
  "list_all (\<lambda>c. 33 \<le> ord_of c \<and> ord_of c \<le> 126) (generate_strong_password choices n)"
proof -
  have "list_all (\<lambda>c. 33 \<le> ord_of c \<and> ord_of c \<le> 126) PASSWORD_ALPHABET" "PASSWORD_ALPHABET \<noteq> []"
    by (simp_all add: PASSWORD_ALPHABET_def upt_rec of_char_of)
  then show "list_all (\<lambda>c. 33 \<le> ord_of c \<and> ord_of c \<le> 126) (generate_strong_password choices n)"
    by (auto simp: generate_strong_password_def list_all_length)
qed (simp add: generate_strong_password_def)

subsection \<open>Facts: tokens and ciphertexts\<close>

text \<open>What is issued with a lifetime is decoded with that expiry and issue time, when PyJWT's \<^verbatim>\<open>decode\<close> undoes its
  \<^verbatim>\<open>encode\<close> for whole seconds.\<close>

lemma jwt_round_trip:
  assumes enc: "JwtIssuer_issue pyjwt_encode issuer now claims key alg (Some d) = Inr token"
    and law: "\<And>p t. pyjwt_encode p key alg = Inr t \<Longrightarrow> pyjwt_decode t key [alg] None False
        = Inr (map (\<lambda>(k, v). (k, case v of ClaimTime u \<Rightarrow> Claim (PInt (u div 1000000)) | _ \<Rightarrow> v)) p)"
    and fresh: "map_of claims ''iat'' = None" and range: "0 \<le> now" "0 \<le> d" "now + d < 253402300800000000"
  shows "\<exists>c. JwtDecoder_decode pyjwt_decode now' token key (Some [alg]) None = Inr c
    \<and> jc_exp c = (now + d) div 1000000 * 1000000 \<and> jc_iat c = now div 1000000 * 1000000"
proof -
  let ?enc = "\<lambda>v. case v of ClaimTime u \<Rightarrow> Claim (PInt (u div 1000000)) | _ \<Rightarrow> v"
  let ?p = "jwt_payload issuer now claims (Some d)"
  have m: "map_of (map (\<lambda>(k, v). (k, ?enc v)) q) k = map_option ?enc (map_of q k)" for q and k :: string
    by (induction q) (auto split: claim.splits)
  have p: "map_of ?p ''exp'' = Some (ClaimTime (now + d))" "map_of ?p ''iat'' = Some (ClaimTime now)"
    using fresh by (auto simp: jwt_payload_def dict_setdefault_def Let_def split: option.splits)
  have r: "(now + d) div 1000000 < 253402300800" "now div 1000000 < 253402300800"
      "0 \<le> (now + d) div 1000000" "0 \<le> now div 1000000" using range by auto
  show ?thesis
    using law[OF enc[unfolded JwtIssuer_issue_def]] p r
    by (simp add: JwtDecoder_decode_def JwtClaims_from_payload_def claim_time_def m fromtimestamp_def Let_def)
qed

lemma aes_gcm_round_trip:
  assumes "\<And>k n p. unseal k n (seal k n p) = Inr p" "\<And>n. length (urandom n) = n"
  shows "AesGcm_decrypt unseal key (AesGcm_encrypt seal urandom key plaintext) = Inr plaintext"
  using assms by (simp add: AesGcm_decrypt_def AesGcm_encrypt_def Let_def)

text \<open>After a complete rotation every row decrypts under the new key to what it held under the old one.\<close>

lemma rotate_column_correct:
  assumes law: "\<And>p. pv_decrypt new (pv_encrypt new p) = Inr p"
    and "rotate_column old new rows = (Inr n, rows')"
  shows "n = length (filter (\<lambda>r. r \<noteq> None \<and> r \<noteq> Some []) rows)
    \<and> list_all2 (\<lambda>r r'. case r of Some (b # bs) \<Rightarrow> (\<exists>ct. r' = Some ct \<and> pv_decrypt new ct = pv_decrypt old (b # bs))
                       | _ \<Rightarrow> r' = r) rows rows'"
  using assms(2)
proof (induction rows arbitrary: n rows')
  case (Cons r rows)
  then show ?case
    by (cases r; cases "the r") (auto simp: re_encrypt_def law split: prod.splits sum.splits)
qed simp

text \<open>Pinning only adds fingerprints, and an accepted certificate of a pinned host has a pinned one.\<close>

lemma pinner_pin_verify:
  "pinner_verify sha (pinner_pin host fps pins) host cert = Inr True
     \<longleftrightarrow> lower (sha cert) \<in> dict_get_or pins host {} \<union> normalise_fingerprint ` set fps"
  "host' \<noteq> host \<Longrightarrow> pinner_verify sha (pinner_pin host fps pins) host' cert = pinner_verify sha pins host' cert"
  by (auto simp: pinner_verify_def pinner_pin_def Let_def)

lemma pinner_unpinned_host: "map_of pins host = None \<Longrightarrow> pinner_verify sha pins host cert = Inr True"
  by (simp add: pinner_verify_def)

end
