(* ===== verification/Configuration.thy ===== *)
theory Configuration
  imports Value_Objects
begin

text \<open>
  Configuration (\<^verbatim>\<open>config/\<close>, \<^verbatim>\<open>application/feature_flags\<close>): settings loaders and their merge, dynamic sources
  and the cached registry, feature flags with targeting and percentage rollout. The parsers of YAML, TOML and
  JSON, HTTP answers, SHA-256 and \<^verbatim>\<open>str\<close> of values and exceptions are parameters. Floats are rationals:
  infinities and NaN are not represented.
\<close>

subsection \<open>Numbers and equality of values\<close>

text \<open>\<^verbatim>\<open>float(s)\<close> for decimal literals: sign, digits, fraction, exponent.\<close>

definition opt_digits :: "string \<Rightarrow> nat option" where
  "opt_digits s = (if s = [] then Some 0 else py_digits s)"

definition split_first :: "(char \<Rightarrow> bool) \<Rightarrow> string \<Rightarrow> string \<times> string option" where
  "split_first p s = (let a = takeWhile (\<lambda>c. \<not> p c) s; b = dropWhile (\<lambda>c. \<not> p c) s
                      in (a, if b = [] then None else Some (tl b)))"

definition py_mantissa :: "string \<Rightarrow> rat option" where
  "py_mantissa s =
     (case split_first (\<lambda>c. c = CHR ''.'') s of
        (a, None) \<Rightarrow> map_option of_nat (py_digits a)
      | (a, Some b) \<Rightarrow>
          if a = [] \<and> b = [] then None
          else (case (opt_digits a, opt_digits b) of
                  (Some m, Some n) \<Rightarrow> Some (of_nat m + of_nat n / 10 ^ length (filter is_digit b))
                | _ \<Rightarrow> None))"

definition signed :: "string \<Rightarrow> bool \<times> string" where
  "signed s = (case s of [] \<Rightarrow> (False, s)
                | c # t \<Rightarrow> if c = CHR ''-'' then (True, t) else if c = CHR ''+'' then (False, t) else (False, s))"

definition scale10 :: "rat \<Rightarrow> bool \<Rightarrow> nat \<Rightarrow> rat" where
  "scale10 m neg e = (if neg then m / 10 ^ e else m * 10 ^ e)"

definition py_float :: "string \<Rightarrow> rat option" where
  "py_float s =
     (case signed (strip s) of
        (neg, t) \<Rightarrow>
          (case split_first (\<lambda>c. c = CHR ''e'' \<or> c = CHR ''E'') t of
             (m, ex) \<Rightarrow>
               (case (py_mantissa m, case ex of None \<Rightarrow> Some (False, 0)
                                     | Some u \<Rightarrow> (case signed u of (n, v) \<Rightarrow> map_option (\<lambda>k. (n, k)) (py_digits v))) of
                  (Some q, Some (n, k)) \<Rightarrow> Some (let r = scale10 q n k in if neg then - r else r)
                | _ \<Rightarrow> None)))"

definition float_error :: "string \<Rightarrow> exn" where
  "float_error s = plain_exn ValueError (''could not convert string to float: '' @ repr_str s)"

fun to_float :: "pyval \<Rightarrow> exn + rat" where
  "to_float (PInt n) = Inr (of_int n)"
| "to_float (PBool b) = Inr (if b then 1 else 0)"
| "to_float (PFloat q) = Inr q"
| "to_float (PStr s) = (case py_float s of None \<Rightarrow> Inl (float_error s) | Some q \<Rightarrow> Inr q)"
| "to_float _ = Inl (plain_exn TypeError ''float() argument must be a string or a real number'')"

text \<open>\<^verbatim>\<open>==\<close>: numbers compare by value (a bool is a number), dictionaries without regard to order.\<close>

fun num_of :: "pyval \<Rightarrow> rat option" where
  "num_of (PInt n) = Some (of_int n)"
| "num_of (PBool b) = Some (if b then 1 else 0)"
| "num_of (PFloat q) = Some q"
| "num_of _ = None"

fun py_eq :: "pyval \<Rightarrow> pyval \<Rightarrow> bool" where
  "py_eq (PList xs) b = (case b of PList ys \<Rightarrow> list_all2 py_eq xs ys | _ \<Rightarrow> False)"
| "py_eq (PDict d) b =
     (case b of PDict e \<Rightarrow> length d = length e
                  \<and> list_all (\<lambda>kv. case map_of e (fst kv) of None \<Rightarrow> False | Some w \<Rightarrow> py_eq (snd kv) w) d
      | _ \<Rightarrow> False)"
| "py_eq (PStr s) b = (b = PStr s)"
| "py_eq PNone b = (b = PNone)"
| "py_eq a b = (num_of a = num_of b)"

subsection \<open>Settings\<close>

text \<open>A settings class: its name, environment prefix, fields with annotation and default, and what
  \<^verbatim>\<open>_validate\<close> raises on a populated instance.\<close>

datatype type_hint = HBool | HInt | HFloat | HList | HOther

record setting_field =
  sf_name :: string
  sf_type :: type_hint
  sf_default :: "pyval option"
  sf_default_factory :: "pyval option"

text \<open>\<open>sf_default_factory\<close> is what the field's factory returns, when it has one.\<close>

definition field_required :: "setting_field \<Rightarrow> bool" where
  "field_required f \<longleftrightarrow> sf_default f = None \<and> sf_default_factory f = None"

definition field_default :: "setting_field \<Rightarrow> pyval" where
  "field_default f = (case sf_default f of Some v \<Rightarrow> v | None \<Rightarrow> the (sf_default_factory f))"

record settings_class =
  sc_name :: string
  sc_prefix :: string
  sc_fields :: "setting_field list"
  sc_validate :: "(string, pyval) pydict \<Rightarrow> exn option"

definition unexpected_keywords :: "settings_class \<Rightarrow> (string, pyval) pydict \<Rightarrow> string list" where
  "unexpected_keywords c kwargs = filter (\<lambda>k. k \<notin> sf_name ` set (sc_fields c)) (map fst kwargs)"

definition missing_fields :: "settings_class \<Rightarrow> (string, pyval) pydict \<Rightarrow> string list" where
  "missing_fields c kwargs =
     map sf_name (filter (\<lambda>f. map_of kwargs (sf_name f) = None \<and> field_required f) (sc_fields c))"

text \<open>\<^verbatim>\<open>settings_cls(**kwargs)\<close>: the generated initialiser, then \<^verbatim>\<open>__post_init__\<close>. The instance is the dictionary
  of its fields.\<close>

definition settings_construct :: "settings_class \<Rightarrow> (string, pyval) pydict \<Rightarrow> exn + (string, pyval) pydict" where
  "settings_construct c kwargs =
     (case unexpected_keywords c kwargs of
        k # _ \<Rightarrow> Inl (plain_exn TypeError (sc_name c @ ''.__init__() got an unexpected keyword argument '' @ quoted k))
      | [] \<Rightarrow>
          (case missing_fields c kwargs of
             m # ms \<Rightarrow> Inl (plain_exn TypeError (sc_name c @ ''.__init__() missing required arguments: ''
                                @ join_with '', '' (map quoted (m # ms))))
           | [] \<Rightarrow>
               let inst = map (\<lambda>f. (sf_name f, case map_of kwargs (sf_name f) of
                                                 Some v \<Rightarrow> v | None \<Rightarrow> field_default f)) (sc_fields c)
               in case sc_validate c inst of Some e \<Rightarrow> Inl e | None \<Rightarrow> Inr inst))"

definition coerce :: "string \<Rightarrow> type_hint \<Rightarrow> exn + pyval" where
  "coerce s hint =
     (case hint of
        HBool \<Rightarrow> Inr (PBool (lower s \<in> {''1'', ''true'', ''yes'', ''on''}))
      | HInt \<Rightarrow> (case py_int s of None \<Rightarrow> Inl (int_error s) | Some n \<Rightarrow> Inr (PInt n))
      | HFloat \<Rightarrow> (case py_float s of None \<Rightarrow> Inl (float_error s) | Some q \<Rightarrow> Inr (PFloat q))
      | HList \<Rightarrow> Inr (PList (map (\<lambda>v. PStr (strip v)) (filter (\<lambda>v. strip v \<noteq> []) (split_on CHR '','' s))))
      | HOther \<Rightarrow> Inr (PStr s))"

definition env_key :: "settings_class \<Rightarrow> setting_field \<Rightarrow> string" where
  "env_key c f = dropWhile (\<lambda>ch. ch = CHR ''_'') (upper (upper (sc_prefix c) @ ''_'' @ sf_name f))"

fun env_kwargs :: "settings_class \<Rightarrow> (string \<rightharpoonup> string) \<Rightarrow> setting_field list \<Rightarrow> exn + (string, pyval) pydict" where
  "env_kwargs c environ [] = Inr []"
| "env_kwargs c environ (f # fs) =
     (case environ (env_key c f) of
        None \<Rightarrow> if field_required f then Inl (MissingRequiredSettingError_init (env_key c f))
                else env_kwargs c environ fs
      | Some raw \<Rightarrow>
          (case coerce raw (sf_type f) of
             Inl e \<Rightarrow> Inl e
           | Inr v \<Rightarrow> (case env_kwargs c environ fs of Inl e \<Rightarrow> Inl e | Inr kw \<Rightarrow> Inr ((sf_name f, v) # kw))))"

definition EnvSettingsLoader_load ::
    "(exn \<Rightarrow> string) \<Rightarrow> (string \<rightharpoonup> string) \<Rightarrow> settings_class \<Rightarrow> exn + (string, pyval) pydict" where
  "EnvSettingsLoader_load exn_str environ c =
     (case env_kwargs c environ (sc_fields c) of
        Inl e \<Rightarrow> Inl e
      | Inr kwargs \<Rightarrow>
          (case settings_construct c kwargs of
             Inl e \<Rightarrow> Inl (if catchable e then base_exn ConfigError (''Failed to load settings: '' @ exn_str e) else e)
           | Inr inst \<Rightarrow> Inr inst))"

text \<open>\<^verbatim>\<open>SettingsFactory.create\<close>. A loader is a function of the class; one that raises is skipped. An instance
  contributes all its fields.\<close>

fun merge_loaders :: "settings_class \<Rightarrow> (settings_class \<Rightarrow> exn + (string, pyval) pydict) list
    \<Rightarrow> (string, pyval) pydict \<Rightarrow> exn + (string, pyval) pydict" where
  "merge_loaders c [] merged = Inr merged"
| "merge_loaders c (ld # lds) merged =
     (case ld c of
        Inl e \<Rightarrow> if catchable e then merge_loaders c lds merged else Inl e
      | Inr inst \<Rightarrow> merge_loaders c lds (fold (\<lambda>(k, v). dict_set k v) inst merged))"

definition SettingsFactory_create ::
    "(exn \<Rightarrow> string) \<Rightarrow> settings_class \<Rightarrow> (settings_class \<Rightarrow> exn + (string, pyval) pydict) list
      \<Rightarrow> (string, pyval) pydict \<Rightarrow> exn + (string, pyval) pydict" where
  "SettingsFactory_create exn_str c loaders overrides =
     (case merge_loaders c loaders [] of
        Inl e \<Rightarrow> Inl e
      | Inr m \<Rightarrow>
          let merged = fold (\<lambda>(k, v). dict_set k v) overrides m
          in case missing_fields c merged of
               f # _ \<Rightarrow> Inl (MissingRequiredSettingError_init f)
             | [] \<Rightarrow>
                 (case settings_construct c merged of
                    Inl e \<Rightarrow> Inl (if catchable e
                                  then base_exn ConfigError (''Failed to construct '' @ sc_name c @ '': '' @ exn_str e)
                                  else e)
                  | Inr inst \<Rightarrow> Inr inst))"

definition SettingsValidator_validate :: "settings_class \<Rightarrow> (string, pyval) pydict \<Rightarrow> string list" where
  "SettingsValidator_validate c inst =
     map (\<lambda>f. sf_name f @ '' is required but None'')
       (filter (\<lambda>f. map_of inst (sf_name f) = Some PNone \<and> sf_default f = None) (sc_fields c))"

record SecretRef =
  sref_path :: string
  sref_key :: string
  sref_version :: "string option"

definition SecretRef_str :: "SecretRef \<Rightarrow> string" where
  "SecretRef_str r = sref_path r @ ''/'' @ sref_key r"

definition InvalidSettingValueError_init :: "(pyval \<Rightarrow> string) \<Rightarrow> string \<Rightarrow> pyval \<Rightarrow> string \<Rightarrow> exn" where
  "InvalidSettingValueError_init repr setting_name v reason =
     with_attr ''reason'' (PStr reason) (with_attr ''value'' v (with_attr ''setting_name'' (PStr setting_name)
       (base_exn InvalidSettingValueError
          (''Setting '' @ quoted setting_name @ '' has invalid value '' @ repr v @ '': '' @ reason))))"

subsection \<open>Dynamic sources and the registry\<close>

definition EnvConfigSource_load :: "string \<Rightarrow> (string, string) pydict \<Rightarrow> (string, string) pydict" where
  "EnvConfigSource_load prefix environ =
     (let p = upper prefix
      in if p \<noteq> [] then fold (\<lambda>(k, v) d. dict_set (lower (drop (length p) k)) v d)
                          (filter (\<lambda>(k, v). startswith k p) environ) []
         else environ)"

text \<open>\<^verbatim>\<open>Path.suffix\<close>: from the last dot of the last component, unless the dot is its first or last character.\<close>

definition path_name :: "string \<Rightarrow> string" where
  "path_name path = last (split_on CHR ''/'' path)"

definition path_suffix :: "string \<Rightarrow> string" where
  "path_suffix path =
     (let name = path_name path; tail = takeWhile (\<lambda>c. c \<noteq> CHR ''.'') (rev name); n = length tail
      in if n = length name \<or> Suc n = length name \<or> n = 0 then [] else CHR ''.'' # rev tail)"

record parsers =
  yaml_load :: "string \<Rightarrow> exn + pyval"
  toml_load :: "string \<Rightarrow> exn + pyval"
  json_load :: "string \<Rightarrow> exn + pyval"

definition FileConfigSource_load :: "parsers \<Rightarrow> string \<Rightarrow> exn + string \<Rightarrow> exn + pyval" where
  "FileConfigSource_load p path read_text =
     (let suffix = lower (path_suffix path)
      in case read_text of
           Inl e \<Rightarrow> Inl e
         | Inr content \<Rightarrow>
             if suffix \<in> {''.yaml'', ''.yml''}
             then map_sum id (\<lambda>v. if truthy v then v else PDict []) (yaml_load p content)
             else if suffix = ''.toml'' then toml_load p content
             else if suffix = ''.json'' then json_load p content
             else Inl (plain_exn ValueError (''Unsupported config file format: '' @ suffix)))"

text \<open>One round of the polling watch: the file is read and the callback called when its time changed.\<close>

definition file_poll_step ::
    "('w \<Rightarrow> rat) \<Rightarrow> ('w, pyval) act \<Rightarrow> (pyval \<Rightarrow> ('w, unit) act) \<Rightarrow> rat \<Rightarrow> 'w \<Rightarrow> (exn + rat) \<times> 'w" where
  "file_poll_step mtime_of ld callback last_mtime w =
     (let mtime = mtime_of w
      in if mtime = last_mtime then (Inr last_mtime, w)
         else case ld w of
                (Inl e, w') \<Rightarrow> (Inl e, w')
              | (Inr data, w') \<Rightarrow>
                  (case callback data w' of (Inl e, w'') \<Rightarrow> (Inl e, w'') | (Inr _, w'') \<Rightarrow> (Inr mtime, w'')))"

definition removeprefix :: "string \<Rightarrow> string \<Rightarrow> string" where
  "removeprefix s p = (if startswith s p then drop (length p) s else s)"

text \<open>The items of Consul's answer: \<open>decode\<close> is \<^verbatim>\<open>base64.b64decode(..).decode()\<close>; a value that is not JSON is kept as text.\<close>

fun consul_items ::
    "(string \<Rightarrow> exn + string) \<Rightarrow> (string \<Rightarrow> exn + pyval) \<Rightarrow> string \<Rightarrow> (string \<times> string) list
      \<Rightarrow> (string, pyval) pydict \<Rightarrow> exn + (string, pyval) pydict" where
  "consul_items decode loads prefix [] result = Inr result"
| "consul_items decode loads prefix ((k, v) # items) result =
     (case decode v of
        Inl e \<Rightarrow> Inl e
      | Inr raw \<Rightarrow>
          (case loads raw of
             Inr x \<Rightarrow> consul_items decode loads prefix items (dict_set (removeprefix k prefix) x result)
           | Inl e \<Rightarrow> if catchable e then consul_items decode loads prefix items (dict_set (removeprefix k prefix) (PStr raw) result)
                       else Inl e))"

definition ConsulConfigSource_load ::
    "(string \<Rightarrow> exn + string) \<Rightarrow> (string \<Rightarrow> exn + pyval) \<Rightarrow> string \<Rightarrow> int \<Rightarrow> exn option \<Rightarrow> (string \<times> string) list
      \<Rightarrow> exn + (string, pyval) pydict" where
  "ConsulConfigSource_load decode loads prefix status_code status_error items =
     (if status_code = 404 then Inr []
      else case status_error of Some e \<Rightarrow> Inl e | None \<Rightarrow> consul_items decode loads prefix items [])"

text \<open>The registry. \<open>now\<close> is the monotonic clock of the world, in seconds.\<close>

record 'w config_registry =
  cr_sources :: "(string, ('w, (string, pyval) pydict) act) pydict"
  cr_cache :: "(string, pyval \<times> rat) pydict"
  cr_ttl :: rat

definition registry_register :: "string \<Rightarrow> ('w, (string, pyval) pydict) act \<Rightarrow> 'w config_registry \<Rightarrow> 'w config_registry" where
  "registry_register key source r = r\<lparr>cr_sources := dict_set key source (cr_sources r)\<rparr>"

definition registry_load ::
    "('w \<Rightarrow> rat) \<Rightarrow> string \<Rightarrow> pyval \<Rightarrow> 'w config_registry \<Rightarrow> 'w \<Rightarrow> (exn + pyval) \<times> 'w config_registry \<times> 'w" where
  "registry_load now key dflt r w =
     (case map_of (cr_sources r) key of
        None \<Rightarrow> (Inr dflt, r, w)
      | Some source \<Rightarrow>
          (case source w of
             (Inl e, w') \<Rightarrow> (Inl e, r, w')
           | (Inr data, w') \<Rightarrow>
               let v = dict_get_or data key dflt
               in (Inr v, r\<lparr>cr_cache := dict_set key (v, now w' + cr_ttl r) (cr_cache r)\<rparr>, w')))"

definition registry_get ::
    "('w \<Rightarrow> rat) \<Rightarrow> string \<Rightarrow> pyval \<Rightarrow> 'w config_registry \<Rightarrow> 'w \<Rightarrow> (exn + pyval) \<times> 'w config_registry \<times> 'w" where
  "registry_get now key dflt r w =
     (case map_of (cr_cache r) key of
        Some (v, expires_at) \<Rightarrow> if now w < expires_at then (Inr v, r, w) else registry_load now key dflt r w
      | None \<Rightarrow> registry_load now key dflt r w)"

definition registry_invalidate :: "string \<Rightarrow> 'w config_registry \<Rightarrow> 'w config_registry" where
  "registry_invalidate key r = r\<lparr>cr_cache := dict_pop key (cr_cache r)\<rparr>"

definition registry_invalidate_all :: "'w config_registry \<Rightarrow> 'w config_registry" where
  "registry_invalidate_all r = r\<lparr>cr_cache := []\<rparr>"

subsection \<open>Feature flags\<close>

record EvaluationContext =
  ec_targeting_key :: string
  ec_attributes :: "(string, pyval) pydict"

text \<open>\<open>digest8 s\<close> is \<^verbatim>\<open>int(sha256(s).hexdigest()[:8], 16)\<close>.\<close>

definition percentage_bucket :: "(string \<Rightarrow> nat) \<Rightarrow> string \<Rightarrow> string \<Rightarrow> rat" where
  "percentage_bucket digest8 targeting_key flag_key =
     of_nat (digest8 (flag_key @ '':'' @ targeting_key) mod 100000) / 1000"

text \<open>\<^verbatim>\<open>rule.get(k)\<close> on the elements of the targeting list: only dictionaries have it.\<close>

fun rules_of :: "pyval \<Rightarrow> exn + (string, pyval) pydict option list" where
  "rules_of (PList xs) = Inr (map (\<lambda>x. case x of PDict d \<Rightarrow> Some d | _ \<Rightarrow> None) xs)"
| "rules_of (PDict d) = Inr (map (\<lambda>_. None) d)"
| "rules_of (PStr s) = Inr (map (\<lambda>_. None) s)"
| "rules_of _ = Inl (plain_exn TypeError ''object is not iterable'')"

definition no_get :: exn where
  "no_get = plain_exn (UserError ''AttributeError'' Exception) ''object has no attribute get''"

definition rule_get :: "string \<Rightarrow> (string, pyval) pydict \<Rightarrow> pyval" where
  "rule_get k d = dict_get_or d k PNone"

definition rule_value :: "(string, pyval) pydict \<Rightarrow> bool" where
  "rule_value d = truthy (dict_get_or d ''value'' (PBool False))"

text \<open>The first loop: a rule for the targeting key itself.\<close>

fun match_key :: "string \<Rightarrow> (string, pyval) pydict option list \<Rightarrow> exn + bool option" where
  "match_key t [] = Inr None"
| "match_key t (None # rs) = Inl no_get"
| "match_key t (Some d # rs) = (if py_eq (rule_get ''key'' d) (PStr t) then Inr (Some (rule_value d)) else match_key t rs)"

text \<open>The second loop: a rule for one of the context's attributes.\<close>

fun match_attr :: "(string, pyval) pydict \<Rightarrow> (string, pyval) pydict option list \<Rightarrow> exn + bool option" where
  "match_attr attrs [] = Inr None"
| "match_attr attrs (None # rs) = (if attrs = [] then match_attr attrs rs else Inl no_get)"
| "match_attr attrs (Some d # rs) =
     (if list_ex (\<lambda>(k, v). py_eq (rule_get ''key'' d) (PStr k) \<and> py_eq (rule_get ''match'' d) v) attrs
      then Inr (Some (rule_value d)) else match_attr attrs rs)"

definition eval_targeting :: "(string, pyval) pydict \<Rightarrow> EvaluationContext option \<Rightarrow> exn + bool option" where
  "eval_targeting flag_def context =
     (case context of
        None \<Rightarrow> Inr None
      | Some c \<Rightarrow>
          if truthy (rule_get ''targeting'' flag_def)
          then (case rules_of (rule_get ''targeting'' flag_def) of
                  Inl e \<Rightarrow> Inl e
                | Inr rs \<Rightarrow> (case match_key (ec_targeting_key c) rs of
                               Inl e \<Rightarrow> Inl e
                             | Inr (Some b) \<Rightarrow> Inr (Some b)
                             | Inr None \<Rightarrow> match_attr (ec_attributes c) rs))
          else Inr None)"

definition evaluate_boolean ::
    "(string \<Rightarrow> nat) \<Rightarrow> string \<Rightarrow> (string, pyval) pydict \<Rightarrow> EvaluationContext option \<Rightarrow> exn + bool" where
  "evaluate_boolean digest8 flag_key flag_def context =
     (case eval_targeting flag_def context of
        Inl e \<Rightarrow> Inl e
      | Inr (Some b) \<Rightarrow> Inr b
      | Inr None \<Rightarrow>
          (let pct = rule_get ''rollout_percentage'' flag_def
           in if pct \<noteq> PNone
              then (let targeting_key = (case context of None \<Rightarrow> [] | Some c \<Rightarrow> ec_targeting_key c);
                        bucket = percentage_bucket digest8 targeting_key flag_key
                    in case to_float pct of Inl e \<Rightarrow> Inl e | Inr q \<Rightarrow> Inr (bucket < q))
              else Inr (truthy (dict_get_or flag_def ''enabled'' (PBool False)))))"

definition flat_get_boolean ::
    "(string \<Rightarrow> nat) \<Rightarrow> (string, pyval) pydict \<Rightarrow> string \<Rightarrow> bool \<Rightarrow> EvaluationContext option \<Rightarrow> exn + bool" where
  "flat_get_boolean digest8 flags flag_key dflt context =
     (case rule_get flag_key flags of
        PNone \<Rightarrow> Inr dflt
      | PDict d \<Rightarrow> evaluate_boolean digest8 flag_key d context
      | v \<Rightarrow> Inr (truthy v))"

definition flat_get_string :: "(pyval \<Rightarrow> string) \<Rightarrow> (string, pyval) pydict \<Rightarrow> string \<Rightarrow> string \<Rightarrow> string" where
  "flat_get_string py_str flags flag_key dflt =
     (case rule_get flag_key flags of
        PNone \<Rightarrow> dflt
      | PDict d \<Rightarrow> py_str (dict_get_or d ''value'' (PStr dflt))
      | v \<Rightarrow> py_str v)"

definition flat_get_number :: "(string, pyval) pydict \<Rightarrow> string \<Rightarrow> rat \<Rightarrow> exn + rat" where
  "flat_get_number flags flag_key dflt =
     (case rule_get flag_key flags of
        PNone \<Rightarrow> Inr dflt
      | PDict d \<Rightarrow> to_float (dict_get_or d ''value'' (PFloat dflt))
      | v \<Rightarrow> to_float v)"

definition flat_get_object :: "(string, pyval) pydict \<Rightarrow> string \<Rightarrow> pyval \<Rightarrow> pyval" where
  "flat_get_object flags flag_key dflt =
     (case rule_get flag_key flags of
        PNone \<Rightarrow> dflt
      | PDict d \<Rightarrow> (case map_of d ''value'' of Some v \<Rightarrow> v | None \<Rightarrow> PDict d)
      | v \<Rightarrow> v)"

text \<open>\<^verbatim>\<open>_ensure_loaded\<close>: the file is read on the first use only.\<close>

record flat_file =
  ff_flags :: pyval
  ff_loaded :: bool

definition flat_reload :: "exn + pyval \<Rightarrow> flat_file \<Rightarrow> (exn + unit) \<times> flat_file" where
  "flat_reload yaml f =
     (case yaml of
        Inl e \<Rightarrow> (Inl e, f)
      | Inr v \<Rightarrow> (Inr (), f\<lparr>ff_flags := if truthy v then v else PDict [], ff_loaded := True\<rparr>))"

definition flat_ensure_loaded :: "exn + pyval \<Rightarrow> flat_file \<Rightarrow> (exn + unit) \<times> flat_file" where
  "flat_ensure_loaded yaml f = (if ff_loaded f then (Inr (), f) else flat_reload yaml f)"

text \<open>The client never fails: an exception of the provider gives the default.\<close>

definition client_get :: "exn + 'a \<Rightarrow> 'a \<Rightarrow> exn + 'a" where
  "client_get provided dflt =
     (case provided of Inr v \<Rightarrow> Inr v | Inl e \<Rightarrow> if catchable e then Inr dflt else Inl e)"

definition client_is_enabled ::
    "(string \<Rightarrow> nat) \<Rightarrow> exn + pyval \<Rightarrow> flat_file \<Rightarrow> string \<Rightarrow> bool \<Rightarrow> EvaluationContext option
      \<Rightarrow> (exn + bool) \<times> flat_file" where
  "client_is_enabled digest8 yaml f flag_key dflt context =
     (case flat_ensure_loaded yaml f of
        (Inl e, f') \<Rightarrow> (client_get (Inl e) dflt, f')
      | (Inr _, f') \<Rightarrow>
          (client_get (case ff_flags f' of PDict flags \<Rightarrow> flat_get_boolean digest8 flags flag_key dflt context
                       | _ \<Rightarrow> Inl no_get) dflt, f'))"

record FeatureFlag =
  fl_key :: string
  fl_description :: string
  fl_default_value :: bool
  fl_tags :: "string set"

definition mem_flag_set :: "FeatureFlag + string \<Rightarrow> bool \<Rightarrow> (string, bool) pydict \<Rightarrow> (string, bool) pydict" where
  "mem_flag_set flag enabled flags = dict_set (case flag of Inl f \<Rightarrow> fl_key f | Inr k \<Rightarrow> k) enabled flags"

definition mem_flag_is_enabled :: "(string, bool) pydict \<Rightarrow> FeatureFlag \<Rightarrow> bool" where
  "mem_flag_is_enabled flags flag = dict_get_or flags (fl_key flag) (fl_default_value flag)"

definition mem_flag_get_variant :: "(string, bool) pydict \<Rightarrow> FeatureFlag \<Rightarrow> string" where
  "mem_flag_get_variant flags flag =
     (if dict_get_or flags (fl_key flag) (fl_default_value flag) then ''on'' else ''off'')"

subsection \<open>Facts: settings\<close>

lemma settings_construct_fields:
  "settings_construct c kw = Inr inst \<Longrightarrow> map fst inst = map sf_name (sc_fields c)"
  by (auto simp: settings_construct_def Let_def comp_def split: list.splits option.splits)

lemma construct_supplied:
  assumes "settings_construct c kw = Inr inst" "distinct (map sf_name (sc_fields c))" "k \<in> sf_name ` set (sc_fields c)"
    "map_of kw k = Some v"
  shows "map_of inst k = Some v"
proof -
  let ?g = "\<lambda>f. case map_of kw (sf_name f) of Some v \<Rightarrow> v | None \<Rightarrow> field_default f"
  have inst: "inst = map (\<lambda>f. (sf_name f, ?g f)) (sc_fields c)"
    using assms(1) by (auto simp: settings_construct_def Let_def split: list.splits option.splits)
  obtain f where f: "f \<in> set (sc_fields c)" "k = sf_name f" using assms(3) by blast
  have "map_of inst k = Some (?g f)"
    using f assms(2) unfolding inst by (auto simp: map_of_eq_Some_iff comp_def)
  then show ?thesis using f assms(4) by simp
qed

lemma fold_dict_set:
  "distinct (map fst xs) \<Longrightarrow> map_of (fold (\<lambda>(k, v). dict_set k v) xs d) k
     = (case map_of xs k of Some v \<Rightarrow> Some v | None \<Rightarrow> map_of d k)"
  by (induction xs arbitrary: d) (auto split: option.splits simp: map_of_eq_None_iff image_iff)

text \<open>Every loader that returns contributes every field, defaults included: after the loop each field has the value the
  last returning loader gave it, and what earlier loaders read is gone.\<close>

lemma merge_last_wins:
  assumes fields: "distinct (map sf_name (sc_fields c))"
    and shape: "\<And>ld' inst'. ld' \<in> set (ld # lds) \<Longrightarrow> ld' c = Inr inst' \<Longrightarrow> map fst inst' = map sf_name (sc_fields c)"
    and ld: "ld c = Inr inst" and later: "\<And>ld'. ld' \<in> set lds \<Longrightarrow> \<exists>e. ld' c = Inl e \<and> catchable e"
    and k: "k \<in> sf_name ` set (sc_fields c)"
  shows "\<exists>m. merge_loaders c (ld # lds) merged = Inr m \<and> map_of m k = map_of inst k"
proof -
  have skip: "merge_loaders c lds m = Inr m" for m using later
  proof (induction lds)
    case (Cons a lds)
    then obtain e where "a c = Inl e" "catchable e" by auto
    with Cons show ?case by simp
  qed simp
  have names: "map fst inst = map sf_name (sc_fields c)" using shape[of ld inst] ld by simp
  then have "k \<in> fst ` set inst" using k by (metis image_set list.set_map)
  then obtain v where "map_of inst k = Some v" by (metis map_of_eq_None_iff option.exhaust)
  then show ?thesis using ld skip fold_dict_set[of inst merged k] names fields by simp
qed

text \<open>A default of the later loader replaces a value the earlier one read from its source.\<close>

lemma settings_default_clobbers:
  "let f = \<lparr>sf_name = ''port'', sf_type = HInt, sf_default = Some (PInt 80), sf_default_factory = None\<rparr>;
       c = \<lparr>sc_name = ''S'', sc_prefix = '''', sc_fields = [f], sc_validate = (\<lambda>_. None)\<rparr>;
       file_env = [''PORT'' \<mapsto> ''8080'']
   in EnvSettingsLoader_load exn_message file_env c = Inr [(''port'', PInt 8080)]
     \<and> SettingsFactory_create exn_message c
          [EnvSettingsLoader_load exn_message file_env, EnvSettingsLoader_load exn_message Map.empty] []
        = Inr [(''port'', PInt 80)]"
  by code_simp

text \<open>A malformed value is not reported: the loader is skipped and the default is used.\<close>

lemma settings_malformed_ignored:
  "let f = \<lparr>sf_name = ''port'', sf_type = HInt, sf_default = Some (PInt 80), sf_default_factory = None\<rparr>;
       c = \<lparr>sc_name = ''S'', sc_prefix = '''', sc_fields = [f], sc_validate = (\<lambda>_. None)\<rparr>
   in SettingsFactory_create exn_message c [EnvSettingsLoader_load exn_message [''PORT'' \<mapsto> ''80x'']] []
        = Inr [(''port'', PInt 80)]"
  by code_simp

text \<open>Overrides have the highest priority.\<close>

lemma settings_overrides_win:
  assumes "SettingsFactory_create exn_str c loaders overrides = Inr inst" "distinct (map fst overrides)"
    "distinct (map sf_name (sc_fields c))" "k \<in> sf_name ` set (sc_fields c)" "map_of overrides k = Some v"
  shows "map_of inst k = Some v"
proof -
  obtain m where "settings_construct c (fold (\<lambda>(k, v). dict_set k v) overrides m) = Inr inst"
    using assms(1) by (auto simp: SettingsFactory_create_def Let_def split: sum.splits list.splits if_splits)
  then show ?thesis using construct_supplied assms(2-5) by (simp add: fold_dict_set)
qed

subsection \<open>Facts: registry and flags\<close>

text \<open>Within the time to live the source is not asked again, whatever the default of the second call.\<close>

lemma registry_caches:
  assumes "registry_get now key d r w = (Inr v, r', w')" "map_of (cr_sources r) key \<noteq> None"
    "map_of (cr_cache r) key = None" "now w'' < now w' + cr_ttl r"
  shows "registry_get now key d' r' w'' = (Inr v, r', w'')"
proof -
  obtain data where r': "r' = r\<lparr>cr_cache := dict_set key (v, now w' + cr_ttl r) (cr_cache r)\<rparr>"
      and "v = dict_get_or data key d"
    using assms(1-3) unfolding registry_get_def registry_load_def Let_def
    by (fastforce split: option.splits prod.splits sum.splits)
  show ?thesis unfolding registry_get_def r' using assms(4) by simp
qed

lemma registry_invalidate_reloads:
  "registry_get now key d (registry_invalidate key r) w = registry_load now key d (registry_invalidate key r) w"
  by (simp add: registry_get_def registry_invalidate_def)

lemma bucket_range: "0 \<le> percentage_bucket h t k \<and> percentage_bucket h t k < 100"
proof -
  have "(of_nat (n mod 100000) :: rat) < 100000" for n :: nat
    by (metis mod_less_divisor of_nat_less_iff of_nat_numeral zero_less_numeral)
  then show ?thesis by (simp add: percentage_bucket_def divide_less_eq)
qed

text \<open>Rollout is monotone in the percentage, complete at 100 and empty at 0; it is evaluated before, and whatever,
  \<^verbatim>\<open>enabled\<close> says.\<close>

lemma rollout_monotone:
  assumes "eval_targeting d context = Inr None" "rule_get ''rollout_percentage'' d = PInt p"
    "eval_targeting d' context = Inr None" "rule_get ''rollout_percentage'' d' = PInt p'" "p \<le> p'"
    "evaluate_boolean h k d context = Inr True"
  shows "evaluate_boolean h k d' context = Inr True"
proof -
  have "(of_int p :: rat) \<le> of_int p'" using assms(5) by simp
  then show ?thesis using assms by (auto simp: evaluate_boolean_def Let_def)
qed

lemma rollout_bounds:
  assumes "eval_targeting d context = Inr None" "rule_get ''rollout_percentage'' d = PInt p"
  shows "p \<ge> 100 \<Longrightarrow> evaluate_boolean h k d context = Inr True"
    and "p \<le> 0 \<Longrightarrow> evaluate_boolean h k d context = Inr False"
proof -
  note b = bucket_range[of h "case context of None \<Rightarrow> [] | Some c \<Rightarrow> ec_targeting_key c" k]
  have e: "evaluate_boolean h k d context
      = Inr (percentage_bucket h (case context of None \<Rightarrow> [] | Some c \<Rightarrow> ec_targeting_key c) k < of_int p)"
    using assms by (simp add: evaluate_boolean_def Let_def)
  show "evaluate_boolean h k d context = Inr True" if "p \<ge> 100"
  proof -
    have "(100::rat) \<le> of_int p" using that by simp
    then show ?thesis unfolding e using b by simp
  qed
  show "evaluate_boolean h k d context = Inr False" if "p \<le> 0"
  proof -
    have "of_int p \<le> (0::rat)" using that by simp
    then show ?thesis unfolding e using b by simp
  qed
qed

lemma std_catchable [simp]:
  "catchable (plain_exn TypeError m)" "catchable (plain_exn ValueError m)" "catchable (plain_exn (UserError n Exception) m)"
  by (simp_all add: catchable_def plain_exn_def isinstance_def issubclass_def mro_def eval_nat_numeral)

lemma flag_errors_catchable:
  "rules_of v = Inl e \<Longrightarrow> catchable e"
  "match_key t rs = Inl e \<Longrightarrow> catchable e"
  "match_attr attrs rs = Inl e \<Longrightarrow> catchable e"
  "to_float v = Inl e \<Longrightarrow> catchable e"
  subgoal by (cases v) auto
  subgoal by (induction t rs rule: match_key.induct) (auto simp: no_get_def split: if_splits)
  subgoal by (induction attrs rs rule: match_attr.induct) (auto simp: no_get_def split: if_splits)
  subgoal by (cases v) (auto simp: float_error_def split: option.splits)
  done

lemma eval_targeting_catchable: "eval_targeting fd context = Inl e \<Longrightarrow> catchable e"
  by (auto simp: eval_targeting_def split: option.splits if_splits sum.splits dest: flag_errors_catchable)

lemma evaluate_boolean_catchable:
  assumes "evaluate_boolean h k fd context = Inl e"
  shows "catchable e"
proof (cases "eval_targeting fd context")
  case (Inr m)
  then show ?thesis using assms unfolding evaluate_boolean_def Let_def
    by (cases m) (simp_all split: if_splits sum.splits add: flag_errors_catchable(4))
qed (use assms eval_targeting_catchable in \<open>simp add: evaluate_boolean_def\<close>)

lemma flat_get_boolean_catchable: "flat_get_boolean h flags k d context = Inl e \<Longrightarrow> catchable e"
  unfolding flat_get_boolean_def by (cases "rule_get k flags") (auto dest: evaluate_boolean_catchable)

lemma client_get_total: "(\<And>e. r = Inl e \<Longrightarrow> catchable e) \<Longrightarrow> \<exists>b. client_get r d = Inr b"
  by (cases r) (auto simp: client_get_def)

text \<open>The client answers whatever the file contains, when reading it fails with an ordinary exception at most.\<close>

lemma client_total:
  assumes "\<And>e. yaml = Inl e \<Longrightarrow> catchable e"
  shows "\<exists>b f'. client_is_enabled h yaml f k d context = (Inr b, f')"
proof -
  have "catchable e" if "(case v of PDict flags \<Rightarrow> flat_get_boolean h flags k d context | _ \<Rightarrow> Inl no_get) = Inl e" for v e
    using that by (cases v) (auto simp: no_get_def dest: flat_get_boolean_catchable)
  note ok = client_get_total[OF this]
  obtain r f' where l: "flat_ensure_loaded yaml f = (r, f')" by fastforce
  then have "r = Inl e \<Longrightarrow> catchable e" for e using assms
    by (cases yaml) (auto simp: flat_ensure_loaded_def flat_reload_def split: if_splits)
  then show ?thesis using ok client_get_total[of "Inl _"] l
    by (cases r) (auto simp: client_is_enabled_def client_get_def)
qed

lemma mem_flag_set_get [simp]:
  "mem_flag_is_enabled (mem_flag_set (Inl f) b flags) f' = (if fl_key f' = fl_key f then b else mem_flag_is_enabled flags f')"
  by (simp add: mem_flag_is_enabled_def mem_flag_set_def dict_get_or_def)

end
