(* ===== verification/Outbox.thy ===== *)
theory Outbox
  imports Errors
begin

text \<open>
  The transactional outbox: records and messages (\<^verbatim>\<open>kernel/messaging\<close>), the in-memory repository
  (\<^verbatim>\<open>testing/fakes/outbox.py\<close>), the relay that publishes pending records
  (\<^verbatim>\<open>adapters/kafka/outbox_dispatcher.py\<close>) and the document form of the MongoDB and SQLAlchemy adapters. The
  locale \<open>outbox_repository\<close> is what the relay relies on; bus and \<^verbatim>\<open>str(exc)\<close> are parameters.
\<close>

subsection \<open>Records and messages\<close>

datatype OutboxStatus = PENDING | DISPATCHED | FAILED

record OutboxRecord =
  ob_id :: string
  ob_aggregate_id :: string
  ob_aggregate_type :: string
  ob_event_type :: string
  ob_topic :: string
  ob_payload :: string
  ob_headers :: "(string, string) pydict"
  ob_status :: OutboxStatus
  ob_created_at :: microseconds
  ob_dispatched_at :: "microseconds option"
  ob_retry_count :: int
  ob_last_error :: "string option"

record MessageHeaders =
  mh_correlation_id :: "string option"
  mh_tenant_id :: "string option"
  mh_causation_id :: "string option"
  mh_trace_id :: "string option"
  mh_content_type :: string
  mh_schema_version :: int
  mh_extra :: "(string, string) pydict"

definition MessageHeaders_init :: "string option \<Rightarrow> (string, string) pydict \<Rightarrow> MessageHeaders" where
  "MessageHeaders_init correlation_id extra =
     \<lparr>mh_correlation_id = correlation_id, mh_tenant_id = None, mh_causation_id = None, mh_trace_id = None,
      mh_content_type = ''application/json'', mh_schema_version = 1, mh_extra = extra\<rparr>"

record Message =
  ms_id :: string
  ms_topic :: string
  ms_payload :: string
  ms_headers :: MessageHeaders
  ms_occurred_at :: microseconds

subsection \<open>The in-memory repository\<close>

definition outbox_save :: "OutboxRecord \<Rightarrow> (string, OutboxRecord) pydict \<Rightarrow> (string, OutboxRecord) pydict" where
  "outbox_save r d = dict_set (ob_id r) r d"

definition outbox_get_pending :: "nat \<Rightarrow> (string, OutboxRecord) pydict \<Rightarrow> OutboxRecord list" where
  "outbox_get_pending limit d = take limit (filter (\<lambda>r. ob_status r = PENDING) (map snd d))"

text \<open>The record is rebuilt: dispatch time, retry count and error go back to their defaults.\<close>

definition with_status :: "OutboxStatus \<Rightarrow> OutboxRecord \<Rightarrow> OutboxRecord" where
  "with_status st r =
     \<lparr>ob_id = ob_id r, ob_aggregate_id = ob_aggregate_id r, ob_aggregate_type = ob_aggregate_type r,
      ob_event_type = ob_event_type r, ob_topic = ob_topic r, ob_payload = ob_payload r,
      ob_headers = ob_headers r, ob_status = st, ob_created_at = ob_created_at r,
      ob_dispatched_at = None, ob_retry_count = 0, ob_last_error = None\<rparr>"

definition outbox_mark_dispatched :: "string \<Rightarrow> (string, OutboxRecord) pydict \<Rightarrow> (string, OutboxRecord) pydict" where
  "outbox_mark_dispatched record_id d =
     (case map_of d record_id of None \<Rightarrow> d | Some r \<Rightarrow> dict_set record_id (with_status DISPATCHED r) d)"

definition outbox_mark_failed :: "string \<Rightarrow> string \<Rightarrow> (string, OutboxRecord) pydict \<Rightarrow> (string, OutboxRecord) pydict" where
  "outbox_mark_failed record_id err d =
     (case map_of d record_id of None \<Rightarrow> d | Some r \<Rightarrow> dict_set record_id (with_status FAILED r) d)"

subsection \<open>The relay\<close>

definition outbox_message :: "microseconds \<Rightarrow> OutboxRecord \<Rightarrow> Message" where
  "outbox_message now r =
     \<lparr>ms_id = ob_id r, ms_topic = ob_topic r, ms_payload = ob_payload r,
      ms_headers = MessageHeaders_init (map_of (ob_headers r) ''correlation-id'') (ob_headers r),
      ms_occurred_at = now\<rparr>"

text \<open>One record: publish, then mark; any exception of the two is caught and the record marked as failed.\<close>

definition dispatch_one ::
    "('w \<Rightarrow> microseconds) \<Rightarrow> (Message \<Rightarrow> ('w, unit) act) \<Rightarrow> (string \<Rightarrow> ('w, unit) act)
      \<Rightarrow> (string \<Rightarrow> string \<Rightarrow> ('w, unit) act) \<Rightarrow> (exn \<Rightarrow> string) \<Rightarrow> OutboxRecord \<Rightarrow> ('w, bool) act" where
  "dispatch_one now publish mark_dispatched mark_failed exn_str r w =
     (let body = (case publish (outbox_message (now w) r) w of
                    (Inl e, w') \<Rightarrow> (Inl e, w')
                  | (Inr _, w') \<Rightarrow> mark_dispatched (ob_id r) w')
      in case body of
           (Inr _, w') \<Rightarrow> (Inr True, w')
         | (Inl e, w') \<Rightarrow>
             if catchable e
             then (case mark_failed (ob_id r) (exn_str e) w' of
                     (Inl e', w'') \<Rightarrow> (Inl e', w'')
                   | (Inr _, w'') \<Rightarrow> (Inr False, w''))
             else (Inl e, w'))"

fun dispatch_records ::
    "('w \<Rightarrow> microseconds) \<Rightarrow> (Message \<Rightarrow> ('w, unit) act) \<Rightarrow> (string \<Rightarrow> ('w, unit) act)
      \<Rightarrow> (string \<Rightarrow> string \<Rightarrow> ('w, unit) act) \<Rightarrow> (exn \<Rightarrow> string) \<Rightarrow> OutboxRecord list \<Rightarrow> nat \<Rightarrow> ('w, nat) act" where
  "dispatch_records now publish md mf exn_str [] dispatched w = (Inr dispatched, w)"
| "dispatch_records now publish md mf exn_str (r # rs) dispatched w =
     (case dispatch_one now publish md mf exn_str r w of
        (Inl e, w') \<Rightarrow> (Inl e, w')
      | (Inr ok, w') \<Rightarrow> dispatch_records now publish md mf exn_str rs (if ok then Suc dispatched else dispatched) w')"

definition dispatch_pending ::
    "('w \<Rightarrow> microseconds) \<Rightarrow> ('w, OutboxRecord list) act \<Rightarrow> (Message \<Rightarrow> ('w, unit) act) \<Rightarrow> (string \<Rightarrow> ('w, unit) act)
      \<Rightarrow> (string \<Rightarrow> string \<Rightarrow> ('w, unit) act) \<Rightarrow> (exn \<Rightarrow> string) \<Rightarrow> ('w, nat) act" where
  "dispatch_pending now get_pending publish md mf exn_str w =
     (case get_pending w of
        (Inl e, w') \<Rightarrow> (Inl e, w')
      | (Inr records, w') \<Rightarrow> dispatch_records now publish md mf exn_str records 0 w')"

subsection \<open>What the relay relies on\<close>

text \<open>A repository next to a bus: the relay's world is the pair of their states.\<close>

definition on_repo :: "('s \<Rightarrow> 's) \<Rightarrow> ('s \<times> 'b, unit) act" where
  "on_repo f sb = (Inr (), f (fst sb), snd sb)"

definition on_bus :: "('m \<Rightarrow> ('b, unit) act) \<Rightarrow> 'm \<Rightarrow> ('s \<times> 'b, unit) act" where
  "on_bus publish m sb = (case publish m (snd sb) of (r, b) \<Rightarrow> (r, fst sb, b))"

text \<open>A bus that fails with ordinary exceptions only (not with a cancellation or an interrupt).\<close>

definition ordinary_bus :: "('m \<Rightarrow> ('b, unit) act) \<Rightarrow> bool" where
  "ordinary_bus publish \<longleftrightarrow> (\<forall>m b e b'. publish m b = (Inl e, b') \<longrightarrow> catchable e)"

locale outbox_repository =
  fixes status_of :: "'s \<Rightarrow> string \<Rightarrow> OutboxStatus option"
    and get_pending :: "nat \<Rightarrow> 's \<Rightarrow> OutboxRecord list"
    and mark_dispatched :: "string \<Rightarrow> 's \<Rightarrow> 's"
    and mark_failed :: "string \<Rightarrow> string \<Rightarrow> 's \<Rightarrow> 's"
    and ok :: "'s \<Rightarrow> bool"
  assumes pending_status: "ok s \<Longrightarrow> r \<in> set (get_pending n s) \<Longrightarrow> status_of s (ob_id r) = Some PENDING"
    and pending_distinct: "ok s \<Longrightarrow> distinct (map ob_id (get_pending n s))"
    and pending_complete: "ok s \<Longrightarrow> length (get_pending n s) < n \<Longrightarrow> status_of s i = Some PENDING
      \<Longrightarrow> i \<in> ob_id ` set (get_pending n s)"
    and dispatched_status: "ok s \<Longrightarrow> status_of (mark_dispatched i s)
      = (\<lambda>j. if j = i \<and> status_of s i \<noteq> None then Some DISPATCHED else status_of s j)"
    and failed_status: "ok s \<Longrightarrow> status_of (mark_failed i err s)
      = (\<lambda>j. if j = i \<and> status_of s i \<noteq> None then Some FAILED else status_of s j)"
    and mark_ok: "ok s \<Longrightarrow> ok (mark_dispatched i s)" "ok s \<Longrightarrow> ok (mark_failed i err s)"
begin

abbreviation relay_one where
  "relay_one now publish exn_str \<equiv>
     dispatch_one now (on_bus publish) (\<lambda>i. on_repo (mark_dispatched i)) (\<lambda>i err. on_repo (mark_failed i err)) exn_str"

abbreviation relay where
  "relay now publish exn_str \<equiv>
     dispatch_records now (on_bus publish) (\<lambda>i. on_repo (mark_dispatched i)) (\<lambda>i err. on_repo (mark_failed i err)) exn_str"

lemma relay_one_status:
  assumes "ok s" "status_of s (ob_id r) \<noteq> None" "relay_one now publish exn_str r (s, b) = (Inr sent, s', b')"
  shows "ok s' \<and> status_of s' = (status_of s)(ob_id r \<mapsto> if sent then DISPATCHED else FAILED)
    \<and> (sent \<longleftrightarrow> (\<exists>b1. publish (outbox_message (now (s, b)) r) b = (Inr (), b1)))"
  using assms
  by (auto simp: dispatch_one_def on_bus_def on_repo_def Let_def dispatched_status failed_status mark_ok fun_eq_iff
      split: prod.splits sum.splits if_splits)

lemma relay_one_total:
  assumes "ordinary_bus publish"
  shows "\<exists>sent w'. relay_one now publish exn_str r w = (Inr sent, w')"
proof -
  obtain x b' where p: "publish (outbox_message (now w) r) (snd w) = (x, b')" by fastforce
  show ?thesis
  proof (cases x)
    case (Inl e)
    then show ?thesis using p assms by (auto simp: ordinary_bus_def dispatch_one_def on_bus_def on_repo_def Let_def)
  qed (use p in \<open>auto simp: dispatch_one_def on_bus_def on_repo_def Let_def\<close>)
qed

text \<open>After the loop each record it was given is dispatched or failed, the others keep their status, and the count is
  that of the dispatched ones.\<close>

lemma relay_correct:
  assumes "ordinary_bus publish"
    and "ok s" "distinct (map ob_id rs)" "\<And>r. r \<in> set rs \<Longrightarrow> status_of s (ob_id r) \<noteq> None"
  shows "\<exists>n' s' b'. relay now publish exn_str rs n (s, b) = (Inr n', s', b') \<and> ok s'
    \<and> (\<forall>i. i \<notin> ob_id ` set rs \<longrightarrow> status_of s' i = status_of s i)
    \<and> (\<forall>r \<in> set rs. status_of s' (ob_id r) \<in> {Some DISPATCHED, Some FAILED})
    \<and> n' = n + length (filter (\<lambda>r. status_of s' (ob_id r) = Some DISPATCHED) rs)"
  using assms(2-)
proof (induction rs arbitrary: n s b)
  case (Cons r rs)
  obtain sent s1 b1 where o: "relay_one now publish exn_str r (s, b) = (Inr sent, s1, b1)"
    using relay_one_total[OF assms(1), of now exn_str r "(s, b)"] by (metis prod.collapse)
  have s1: "ok s1" "status_of s1 = (status_of s)(ob_id r \<mapsto> if sent then DISPATCHED else FAILED)"
    using relay_one_status[OF Cons.prems(1) _ o] Cons.prems(3)[of r] by auto
  have "distinct (map ob_id rs)" "\<And>x. x \<in> set rs \<Longrightarrow> status_of s1 (ob_id x) \<noteq> None"
    using Cons.prems by (auto simp: s1(2))
  from Cons.IH[OF s1(1) this, of "if sent then Suc n else n" b1] obtain n' s' b' where
    ih: "relay now publish exn_str rs (if sent then Suc n else n) (s1, b1) = (Inr n', s', b')" "ok s'"
      "\<forall>i. i \<notin> ob_id ` set rs \<longrightarrow> status_of s' i = status_of s1 i"
      "\<forall>x \<in> set rs. status_of s' (ob_id x) \<in> {Some DISPATCHED, Some FAILED}"
      "n' = (if sent then Suc n else n) + length (filter (\<lambda>x. status_of s' (ob_id x) = Some DISPATCHED) rs)"
    by blast
  have r: "status_of s' (ob_id r) = Some (if sent then DISPATCHED else FAILED)"
    using ih(3) Cons.prems(2) s1(2) by simp
  have "relay now publish exn_str (r # rs) n (s, b) = (Inr n', s', b')" using o ih(1) by simp
  moreover have "\<forall>i. i \<notin> ob_id ` set (r # rs) \<longrightarrow> status_of s' i = status_of s i" using ih(3) s1(2) by simp
  moreover have "n' = n + length (filter (\<lambda>x. status_of s' (ob_id x) = Some DISPATCHED) (r # rs))"
    using ih(5) r by simp
  ultimately show ?case using ih(2,4) r by auto
qed auto

end

definition outbox_status_of :: "(string, OutboxRecord) pydict \<Rightarrow> string \<Rightarrow> OutboxStatus option" where
  "outbox_status_of d i = map_option ob_status (map_of d i)"

definition outbox_ok :: "(string, OutboxRecord) pydict \<Rightarrow> bool" where
  "outbox_ok d \<longleftrightarrow> dict_ok d \<and> list_all (\<lambda>(i, r). ob_id r = i) d"

lemma set_dict_set: "set (dict_set k v d) \<subseteq> insert (k, v) (set d)"
  by (induction d) (auto simp: dict_set_eval split: if_splits)

lemma outbox_ok_save [inv_intros]: "outbox_ok d \<Longrightarrow> outbox_ok (outbox_save r d)"
  using set_dict_set[of "ob_id r" r d]
  by (auto simp: outbox_ok_def outbox_save_def list_all_iff intro: dict_ok_set)

lemma outbox_pending_facts:
  assumes "outbox_ok d"
  shows "r \<in> set (outbox_get_pending n d) \<Longrightarrow> map_of d (ob_id r) = Some r \<and> ob_status r = PENDING"
    and "distinct (map ob_id (outbox_get_pending n d))"
    and "length (outbox_get_pending n d) < n \<Longrightarrow> map_of d i = Some r \<Longrightarrow> ob_status r = PENDING
      \<Longrightarrow> i \<in> ob_id ` set (outbox_get_pending n d)"
proof -
  have keys: "map ob_id (map snd d) = map fst d" using assms by (auto simp: outbox_ok_def list_all_iff)
  have dk: "distinct (map fst d)" using assms by (simp add: outbox_ok_def dict_ok_def)
  show "map_of d (ob_id r) = Some r \<and> ob_status r = PENDING" if mem: "r \<in> set (outbox_get_pending n d)"
  proof -
    obtain i where "(i, r) \<in> set d" "ob_status r = PENDING"
      using mem set_take_subset[of n "filter (\<lambda>r. ob_status r = PENDING) (map snd d)"]
      unfolding outbox_get_pending_def by fastforce
    moreover from this have "ob_id r = i" using assms by (auto simp: outbox_ok_def list_all_iff)
    ultimately show ?thesis using dk by simp
  qed
  have "distinct (map ob_id (filter (\<lambda>r. ob_status r = PENDING) (map snd d)))"
    using dk keys by (metis distinct_map_filter)
  then show "distinct (map ob_id (outbox_get_pending n d))"
    by (simp add: outbox_get_pending_def take_map[symmetric] distinct_take del: filter_map)
  show "i \<in> ob_id ` set (outbox_get_pending n d)"
    if "length (outbox_get_pending n d) < n" "map_of d i = Some r" "ob_status r = PENDING"
  proof -
    have "outbox_get_pending n d = filter (\<lambda>r. ob_status r = PENDING) (map snd d)"
      using that(1) by (simp add: outbox_get_pending_def)
    moreover have "(i, r) \<in> set d" using that(2) by (rule map_of_SomeD)
    moreover from this have "ob_id r = i" using assms by (auto simp: outbox_ok_def list_all_iff)
    ultimately show ?thesis using that(3) by force
  qed
qed

interpretation mem_outbox: outbox_repository outbox_status_of outbox_get_pending outbox_mark_dispatched outbox_mark_failed outbox_ok
proof (unfold_locales, goal_cases)
  case (1 s r n) then show ?case using outbox_pending_facts(1)[of s r n] by (simp add: outbox_status_of_def)
next
  case (2 s n) then show ?case by (rule outbox_pending_facts(2))
next
  case (3 s n i) then show ?case using outbox_pending_facts(3)[of s n i] by (auto simp: outbox_status_of_def)
next
  case (4 s i) then show ?case
    by (auto simp: outbox_status_of_def outbox_mark_dispatched_def with_status_def fun_eq_iff split: option.splits)
next
  case (5 s i err) then show ?case
    by (auto simp: outbox_status_of_def outbox_mark_failed_def with_status_def fun_eq_iff split: option.splits)
next
  case (6 s i)
  then have "outbox_ok (outbox_save (with_status DISPATCHED r) s)" for r by (intro outbox_ok_save)
  moreover have "map_of s i = Some r \<Longrightarrow> ob_id r = i" for r using 6 by (auto simp: outbox_ok_def list_all_iff dest: map_of_SomeD)
  ultimately show ?case using 6
    by (auto simp: outbox_mark_dispatched_def outbox_save_def with_status_def split: option.splits)
next
  case (7 s i err)
  then have "outbox_ok (outbox_save (with_status FAILED r) s)" for r by (intro outbox_ok_save)
  moreover have "map_of s i = Some r \<Longrightarrow> ob_id r = i" for r using 7 by (auto simp: outbox_ok_def list_all_iff dest: map_of_SomeD)
  ultimately show ?case using 7
    by (auto simp: outbox_mark_failed_def outbox_save_def with_status_def split: option.splits)
qed

subsection \<open>Document forms of the adapters\<close>

text \<open>Column and document values. \<open>status_value\<close> is the \<^verbatim>\<open>value\<close> of the enumeration.\<close>

datatype docval = DStr string | DBytes string | DDict "(string, string) pydict" | DTime microseconds | DInt int | DNone

fun status_value :: "OutboxStatus \<Rightarrow> string" where
  "status_value PENDING = ''PENDING''"
| "status_value DISPATCHED = ''DISPATCHED''"
| "status_value FAILED = ''FAILED''"

definition OutboxStatus_of :: "string \<Rightarrow> exn + OutboxStatus" where
  "OutboxStatus_of s =
     (if s = ''PENDING'' then Inr PENDING else if s = ''DISPATCHED'' then Inr DISPATCHED
      else if s = ''FAILED'' then Inr FAILED
      else Inl (plain_exn ValueError (repr_str s @ '' is not a valid OutboxStatus'')))"

definition opt_time :: "microseconds option \<Rightarrow> docval" where
  "opt_time t = (case t of None \<Rightarrow> DNone | Some u \<Rightarrow> DTime u)"

definition mongo_to_doc :: "OutboxRecord \<Rightarrow> (string, docval) pydict" where
  "mongo_to_doc r =
     [(''_id'', DStr (ob_id r)), (''aggregate_id'', DStr (ob_aggregate_id r)), (''aggregate_type'', DStr (ob_aggregate_type r)),
      (''event_type'', DStr (ob_event_type r)), (''topic'', DStr (ob_topic r)), (''payload'', DBytes (ob_payload r)),
      (''headers'', DDict (ob_headers r)), (''status'', DStr (status_value (ob_status r))),
      (''created_at'', DTime (ob_created_at r)), (''dispatched_at'', opt_time (ob_dispatched_at r)),
      (''retry_count'', DInt (ob_retry_count r)),
      (''last_error'', case ob_last_error r of None \<Rightarrow> DNone | Some s \<Rightarrow> DStr s)]"

text \<open>\<^verbatim>\<open>_from_doc\<close> on documents whose present fields have the types \<^verbatim>\<open>_to_doc\<close> writes.\<close>

fun d_str :: "docval \<Rightarrow> string" where "d_str (DStr s) = s" | "d_str (DBytes s) = s" | "d_str _ = []"

fun d_dict :: "docval \<Rightarrow> (string, string) pydict" where "d_dict (DDict d) = d" | "d_dict _ = []"

fun d_time :: "docval \<Rightarrow> microseconds option" where "d_time (DTime t) = Some t" | "d_time _ = None"

fun d_int :: "docval \<Rightarrow> int" where "d_int (DInt n) = n" | "d_int _ = 0"

fun d_opt_str :: "docval \<Rightarrow> string option" where "d_opt_str (DStr s) = Some s" | "d_opt_str _ = None"

definition mongo_from_doc :: "microseconds \<Rightarrow> (string, docval) pydict \<Rightarrow> exn + OutboxRecord" where
  "mongo_from_doc now doc =
     (case map_of doc ''_id'' of
        None \<Rightarrow> Inl (plain_exn KeyError (quoted ''_id''))
      | Some i \<Rightarrow>
          let get = (\<lambda>k d. dict_get_or doc k d)
          in case OutboxStatus_of (d_str (get ''status'' (DStr ''PENDING''))) of
               Inl e \<Rightarrow> Inl e
             | Inr st \<Rightarrow> Inr
                 \<lparr>ob_id = d_str i, ob_aggregate_id = d_str (get ''aggregate_id'' (DStr [])),
                  ob_aggregate_type = d_str (get ''aggregate_type'' (DStr [])),
                  ob_event_type = d_str (get ''event_type'' (DStr [])), ob_topic = d_str (get ''topic'' (DStr [])),
                  ob_payload = d_str (get ''payload'' (DBytes [])), ob_headers = d_dict (get ''headers'' (DDict [])),
                  ob_status = st, ob_created_at = the (d_time (get ''created_at'' (DTime now))),
                  ob_dispatched_at = d_time (get ''dispatched_at'' DNone),
                  ob_retry_count = d_int (get ''retry_count'' (DInt 0)),
                  ob_last_error = d_opt_str (get ''last_error'' DNone)\<rparr>)"

definition sql_record_to_dict :: "OutboxRecord \<Rightarrow> (string, docval) pydict" where
  "sql_record_to_dict r =
     [(''id'', DStr (ob_id r)), (''aggregate_id'', DStr (ob_aggregate_id r)), (''aggregate_type'', DStr (ob_aggregate_type r)),
      (''event_type'', DStr (ob_event_type r)), (''topic'', DStr (ob_topic r)), (''payload'', DBytes (ob_payload r)),
      (''headers'', DDict (ob_headers r)), (''status'', DStr (status_value (ob_status r))),
      (''created_at'', DTime (ob_created_at r))]"

lemma OutboxStatus_of_value [simp]: "OutboxStatus_of (status_value st) = Inr st"
  by (cases st) (simp_all add: OutboxStatus_of_def)

text \<open>The document form loses nothing.\<close>

lemma mongo_document_round_trip: "mongo_from_doc now (mongo_to_doc r) = Inr r"
  by (cases "ob_dispatched_at r"; cases "ob_last_error r")
     (simp_all add: mongo_from_doc_def mongo_to_doc_def Let_def dict_get_or_def opt_time_def)

subsection \<open>Properties\<close>

lemma dispatch_pending_mem:
  "dispatch_pending now (\<lambda>sb. (Inr (outbox_get_pending n (fst sb)), sb)) (on_bus publish)
      (\<lambda>i. on_repo (outbox_mark_dispatched i)) (\<lambda>i err. on_repo (outbox_mark_failed i err)) exn_str (d, b)
     = mem_outbox.relay now publish exn_str (outbox_get_pending n d) 0 (d, b)"
  by (simp add: dispatch_pending_def)


definition demo_record :: "string \<Rightarrow> OutboxRecord" where
  "demo_record i = \<lparr>ob_id = i, ob_aggregate_id = [], ob_aggregate_type = [], ob_event_type = [], ob_topic = ''t'',
     ob_payload = [], ob_headers = [], ob_status = PENDING, ob_created_at = 0, ob_dispatched_at = None,
     ob_retry_count = 0, ob_last_error = None\<rparr>"

definition demo_bus :: "Message \<Rightarrow> (string list, unit) act" where
  "demo_bus m b = (if ms_id m = ''b'' then (Inl (plain_exn ValueError ''down''), b) else (Inr (), b @ [ms_id m]))"

lemma demo_bus_ordinary: "ordinary_bus demo_bus"
  by (auto simp: ordinary_bus_def demo_bus_def catchable_def plain_exn_def isinstance_def issubclass_def mro_def eval_nat_numeral split: if_splits)


end
