(* ===== verification/Asgi.thy ===== *)
theory Asgi
  imports Contexts
begin

text \<open>
  The ASGI middlewares and handlers of \<^verbatim>\<open>adapters/fastapi\<close>. An application is a function of the scope and of the
  \<^verbatim>\<open>receive\<close> and \<^verbatim>\<open>send\<close> callables, all acting on a world; middlewares that set context variables act on
  the ambient record. Local variables that closures of a middleware assign (the status code, the replayed body)
  are a cell next to the world of the inner application. HMAC, metrics, limiter, verifier and UUIDs are
  parameters.
\<close>

subsection \<open>Messages and applications\<close>

record scope =
  sp_type :: string
  sp_headers :: "(string \<times> string) list"
  sp_path :: "string option"
  sp_raw_path :: string
  sp_method :: string
  sp_client :: "string option"

text \<open>\<open>ResponseStart\<close> has the status (if present) and the headers; \<open>Request\<close> a body and \<^verbatim>\<open>more_body\<close>; other messages
  have a type only.\<close>

datatype msg =
    ResponseStart "int option" "(string \<times> string) list"
  | ResponseBody string
  | Request string bool
  | OtherMessage string

type_synonym 'w recv = "('w, msg) act"
type_synonym 'w sender = "msg \<Rightarrow> ('w, unit) act"
type_synonym 'w app = "scope \<Rightarrow> 'w recv \<Rightarrow> 'w sender \<Rightarrow> ('w, unit) act"

text \<open>\<^verbatim>\<open>dict(scope["headers"]).get(name, b"").decode().strip()\<close>: of equal names the last counts.\<close>

definition header_of :: "scope \<Rightarrow> string \<Rightarrow> string" where
  "header_of sc name = (case map_of (rev (sp_headers sc)) name of None \<Rightarrow> [] | Some v \<Rightarrow> strip v)"

definition send_response :: "int \<Rightarrow> (string \<times> string) list \<Rightarrow> string \<Rightarrow> 'w sender \<Rightarrow> ('w, unit) act" where
  "send_response status headers body send w =
     (case send (ResponseStart (Some status) headers) w of
        (Inl e, w') \<Rightarrow> (Inl e, w')
      | (Inr _, w') \<Rightarrow> send (ResponseBody body) w')"

definition json_headers :: "string \<Rightarrow> (string \<times> string) list" where
  "json_headers body = [(''content-type'', ''application/json''), (''content-length'', show_nat (length body))]"

text \<open>The wrapped \<^verbatim>\<open>send\<close> of the middlewares that add response headers.\<close>

definition send_with_headers :: "(string \<times> string) list \<Rightarrow> 'w sender \<Rightarrow> 'w sender" where
  "send_with_headers extra send m =
     (case m of ResponseStart status headers \<Rightarrow> send (ResponseStart status (headers @ extra)) | _ \<Rightarrow> send m)"

subsection \<open>Correlation, tenant, request context\<close>

fun resolve_correlation :: "scope \<Rightarrow> string list \<Rightarrow> string option" where
  "resolve_correlation sc [] = None"
| "resolve_correlation sc (h # hs) =
     (let v = header_of sc h
      in if v = [] then resolve_correlation sc hs
         else if h = ''traceparent'' \<and> CHR ''-'' \<in> set v
         then (let parts = split_on CHR ''-'' v in if length parts \<ge> 2 then Some (parts ! 1) else None)
         else Some v)"

definition CorrelationIdMiddleware ::
    "string \<Rightarrow> string list \<Rightarrow> ('w ambient \<Rightarrow> string) \<Rightarrow> 'w ambient app \<Rightarrow> 'w ambient app" where
  "CorrelationIdMiddleware header_name fallback_headers uuid4 app sc receive send w =
     (if sp_type sc \<notin> {''http'', ''websocket''} then app sc receive send w
      else let correlation_id = (case resolve_correlation sc (lower header_name # map lower fallback_headers) of
                                   None \<Rightarrow> uuid4 w | Some c \<Rightarrow> if c = [] then uuid4 w else c);
               w1 = put_request (Some (RequestContext_new correlation_id None None)) w
           in app sc receive (send_with_headers [(lower header_name, correlation_id)] send) w1)"

definition TenantMiddleware :: "string \<Rightarrow> bool \<Rightarrow> 'w ambient app \<Rightarrow> 'w ambient app" where
  "TenantMiddleware header_name require_tenant app sc receive send w =
     (if sp_type sc = ''http''
      then let tenant_raw = header_of sc (lower header_name)
           in if tenant_raw \<noteq> [] then app sc receive send (snd (TenantContext_set tenant_raw w))
              else if require_tenant
              then (let body = ''{\"detail\":\"X-Tenant-ID header is required\"}''
                    in send_response 400 (json_headers body) body send w)
              else app sc receive send w
      else app sc receive send w)"

definition RequestContextMiddleware ::
    "string \<Rightarrow> string \<Rightarrow> ('w ambient \<Rightarrow> string) \<Rightarrow> 'w ambient app \<Rightarrow> 'w ambient app" where
  "RequestContextMiddleware correlation_header tenant_header uuid4 app sc receive send w =
     (if sp_type sc = ''http''
      then let c = header_of sc (lower correlation_header); t = header_of sc (lower tenant_header);
               ctx = RequestContext_new (if c = [] then uuid4 w else c) (if t = [] then None else Some t) None
           in app sc receive send (put_request (Some ctx) w)
      else app sc receive send w)"

subsection \<open>Security\<close>

definition bearer_token :: "scope \<Rightarrow> string option" where
  "bearer_token sc =
     (let auth = header_of sc ''authorization''
      in if startswith (lower auth) ''bearer ''
         then (let token = strip (drop 7 auth) in if token = [] then None else Some token)
         else None)"

definition SecurityMiddleware ::
    "(string \<Rightarrow> ('w ambient, Principal option) act) option \<Rightarrow> bool \<Rightarrow> 'w ambient app \<Rightarrow> 'w ambient app" where
  "SecurityMiddleware verifier require_auth app sc receive send w =
     (if sp_type sc \<noteq> ''http'' then app sc receive send w
      else let verified = (case (verifier, bearer_token sc) of
                             (Some v, Some token) \<Rightarrow>
                               (case v token w of
                                  (Inl e, w') \<Rightarrow> (if catchable e then Inr None else Inl e, w')
                                | (Inr p, w') \<Rightarrow> (Inr p, w'))
                           | _ \<Rightarrow> (Inr None, w))
           in case verified of
                (Inl e, w') \<Rightarrow> (Inl e, w')
              | (Inr (Some p), w') \<Rightarrow> app sc receive send (snd (SecurityContext_set_current p w'))
              | (Inr None, w') \<Rightarrow>
                  if require_auth
                  then (let body = ''{\"code\": \"unauthorized\", \"message\": \"Missing or invalid credentials\"}''
                        in send_response 401 (json_headers body) body send w')
                  else app sc receive send w')"

definition DEFAULT_CSP :: string where
  "DEFAULT_CSP = ''default-src '' @ quoted ''self'' @ ''; script-src '' @ quoted ''self'' @ ''; style-src '' @ quoted ''self''
     @ ''; img-src '' @ quoted ''self'' @ '' data:; font-src '' @ quoted ''self'' @ ''; object-src '' @ quoted ''none''
     @ ''; frame-ancestors '' @ quoted ''none''"

text \<open>The six configured header values, in the order of the source; \<open>None\<close> disables one.\<close>

definition security_header_names :: "string list" where
  "security_header_names = [''content-security-policy'', ''strict-transport-security'', ''x-frame-options'',
     ''x-content-type-options'', ''referrer-policy'', ''permissions-policy'']"

definition default_security_values :: "string option list" where
  "default_security_values = [Some DEFAULT_CSP, Some ''max-age=63072000; includeSubDomains; preload'', Some ''DENY'',
     Some ''nosniff'', Some ''strict-origin-when-cross-origin'', Some ''geolocation=(), microphone=(), camera=()'']"

definition SecurityHeadersMiddleware :: "string option list \<Rightarrow> 'w app \<Rightarrow> 'w app" where
  "SecurityHeadersMiddleware values app sc receive send w =
     (if sp_type sc \<notin> {''http'', ''websocket''} then app sc receive send w
      else let extra = [(n, v). (n, Some v) \<leftarrow> zip security_header_names values]
           in app sc receive (send_with_headers extra send) w)"

subsection \<open>Metrics and rate limit\<close>

text \<open>Acts on the world, lifted to the world with a cell.\<close>

definition on_world :: "('w, 'a) act \<Rightarrow> ('w \<times> 'c, 'a) act" where
  "on_world f wc = (case f (fst wc) of (r, w) \<Rightarrow> (r, w, snd wc))"

record 'w http_metrics =
  hm_now :: "'w \<Rightarrow> rat"
  hm_requests :: "(string \<times> string) list \<Rightarrow> 'w \<Rightarrow> 'w"
  hm_latency :: "rat \<Rightarrow> (string \<times> string) list \<Rightarrow> 'w \<Rightarrow> 'w"
  hm_errors :: "(string \<times> string) list \<Rightarrow> 'w \<Rightarrow> 'w"

definition send_capturing :: "'w sender \<Rightarrow> ('w \<times> int) sender" where
  "send_capturing send m wc =
     on_world (send m) (case m of ResponseStart (Some s) _ \<Rightarrow> (fst wc, s) | ResponseStart None _ \<Rightarrow> (fst wc, 200) | _ \<Rightarrow> wc)"

definition MetricsMiddleware_record :: "'w http_metrics \<Rightarrow> scope \<Rightarrow> rat \<Rightarrow> int \<Rightarrow> 'w \<Rightarrow> 'w" where
  "MetricsMiddleware_record m sc start status w =
     (let labels = [(''method'', sp_method sc), (''path'', case sp_path sc of None \<Rightarrow> [] | Some p \<Rightarrow> p)];
          elapsed = (hm_now m w - start) * 1000;
          w1 = hm_requests m (labels @ [(''status'', show_int status)]) w;
          w2 = hm_latency m elapsed labels w1
      in if status \<ge> 500 then hm_errors m labels w2 else w2)"

definition HttpMetricsMiddleware :: "'w http_metrics \<Rightarrow> (scope \<Rightarrow> 'w recv \<Rightarrow> 'w sender \<Rightarrow> ('w, unit) act)
    \<Rightarrow> ('w \<times> int) app \<Rightarrow> 'w app" where
  "HttpMetricsMiddleware m plain app sc receive send w =
     (if sp_type sc \<noteq> ''http'' then plain sc receive send w
      else case app sc (on_world receive) (send_capturing send) (w, 200) of
             (r, w', status) \<Rightarrow> (r, MetricsMiddleware_record m sc (hm_now m w) status w'))"

definition default_identifier :: "scope \<Rightarrow> string" where
  "default_identifier sc = (case sp_client sc of None \<Rightarrow> ''unknown'' | Some c \<Rightarrow> c)"

text \<open>\<open>check\<close> returns whether the request is allowed and \<^verbatim>\<open>retry_after_seconds\<close>; \<^verbatim>\<open>int\<close> truncates.\<close>

definition RateLimitMiddleware ::
    "(string \<Rightarrow> ('w, bool \<times> rat) act) \<Rightarrow> (scope \<Rightarrow> string) \<Rightarrow> 'w app \<Rightarrow> 'w app" where
  "RateLimitMiddleware check identifier_fn app sc receive send w =
     (if sp_type sc \<noteq> ''http'' then app sc receive send w
      else case check (identifier_fn sc) w of
             (Inl e, w') \<Rightarrow> (Inl e, w')
           | (Inr (allowed, secs), w') \<Rightarrow>
               if allowed then app sc receive send w'
               else let retry_after = show_int ((if secs < 0 then ceiling secs else floor secs) + 1);
                        body = ''{\"code\": \"rate_limit_exceeded\", \"message\": \"Rate limit exceeded. Retry after ''
                                 @ retry_after @ ''s.\"}''
                    in send_response 429 (json_headers body @ [(''retry-after'', retry_after)]) body send w')"

subsection \<open>Signed webhooks\<close>

fun msg_body :: "msg \<Rightarrow> string" where
  "msg_body (Request b m) = b"
| "msg_body (ResponseBody b) = b"
| "msg_body _ = []"

fun msg_more :: "msg \<Rightarrow> bool" where
  "msg_more (Request b m) = m"
| "msg_more _ = False"

text \<open>The loop that buffers the request body; it may wait forever, which is \<open>None\<close>.\<close>

partial_function (option) buffer_body :: "'w recv \<Rightarrow> string \<Rightarrow> 'w \<Rightarrow> ((exn + string) \<times> 'w) option" where
  [code]: "buffer_body receive body w =
     (case receive w of
        (Inl e, w') \<Rightarrow> Some (Inl e, w')
      | (Inr m, w') \<Rightarrow> (if msg_more m then buffer_body receive (body @ msg_body m) w'
                         else Some (Inr (body @ msg_body m), w')))"

definition webhook_verify :: "(string \<Rightarrow> string) \<Rightarrow> string \<Rightarrow> string \<Rightarrow> bool" where
  "webhook_verify hmac_hex body signature =
     (if \<not> startswith signature ''sha256='' then False
      else ''sha256='' @ hmac_hex body = signature)"

text \<open>\<^verbatim>\<open>replay_receive\<close>: the cell is \<^verbatim>\<open>body_consumed\<close>.\<close>

definition replay_receive :: "string \<Rightarrow> 'w recv \<Rightarrow> ('w \<times> bool) recv" where
  "replay_receive body receive wc =
     (if \<not> snd wc then (Inr (Request body False), fst wc, True) else on_world receive wc)"

definition webhook_path :: "scope \<Rightarrow> string" where
  "webhook_path sc = (case sp_path sc of Some p \<Rightarrow> p | None \<Rightarrow> sp_raw_path sc)"

definition IncomingWebhookMiddleware ::
    "(string \<Rightarrow> string) \<Rightarrow> string \<Rightarrow> string \<Rightarrow> (scope \<Rightarrow> 'w recv \<Rightarrow> 'w sender \<Rightarrow> ('w, unit) act) \<Rightarrow> ('w \<times> bool) app
      \<Rightarrow> scope \<Rightarrow> 'w recv \<Rightarrow> 'w sender \<Rightarrow> 'w \<Rightarrow> ((exn + unit) \<times> 'w) option" where
  "IncomingWebhookMiddleware hmac_hex path_prefix header_name plain app sc receive send w =
     (if sp_type sc \<noteq> ''http'' \<or> \<not> startswith (webhook_path sc) path_prefix then Some (plain sc receive send w)
      else case buffer_body receive [] w of
             None \<Rightarrow> None
           | Some (Inl e, w') \<Rightarrow> Some (Inl e, w')
           | Some (Inr body, w') \<Rightarrow> Some
               (if \<not> webhook_verify hmac_hex body (header_of sc (lower header_name))
                then (let error_body = ''{\"detail\":\"Invalid or missing webhook signature\"}''
                      in send_response 401 (json_headers error_body) error_body send w')
                else case app sc (replay_receive body receive) (\<lambda>m. on_world (send m)) (w', False) of
                       (r, w'', _) \<Rightarrow> (r, w'')))"

subsection \<open>Error responses and readiness\<close>

definition FastAPI_error_map :: "(exc_class \<times> int) list" where
  "FastAPI_error_map =
     [(ValidationError, 400), (NotFoundError, 404), (ConflictError, 409), (UnauthorizedError, 401), (ForbiddenError, 403),
      (RateLimitError, 429), (AppTimeoutError, 504), (InfrastructureError, 503), (DomainError, 422)]"

definition error_response_body :: "(exn \<Rightarrow> string) \<Rightarrow> (exn \<Rightarrow> string) \<Rightarrow> 'w ambient \<Rightarrow> exn \<Rightarrow> (string, pyval) pydict" where
  "error_response_body exn_str repr_exn w e =
     (let body = (if isinstance e [BaseError] then to_dict repr_exn e
                  else [(''code'', PStr ''error''), (''message'', PStr (exn_str e))])
      in dict_set ''correlation_id'' (case amb_request w of None \<Rightarrow> PNone | Some c \<Rightarrow> PStr (rc_correlation_id c)) body)"

text \<open>The framework calls the handler registered for the first class of the exception's linearisation.\<close>

definition error_status :: "exn \<Rightarrow> int option" where
  "error_status e = first_some (map_of FastAPI_error_map) (mro (exn_class e))"

fun run_checks :: "(string \<times> ('w, bool) act) list \<Rightarrow> (string, bool) pydict \<Rightarrow> bool \<Rightarrow> ('w, (string, bool) pydict \<times> bool) act" where
  "run_checks [] results all_ok w = (Inr (results, all_ok), w)"
| "run_checks ((name, check) # checks) results all_ok w =
     (case check w of
        (Inl e, w') \<Rightarrow> if catchable e then run_checks checks (dict_set name False results) False w' else (Inl e, w')
      | (Inr ok, w') \<Rightarrow> run_checks checks (dict_set name ok results) (all_ok \<and> ok) w')"

definition readiness :: "(string \<times> ('w, bool) act) list \<Rightarrow> ('w, int \<times> string \<times> (string, bool) pydict) act" where
  "readiness checks w =
     (case run_checks checks [] True w of
        (Inl e, w') \<Rightarrow> (Inl e, w')
      | (Inr (results, all_ok), w') \<Rightarrow>
          (Inr (if all_ok then 200 else 503, if all_ok then ''ok'' else ''degraded'', results), w'))"

definition code_for_status :: "int \<Rightarrow> string" where
  "code_for_status status = (case map_of
     [(400, ''validation_error''), (401, ''unauthorized''), (403, ''forbidden''), (404, ''not_found''), (409, ''conflict''),
      (422, ''domain_error''), (429, ''rate_limit_exceeded''), (500, ''internal_error''), (503, ''service_unavailable''),
      (504, ''timeout'')] status of None \<Rightarrow> ''error'' | Some c \<Rightarrow> c)"

subsection \<open>Facts: buffering\<close>

text \<open>The \<open>n\<close>-th message a callable delivers, and whether the loop stops at it.\<close>

fun nth_recv :: "'w recv \<Rightarrow> nat \<Rightarrow> 'w \<Rightarrow> (exn + msg) \<times> 'w" where
  "nth_recv receive 0 w = receive w"
| "nth_recv receive (Suc n) w = nth_recv receive n (snd (receive w))"

definition final :: "exn + msg \<Rightarrow> bool" where
  "final r = (case r of Inl e \<Rightarrow> True | Inr m \<Rightarrow> \<not> msg_more m)"

definition bodies :: "'w recv \<Rightarrow> nat \<Rightarrow> 'w \<Rightarrow> string" where
  "bodies receive n w = concat (map (\<lambda>k. msg_body (projr (fst (nth_recv receive k w)))) [0..<n])"

lemma bodies_Suc: "bodies receive (Suc n) w = msg_body (projr (fst (receive w))) @ bodies receive n (snd (receive w))"
  unfolding bodies_def by (subst upt_conv_Cons) (simp_all add: map_Suc_upt[symmetric] comp_def del: upt_Suc)

lemma buffer_step:
  "receive w = (Inl e, w') \<Longrightarrow> buffer_body receive body w = Some (Inl e, w')"
  "receive w = (Inr m, w') \<Longrightarrow> msg_more m \<Longrightarrow> buffer_body receive body w = buffer_body receive (body @ msg_body m) w'"
  "receive w = (Inr m, w') \<Longrightarrow> \<not> msg_more m \<Longrightarrow> buffer_body receive body w = Some (Inr (body @ msg_body m), w')"
  by (subst buffer_body.simps; simp)+

lemma buffer_returns_final:
  assumes "buffer_body receive body w = Some y"
  shows "\<exists>n. final (fst (nth_recv receive n w))"
proof (rule buffer_body.raw_induct[of "\<lambda>receive body w y. \<exists>n. final (fst (nth_recv receive n w))", OF _ assms], goal_cases)
  case (1 rec receive body w y)
  obtain r w1 where r: "receive w = (r, w1)" by fastforce
  show ?case
  proof (cases "final r")
    case True then show ?thesis using r by (intro exI[of _ 0]) simp
  next
    case False
    then obtain m where m: "r = Inr m" "msg_more m" by (cases r) (auto simp: final_def)
    then have "rec receive (body @ msg_body m) w1 = Some y" using 1(2) r by simp
    from 1(1)[OF this] obtain n where "final (fst (nth_recv receive n w1))" ..
    then show ?thesis using r by (intro exI[of _ "Suc n"]) simp
  qed
qed

lemma buffer_at_final:
  assumes "final (fst (nth_recv receive n w))" "\<And>k. k < n \<Longrightarrow> \<not> final (fst (nth_recv receive k w))"
  shows "buffer_body receive body w = Some
    (case nth_recv receive n w of
       (Inl e, w') \<Rightarrow> (Inl e, w')
     | (Inr m, w') \<Rightarrow> (Inr (body @ bodies receive n w @ msg_body m), w'))"
  using assms
proof (induction n arbitrary: body w)
  case 0
  obtain r w1 where r: "receive w = (r, w1)" by fastforce
  show ?case using 0(1) r by (cases r) (auto simp: buffer_step final_def bodies_def)
next
  case (Suc n)
  obtain r w1 where r: "receive w = (r, w1)" by fastforce
  have "\<not> final r" using Suc.prems(2)[of 0] r by simp
  then obtain m where m: "r = Inr m" "msg_more m" by (cases r) (auto simp: final_def)
  have f: "final (fst (nth_recv receive n w1))" using Suc.prems(1) r by simp
  have nf: "\<not> final (fst (nth_recv receive k w1))" if "k < n" for k using Suc.prems(2)[of "Suc k"] that r by simp
  show ?case using Suc.IH[OF f nf, of "body @ msg_body m"] r m
    by (simp add: buffer_step(2) bodies_Suc split: prod.splits sum.splits)
qed

subsection \<open>Facts: the middlewares\<close>

text \<open>A response header set is added to every response start and to nothing else.\<close>

lemma send_with_headers_simps [simp]:
  "send_with_headers extra send (ResponseStart s hs) = send (ResponseStart s (hs @ extra))"
  "send_with_headers extra send (ResponseBody b) = send (ResponseBody b)"
  by (auto simp: send_with_headers_def)

lemma security_headers_disabled: "SecurityHeadersMiddleware (replicate 6 None) app sc receive send w = app sc receive send w"
proof -
  have "send_with_headers [] send = send" by (auto simp: send_with_headers_def fun_eq_iff split: msg.split)
  then show ?thesis by (simp add: SecurityHeadersMiddleware_def security_header_names_def eval_nat_numeral)
qed

text \<open>With a required tenant the application only ever runs with a tenant in context.\<close>

lemma tenant_required:
  assumes "sp_type sc = ''http''" "header_of sc (lower h) = []"
  shows "TenantMiddleware h True app sc receive send w = TenantMiddleware h True app' sc receive send w"
  using assms by (simp add: TenantMiddleware_def)

lemma tenant_in_context:
  assumes "sp_type sc = ''http''" "header_of sc (lower h) = t" "t \<noteq> []"
  shows "TenantMiddleware h req app sc receive send w = app sc receive send (put_tenant (Some t) w)"
  using assms by (simp add: TenantMiddleware_def TenantContext_set_def)

text \<open>With required authentication the application runs only for a token the verifier turned into a principal, and
  with that principal in context.\<close>

lemma security_required:
  assumes "sp_type sc = ''http''"
  shows "(\<exists>v token p w'. verifier = Some v \<and> bearer_token sc = Some token \<and> v token w = (Inr (Some p), w')
           \<and> SecurityMiddleware verifier True app sc receive send w = app sc receive send (put_principal (Some p) w'))
    \<or> (\<forall>app'. SecurityMiddleware verifier True app sc receive send w = SecurityMiddleware verifier True app' sc receive send w)"
proof (cases verifier)
  case (Some v)
  show ?thesis
  proof (cases "bearer_token sc")
    case (Some token)
    obtain r w' where r: "v token w = (r, w')" by fastforce
    show ?thesis
    proof (cases "\<exists>p. r = Inr (Some p)")
      case True
      then show ?thesis using \<open>verifier = Some v\<close> Some r assms
        by (auto simp: SecurityMiddleware_def SecurityContext_set_current_def)
    next
      case False
      then have "\<exists>x. r = Inl x \<or> r = Inr None" by (cases r) auto
      then show ?thesis using \<open>verifier = Some v\<close> Some r assms by (auto simp: SecurityMiddleware_def)
    qed
  qed (use assms in \<open>simp add: SecurityMiddleware_def split: option.splits\<close>)
qed (use assms in \<open>simp add: SecurityMiddleware_def\<close>)

text \<open>Each request is counted exactly once, with the status sent last, whether or not the application raises.\<close>

lemma metrics_always_recorded:
  assumes "sp_type sc = ''http''" "app sc (on_world receive) (send_capturing send) (w, 200) = (r, w', status)"
  shows "HttpMetricsMiddleware m plain app sc receive send w = (r, MetricsMiddleware_record m sc (hm_now m w) status w')"
  using assms by (simp add: HttpMetricsMiddleware_def)

text \<open>The documented status codes, for the classes themselves and for their subclasses.\<close>

lemma error_status_table:
  "error_status (plain_exn ValidationError m) = Some 400" "error_status (plain_exn NotFoundError m) = Some 404"
  "error_status (plain_exn ConflictError m) = Some 409" "error_status (plain_exn UnauthorizedError m) = Some 401"
  "error_status (plain_exn ForbiddenError m) = Some 403" "error_status (plain_exn RateLimitError m) = Some 429"
  "error_status (plain_exn AppTimeoutError m) = Some 504" "error_status (plain_exn ExternalServiceError m) = Some 503"
  "error_status (plain_exn InvariantViolationError m) = Some 422" "error_status (plain_exn BulkheadFullError m) = None"
  by (simp_all add: error_status_def plain_exn_def mro_def FastAPI_error_map_def eval_nat_numeral)

text \<open>Readiness is 200 exactly when every check returns true without raising, also when names repeat.\<close>

definition steady_checks :: "(string \<times> (exn + bool)) list \<Rightarrow> (string \<times> ('w, bool) act) list" where
  "steady_checks rs = map (\<lambda>(name, r). (name, \<lambda>w. (r, w))) rs"

lemma run_steady_checks:
  assumes "\<forall>x \<in> set rs. \<forall>e. snd x = Inl e \<longrightarrow> catchable e"
  shows "\<exists>results'. run_checks (steady_checks rs) results a w = (Inr (results', a \<and> list_all (\<lambda>x. snd x = Inr True) rs), w)"
  using assms
proof (induction rs arbitrary: results a)
  case (Cons x rs)
  obtain name r where x: "x = (name, r)" by fastforce
  note IH = Cons.IH[of "dict_set name (r = Inr True) results" "a \<and> r = Inr True"]
  show ?case using IH Cons.prems x by (cases r) (auto simp: steady_checks_def conj_assoc)
qed (simp add: steady_checks_def)

lemma readiness_iff:
  assumes "\<forall>x \<in> set rs. \<forall>e. snd x = Inl e \<longrightarrow> catchable e"
  shows "\<exists>st results. readiness (steady_checks rs) w
    = (Inr (if list_all (\<lambda>x. snd x = Inr True) rs then 200 else 503, st, results), w)"
  using run_steady_checks[OF assms, of "[]" True w] by (auto simp: readiness_def)

subsection \<open>Properties\<close>

text \<open>C25. The loop that buffers a webhook's body returns exactly when the server eventually delivers a message without
  \<^verbatim>\<open>more_body\<close> or fails; and if the \<open>n\<close>-th message is the first such one, it has consumed exactly the messages up to it
  and returns the concatenation of their bodies.\<close>

theorem webhook_body_loop_terminates:
  "(buffer_body receive [] w \<noteq> None \<longleftrightarrow> (\<exists>n. final (fst (nth_recv receive n w))))
   \<and> (final (fst (nth_recv receive n w)) \<and> (\<forall>k < n. \<not> final (fst (nth_recv receive k w))) \<longrightarrow>
        buffer_body receive [] w = Some
          (case nth_recv receive n w of
             (Inl e, w') \<Rightarrow> (Inl e, w')
           | (Inr m, w') \<Rightarrow> (Inr (bodies receive n w @ msg_body m), w')))"
proof (intro conjI)
  have "buffer_body receive [] w \<noteq> None" if "\<exists>n. final (fst (nth_recv receive n w))"
  proof -
    let ?n = "LEAST n. final (fst (nth_recv receive n w))"
    have "final (fst (nth_recv receive ?n w))" using that by (rule LeastI_ex)
    moreover have "\<not> final (fst (nth_recv receive k w))" if "k < ?n" for k using that by (rule not_less_Least)
    ultimately show ?thesis using buffer_at_final[of receive ?n w "[]"] by simp
  qed
  moreover have "\<exists>n. final (fst (nth_recv receive n w))" if "buffer_body receive [] w \<noteq> None"
    using that buffer_returns_final[of receive "[]" w] by auto
  ultimately show "buffer_body receive [] w \<noteq> None \<longleftrightarrow> (\<exists>n. final (fst (nth_recv receive n w)))" by blast
  show "final (fst (nth_recv receive n w)) \<and> (\<forall>k < n. \<not> final (fst (nth_recv receive k w))) \<longrightarrow>
        buffer_body receive [] w = Some (case nth_recv receive n w of (Inl e, w') \<Rightarrow> (Inl e, w')
           | (Inr m, w') \<Rightarrow> (Inr (bodies receive n w @ msg_body m), w'))"
    using buffer_at_final[of receive n w "[]", unfolded append_Nil] by blast
qed

definition demo_recv :: "msg list recv" where
  "demo_recv ms = (case ms of [] \<Rightarrow> (Inr (OtherMessage ''http.disconnect''), []) | m # ms' \<Rightarrow> (Inr m, ms'))"

theorem webhook_body_loop_terminates_witness:
  "buffer_body demo_recv [] [Request ''ab'' True, Request ''c'' False] = Some (Inr ''abc'', [])"
proof -
  let ?w = "[Request ''ab'' True, Request ''c'' False]"
  have "final (fst (nth_recv demo_recv 1 ?w)) \<and> (\<forall>k < 1. \<not> final (fst (nth_recv demo_recv k ?w)))"
    by (simp add: demo_recv_def final_def)
  with webhook_body_loop_terminates[of demo_recv ?w 1] show ?thesis
    by (simp add: demo_recv_def bodies_def)
qed


definition demo_scope :: scope where
  "demo_scope = \<lparr>sp_type = ''http'', sp_headers = [(''x-hub-signature-256'', ''sha256=cba'')], sp_path = Some ''/webhooks/x'',
     sp_raw_path = [], sp_method = ''POST'', sp_client = None\<rparr>"


end
