(* ===== verification/Connections.thy ===== *)
theory Connections
  imports Asgi Value_Objects
begin

text \<open>
  Relay-style cursors and connections (\<^verbatim>\<open>adapters/graphql/pagination.py\<close>) and the WebSocket hub with its groups
  and middleware (\<^verbatim>\<open>adapters/websocket/hub.py\<close>). \<^verbatim>\<open>base64.urlsafe_b64decode\<close> is modelled as the standard library
  implements it, lenient about foreign characters.
\<close>

subsection \<open>Decoding base64\<close>

definition sextet_of :: "char \<Rightarrow> nat option" where
  "sextet_of c =
     (if c = CHR ''+'' then Some 62 else if c = CHR ''/'' then Some 63
      else if b64_val c < 64 then Some (b64_val c) else None)"

definition binascii_error :: "string \<Rightarrow> exn" where
  "binascii_error m = plain_exn (UserError ''Error'' ValueError) m"

definition emit :: "nat \<Rightarrow> exn + bytes \<Rightarrow> exn + bytes" where
  "emit b r = map_sum id (\<lambda>bs. word_of_nat b # bs) r"

text \<open>\<^verbatim>\<open>binascii.a2b_base64\<close>: position in the group of four, bits left over, padding seen.\<close>

fun a2b_base64 :: "nat \<Rightarrow> nat \<Rightarrow> nat \<Rightarrow> string \<Rightarrow> exn + bytes" where
  "a2b_base64 quad left pads [] =
     (if quad = 0 then Inr []
      else if quad = 1 then Inl (binascii_error ''Invalid base64-encoded string'')
      else Inl (binascii_error ''Incorrect padding''))"
| "a2b_base64 quad left pads (c # s) =
     (if c = pad_char
      then if quad \<ge> 2 \<and> quad + pads + 1 \<ge> 4 then Inr []
           else a2b_base64 quad left (if quad \<ge> 2 then pads + 1 else pads) s
      else case sextet_of c of
             None \<Rightarrow> a2b_base64 quad left pads s
           | Some v \<Rightarrow>
               if quad = 0 then a2b_base64 1 v 0 s
               else if quad = 1 then emit (left * 4 + v div 16) (a2b_base64 2 (v mod 16) 0 s)
               else if quad = 2 then emit (left * 16 + v div 4) (a2b_base64 3 (v mod 4) 0 s)
               else emit (left * 64 + v) (a2b_base64 0 0 0 s))"

definition urlsafe_b64decode :: "string \<Rightarrow> exn + bytes" where
  "urlsafe_b64decode s = a2b_base64 0 0 0 s"

lemma sextet_of_char [simp]: "n < 64 \<Longrightarrow> sextet_of (b64_char n) = Some n"
proof -
  assume n: "n < 64"
  then have "is_b64 (b64_char n)" by simp
  then have "b64_char n \<noteq> CHR ''+''" "b64_char n \<noteq> CHR ''/''"
    by (auto simp: is_b64_def is_alnum_def is_alpha_def is_upper_def is_lower_def is_digit_def)
  then show ?thesis using n by (simp add: sextet_of_def)
qed

lemma b64_char_not_pad [simp]: "n < 64 \<Longrightarrow> b64_char n \<noteq> pad_char"
  using b64_char_is_b64[of n]
  by (auto simp: pad_char_def is_b64_def is_alnum_def is_alpha_def is_upper_def is_lower_def is_digit_def)

lemma div_block: "r < k \<Longrightarrow> (a * k + r) div k = (a::nat)"
  by simp

lemma mod_block: "r < k \<Longrightarrow> (a * k + r) mod k = (r::nat)"
  by simp

text \<open>The sextets of a group, regrouped into bytes.\<close>

lemma regroup:
  fixes p q r s :: nat
  assumes "q < 64" "r < 64" "s < 64" "n = p * 262144 + q * 4096 + r * 64 + s"
  shows "p * 4 + q div 16 = n div 65536" "q mod 16 * 16 + r div 4 = n div 256 mod 256" "r mod 4 * 64 + s = n mod 256"
proof -
  define qd qm rd rm where d: "qd = q div 16" "qm = q mod 16" "rd = r div 4" "rm = r mod 4"
  have q: "q = qd * 16 + qm" and r: "r = rd * 4 + rm" by (simp_all add: d)
  have b: "qm < 16" "qd < 4" "rm < 4" "rd < 16" using assms(1,2) by (auto simp: d)
  have "n = (p * 4 + qd) * 65536 + ((qm * 16 + rd) * 256 + (rm * 64 + s))"
    unfolding assms(4) q r by (simp add: algebra_simps)
  moreover have "(qm * 16 + rd) * 256 + (rm * 64 + s) < 65536"
  proof -
    have "qm * 16 + rd \<le> 255" "rm * 64 + s \<le> 255" using b assms(3) by simp_all
    then show ?thesis by simp
  qed
  ultimately show "p * 4 + q div 16 = n div 65536" unfolding d(1)[symmetric] by (metis div_block)
  have n2: "n = ((p * 4 + qd) * 256 + (qm * 16 + rd)) * 256 + (rm * 64 + s)"
    unfolding assms(4) q r by (simp add: algebra_simps)
  have b1: "rm * 64 + s < 256" and b2: "qm * 16 + rd < 256" using b assms(3) by simp_all
  show "r mod 4 * 64 + s = n mod 256" unfolding d(4)[symmetric] using n2 b1 by (metis mod_block)
  have "n div 256 = (p * 4 + qd) * 256 + (qm * 16 + rd)" using n2 b1 by (metis div_block)
  then show "q mod 16 * 16 + r div 4 = n div 256 mod 256" unfolding d(2,3)[symmetric] using b2 by (metis mod_block)
qed

lemma regroup_group24:
  "group24 a b c div 262144 * 4 + group24 a b c div 4096 mod 64 div 16 = unat a"
  "group24 a b c div 4096 mod 64 mod 16 * 16 + group24 a b c div 64 mod 64 div 4 = unat b"
  "group24 a b c div 64 mod 64 mod 4 * 64 + group24 a b c mod 64 = unat c"
proof -
  note b = sextet_bounds(2-4)[OF group24_bound[of a b c]]
  note r = regroup[OF b sextets_sum[of "group24 a b c", symmetric]]
  show "group24 a b c div 262144 * 4 + group24 a b c div 4096 mod 64 div 16 = unat a"
    using r(1) group24_parts(1) by (rule trans)
  show "group24 a b c div 4096 mod 64 mod 16 * 16 + group24 a b c div 64 mod 64 div 4 = unat b"
    using r(2) group24_parts(2) by (rule trans)
  show "group24 a b c div 64 mod 64 mod 4 * 64 + group24 a b c mod 64 = unat c"
    using r(3) group24_parts(3) by (rule trans)
qed

lemma word_of_nat_unat_id: "word_of_nat (unat (a :: 8 word)) = a"
  by simp

lemma a2b_four:
  "p < 64 \<Longrightarrow> q < 64 \<Longrightarrow> r < 64 \<Longrightarrow> s < 64 \<Longrightarrow> a2b_base64 0 0 0 (map b64_char [p, q, r, s] @ t)
     = emit (p * 4 + q div 16) (emit (q mod 16 * 16 + r div 4) (emit (r mod 4 * 64 + s) (a2b_base64 0 0 0 t)))"
  by simp

lemma a2b_three:
  "p < 64 \<Longrightarrow> q < 64 \<Longrightarrow> r < 64 \<Longrightarrow> a2b_base64 0 0 0 (map b64_char [p, q, r] @ [pad_char])
     = Inr [word_of_nat (p * 4 + q div 16), word_of_nat (q mod 16 * 16 + r div 4)]"
  by (simp add: emit_def)

lemma a2b_two:
  "p < 64 \<Longrightarrow> q < 64 \<Longrightarrow> a2b_base64 0 0 0 (map b64_char [p, q] @ [pad_char, pad_char]) = Inr [word_of_nat (p * 4 + q div 16)]"
  by (simp add: emit_def)

lemma a2b_round_trip: "a2b_base64 0 0 0 (b64_unpadded bs @ replicate ((3 - length bs mod 3) mod 3) pad_char) = Inr bs"
proof (induction bs rule: b64_unpadded.induct)
  case (2 a)
  have "b64_unpadded [a] = map b64_char [group24 a 0 0 div 262144, group24 a 0 0 div 4096 mod 64]"
      "replicate ((3 - length [a] mod 3) mod 3) pad_char = [pad_char, pad_char]"
    by (simp_all add: sextets_def numeral_2_eq_2)
  then show ?case
    by (simp only: a2b_two[OF sextet_bounds(1,2)[OF group24_bound]] regroup_group24 word_of_nat_unat_id)
next
  case (3 a b)
  have "b64_unpadded [a, b] = map b64_char [group24 a b 0 div 262144, group24 a b 0 div 4096 mod 64, group24 a b 0 div 64 mod 64]"
    by (simp add: sextets_def)
  moreover have "replicate ((3 - length [a, b] mod 3) mod 3) pad_char = [pad_char]" by simp
  ultimately show ?case
    by (simp only: a2b_three[OF sextet_bounds(1-3)[OF group24_bound]] regroup_group24 word_of_nat_unat_id)
next
  case (4 a b c bs)
  have "replicate ((3 - length (a # b # c # bs) mod 3) mod 3) pad_char = replicate ((3 - length bs mod 3) mod 3) pad_char"
    by simp
  moreover have "b64_unpadded (a # b # c # bs) = map b64_char [group24 a b c div 262144, group24 a b c div 4096 mod 64,
      group24 a b c div 64 mod 64, group24 a b c mod 64] @ b64_unpadded bs" by (simp add: sextets_def)
  ultimately show ?case
    by (simp only: append_assoc a2b_four[OF sextet_bounds[OF group24_bound]] regroup_group24 4 emit_def word_of_nat_unat_id
        map_sum.simps id_apply)
qed simp

lemma urlsafe_round_trip [simp]: "urlsafe_b64decode (urlsafe_b64encode bs) = Inr bs"
  by (simp add: urlsafe_b64decode_def urlsafe_b64encode_def a2b_round_trip)

subsection \<open>Cursors and connections\<close>

definition ascii_bytes :: "string \<Rightarrow> bytes" where
  "ascii_bytes s = map (\<lambda>c. word_of_nat (ord_of c)) s"

text \<open>\<^verbatim>\<open>bytes.decode()\<close> for ASCII texts; bytes from 128 on are refused.\<close>

definition bytes_text :: "bytes \<Rightarrow> exn + string" where
  "bytes_text bs = (if list_all (\<lambda>b. unat b < 128) bs then Inr (map (\<lambda>b. char_of (unat b)) bs)
                    else Inl (plain_exn (UserError ''UnicodeDecodeError'' ValueError) ''invalid start byte''))"

definition encode_cursor :: "int \<Rightarrow> string" where
  "encode_cursor off = urlsafe_b64encode (ascii_bytes (''cursor:'' @ show_int off))"

definition decode_cursor :: "string \<Rightarrow> exn + int" where
  "decode_cursor cursor =
     (let invalid = plain_exn ValueError (''Invalid cursor: '' @ repr_str cursor)
      in case urlsafe_b64decode cursor of
           Inl e \<Rightarrow> Inl invalid
         | Inr bs \<Rightarrow>
             (case bytes_text bs of
                Inl e \<Rightarrow> Inl invalid
              | Inr raw \<Rightarrow>
                  if \<not> startswith raw ''cursor:'' then Inl invalid
                  else (case py_int (drop 7 raw) of None \<Rightarrow> Inl invalid | Some n \<Rightarrow> Inr n)))"

record PageInfo =
  pi_has_next_page :: bool
  pi_has_previous_page :: bool
  pi_start_cursor :: "string option"
  pi_end_cursor :: "string option"

record 'a CursorConnection =
  cc_edges :: "('a \<times> string) list"
  cc_page_info :: PageInfo
  cc_total_count :: int

definition CursorConnection_from_list :: "'a list \<Rightarrow> int \<Rightarrow> int \<Rightarrow> 'a CursorConnection" where
  "CursorConnection_from_list items total_count off =
     (let edges = map (\<lambda>(i, node). (node, encode_cursor (off + int i))) (enumerate 0 items);
          start_cursor = (if edges = [] then None else Some (snd (hd edges)));
          end_cursor = (if edges = [] then None else Some (snd (last edges)))
      in \<lparr>cc_edges = edges,
          cc_page_info = \<lparr>pi_has_next_page = off + int (length items) < total_count, pi_has_previous_page = off > 0,
                          pi_start_cursor = start_cursor, pi_end_cursor = end_cursor\<rparr>,
          cc_total_count = total_count\<rparr>)"

definition graphql_error_handler :: "(exn \<Rightarrow> string) \<Rightarrow> exn \<Rightarrow> string \<times> (string, pyval) pydict" where
  "graphql_error_handler exn_str e =
     (if isinstance e [NotFoundError] then (exn_str e, [(''code'', PStr ''NOT_FOUND'')])
      else if isinstance e [ConflictError] then (exn_str e, [(''code'', PStr ''CONFLICT'')])
      else if isinstance e [ValidationError]
      then (exn_str e, [(''code'', PStr ''VALIDATION_ERROR'')]
              @ (case map_of (exn_attrs e) ''fields'' of None \<Rightarrow> [] | Some v \<Rightarrow> [(''fields'', v)]))
      else (exn_str e, [(''code'', PStr ''INTERNAL_ERROR'')]))"

subsection \<open>The WebSocket hub\<close>

text \<open>A connection is its identifier; \<open>send\<close> acts on the world. Groups are sets of identifiers.\<close>

type_synonym ConnectionHub = "(string, string) pydict"

definition hub_register :: "string \<Rightarrow> ConnectionHub \<Rightarrow> ConnectionHub" where
  "hub_register conn h = dict_set conn conn h"

definition hub_unregister :: "string \<Rightarrow> ConnectionHub \<Rightarrow> ConnectionHub" where
  "hub_unregister conn h = dict_pop conn h"

text \<open>\<^verbatim>\<open>gather(..., return_exceptions=True)\<close>: every send runs, outcomes are collected.\<close>

fun gather_sends :: "(string \<Rightarrow> string \<Rightarrow> ('w, unit) act) \<Rightarrow> string \<Rightarrow> string list \<Rightarrow> 'w \<Rightarrow> 'w" where
  "gather_sends send data [] w = w"
| "gather_sends send data (c # cs) w = gather_sends send data cs (snd (send c data w))"

definition hub_broadcast :: "(string \<Rightarrow> string \<Rightarrow> ('w, unit) act) \<Rightarrow> string \<Rightarrow> ConnectionHub \<Rightarrow> 'w \<Rightarrow> 'w" where
  "hub_broadcast send data h w = gather_sends send data (map snd h) w"

definition hub_send_to :: "(string \<Rightarrow> string \<Rightarrow> ('w, unit) act) \<Rightarrow> string \<Rightarrow> string \<Rightarrow> ConnectionHub \<Rightarrow> ('w, unit) act" where
  "hub_send_to send conn_id data h w = (case map_of h conn_id of None \<Rightarrow> (Inr (), w) | Some c \<Rightarrow> send c data w)"

text \<open>\<open>order\<close> is the order in which the interpreter iterates over a set.\<close>

definition hub_group_broadcast ::
    "(string set \<Rightarrow> string list) \<Rightarrow> (string \<Rightarrow> string \<Rightarrow> ('w, unit) act) \<Rightarrow> (string, string set) pydict \<Rightarrow> string \<Rightarrow> string
      \<Rightarrow> ConnectionHub \<Rightarrow> 'w \<Rightarrow> 'w" where
  "hub_group_broadcast order send groups group_id data h w =
     gather_sends send data (filter (\<lambda>c. map_of h c \<noteq> None) (order (dict_get_or groups group_id {}))) w"

definition group_join :: "string \<Rightarrow> string \<Rightarrow> (string, string set) pydict \<Rightarrow> (string, string set) pydict" where
  "group_join conn_id group_id g = dict_set group_id (insert conn_id (dict_get_or g group_id {})) g"

definition group_leave :: "string \<Rightarrow> string \<Rightarrow> (string, string set) pydict \<Rightarrow> (string, string set) pydict" where
  "group_leave conn_id group_id g =
     (case map_of g group_id of None \<Rightarrow> g | Some s \<Rightarrow> dict_set group_id (s - {conn_id}) g)"

definition group_members :: "string \<Rightarrow> (string, string set) pydict \<Rightarrow> string set" where
  "group_members group_id g = dict_get_or g group_id {}"

definition groups_for :: "string \<Rightarrow> (string, string set) pydict \<Rightarrow> string set" where
  "groups_for conn_id g = set (map fst (filter (\<lambda>(gid, s). conn_id \<in> s) g))"

text \<open>\<^verbatim>\<open>CorrelationContext.set\<close> returns \<^verbatim>\<open>None\<close>, so \<^verbatim>\<open>token\<close> is never set and the reset of the \<^verbatim>\<open>finally\<close> block never runs.\<close>

definition WebSocketMiddleware :: "'w ambient app \<Rightarrow> 'w ambient app" where
  "WebSocketMiddleware app sc receive send w =
     (if sp_type sc \<noteq> ''websocket'' then app sc receive send w
      else let correlation_id_raw = (case map_of (rev (sp_headers sc)) ''x-correlation-id'' of None \<Rightarrow> [] | Some v \<Rightarrow> v);
               w1 = (if correlation_id_raw \<noteq> [] then put_request (Some (RequestContext_new correlation_id_raw None None)) w else w);
               token = None
           in case app sc receive send w1 of
                (r, w') \<Rightarrow> (r, case token of None \<Rightarrow> w' | Some t \<Rightarrow> put_request t w'))"

subsection \<open>Facts\<close>

lemma ascii_char_round: "ord_of c < 128 \<Longrightarrow> char_of (unat (word_of_nat (ord_of c) :: 8 word)) = c"
  by (simp add: unat_of_nat take_bit_eq_mod)

lemma bytes_text_ascii: "\<forall>c \<in> set s. ord_of c < 128 \<Longrightarrow> bytes_text (ascii_bytes s) = Inr s"
  by (induction s) (auto simp: bytes_text_def ascii_bytes_def ascii_char_round unat_of_nat take_bit_eq_mod split: if_splits)

lemma show_int_ascii: "\<forall>c \<in> set (show_int n). ord_of c < 128"
  by (auto dest!: show_int_chars simp: is_digit_def)

lemma cursor_round_trip [simp]: "decode_cursor (encode_cursor n) = Inr n"
proof -
  have "\<forall>c \<in> set (''cursor:'' @ show_int n). ord_of c < 128" using show_int_ascii[of n] by auto
  then have "bytes_text (ascii_bytes (''cursor:'' @ show_int n)) = Inr (''cursor:'' @ show_int n)" by (rule bytes_text_ascii)
  then show ?thesis by (simp add: decode_cursor_def encode_cursor_def startswith_def Let_def)
qed

lemma edge_cursors_decode:
  assumes "k < length items"
  shows "fst (cc_edges (CursorConnection_from_list items n off) ! k) = items ! k
    \<and> decode_cursor (snd (cc_edges (CursorConnection_from_list items n off) ! k)) = Inr (off + int k)"
  using assms by (simp add: CursorConnection_from_list_def Let_def nth_enumerate_eq)

text \<open>Continuing after the end cursor: the next page begins where this one ended, and \<^verbatim>\<open>has_next_page\<close> says whether
  anything is left.\<close>

lemma connection_next_offset:
  assumes "items \<noteq> []"
  shows "\<exists>c. pi_end_cursor (cc_page_info (CursorConnection_from_list items n off)) = Some c
    \<and> decode_cursor c = Inr (off + int (length items) - 1)"
proof -
  have ne: "enumerate 0 items \<noteq> []" using assms by (metis length_0_conv length_enumerate)
  then have "last (enumerate 0 items) = (length items - 1, last items)"
    using assms by (simp add: last_conv_nth nth_enumerate_eq)
  moreover have "int (length items - 1) = int (length items) - 1" using assms by (cases items) auto
  ultimately show ?thesis using ne by (simp add: CursorConnection_from_list_def Let_def last_map algebra_simps)
qed

text \<open>A broadcast calls every registered connection once, whatever the others do.\<close>

lemma gather_sends_all:
  "gather_sends (\<lambda>c d w. (r c, w @ [c])) data cs w = w @ cs"
  by (induction cs arbitrary: w) auto

lemma broadcast_reaches_all: "hub_broadcast (\<lambda>c d w. (r c, w @ [c])) data h [] = map snd h"
  by (simp add: hub_broadcast_def gather_sends_all)

lemma group_broadcast_members:
  assumes "\<And>s. set (order s) = s"
  shows "set (hub_group_broadcast order (\<lambda>c d w. (r c, w @ [c])) g gid data h []) = group_members gid g \<inter> dom (map_of h)"
  using assms by (auto simp: hub_group_broadcast_def gather_sends_all group_members_def)

lemma group_membership:
  "group_members gid (group_join c gid g) = insert c (group_members gid g)"
  "group_members gid (group_leave c gid g) = group_members gid g - {c}"
  "gid' \<noteq> gid \<Longrightarrow> group_members gid' (group_join c gid g) = group_members gid' g"
  by (auto simp: group_members_def group_join_def group_leave_def dict_get_or_def split: option.splits)

lemma groups_for_iff: "dict_ok g \<Longrightarrow> gid \<in> groups_for c g \<longleftrightarrow> c \<in> group_members gid g"
  by (force simp: groups_for_def group_members_def dict_get_or_def dict_ok_def image_iff dest: eq_key_imp_eq_value
      split: option.splits)

text \<open>The correlation of one connection stays in the context after it.\<close>

lemma websocket_correlation_leaks:
  assumes "sp_type sc = ''websocket''" "map_of (rev (sp_headers sc)) ''x-correlation-id'' = Some v" "v \<noteq> []"
    and "\<And>w. app sc receive send w = (Inr (), w)"
  shows "amb_request (snd (WebSocketMiddleware app sc receive send w)) = Some (RequestContext_new v None None)"
  using assms by (simp add: WebSocketMiddleware_def Let_def)

end
