(* ===== verification/Monitoring.thy ===== *)
theory Monitoring
  imports Contexts Credentials
begin

text \<open>
  Observability: error budgets (\<^verbatim>\<open>slo\<close>), sampled and queued logging (\<^verbatim>\<open>logging\<close>), health checks (\<^verbatim>\<open>health\<close>),
  structured events (\<^verbatim>\<open>events\<close>). Clocks, ISO dates, delegates and \<^verbatim>\<open>str(exc)\<close> are parameters; floats are
  rationals.
\<close>

subsection \<open>Error budgets\<close>

record SLODefinition =
  slo_name :: string
  slo_target :: rat
  slo_window_days :: int
  slo_metric_name :: string

record ErrorBudget =
  eb_slo :: SLODefinition
  eb_total_requests :: int
  eb_error_count :: int

definition allowed_errors :: "ErrorBudget \<Rightarrow> rat" where
  "allowed_errors b = of_int (eb_total_requests b) * (1 - slo_target (eb_slo b))"

definition remaining_budget :: "ErrorBudget \<Rightarrow> rat" where
  "remaining_budget b =
     (let allowed = allowed_errors b
      in if allowed \<le> 0 then 0 else max 0 (allowed - of_int (eb_error_count b)) / allowed)"

text \<open>A rate, or the float infinity.\<close>

datatype rate = Rate rat | Infinite

definition burn_rate :: "ErrorBudget \<Rightarrow> rat \<Rightarrow> rate" where
  "burn_rate b window_hours =
     (if eb_total_requests b = 0 \<or> window_hours \<le> 0 then Rate 0
      else let error_rate = of_int (eb_error_count b) / of_int (eb_total_requests b);
               ideal_error_rate = 1 - slo_target (eb_slo b)
           in if ideal_error_rate = 0 then Infinite else Rate (error_rate / ideal_error_rate))"

definition is_exhausted :: "ErrorBudget \<Rightarrow> bool" where
  "is_exhausted b \<longleftrightarrow> of_int (eb_error_count b) \<ge> allowed_errors b"

record SLOTracker =
  st_totals :: "(string, int) pydict"
  st_errors :: "(string, int) pydict"
  st_events :: "(string \<times> rate \<times> rat) list"

definition record_request :: "string \<Rightarrow> bool \<Rightarrow> SLOTracker \<Rightarrow> SLOTracker" where
  "record_request metric_name success t =
     (let t1 = t\<lparr>st_totals := dict_set metric_name (dict_get_or (st_totals t) metric_name 0 + 1) (st_totals t)\<rparr>
      in if success then t1
         else t1\<lparr>st_errors := dict_set metric_name (dict_get_or (st_errors t) metric_name 0 + 1) (st_errors t)\<rparr>)"

definition get_budget :: "SLODefinition \<Rightarrow> SLOTracker \<Rightarrow> ErrorBudget" where
  "get_budget slo t =
     \<lparr>eb_slo = slo, eb_total_requests = dict_get_or (st_totals t) (slo_metric_name slo) 0,
      eb_error_count = dict_get_or (st_errors t) (slo_metric_name slo) 0\<rparr>"

fun rate_reaches :: "rate \<Rightarrow> rat \<Rightarrow> bool" where
  "rate_reaches Infinite t = True"
| "rate_reaches (Rate r) t = (r \<ge> t)"

definition BurnRateAlert_check ::
    "rat \<Rightarrow> ((string \<times> rate \<times> rat) \<Rightarrow> ('w, unit) act) option \<Rightarrow> SLODefinition \<Rightarrow> SLOTracker \<Rightarrow> 'w
      \<Rightarrow> (exn + bool) \<times> SLOTracker \<times> 'w" where
  "BurnRateAlert_check threshold on_alert slo t w =
     (let r = burn_rate (get_budget slo t) 1
      in if rate_reaches r threshold
         then let evt = (slo_name slo, r, threshold); t' = t\<lparr>st_events := st_events t @ [evt]\<rparr>
              in case on_alert of
                   None \<Rightarrow> (Inr True, t', w)
                 | Some cb \<Rightarrow> (case cb evt w of (Inl e, w') \<Rightarrow> (Inl e, t', w') | (Inr _, w') \<Rightarrow> (Inr True, t', w'))
         else (Inr False, t, w))"

subsection \<open>Sampled logging\<close>

record SampledLogger =
  sl_rates :: "(string, int) pydict"
  sl_default_rate :: int
  sl_counters :: "(string, int) pydict"

definition SampledLogger_init :: "(string, int) pydict \<Rightarrow> int \<Rightarrow> SampledLogger" where
  "SampledLogger_init sample_rates default_rate =
     \<lparr>sl_rates = fold (\<lambda>(k, v). dict_set (upper k) v) sample_rates [], sl_default_rate = max 1 default_rate, sl_counters = []\<rparr>"

definition should_emit :: "string \<Rightarrow> SampledLogger \<Rightarrow> bool \<times> SampledLogger" where
  "should_emit level s =
     (let r = dict_get_or (sl_rates s) (upper level) (sl_default_rate s)
      in if r \<le> 1 then (True, s)
         else let n = dict_get_or (sl_counters s) level 0 + 1
              in (n mod r = 1, s\<lparr>sl_counters := dict_set level n (sl_counters s)\<rparr>))"

text \<open>\<open>emitted\<close>: how many of \<open>k\<close> calls at one level reach the wrapped logger.\<close>

fun emitted :: "nat \<Rightarrow> string \<Rightarrow> SampledLogger \<Rightarrow> nat" where
  "emitted 0 level s = 0"
| "emitted (Suc k) level s = (case should_emit level s of (b, s') \<Rightarrow> (if b then 1 else 0) + emitted k level s')"

subsection \<open>Health\<close>

record HealthStatus =
  hs_healthy :: bool
  hs_detail :: "string option"
  hs_latency_ms :: rat

definition HealthStatus_init :: "bool \<Rightarrow> string option \<Rightarrow> HealthStatus" where
  "HealthStatus_init healthy detail = \<lparr>hs_healthy = healthy, hs_detail = detail, hs_latency_ms = 0\<rparr>"

definition timed_check :: "('w \<Rightarrow> rat) \<Rightarrow> ('w, HealthStatus) act \<Rightarrow> ('w, HealthStatus) act" where
  "timed_check monotonic check w =
     (case check w of
        (Inl e, w') \<Rightarrow> (Inl e, w')
      | (Inr st, w') \<Rightarrow> (Inr (st\<lparr>hs_latency_ms := (monotonic w' - monotonic w) * 1000\<rparr>), w'))"

fun run_all_checks ::
    "('w \<Rightarrow> rat) \<Rightarrow> (exn \<Rightarrow> string) \<Rightarrow> (string \<times> ('w, HealthStatus) act) list \<Rightarrow> (string, HealthStatus) pydict
      \<Rightarrow> ('w, (string, HealthStatus) pydict) act" where
  "run_all_checks monotonic exn_str [] results w = (Inr results, w)"
| "run_all_checks monotonic exn_str ((name, check) # checks) results w =
     (case timed_check monotonic check w of
        (Inr st, w') \<Rightarrow> run_all_checks monotonic exn_str checks (dict_set name st results) w'
      | (Inl e, w') \<Rightarrow>
          if catchable e
          then run_all_checks monotonic exn_str checks
                 (dict_set name (HealthStatus_init False (Some (''exception: '' @ exn_str e))) results) w'
          else (Inl e, w'))"

definition overall :: "(string, HealthStatus) pydict \<Rightarrow> bool" where
  "overall results = list_all (\<lambda>(name, s). hs_healthy s) results"

text \<open>The checks of the package differ in the probe they run; what they make of its outcome is common.\<close>

definition probe_status :: "(exn \<Rightarrow> string) \<Rightarrow> ('a \<Rightarrow> HealthStatus) \<Rightarrow> exn + 'a \<Rightarrow> exn + HealthStatus" where
  "probe_status exn_str judge outcome =
     (case outcome of
        Inr a \<Rightarrow> Inr (judge a)
      | Inl e \<Rightarrow> if catchable e then Inr (HealthStatus_init False (Some (exn_str e))) else Inl e)"

definition http_judge :: "int \<Rightarrow> int \<Rightarrow> HealthStatus" where
  "http_judge expected status =
     (if status = expected then HealthStatus_init True None
      else HealthStatus_init False (Some (''status='' @ show_int status)))"

definition rabbitmq_judge :: "int \<Rightarrow> HealthStatus" where
  "rabbitmq_judge status =
     (if status = 200 then HealthStatus_init True (Some ''alive'')
      else HealthStatus_init False (Some (''management API returned '' @ show_int status)))"

definition elasticsearch_judge :: "int \<times> string option \<Rightarrow> HealthStatus" where
  "elasticsearch_judge resp =
     (if fst resp = 200
      then let st = (case snd resp of None \<Rightarrow> ''unknown'' | Some s \<Rightarrow> s)
           in HealthStatus_init (st \<in> {''green'', ''yellow''}) (Some (''cluster status: '' @ st))
      else HealthStatus_init False (Some (''health endpoint returned '' @ show_int (fst resp))))"

subsection \<open>Structured events\<close>

record StructuredEvent =
  sev_name :: pyval
  sev_service :: pyval
  sev_timestamp :: "microseconds + pyval"
  sev_trace_id :: pyval
  sev_duration_ms :: pyval
  sev_fields :: "(string, pyval) pydict"
  sev_schema_version :: int

definition CURRENT_SCHEMA_VERSION :: int where
  "CURRENT_SCHEMA_VERSION = 1"

definition RESERVED_KEYS :: "string list" where
  "RESERVED_KEYS = [''schema_version'', ''name'', ''service'', ''timestamp'', ''trace_id'', ''duration_ms'']"

text \<open>\<^verbatim>\<open>to_dict\<close> of an event whose timestamp is a datetime: the fields come last and overwrite.\<close>

definition event_to_dict :: "(microseconds \<Rightarrow> string) \<Rightarrow> microseconds \<Rightarrow> StructuredEvent \<Rightarrow> (string, pyval) pydict" where
  "event_to_dict isoformat ts e =
     fold (\<lambda>(k, v). dict_set k v) (sev_fields e)
       [(''schema_version'', PInt (sev_schema_version e)), (''name'', sev_name e), (''service'', sev_service e),
        (''timestamp'', PStr (isoformat ts)), (''trace_id'', sev_trace_id e), (''duration_ms'', sev_duration_ms e)]"

fun to_int :: "pyval \<Rightarrow> exn + int" where
  "to_int (PInt n) = Inr n"
| "to_int (PBool b) = Inr (if b then 1 else 0)"
| "to_int (PFloat q) = Inr (if q < 0 then ceiling q else floor q)"
| "to_int (PStr s) = (case py_int s of None \<Rightarrow> Inl (int_error s) | Some n \<Rightarrow> Inr n)"
| "to_int _ = Inl (plain_exn TypeError ''int() argument must be a string, a bytes-like object or a real number'')"

definition event_timestamp :: "(string \<Rightarrow> exn + microseconds) \<Rightarrow> microseconds \<Rightarrow> (string, pyval) pydict \<Rightarrow> exn + (microseconds + pyval)" where
  "event_timestamp fromisoformat now data =
     (case dict_get_or data ''timestamp'' PNone of
        PStr s \<Rightarrow> map_sum id Inl (fromisoformat s)
      | v \<Rightarrow> Inr (if truthy v then Inr v else Inl now))"

definition event_from_dict ::
    "(string \<Rightarrow> exn + microseconds) \<Rightarrow> microseconds \<Rightarrow> (string, pyval) pydict \<Rightarrow> exn + StructuredEvent" where
  "event_from_dict fromisoformat now data =
     (case to_int (dict_get_or data ''schema_version'' (PInt 1)) of
        Inl e \<Rightarrow> Inl e
      | Inr version \<Rightarrow>
          if version > CURRENT_SCHEMA_VERSION
          then Inl (plain_exn (UserError ''SchemaVersionError'' ValueError)
                 (''Cannot deserialize StructuredEvent with schema_version='' @ show_int version
                   @ ''; this library only supports up to version 1. Upgrade mp-commons to process this event.''))
          else case event_timestamp fromisoformat now data of
                 Inl e \<Rightarrow> Inl e
               | Inr ts \<Rightarrow>
                   (case (map_of data ''name'', map_of data ''service'') of
                      (None, _) \<Rightarrow> Inl (plain_exn KeyError (quoted ''name''))
                    | (Some _, None) \<Rightarrow> Inl (plain_exn KeyError (quoted ''service''))
                    | (Some n, Some s) \<Rightarrow> Inr
                        \<lparr>sev_name = n, sev_service = s, sev_timestamp = ts,
                         sev_trace_id = dict_get_or data ''trace_id'' PNone,
                         sev_duration_ms = dict_get_or data ''duration_ms'' PNone,
                         sev_fields = filter (\<lambda>(k, v). k \<notin> set RESERVED_KEYS) data, sev_schema_version = version\<rparr>))"

text \<open>The buffer of an emitter, and the decorator \<^verbatim>\<open>instrument\<close>: the world has the buffer next to it.\<close>

definition emitter_flush :: "'e list \<Rightarrow> nat \<times> 'e list" where
  "emitter_flush buffer = (length buffer, [])"

definition instrument ::
    "('w \<Rightarrow> rat) \<Rightarrow> (rat \<Rightarrow> 'e) \<Rightarrow> ('w \<times> 'e list, 'a) act \<Rightarrow> ('w \<times> 'e list, 'a) act" where
  "instrument monotonic mk fn wb =
     (case fn wb of (r, w', buffer) \<Rightarrow> (r, w', buffer @ [mk ((monotonic w' - monotonic (fst wb)) * 1000)]))"

subsection \<open>Queued logging\<close>

text \<open>The queue of the handler: records, and the sentinel \<open>None\<close>; a bound of 0 is no bound.\<close>

record 'r AsyncLogHandler =
  al_queue :: "'r option list"
  al_maxsize :: nat

definition queue_full :: "'r AsyncLogHandler \<Rightarrow> bool" where
  "queue_full h \<longleftrightarrow> al_maxsize h > 0 \<and> length (al_queue h) \<ge> al_maxsize h"

definition al_emit :: "'r \<Rightarrow> 'r AsyncLogHandler \<Rightarrow> 'r AsyncLogHandler" where
  "al_emit r h = (if queue_full h then h else h\<lparr>al_queue := al_queue h @ [Some r]\<rparr>)"

definition al_close :: "'r AsyncLogHandler \<Rightarrow> 'r AsyncLogHandler" where
  "al_close h = (if queue_full h then h else h\<lparr>al_queue := al_queue h @ [None]\<rparr>)"

text \<open>What the drain task does with the records queued so far: it stops at the sentinel, and an exception of the
  delegate ends it.\<close>

fun al_drain :: "('r \<Rightarrow> ('w, unit) act) \<Rightarrow> 'r option list \<Rightarrow> 'w \<Rightarrow> (exn + bool) \<times> 'r option list \<times> 'w" where
  "al_drain delegate [] w = (Inr False, [], w)"
| "al_drain delegate (None # q) w = (Inr True, q, w)"
| "al_drain delegate (Some r # q) w =
     (case delegate r w of (Inl e, w') \<Rightarrow> (Inl e, q, w') | (Inr _, w') \<Rightarrow> al_drain delegate q w')"

text \<open>\<^verbatim>\<open>drain_sync\<close> skips sentinels and empties the queue.\<close>

fun drain_sync :: "('r \<Rightarrow> ('w, unit) act) \<Rightarrow> 'r option list \<Rightarrow> 'w \<Rightarrow> (exn + unit) \<times> 'r option list \<times> 'w" where
  "drain_sync delegate [] w = (Inr (), [], w)"
| "drain_sync delegate (None # q) w = drain_sync delegate q w"
| "drain_sync delegate (Some r # q) w =
     (case delegate r w of (Inl e, w') \<Rightarrow> (Inl e, q, w') | (Inr _, w') \<Rightarrow> drain_sync delegate q w')"

definition set_opt :: "string \<Rightarrow> string option \<Rightarrow> (string, pyval) pydict \<Rightarrow> (string, pyval) pydict" where
  "set_opt k v d = (case v of None \<Rightarrow> d | Some s \<Rightarrow> dict_setdefault k (PStr s) d)"

definition CorrelationProcessor :: "'w ambient \<Rightarrow> (string, pyval) pydict \<Rightarrow> (string, pyval) pydict" where
  "CorrelationProcessor w event_dict =
     (case amb_request w of
        None \<Rightarrow> event_dict
      | Some c \<Rightarrow> set_opt ''trace_id'' (rc_trace_id c) (set_opt ''user_id'' (rc_user_id c)
                   (set_opt ''tenant_id'' (rc_tenant_id c) (set_opt ''correlation_id'' (Some (rc_correlation_id c)) event_dict))))"

subsection \<open>Facts: budgets\<close>

lemma tracker_counts:
  fixes outcomes :: "bool list"
  shows "eb_total_requests (get_budget slo (fold (record_request (slo_metric_name slo)) outcomes t))
      = eb_total_requests (get_budget slo t) + int (length outcomes)"
    and "eb_error_count (get_budget slo (fold (record_request (slo_metric_name slo)) outcomes t))
      = eb_error_count (get_budget slo t) + int (length (filter Not outcomes))"
  by (induction outcomes arbitrary: t) (simp_all add: get_budget_def record_request_def dict_get_or_def Let_def)

lemma tracker_other_metric:
  "slo_metric_name slo \<noteq> m \<Longrightarrow> get_budget slo (record_request m ok t) = get_budget slo t"
  by (simp add: get_budget_def record_request_def dict_get_or_def Let_def)

text \<open>The three views of a budget agree: it is exhausted exactly when nothing remains, and, once there are requests and
  errors are allowed, exactly when the burn rate is at least one.\<close>

lemma exhausted_iff_nothing_left:
  assumes "eb_error_count b \<ge> 0"
  shows "is_exhausted b \<longleftrightarrow> remaining_budget b = 0"
proof (cases "allowed_errors b \<le> 0")
  case True
  have "(0::rat) \<le> of_int (eb_error_count b)" using assms by simp
  then show ?thesis using True by (simp add: is_exhausted_def remaining_budget_def)
next
  case False
  then show ?thesis by (auto simp: is_exhausted_def remaining_budget_def Let_def max_def)
qed

lemma exhausted_iff_burn_rate:
  assumes "eb_total_requests b > 0" "slo_target (eb_slo b) < 1"
  shows "is_exhausted b \<longleftrightarrow> rate_reaches (burn_rate b 1) 1"
proof -
  have t: "(0::rat) < of_int (eb_total_requests b)" and i: "0 < 1 - slo_target (eb_slo b)" using assms by simp_all
  have "1 \<le> of_int (eb_error_count b) / of_int (eb_total_requests b) / (1 - slo_target (eb_slo b))
      \<longleftrightarrow> (of_int (eb_total_requests b) :: rat) * (1 - slo_target (eb_slo b)) \<le> of_int (eb_error_count b)"
    using mult_pos_pos[OF t i] by (simp add: divide_divide_eq_left pos_le_divide_eq)
  then show ?thesis using assms by (simp add: is_exhausted_def allowed_errors_def burn_rate_def Let_def)
qed

text \<open>Without any request the budget counts as exhausted.\<close>

lemma fresh_budget_exhausted: "is_exhausted (get_budget slo \<lparr>st_totals = [], st_errors = [], st_events = []\<rparr>)"
  by (simp add: is_exhausted_def get_budget_def allowed_errors_def dict_get_or_def)

subsection \<open>Facts: logging\<close>

lemma int_block:
  assumes "0 \<le> b" "b < k" "x = a * k + (b::int)"
  shows "x div k = a" "x mod k = b"
  using assms by simp_all

lemma round_up_step:
  fixes c r :: int
  assumes "1 < r"
  shows "(c + r) div r = (c + r - 1) div r + (if (c + 1) mod r = 1 then 1 else 0)"
proof -
  define q m where d: "q = c div r" "m = c mod r"
  have c: "c = q * r + m" by (simp add: d)
  have m: "0 \<le> m" "m < r" using assms by (simp_all add: d)
  have top: "(c + r) div r = q + 1" by (rule int_block(1)[OF m]) (simp add: c algebra_simps)
  show ?thesis
  proof (cases "m = 0")
    case True
    have "(c + r - 1) div r = q" by (rule int_block(1)[of "r - 1"]) (use assms in \<open>simp_all add: c True\<close>)
    moreover have "(c + 1) mod r = 1" by (rule int_block(2)[of 1 _ _ q]) (use assms in \<open>simp_all add: c True\<close>)
    ultimately show ?thesis using top by simp
  next
    case False
    have "(c + r - 1) div r = q + 1" by (rule int_block(1)[of "m - 1"]) (use m False in \<open>simp_all add: c algebra_simps\<close>)
    moreover have "(c + 1) mod r \<noteq> 1"
    proof (cases "m + 1 = r")
      case True
      have "(c + 1) mod r = 0" by (rule int_block(2)[of 0 _ _ "q + 1"]) (use assms True in \<open>simp_all add: c algebra_simps\<close>)
      then show ?thesis by simp
    next
      case False
      have "(c + 1) mod r = m + 1" by (rule int_block(2)[of "m + 1" _ _ q]) (use m False in \<open>simp_all add: c\<close>)
      then show ?thesis using \<open>m \<noteq> 0\<close> by simp
    qed
    ultimately show ?thesis using top by simp
  qed
qed

lemma emitted_from:
  assumes "dict_get_or (sl_rates s) (upper level) (sl_default_rate s) = r" "1 < r"
    "dict_get_or (sl_counters s) level 0 = c" "0 \<le> c"
  shows "int (emitted k level s) = (c + int k + r - 1) div r - (c + r - 1) div r"
  using assms(1,3,4)
proof (induction k arbitrary: s c)
  case (Suc k)
  let ?s = "s\<lparr>sl_counters := dict_set level (c + 1) (sl_counters s)\<rparr>"
  have e: "should_emit level s = ((c + 1) mod r = 1, ?s)" using Suc.prems assms(2) by (simp add: should_emit_def Let_def)
  have ih: "int (emitted k level ?s) = (c + 1 + int k + r - 1) div r - (c + 1 + r - 1) div r"
    by (rule Suc.IH) (use Suc.prems in \<open>simp_all add: dict_get_or_def\<close>)
  have step: "(c + r) div r = (c + r - 1) div r + (if (c + 1) mod r = 1 then 1 else 0)" by (rule round_up_step[OF assms(2)])
  have "int (emitted (Suc k) level s) = (if (c + 1) mod r = 1 then 1 else 0) + int (emitted k level ?s)" by (simp add: e)
  also have "\<dots> = (if (c + 1) mod r = 1 then 1 else 0) + ((c + int (Suc k) + r - 1) div r - (c + r) div r)"
    unfolding ih by (simp add: algebra_simps)
  also have "\<dots> = (c + int (Suc k) + r - 1) div r - (c + r - 1) div r" unfolding step by simp
  finally show ?case .
qed simp

text \<open>Of \<open>k\<close> calls at a level sampled one in \<open>r\<close>, exactly \<open>k / r\<close> rounded up are logged.\<close>

lemma sampled_share:
  assumes "dict_get_or (sl_rates s) (upper level) (sl_default_rate s) = r" "1 < r" "sl_counters s = []"
  shows "int (emitted k level s) = (int k + r - 1) div r"
  using emitted_from[OF assms(1,2), of 0 k] assms(2,3) by (simp add: dict_get_or_def)

lemma unsampled_all:
  assumes "dict_get_or (sl_rates s) (upper level) (sl_default_rate s) \<le> 1"
  shows "emitted k level s = k"
  using assms by (induction k) (simp_all add: should_emit_def Let_def)

text \<open>The queue never exceeds its bound; records are handed over in order until the sentinel.\<close>

lemma queue_bounded:
  assumes "al_maxsize h > 0" "length (al_queue h) \<le> al_maxsize h"
  shows "length (al_queue (al_emit r h)) \<le> al_maxsize h" "length (al_queue (al_close h)) \<le> al_maxsize h"
  using assms by (auto simp: al_emit_def al_close_def queue_full_def)

lemma drain_in_order:
  "al_drain (\<lambda>r w. (Inr (), w @ [r])) (map Some rs @ None # q) w = (Inr True, q, w @ rs)"
  by (induction rs arbitrary: w) auto

text \<open>One failure of the delegate ends the task: what is queued behind the record is not handed over.\<close>

lemma drain_dies:
  assumes "\<And>w. delegate r w = (Inl e, w)" "\<And>x w. x \<in> set rs \<Longrightarrow> delegate x w = (Inr (), w)"
  shows "al_drain delegate (map Some rs @ Some r # q) w = (Inl e, q, w)"
  using assms by (induction rs) auto

subsection \<open>Facts: health and events\<close>

lemma run_all_total:
  assumes "\<forall>x \<in> set checks. \<forall>w e w'. snd x w = (Inl e, w') \<longrightarrow> catchable e"
  shows "\<exists>results' w'. run_all_checks monotonic exn_str checks results w = (Inr results', w')
    \<and> fst ` set results' = fst ` set results \<union> fst ` set checks"
  using assms
proof (induction checks arbitrary: results w)
  case (Cons nc checks)
  obtain n c where nc: "nc = (n, c)" by fastforce
  obtain r w1 where r: "timed_check monotonic c w = (r, w1)" by fastforce
  have "catchable e" if "r = Inl e" for e
    using r that Cons.prems nc by (auto simp: timed_check_def split: prod.splits sum.splits)
  then have "\<exists>st. run_all_checks monotonic exn_str (nc # checks) results w
      = run_all_checks monotonic exn_str checks (dict_set n st results) w1"
    using nc r by (cases r) auto
  then obtain st where step: "run_all_checks monotonic exn_str (nc # checks) results w
      = run_all_checks monotonic exn_str checks (dict_set n st results) w1" ..
  have "\<exists>results' w'. run_all_checks monotonic exn_str checks (dict_set n st results) w1 = (Inr results', w')
      \<and> fst ` set results' = fst ` set (dict_set n st results) \<union> fst ` set checks"
    by (rule Cons.IH) (use Cons.prems in auto)
  then show ?case unfolding step using nc by auto
qed simp

lemma overall_iff: "dict_ok results \<Longrightarrow> overall results \<longleftrightarrow> (\<forall>n s. map_of results n = Some s \<longrightarrow> hs_healthy s)"
  by (auto simp: overall_def list_all_iff dict_ok_def)

lemma instrument_emits_once:
  assumes "fn (w, buffer) = (r, w', buffer)"
  shows "\<exists>e. instrument monotonic mk fn (w, buffer) = (r, w', buffer @ [e])"
  using assms by (simp add: instrument_def)

lemma newer_schema_refused:
  assumes "map_of data ''schema_version'' = Some (PInt n)" "n > 1"
  shows "\<exists>e. event_from_dict fromiso now data = Inl e"
  using assms by (simp add: event_from_dict_def dict_get_or_def CURRENT_SCHEMA_VERSION_def)

lemma fold_new_fields:
  assumes "distinct (map fst fs)" "\<forall>k \<in> fst ` set fs. k \<notin> fst ` set d"
  shows "fold (\<lambda>(k, v). dict_set k v) fs d = d @ fs"
  using assms
proof (induction fs arbitrary: d)
  case (Cons f fs)
  obtain k v where f: "f = (k, v)" by fastforce
  have "dict_set k v d = d @ [(k, v)]" using Cons.prems(2) f by (intro dict_set_new) auto
  moreover have "fold (\<lambda>(k, v). dict_set k v) fs (d @ [(k, v)]) = (d @ [(k, v)]) @ fs"
    by (rule Cons.IH) (use Cons.prems f in auto)
  ultimately show ?case using f by simp
qed simp

lemma event_dict_round_trip:
  assumes iso: "fromiso (isoformat ts) = Inr ts" and ts: "sev_timestamp e = Inl ts" and v: "sev_schema_version e \<le> 1"
    and fs: "distinct (map fst (sev_fields e))" "\<forall>k \<in> fst ` set (sev_fields e). k \<notin> set RESERVED_KEYS"
  shows "event_from_dict fromiso now (event_to_dict isoformat ts e) = Inr e"
proof -
  let ?base = "[(''schema_version'', PInt (sev_schema_version e)), (''name'', sev_name e), (''service'', sev_service e),
        (''timestamp'', PStr (isoformat ts)), (''trace_id'', sev_trace_id e), (''duration_ms'', sev_duration_ms e)]"
  have d: "event_to_dict isoformat ts e = ?base @ sev_fields e"
    unfolding event_to_dict_def by (rule fold_new_fields) (use fs in \<open>auto simp: RESERVED_KEYS_def\<close>)
  have "filter (\<lambda>(k, v). k \<notin> set RESERVED_KEYS) ?base = []" by (simp add: RESERVED_KEYS_def)
  moreover have "filter (\<lambda>(k, v). k \<notin> set RESERVED_KEYS) (sev_fields e) = sev_fields e"
    using fs(2) by (intro filter_True) auto
  ultimately have "filter (\<lambda>(k, v). k \<notin> set RESERVED_KEYS) (?base @ sev_fields e) = sev_fields e"
    by (simp only: filter_append append_Nil)
  then show ?thesis unfolding d using iso v
    by (simp add: event_from_dict_def dict_get_or_def CURRENT_SCHEMA_VERSION_def event_timestamp_def ts[symmetric])
qed

end
