(* ===== verification/Localization.thy ===== *)
theory Localization
  imports Configuration Asgi "HOL-Library.Char_ord" "HOL-Library.List_Lexorder" "HOL-Library.Product_Lexorder"
begin

text \<open>
  Locales, translation and language negotiation (\<^verbatim>\<open>application/i18n/translator.py\<close>). Catalogues and \<^verbatim>\<open>str.format\<close>
  are parameters. The groups of the tag pattern are read off directly: the language is the maximal run of letters,
  since after fewer letters neither a separator nor the end can follow.
\<close>

subsection \<open>Locales\<close>

record Locale =
  lc_language :: string
  lc_territory :: "string option"

definition Locale_str :: "char \<Rightarrow> Locale \<Rightarrow> string" where
  "Locale_str sep l =
     (case lc_territory l of None \<Rightarrow> lc_language l
      | Some t \<Rightarrow> if t = [] then lc_language l else lc_language l @ [sep] @ t)"

definition is_sep :: "char \<Rightarrow> bool" where
  "is_sep c \<longleftrightarrow> c = CHR ''-'' \<or> c = CHR ''_''"

text \<open>\<^verbatim>\<open>(?:[_-].+)?$\<close> on the end of a stripped text.\<close>

definition tag_tail :: "string \<Rightarrow> bool" where
  "tag_tail t \<longleftrightarrow> t = [] \<or> (is_sep (hd t) \<and> tl t \<noteq> [] \<and> newline \<notin> set (tl t))"

definition territory_of :: "string \<Rightarrow> string option" where
  "territory_of r =
     (if r \<noteq> [] \<and> is_sep (hd r) then
        (let t = tl r
         in if length t \<ge> 2 \<and> list_all is_alpha (take 2 t) \<and> tag_tail (drop 2 t) then Some (take 2 t)
            else if length t \<ge> 3 \<and> list_all is_digit (take 3 t) \<and> tag_tail (drop 3 t) then Some (take 3 t)
            else None)
      else None)"

definition Locale_parse :: "string \<Rightarrow> exn + Locale" where
  "Locale_parse tag =
     (let s = strip tag; lng = takeWhile is_alpha s; r = dropWhile is_alpha s
      in if 2 \<le> length lng \<and> length lng \<le> 8 \<and> (territory_of r \<noteq> None \<or> tag_tail r)
         then Inr \<lparr>lc_language = lower lng, lc_territory = map_option upper (territory_of r)\<rparr>
         else Inl (plain_exn ValueError (''Invalid BCP-47 locale tag: '' @ repr_str tag)))"

definition Locale_default :: Locale where
  "Locale_default = \<lparr>lc_language = ''en'', lc_territory = None\<rparr>"

subsection \<open>Translation\<close>

text \<open>\<open>catalogue key\<close> is what loading the catalogue of a Babel locale gives; \<open>exists\<close> whether its file is there.\<close>

definition get_translations ::
    "bool \<Rightarrow> (string \<Rightarrow> bool) \<Rightarrow> (string \<Rightarrow> 't) \<Rightarrow> Locale \<Rightarrow> (string, 't option) pydict \<Rightarrow> 't option \<times> (string, 't option) pydict" where
  "get_translations has_dir exists catalogue l cache =
     (let key = Locale_str CHR ''_'' l
      in case map_of cache key of
           Some t \<Rightarrow> (t, cache)
         | None \<Rightarrow>
             if \<not> has_dir then (None, cache)
             else if \<not> exists key \<and> \<not> exists (lc_language l) then (None, dict_set key None cache)
             else (Some (catalogue key), dict_set key (Some (catalogue key)) cache))"

text \<open>\<open>fmt\<close> is \<^verbatim>\<open>text.format(**kwargs)\<close>.\<close>

definition translate ::
    "bool \<Rightarrow> (string \<Rightarrow> bool) \<Rightarrow> (string \<Rightarrow> string \<Rightarrow> string) \<Rightarrow> (string \<Rightarrow> (string, pyval) pydict \<Rightarrow> exn + string) \<Rightarrow> Locale
      \<Rightarrow> string \<Rightarrow> Locale option \<Rightarrow> (string, pyval) pydict \<Rightarrow> (string, (string \<Rightarrow> string) option) pydict
      \<Rightarrow> (exn + string) \<times> (string, (string \<Rightarrow> string) option) pydict" where
  "translate has_dir exists catalogue fmt current key locale kwargs cache =
     (case get_translations has_dir exists catalogue (case locale of None \<Rightarrow> current | Some l \<Rightarrow> l) cache of
        (tr, cache') \<Rightarrow>
          let txt = (case tr of None \<Rightarrow> key | Some gettext \<Rightarrow> gettext key)
          in (if kwargs = [] then Inr txt
              else case fmt txt kwargs of
                     Inr out \<Rightarrow> Inr out
                   | Inl e \<Rightarrow> if isinstance e [KeyError, ValueError] then Inr txt else Inl e, cache'))"

subsection \<open>Negotiation\<close>

fun cut_at :: "string \<Rightarrow> string \<Rightarrow> (string \<times> string) option" where
  "cut_at pat [] = None"
| "cut_at pat (c # s) =
     (if startswith (c # s) pat then Some ([], drop (length pat) (c # s))
      else map_option (\<lambda>(a, b). (c # a, b)) (cut_at pat s))"

definition language_candidate :: "string \<Rightarrow> rat \<times> string" where
  "language_candidate raw_part =
     (let part = strip raw_part
      in case cut_at '';q='' part of
           None \<Rightarrow> (1, strip part)
         | Some (l, q_str) \<Rightarrow> (case py_float q_str of None \<Rightarrow> 0 | Some q \<Rightarrow> q, strip l))"

definition match_locale :: "Locale list \<Rightarrow> Locale \<Rightarrow> Locale option" where
  "match_locale supported requested =
     (case List.find (\<lambda>s. s = requested) supported of
        Some s \<Rightarrow> Some s
      | None \<Rightarrow> List.find (\<lambda>s. lc_language s = lc_language requested) supported)"

fun pick_locale :: "Locale list \<Rightarrow> (rat \<times> string) list \<Rightarrow> Locale option" where
  "pick_locale supported [] = None"
| "pick_locale supported ((q, tag) # cs) =
     (case Locale_parse tag of
        Inl e \<Rightarrow> pick_locale supported cs
      | Inr requested \<Rightarrow> (case match_locale supported requested of Some l \<Rightarrow> Some l | None \<Rightarrow> pick_locale supported cs))"

text \<open>The candidates are sorted in descending order of the pair of weight and tag.\<close>

definition negotiate :: "Locale list \<Rightarrow> Locale \<Rightarrow> string \<Rightarrow> Locale" where
  "negotiate supported current accept_language =
     (if supported = [] then current
      else let candidates = rev (sort (map language_candidate (split_on CHR '','' accept_language)))
           in case pick_locale supported candidates of Some l \<Rightarrow> l | None \<Rightarrow> hd supported)"

text \<open>The context variable of the locale is next to the world; the middleware restores it.\<close>

definition LocaleMiddleware :: "Locale list \<Rightarrow> (Locale \<times> 'w) app \<Rightarrow> (Locale \<times> 'w) app" where
  "LocaleMiddleware supported app sc receive send w =
     (if sp_type sc = ''http''
      then let accept = (case map_of (rev (sp_headers sc)) ''accept-language'' of None \<Rightarrow> [] | Some v \<Rightarrow> v);
               locale = (if accept \<noteq> [] then negotiate supported (fst w) accept else Locale_default);
               token = fst w
           in case app sc receive send (locale, snd w) of (r, w') \<Rightarrow> (r, token, snd w')
      else app sc receive send w)"

subsection \<open>Facts\<close>

definition locale_ok :: "Locale \<Rightarrow> bool" where
  "locale_ok l \<longleftrightarrow> 2 \<le> length (lc_language l) \<and> length (lc_language l) \<le> 8 \<and> list_all is_lower (lc_language l)
     \<and> (case lc_territory l of None \<Rightarrow> True
        | Some t \<Rightarrow> length t = 2 \<and> list_all is_upper t \<or> length t = 3 \<and> list_all is_digit t)"

lemma list_all_take: "list_all P xs \<Longrightarrow> list_all P (take n xs)"
  by (auto simp: list_all_iff dest: in_set_takeD)

lemma takeWhile_dropWhile_app:
  assumes "list_all P xs" "ys = [] \<or> \<not> P (hd ys)"
  shows "takeWhile P (xs @ ys) = xs" "dropWhile P (xs @ ys) = ys"
  using assms by (induction xs) (cases ys; simp)+

lemma territory_ok:
  assumes "Locale_parse tag = Inr l" "lc_territory l = Some t"
  shows "length t = 2 \<and> list_all is_upper t \<or> length t = 3 \<and> list_all is_digit t"
proof -
  have up: "is_alpha c \<Longrightarrow> is_upper (to_upper c)" "is_digit c \<Longrightarrow> to_upper c = c" for c
    by (auto simp: is_alpha_def is_upper_def is_lower_def is_digit_def to_upper_def)
  obtain u where u: "territory_of (dropWhile is_alpha (strip tag)) = Some u" "t = upper u"
    using assms by (auto simp: Locale_parse_def Let_def split: if_splits)
  then have "length u = 2 \<and> list_all is_alpha u \<or> length u = 3 \<and> list_all is_digit u"
    by (auto simp: territory_of_def Let_def split: if_splits)
  then show ?thesis using u(2) up by (auto simp: upper_def list_all_iff map_idI)
qed

lemma Locale_parse_ok: "Locale_parse tag = Inr l \<Longrightarrow> locale_ok l"
proof -
  assume p: "Locale_parse tag = Inr l"
  have lo: "is_alpha c \<Longrightarrow> is_lower (to_lower c)" for c
    by (auto simp: is_alpha_def is_upper_def is_lower_def to_lower_def)
  have "lc_language l = lower (takeWhile is_alpha (strip tag))" "2 \<le> length (takeWhile is_alpha (strip tag))"
      "length (takeWhile is_alpha (strip tag)) \<le> 8"
    using p by (auto simp: Locale_parse_def Let_def split: if_splits)
  moreover have "list_all is_lower (lower (takeWhile is_alpha (strip tag)))"
    using lo by (auto simp: lower_def list_all_iff dest: set_takeWhileD)
  ultimately show "locale_ok l" using territory_ok[OF p]
    by (auto simp: locale_ok_def lower_def split: option.splits)
qed

text \<open>Parsing the text of a well-formed locale gives it back, with either separator.\<close>

lemma Locale_round_trip:
  assumes "locale_ok l" "is_sep sep"
  shows "Locale_parse (Locale_str sep l) = Inr l"
proof -
  let ?g = "lc_language l"
  have low: "list_all is_lower ?g" and g: "2 \<le> length ?g" "length ?g \<le> 8" using assms(1) by (auto simp: locale_ok_def)
  have al: "list_all is_alpha ?g" using low by (auto simp: list_all_iff is_alpha_def)
  have lower_g: "lower ?g = ?g" using low
    by (auto simp: lower_def list_all_iff to_lower_def is_upper_def is_lower_def intro!: map_idI)
  have nsep: "\<not> is_alpha sep" "\<not> is_space sep"
    using assms(2) by (auto simp: is_sep_def is_alpha_def is_upper_def is_lower_def is_space_def)
  show ?thesis
  proof (cases "lc_territory l")
    case None
    have "strip ?g = ?g" using low by (intro strip_no_space) (auto simp: list_all_iff is_lower_def is_space_def)
    moreover have "takeWhile is_alpha ?g = ?g" "dropWhile is_alpha ?g = []"
      using takeWhile_dropWhile_app[of is_alpha ?g "[]"] al by simp_all
    moreover have "\<lparr>lc_language = ?g, lc_territory = None\<rparr> = l" using None by (cases l) simp
    ultimately show ?thesis using None g lower_g
      by (simp add: Locale_str_def Locale_parse_def territory_of_def tag_tail_def Let_def
          del: takeWhile_eq_all_conv dropWhile_eq_Nil_conv)
  next
    case (Some t)
    then have t: "length t = 2 \<and> list_all is_upper t \<or> length t = 3 \<and> list_all is_digit t"
      using assms(1) by (simp add: locale_ok_def)
    then have "t \<noteq> []" by auto
    then have shown: "Locale_str sep l = ?g @ sep # t" using Some by (simp add: Locale_str_def)
    have "strip (?g @ sep # t) = ?g @ sep # t"
      using low t nsep(2) by (intro strip_no_space) (auto simp: list_all_iff is_lower_def is_upper_def is_digit_def is_space_def)
    moreover have "takeWhile is_alpha (?g @ sep # t) = ?g" "dropWhile is_alpha (?g @ sep # t) = sep # t"
      using takeWhile_dropWhile_app[of is_alpha ?g "sep # t"] al nsep(1) by simp_all
    moreover have "territory_of (sep # t) = Some t"
    proof (cases "length t = 2")
      case True
      then have "list_all is_alpha t" using t by (auto simp: list_all_iff is_alpha_def)
      then show ?thesis using True assms(2) by (simp add: territory_of_def tag_tail_def Let_def)
    next
      case False
      then have d: "length t = 3" "list_all is_digit t" using t by auto
      then have "\<not> list_all is_alpha (take 2 t)"
        by (cases t) (auto simp: is_alpha_def is_upper_def is_lower_def is_digit_def numeral_2_eq_2)
      then show ?thesis using d assms(2) by (simp add: territory_of_def tag_tail_def Let_def)
    qed
    moreover have "upper t = t" using t
      by (auto simp: upper_def list_all_iff to_upper_def is_upper_def is_lower_def is_digit_def intro!: map_idI)
    moreover have "\<lparr>lc_language = ?g, lc_territory = Some t\<rparr> = l" using Some by (cases l) simp
    ultimately show ?thesis using Some g lower_g by (simp add: shown Locale_parse_def Let_def)
  qed
qed

lemma pick_locale_supported: "pick_locale supported cs = Some l \<Longrightarrow> l \<in> set supported"
  by (induction supported cs rule: pick_locale.induct)
     (auto simp: match_locale_def find_Some_iff split: sum.splits option.splits)

text \<open>Negotiation always answers with a supported locale.\<close>

lemma negotiate_supported: "supported \<noteq> [] \<Longrightarrow> negotiate supported current accept \<in> set supported"
  by (auto simp: negotiate_def Let_def split: option.splits dest: pick_locale_supported)

text \<open>Tags of equal weight are tried in reverse alphabetical order, not in the order of the header.\<close>

lemma negotiate_ignores_header_order:
  "negotiate [\<lparr>lc_language = ''en'', lc_territory = None\<rparr>, \<lparr>lc_language = ''fr'', lc_territory = None\<rparr>] Locale_default ''en,fr''
     = \<lparr>lc_language = ''fr'', lc_territory = None\<rparr>"
  by code_simp

text \<open>A failing format falls back to the unformatted text, and the locale is restored after the request.\<close>

lemma translate_identity:
  assumes "get_translations has_dir ex cat l cache = (None, cache')"
  shows "translate has_dir ex cat fmt l key None [] cache = (Inr key, cache')"
  using assms by (simp add: translate_def)

lemma locale_restored:
  "sp_type sc = ''http'' \<Longrightarrow> fst (snd (LocaleMiddleware supported app sc receive send w)) = fst w"
  by (simp add: LocaleMiddleware_def Let_def split: prod.split)

end
