(* ===== verification/Event_Stores.thy ===== *)
theory Event_Stores
  imports Event_Sourcing "HOL-Library.Sublist" "HOL-Library.Countable"
begin

text \<open>
  The persistent event stores: \<^verbatim>\<open>adapters/mongodb/event_store.py\<close> and \<^verbatim>\<open>adapters/sqlalchemy/event_store.py\<close>. The
  collection and the session are outside the library: their operations are the fields of \<open>event_collection\<close> and
  \<open>event_session\<close>, and the locales \<open>mongo_events\<close> and \<open>sql_events\<close> state the documented behaviour the adapters rely on
  (a unique index on stream and version, ordered insertion, filtering and ordering of queries). Both adapters are then
  providers of the \<open>event_store\<close> port of the repository. The last part interleaves the steps of concurrent appends.
\<close>

subsection \<open>Documents\<close>

datatype field_value = FText string | FInt int | FBytes string | FMap "(string, pyval) pydict" | FTime microseconds

type_synonym document = "(string, field_value) pydict"

definition event_doc_id :: "StoredEvent \<Rightarrow> string" where
  "event_doc_id ev = se_stream_id ev @ ''#'' @ show_int (se_version ev)"

definition event_to_doc :: "StoredEvent \<Rightarrow> document" where
  "event_to_doc ev =
     [(''_id'', FText (event_doc_id ev)), (''stream_id'', FText (se_stream_id ev)), (''version'', FInt (se_version ev)),
      (''event_type'', FText (se_event_type ev)), (''payload'', FBytes (se_payload ev)), (''metadata'', FMap (se_metadata ev)),
      (''occurred_at'', FTime (se_occurred_at ev))]"

text \<open>\<^verbatim>\<open>_from_doc\<close>: three fields are required, the others have defaults. A document whose fields have other types than
  \<^verbatim>\<open>_to_doc\<close> writes is not an event of this store and is reported as a type error.\<close>

definition doc_field :: "document \<Rightarrow> string \<Rightarrow> exn + field_value" where
  "doc_field doc k = (case map_of doc k of None \<Rightarrow> Inl (plain_exn KeyError (quoted k)) | Some v \<Rightarrow> Inr v)"

definition event_from_doc :: "microseconds \<Rightarrow> document \<Rightarrow> exn + StoredEvent" where
  "event_from_doc now doc =
     (case doc_field doc ''stream_id'' of Inl e \<Rightarrow> Inl e | Inr sid \<Rightarrow>
      case doc_field doc ''version'' of Inl e \<Rightarrow> Inl e | Inr v \<Rightarrow>
      case doc_field doc ''event_type'' of Inl e \<Rightarrow> Inl e | Inr ty \<Rightarrow>
      case (sid, v, ty, dict_get_or doc ''payload'' (FBytes []), dict_get_or doc ''metadata'' (FMap []),
            dict_get_or doc ''occurred_at'' (FTime now)) of
        (FText s, FInt n, FText t, FBytes p, FMap m, FTime o') \<Rightarrow>
          Inr \<lparr>se_stream_id = s, se_version = n, se_event_type = t, se_payload = p, se_metadata = m, se_occurred_at = o'\<rparr>
      | _ \<Rightarrow> Inl (plain_exn TypeError ''not an event document''))"

lemma event_doc_round_trip [simp]: "event_from_doc now (event_to_doc ev) = Inr ev"
  by (simp add: event_from_doc_def event_to_doc_def doc_field_def dict_get_or_def)

text \<open>The compound key identifies stream and version: the text of a number has no \<^verbatim>\<open>#\<close>.\<close>

lemma hash_not_in_show_int: "CHR ''#'' \<notin> set (show_int n)"
proof
  assume "CHR ''#'' \<in> set (show_int n)"
  then have "CHR ''#'' \<in> set (show_nat (nat \<bar>n\<bar>))" by (auto simp: show_int_def split: if_splits)
  moreover have "list_all is_digit (show_nat (nat \<bar>n\<bar>))" by (rule show_nat_digits)
  ultimately show False by (auto simp: list_all_iff is_digit_def)
qed

lemma event_doc_id_inj:
  assumes "event_doc_id a = event_doc_id b"
  shows "se_stream_id a = se_stream_id b \<and> se_version a = se_version b"
proof -
  let ?p = "\<lambda>c. c \<noteq> CHR ''#''"
  have split: "takeWhile ?p (rev (s @ ''#'' @ show_int n)) = rev (show_int n)
      \<and> dropWhile ?p (rev (s @ ''#'' @ show_int n)) = CHR ''#'' # rev s" for s n
    using hash_not_in_show_int[of n] by (auto simp: takeWhile_append dropWhile_append)
  have "rev (show_int (se_version a)) = rev (show_int (se_version b))" "rev (se_stream_id a) = rev (se_stream_id b)"
    using arg_cong[OF assms, of rev] split[of "se_stream_id a" "se_version a"] split[of "se_stream_id b" "se_version b"]
    unfolding event_doc_id_def by (metis list.inject)+
  then show ?thesis using show_int_inj by auto
qed

subsection \<open>Rows and the unique index\<close>

definition of_stream :: "string \<Rightarrow> StoredEvent list \<Rightarrow> StoredEvent list" where
  "of_stream sid rows = filter (\<lambda>e. se_stream_id e = sid) rows"

definition rows_after :: "string \<Rightarrow> int \<Rightarrow> StoredEvent list \<Rightarrow> StoredEvent list" where
  "rows_after sid v rows = sort_key se_version (filter (\<lambda>e. v < se_version e) (of_stream sid rows))"

definition clash :: "StoredEvent \<Rightarrow> StoredEvent list \<Rightarrow> bool" where
  "clash e rows \<longleftrightarrow> (\<exists>x \<in> set rows. se_stream_id x = se_stream_id e \<and> se_version x = se_version e)"

text \<open>Ordered insertion stops at the first row the index refuses and keeps the rows before it.\<close>

fun insert_ordered :: "StoredEvent list \<Rightarrow> StoredEvent list \<Rightarrow> bool \<times> StoredEvent list" where
  "insert_ordered [] rows = (True, rows)"
| "insert_ordered (e # es) rows = (if clash e rows then (False, rows) else insert_ordered es (rows @ [e]))"

lemma of_stream_append [simp]: "of_stream sid (a @ b) = of_stream sid a @ of_stream sid b"
  by (simp add: of_stream_def)

lemma of_stream_Nil [simp]: "of_stream sid [] = []"
  by (simp add: of_stream_def)

lemma clash_iff: "clash e rows \<longleftrightarrow> se_version e \<in> se_version ` set (of_stream (se_stream_id e) rows)"
  by (auto simp: clash_def of_stream_def image_iff)

text \<open>The index on stream and version and the one on \<^verbatim>\<open>_id\<close> refuse the same documents.\<close>

lemma clash_iff_id: "clash e rows \<longleftrightarrow> event_doc_id e \<in> event_doc_id ` set rows"
proof
  assume "clash e rows"
  then obtain x where "x \<in> set rows" "event_doc_id x = event_doc_id e" by (auto simp: clash_def event_doc_id_def)
  then show "event_doc_id e \<in> event_doc_id ` set rows" by (metis imageI)
next
  assume "event_doc_id e \<in> event_doc_id ` set rows"
  then obtain x where "event_doc_id e = event_doc_id x" "x \<in> set rows" by (rule imageE)
  with event_doc_id_inj[of e x] show "clash e rows" unfolding clash_def by auto
qed

lemma stream_ok_versions: "stream_ok sid es \<Longrightarrow> se_version ` set es = {1 .. int (length es)}"
proof -
  assume ok: "stream_ok sid es"
  have "se_version ` set es = (\<lambda>i. int i + 1) ` {..<length es}"
    using ok by (auto simp: stream_ok_def set_conv_nth image_iff) (metis+)
  also have "\<dots> = {1 .. int (length es)}"
  proof (intro set_eqI iffI)
    fix x assume "x \<in> {1 .. int (length es)}"
    then have "x = int (nat (x - 1)) + 1" "nat (x - 1) < length es" by auto
    then show "x \<in> (\<lambda>i. int i + 1) ` {..<length es}" by blast
  qed auto
  finally show ?thesis .
qed

lemma stream_ok_sorted: "stream_ok sid es \<Longrightarrow> sorted (map se_version es)"
  by (auto simp: stream_ok_def sorted_iff_nth_mono)

lemma stream_ok_take: "stream_ok sid (a @ b) \<Longrightarrow> stream_ok sid a"
  by (simp add: stream_ok_def nth_append) (metis trans_less_add1)

lemma stream_ok_ids: "stream_ok sid es \<Longrightarrow> e \<in> set es \<Longrightarrow> se_stream_id e = sid"
  by (auto simp: stream_ok_def in_set_conv_nth)

lemma stream_ok_next: "stream_ok sid (a @ e # b) \<Longrightarrow> se_stream_id e = sid \<and> se_version e = int (length a) + 1"
  by (auto simp: stream_ok_def dest: spec[of _ "length a"])

lemma rows_after_ok:
  "stream_ok sid (of_stream sid rows) \<Longrightarrow> rows_after sid v rows = filter (\<lambda>e. v < se_version e) (of_stream sid rows)"
  unfolding rows_after_def by (intro sort_key_id_if_sorted sorted_filter stream_ok_sorted)

lemma insert_ordered_ok:
  "stream_ok sid (of_stream sid rows @ es) \<Longrightarrow> insert_ordered es rows = (True, rows @ es)"
proof (induction es arbitrary: rows)
  case (Cons e es)
  note e = stream_ok_next[OF Cons.prems]
  have "\<not> clash e rows"
    using stream_ok_versions[OF stream_ok_take[OF Cons.prems]] e by (simp add: clash_iff)
  moreover have "of_stream sid [e] = [e]" using e by (simp add: of_stream_def)
  ultimately show ?case using Cons by simp
qed simp

lemma of_stream_new:
  assumes "stream_ok sid (of_stream sid rows @ es)"
  shows "of_stream sid es = es" "t \<noteq> sid \<Longrightarrow> of_stream t es = []"
  using stream_ok_ids[OF assms] by (auto simp: of_stream_def filter_id_conv filter_empty_conv)

subsection \<open>The MongoDB store\<close>

text \<open>The three calls the adapter makes: \<^verbatim>\<open>count_documents({"stream_id": s})\<close>, \<^verbatim>\<open>insert_many(docs, ordered=True)\<close> and
  \<^verbatim>\<open>find({"stream_id": s, "version": {"$gt": v}}, sort=[("version", 1)])\<close>.\<close>

record 'w event_collection =
  count_documents :: "string \<Rightarrow> 'w \<Rightarrow> nat"
  insert_many :: "document list \<Rightarrow> ('w, unit) act"
  find_sorted :: "string \<Rightarrow> int \<Rightarrow> 'w \<Rightarrow> document list"

definition duplicate_key :: "(exn \<Rightarrow> string) \<Rightarrow> exn \<Rightarrow> bool" where
  "duplicate_key exn_str e \<longleftrightarrow> sublist ''duplicate key'' (lower (exn_str e)) \<or> sublist ''E11000'' (exn_str e)"

definition MongoEventStore_append ::
    "'w event_collection \<Rightarrow> (exn \<Rightarrow> string) \<Rightarrow> string \<Rightarrow> StoredEvent list \<Rightarrow> int \<Rightarrow> ('w, unit) act" where
  "MongoEventStore_append c exn_str sid events expected w =
     (if events = [] then (Inr (), w)
      else let current = int (count_documents c sid w)
           in if current \<noteq> expected then (Inl (OptimisticConcurrencyError_init sid expected current), w)
              else case insert_many c (map event_to_doc events) w of
                     (Inr _, w') \<Rightarrow> (Inr (), w')
                   | (Inl e, w') \<Rightarrow>
                       if catchable e \<and> duplicate_key exn_str e
                       then (Inl (OptimisticConcurrencyError_init sid expected (int (count_documents c sid w'))), w')
                       else (Inl e, w'))"

fun from_docs :: "microseconds \<Rightarrow> document list \<Rightarrow> exn + StoredEvent list" where
  "from_docs now [] = Inr []"
| "from_docs now (d # ds) =
     (case event_from_doc now d of
        Inl e \<Rightarrow> Inl e
      | Inr ev \<Rightarrow> (case from_docs now ds of Inl e \<Rightarrow> Inl e | Inr evs \<Rightarrow> Inr (ev # evs)))"

definition MongoEventStore_load ::
    "'w event_collection \<Rightarrow> microseconds \<Rightarrow> string \<Rightarrow> int \<Rightarrow> 'w \<Rightarrow> exn + StoredEvent list" where
  "MongoEventStore_load c now sid from_version w = from_docs now (find_sorted c sid from_version w)"

lemma from_docs_map [simp]: "from_docs now (map event_to_doc evs) = Inr evs"
  by (induction evs) simp_all

definition loaded :: "exn + 'a list \<Rightarrow> 'a list" where
  "loaded r = (case r of Inr xs \<Rightarrow> xs | Inl _ \<Rightarrow> [])"

text \<open>\<open>rows w\<close> are the events whose documents the collection holds, in insertion order.\<close>

locale mongo_events =
  fixes c :: "'w event_collection" and rows :: "'w \<Rightarrow> StoredEvent list" and exn_str :: "exn \<Rightarrow> string" and now :: microseconds
  assumes count: "count_documents c sid w = length (of_stream sid (rows w))"
    and insert: "insert_many c (map event_to_doc es) w = (r, w') \<Longrightarrow>
      (r = Inr () \<longleftrightarrow> fst (insert_ordered es (rows w))) \<and> rows w' = snd (insert_ordered es (rows w))
      \<and> (\<forall>e. r = Inl e \<longrightarrow> catchable e \<and> duplicate_key exn_str e)"
    and find_docs: "find_sorted c sid v w = map event_to_doc (rows_after sid v (rows w))"

sublocale mongo_events \<subseteq> event_store "MongoEventStore_append c exn_str"
  "\<lambda>sid v w. loaded (MongoEventStore_load c now sid v w)" "\<lambda>sid w. of_stream sid (rows w)"
proof unfold_locales
  fix sid v w assume "streams_ok (\<lambda>sid w. of_stream sid (rows w)) w"
  then show "loaded (MongoEventStore_load c now sid v w) = filter (\<lambda>e. v < se_version e) (of_stream sid (rows w))"
    by (simp add: MongoEventStore_load_def find_docs loaded_def rows_after_ok streams_ok_def)
next
  fix sid w es expected r w'
  assume ok: "stream_ok sid (of_stream sid (rows w) @ es)" "es \<noteq> []" "int (length (of_stream sid (rows w))) = expected"
    and run: "MongoEventStore_append c exn_str sid es expected w = (r, w')"
  obtain r1 w1 where ins: "insert_many c (map event_to_doc es) w = (r1, w1)" by fastforce
  have "r1 = Inr ()" "rows w1 = rows w @ es" using insert[OF ins] insert_ordered_ok[OF ok(1)] by auto
  then show "r = Inr () \<and> of_stream sid (rows w') = of_stream sid (rows w) @ es
      \<and> (\<forall>t. t \<noteq> sid \<longrightarrow> of_stream t (rows w') = of_stream t (rows w))"
    using run ok ins of_stream_new[OF ok(1)] by (simp add: MongoEventStore_append_def count)
next
  fix sid w es expected r w'
  assume "es \<noteq> []" "int (length (of_stream sid (rows w))) \<noteq> expected"
    and "MongoEventStore_append c exn_str sid es expected w = (r, w')"
  then show "r = Inl (OptimisticConcurrencyError_init sid expected (int (length (of_stream sid (rows w)))))
      \<and> (\<forall>t. of_stream t (rows w') = of_stream t (rows w))"
    by (auto simp: MongoEventStore_append_def count)
qed

context mongo_events
begin

lemma mongo_event_store:
  "event_store (MongoEventStore_append c exn_str) (\<lambda>sid v w. loaded (MongoEventStore_load c now sid v w))
     (\<lambda>sid w. of_stream sid (rows w))"
  by unfold_locales

end

subsection \<open>The SQLAlchemy store\<close>

text \<open>A row of the \<^verbatim>\<open>domain_events\<close> table; \<open>json_codec\<close> is \<^verbatim>\<open>json.dumps\<close> and \<^verbatim>\<open>json.loads\<close> on metadata.\<close>

record event_row =
  er_stream_id :: string
  er_version :: int
  er_event_type :: string
  er_payload :: string
  er_metadata_json :: string
  er_occurred_at :: microseconds

record json_codec =
  dumps :: "(string, pyval) pydict \<Rightarrow> string"
  loads :: "string \<Rightarrow> (string, pyval) pydict"

definition row_of :: "json_codec \<Rightarrow> StoredEvent \<Rightarrow> event_row" where
  "row_of j ev =
     \<lparr>er_stream_id = se_stream_id ev, er_version = se_version ev, er_event_type = se_event_type ev,
      er_payload = se_payload ev, er_metadata_json = dumps j (se_metadata ev), er_occurred_at = se_occurred_at ev\<rparr>"

definition event_of_row :: "json_codec \<Rightarrow> event_row \<Rightarrow> StoredEvent" where
  "event_of_row j row =
     \<lparr>se_stream_id = er_stream_id row, se_version = er_version row, se_event_type = er_event_type row,
      se_payload = er_payload row,
      se_metadata = (if er_metadata_json row \<noteq> [] then loads j (er_metadata_json row) else []),
      se_occurred_at = er_occurred_at row\<rparr>"

text \<open>The statements: the number of rows of a stream (\<^verbatim>\<open>None\<close> for no result), an insertion, the selection ordered by version.\<close>

record 'w event_session =
  select_count :: "string \<Rightarrow> 'w \<Rightarrow> nat option"
  insert_row :: "event_row \<Rightarrow> ('w, unit) act"
  select_rows :: "string \<Rightarrow> int \<Rightarrow> 'w \<Rightarrow> event_row list"

fun insert_rows :: "json_codec \<Rightarrow> 'w event_session \<Rightarrow> StoredEvent list \<Rightarrow> ('w, unit) act" where
  "insert_rows j s [] w = (Inr (), w)"
| "insert_rows j s (ev # evs) w =
     (case insert_row s (row_of j ev) w of (Inl e, w') \<Rightarrow> (Inl e, w') | (Inr _, w') \<Rightarrow> insert_rows j s evs w')"

definition SQLAlchemyEventStore_append ::
    "json_codec \<Rightarrow> 'w event_session \<Rightarrow> string \<Rightarrow> StoredEvent list \<Rightarrow> int \<Rightarrow> ('w, unit) act" where
  "SQLAlchemyEventStore_append j s sid events expected w =
     (let actual = (case select_count s sid w of None \<Rightarrow> 0 | Some n \<Rightarrow> int n)
      in if actual \<noteq> expected then (Inl (OptimisticConcurrencyError_init sid expected actual), w)
         else insert_rows j s events w)"

definition SQLAlchemyEventStore_load ::
    "json_codec \<Rightarrow> 'w event_session \<Rightarrow> string \<Rightarrow> int \<Rightarrow> 'w \<Rightarrow> StoredEvent list" where
  "SQLAlchemyEventStore_load j s sid from_version w = map (event_of_row j) (select_rows s sid from_version w)"

locale sql_events =
  fixes j :: json_codec and s :: "'w event_session" and rows :: "'w \<Rightarrow> StoredEvent list"
  assumes json: "loads j (dumps j m) = m" "dumps j m \<noteq> []"
    and count: "select_count s sid w = Some (length (of_stream sid (rows w)))"
    and insert: "insert_row s (row_of j ev) w = (r, w') \<Longrightarrow>
      (r = Inr () \<longleftrightarrow> \<not> clash ev (rows w)) \<and> rows w' = (if clash ev (rows w) then rows w else rows w @ [ev])"
    and select: "select_rows s sid v w = map (row_of j) (rows_after sid v (rows w))"
begin

lemma row_round_trip [simp]: "event_of_row j (row_of j ev) = ev"
  by (simp add: event_of_row_def row_of_def json)

lemma insert_rows_ordered:
  "insert_rows j s evs w = (r, w') \<Longrightarrow>
     (r = Inr () \<longleftrightarrow> fst (insert_ordered evs (rows w))) \<and> rows w' = snd (insert_ordered evs (rows w))"
proof (induction evs arbitrary: w)
  case (Cons ev evs)
  obtain r1 w1 where ins: "insert_row s (row_of j ev) w = (r1, w1)" by fastforce
  show ?case
  proof (cases r1)
    case (Inl e)
    then show ?thesis using Cons.prems ins insert[OF ins] by (auto split: if_splits)
  next
    case (Inr u)
    then have "\<not> clash ev (rows w)" "rows w1 = rows w @ [ev]" using insert[OF ins] by (auto split: if_splits)
    then show ?thesis using Cons.prems ins Inr Cons.IH[of w1] by simp
  qed
qed simp

end

sublocale sql_events \<subseteq> event_store "SQLAlchemyEventStore_append j s" "SQLAlchemyEventStore_load j s"
  "\<lambda>sid w. of_stream sid (rows w)"
proof unfold_locales
  fix sid v w assume "streams_ok (\<lambda>sid w. of_stream sid (rows w)) w"
  then show "SQLAlchemyEventStore_load j s sid v w = filter (\<lambda>e. v < se_version e) (of_stream sid (rows w))"
    by (simp add: SQLAlchemyEventStore_load_def select rows_after_ok streams_ok_def comp_def)
next
  fix sid w es expected r w'
  assume ok: "stream_ok sid (of_stream sid (rows w) @ es)" and "int (length (of_stream sid (rows w))) = expected"
    and "SQLAlchemyEventStore_append j s sid es expected w = (r, w')"
  then have "insert_rows j s es w = (r, w')" by (simp add: SQLAlchemyEventStore_append_def count)
  from insert_rows_ordered[OF this] insert_ordered_ok[OF ok] of_stream_new[OF ok]
  show "r = Inr () \<and> of_stream sid (rows w') = of_stream sid (rows w) @ es
      \<and> (\<forall>t. t \<noteq> sid \<longrightarrow> of_stream t (rows w') = of_stream t (rows w))" by simp
next
  fix sid w es expected r w'
  assume "int (length (of_stream sid (rows w))) \<noteq> expected"
    and "SQLAlchemyEventStore_append j s sid es expected w = (r, w')"
  then show "r = Inl (OptimisticConcurrencyError_init sid expected (int (length (of_stream sid (rows w)))))
      \<and> (\<forall>t. of_stream t (rows w') = of_stream t (rows w))"
    by (auto simp: SQLAlchemyEventStore_append_def count)
qed

context sql_events
begin

lemma sql_event_store:
  "event_store (SQLAlchemyEventStore_append j s) (SQLAlchemyEventStore_load j s) (\<lambda>sid w. of_stream sid (rows w))"
  by unfold_locales

end

subsection \<open>Concurrent appends\<close>

text \<open>
  \<^verbatim>\<open>append\<close> counts, then inserts document by document, and other writers may act in between. A writer has its request
  and a phase; the collection keeps, next to each event, the number of the writer that inserted it.
\<close>

record append_request =
  ar_stream :: string
  ar_events :: "StoredEvent list"
  ar_expected :: int

datatype append_phase = Ready | Inserting "StoredEvent list" | Stored | Refused

type_synonym owned_rows = "(nat \<times> StoredEvent) list"

inductive append_step ::
    "(nat \<Rightarrow> append_request) \<Rightarrow> owned_rows \<times> (nat \<Rightarrow> append_phase) \<Rightarrow> owned_rows \<times> (nat \<Rightarrow> append_phase) \<Rightarrow> bool"
  for R where
  nothing: "W i = Ready \<Longrightarrow> ar_events (R i) = [] \<Longrightarrow> append_step R (D, W) (D, W(i := Stored))"
| counted: "W i = Ready \<Longrightarrow> ar_events (R i) \<noteq> [] \<Longrightarrow>
    int (length (of_stream (ar_stream (R i)) (map snd D))) = ar_expected (R i) \<Longrightarrow>
    append_step R (D, W) (D, W(i := Inserting (ar_events (R i))))"
| conflict: "W i = Ready \<Longrightarrow> ar_events (R i) \<noteq> [] \<Longrightarrow>
    int (length (of_stream (ar_stream (R i)) (map snd D))) \<noteq> ar_expected (R i) \<Longrightarrow>
    append_step R (D, W) (D, W(i := Refused))"
| inserted: "W i = Inserting (e # es) \<Longrightarrow> \<not> clash e (map snd D) \<Longrightarrow>
    append_step R (D, W) (D @ [(i, e)], W(i := Inserting es))"
| duplicate: "W i = Inserting (e # es) \<Longrightarrow> clash e (map snd D) \<Longrightarrow> append_step R (D, W) (D, W(i := Refused))"
| finished: "W i = Inserting [] \<Longrightarrow> append_step R (D, W) (D, W(i := Stored))"

text \<open>Requests as the repository makes them: the events carry the stream and the versions after the expected one.\<close>

definition request_ok :: "append_request \<Rightarrow> bool" where
  "request_ok r \<longleftrightarrow> 0 \<le> ar_expected r
     \<and> (\<forall>k < length (ar_events r). se_version (ar_events r ! k) = ar_expected r + int k + 1
                                 \<and> se_stream_id (ar_events r ! k) = ar_stream r)"

definition contiguous :: "owned_rows \<Rightarrow> bool" where
  "contiguous D \<longleftrightarrow> (\<forall>sid. stream_ok sid (of_stream sid (map snd D)))"

definition phase_ok :: "owned_rows \<Rightarrow> nat \<Rightarrow> append_request \<Rightarrow> append_phase \<Rightarrow> bool" where
  "phase_ok D i r p \<longleftrightarrow>
     (case p of
        Inserting es \<Rightarrow>
          \<exists>before. ar_events r = before @ es \<and> (\<forall>e \<in> set before. (i, e) \<in> set D)
            \<and> ar_expected r + int (length before) \<le> int (length (of_stream (ar_stream r) (map snd D)))
      | Stored \<Rightarrow> \<forall>e \<in> set (ar_events r). (i, e) \<in> set D
      | _ \<Rightarrow> True)"

definition appends_inv :: "(nat \<Rightarrow> append_request) \<Rightarrow> owned_rows \<times> (nat \<Rightarrow> append_phase) \<Rightarrow> bool" where
  "appends_inv R s \<longleftrightarrow> contiguous (fst s) \<and> (\<forall>i. phase_ok (fst s) i (R i) (snd s i))"

lemma phase_ok_grows:
  "phase_ok D i r p \<Longrightarrow> phase_ok (D @ [x]) i r p"
  by (auto simp: phase_ok_def split: append_phase.splits)

lemma next_version:
  assumes "contiguous D" "request_ok r" "phase_ok D i r (Inserting (e # es))" "\<not> clash e (map snd D)"
  shows "se_stream_id e = ar_stream r \<and> se_version e = int (length (of_stream (ar_stream r) (map snd D))) + 1"
proof -
  obtain before where b: "ar_events r = before @ e # es"
      "ar_expected r + int (length before) \<le> int (length (of_stream (ar_stream r) (map snd D)))"
    using assms(3) by (auto simp: phase_ok_def)
  have e: "se_version e = ar_expected r + int (length before) + 1" "se_stream_id e = ar_stream r"
    using assms(2) b(1) by (auto simp: request_ok_def dest: spec[of _ "length before"])
  have "se_version e \<notin> {1 .. int (length (of_stream (ar_stream r) (map snd D)))}"
    using assms(4) e(2) stream_ok_versions[OF assms(1)[unfolded contiguous_def, rule_format, of "ar_stream r"]]
    by (simp add: clash_iff)
  moreover have "0 \<le> ar_expected r" using assms(2) by (simp add: request_ok_def)
  ultimately show ?thesis using e b(2) by auto
qed

lemma contiguous_insert:
  assumes "contiguous D" "se_stream_id e = sid" "se_version e = int (length (of_stream sid (map snd D))) + 1"
  shows "contiguous (D @ [(i, e)])"
  using assms by (auto simp: contiguous_def of_stream_def stream_ok_def nth_append less_Suc_eq)

lemma append_step_inv:
  assumes "append_step R s s'" "\<And>i. request_ok (R i)" "appends_inv R s"
  shows "appends_inv R s'"
  using assms(1)
proof cases
  case (inserted W i e es D)
  have inv: "contiguous D" "\<And>k. phase_ok D k (R k) (W k)" using assms(3) inserted(1) by (auto simp: appends_inv_def)
  have p: "phase_ok D i (R i) (Inserting (e # es))" using inv(2)[of i] inserted(3) by simp
  note n = next_version[OF inv(1) assms(2) p inserted(4)]
  have "phase_ok (D @ [(i, e)]) i (R i) (Inserting es)"
  proof -
    obtain before where b: "ar_events (R i) = before @ e # es" "\<forall>x \<in> set before. (i, x) \<in> set D"
        "ar_expected (R i) + int (length before) \<le> int (length (of_stream (ar_stream (R i)) (map snd D)))"
      using p by (auto simp: phase_ok_def)
    then show ?thesis
      using n by (auto simp: phase_ok_def of_stream_def intro!: exI[of _ "before @ [e]"])
  qed
  with inv n inserted(2) show ?thesis
    by (auto simp: appends_inv_def intro: contiguous_insert phase_ok_grows)
next
  case (finished W i D)
  have inv: "contiguous D" "\<And>k. phase_ok D k (R k) (W k)" using assms(3) finished(1) by (auto simp: appends_inv_def)
  have "phase_ok D i (R i) Stored" using inv(2)[of i] finished(3) by (auto simp: phase_ok_def)
  with inv finished(2) show ?thesis by (simp add: appends_inv_def)
qed (use assms(3) in \<open>auto simp: appends_inv_def phase_ok_def split: if_splits\<close>)

lemma appends_inv_reachable:
  assumes "(append_step R)\<^sup>*\<^sup>* s s'" "\<And>i. request_ok (R i)" "appends_inv R s"
  shows "appends_inv R s'"
  using assms(1,3) by (induction rule: rtranclp_induct) (auto intro: append_step_inv assms(2))

lemma appends_inv_start: "contiguous D \<Longrightarrow> appends_inv R (D, \<lambda>_. Ready)"
  by (simp add: appends_inv_def phase_ok_def)

text \<open>A contiguous collection holds one event per stream and version, so it has one owner.\<close>

lemma contiguous_owner:
  assumes "contiguous D" "(i, a) \<in> set D" "(j, b) \<in> set D"
    and "se_stream_id a = se_stream_id b" "se_version a = se_version b"
  shows "i = j"
proof -
  define mine where "mine = filter (\<lambda>x. se_stream_id (snd x) = se_stream_id a) D"
  have rows: "of_stream (se_stream_id a) (map snd D) = map snd mine"
    by (simp add: of_stream_def mine_def filter_map comp_def)
  have "stream_ok (se_stream_id a) (map snd mine)" using assms(1) by (simp add: contiguous_def flip: rows)
  then have "distinct (map (\<lambda>x. se_version (snd x)) mine)"
    by (simp add: stream_ok_def distinct_conv_nth)
  then have "inj_on (\<lambda>x. se_version (snd x)) (set mine)" by (simp add: distinct_map)
  moreover have "(i, a) \<in> set mine" "(j, b) \<in> set mine" using assms(2-4) by (auto simp: mine_def)
  ultimately have "(i, a) = (j, b)" using assms(5) inj_onD[of _ _ "(i, a)" "(j, b)"] by force
  then show ?thesis by simp
qed

text \<open>A writer that is not disturbed does what \<open>insert_ordered\<close> says.\<close>

lemma undisturbed_insert:
  assumes "W i = Inserting es"
  shows "\<exists>D'. (append_step R)\<^sup>*\<^sup>* (D, W) (D', W(i := if fst (insert_ordered es (map snd D)) then Stored else Refused))
    \<and> map snd D' = snd (insert_ordered es (map snd D))"
  using assms
proof (induction es arbitrary: D W)
  case Nil
  then show ?case using finished[of W i R D] by (intro exI[of _ D]) (simp add: r_into_rtranclp fun_upd_def)
next
  case (Cons e es)
  show ?case
  proof (cases "clash e (map snd D)")
    case True
    then show ?thesis using Cons.prems duplicate[of W i e es D R]
      by (intro exI[of _ D]) (simp add: r_into_rtranclp fun_upd_def)
  next
    case False
    have "append_step R (D, W) (D @ [(i, e)], W(i := Inserting es))" using inserted[of W i e es D R] Cons.prems False by simp
    moreover obtain D' where
      "(append_step R)\<^sup>*\<^sup>* (D @ [(i, e)], W(i := Inserting es))
         (D', W(i := if fst (insert_ordered es (map snd D @ [e])) then Stored else Refused))"
      "map snd D' = snd (insert_ordered es (map snd D @ [e]))"
      using Cons.IH[of "W(i := Inserting es)" "D @ [(i, e)]"] by fastforce
    ultimately show ?thesis using False
      by (intro exI[of _ D']) (simp add: converse_rtranclp_into_rtranclp fun_upd_def)
  qed
qed

subsection \<open>A collection in memory\<close>

definition list_collection :: "StoredEvent list event_collection" where
  "list_collection =
     \<lparr>count_documents = (\<lambda>sid w. length (of_stream sid w)),
      insert_many = (\<lambda>docs w. case from_docs 0 docs of
          Inl e \<Rightarrow> (Inl e, w)
        | Inr es \<Rightarrow> (case insert_ordered es w of (ok, w') \<Rightarrow>
            (if ok then Inr () else Inl (plain_exn (UserError ''BulkWriteError'' Exception) ''E11000''), w'))),
      find_sorted = (\<lambda>sid v w. map event_to_doc (rows_after sid v w))\<rparr>"

interpretation list_mongo: mongo_events list_collection "\<lambda>w. w" exn_message 0
  by unfold_locales (auto simp: list_collection_def duplicate_key_def plain_exn_def catchable_def isinstance_def
      issubclass_step[of "UserError _ _"] superclass.simps split: prod.splits if_splits)

text \<open>For the session any injective text of the metadata will do; metadata values are countable.\<close>

instance pyval :: countable
  by countable_datatype

definition number_codec :: json_codec where
  "number_codec = \<lparr>dumps = (\<lambda>m. show_nat (to_nat m)), loads = (\<lambda>t. from_nat (digits_val t))\<rparr>"

definition list_session :: "StoredEvent list event_session" where
  "list_session =
     \<lparr>select_count = (\<lambda>sid w. Some (length (of_stream sid w))),
      insert_row = (\<lambda>row w. let ev = event_of_row number_codec row
         in if clash ev w then (Inl (plain_exn (UserError ''IntegrityError'' Exception) ''''), w) else (Inr (), w @ [ev])),
      select_rows = (\<lambda>sid v w. map (row_of number_codec) (rows_after sid v w))\<rparr>"

interpretation list_sql: sql_events number_codec list_session "\<lambda>w. w"
proof -
  have codec: "loads number_codec (dumps number_codec m) = m" "dumps number_codec m \<noteq> []" for m
    by (simp_all add: number_codec_def)
  then have "event_of_row number_codec (row_of number_codec ev) = ev" for ev
    by (simp add: event_of_row_def row_of_def)
  with codec show "sql_events number_codec list_session (\<lambda>w. w)"
    by unfold_locales (auto simp: list_session_def Let_def split: if_splits)
qed

subsection \<open>Properties\<close>

text \<open>Two event stores that hold the same streams answer a save alike and go on holding the same streams.\<close>

lemma stores_agree:
  assumes "event_store A la ca" "event_store B lb cb"
    and "\<forall>sid. ca sid w = cb sid v" "streams_ok ca w"
    and "repo_save A ser md pre agg w = (r, agg1, w')" "repo_save B ser md pre agg v = (q, agg2, v')"
  shows "r = q \<and> agg1 = agg2 \<and> (\<forall>sid. ca sid w' = cb sid v')"
proof -
  have "streams_ok cb v" using assms(3,4) by (simp add: streams_ok_def)
  from event_store.save_cases[OF assms(1,5,4)] event_store.save_cases[OF assms(2,6) this] assms(3)
  show ?thesis by (auto simp: all_conj_distrib) metis+
qed

lemma loads_agree:
  assumes "event_store A la ca" "event_store B lb cb" "\<forall>sid. ca sid w = cb sid v" "streams_ok ca w"
  shows "repo_load la ap create pre i w = repo_load lb ap create pre i v"
proof -
  have "streams_ok cb v" using assms(3,4) by (simp add: streams_ok_def)
  then have "la sid 0 w = lb sid 0 v" for sid
    using event_store.load_content[OF assms(1,4)] event_store.load_content[OF assms(2)] assms(3) by metis
  then show ?thesis by (simp add: repo_load_def)
qed



lemma sql_refines_memory:
  assumes "sql_events j s rows"
    and "\<forall>sid. of_stream sid (rows w) = stream_content sid store" "streams_ok stream_content store"
    and "repo_save (SQLAlchemyEventStore_append j s) ser md pre agg w = (r, agg1, w')"
    and "repo_save InMemoryEventStore_append ser md pre agg store = (q, agg2, store')"
  shows "r = q \<and> agg1 = agg2 \<and> (\<forall>sid. of_stream sid (rows w') = stream_content sid store')"
proof -
  have same: "\<forall>sid. stream_content sid store = of_stream sid (rows w)" using assms(2) by simp
  show ?thesis
    using stores_agree[OF mem_store.event_store_axioms sql_events.sql_event_store[OF assms(1)] same assms(3,5,4)] by auto
qed

text \<open>C28. Concurrent appends to MongoDB, in every interleaving of their counts and insertions: every stream stays
  contiguous (versions one to its length, under its own id), an append that reports success has stored all its events,
  and of two non-empty appends that expected the same version of one stream at most one succeeds.\<close>

theorem concurrent_appends_safe:
  assumes "\<And>i. request_ok (R i)" "contiguous D0" "(append_step R)\<^sup>*\<^sup>* (D0, \<lambda>_. Ready) (D, W)"
  shows "(\<forall>sid. stream_ok sid (of_stream sid (map snd D)))
    \<and> (\<forall>i. W i = Stored \<longrightarrow> (\<forall>e \<in> set (ar_events (R i)). (i, e) \<in> set D))
    \<and> (\<forall>i j. W i = Stored \<and> W j = Stored \<and> ar_events (R i) \<noteq> [] \<and> ar_events (R j) \<noteq> []
         \<and> ar_stream (R i) = ar_stream (R j) \<and> ar_expected (R i) = ar_expected (R j) \<longrightarrow> i = j)"
proof -
  have inv: "contiguous D" "\<And>i. phase_ok D i (R i) (W i)"
    using appends_inv_reachable[OF assms(3,1) appends_inv_start[OF assms(2)]] by (auto simp: appends_inv_def)
  have stored: "(i, e) \<in> set D" if "W i = Stored" "e \<in> set (ar_events (R i))" for i e
    using inv(2)[of i] that by (auto simp: phase_ok_def)
  have first: "se_version (hd (ar_events r)) = ar_expected r + 1 \<and> se_stream_id (hd (ar_events r)) = ar_stream r"
    if "request_ok r" "ar_events r \<noteq> []" for r
    using that by (auto simp: request_ok_def hd_conv_nth)
  have "i = j" if "W i = Stored" "W j = Stored" "ar_events (R i) \<noteq> []" "ar_events (R j) \<noteq> []"
      "ar_stream (R i) = ar_stream (R j)" "ar_expected (R i) = ar_expected (R j)" for i j
    using contiguous_owner[OF inv(1) stored[of i "hd (ar_events (R i))"] stored[of j "hd (ar_events (R j))"]]
      first[OF assms(1), of i] first[OF assms(1), of j] that by simp
  with inv(1) stored show ?thesis by (auto simp: contiguous_def)
qed

text \<open>Writer 0 appends two events to a new stream; every other writer appends the second event of that stream.\<close>

definition demo_ev :: "int \<Rightarrow> StoredEvent" where
  "demo_ev v = \<lparr>se_stream_id = ''s'', se_version = v, se_event_type = ''E'', se_payload = [], se_metadata = [], se_occurred_at = 0\<rparr>"

definition demo_requests :: "nat \<Rightarrow> append_request" where
  "demo_requests i =
     (if i = 0 then \<lparr>ar_stream = ''s'', ar_events = [demo_ev 1, demo_ev 2], ar_expected = 0\<rparr>
      else \<lparr>ar_stream = ''s'', ar_events = [demo_ev 2], ar_expected = 1\<rparr>)"

lemma demo_requests_ok: "request_ok (demo_requests i)"
  by (auto simp: request_ok_def demo_requests_def demo_ev_def nth_Cons split: nat.splits)

lemma overtaking_run:
  "\<exists>W. (append_step demo_requests)\<^sup>*\<^sup>* ([], \<lambda>_. Ready) ([(0, demo_ev 1), (1, demo_ev 2)], W) \<and> W 0 = Refused \<and> W 1 = Stored"
proof -
  note simps = demo_requests_def demo_ev_def of_stream_def clash_def
  let ?step = "append_step demo_requests"
  define W1 where "W1 = (\<lambda>_ :: nat. Ready)(0 := Inserting [demo_ev 1, demo_ev 2])"
  define W2 where "W2 = W1(0 := Inserting [demo_ev 2])"
  define W3 where "W3 = W2(1 := Inserting [demo_ev 2])"
  define W4 where "W4 = W3(1 := Inserting [])"
  define W5 where "W5 = W4(1 := Stored)"
  have "?step ([], \<lambda>_. Ready) ([], W1)"
    using counted[of "\<lambda>_. Ready" 0 demo_requests "[]"] by (simp add: W1_def simps)
  moreover have "?step ([], W1) ([(0, demo_ev 1)], W2)"
    using inserted[of W1 0 "demo_ev 1" "[demo_ev 2]" "[]" demo_requests] by (simp add: W2_def W1_def clash_def)
  moreover have "?step ([(0, demo_ev 1)], W2) ([(0, demo_ev 1)], W3)"
    using counted[of W2 1 demo_requests "[(0, demo_ev 1)]"] by (simp add: W3_def W2_def W1_def simps)
  moreover have "?step ([(0, demo_ev 1)], W3) ([(0, demo_ev 1), (1, demo_ev 2)], W4)"
    using inserted[of W3 1 "demo_ev 2" "[]" "[(0, demo_ev 1)]" demo_requests]
    by (simp add: W4_def W3_def clash_def demo_ev_def)
  moreover have "?step ([(0, demo_ev 1), (1, demo_ev 2)], W4) ([(0, demo_ev 1), (1, demo_ev 2)], W5)"
    using finished[of W4 1 demo_requests] by (simp add: W5_def W4_def)
  moreover have "?step ([(0, demo_ev 1), (1, demo_ev 2)], W5) ([(0, demo_ev 1), (1, demo_ev 2)], W5(0 := Refused))"
    using duplicate[of W5 0 "demo_ev 2" "[]" "[(0, demo_ev 1), (1, demo_ev 2)]" demo_requests]
    by (simp add: W5_def W4_def W3_def W2_def clash_def)
  ultimately have "?step\<^sup>*\<^sup>* ([], \<lambda>_. Ready) ([(0, demo_ev 1), (1, demo_ev 2)], W5(0 := Refused))"
    by (meson converse_rtranclp_into_rtranclp rtranclp.rtrancl_refl)
  then show ?thesis by (auto simp: W5_def)
qed

theorem concurrent_appends_safe_witness:
  "stream_ok ''s'' (of_stream ''s'' (map snd [(0 :: nat, demo_ev 1), (1, demo_ev 2)]))"
proof -
  obtain W where run: "(append_step demo_requests)\<^sup>*\<^sup>* ([], \<lambda>_. Ready) ([(0, demo_ev 1), (1, demo_ev 2)], W)"
    using overtaking_run by blast
  have "contiguous []" by (simp add: contiguous_def)
  from concurrent_appends_safe[of demo_requests, OF demo_requests_ok this run] show ?thesis by blast
qed

text \<open>An append of several events to MongoDB is not atomic: when another writer takes a later version between two of
  its insertions, it reports \<^verbatim>\<open>OptimisticConcurrencyError\<close> while its first events stay stored.\<close>

theorem mongo_append_partial:
  "\<exists>R D W e. (\<forall>i. request_ok (R i)) \<and> (append_step R)\<^sup>*\<^sup>* ([], \<lambda>_. Ready) (D, W)
     \<and> W 0 = Refused \<and> e \<in> set (ar_events (R 0)) \<and> (0, e) \<in> set D"
proof -
  obtain W where "(append_step demo_requests)\<^sup>*\<^sup>* ([], \<lambda>_. Ready) ([(0, demo_ev 1), (1, demo_ev 2)], W)" "W 0 = Refused"
    using overtaking_run by blast
  moreover have "demo_ev 1 \<in> set (ar_events (demo_requests 0))" by (simp add: demo_requests_def)
  ultimately show ?thesis using demo_requests_ok by (metis list.set_intros(1))
qed

end
