(* ===== verification/Redis_Adapters.thy ===== *)
theory Redis_Adapters
  imports Redis_Breaker Rate_Limit Pipeline "HOL-Library.Countable"
begin

text \<open>
  The Redis adapters (\<^verbatim>\<open>adapters/redis\<close>): the lock, the rate limiter and the idempotency store. Redis is the parameter
  \<open>redis_ops\<close> of the circuit breaker; \<^verbatim>\<open>SET EX\<close>, \<^verbatim>\<open>EXPIRE\<close> and the passing of time are further parameters with their
  documented behaviour as laws. The lock is examined under every interleaving of its users.
\<close>

subsection \<open>The lock\<close>

record RedisLock =
  lk_name :: string
  lk_ttl_ms :: nat
  lk_token :: "string option"

definition RedisLock_init :: "string \<Rightarrow> nat \<Rightarrow> RedisLock" where
  "RedisLock_init name ttl_ms = \<lparr>lk_name = ''lock:'' @ name, lk_ttl_ms = ttl_ms, lk_token = None\<rparr>"

text \<open>\<open>uuid\<close> is the value of \<^verbatim>\<open>uuid.uuid4()\<close>.\<close>

definition RedisLock_acquire ::
    "'w redis_ops \<Rightarrow> string \<Rightarrow> RedisLock \<Rightarrow> 'w \<Rightarrow> bool \<times> RedisLock \<times> 'w" where
  "RedisLock_acquire r uuid l w =
     (case redis_set_nx r (lk_name l) uuid (lk_ttl_ms l) w of
        (result, w') \<Rightarrow> if result then (True, l\<lparr>lk_token := Some uuid\<rparr>, w') else (False, l, w'))"

text \<open>The release script compares and deletes in one atomic step.\<close>

definition RedisLock_release :: "'w redis_ops \<Rightarrow> RedisLock \<Rightarrow> 'w \<Rightarrow> RedisLock \<times> 'w" where
  "RedisLock_release r l w =
     (case lk_token l of
        None \<Rightarrow> (l, w)
      | Some token \<Rightarrow>
          (l\<lparr>lk_token := None\<rparr>, if redis_get r (lk_name l) w = Some token then redis_del r (lk_name l) w else w))"

definition RedisLock_enter :: "'w redis_ops \<Rightarrow> string \<Rightarrow> RedisLock \<Rightarrow> 'w \<Rightarrow> (exn + unit) \<times> RedisLock \<times> 'w" where
  "RedisLock_enter r uuid l w =
     (case RedisLock_acquire r uuid l w of
        (acquired, l', w') \<Rightarrow>
          (if acquired then Inr () else Inl (base_exn ConflictError (''Could not acquire lock '' @ quoted (lk_name l))), l', w'))"

subsection \<open>Users of one lock\<close>

text \<open>Users are numbered and each has its own lock object; a token is drawn only once. Redis may drop the key at any
  moment when its time is over.\<close>

datatype lock_event = Acquire nat | Release nat | Expire

inductive lock_step ::
    "'w redis_ops \<Rightarrow> string \<Rightarrow> lock_event \<Rightarrow> 'w \<times> (nat \<Rightarrow> RedisLock) \<times> string set
      \<Rightarrow> 'w \<times> (nat \<Rightarrow> RedisLock) \<times> string set \<Rightarrow> bool"
  for r key where
  acquire: "u \<notin> used \<Longrightarrow> RedisLock_acquire r u (L i) w = (b, l, w') \<Longrightarrow>
    lock_step r key (Acquire i) (w, L, used) (w', L(i := l), insert u used)"
| release: "RedisLock_release r (L i) w = (l, w') \<Longrightarrow> lock_step r key (Release i) (w, L, used) (w', L(i := l), used)"
| expiry: "redis_get r key w' = None \<Longrightarrow> lock_step r key Expire (w, L, used) (w', L, used)"

inductive lock_run ::
    "'w redis_ops \<Rightarrow> string \<Rightarrow> lock_event list \<Rightarrow> 'w \<times> (nat \<Rightarrow> RedisLock) \<times> string set
      \<Rightarrow> 'w \<times> (nat \<Rightarrow> RedisLock) \<times> string set \<Rightarrow> bool"
  for r key where
  nothing: "lock_run r key [] s s"
| more: "lock_run r key es s s' \<Longrightarrow> lock_step r key e s' s'' \<Longrightarrow> lock_run r key (es @ [e]) s s''"

definition owns :: "'w redis_ops \<Rightarrow> string \<Rightarrow> 'w \<times> (nat \<Rightarrow> RedisLock) \<times> string set \<Rightarrow> nat \<Rightarrow> bool" where
  "owns r key s i \<longleftrightarrow> (case s of (w, L, used) \<Rightarrow> lk_token (L i) \<noteq> None \<and> redis_get r key w = lk_token (L i))"

definition lock_inv :: "'w redis_ops \<Rightarrow> string \<Rightarrow> 'w \<times> (nat \<Rightarrow> RedisLock) \<times> string set \<Rightarrow> bool" where
  "lock_inv r key s \<longleftrightarrow> (case s of (w, L, used) \<Rightarrow>
     (\<forall>i. lk_name (L i) = key) \<and> (\<forall>i t. lk_token (L i) = Some t \<longrightarrow> t \<in> used)
     \<and> (\<forall>i j t. lk_token (L i) = Some t \<and> lk_token (L j) = Some t \<longrightarrow> i = j)
     \<and> (\<forall>t. redis_get r key w = Some t \<longrightarrow> t \<in> used))"

text \<open>Without expiry the key is there whenever a user holds a token, and it has that token.\<close>

definition lock_tight :: "'w redis_ops \<Rightarrow> string \<Rightarrow> 'w \<times> (nat \<Rightarrow> RedisLock) \<times> string set \<Rightarrow> bool" where
  "lock_tight r key s \<longleftrightarrow> (case s of (w, L, used) \<Rightarrow> \<forall>i t. lk_token (L i) = Some t \<longrightarrow> redis_get r key w = Some t)"

lemma lock_invD: "lock_inv r key (w, L, used) \<Longrightarrow> lk_token (L i) = Some x \<Longrightarrow> lk_token (L j) = Some x \<Longrightarrow> i = j"
  unfolding lock_inv_def by blast

lemma lock_tightD: "lock_tight r key (w, L, used) \<Longrightarrow> lk_token (L i) = Some x \<Longrightarrow> redis_get r key w = Some x"
  unfolding lock_tight_def by blast

lemma set_nx_cases:
  assumes "redis_laws r" "redis_set_nx r k v ttl w = (b, w')"
  shows "b \<longleftrightarrow> redis_get r k w = None"
    and "redis_get r k w' = (if redis_get r k w = None then Some v else redis_get r k w)"
proof -
  note nx = redis_lawsD(3,4)[OF assms(1)]
  show "b \<longleftrightarrow> redis_get r k w = None" using nx(1)[of k v ttl w] assms(2) by simp
  show "redis_get r k w' = (if redis_get r k w = None then Some v else redis_get r k w)"
    using nx(2)[of k k v ttl w] assms(2) by simp
qed

lemma acquire_cases:
  assumes "redis_laws r" "RedisLock_acquire r u l w = (b, l', w')"
  shows "if redis_get r (lk_name l) w = None
     then b \<and> l' = l\<lparr>lk_token := Some u\<rparr> \<and> redis_get r (lk_name l) w' = Some u
     else \<not> b \<and> l' = l \<and> redis_get r (lk_name l) w' = redis_get r (lk_name l) w"
proof -
  obtain c v where "redis_set_nx r (lk_name l) u (lk_ttl_ms l) w = (c, v)" by fastforce
  with set_nx_cases[OF assms(1) this] assms(2) show ?thesis by (auto simp: RedisLock_acquire_def split: if_splits)
qed

lemma release_cases:
  assumes "redis_laws r" "RedisLock_release r l w = (l', w')"
  shows "l' = l\<lparr>lk_token := None\<rparr>
    \<and> redis_get r (lk_name l) w' =
        (if lk_token l \<noteq> None \<and> redis_get r (lk_name l) w = lk_token l then None else redis_get r (lk_name l) w)"
  using assms by (auto simp: RedisLock_release_def redis_lawsD(5)[OF assms(1)] split: option.splits if_splits)

lemma lock_step_inv:
  assumes "lock_step r key e s s'" "redis_laws r" "lock_inv r key s"
  shows "lock_inv r key s'"
  using assms(1)
proof cases
  case (acquire u used L i w b l w')
  have inv: "lock_inv r key (w, L, used)" using assms(3) acquire(2) by simp
  then have "lk_name (L i) = key" by (simp add: lock_inv_def)
  with acquire_cases[OF assms(2) acquire(5)] inv acquire(3,4) show ?thesis
    by (auto simp: lock_inv_def split: if_splits)
next
  case (release L i w l w' used)
  have inv: "lock_inv r key (w, L, used)" using assms(3) release(2) by simp
  then have "lk_name (L i) = key" by (simp add: lock_inv_def)
  with release_cases[OF assms(2) release(4)] inv release(3) show ?thesis
    by (auto simp: lock_inv_def split: if_splits)
next
  case (expiry w' w L used)
  then show ?thesis using assms(3) by (auto simp: lock_inv_def)
qed

lemma lock_step_owns:
  assumes "lock_step r key e s s'" "redis_laws r" "lock_inv r key s" "owns r key s i" "e \<noteq> Release i" "e \<noteq> Expire"
  shows "owns r key s' i"
  using assms(1)
proof cases
  case (acquire u used L k w b l w')
  have inv: "lock_inv r key (w, L, used)" and own: "owns r key (w, L, used) i" using assms(3,4) acquire(2) by simp_all
  then have "lk_name (L k) = key" by (simp add: lock_inv_def)
  with acquire_cases[OF assms(2) acquire(5)] own acquire(3) show ?thesis by (auto simp: owns_def split: if_splits)
next
  case (release L k w l w' used)
  have inv: "lock_inv r key (w, L, used)" and own: "owns r key (w, L, used) i" using assms(3,4) release(2) by simp_all
  have "k \<noteq> i" using assms(5) release(1) by auto
  then have "lk_token (L k) \<noteq> lk_token (L i)" using inv own by (fastforce simp: lock_inv_def owns_def)
  moreover have "lk_name (L k) = key" using inv by (simp add: lock_inv_def)
  ultimately show ?thesis
    using release_cases[OF assms(2) release(4)] own release(3) \<open>k \<noteq> i\<close> by (auto simp: owns_def split: if_splits)
qed (use assms(6) in simp)

lemma lock_step_tight:
  assumes "lock_step r key e s s'" "redis_laws r" "lock_inv r key s" "lock_tight r key s" "e \<noteq> Expire"
  shows "lock_tight r key s'"
  using assms(1)
proof cases
  case (acquire u used L k w b l w')
  have "lock_inv r key (w, L, used)" and t: "lock_tight r key (w, L, used)" using assms(3,4) acquire(2) by simp_all
  then have "lk_name (L k) = key" by (simp add: lock_inv_def)
  with acquire_cases[OF assms(2) acquire(5)] t acquire(3) show ?thesis
    by (auto simp: lock_tight_def split: if_splits)
next
  case (release L k w l w' used)
  have inv: "lock_inv r key (w, L, used)" and t: "lock_tight r key (w, L, used)" using assms(3,4) release(2) by simp_all
  have name: "lk_name (L k) = key" using inv by (simp add: lock_inv_def)
  have "redis_get r key w' = Some x" if "lk_token ((L(k := l)) j) = Some x" for j x
  proof -
    have j: "j \<noteq> k" "lk_token (L j) = Some x" using that release_cases[OF assms(2) release(4)] by (auto split: if_splits)
    then have "redis_get r key w = Some x" "lk_token (L k) \<noteq> Some x" using t inv by (auto simp: lock_tight_def lock_inv_def)
    then show ?thesis using release_cases[OF assms(2) release(4)] name by simp
  qed
  then show ?thesis using release(3) by (simp add: lock_tight_def)
qed (use assms(5) in simp)

lemma lock_run_inv:
  assumes "lock_run r key es s s'" "redis_laws r" "lock_inv r key s"
  shows "lock_inv r key s' \<and> (lock_tight r key s \<and> Expire \<notin> set es \<longrightarrow> lock_tight r key s')"
  using assms by (induction rule: lock_run.induct) (auto intro: lock_step_inv lock_step_tight)

subsection \<open>The rate limiter\<close>

text \<open>\<open>expire\<close> is \<^verbatim>\<open>EXPIRE\<close>; the pipeline runs \<^verbatim>\<open>INCR\<close> and \<^verbatim>\<open>EXPIRE\<close> in one transaction.\<close>

definition RedisRateLimiter_check ::
    "'w redis_ops \<Rightarrow> (string \<Rightarrow> int \<Rightarrow> 'w \<Rightarrow> 'w) \<Rightarrow> ('w \<Rightarrow> int) \<Rightarrow> Quota \<Rightarrow> string \<Rightarrow> 'w \<Rightarrow> RateLimitResult \<times> 'w" where
  "RedisRateLimiter_check r expire now q identifier w =
     (let key = ''rl:'' @ rl_key q identifier
      in case redis_incr r key w of
           (cnt, w1) \<Rightarrow>
             let w2 = expire key (q_window_seconds q) w1
             in (\<lparr>rl_decision = (if cnt \<le> q_limit q then ALLOWED else DENIED), rl_remaining = max 0 (q_limit q - cnt),
                  rl_reset_at = now w2, rl_quota = q\<rparr>, w2))"

definition RedisRateLimiter_reset :: "'w redis_ops \<Rightarrow> Quota \<Rightarrow> string \<Rightarrow> 'w \<Rightarrow> 'w" where
  "RedisRateLimiter_reset r q identifier w = redis_del r (''rl:'' @ rl_key q identifier) w"

text \<open>Expiry: \<open>advance d\<close> lets \<open>d\<close> seconds pass, a key with a deadline is gone when it is reached.\<close>

record 'w redis_time =
  rt_expire :: "string \<Rightarrow> int \<Rightarrow> 'w \<Rightarrow> 'w"
  rt_deadline :: "string \<Rightarrow> 'w \<Rightarrow> int option"
  rt_clock :: "'w \<Rightarrow> int"
  rt_advance :: "int \<Rightarrow> 'w \<Rightarrow> 'w"

definition expiry_laws :: "'w redis_ops \<Rightarrow> 'w redis_time \<Rightarrow> bool" where
  "expiry_laws r t \<longleftrightarrow>
     (\<forall>k n w. 0 < n \<and> redis_get r k w \<noteq> None \<longrightarrow>
        redis_get r k (rt_expire t k n w) = redis_get r k w
        \<and> rt_deadline t k (rt_expire t k n w) = Some (rt_clock t w + n)
        \<and> rt_clock t (rt_expire t k n w) = rt_clock t w)
     \<and> (\<forall>k n d w. rt_deadline t k w = Some n \<and> 0 \<le> d \<longrightarrow>
        redis_get r k (rt_advance t d w) = (if rt_clock t w + d < n then redis_get r k w else None))"

text \<open>A client that sends requests \<open>gaps\<close> seconds apart.\<close>

fun redis_requests ::
    "'w redis_ops \<Rightarrow> 'w redis_time \<Rightarrow> ('w \<Rightarrow> int) \<Rightarrow> Quota \<Rightarrow> string \<Rightarrow> int list \<Rightarrow> 'w \<Rightarrow> bool list" where
  "redis_requests r t now q identifier [] w = []"
| "redis_requests r t now q identifier (d # gaps) w =
     (case RedisRateLimiter_check r (rt_expire t) now q identifier w of
        (res, w') \<Rightarrow> rl_allowed res # redis_requests r t now q identifier gaps (rt_advance t d w'))"

lemma redis_check_step:
  assumes "redis_laws r" "expiry_laws r t" "0 < q_window_seconds q"
    and "redis_get r (''rl:'' @ rl_key q i) w = Some (show_int n) \<or> redis_get r (''rl:'' @ rl_key q i) w = None \<and> n = 0"
    and "RedisRateLimiter_check r (rt_expire t) now q i w = (res, w')" "0 \<le> d" "d < q_window_seconds q"
  shows "rl_allowed res \<longleftrightarrow> n + 1 \<le> q_limit q"
    and "redis_get r (''rl:'' @ rl_key q i) (rt_advance t d w') = Some (show_int (n + 1))"
proof -
  let ?k = "''rl:'' @ rl_key q i" and ?s = "q_window_seconds q"
  note inc = redis_incrD[OF assms(1,4)]
  define w1 where "w1 = snd (redis_incr r ?k w)"
  have g: "redis_get r ?k w1 = Some (show_int (n + 1))" using inc(2)[of ?k] by (simp add: w1_def)
  have w': "w' = rt_expire t ?k ?s w1" and res: "rl_decision res = (if n + 1 \<le> q_limit q then ALLOWED else DENIED)"
    using assms(5) inc(1) by (auto simp: RedisRateLimiter_check_def w1_def Let_def split: prod.splits)
  show "rl_allowed res \<longleftrightarrow> n + 1 \<le> q_limit q" using res by (simp add: rl_allowed_def)
  have "redis_get r ?k w' = redis_get r ?k w1" "rt_deadline t ?k w' = Some (rt_clock t w1 + ?s)" "rt_clock t w' = rt_clock t w1"
    using assms(2,3) g by (simp_all add: expiry_laws_def w')
  moreover have "redis_get r ?k (rt_advance t d w') = (if rt_clock t w' + d < rt_clock t w1 + ?s then redis_get r ?k w' else None)"
    using assms(2,6) calculation(2) unfolding expiry_laws_def by blast
  ultimately show "redis_get r ?k (rt_advance t d w') = Some (show_int (n + 1))" using assms(7) g by simp
qed

lemma redis_requests_counted:
  assumes "redis_laws r" "expiry_laws r t" "0 < q_window_seconds q"
    and "redis_get r (''rl:'' @ rl_key q i) w = Some (show_int n) \<or> redis_get r (''rl:'' @ rl_key q i) w = None \<and> n = 0"
    and "\<forall>d \<in> set gaps. 0 \<le> d \<and> d < q_window_seconds q"
  shows "redis_requests r t now q i gaps w = map (\<lambda>k. n + int k + 1 \<le> q_limit q) [0..<length gaps]"
  using assms(4,5)
proof (induction gaps arbitrary: w n)
  case (Cons d gaps)
  obtain res w' where c: "RedisRateLimiter_check r (rt_expire t) now q i w = (res, w')" by fastforce
  have d: "0 \<le> d" "d < q_window_seconds q" using Cons.prems by auto
  note step = redis_check_step[OF assms(1-3) Cons.prems(1) c d]
  have "redis_requests r t now q i gaps (rt_advance t d w') = map (\<lambda>k. n + 1 + int k + 1 \<le> q_limit q) [0..<length gaps]"
    using Cons.IH[of "rt_advance t d w'" "n + 1"] step(2) Cons.prems(2) by simp
  then show ?case using c step(1)
    by (simp add: upt_conv_Cons map_Suc_upt[symmetric] comp_def ac_simps del: upt_Suc)
qed simp

subsection \<open>The idempotency store\<close>

text \<open>\<open>set_ex\<close> is \<^verbatim>\<open>SET key value EX ttl\<close>; the codec is \<^verbatim>\<open>json.dumps\<close> and \<^verbatim>\<open>json.loads\<close> on the three stored fields.\<close>

record idem_codec =
  ic_dumps :: "string \<times> string option \<times> string \<Rightarrow> string"
  ic_loads :: "string \<Rightarrow> string \<times> string option \<times> string"

definition redis_idem_key :: "IdempotencyKey \<Rightarrow> string" where
  "redis_idem_key k = ''idempotency:'' @ IdempotencyKey_str k"

definition RedisIdempotencyStore_get ::
    "'w redis_ops \<Rightarrow> idem_codec \<Rightarrow> ('w \<Rightarrow> microseconds) \<Rightarrow> IdempotencyKey \<Rightarrow> 'w \<Rightarrow> IdempotencyRecord option" where
  "RedisIdempotencyStore_get r c now k w =
     (case redis_get r (redis_idem_key k) w of
        None \<Rightarrow> None
      | Some raw \<Rightarrow>
          (case ic_loads c raw of (key, response, status) \<Rightarrow>
             Some \<lparr>ir_key = key, ir_response = response, ir_status = status, ir_created_at = now w, ir_expires_at = None\<rparr>))"

definition RedisIdempotencyStore_save ::
    "(string \<Rightarrow> string \<Rightarrow> nat \<Rightarrow> 'w \<Rightarrow> 'w) \<Rightarrow> idem_codec \<Rightarrow> nat \<Rightarrow> IdempotencyKey \<Rightarrow> IdempotencyRecord \<Rightarrow> 'w \<Rightarrow> 'w" where
  "RedisIdempotencyStore_save set_ex c ttl k record w =
     set_ex (redis_idem_key k) (ic_dumps c (ir_key record, None, ir_status record)) ttl w"

definition RedisIdempotencyStore_complete ::
    "'w redis_ops \<Rightarrow> (string \<Rightarrow> string \<Rightarrow> nat \<Rightarrow> 'w \<Rightarrow> 'w) \<Rightarrow> idem_codec \<Rightarrow> ('w \<Rightarrow> microseconds) \<Rightarrow> nat
      \<Rightarrow> IdempotencyKey \<Rightarrow> string \<Rightarrow> 'w \<Rightarrow> 'w" where
  "RedisIdempotencyStore_complete r set_ex c now ttl k response w =
     (case RedisIdempotencyStore_get r c now k w of
        None \<Rightarrow> w
      | Some record \<Rightarrow> set_ex (redis_idem_key k) (ic_dumps c (ir_key record, Some response, ''COMPLETED'')) ttl w)"

definition redis_idem_port ::
    "'w redis_ops \<Rightarrow> (string \<Rightarrow> string \<Rightarrow> nat \<Rightarrow> 'w \<Rightarrow> 'w) \<Rightarrow> idem_codec \<Rightarrow> ('w \<Rightarrow> microseconds) \<Rightarrow> nat \<Rightarrow> 'w idem_port" where
  "redis_idem_port r set_ex c now ttl =
     \<lparr>idem_get = RedisIdempotencyStore_get r c now, idem_save = RedisIdempotencyStore_save set_ex c ttl,
      idem_complete = RedisIdempotencyStore_complete r set_ex c now ttl, idem_now = now\<rparr>"

locale redis_idempotency =
  fixes r :: "'w redis_ops" and set_ex :: "string \<Rightarrow> string \<Rightarrow> nat \<Rightarrow> 'w \<Rightarrow> 'w" and c :: idem_codec
    and now :: "'w \<Rightarrow> microseconds" and ttl :: nat
  assumes codec: "ic_loads c (ic_dumps c d) = d"
    and get_set_ex: "redis_get r k' (set_ex k v ttl w) = (if k' = k then Some v else redis_get r k' w)"

text \<open>The Redis store is a provider of the port the deduplication middleware relies on.\<close>

sublocale redis_idempotency \<subseteq> idempotency_store "redis_idem_port r set_ex c now ttl"
  by unfold_locales
     (auto simp: redis_idem_port_def RedisIdempotencyStore_get_def RedisIdempotencyStore_save_def
       RedisIdempotencyStore_complete_def codec get_set_ex split: option.splits prod.splits)

subsection \<open>A server with a clock\<close>

type_synonym timed_redis = "(string, string \<times> int option) pydict \<times> int"

definition live :: "string \<Rightarrow> timed_redis \<Rightarrow> string option" where
  "live k s =
     (case map_of (fst s) k of
        None \<Rightarrow> None
      | Some (v, dl) \<Rightarrow> (case dl of None \<Rightarrow> Some v | Some n \<Rightarrow> if n \<le> snd s then None else Some v))"

definition put_live :: "string \<Rightarrow> string \<Rightarrow> timed_redis \<Rightarrow> timed_redis" where
  "put_live k v s = (dict_set k (v, None) (fst s), snd s)"

definition timed_ops :: "timed_redis redis_ops" where
  "timed_ops =
     \<lparr>redis_get = live,
      redis_set = put_live,
      redis_set_xx = (\<lambda>k v s. if live k s = None then s else put_live k v s),
      redis_set_nx = (\<lambda>k v ttl s. if live k s = None then (True, put_live k v s) else (False, s)),
      redis_incr = (\<lambda>k s. let n = (case live k s of None \<Rightarrow> 0 | Some t \<Rightarrow> int_of_str t) + 1 in (n, put_live k (show_int n) s)),
      redis_del = (\<lambda>k s. (dict_pop k (fst s), snd s))\<rparr>"

definition timed_time :: "timed_redis redis_time" where
  "timed_time =
     \<lparr>rt_expire = (\<lambda>k n s. case live k s of None \<Rightarrow> s | Some v \<Rightarrow> (dict_set k (v, Some (snd s + n)) (fst s), snd s)),
      rt_deadline = (\<lambda>k s. case map_of (fst s) k of None \<Rightarrow> None | Some (v, dl) \<Rightarrow> dl),
      rt_clock = snd,
      rt_advance = (\<lambda>d s. (fst s, snd s + d))\<rparr>"

lemma live_put [simp]: "live k' (put_live k v s) = (if k' = k then Some v else live k' s)"
  by (cases s) (simp add: live_def put_live_def split: option.split)

lemma live_pop [simp]: "live k' (dict_pop k (fst s), snd s) = (if k' = k then None else live k' s)"
  by (cases s) (simp add: live_def split: option.split)

lemma timed_laws: "redis_laws timed_ops"
  by (auto simp: redis_laws_def timed_ops_def Let_def split: option.splits)

lemma timed_expiry: "expiry_laws timed_ops timed_time"
  by (auto simp: expiry_laws_def timed_ops_def timed_time_def live_def split: option.splits if_splits)

definition number_idem_codec :: idem_codec where
  "number_idem_codec = \<lparr>ic_dumps = (\<lambda>d. show_nat (to_nat d)), ic_loads = (\<lambda>t. from_nat (digits_val t))\<rparr>"

interpretation timed_idem: redis_idempotency timed_ops "\<lambda>k v ttl. put_live k v" number_idem_codec "\<lambda>s. snd s" ttl
  by unfold_locales (simp_all add: number_idem_codec_def timed_ops_def)

subsection \<open>Properties\<close>



text \<open>The Redis rate limiter renews the expiry with every request, refused ones included: a client whose requests
  come less than a window apart is let through exactly \<^verbatim>\<open>limit\<close> times and then refused for good, however slow it is.\<close>

theorem redis_rate_limit_never_resets:
  assumes "redis_laws r" "expiry_laws r t" "0 < q_window_seconds q"
    and "redis_get r (''rl:'' @ rl_key q i) w = None" "\<forall>d \<in> set gaps. 0 \<le> d \<and> d < q_window_seconds q"
  shows "redis_requests r t now q i gaps w = map (\<lambda>k. int k < q_limit q) [0..<length gaps]"
  using redis_requests_counted[OF assms(1-3), of i w 0 gaps now] assms(4,5) by (simp add: add1_zle_eq)

theorem redis_rate_limit_never_resets_witness:
  "redis_requests timed_ops timed_time (\<lambda>_. 0) \<lparr>q_key = ''api'', q_limit = 1, q_window_seconds = 60\<rparr> ''bob'' [59, 59, 59] ([], 0)
     = [True, False, False]"
  using redis_rate_limit_never_resets[OF timed_laws timed_expiry, of "\<lparr>q_key = ''api'', q_limit = 1, q_window_seconds = 60\<rparr>"
      "''bob''" "([], 0)" "[59, 59, 59]" "\<lambda>_. 0"]
  by (simp add: timed_ops_def live_def upt_conv_Cons)

end
