(* ===== verification/Redis_Streams.thy ===== *)
theory Redis_Streams
  imports Outbox "HOL-Library.Sublist"
begin

text \<open>
  Redis Streams (\<^verbatim>\<open>adapters/redis/streams.py\<close>): entries, the producer, the consumer group and the outbox dispatcher. The
  commands of the Redis client (\<open>xadd\<close>, \<open>xgroup_create\<close>, \<open>xreadgroup\<close>, \<open>xack\<close>) are parameters; they answer with bytes or with
  text, depending on how the client is configured.
\<close>

subsection \<open>Entries\<close>

datatype redis_text = RBytes string | RStr string

primrec decoded :: "redis_text \<Rightarrow> string" where
  "decoded (RBytes s) = s"
| "decoded (RStr s) = s"

record RedisStreamEntry =
  se_id :: string
  se_fields :: "(redis_text, redis_text) pydict"

definition field_str :: "RedisStreamEntry \<Rightarrow> string \<Rightarrow> string \<Rightarrow> string" where
  "field_str entry key dflt =
     (case (case map_of (se_fields entry) (RStr key) of None \<Rightarrow> map_of (se_fields entry) (RBytes key) | Some v \<Rightarrow> Some v) of
        None \<Rightarrow> dflt | Some v \<Rightarrow> decoded v)"

subsection \<open>Producer and consumer group\<close>

definition RedisStreamProducer_publish ::
    "(string \<Rightarrow> (string, string) pydict \<Rightarrow> (nat \<times> bool) option \<Rightarrow> ('w, redis_text) act)
      \<Rightarrow> string \<Rightarrow> (string, string) pydict \<Rightarrow> nat option \<Rightarrow> ('w, string) act" where
  "RedisStreamProducer_publish xadd stream flds maxlen w =
     (case xadd stream flds (map_option (\<lambda>n. (n, True)) maxlen) w of
        (Inl e, w') \<Rightarrow> (Inl e, w')
      | (Inr entry_id, w') \<Rightarrow> (Inr (decoded entry_id), w'))"

definition create_group :: "(string \<Rightarrow> string \<Rightarrow> string \<Rightarrow> bool \<Rightarrow> ('w, unit) act) \<Rightarrow> (exn \<Rightarrow> string)
      \<Rightarrow> string \<Rightarrow> string \<Rightarrow> string \<Rightarrow> bool \<Rightarrow> ('w, unit) act" where
  "create_group xgroup_create exn_str stream grp start_id mkstream w =
     (case xgroup_create stream grp start_id mkstream w of
        (Inl e, w') \<Rightarrow> if catchable e \<and> sublist ''BUSYGROUP'' (exn_str e) then (Inr (), w') else (Inl e, w')
      | (Inr _, w') \<Rightarrow> (Inr (), w'))"

definition decode_fields :: "(redis_text, redis_text) pydict \<Rightarrow> (redis_text, redis_text) pydict" where
  "decode_fields msg_fields = fold (\<lambda>(k, v) d. dict_set (RStr (decoded k)) v d) msg_fields []"

definition stream_read ::
    "(string \<Rightarrow> string \<Rightarrow> string \<Rightarrow> nat \<Rightarrow> nat option
        \<Rightarrow> ('w, (redis_text \<times> (redis_text \<times> (redis_text, redis_text) pydict) list) list option) act)
      \<Rightarrow> string \<Rightarrow> string \<Rightarrow> string \<Rightarrow> nat \<Rightarrow> nat \<Rightarrow> ('w, RedisStreamEntry list) act" where
  "stream_read xreadgroup stream grp consumer n block_ms w =
     (case xreadgroup grp consumer stream n (if block_ms = 0 then None else Some block_ms) w of
        (Inl e, w') \<Rightarrow> (Inl e, w')
      | (Inr results, w') \<Rightarrow>
          (Inr (concat (map (\<lambda>(_, messages). map (\<lambda>(msg_id, flds). \<lparr>se_id = decoded msg_id, se_fields = decode_fields flds\<rparr>) messages)
             (case results of None \<Rightarrow> [] | Some rs \<Rightarrow> rs))), w'))"

subsection \<open>Outbox dispatcher\<close>

definition record_fields :: "OutboxRecord \<Rightarrow> (string, string) pydict" where
  "record_fields r =
     fold (\<lambda>(k, v). dict_set k v) (ob_headers r)
       [(''id'', ob_id r), (''event_type'', ob_event_type r), (''aggregate_id'', ob_aggregate_id r),
        (''aggregate_type'', ob_aggregate_type r), (''payload'', ob_payload r)]"

definition stream_dispatch_one ::
    "(string \<Rightarrow> (string, string) pydict \<Rightarrow> ('w, string) act) \<Rightarrow> (string \<Rightarrow> ('w, unit) act)
      \<Rightarrow> (string \<Rightarrow> string \<Rightarrow> ('w, unit) act) \<Rightarrow> OutboxRecord \<Rightarrow> ('w, bool) act" where
  "stream_dispatch_one publish mark_dispatched mark_failed r w =
     (let body = (case publish (ob_topic r) (record_fields r) w of
                    (Inl e, w') \<Rightarrow> (Inl e, w')
                  | (Inr _, w') \<Rightarrow> mark_dispatched (ob_id r) w')
      in case body of
           (Inr _, w') \<Rightarrow> (Inr True, w')
         | (Inl e, w') \<Rightarrow>
             if catchable e
             then (case mark_failed (ob_id r) ''dispatch failed'' w' of
                     (Inl e', w'') \<Rightarrow> (Inl e', w'')
                   | (Inr _, w'') \<Rightarrow> (Inr False, w''))
             else (Inl e, w'))"

fun stream_dispatch_records ::
    "(string \<Rightarrow> (string, string) pydict \<Rightarrow> ('w, string) act) \<Rightarrow> (string \<Rightarrow> ('w, unit) act)
      \<Rightarrow> (string \<Rightarrow> string \<Rightarrow> ('w, unit) act) \<Rightarrow> OutboxRecord list \<Rightarrow> nat \<Rightarrow> ('w, nat) act" where
  "stream_dispatch_records publish md mf [] dispatched w = (Inr dispatched, w)"
| "stream_dispatch_records publish md mf (r # rs) dispatched w =
     (case stream_dispatch_one publish md mf r w of
        (Inl e, w') \<Rightarrow> (Inl e, w')
      | (Inr ok, w') \<Rightarrow> stream_dispatch_records publish md mf rs (if ok then Suc dispatched else dispatched) w')"

definition stream_dispatch_pending ::
    "('w, OutboxRecord list) act \<Rightarrow> (string \<Rightarrow> (string, string) pydict \<Rightarrow> ('w, string) act) \<Rightarrow> (string \<Rightarrow> ('w, unit) act)
      \<Rightarrow> (string \<Rightarrow> string \<Rightarrow> ('w, unit) act) \<Rightarrow> ('w, nat) act" where
  "stream_dispatch_pending get_pending publish md mf w =
     (case get_pending w of
        (Inl e, w') \<Rightarrow> (Inl e, w')
      | (Inr records, w') \<Rightarrow> stream_dispatch_records publish md mf records 0 w')"

subsection \<open>Fields that were sent are the fields that are read\<close>

lemma fold_dict_set_str:
  "distinct (map (\<lambda>(k, v). decoded k) fs) \<Longrightarrow>
     map_of (fold (\<lambda>(k, v) d. dict_set (RStr (decoded k)) v d) fs d) (RStr key)
       = (case find (\<lambda>(k, v). decoded k = key) fs of None \<Rightarrow> map_of d (RStr key) | Some (k, v) \<Rightarrow> Some v)"
proof (induction fs arbitrary: d)
  case (Cons f fs)
  obtain k v where f: "f = (k, v)" by (cases f)
  have "find (\<lambda>(k, v). decoded k = key) fs = None" if "decoded k = key"
    using Cons.prems that f by (force simp: find_None_iff)
  with Cons f show ?case by (auto split: option.splits prod.splits)
qed simp

lemma field_str_read:
  assumes "distinct (map (\<lambda>(k, v). decoded k) fs)"
  shows "field_str \<lparr>se_id = i, se_fields = decode_fields fs\<rparr> key dflt
    = (case find (\<lambda>(k, v). decoded k = key) fs of None \<Rightarrow> dflt | Some (k, v) \<Rightarrow> decoded v)"
proof -
  have "map_of (fold (\<lambda>(k, v) d. dict_set (RStr (decoded k)) v d) fs d) (RBytes key) = map_of d (RBytes key)" for d
    by (induction fs arbitrary: d) auto
  then show ?thesis using fold_dict_set_str[OF assms, of "[]" key]
    by (auto simp: field_str_def decode_fields_def split: option.splits)
qed

text \<open>Headers may overwrite the entry's own fields: \<^verbatim>\<open>fields.update(record.headers)\<close>.\<close>

lemma header_replaces_id:
  "map_of (record_fields (demo_record ''a''\<lparr>ob_headers := [(''id'', ''x'')]\<rparr>)) ''id'' = Some ''x''"
  by (simp add: record_fields_def demo_record_def)

subsection \<open>The dispatcher settles every record\<close>

text \<open>One record is handled as the Kafka relay handles it, with another publication and a fixed error text.\<close>

definition stream_on_bus :: "(string \<Rightarrow> (string, string) pydict \<Rightarrow> ('b, string) act) \<Rightarrow> string \<Rightarrow> (string, string) pydict \<Rightarrow> ('s \<times> 'b, string) act" where
  "stream_on_bus publish t fs sb = (case publish t fs (snd sb) of (r, b) \<Rightarrow> (r, fst sb, b))"

definition as_bus :: "(string \<Rightarrow> (string, string) pydict \<Rightarrow> ('b, string) act) \<Rightarrow> OutboxRecord \<Rightarrow> Message \<Rightarrow> ('b, unit) act" where
  "as_bus publish r m b = (case publish (ob_topic r) (record_fields r) b of (Inl e, b') \<Rightarrow> (Inl e, b') | (Inr _, b') \<Rightarrow> (Inr (), b'))"

lemma stream_one_is_relay:
  "stream_dispatch_one (stream_on_bus publish) md mf r w
     = dispatch_one (\<lambda>_. 0) (on_bus (as_bus publish r)) md mf (\<lambda>_. ''dispatch failed'') r w"
  by (auto simp: stream_dispatch_one_def dispatch_one_def stream_on_bus_def on_bus_def as_bus_def Let_def split: prod.splits sum.splits)

definition ordinary_stream :: "(string \<Rightarrow> (string, string) pydict \<Rightarrow> ('b, string) act) \<Rightarrow> bool" where
  "ordinary_stream publish \<longleftrightarrow> (\<forall>t fs b e b'. publish t fs b = (Inl e, b') \<longrightarrow> catchable e)"

lemma as_bus_ordinary: "ordinary_stream publish \<Longrightarrow> ordinary_bus (as_bus publish r)"
  by (auto simp: ordinary_stream_def ordinary_bus_def as_bus_def split: prod.splits sum.splits) blast

context outbox_repository
begin

abbreviation stream_relay where
  "stream_relay publish \<equiv>
     stream_dispatch_records (stream_on_bus publish) (\<lambda>i. on_repo (mark_dispatched i)) (\<lambda>i err. on_repo (mark_failed i err))"

lemma stream_relay_correct:
  assumes "ordinary_stream publish"
    and "ok s" "distinct (map ob_id rs)" "\<And>r. r \<in> set rs \<Longrightarrow> status_of s (ob_id r) \<noteq> None"
  shows "\<exists>n' s' b'. stream_relay publish rs n (s, b) = (Inr n', s', b') \<and> ok s'
    \<and> (\<forall>i. i \<notin> ob_id ` set rs \<longrightarrow> status_of s' i = status_of s i)
    \<and> (\<forall>r \<in> set rs. status_of s' (ob_id r) \<in> {Some DISPATCHED, Some FAILED})"
  using assms(2-)
proof (induction rs arbitrary: n s b)
  case (Cons r rs)
  obtain sent s1 b1 where o: "relay_one (\<lambda>_. 0) (as_bus publish r) (\<lambda>_. ''dispatch failed'') r (s, b) = (Inr sent, s1, b1)"
    using relay_one_total[OF as_bus_ordinary[OF assms(1)]] by (metis prod.collapse)
  have s1: "ok s1" "status_of s1 = (status_of s)(ob_id r \<mapsto> if sent then DISPATCHED else FAILED)"
    using relay_one_status[OF Cons.prems(1) _ o] Cons.prems(3)[of r] by auto
  have "distinct (map ob_id rs)" "\<And>x. x \<in> set rs \<Longrightarrow> status_of s1 (ob_id x) \<noteq> None"
    using Cons.prems by (auto simp: s1(2))
  from Cons.IH[OF s1(1) this, of "if sent then Suc n else n" b1] obtain n' s' b' where
    ih: "stream_relay publish rs (if sent then Suc n else n) (s1, b1) = (Inr n', s', b')" "ok s'"
      "\<forall>i. i \<notin> ob_id ` set rs \<longrightarrow> status_of s' i = status_of s1 i"
      "\<forall>x \<in> set rs. status_of s' (ob_id x) \<in> {Some DISPATCHED, Some FAILED}"
    by blast
  have "status_of s' (ob_id r) \<in> {Some DISPATCHED, Some FAILED}" using ih(3) Cons.prems(2) s1(2) by simp
  moreover have "stream_relay publish (r # rs) n (s, b) = (Inr n', s', b')" using o ih(1) by (simp add: stream_one_is_relay)
  moreover have "\<forall>i. i \<notin> ob_id ` set (r # rs) \<longrightarrow> status_of s' i = status_of s i" using ih(3) s1(2) by simp
  ultimately show ?case using ih(2,4) by auto
qed auto

end

text \<open>On the in-memory repository: every pending record that was read is settled, and the others are untouched.\<close>

theorem stream_dispatch_settles:
  assumes "ordinary_stream publish" "outbox_ok d"
  shows "\<exists>k d' b'. stream_dispatch_pending (\<lambda>sb. (Inr (outbox_get_pending n (fst sb)), sb)) (stream_on_bus publish)
        (\<lambda>i. on_repo (outbox_mark_dispatched i)) (\<lambda>i err. on_repo (outbox_mark_failed i err)) (d, b) = (Inr k, d', b')
    \<and> (\<forall>r \<in> set (outbox_get_pending n d). outbox_status_of d' (ob_id r) \<in> {Some DISPATCHED, Some FAILED})
    \<and> (\<forall>i. i \<notin> ob_id ` set (outbox_get_pending n d) \<longrightarrow> outbox_status_of d' i = outbox_status_of d i)"
proof -
  have "outbox_status_of d (ob_id r) \<noteq> None" if "r \<in> set (outbox_get_pending n d)" for r
    using mem_outbox.pending_status[OF assms(2) that] by simp
  from mem_outbox.stream_relay_correct[OF assms mem_outbox.pending_distinct[OF assms(2)] this, of n 0 b]
  show ?thesis by (auto simp: stream_dispatch_pending_def)
qed

end
