(* ===== verification/Grpc.thy ===== *)
theory Grpc
  imports Contexts Credentials Retry
begin

text \<open>
  The gRPC adapter: server interceptors (\<^verbatim>\<open>adapters/grpc/server.py\<close>) and the client side (\<^verbatim>\<open>adapters/grpc/channel.py\<close>).
  A handler has one function per kind of call; a streaming call yields its items and then ends or raises, so it is the
  list of items with the way it ended. The servicer context is next to the ambient variables of the call. The grpc
  package, PyJWT and the metrics registry are parameters.
\<close>

subsection \<open>Calls and handlers\<close>

record servicer_context =
  gc_metadata :: "(string \<times> string) list option"
  gc_code :: "string option"
  gc_details :: "string option"

type_synonym 'w call = "'w ambient \<times> servicer_context"

type_synonym ('w, 'a) stream = "'w \<Rightarrow> ('a list \<times> (exn + unit)) \<times> 'w"

record ('w, 'q, 'a) rpc_handler =
  unary_unary :: "'q \<Rightarrow> ('w, 'a option) act"
  unary_stream :: "'q \<Rightarrow> ('w, 'a) stream"
  stream_unary :: "'q list \<Rightarrow> ('w, 'a option) act"
  stream_stream :: "'q list \<Rightarrow> ('w, 'a) stream"

definition metadata_value :: "(string \<times> string) list option \<Rightarrow> string \<Rightarrow> string option" where
  "metadata_value metadata key =
     (case metadata of
        None \<Rightarrow> None
      | Some kvs \<Rightarrow> map_option snd (List.find (\<lambda>kv. lower (fst kv) = lower key) kvs))"

subsection \<open>Correlation\<close>

definition correlation_inject :: "string \<Rightarrow> 'w call \<Rightarrow> 'w call" where
  "correlation_inject uuid c =
     (let cid = (case metadata_value (gc_metadata (snd c)) ''x-correlation-id'' of
                   None \<Rightarrow> uuid | Some v \<Rightarrow> if v = [] then uuid else v)
      in (put_request (Some (RequestContext_new cid None None)) (fst c), snd c))"

definition CorrelationIdWrapper :: "string \<Rightarrow> ('w call, 'q, 'a) rpc_handler \<Rightarrow> ('w call, 'q, 'a) rpc_handler" where
  "CorrelationIdWrapper uuid h =
     \<lparr>unary_unary = (\<lambda>q c. unary_unary h q (correlation_inject uuid c)),
      unary_stream = (\<lambda>q c. unary_stream h q (correlation_inject uuid c)),
      stream_unary = (\<lambda>q c. stream_unary h q (correlation_inject uuid c)),
      stream_stream = (\<lambda>q c. stream_stream h q (correlation_inject uuid c))\<rparr>"

subsection \<open>Authentication\<close>

definition unauthenticated :: "string \<Rightarrow> 'w call \<Rightarrow> 'w call" where
  "unauthenticated details c = (fst c, (snd c)\<lparr>gc_code := Some ''UNAUTHENTICATED'', gc_details := Some details\<rparr>)"

text \<open>\<open>decode\<close> is the decoder with key, algorithms and audience; only \<^verbatim>\<open>JwtValidationError\<close> is caught.\<close>

definition auth_validate :: "(string \<Rightarrow> exn + JwtClaims) \<Rightarrow> (exn \<Rightarrow> string) \<Rightarrow> ('w call, bool) act" where
  "auth_validate decode exn_str c =
     (let header = (case metadata_value (gc_metadata (snd c)) ''authorization'' of None \<Rightarrow> [] | Some h \<Rightarrow> h)
      in if header = [] \<or> \<not> startswith (lower header) ''bearer ''
         then (Inr False, unauthenticated ''Missing or malformed authorization header'' c)
         else case decode (strip (drop (length ''bearer '') header)) of
                Inr _ \<Rightarrow> (Inr True, c)
              | Inl e \<Rightarrow>
                  if exn_class e = UserError ''JwtValidationError'' Exception
                  then (Inr False, unauthenticated (exn_str e) c)
                  else (Inl e, c))"

definition guard_unary :: "('w, bool) act \<Rightarrow> ('w, 'a option) act \<Rightarrow> ('w, 'a option) act" where
  "guard_unary validate body c =
     (case validate c of
        (Inl e, c') \<Rightarrow> (Inl e, c')
      | (Inr valid, c') \<Rightarrow> if valid then body c' else (Inr None, c'))"

definition guard_stream :: "('w, bool) act \<Rightarrow> ('w, 'a) stream \<Rightarrow> ('w, 'a) stream" where
  "guard_stream validate body c =
     (case validate c of
        (Inl e, c') \<Rightarrow> (([], Inl e), c')
      | (Inr valid, c') \<Rightarrow> if valid then body c' else (([], Inr ()), c'))"

definition AuthWrapper ::
    "(string \<Rightarrow> exn + JwtClaims) \<Rightarrow> (exn \<Rightarrow> string) \<Rightarrow> ('w call, 'q, 'a) rpc_handler \<Rightarrow> ('w call, 'q, 'a) rpc_handler" where
  "AuthWrapper decode exn_str h =
     \<lparr>unary_unary = (\<lambda>q. guard_unary (auth_validate decode exn_str) (unary_unary h q)),
      unary_stream = (\<lambda>q. guard_stream (auth_validate decode exn_str) (unary_stream h q)),
      stream_unary = (\<lambda>q. guard_unary (auth_validate decode exn_str) (stream_unary h q)),
      stream_stream = (\<lambda>q. guard_stream (auth_validate decode exn_str) (stream_stream h q))\<rparr>"

definition AuthServerInterceptor ::
    "(string \<Rightarrow> exn + JwtClaims) \<Rightarrow> (exn \<Rightarrow> string) \<Rightarrow> string set \<Rightarrow> string
      \<Rightarrow> ('w call, 'q, 'a) rpc_handler \<Rightarrow> ('w call, 'q, 'a) rpc_handler" where
  "AuthServerInterceptor decode exn_str public_methods rpc_method h =
     (if rpc_method \<in> public_methods then h else AuthWrapper decode exn_str h)"

subsection \<open>Metrics\<close>

record 'w rpc_metrics =
  rm_increment :: "(string \<times> string) list \<Rightarrow> ('w, unit) act"
  rm_histogram :: "rat \<Rightarrow> (string \<times> string) list \<Rightarrow> ('w, unit) act"
  rm_monotonic :: "'w \<Rightarrow> rat"

definition metrics_record :: "'w rpc_metrics \<Rightarrow> string \<Rightarrow> string \<Rightarrow> rat \<Rightarrow> ('w, unit) act" where
  "metrics_record m rpc_method status elapsed w =
     (let labels = [(''method'', rpc_method), (''status'', status)];
          attempt = (case rm_increment m labels w of
                       (Inl e, w1) \<Rightarrow> (Inl e, w1)
                     | (Inr _, w1) \<Rightarrow> rm_histogram m elapsed labels w1)
      in case attempt of
           (Inl e, w2) \<Rightarrow> if catchable e then (Inr (), w2) else (Inl e, w2)
         | (Inr _, w2) \<Rightarrow> (Inr (), w2))"

definition rpc_status :: "exn + 'b \<Rightarrow> string" where
  "rpc_status r = (case r of Inl e \<Rightarrow> if catchable e then ''ERROR'' else ''OK'' | Inr _ \<Rightarrow> ''OK'')"

text \<open>The \<^verbatim>\<open>finally\<close> clause: an exception raised by the recording replaces the outcome.\<close>

definition measured_unary :: "'w rpc_metrics \<Rightarrow> string \<Rightarrow> ('w, 'b) act \<Rightarrow> ('w, 'b) act" where
  "measured_unary m rpc_method body w =
     (case body w of
        (r, w1) \<Rightarrow>
          (case metrics_record m rpc_method (rpc_status r) (rm_monotonic m w1 - rm_monotonic m w) w1 of
             (Inl e, w2) \<Rightarrow> (Inl e, w2)
           | (Inr _, w2) \<Rightarrow> (r, w2)))"

definition measured_stream :: "'w rpc_metrics \<Rightarrow> string \<Rightarrow> ('w, 'a) stream \<Rightarrow> ('w, 'a) stream" where
  "measured_stream m rpc_method body w =
     (case body w of
        ((items, r), w1) \<Rightarrow>
          (case metrics_record m rpc_method (rpc_status r) (rm_monotonic m w1 - rm_monotonic m w) w1 of
             (Inl e, w2) \<Rightarrow> ((items, Inl e), w2)
           | (Inr _, w2) \<Rightarrow> ((items, r), w2)))"

definition MetricsWrapper :: "'w rpc_metrics \<Rightarrow> string \<Rightarrow> ('w, 'q, 'a) rpc_handler \<Rightarrow> ('w, 'q, 'a) rpc_handler" where
  "MetricsWrapper m rpc_method h =
     \<lparr>unary_unary = (\<lambda>q. measured_unary m rpc_method (unary_unary h q)),
      unary_stream = (\<lambda>q. measured_stream m rpc_method (unary_stream h q)),
      stream_unary = (\<lambda>q. measured_unary m rpc_method (stream_unary h q)),
      stream_stream = (\<lambda>q. measured_stream m rpc_method (stream_stream h q))\<rparr>"

subsection \<open>The client side\<close>

datatype 'c channel = SecureChannel string 'c "(string \<times> pyval) list" | InsecureChannel string "(string \<times> pyval) list"

text \<open>\<open>default_credentials\<close> is \<^verbatim>\<open>grpc.ssl_channel_credentials()\<close>; interceptors are passed along unchanged.\<close>

definition GrpcChannelFactory_create ::
    "'c \<Rightarrow> string \<Rightarrow> bool \<Rightarrow> 'c option \<Rightarrow> (string \<times> pyval) list option \<Rightarrow> 'c channel" where
  "GrpcChannelFactory_create default_credentials target tls credentials options =
     (let opts = (case options of None \<Rightarrow> [] | Some os \<Rightarrow> os)
      in case credentials of
           Some c \<Rightarrow> SecureChannel target c opts
         | None \<Rightarrow> if tls then SecureChannel target default_credentials opts else InsecureChannel target opts)"

definition client_inject :: "RequestContext option \<Rightarrow> (string \<times> string) list option \<Rightarrow> (string \<times> string) list option" where
  "client_inject ctx metadata =
     (let cid = (case ctx of None \<Rightarrow> [] | Some c \<Rightarrow> rc_correlation_id c)
      in if cid = [] then metadata
         else Some ((case metadata of None \<Rightarrow> [] | Some kvs \<Rightarrow> kvs) @ [(''x-correlation-id'', cid)]))"

definition CorrelationIdClientInterceptor ::
    "((string \<times> string) list option \<Rightarrow> 'q \<Rightarrow> ('w ambient, 'b) act) \<Rightarrow> (string \<times> string) list option \<Rightarrow> 'q \<Rightarrow> ('w ambient, 'b) act" where
  "CorrelationIdClientInterceptor continuation metadata request w =
     continuation (client_inject (amb_request w) metadata) request w"

definition RetryClientInterceptor ::
    "'w retry_env \<Rightarrow> RetryPolicy \<Rightarrow> ('d \<Rightarrow> 'q \<Rightarrow> ('w, 'b) act) \<Rightarrow> 'd \<Rightarrow> 'q \<Rightarrow> ('w, 'b) act" where
  "RetryClientInterceptor env p continuation details request = RetryPolicy_execute_async env p (continuation details request)"

datatype GrpcHealthStatus = SERVING | NOT_SERVING | UNKNOWN | SERVICE_UNKNOWN

text \<open>\<open>proto\<close> gives the three constants of the protocol; \<open>is_rpc_error\<close> tells a \<^verbatim>\<open>grpc.RpcError\<close>.\<close>

definition GrpcHealthChecker_check ::
    "int \<times> int \<times> int \<Rightarrow> (exn \<Rightarrow> bool) \<Rightarrow> (string \<Rightarrow> ('w, int) act) \<Rightarrow> string \<Rightarrow> ('w, GrpcHealthStatus) act" where
  "GrpcHealthChecker_check proto is_rpc_error stub_check service w =
     (case proto of (serving, not_serving, service_unknown) \<Rightarrow>
        (case stub_check service w of
           (Inl e, w') \<Rightarrow> if is_rpc_error e then (Inr UNKNOWN, w') else (Inl e, w')
         | (Inr status, w') \<Rightarrow>
             (Inr (dict_get_or [(serving, SERVING), (not_serving, NOT_SERVING), (service_unknown, SERVICE_UNKNOWN)] status UNKNOWN), w')))"

subsection \<open>Facts\<close>

definition authorised :: "(string \<Rightarrow> exn + JwtClaims) \<Rightarrow> servicer_context \<Rightarrow> bool" where
  "authorised decode sc \<longleftrightarrow>
     (\<exists>h claims. metadata_value (gc_metadata sc) ''authorization'' = Some h \<and> startswith (lower h) ''bearer ''
        \<and> decode (strip (drop (length ''bearer '') h)) = Inr claims)"

lemma not_bearer_empty [simp]: "\<not> startswith (lower []) ''bearer ''"
  by code_simp

lemma auth_validate_cases:
  obtains (valid) "authorised decode (snd c)" "auth_validate decode exn_str c = (Inr True, c)"
  | (refused) d where "\<not> authorised decode (snd c)" "auth_validate decode exn_str c = (Inr False, unauthenticated d c)"
  | (failed) e where "\<not> authorised decode (snd c)" "auth_validate decode exn_str c = (Inl e, c)"
proof (cases "metadata_value (gc_metadata (snd c)) ''authorization''")
  case None
  then show thesis by (intro refused) (auto simp: authorised_def auth_validate_def)
next
  case (Some h)
  show thesis
  proof (cases "startswith (lower h) ''bearer ''")
    case False
    then show thesis using Some by (intro refused) (auto simp: authorised_def auth_validate_def)
  next
    case True
    then have "h \<noteq> []" using not_bearer_empty by metis
    show thesis
    proof (cases "decode (strip (drop (length ''bearer '') h))")
      case (Inl e)
      have none: "\<not> authorised decode (snd c)" using Inl Some by (auto simp: authorised_def)
      show thesis
      proof (cases "exn_class e = UserError ''JwtValidationError'' Exception")
        case True
        then show thesis using Inl Some \<open>startswith (lower h) ''bearer ''\<close> \<open>h \<noteq> []\<close>
          by (intro refused[OF none]) (auto simp: auth_validate_def)
      next
        case False
        then show thesis using Inl Some \<open>startswith (lower h) ''bearer ''\<close> \<open>h \<noteq> []\<close>
          by (intro failed[OF none]) (auto simp: auth_validate_def)
      qed
    next
      case (Inr claims)
      then show thesis using Some True \<open>h \<noteq> []\<close> by (intro valid) (auto simp: authorised_def auth_validate_def)
    qed
  qed
qed

lemma guard_unary_cases:
  "authorised decode (snd c) \<Longrightarrow> guard_unary (auth_validate decode exn_str) body c = body c"
  "\<not> authorised decode (snd c) \<Longrightarrow> \<exists>r sc'. guard_unary (auth_validate decode exn_str) body c = (r, fst c, sc')
     \<and> (r = Inr None \<and> gc_code sc' = Some ''UNAUTHENTICATED'' \<or> (\<exists>e. r = Inl e \<and> sc' = snd c))"
  by (cases c rule: auth_validate_cases[of decode _ exn_str]; auto simp: guard_unary_def unauthenticated_def)+

lemma guard_stream_cases:
  "authorised decode (snd c) \<Longrightarrow> guard_stream (auth_validate decode exn_str) body c = body c"
  "\<not> authorised decode (snd c) \<Longrightarrow> \<exists>r sc'. guard_stream (auth_validate decode exn_str) body c = (([], r), fst c, sc')
     \<and> (r = Inr () \<and> gc_code sc' = Some ''UNAUTHENTICATED'' \<or> (\<exists>e. r = Inl e \<and> sc' = snd c))"
  by (cases c rule: auth_validate_cases[of decode _ exn_str]; auto simp: guard_stream_def unauthenticated_def)+

text \<open>Recording metrics does not change the outcome of a call, unless the registry raises something that is not an
  ordinary exception.\<close>

definition ordinary_metrics :: "'w rpc_metrics \<Rightarrow> bool" where
  "ordinary_metrics m \<longleftrightarrow>
     (\<forall>l w e w'. rm_increment m l w = (Inl e, w') \<longrightarrow> catchable e)
     \<and> (\<forall>x l w e w'. rm_histogram m x l w = (Inl e, w') \<longrightarrow> catchable e)"

lemma metrics_record_ordinary: "ordinary_metrics m \<Longrightarrow> fst (metrics_record m meth st el w) = Inr ()"
  by (auto simp: metrics_record_def ordinary_metrics_def Let_def split: prod.splits sum.splits) blast

lemma metrics_transparent:
  assumes "ordinary_metrics m"
  shows "fst (measured_unary m meth body w) = fst (body w)" "fst (measured_stream m meth sbody w) = fst (sbody w)"
  using metrics_record_ordinary[OF assms]
  by (auto simp: measured_unary_def measured_stream_def split: prod.splits sum.splits) (metis fst_conv sum.distinct(1))+

lemma find_append: "List.find P (xs @ ys) = (case List.find P xs of None \<Rightarrow> List.find P ys | Some x \<Rightarrow> Some x)"
  by (induction xs) auto

lemma metadata_value_injected:
  assumes "metadata_value md ''x-correlation-id'' = None" "rc_correlation_id ctx \<noteq> []"
  shows "metadata_value (client_inject (Some ctx) md) ''x-correlation-id'' = Some (rc_correlation_id ctx)"
  using assms
  by (auto simp: metadata_value_def client_inject_def Let_def find_append split: option.splits)

text \<open>The correlation id of the client's context is the one the handler on the server runs under.\<close>

lemma correlation_end_to_end:
  assumes "metadata_value md ''x-correlation-id'' = None" "rc_correlation_id ctx \<noteq> []"
    and "gc_metadata sc = client_inject (Some ctx) md"
  shows "unary_unary (CorrelationIdWrapper uuid h) q (a, sc)
    = unary_unary h q (put_request (Some (RequestContext_new (rc_correlation_id ctx) None None)) a, sc)"
  using metadata_value_injected[OF assms(1,2)] assms(2,3)
  by (simp add: CorrelationIdWrapper_def correlation_inject_def Let_def)

subsection \<open>Properties\<close>

definition rpc_anonymous :: "servicer_context" where
  "rpc_anonymous = \<lparr>gc_metadata = Some [(''user-agent'', ''x'')], gc_code = None, gc_details = None\<rparr>"

text \<open>C30. Authentication of RPCs. Behind the interceptor a method that is not public runs, for each of the four kinds of
  call, exactly when the metadata carries a bearer token the decoder accepts. Otherwise the handler is not entered: the
  call yields nothing, the rest of the world is as before, and the status is \<^verbatim>\<open>UNAUTHENTICATED\<close> or the decoder's unexpected
  exception is passed on.\<close>

theorem grpc_authentication_enforced:
  fixes h :: "('w call, 'q, 'a) rpc_handler" and decode :: "string \<Rightarrow> exn + JwtClaims" and exn_str :: "exn \<Rightarrow> string"
  assumes "rpc_method \<notin> public_methods"
  defines "g \<equiv> AuthServerInterceptor decode exn_str public_methods rpc_method h"
  shows "(authorised decode sc \<longrightarrow>
       unary_unary g q (a, sc) = unary_unary h q (a, sc) \<and> unary_stream g q (a, sc) = unary_stream h q (a, sc)
       \<and> stream_unary g qs (a, sc) = stream_unary h qs (a, sc) \<and> stream_stream g qs (a, sc) = stream_stream h qs (a, sc))
    \<and> (\<not> authorised decode sc \<longrightarrow>
       (\<exists>sc' r s. (r = Inr None \<and> s = Inr () \<and> gc_code sc' = Some ''UNAUTHENTICATED'' \<or> (\<exists>e. r = Inl e \<and> s = Inl e \<and> sc' = sc))
          \<and> unary_unary g q (a, sc) = (r, a, sc') \<and> unary_stream g q (a, sc) = (([], s), a, sc')
          \<and> stream_unary g qs (a, sc) = (r, a, sc') \<and> stream_stream g qs (a, sc) = (([], s), a, sc')))"
proof -
  have g: "g = AuthWrapper decode exn_str h" using assms(1) by (simp add: g_def AuthServerInterceptor_def)
  show ?thesis
  proof (rule auth_validate_cases[of decode "(a, sc)" exn_str])
    assume "authorised decode (snd (a, sc))" "auth_validate decode exn_str (a, sc) = (Inr True, a, sc)"
    then show ?thesis by (simp add: g AuthWrapper_def guard_unary_def guard_stream_def)
  next
    fix d assume "\<not> authorised decode (snd (a, sc))" "auth_validate decode exn_str (a, sc) = (Inr False, unauthenticated d (a, sc))"
    then show ?thesis by (simp add: g AuthWrapper_def guard_unary_def guard_stream_def unauthenticated_def)
  next
    fix e assume "\<not> authorised decode (snd (a, sc))" "auth_validate decode exn_str (a, sc) = (Inl e, a, sc)"
    then show ?thesis by (simp add: g AuthWrapper_def guard_unary_def guard_stream_def)
  qed
qed

theorem grpc_authentication_enforced_witness:
  "\<exists>r sc'. unary_unary (AuthServerInterceptor (\<lambda>t. Inl (JwtValidationError t)) exn_message {} ''/S/M''
       \<lparr>unary_unary = (\<lambda>q c. (Inr (Some ()), c)), unary_stream = (\<lambda>q c. (([()], Inr ()), c)),
        stream_unary = (\<lambda>q c. (Inr (Some ()), c)), stream_stream = (\<lambda>q c. (([()], Inr ()), c))\<rparr>)
       () (\<lparr>amb_tenant = None, amb_principal = None, amb_request = None, amb_deadline = None, amb_world = 0 :: nat\<rparr>, rpc_anonymous)
     = (r, \<lparr>amb_tenant = None, amb_principal = None, amb_request = None, amb_deadline = None, amb_world = 0\<rparr>, sc')
     \<and> r \<noteq> Inr (Some ())"
proof -
  have "\<not> authorised (\<lambda>t. Inl (JwtValidationError t)) rpc_anonymous" by (simp add: authorised_def)
  moreover have "''/S/M'' \<notin> ({} :: string set)" by simp
  ultimately show ?thesis
    using grpc_authentication_enforced[of "''/S/M''" "{}" "\<lambda>t. Inl (JwtValidationError t)" rpc_anonymous exn_message
      "\<lparr>unary_unary = (\<lambda>q c. (Inr (Some ()), c)), unary_stream = (\<lambda>q c. (([()], Inr ()), c)),
        stream_unary = (\<lambda>q c. (Inr (Some ()), c)), stream_stream = (\<lambda>q c. (([()], Inr ()), c))\<rparr>" "()"
      "\<lparr>amb_tenant = None, amb_principal = None, amb_request = None, amb_deadline = None, amb_world = 0 :: nat\<rparr>"]
    by (metis (no_types, lifting) Inl_Inr_False option.distinct(1) sum.inject(2))
qed

end
