(* ===== verification/Http_Clients.thy ===== *)
theory Http_Clients
  imports Circuit_Breaker Retry Contexts
begin

text \<open>
  The HTTP clients (\<^verbatim>\<open>adapters/http\<close>): correlation headers, the mapping of errors, and the clients that wrap a request in
  the circuit breaker and in the retry policy. The \<^verbatim>\<open>httpx\<close> package is the record \<open>httpx\<close>: a request, which may raise one
  of its exceptions, \<^verbatim>\<open>raise_for_status\<close>, the status an \<^verbatim>\<open>HTTPStatusError\<close> carries and \<^verbatim>\<open>str\<close> of an
  exception. Its classes form the documented tree.
\<close>

subsection \<open>The client\<close>

definition HTTPError :: exc_class where "HTTPError = UserError ''HTTPError'' Exception"
definition HTTPStatusError :: exc_class where "HTTPStatusError = UserError ''HTTPStatusError'' HTTPError"
definition TimeoutException :: exc_class where
  "TimeoutException = UserError ''TimeoutException'' (UserError ''TransportError'' (UserError ''RequestError'' HTTPError))"

record ('w, 'r) httpx =
  hx_request :: "string \<Rightarrow> string \<Rightarrow> (string, string) pydict option \<Rightarrow> ('w, 'r) act"
  hx_raise_for_status :: "'r \<Rightarrow> exn option"
  hx_status_code :: "exn \<Rightarrow> int"
  hx_str :: "exn \<Rightarrow> string"

definition set_if :: "string \<Rightarrow> string option \<Rightarrow> (string, string) pydict \<Rightarrow> (string, string) pydict" where
  "set_if k v d = (case v of None \<Rightarrow> d | Some s \<Rightarrow> if s = [] then d else dict_set k s d)"

definition correlation_headers :: "'w ambient \<Rightarrow> (string, string) pydict" where
  "correlation_headers w =
     (case amb_request w of
        None \<Rightarrow> []
      | Some ctx \<Rightarrow> set_if ''X-Trace-ID'' (rc_trace_id ctx) (set_if ''X-User-ID'' (rc_user_id ctx)
          (set_if ''X-Tenant-ID'' (rc_tenant_id ctx) (set_if ''X-Correlation-ID'' (Some (rc_correlation_id ctx)) []))))"

text \<open>\<^verbatim>\<open>{**corr, **existing}\<close>: the headers of the call win.\<close>

definition merged_headers :: "(string, string) pydict \<Rightarrow> (string, string) pydict option \<Rightarrow> (string, string) pydict option" where
  "merged_headers corr headers =
     (if corr = [] then headers else Some (fold (\<lambda>(k, v). dict_set k v) (case headers of None \<Rightarrow> [] | Some h \<Rightarrow> h) corr))"

definition map_http_error :: "('w, 'r) httpx \<Rightarrow> string \<Rightarrow> string \<Rightarrow> exn \<Rightarrow> exn" where
  "map_http_error hx verb url e =
     (if isinstance e [TimeoutException] then base_exn AppTimeoutError (''HTTP request timed out: '' @ verb @ '' '' @ url)
      else if isinstance e [HTTPStatusError]
      then ExternalServiceError_init url (Some (''HTTP '' @ show_int (hx_status_code hx e) @ '' from '' @ verb @ '' '' @ url))
             (Some (hx_status_code hx e))
      else if isinstance e [HTTPError] then ExternalServiceError_init url (Some (hx_str hx e)) None
      else e)"

definition HttpxHttpClient_request ::
    "('w ambient, 'r) httpx \<Rightarrow> string \<Rightarrow> string \<Rightarrow> (string, string) pydict option \<Rightarrow> ('w ambient, 'r) act" where
  "HttpxHttpClient_request hx verb url headers w =
     (case hx_request hx verb url (merged_headers (correlation_headers w) headers) w of
        (Inl e, w') \<Rightarrow> (Inl (map_http_error hx verb url e), w')
      | (Inr response, w') \<Rightarrow>
          (case hx_raise_for_status hx response of
             Some e \<Rightarrow> (Inl (map_http_error hx verb url e), w')
           | None \<Rightarrow> (Inr response, w')))"

subsection \<open>Resilient clients\<close>

definition CircuitBreakingHttpClient_request ::
    "('w ambient \<Rightarrow> rat) \<Rightarrow> ('w ambient, 'r) httpx \<Rightarrow> string \<Rightarrow> string \<Rightarrow> (string, string) pydict option
      \<Rightarrow> CircuitBreaker \<Rightarrow> 'w ambient \<Rightarrow> (exn + 'r) \<times> CircuitBreaker \<times> 'w ambient" where
  "CircuitBreakingHttpClient_request clock hx verb url headers cb w =
     CircuitBreaker_call clock (HttpxHttpClient_request hx verb url headers) cb w"

definition RetryingHttpClient_policy :: "int \<Rightarrow> RetryPolicy" where
  "RetryingHttpClient_policy max_attempts =
     RetryPolicy_init max_attempts (Some (ExponentialBackoff (1 / 10) 30)) (Some FullJitter) [ExternalServiceError, AppTimeoutError]"

definition RetryingHttpClient_request ::
    "'w ambient retry_env \<Rightarrow> int \<Rightarrow> ('w ambient, 'r) httpx \<Rightarrow> string \<Rightarrow> string \<Rightarrow> (string, string) pydict option \<Rightarrow> ('w ambient, 'r) act" where
  "RetryingHttpClient_request env max_attempts hx verb url headers w =
     RetryPolicy_execute_async env (RetryingHttpClient_policy max_attempts) (HttpxHttpClient_request hx verb url headers) w"

subsection \<open>Headers\<close>

lemma set_if_lookup:
  "map_of (set_if k v d) x = (if x = k \<and> v \<noteq> None \<and> v \<noteq> Some [] then v else map_of d x)"
  by (auto simp: set_if_def split: option.splits)

lemma merged_headers_lookup:
  assumes "dict_ok h" "corr \<noteq> []"
  shows "map_option (\<lambda>d. map_of d x) (merged_headers corr (Some h)) = Some (case map_of h x of None \<Rightarrow> map_of corr x | Some v \<Rightarrow> Some v)"
proof -
  have "map_of (fold (\<lambda>(k, v). dict_set k v) h c) x = (case map_of h x of None \<Rightarrow> map_of c x | Some v \<Rightarrow> Some v)" for c
    using assms(1)
  proof (induction h arbitrary: c)
    case (Cons kv h)
    obtain k v where kv: "kv = (k, v)" by (cases kv)
    have "dict_ok h" "map_of h k = None" using Cons.prems kv by (auto simp: dict_ok_def map_of_eq_None_iff)
    with Cons.IH[of "dict_set k v c"] show ?case
      by (cases "x = k") (simp_all add: kv split: option.split)
  qed simp
  with assms(2) show ?thesis by (simp add: merged_headers_def)
qed

text \<open>A caller's own header is sent as given; otherwise the fields of the request context are.\<close>

lemma correlation_header_sent:
  assumes "amb_request w = Some ctx" "rc_correlation_id ctx \<noteq> []"
  shows "map_of (correlation_headers w) ''X-Correlation-ID'' = Some (rc_correlation_id ctx)"
  using assms by (simp add: correlation_headers_def set_if_lookup)

subsection \<open>Errors\<close>

lemmas httpx_classes = HTTPError_def HTTPStatusError_def TimeoutException_def

lemma issubclass_httpx:
  "issubclass TimeoutException HTTPError" "issubclass HTTPStatusError HTTPError" "issubclass HTTPError Exception"
  by (code_simp+)

lemma app_errors_not_httpx:
  "\<not> issubclass AppTimeoutError HTTPError" "\<not> issubclass ExternalServiceError HTTPError"
  by (code_simp+)

lemma exn_class_app:
  "exn_class (base_exn c m) = c" "exn_class (ExternalServiceError_init s mo i) = ExternalServiceError"
  by (simp_all add: BaseError_init_def ExternalServiceError_init_def with_attr_def)

lemma catchable_class: "issubclass (exn_class e) Exception \<Longrightarrow> catchable e"
  by (simp add: catchable_def isinstance_def)

text \<open>No exception of the package leaves the client; every one becomes an error that the retry policy retries and the breaker counts.\<close>

lemma map_http_error_cases:
  "\<not> isinstance e [HTTPError] \<Longrightarrow> map_http_error hx verb url e = e"
  "isinstance e [HTTPError] \<Longrightarrow> exn_class (map_http_error hx verb url e) \<in> {AppTimeoutError, ExternalServiceError}"
  by (auto simp: map_http_error_def isinstance_def exn_class_app intro: issubclass_trans[OF _ issubclass_httpx(1)]
      issubclass_trans[OF _ issubclass_httpx(2)] dest: issubclass_trans[OF _ issubclass_httpx(1)] issubclass_trans[OF _ issubclass_httpx(2)])

lemma http_no_leak:
  assumes "HttpxHttpClient_request hx verb url headers w = (Inl e, w')"
  shows "\<not> isinstance e [HTTPError]"
proof -
  obtain e0 where e: "e = map_http_error hx verb url e0"
    using assms by (auto simp: HttpxHttpClient_request_def split: prod.splits sum.splits option.splits)
  show ?thesis
  proof (cases "isinstance e0 [HTTPError]")
    case True
    then show ?thesis using map_http_error_cases(2)[OF True, of hx verb url] app_errors_not_httpx
      by (auto simp: e isinstance_def)
  qed (simp add: e map_http_error_cases(1))
qed

text \<open>Status errors are retried whatever the status: a request that is always refused is sent \<^verbatim>\<open>max_attempts\<close> times.\<close>

lemma http_error_retried:
  assumes "isinstance e [HTTPError]"
  shows "should_retry (RetryingHttpClient_policy n) (map_http_error hx verb url e)"
  using map_http_error_cases(2)[OF assms, of hx verb url]
  by (auto simp: should_retry_def RetryingHttpClient_policy_def RetryPolicy_init_def isinstance_def)

lemma app_errors_catchable: "issubclass AppTimeoutError Exception" "issubclass ExternalServiceError Exception"
  by (code_simp+)

lemma http_error_catchable:
  assumes "isinstance e [HTTPError]"
  shows "catchable (map_http_error hx verb url e)"
  using map_http_error_cases(2)[OF assms, of hx verb url] app_errors_catchable by (auto intro!: catchable_class)

text \<open>Every request raising an \<^verbatim>\<open>httpx\<close> error, the breaker with no excluded exceptions opens at its threshold.\<close>

definition always_fails :: "('w ambient, 'r) httpx \<Rightarrow> string \<Rightarrow> string \<Rightarrow> (string, string) pydict option \<Rightarrow> bool" where
  "always_fails hx verb url headers \<longleftrightarrow>
     (\<forall>w. \<exists>e. isinstance e [HTTPError] \<and> fst (HttpxHttpClient_request hx verb url headers w) = Inl (map_http_error hx verb url e))"

lemma always_failsE:
  assumes "always_fails hx verb url headers"
  obtains e w' where "HttpxHttpClient_request hx verb url headers w = (Inl (map_http_error hx verb url e), w')" "isinstance e [HTTPError]"
  using assms unfolding always_fails_def by (metis prod.collapse)

lemma retry_loop_result:
  assumes "\<And>w. P (fst (func w))"
  shows "atts \<noteq> [] \<or> (\<exists>e. lst = Some e \<and> P (Inl e)) \<Longrightarrow> P (fst (retry_loop env p func atts lst w))"
proof (induction atts arbitrary: lst w)
  case (Cons a atts)
  obtain r w1 where f: "func w = (r, w1)" by force
  have P: "P r" using assms[of w] f by simp
  show ?case
  proof (cases r)
    case (Inl e)
    obtain d w2 where "jitter_apply env (rp_jitter p) (backoff_compute (rp_backoff p) a) w1 = (d, w2)" by force
    then show ?thesis using f Inl P Cons.IH[of "Some e" "env_sleep env d w2"] by auto
  qed (use f P in simp)
qed auto

theorem http_retries_every_refusal:
  assumes "always_fails hx verb url headers" "1 \<le> n" "random_ok env"
  shows "\<exists>r hist w'. RetryingHttpClient_request env n hx verb url headers w = (r, w')
    \<and> RetryPolicy_execute_async (logged_env env) (RetryingHttpClient_policy n)
        (logged (HttpxHttpClient_request hx verb url headers)) ([], w) = (r, (hist, w'))
    \<and> length (calls hist) = nat n"
proof -
  let ?p = "RetryingHttpClient_policy n" and ?f = "HttpxHttpClient_request hx verb url headers"
  let ?atts = "[1..<nat (rp_max_attempts ?p + 1)]"
  have p: "rp_max_attempts ?p = n" "backoff_ok (rp_backoff ?p)"
    by (simp_all add: RetryingHttpClient_policy_def RetryPolicy_init_def backoff_ok_def)
  have len: "length ?atts = nat n" "?atts \<noteq> []" using assms(2) p by auto
  obtain hist where hist: "retry_loop (logged_env env) ?p (logged ?f) ?atts None ([], w) =
      (fst (retry_loop env ?p ?f ?atts None w), ([] @ hist, snd (retry_loop env ?p ?f ?atts None w)))"
    using retry_loop_logged[of env ?p ?f ?atts None "[]" w] by blast
  have "retryable ?p (fst (?f v))" for v
    by (rule always_failsE[OF assms(1), of v]) (simp add: retryable_def http_error_retried http_error_catchable)
  then have "retryable ?p (fst (retry_loop env ?p ?f ?atts None w))"
    using retry_loop_result[where P = "retryable ?p" and func = ?f] len(2) by blast
  with retry_loop_log[OF refl len(2) p(2) assms(3) hist] len(1) p(1) hist show ?thesis
    by (auto simp: RetryingHttpClient_request_def RetryPolicy_execute_async_def)
qed

lemma run_all_counted:
  assumes "\<And>w. \<exists>e. fst (f w) = Inl e \<and> counts_as_failure p e"
  shows "all_counted p (fst (run_all (replicate n f) w))"
proof (induction n arbitrary: w)
  case (Suc n)
  obtain e w1 where "f w = (Inl e, w1)" "counts_as_failure p e" using assms[of w] by (metis prod.collapse)
  with Suc[of w1] show ?case by (auto simp: all_counted_def split: prod.splits)
qed (simp add: all_counted_def)

fun request_times ::
    "('w ambient \<Rightarrow> rat) \<Rightarrow> ('w ambient, 'r) httpx \<Rightarrow> string \<Rightarrow> string \<Rightarrow> (string, string) pydict option \<Rightarrow> nat
      \<Rightarrow> CircuitBreaker \<Rightarrow> 'w ambient \<Rightarrow> CircuitBreaker \<times> 'w ambient" where
  "request_times clock hx verb url headers 0 cb w = (cb, w)"
| "request_times clock hx verb url headers (Suc n) cb w =
     (case CircuitBreakingHttpClient_request clock hx verb url headers cb w of
        (_, cb', w') \<Rightarrow> request_times clock hx verb url headers n cb' w')"

lemma request_times_call_all:
  "request_times clock hx verb url headers n cb w = snd (call_all clock (replicate n (HttpxHttpClient_request hx verb url headers)) cb w)"
  by (induction n arbitrary: cb w) (simp_all add: CircuitBreakingHttpClient_request_def split_def)

theorem http_refusals_open_breaker:
  assumes "always_fails hx verb url headers" "0 < failure_threshold p" "excluded_exceptions p = []"
  shows "cb_state (fst (request_times clock hx verb url headers (nat (failure_threshold p)) (CircuitBreaker_init name (Some p)) w)) = OPEN"
proof -
  let ?f = "HttpxHttpClient_request hx verb url headers" and ?cb = "CircuitBreaker_init name (Some p)"
  have counted: "\<exists>e. fst (?f v) = Inl e \<and> counts_as_failure p e" for v
    by (rule always_failsE[OF assms(1), of v])
      (use assms(3) http_error_catchable in \<open>simp add: counts_as_failure_def isinstance_def\<close>)
  define m where "m = nat (failure_threshold p) - 1"
  have m: "nat (failure_threshold p) = Suc m" "int m < failure_threshold p" "failure_threshold p = int m + 1" using assms(2) by (auto simp: m_def)
  obtain rs w1 where run: "run_all (replicate m ?f) w = (rs, w1)" by force
  have "all_counted p rs" using run_all_counted[of ?f p m w] counted run by simp
  then have pre: "call_all clock (replicate m ?f) ?cb w = (rs, ?cb\<lparr>cb_failure_count := int m\<rparr>, w1)"
    using call_all_failures[OF run, of ?cb clock] m(2) by (simp add: CircuitBreaker_init_def)
  obtain e w2 where e: "?f w1 = (Inl e, w2)" "counts_as_failure p e" using counted[of w1] by (metis prod.collapse)
  have "replicate (nat (failure_threshold p)) ?f = replicate m ?f @ [?f]" by (simp add: m(1) replicate_append_same)
  with pre e m show ?thesis
    by (auto simp: request_times_call_all call_all_append call_closed[where f = ?f and w = w1, OF _ e(1)] cb_defs Let_def)
qed

end
