(* ===== verification/Data_Rights.thy ===== *)
theory Data_Rights
  imports Errors
begin

text \<open>
  Rights of data subjects (\<^verbatim>\<open>application/gdpr/erasure.py\<close>): erasure and export across registered handlers, consents and
  their in-memory store. Handlers act on the world and may raise; \<open>exn_str\<close> is \<^verbatim>\<open>str(exc)\<close> and \<open>now\<close> the clock.
\<close>

subsection \<open>Erasure\<close>

record ErasureResult =
  es_scope :: string
  es_success :: bool
  es_detail :: "string option"

record DataErasedEvent =
  de_subject_id :: string
  de_results :: "ErasureResult list"
  de_erased_at :: microseconds

record 'w Erasable =
  eh_scope :: string
  eh_erase :: "string \<Rightarrow> ('w, ErasureResult) act"

record 'w ErasureService =
  sv_handlers :: "'w Erasable list"
  sv_events :: "DataErasedEvent list"

definition ErasureService_register :: "'w Erasable \<Rightarrow> 'w ErasureService \<Rightarrow> 'w ErasureService" where
  "ErasureService_register h s = s\<lparr>sv_handlers := sv_handlers s @ [h]\<rparr>"

text \<open>The loop over the handlers; what is not an ordinary exception ends it.\<close>

fun erase_all :: "(exn \<Rightarrow> string) \<Rightarrow> string \<Rightarrow> 'w Erasable list \<Rightarrow> ErasureResult list \<Rightarrow> ('w, ErasureResult list) act" where
  "erase_all exn_str subject [] results w = (Inr results, w)"
| "erase_all exn_str subject (h # hs) results w =
     (case eh_erase h subject w of
        (Inr result, w') \<Rightarrow> erase_all exn_str subject hs (results @ [result]) w'
      | (Inl e, w') \<Rightarrow>
          if catchable e
          then erase_all exn_str subject hs
                 (results @ [\<lparr>es_scope = eh_scope h, es_success = False, es_detail = Some (exn_str e)\<rparr>]) w'
          else (Inl e, w'))"

definition ErasureService_erase ::
    "(exn \<Rightarrow> string) \<Rightarrow> ('w \<Rightarrow> microseconds) \<Rightarrow> string \<Rightarrow> 'w ErasureService \<Rightarrow> 'w
      \<Rightarrow> (exn + DataErasedEvent) \<times> 'w ErasureService \<times> 'w" where
  "ErasureService_erase exn_str now subject s w =
     (case erase_all exn_str subject (sv_handlers s) [] w of
        (Inl e, w') \<Rightarrow> (Inl e, s, w')
      | (Inr results, w') \<Rightarrow>
          let event = \<lparr>de_subject_id = subject, de_results = results, de_erased_at = now w'\<rparr>
          in (Inr event, s\<lparr>sv_events := sv_events s @ [event]\<rparr>, w'))"

subsection \<open>Export\<close>

record 'w Exportable =
  xh_scope :: string
  xh_export :: "string \<Rightarrow> ('w, (string, pyval) pydict) act"

fun export_all ::
    "(exn \<Rightarrow> string) \<Rightarrow> string \<Rightarrow> 'w Exportable list \<Rightarrow> (string, (string, pyval) pydict) pydict
      \<Rightarrow> ('w, (string, (string, pyval) pydict) pydict) act" where
  "export_all exn_str subject [] merged w = (Inr merged, w)"
| "export_all exn_str subject (h # hs) merged w =
     (case xh_export h subject w of
        (Inr data, w') \<Rightarrow> export_all exn_str subject hs (dict_set (xh_scope h) data merged) w'
      | (Inl e, w') \<Rightarrow>
          if catchable e
          then export_all exn_str subject hs (dict_set (xh_scope h) [(''error'', PStr (exn_str e))] merged) w'
          else (Inl e, w'))"

definition DataPortabilityExporter_export ::
    "(exn \<Rightarrow> string) \<Rightarrow> string \<Rightarrow> 'w Exportable list \<Rightarrow> ('w, (string, (string, pyval) pydict) pydict) act" where
  "DataPortabilityExporter_export exn_str subject handlers w = export_all exn_str subject handlers [] w"

subsection \<open>Consent\<close>

record ConsentRecord =
  co_subject_id :: string
  co_purpose :: string
  co_granted :: bool
  co_id :: string
  co_granted_at :: microseconds
  co_withdrawn_at :: "microseconds option"

definition ConsentRecord_withdraw :: "microseconds \<Rightarrow> ConsentRecord \<Rightarrow> ConsentRecord" where
  "ConsentRecord_withdraw now c = c\<lparr>co_granted := False, co_withdrawn_at := Some now\<rparr>"

type_synonym InMemoryConsentStore = "(string, ConsentRecord) pydict"

definition consent_key :: "string \<Rightarrow> string \<Rightarrow> string" where
  "consent_key subject purpose = subject @ '':'' @ purpose"

definition consent_save :: "ConsentRecord \<Rightarrow> InMemoryConsentStore \<Rightarrow> InMemoryConsentStore" where
  "consent_save c store = dict_set (consent_key (co_subject_id c) (co_purpose c)) c store"

definition consent_find :: "string \<Rightarrow> string \<Rightarrow> InMemoryConsentStore \<Rightarrow> ConsentRecord option" where
  "consent_find subject purpose store = map_of store (consent_key subject purpose)"

definition consent_list_for_subject :: "string \<Rightarrow> InMemoryConsentStore \<Rightarrow> ConsentRecord list" where
  "consent_list_for_subject subject store = filter (\<lambda>c. co_subject_id c = subject) (dict_values store)"

subsection \<open>Facts\<close>

text \<open>Handlers that raise ordinary exceptions only.\<close>

definition ordinary_eraser :: "'w Erasable \<Rightarrow> bool" where
  "ordinary_eraser h \<longleftrightarrow> (\<forall>s w e w'. eh_erase h s w = (Inl e, w') \<longrightarrow> catchable e)"

text \<open>The world each handler works on: that of the handlers before it.\<close>

definition erase_worlds :: "string \<Rightarrow> 'w Erasable list \<Rightarrow> 'w \<Rightarrow> 'w" where
  "erase_worlds subject hs w = fold (\<lambda>h v. snd (eh_erase h subject v)) hs w"

definition erase_outcome :: "(exn \<Rightarrow> string) \<Rightarrow> string \<Rightarrow> 'w Erasable \<Rightarrow> 'w \<Rightarrow> ErasureResult" where
  "erase_outcome exn_str subject h w =
     (case fst (eh_erase h subject w) of
        Inr result \<Rightarrow> result
      | Inl e \<Rightarrow> \<lparr>es_scope = eh_scope h, es_success = False, es_detail = Some (exn_str e)\<rparr>)"

lemma erase_all_total:
  assumes "\<forall>h \<in> set hs. ordinary_eraser h"
  shows "erase_all exn_str subject hs acc w =
    (Inr (acc @ map (\<lambda>i. erase_outcome exn_str subject (hs ! i) (erase_worlds subject (take i hs) w)) [0..<length hs]),
     erase_worlds subject hs w)"
  using assms
proof (induction hs arbitrary: acc w)
  case (Cons h hs)
  obtain r w' where h: "eh_erase h subject w = (r, w')" by fastforce
  have shift: "map (\<lambda>i. erase_outcome exn_str subject ((h # hs) ! i) (erase_worlds subject (take i (h # hs)) w)) [0..<length (h # hs)]
      = erase_outcome exn_str subject h w
        # map (\<lambda>i. erase_outcome exn_str subject (hs ! i) (erase_worlds subject (take i hs) w')) [0..<length hs]"
    using h by (simp add: upt_conv_Cons map_Suc_upt[symmetric] comp_def erase_worlds_def del: upt_Suc)
  have w: "erase_worlds subject (h # hs) w = erase_worlds subject hs w'" using h by (simp add: erase_worlds_def)
  have IH: "erase_all exn_str subject hs acc' w' =
    (Inr (acc' @ map (\<lambda>i. erase_outcome exn_str subject (hs ! i) (erase_worlds subject (take i hs) w')) [0..<length hs]),
     erase_worlds subject hs w')" for acc'
    using Cons by auto
  show ?case
  proof (cases r)
    case (Inl e)
    moreover have "catchable e" using Cons.prems h Inl by (auto simp: ordinary_eraser_def)
    ultimately show ?thesis using h IH unfolding shift w by (simp add: erase_outcome_def)
  next
    case (Inr x)
    then show ?thesis using h IH unfolding shift w by (simp add: erase_outcome_def)
  qed
qed (simp add: erase_worlds_def)

text \<open>A consent that was saved is found, unless another one was saved under the same key: the key joins subject and
  purpose with a colon and is not injective.\<close>

lemma consent_find_save:
  "consent_find s p (consent_save c store)
     = (if consent_key s p = consent_key (co_subject_id c) (co_purpose c) then Some c else consent_find s p store)"
  by (simp add: consent_find_def consent_save_def)

lemma consent_key_collision: "consent_key ''a:b'' ''c'' = consent_key ''a'' ''b:c''"
  by (simp add: consent_key_def)

lemma consent_overwritten:
  "\<exists>c d. co_subject_id c \<noteq> co_subject_id d
     \<and> consent_find (co_subject_id c) (co_purpose c) (consent_save d (consent_save c [])) = Some d"
  by (rule exI[of _ "\<lparr>co_subject_id = ''a:b'', co_purpose = ''c'', co_granted = False, co_id = '''', co_granted_at = 0, co_withdrawn_at = None\<rparr>"],
      rule exI[of _ "\<lparr>co_subject_id = ''a'', co_purpose = ''b:c'', co_granted = True, co_id = '''', co_granted_at = 0, co_withdrawn_at = None\<rparr>"])
     (simp add: consent_find_save consent_key_def)

lemma export_all_keys:
  assumes "export_all exn_str subject hs merged w = (Inr out, w')"
  shows "fst ` set out = fst ` set merged \<union> xh_scope ` set hs"
  using assms
  by (induction hs arbitrary: merged w)
     (auto simp: keys_dict_set split: prod.splits sum.splits if_splits)

end
