(* ===== verification/Webhooks.thy ===== *)
theory Webhooks
  imports Errors
begin

text \<open>
  Outgoing webhooks (\<^verbatim>\<open>application/webhooks\<close>): endpoints and their store, signatures, the dispatcher with its retries.
  HMAC-SHA256 (\<open>hmac secret payload\<close>, hexadecimal), the JSON encoder and the HTTP client (\<open>post url body headers\<close>, which
  answers with a status code) are parameters.
\<close>

subsection \<open>Endpoints\<close>

record WebhookEndpoint =
  we_url :: string
  we_secret :: string
  we_events :: "string list"
  we_enabled :: bool
  we_id :: string

definition WebhookEndpoint_matches :: "string \<Rightarrow> WebhookEndpoint \<Rightarrow> bool" where
  "WebhookEndpoint_matches event_type ep = (if \<not> we_enabled ep then False else we_events ep = [] \<or> event_type \<in> set (we_events ep))"

type_synonym InMemoryWebhookEndpointStore = "(string, WebhookEndpoint) pydict"

definition find_by_event :: "string \<Rightarrow> InMemoryWebhookEndpointStore \<Rightarrow> WebhookEndpoint list" where
  "find_by_event event_type store = filter (WebhookEndpoint_matches event_type) (dict_values store)"

definition endpoint_save :: "WebhookEndpoint \<Rightarrow> InMemoryWebhookEndpointStore \<Rightarrow> InMemoryWebhookEndpointStore" where
  "endpoint_save ep store = dict_set (we_id ep) ep store"

definition endpoint_remove :: "string \<Rightarrow> InMemoryWebhookEndpointStore \<Rightarrow> InMemoryWebhookEndpointStore" where
  "endpoint_remove i store = dict_pop i store"

subsection \<open>Signatures\<close>

definition WebhookSigner_sign :: "(string \<Rightarrow> string \<Rightarrow> string) \<Rightarrow> string \<Rightarrow> string \<Rightarrow> string" where
  "WebhookSigner_sign hmac payload secret = ''sha256='' @ hmac secret payload"

definition WebhookSigner_verify :: "(string \<Rightarrow> string \<Rightarrow> string) \<Rightarrow> string \<Rightarrow> string \<Rightarrow> string \<Rightarrow> bool" where
  "WebhookSigner_verify hmac payload secret signature \<longleftrightarrow> WebhookSigner_sign hmac payload secret = signature"

subsection \<open>Delivery\<close>

record WebhookDeliveryRecord =
  wd_endpoint_id :: string
  wd_event_type :: string
  wd_http_status :: "int option"
  wd_duration_ms :: rat
  wd_attempts :: nat
  wd_last_error :: "string option"

text \<open>The loop over the attempts \<open>attempt\<close>, \<open>attempt + 1\<close>, and so on, \<open>n\<close> of them at most.\<close>

fun deliver_loop ::
    "('w, int) act \<Rightarrow> ('w \<Rightarrow> rat) \<Rightarrow> int list \<Rightarrow> (exn \<Rightarrow> string) \<Rightarrow> nat \<Rightarrow> nat \<Rightarrow> string option \<Rightarrow> WebhookDeliveryRecord
      \<Rightarrow> ('w, WebhookDeliveryRecord) act" where
  "deliver_loop send monotonic retry_on exn_str 0 attempt last_error record w = (Inr (record\<lparr>wd_last_error := last_error\<rparr>), w)"
| "deliver_loop send monotonic retry_on exn_str (Suc n) attempt last_error record w =
     (case send w of
        (Inr status, w') \<Rightarrow>
          let record' = record\<lparr>wd_attempts := attempt, wd_duration_ms := (monotonic w' - monotonic w) * 1000, wd_http_status := Some status\<rparr>
          in if status \<notin> set retry_on then (Inr (record'\<lparr>wd_last_error := None\<rparr>), w')
             else deliver_loop send monotonic retry_on exn_str n (Suc attempt) (Some (''HTTP '' @ show_int status)) record' w'
      | (Inl e, w') \<Rightarrow>
          if catchable e
          then deliver_loop send monotonic retry_on exn_str n (Suc attempt) (Some (exn_str e))
                 (record\<lparr>wd_attempts := attempt, wd_duration_ms := (monotonic w' - monotonic w) * 1000\<rparr>) w'
          else (Inl e, w'))"

definition webhook_headers :: "string \<Rightarrow> string \<Rightarrow> (string \<times> string) list" where
  "webhook_headers signature event_type =
     [(''Content-Type'', ''application/json''), (''X-Webhook-Signature'', signature), (''X-Webhook-Event'', event_type)]"

record 'w webhook_env =
  wv_hmac :: "string \<Rightarrow> string \<Rightarrow> string"
  wv_dumps :: "string \<Rightarrow> pyval \<Rightarrow> string"
  wv_post :: "string \<Rightarrow> string \<Rightarrow> (string \<times> string) list \<Rightarrow> ('w, int) act"
  wv_monotonic :: "'w \<Rightarrow> rat"
  wv_exn_str :: "exn \<Rightarrow> string"

record WebhookDispatcher =
  wp_max_retries :: nat
  wp_retry_on :: "int list"

definition WebhookDispatcher_init :: "nat \<Rightarrow> int list option \<Rightarrow> WebhookDispatcher" where
  "WebhookDispatcher_init max_retries retry_on =
     \<lparr>wp_max_retries = max_retries,
      wp_retry_on = (case retry_on of None \<Rightarrow> [500, 502, 503, 504] | Some rs \<Rightarrow> if rs = [] then [500, 502, 503, 504] else rs)\<rparr>"

definition webhook_deliver ::
    "'w webhook_env \<Rightarrow> WebhookDispatcher \<Rightarrow> WebhookEndpoint \<Rightarrow> string \<Rightarrow> pyval \<Rightarrow> ('w, WebhookDeliveryRecord) act" where
  "webhook_deliver env p endpoint event_type payload =
     (let body = wv_dumps env event_type payload;
          signature = WebhookSigner_sign (wv_hmac env) body (we_secret endpoint)
      in deliver_loop (wv_post env (we_url endpoint) body (webhook_headers signature event_type)) (wv_monotonic env)
           (wp_retry_on p) (wv_exn_str env) (wp_max_retries p) 1 None
           \<lparr>wd_endpoint_id = we_id endpoint, wd_event_type = event_type, wd_http_status = None, wd_duration_ms = 0,
            wd_attempts = 0, wd_last_error = None\<rparr>)"

text \<open>\<^verbatim>\<open>dispatch\<close>: the records made, the delivery log and the world; the log keeps what was appended before an exception.\<close>

fun dispatch_all ::
    "'w webhook_env \<Rightarrow> WebhookDispatcher \<Rightarrow> string \<Rightarrow> pyval \<Rightarrow> WebhookEndpoint list \<Rightarrow> WebhookDeliveryRecord list
      \<Rightarrow> WebhookDeliveryRecord list \<Rightarrow> 'w \<Rightarrow> (exn + WebhookDeliveryRecord list) \<times> WebhookDeliveryRecord list \<times> 'w" where
  "dispatch_all env p event_type payload [] records log0 w = (Inr records, log0, w)"
| "dispatch_all env p event_type payload (ep # eps) records log0 w =
     (case webhook_deliver env p ep event_type payload w of
        (Inl e, w') \<Rightarrow> (Inl e, log0, w')
      | (Inr r, w') \<Rightarrow> dispatch_all env p event_type payload eps (records @ [r]) (log0 @ [r]) w')"

definition webhook_dispatch ::
    "'w webhook_env \<Rightarrow> WebhookDispatcher \<Rightarrow> InMemoryWebhookEndpointStore \<Rightarrow> string \<Rightarrow> pyval \<Rightarrow> WebhookDeliveryRecord list
      \<Rightarrow> 'w \<Rightarrow> (exn + WebhookDeliveryRecord list) \<times> WebhookDeliveryRecord list \<times> 'w" where
  "webhook_dispatch env p store event_type payload log0 w =
     dispatch_all env p event_type payload (find_by_event event_type store) [] log0 w"

subsection \<open>Facts\<close>

lemma sign_verifies: "WebhookSigner_verify hmac payload secret (WebhookSigner_sign hmac payload secret)"
  by (simp add: WebhookSigner_verify_def)

text \<open>A client whose answers are scripted: the attempts use them up one by one.\<close>

definition scripted :: "((exn + int) list, int) act" where
  "scripted w = (case w of [] \<Rightarrow> (Inl (plain_exn RuntimeError ''''), []) | r # rs \<Rightarrow> (r, rs))"

definition retried :: "int list \<Rightarrow> exn + int \<Rightarrow> bool" where
  "retried retry_on r \<longleftrightarrow> (case r of Inl e \<Rightarrow> catchable e | Inr status \<Rightarrow> status \<in> set retry_on)"

definition failure_text :: "(exn \<Rightarrow> string) \<Rightarrow> exn + int \<Rightarrow> string" where
  "failure_text exn_str r = (case r of Inl e \<Rightarrow> exn_str e | Inr s \<Rightarrow> ''HTTP '' @ show_int s)"

lemma deliver_retry:
  assumes "retried retry_on r"
  obtains rc' where "wd_attempts rc' = attempt"
    "deliver_loop scripted clk retry_on exn_str (Suc m) attempt err rc (r # rest)
       = deliver_loop scripted clk retry_on exn_str m (Suc attempt) (Some (failure_text exn_str r)) rc' rest"
  using assms that[of "rc\<lparr>wd_attempts := attempt, wd_duration_ms := (clk rest - clk (r # rest)) * 1000\<rparr>"]
    that[of "rc\<lparr>wd_attempts := attempt, wd_duration_ms := (clk rest - clk (r # rest)) * 1000, wd_http_status := Some (projr r)\<rparr>"]
  by (cases r) (simp_all add: scripted_def retried_def failure_text_def Let_def)

text \<open>All answers ask for a retry: every attempt is made and the record reports the last failure.\<close>

lemma deliver_exhausts:
  assumes "list_all (retried retry_on) rs"
  shows "\<exists>rec. deliver_loop scripted clk retry_on exn_str (length rs) attempt err rc (rs @ rest) = (Inr rec, rest)
    \<and> wd_attempts rec = (if rs = [] then wd_attempts rc else attempt + length rs - 1)
    \<and> wd_last_error rec = (if rs = [] then err else Some (failure_text exn_str (last rs)))"
  using assms
proof (induction rs arbitrary: attempt err rc)
  case (Cons r rs)
  obtain rc' where rc': "wd_attempts rc' = attempt"
    "deliver_loop scripted clk retry_on exn_str (Suc (length rs)) attempt err rc (r # rs @ rest)
       = deliver_loop scripted clk retry_on exn_str (length rs) (Suc attempt) (Some (failure_text exn_str r)) rc' (rs @ rest)"
    using deliver_retry Cons.prems by (metis list.pred_inject(2))
  from Cons.IH[of "Suc attempt" "Some (failure_text exn_str r)" rc'] Cons.prems rc' show ?case by auto
qed simp

text \<open>The first answer that asks for no retry ends the delivery and counts as success, whatever its status.\<close>

lemma deliver_first_settled:
  assumes "list_all (retried retry_on) rs" "status \<notin> set retry_on"
  shows "\<exists>rec. deliver_loop scripted clk retry_on exn_str (length rs + Suc k) attempt err rc (rs @ Inr status # rest) = (Inr rec, rest)
    \<and> wd_attempts rec = attempt + length rs \<and> wd_http_status rec = Some status \<and> wd_last_error rec = None"
  using assms(1)
proof (induction rs arbitrary: attempt err rc)
  case Nil
  then show ?case using assms(2) by (simp add: scripted_def Let_def)
next
  case (Cons r rs)
  obtain rc' where
    "deliver_loop scripted clk retry_on exn_str (Suc (length rs + Suc k)) attempt err rc (r # rs @ Inr status # rest)
       = deliver_loop scripted clk retry_on exn_str (length rs + Suc k) (Suc attempt) (Some (failure_text exn_str r)) rc'
           (rs @ Inr status # rest)"
    using deliver_retry Cons.prems by (metis list.pred_inject(2))
  with Cons.IH[of "Suc attempt" "Some (failure_text exn_str r)" rc'] Cons.prems show ?case by simp
qed

lemma find_by_event_correct:
  assumes "dict_ok store"
  shows "ep \<in> set (find_by_event ev store) \<longleftrightarrow>
    (\<exists>i. map_of store i = Some ep) \<and> we_enabled ep \<and> (we_events ep = [] \<or> ev \<in> set (we_events ep))"
proof -
  have "ep \<in> set (dict_values store) \<longleftrightarrow> (\<exists>i. map_of store i = Some ep)"
    using assms by (force simp: dict_values_def dict_ok_def image_iff)
  then show ?thesis by (auto simp: find_by_event_def WebhookEndpoint_matches_def)
qed

text \<open>Unless something that is not an ordinary exception is raised, each matching endpoint gets one record, in order.\<close>

lemma dispatch_all_records:
  "dispatch_all env p ev pl eps recs lg w = (Inr out, lg', w') \<Longrightarrow>
     \<exists>new. out = recs @ new \<and> lg' = lg @ new \<and> length new = length eps"
  by (induction eps arbitrary: recs lg w) (auto split: prod.splits sum.splits, fastforce)

end
