(* ===== verification/Search.thy ===== *)
theory Search
  imports Configuration "HOL-Library.Char_ord" "HOL-Library.List_Lexorder" "HOL-Library.Sublist" "HOL-Library.Multiset"
begin

text \<open>
  The in-memory search engine (\<^verbatim>\<open>application/search\<close>): filters, text terms, sorting by several fields, paging and
  suggestions. Python's comparison and membership operators raise \<^verbatim>\<open>TypeError\<close> on values that do not fit; \<open>pystr\<close> is
  \<^verbatim>\<open>str\<close> and \<open>key_fn\<close> the configured view of an item as a dictionary.
\<close>

subsection \<open>Comparison of values\<close>

definition unorderable :: exn where
  "unorderable = plain_exn TypeError ''not supported between these instances''"

text \<open>\<^verbatim>\<open><\<close>: numbers by value, strings and lists lexicographically.\<close>

fun py_less :: "pyval \<Rightarrow> pyval \<Rightarrow> exn + bool" where
  "py_less (PList []) (PList ys) = Inr (ys \<noteq> [])"
| "py_less (PList (x # xs)) (PList []) = Inr False"
| "py_less (PList (x # xs)) (PList (y # ys)) = (if py_eq x y then py_less (PList xs) (PList ys) else py_less x y)"
| "py_less (PStr a) (PStr b) = Inr (a < b)"
| "py_less a b = (case (num_of a, num_of b) of (Some p, Some q) \<Rightarrow> Inr (p < q) | _ \<Rightarrow> Inl unorderable)"

definition py_less_eq :: "pyval \<Rightarrow> pyval \<Rightarrow> exn + bool" where
  "py_less_eq a b = (case py_less a b of Inl e \<Rightarrow> Inl e | Inr lt \<Rightarrow> Inr (lt \<or> py_eq a b))"

definition py_in :: "pyval \<Rightarrow> pyval \<Rightarrow> exn + bool" where
  "py_in v container =
     (case container of
        PList xs \<Rightarrow> Inr (\<exists>x \<in> set xs. py_eq v x)
      | PDict d \<Rightarrow> (case v of PList _ \<Rightarrow> Inl (plain_exn TypeError ''unhashable type'')
                             | PDict _ \<Rightarrow> Inl (plain_exn TypeError ''unhashable type'')
                             | PStr k \<Rightarrow> Inr (map_of d k \<noteq> None) | _ \<Rightarrow> Inr False)
      | PStr s \<Rightarrow> (case v of PStr t \<Rightarrow> Inr (sublist t s) | _ \<Rightarrow> Inl (plain_exn TypeError ''requires string as left operand''))
      | _ \<Rightarrow> Inl (plain_exn TypeError ''argument is not iterable''))"

subsection \<open>Queries\<close>

datatype filter_op = Op_eq | Op_neq | Op_gt | Op_gte | Op_lt | Op_lte | Op_in | Op_contains

record SearchFilter =
  fl_field :: string
  fl_value :: pyval
  fl_op :: filter_op

record SortField =
  sf_field :: string
  sf_desc :: bool

record SearchQuery =
  sq_terms :: string
  sq_filters :: "SearchFilter list"
  sq_sort :: "SortField list"
  sq_page :: int
  sq_page_size :: int

record 'a SearchResult =
  sr_items :: "'a list"
  sr_total :: nat
  sr_page :: int
  sr_page_size :: int

definition SearchResult_total_pages :: "'a SearchResult \<Rightarrow> int" where
  "SearchResult_total_pages r =
     (if sr_page_size r = 0 then 0 else (int (sr_total r) + sr_page_size r - 1) div sr_page_size r)"

definition SearchResult_has_next :: "'a SearchResult \<Rightarrow> bool" where
  "SearchResult_has_next r \<longleftrightarrow> sr_page r < SearchResult_total_pages r"

definition matches_filter :: "(pyval \<Rightarrow> string) \<Rightarrow> (string, pyval) pydict \<Rightarrow> SearchFilter \<Rightarrow> exn + bool" where
  "matches_filter pystr d f =
     (let v = dict_get_or d (fl_field f) PNone; c = fl_value f
      in case fl_op f of
           Op_eq \<Rightarrow> Inr (py_eq v c)
         | Op_neq \<Rightarrow> Inr (\<not> py_eq v c)
         | Op_gt \<Rightarrow> if v = PNone then Inr False else py_less c v
         | Op_gte \<Rightarrow> if v = PNone then Inr False else py_less_eq c v
         | Op_lt \<Rightarrow> if v = PNone then Inr False else py_less v c
         | Op_lte \<Rightarrow> if v = PNone then Inr False else py_less_eq v c
         | Op_in \<Rightarrow> py_in v c
         | Op_contains \<Rightarrow> (case c of PStr t \<Rightarrow> Inr (sublist t (if truthy v then pystr v else []))
                          | _ \<Rightarrow> Inl (plain_exn TypeError ''requires string as left operand'')))"

fun all_filters :: "(pyval \<Rightarrow> string) \<Rightarrow> (string, pyval) pydict \<Rightarrow> SearchFilter list \<Rightarrow> exn + bool" where
  "all_filters pystr d [] = Inr True"
| "all_filters pystr d (f # fs) =
     (case matches_filter pystr d f of Inl e \<Rightarrow> Inl e | Inr ok \<Rightarrow> if ok then all_filters pystr d fs else Inr False)"

definition text_match :: "(pyval \<Rightarrow> string) \<Rightarrow> string \<Rightarrow> (string, pyval) pydict \<Rightarrow> bool" where
  "text_match pystr terms d \<longleftrightarrow> terms = [] \<or> (\<exists>v \<in> set (dict_values d). sublist (lower terms) (lower (pystr v)))"

fun select_items :: "(pyval \<Rightarrow> string) \<Rightarrow> ('a \<Rightarrow> (string, pyval) pydict) \<Rightarrow> SearchQuery \<Rightarrow> 'a list \<Rightarrow> exn + 'a list" where
  "select_items pystr key_fn q [] = Inr []"
| "select_items pystr key_fn q (item # items) =
     (if \<not> text_match pystr (sq_terms q) (key_fn item) then select_items pystr key_fn q items
      else case all_filters pystr (key_fn item) (sq_filters q) of
             Inl e \<Rightarrow> Inl e
           | Inr ok \<Rightarrow> (case select_items pystr key_fn q items of
                          Inl e \<Rightarrow> Inl e | Inr rest \<Rightarrow> Inr (if ok then item # rest else rest)))"

subsection \<open>Sorting\<close>

text \<open>\<^verbatim>\<open>list.sort(key=..., reverse=...)\<close> is stable in both directions. Keys that cannot be compared raise.\<close>

fun insert_stable :: "('a \<Rightarrow> 'a \<Rightarrow> bool) \<Rightarrow> 'a \<Rightarrow> 'a list \<Rightarrow> 'a list" where
  "insert_stable before x [] = [x]"
| "insert_stable before x (y # ys) = (if before x y then x # y # ys else y # insert_stable before x ys)"

definition sort_stable :: "('a \<Rightarrow> 'a \<Rightarrow> bool) \<Rightarrow> 'a list \<Rightarrow> 'a list" where
  "sort_stable before xs = fold (insert_stable before) xs []"

definition sort_value :: "('a \<Rightarrow> (string, pyval) pydict) \<Rightarrow> string \<Rightarrow> 'a \<Rightarrow> pyval" where
  "sort_value key_fn fld x =
     (let v = dict_get_or (key_fn x) fld PNone in if truthy v then v else PStr [])"

definition less_value :: "pyval \<Rightarrow> pyval \<Rightarrow> bool" where
  "less_value a b \<longleftrightarrow> py_less a b = Inr True"

definition sort_before :: "('a \<Rightarrow> (string, pyval) pydict) \<Rightarrow> SortField \<Rightarrow> 'a \<Rightarrow> 'a \<Rightarrow> bool" where
  "sort_before key_fn sf x y \<longleftrightarrow>
     (let k = sort_value key_fn (sf_field sf) in if sf_desc sf then less_value (k y) (k x) else less_value (k x) (k y))"

definition sort_field :: "('a \<Rightarrow> (string, pyval) pydict) \<Rightarrow> SortField \<Rightarrow> 'a list \<Rightarrow> exn + 'a list" where
  "sort_field key_fn sf xs =
     (let k = sort_value key_fn (sf_field sf)
      in if length xs \<ge> 2 \<and> \<not> list_all (\<lambda>x. list_all (\<lambda>y. \<exists>b. py_less (k x) (k y) = Inr b) xs) xs then Inl unorderable
         else Inr (sort_stable (sort_before key_fn sf) xs))"

fun sort_fields :: "('a \<Rightarrow> (string, pyval) pydict) \<Rightarrow> SortField list \<Rightarrow> 'a list \<Rightarrow> exn + 'a list" where
  "sort_fields key_fn [] xs = Inr xs"
| "sort_fields key_fn (sf # sfs) xs =
     (case sort_field key_fn sf xs of Inl e \<Rightarrow> Inl e | Inr ys \<Rightarrow> sort_fields key_fn sfs ys)"

definition InMemorySearchEngine_search ::
    "(pyval \<Rightarrow> string) \<Rightarrow> ('a \<Rightarrow> (string, pyval) pydict) \<Rightarrow> 'a list \<Rightarrow> SearchQuery \<Rightarrow> exn + 'a SearchResult" where
  "InMemorySearchEngine_search pystr key_fn items q =
     (case select_items pystr key_fn q items of
        Inl e \<Rightarrow> Inl e
      | Inr found \<Rightarrow>
          (case sort_fields key_fn (rev (sq_sort q)) found of
             Inl e \<Rightarrow> Inl e
           | Inr results \<Rightarrow>
               let start = (sq_page q - 1) * sq_page_size q
               in Inr \<lparr>sr_items = py_slice results start (start + sq_page_size q), sr_total = length results,
                       sr_page = sq_page q, sr_page_size = sq_page_size q\<rparr>))"

fun suggest_from :: "(pyval \<Rightarrow> string) \<Rightarrow> ('a \<Rightarrow> (string, pyval) pydict) \<Rightarrow> string \<Rightarrow> string \<Rightarrow> string list \<Rightarrow> 'a list \<Rightarrow> string list" where
  "suggest_from pystr key_fn pfx fld out [] = out"
| "suggest_from pystr key_fn pfx fld out (item # items) =
     (let v = pystr (dict_get_or (key_fn item) fld (PStr []))
      in suggest_from pystr key_fn pfx fld (if startswith (lower v) (lower pfx) \<and> v \<notin> set out then out @ [v] else out) items)"

definition InMemorySearchEngine_suggest ::
    "(pyval \<Rightarrow> string) \<Rightarrow> ('a \<Rightarrow> (string, pyval) pydict) \<Rightarrow> 'a list \<Rightarrow> string \<Rightarrow> string \<Rightarrow> string list" where
  "InMemorySearchEngine_suggest pystr key_fn items pfx fld = suggest_from pystr key_fn pfx fld [] items"

subsection \<open>Facts\<close>

definition search_matches :: "(pyval \<Rightarrow> string) \<Rightarrow> ('a \<Rightarrow> (string, pyval) pydict) \<Rightarrow> SearchQuery \<Rightarrow> 'a \<Rightarrow> bool" where
  "search_matches pystr key_fn q item \<longleftrightarrow>
     text_match pystr (sq_terms q) (key_fn item) \<and> all_filters pystr (key_fn item) (sq_filters q) = Inr True"

lemma select_items_Inr:
  "select_items pystr key_fn q items = Inr xs \<Longrightarrow> xs = filter (search_matches pystr key_fn q) items"
  by (induction items arbitrary: xs) (auto simp: search_matches_def split: if_splits sum.splits)

lemma mset_insert_stable [simp]: "mset (insert_stable before x ys) = add_mset x (mset ys)"
  by (induction ys) auto

lemma set_insert_stable [simp]: "set (insert_stable before x ys) = insert x (set ys)"
  by (induction ys) auto

lemma mset_fold_insert: "mset (fold (insert_stable before) xs ys) = mset xs + mset ys"
  by (induction xs arbitrary: ys) auto

lemma mset_sort_stable [simp]: "mset (sort_stable before xs) = mset xs"
  by (simp add: sort_stable_def mset_fold_insert)

lemma mset_sort_fields: "sort_fields key_fn sfs xs = Inr ys \<Longrightarrow> mset ys = mset xs"
  by (induction sfs arbitrary: xs) (auto simp: sort_field_def Let_def split: if_splits sum.splits)

text \<open>Under a strict order on the keys the result is sorted.\<close>

definition strict_on :: "'a set \<Rightarrow> ('a \<Rightarrow> 'a \<Rightarrow> bool) \<Rightarrow> bool" where
  "strict_on A before \<longleftrightarrow> (\<forall>x \<in> A. \<forall>y \<in> A. before x y \<longrightarrow> \<not> before y x)
     \<and> (\<forall>x \<in> A. \<forall>y \<in> A. \<forall>z \<in> A. before x y \<longrightarrow> before y z \<longrightarrow> before x z)"

lemma strict_onD:
  "strict_on A before \<Longrightarrow> x \<in> A \<Longrightarrow> y \<in> A \<Longrightarrow> z \<in> A \<Longrightarrow> before x y \<Longrightarrow> before y z \<Longrightarrow> before x z"
  unfolding strict_on_def by blast

lemma strict_on_subset: "strict_on A before \<Longrightarrow> B \<subseteq> A \<Longrightarrow> strict_on B before"
  unfolding strict_on_def by blast

lemma sorted_insert_stable:
  assumes "strict_on (insert x (set ys)) before" "sorted_wrt (\<lambda>a b. \<not> before b a) ys"
  shows "sorted_wrt (\<lambda>a b. \<not> before b a) (insert_stable before x ys)"
  using assms
proof (induction ys)
  case (Cons y ys)
  have ord: "strict_on (insert x (set ys)) before" by (rule strict_on_subset[OF Cons.prems(1)]) auto
  show ?case
  proof (cases "before x y")
    case True
    have "\<not> before z x" if z: "z \<in> set (y # ys)" for z
    proof
      assume zx: "before z x"
      show False
      proof (cases "z = y")
        case True
        with zx \<open>before x y\<close> Cons.prems(1) show False by (simp add: strict_on_def)
      next
        case False
        have "before z y" using strict_onD[OF Cons.prems(1) _ _ _ zx \<open>before x y\<close>] z by simp
        with False z Cons.prems(2) show False by simp
      qed
    qed
    with True Cons.prems(2) show ?thesis by simp
  next
    case False
    then show ?thesis using Cons.IH[OF ord] Cons.prems(2) by simp
  qed
qed simp

lemma sorted_fold_insert:
  assumes "strict_on (set xs \<union> set ys) before" "sorted_wrt (\<lambda>a b. \<not> before b a) ys"
  shows "sorted_wrt (\<lambda>a b. \<not> before b a) (fold (insert_stable before) xs ys)"
  using assms
proof (induction xs arbitrary: ys)
  case (Cons x xs)
  have "strict_on (insert x (set ys)) before" by (rule strict_on_subset[OF Cons.prems(1)]) auto
  from sorted_insert_stable[OF this Cons.prems(2)] Cons.IH[of "insert_stable before x ys"] Cons.prems(1)
  show ?case by simp
qed simp

lemma sorted_sort_stable:
  "strict_on (set xs) before \<Longrightarrow> sorted_wrt (\<lambda>a b. \<not> before b a) (sort_stable before xs)"
  by (simp add: sort_stable_def sorted_fold_insert)

definition scalar_key :: "pyval \<Rightarrow> bool" where
  "scalar_key v \<longleftrightarrow> num_of v \<noteq> None \<or> (\<exists>s. v = PStr s)"

lemma less_value_scalar:
  assumes "scalar_key a" "scalar_key b"
  shows "less_value a b \<longleftrightarrow> (case (num_of a, num_of b) of (Some p, Some q) \<Rightarrow> p < q
     | (None, None) \<Rightarrow> (case (a, b) of (PStr s, PStr t) \<Rightarrow> s < t | _ \<Rightarrow> False) | _ \<Rightarrow> False)"
  using assms by (cases a; cases b) (auto simp: less_value_def scalar_key_def unorderable_def)

lemma less_value_strict:
  assumes "\<forall>x \<in> A. scalar_key (k x)"
  shows "strict_on A (\<lambda>x y. less_value (k x) (k y))" "strict_on A (\<lambda>x y. less_value (k y) (k x))"
  using assms unfolding strict_on_def
  by (auto simp: less_value_scalar split: option.splits pyval.splits)

text \<open>
  A search that answers: the pages together hold exactly the matching items, in one order that no page size changes, and sorted by
  the first sort field when its values are numbers or strings.
\<close>

definition search_order :: "(pyval \<Rightarrow> string) \<Rightarrow> ('a \<Rightarrow> (string, pyval) pydict) \<Rightarrow> 'a list \<Rightarrow> SearchQuery \<Rightarrow> exn + 'a list" where
  "search_order pystr key_fn items q =
     (case select_items pystr key_fn q items of Inl e \<Rightarrow> Inl e | Inr found \<Rightarrow> sort_fields key_fn (rev (sq_sort q)) found)"

lemma search_by_order:
  assumes "search_order pystr key_fn items q = Inr xs" "0 < sq_page_size q" "0 < sq_page q"
  shows "InMemorySearchEngine_search pystr key_fn items q =
    Inr \<lparr>sr_items = take (nat (sq_page_size q)) (drop (nat ((sq_page q - 1) * sq_page_size q)) xs), sr_total = length xs,
         sr_page = sq_page q, sr_page_size = sq_page_size q\<rparr>"
proof -
  have "0 \<le> (sq_page q - 1) * sq_page_size q" using assms(2,3) by simp
  then have "nat ((sq_page q - 1) * sq_page_size q + sq_page_size q) - nat ((sq_page q - 1) * sq_page_size q) = nat (sq_page_size q)"
    using assms(2) by linarith
  then show ?thesis using assms
    by (auto simp: InMemorySearchEngine_search_def search_order_def py_slice_nonneg Let_def split: sum.splits)
qed

lemma search_order_matches:
  "search_order pystr key_fn items q = Inr xs \<Longrightarrow> mset xs = mset (filter (search_matches pystr key_fn q) items)"
  by (auto simp: search_order_def split: sum.splits dest!: select_items_Inr dest: mset_sort_fields)

lemma sort_fields_append:
  "sort_fields key_fn (sfs @ [sf]) xs = (case sort_fields key_fn sfs xs of Inl e \<Rightarrow> Inl e | Inr ys \<Rightarrow> sort_field key_fn sf ys)"
  by (induction sfs arbitrary: xs) (auto split: sum.splits)

lemma sort_before_strict:
  "\<forall>x \<in> A. scalar_key (sort_value key_fn (sf_field sf) x) \<Longrightarrow> strict_on A (sort_before key_fn sf)"
  using less_value_strict[of A "sort_value key_fn (sf_field sf)"]
  by (cases "sf_desc sf") (simp_all add: sort_before_def[abs_def] Let_def)

lemma search_sorted:
  assumes "search_order pystr key_fn items q = Inr xs" "sq_sort q = sf # sfs"
    and "\<forall>x \<in> set xs. scalar_key (sort_value key_fn (sf_field sf) x)"
  shows "sorted_wrt (\<lambda>x y. \<not> sort_before key_fn sf y x) xs"
proof -
  obtain ys where "sort_field key_fn sf ys = Inr xs"
    using assms(1,2) by (auto simp: search_order_def sort_fields_append split: sum.splits)
  then have xs: "xs = sort_stable (sort_before key_fn sf) ys"
    by (auto simp: sort_field_def Let_def split: if_splits)
  then have "set xs = set ys" by (metis mset_sort_stable set_mset_mset)
  then have "strict_on (set ys) (sort_before key_fn sf)" using assms(3) sort_before_strict by metis
  then show ?thesis unfolding xs by (rule sorted_sort_stable)
qed

lemma pages_concat:
  "concat (map (\<lambda>p. take k (drop (p * k) xs)) [0..<n]) = take (n * k) xs"
proof (induction n)
  case (Suc n)
  have "take (Suc n * k) xs = take (n * k) xs @ take k (drop (n * k) xs)"
    using take_add[of "n * k" k xs] by (simp add: add.commute)
  with Suc show ?case by simp
qed simp

theorem search_pages:
  assumes "search_order pystr key_fn items q = Inr xs" "0 < sq_page_size q"
  shows "concat (map (\<lambda>p. case InMemorySearchEngine_search pystr key_fn items (q\<lparr>sq_page := int p + 1\<rparr>) of Inr r \<Rightarrow> sr_items r | Inl _ \<Rightarrow> [])
      [0..<nat (SearchResult_total_pages \<lparr>sr_items = [], sr_total = length xs, sr_page = 1, sr_page_size = sq_page_size q\<rparr>)]) = xs"
proof -
  define k where "k = nat (sq_page_size q)"
  have k: "0 < k" "sq_page_size q = int k" using assms(2) by (simp_all add: k_def)
  have same: "search_order pystr key_fn items (q\<lparr>sq_page := p\<rparr>) = search_order pystr key_fn items q" for p
  proof -
    have "select_items pystr key_fn (q\<lparr>sq_page := p\<rparr>) its = select_items pystr key_fn q its" for its
      by (induction its) (simp_all split: sum.split)
    then show ?thesis by (simp add: search_order_def split: sum.split)
  qed
  have page: "(case InMemorySearchEngine_search pystr key_fn items (q\<lparr>sq_page := int p + 1\<rparr>) of Inr r \<Rightarrow> sr_items r | Inl _ \<Rightarrow> [])
      = take k (drop (p * k) xs)" for p
    using search_by_order[of pystr key_fn items "q\<lparr>sq_page := int p + 1\<rparr>" xs] assms k
    by (simp add: same flip: of_nat_mult)
  define n where "n = nat ((int (length xs) + int k - 1) div int k)"
  have n: "int n = (int (length xs) + int k - 1) div int k" using k by (simp add: n_def pos_imp_zdiv_nonneg_iff)
  have "int (length xs) + int k - 1 = int k * int n + (int (length xs) + int k - 1) mod int k"
    unfolding n by simp
  moreover have "(int (length xs) + int k - 1) mod int k < int k" using k by simp
  ultimately have "int (length xs) \<le> int k * int n" by linarith
  then have "length xs \<le> n * k" by (metis mult.commute of_nat_le_iff of_nat_mult)
  then show ?thesis using k by (simp add: page pages_concat SearchResult_total_pages_def n_def)
qed

text \<open>
  The sort key is \<^verbatim>\<open>value or ""\<close>: a number 0 among other numbers becomes a string, and the search raises
  \<^verbatim>\<open>TypeError\<close>.
\<close>

theorem search_sort_zero_raises:
  "InMemorySearchEngine_search (\<lambda>_. []) id [[(''n'', PInt 0)], [(''n'', PInt 5)]]
     \<lparr>sq_terms = [], sq_filters = [], sq_sort = [\<lparr>sf_field = ''n'', sf_desc = False\<rparr>], sq_page = 1, sq_page_size = 20\<rparr>
   = Inl unorderable"
  by (simp add: InMemorySearchEngine_search_def text_match_def sort_field_def sort_value_def dict_get_or_def)

end
