(* ===== verification/Uploads.thy ===== *)
theory Uploads
  imports Errors "HOL-Library.Char_ord" "HOL-Library.List_Lexorder"
begin

text \<open>
  File uploads (\<^verbatim>\<open>application/files\<close>): the uploaded file, the validator, the object store and the service. SHA-256 is a
  parameter, as is the store of the service; a file's data is either its bytes or a stream, given by the chunks (or the exception)
  it yields.
\<close>

subsection \<open>Files and validation\<close>

datatype file_data = Bytes string | Chunks "(exn + string) list"

record UploadedFile =
  uf_filename :: string
  uf_content_type :: string
  uf_size_bytes :: int
  uf_data :: file_data
  uf_checksum :: string

definition UploadedFile_init :: "(string \<Rightarrow> string) \<Rightarrow> string \<Rightarrow> string \<Rightarrow> int \<Rightarrow> file_data \<Rightarrow> string \<Rightarrow> UploadedFile" where
  "UploadedFile_init sha256 filename content_type size_bytes data checksum =
     \<lparr>uf_filename = filename, uf_content_type = content_type, uf_size_bytes = size_bytes, uf_data = data,
      uf_checksum = (case data of Bytes b \<Rightarrow> if checksum = [] then sha256 b else checksum | Chunks _ \<Rightarrow> checksum)\<rparr>"

definition UploadedFile_from_bytes :: "(string \<Rightarrow> string) \<Rightarrow> string \<Rightarrow> string \<Rightarrow> string \<Rightarrow> UploadedFile" where
  "UploadedFile_from_bytes sha256 filename content_type data =
     UploadedFile_init sha256 filename content_type (int (length data)) (Bytes data) []"

record FileValidator =
  fv_max_size_bytes :: "int option"
  fv_allowed :: "string list option"

definition size_error :: "int \<Rightarrow> int \<Rightarrow> string" where
  "size_error sz mx = ''File size '' @ show_int sz @ '' bytes exceeds maximum of '' @ show_int mx @ '' bytes''"

definition type_error :: "string \<Rightarrow> string list \<Rightarrow> string" where
  "type_error t allowed = ''Content type '' @ quoted t @ '' is not allowed. Allowed: '' @ join_with '', '' (sort (remdups allowed))"

text \<open>The errors of \<^verbatim>\<open>validate\<close>; the result is valid when there are none.\<close>

definition FileValidator_validate :: "FileValidator \<Rightarrow> UploadedFile \<Rightarrow> string list" where
  "FileValidator_validate v f =
     (case fv_max_size_bytes v of None \<Rightarrow> [] | Some mx \<Rightarrow> if uf_size_bytes f > mx then [size_error (uf_size_bytes f) mx] else [])
     @ (case fv_allowed v of None \<Rightarrow> [] | Some ts \<Rightarrow> if uf_content_type f \<notin> set ts then [type_error (uf_content_type f) ts] else [])"

definition FileValidationError :: exc_class where "FileValidationError = UserError ''FileValidationError'' ValueError"

definition FileValidator_validate_or_raise :: "FileValidator \<Rightarrow> UploadedFile \<Rightarrow> exn + unit" where
  "FileValidator_validate_or_raise v f =
     (let errors = FileValidator_validate v f
      in if errors \<noteq> [] then Inl (with_attr ''errors'' (PList (map PStr errors)) (plain_exn FileValidationError (join_with ''; '' errors)))
         else Inr ())"

subsection \<open>Stores and the upload service\<close>

record InMemoryObjectStore =
  os_base_url :: string
  os_store :: "(string, string) pydict"
  os_content_types :: "(string, string) pydict"

definition InMemoryObjectStore_init :: "string \<Rightarrow> InMemoryObjectStore" where
  "InMemoryObjectStore_init base_url =
     \<lparr>os_base_url = rstrip_by (\<lambda>c. c = CHR ''/'') base_url, os_store = [], os_content_types = []\<rparr>"

definition object_put :: "string \<Rightarrow> string \<Rightarrow> string \<Rightarrow> InMemoryObjectStore \<Rightarrow> (exn + string) \<times> InMemoryObjectStore" where
  "object_put key data content_type s =
     (Inr (os_base_url s @ ''/'' @ key),
      s\<lparr>os_store := dict_set key data (os_store s), os_content_types := dict_set key content_type (os_content_types s)\<rparr>)"

definition object_delete :: "string \<Rightarrow> InMemoryObjectStore \<Rightarrow> InMemoryObjectStore" where
  "object_delete key s = s\<lparr>os_store := dict_pop key (os_store s), os_content_types := dict_pop key (os_content_types s)\<rparr>"

definition object_exists :: "string \<Rightarrow> InMemoryObjectStore \<Rightarrow> bool" where
  "object_exists key s \<longleftrightarrow> map_of (os_store s) key \<noteq> None"

definition object_get :: "string \<Rightarrow> InMemoryObjectStore \<Rightarrow> string option" where
  "object_get key s = map_of (os_store s) key"

record FileUploadedEvent =
  fe_destination_key :: string
  fe_url :: string
  fe_filename :: string
  fe_content_type :: string
  fe_size_bytes :: int
  fe_checksum :: string

fun join_chunks :: "(exn + string) list \<Rightarrow> exn + string" where
  "join_chunks [] = Inr []"
| "join_chunks (Inl e # cs) = Inl e"
| "join_chunks (Inr c # cs) = (case join_chunks cs of Inl e \<Rightarrow> Inl e | Inr s \<Rightarrow> Inr (c @ s))"

definition file_bytes :: "file_data \<Rightarrow> exn + string" where
  "file_bytes d = (case d of Bytes b \<Rightarrow> Inr b | Chunks cs \<Rightarrow> join_chunks cs)"

definition FileUploadService_upload ::
    "(string \<Rightarrow> string \<Rightarrow> string \<Rightarrow> ('w, string) act) \<Rightarrow> FileValidator option \<Rightarrow> UploadedFile \<Rightarrow> string
      \<Rightarrow> FileUploadedEvent list \<Rightarrow> 'w \<Rightarrow> (exn + string) \<times> FileUploadedEvent list \<times> 'w" where
  "FileUploadService_upload put validator f key events w =
     (case (case validator of None \<Rightarrow> Inr () | Some v \<Rightarrow> FileValidator_validate_or_raise v f) of
        Inl e \<Rightarrow> (Inl e, events, w)
      | Inr _ \<Rightarrow>
          (case file_bytes (uf_data f) of
             Inl e \<Rightarrow> (Inl e, events, w)
           | Inr data \<Rightarrow>
               (case put key data (uf_content_type f) w of
                  (Inl e, w') \<Rightarrow> (Inl e, events, w')
                | (Inr url, w') \<Rightarrow>
                    (Inr url, events @ [\<lparr>fe_destination_key = key, fe_url = url, fe_filename = uf_filename f,
                       fe_content_type = uf_content_type f, fe_size_bytes = uf_size_bytes f, fe_checksum = uf_checksum f\<rparr>], w'))))"

subsection \<open>Facts\<close>

text \<open>The store answers what was last put under a key.\<close>

lemma object_store_lookup:
  "object_get k (snd (object_put key data t s)) = (if k = key then Some data else object_get k s)"
  "object_exists k (snd (object_put key data t s)) \<longleftrightarrow> k = key \<or> object_exists k s"
  "dict_ok (os_store s) \<Longrightarrow> object_get k (object_delete key s) = (if k = key then None else object_get k s)"
  by (auto simp: object_get_def object_put_def object_exists_def object_delete_def)

text \<open>A rejected file leaves store and events as they were; an accepted one is stored whole and reported once.\<close>

theorem upload_correct:
  assumes "FileUploadService_upload object_put validator f key events s = (r, events', s')"
  shows "case r of
      Inl e \<Rightarrow> s' = s \<and> events' = events
    | Inr url \<Rightarrow> (\<exists>data. file_bytes (uf_data f) = Inr data \<and> object_get key s' = Some data
        \<and> (\<forall>k. k \<noteq> key \<longrightarrow> object_get k s' = object_get k s) \<and> url = os_base_url s @ ''/'' @ key
        \<and> (\<exists>ev. events' = events @ [ev] \<and> fe_url ev = url \<and> fe_size_bytes ev = uf_size_bytes f))
        \<and> (\<forall>v. validator = Some v \<longrightarrow> FileValidator_validate v f = [])"
  using assms
  by (auto simp: FileUploadService_upload_def FileValidator_validate_or_raise_def object_put_def object_get_def Let_def
      split: option.splits sum.splits if_splits)

text \<open>For a file made from its bytes the size limit is a limit on what is stored.\<close>

theorem upload_bytes_within_limit:
  assumes "FileUploadService_upload object_put (Some v) (UploadedFile_from_bytes sha256 name t data) key events s = (Inr url, events', s')"
    and "fv_max_size_bytes v = Some mx"
  shows "\<exists>stored. object_get key s' = Some stored \<and> int (length stored) \<le> mx"
  using assms
  by (auto simp: FileUploadService_upload_def FileValidator_validate_or_raise_def FileValidator_validate_def file_bytes_def
      UploadedFile_from_bytes_def UploadedFile_init_def object_put_def object_get_def Let_def split: if_splits)

text \<open>For other files it is not: the declared size is what is validated, whatever the stream delivers, and no checksum is computed.\<close>

theorem upload_stream_exceeds_limit:
  "\<exists>url events' s'. FileUploadService_upload object_put (Some \<lparr>fv_max_size_bytes = Some 1, fv_allowed = None\<rparr>)
       (UploadedFile_init sha256 ''f'' ''t'' 0 (Chunks [Inr ''abc'', Inr ''def'']) []) ''k'' [] (InMemoryObjectStore_init ''u'')
     = (Inr url, events', s') \<and> object_get ''k'' s' = Some ''abcdef'' \<and> (\<forall>ev \<in> set events'. fe_size_bytes ev = 0 \<and> fe_checksum ev = [])"
  by (simp add: FileUploadService_upload_def FileValidator_validate_or_raise_def FileValidator_validate_def UploadedFile_init_def
      file_bytes_def object_put_def object_get_def InMemoryObjectStore_init_def)

end
