(* ===== verification/Scheduling.thy ===== *)
theory Scheduling
  imports Errors
begin

text \<open>
  Scheduled jobs (\<^verbatim>\<open>application/scheduler\<close>): jobs, their execution, the in-memory scheduler, and what the APScheduler
  adapter registers. Clocks are parameters; APScheduler itself runs the triggers and is not modelled.
\<close>

record 'w Job =
  jb_id :: string
  jb_name :: string
  jb_handler :: "('w, unit) act"
  jb_cron :: "string option"
  jb_interval :: "int option"
  jb_enabled :: bool

definition Job_init :: "string \<Rightarrow> string \<Rightarrow> ('w, unit) act \<Rightarrow> string option \<Rightarrow> int option \<Rightarrow> bool \<Rightarrow> exn + 'w Job" where
  "Job_init i name handler cron interval enabled =
     (if cron = None \<and> interval = None then Inl (plain_exn ValueError (''Job must have either '' @ quoted ''cron'' @ '' or '' @ quoted ''interval_seconds''))
      else if cron \<noteq> None \<and> interval \<noteq> None then Inl (plain_exn ValueError (''Job cannot have both '' @ quoted ''cron'' @ '' and '' @ quoted ''interval_seconds''))
      else Inr \<lparr>jb_id = i, jb_name = name, jb_handler = handler, jb_cron = cron, jb_interval = interval, jb_enabled = enabled\<rparr>)"

record JobExecutedEvent =
  je_job_id :: string
  je_job_name :: string
  je_started_at :: int
  je_duration_ms :: rat
  je_error :: "string option"

definition JobExecutedEvent_success :: "JobExecutedEvent \<Rightarrow> bool" where
  "JobExecutedEvent_success ev \<longleftrightarrow> je_error ev = None"

text \<open>\<^verbatim>\<open>JobExecutionContext.run\<close>: an exception outside \<^verbatim>\<open>Exception\<close> leaves no event.\<close>

definition JobExecutionContext_run :: "('w \<Rightarrow> int) \<Rightarrow> ('w \<Rightarrow> rat) \<Rightarrow> (exn \<Rightarrow> string) \<Rightarrow> 'w Job \<Rightarrow> ('w, JobExecutedEvent) act" where
  "JobExecutionContext_run now monotonic exn_str job w =
     (case jb_handler job w of
        (r, w') \<Rightarrow>
          let event = (\<lambda>error. \<lparr>je_job_id = jb_id job, je_job_name = jb_name job, je_started_at = now w,
                 je_duration_ms = (monotonic w' - monotonic w) * 1000, je_error = error\<rparr>)
          in case r of
               Inr _ \<Rightarrow> (Inr (event None), w')
             | Inl e \<Rightarrow> if catchable e then (Inr (event (Some (exn_str e))), w') else (Inl e, w'))"

record 'w InMemoryScheduler =
  sc_jobs :: "(string, 'w Job) pydict"
  sc_running :: bool
  sc_log :: "JobExecutedEvent list"

definition InMemoryScheduler_init :: "'w InMemoryScheduler" where
  "InMemoryScheduler_init = \<lparr>sc_jobs = [], sc_running = False, sc_log = []\<rparr>"

definition add_job :: "'w Job \<Rightarrow> 'w InMemoryScheduler \<Rightarrow> 'w InMemoryScheduler" where
  "add_job job s = s\<lparr>sc_jobs := dict_set (jb_id job) job (sc_jobs s)\<rparr>"

definition remove_job :: "string \<Rightarrow> 'w InMemoryScheduler \<Rightarrow> 'w InMemoryScheduler" where
  "remove_job i s = s\<lparr>sc_jobs := dict_pop i (sc_jobs s)\<rparr>"

definition scheduler_start :: "'w InMemoryScheduler \<Rightarrow> 'w InMemoryScheduler" where
  "scheduler_start s = s\<lparr>sc_running := True\<rparr>"

definition scheduler_stop :: "'w InMemoryScheduler \<Rightarrow> 'w InMemoryScheduler" where
  "scheduler_stop s = s\<lparr>sc_running := False\<rparr>"

definition list_jobs :: "'w InMemoryScheduler \<Rightarrow> 'w Job list" where
  "list_jobs s = dict_values (sc_jobs s)"

definition trigger_job ::
    "('w \<Rightarrow> int) \<Rightarrow> ('w \<Rightarrow> rat) \<Rightarrow> (exn \<Rightarrow> string) \<Rightarrow> string \<Rightarrow> 'w InMemoryScheduler \<Rightarrow> 'w
      \<Rightarrow> (exn + JobExecutedEvent) \<times> 'w InMemoryScheduler \<times> 'w" where
  "trigger_job now monotonic exn_str i s w =
     (case map_of (sc_jobs s) i of
        None \<Rightarrow> (Inl (plain_exn KeyError i), s, w)
      | Some job \<Rightarrow>
          (case JobExecutionContext_run now monotonic exn_str job w of
             (Inl e, w') \<Rightarrow> (Inl e, s, w')
           | (Inr ev, w') \<Rightarrow> (Inr ev, s\<lparr>sc_log := sc_log s @ [ev]\<rparr>, w')))"

text \<open>The trigger the APScheduler adapter chooses for a job; \<^verbatim>\<open>enabled\<close> is not consulted.\<close>

datatype job_trigger = CronTrigger string | IntervalTrigger "int option"

definition register_trigger :: "'w Job \<Rightarrow> job_trigger" where
  "register_trigger job = (case jb_cron job of
     None \<Rightarrow> IntervalTrigger (jb_interval job) | Some c \<Rightarrow> if c = [] then IntervalTrigger (jb_interval job) else CronTrigger c)"

subsection \<open>Facts\<close>

definition job_ok :: "'w Job \<Rightarrow> bool" where
  "job_ok j \<longleftrightarrow> (jb_cron j = None) \<noteq> (jb_interval j = None)"

definition scheduler_ok :: "'w InMemoryScheduler \<Rightarrow> bool" where
  "scheduler_ok s \<longleftrightarrow> dict_ok (sc_jobs s) \<and> (\<forall>i j. map_of (sc_jobs s) i = Some j \<longrightarrow> jb_id j = i \<and> job_ok j)"

lemma Job_init_ok: "Job_init i name h cron interval enabled = Inr j \<Longrightarrow> job_ok j"
  by (auto simp: Job_init_def job_ok_def split: if_splits)

lemma scheduler_ok_ops [inv_intros]:
  "scheduler_ok InMemoryScheduler_init"
  "scheduler_ok s \<Longrightarrow> job_ok j \<Longrightarrow> scheduler_ok (add_job j s)"
  "scheduler_ok s \<Longrightarrow> scheduler_ok (remove_job i s)"
  "scheduler_ok s \<Longrightarrow> scheduler_ok (scheduler_start s)"
  "scheduler_ok s \<Longrightarrow> scheduler_ok (scheduler_stop s)"
  by (auto simp: scheduler_ok_def InMemoryScheduler_init_def add_job_def remove_job_def scheduler_start_def scheduler_stop_def
      intro: inv_intros split: if_splits)

lemma trigger_job_ok [inv_intros]:
  "scheduler_ok s \<Longrightarrow> trigger_job now clk exn_str i s w = (r, s', w') \<Longrightarrow> scheduler_ok s'"
  by (auto simp: trigger_job_def scheduler_ok_def split: option.splits prod.splits sum.splits)

text \<open>A triggered job runs its own handler once, and its outcome is logged unless it was cancelled or interrupted.\<close>

theorem trigger_job_logs:
  assumes "scheduler_ok s" "map_of (sc_jobs s) i = Some job" "jb_handler job w = (r, w')"
    and "\<And>e. r = Inl e \<Longrightarrow> catchable e"
  shows "\<exists>ev s'. trigger_job now clk exn_str i s w = (Inr ev, s', w') \<and> sc_log s' = sc_log s @ [ev] \<and> sc_jobs s' = sc_jobs s
    \<and> je_job_id ev = i \<and> (JobExecutedEvent_success ev \<longleftrightarrow> r = Inr ())"
  using assms
  by (cases r) (auto simp: trigger_job_def JobExecutionContext_run_def JobExecutedEvent_success_def scheduler_ok_def Let_def)

end
