(* ===== verification/Sql_Specifications.thy ===== *)
theory Sql_Specifications
  imports Policies
begin

text \<open>
  Specifications that also give a SQL condition (\<^verbatim>\<open>adapters/sqlalchemy/specification.py\<close>), on top of the in-memory ones of
  \<^verbatim>\<open>kernel/ddd/specification.py\<close>. The operators \<^verbatim>\<open>&\<close>, \<^verbatim>\<open>|\<close> and \<^verbatim>\<open>~\<close> dispatch on the class of the
  left operand: a composite is SQL-aware exactly when that operand is. The conditions \<^verbatim>\<open>and_\<close>, \<^verbatim>\<open>or_\<close>,
  \<^verbatim>\<open>not_\<close> have the three truth values of SQL; a leaf's condition \<open>'x\<close> is what its author wrote.
\<close>

datatype ('c, 'x) sql_spec =
    SqlLeaf "'c \<Rightarrow> exn + bool" 'x
  | PlainLeaf "'c \<Rightarrow> exn + bool" string
  | AndNode bool "('c, 'x) sql_spec" "('c, 'x) sql_spec"
  | OrNode bool "('c, 'x) sql_spec" "('c, 'x) sql_spec"
  | NotNode bool "('c, 'x) sql_spec"

fun has_to_expression :: "('c, 'x) sql_spec \<Rightarrow> bool" where
  "has_to_expression (SqlLeaf _ _) = True"
| "has_to_expression (PlainLeaf _ _) = False"
| "has_to_expression (AndNode sql _ _) = sql"
| "has_to_expression (OrNode sql _ _) = sql"
| "has_to_expression (NotNode sql _) = sql"

definition spec_and :: "('c, 'x) sql_spec \<Rightarrow> ('c, 'x) sql_spec \<Rightarrow> ('c, 'x) sql_spec" where
  "spec_and l r = AndNode (has_to_expression l) l r"

definition spec_or :: "('c, 'x) sql_spec \<Rightarrow> ('c, 'x) sql_spec \<Rightarrow> ('c, 'x) sql_spec" where
  "spec_or l r = OrNode (has_to_expression l) l r"

definition spec_invert :: "('c, 'x) sql_spec \<Rightarrow> ('c, 'x) sql_spec" where
  "spec_invert s = NotNode (has_to_expression s) s"

primrec in_memory :: "('c, 'x) sql_spec \<Rightarrow> 'c Specification" where
  "in_memory (SqlLeaf p x) = LambdaSpecification p []"
| "in_memory (PlainLeaf p n) = LambdaSpecification p n"
| "in_memory (AndNode sql l r) = AndSpecification (in_memory l) (in_memory r)"
| "in_memory (OrNode sql l r) = OrSpecification (in_memory l) (in_memory r)"
| "in_memory (NotNode sql s) = NotSpecification (in_memory s)"

datatype 'x sql_expr = Condition 'x | SqlAnd "'x sql_expr" "'x sql_expr" | SqlOr "'x sql_expr" "'x sql_expr" | SqlNot "'x sql_expr"

fun type_name :: "('c, 'x) sql_spec \<Rightarrow> string" where
  "type_name (AndNode _ _ _) = ''AndSpecification''"
| "type_name (OrNode _ _ _) = ''OrSpecification''"
| "type_name (NotNode _ _) = ''NotSpecification''"
| "type_name (PlainLeaf _ n) = n"
| "type_name (SqlLeaf _ _) = ''SQLAlchemySpecification''"

definition no_expression :: "string \<Rightarrow> exn" where
  "no_expression n = plain_exn TypeError
     (''Specification '' @ quoted n @ '' does not implement to_expression(). Wrap it in an SQLAlchemySpecification subclass.'')"

fun get_expression :: "('c, 'x) sql_spec \<Rightarrow> exn + 'x sql_expr" where
  "get_expression (SqlLeaf p x) = Inr (Condition x)"
| "get_expression (AndNode True l r) =
     (case get_expression l of Inl e \<Rightarrow> Inl e | Inr a \<Rightarrow> (case get_expression r of Inl e \<Rightarrow> Inl e | Inr b \<Rightarrow> Inr (SqlAnd a b)))"
| "get_expression (OrNode True l r) =
     (case get_expression l of Inl e \<Rightarrow> Inl e | Inr a \<Rightarrow> (case get_expression r of Inl e \<Rightarrow> Inl e | Inr b \<Rightarrow> Inr (SqlOr a b)))"
| "get_expression (NotNode True s) = (case get_expression s of Inl e \<Rightarrow> Inl e | Inr a \<Rightarrow> Inr (SqlNot a))"
| "get_expression s = Inl (no_expression (type_name s))"

subsection \<open>The rows a condition selects\<close>

primrec sql_value :: "('x \<Rightarrow> 'c \<Rightarrow> bool option) \<Rightarrow> 'x sql_expr \<Rightarrow> 'c \<Rightarrow> bool option" where
  "sql_value val (Condition x) c = val x c"
| "sql_value val (SqlAnd a b) c =
     (case (sql_value val a c, sql_value val b c) of
        (Some False, _) \<Rightarrow> Some False | (_, Some False) \<Rightarrow> Some False | (Some True, Some True) \<Rightarrow> Some True | _ \<Rightarrow> None)"
| "sql_value val (SqlOr a b) c =
     (case (sql_value val a c, sql_value val b c) of
        (Some True, _) \<Rightarrow> Some True | (_, Some True) \<Rightarrow> Some True | (Some False, Some False) \<Rightarrow> Some False | _ \<Rightarrow> None)"
| "sql_value val (SqlNot a) c = map_option Not (sql_value val a c)"

definition where_rows :: "('x \<Rightarrow> 'c \<Rightarrow> bool option) \<Rightarrow> 'x sql_expr \<Rightarrow> 'c list \<Rightarrow> 'c list" where
  "where_rows val e rows = filter (\<lambda>c. sql_value val e c = Some True) rows"

text \<open>A leaf is written consistently for a row: its condition has the value its predicate gives.\<close>

fun consistent :: "('x \<Rightarrow> 'c \<Rightarrow> bool option) \<Rightarrow> 'c \<Rightarrow> ('c, 'x) sql_spec \<Rightarrow> bool" where
  "consistent val c (SqlLeaf p x) \<longleftrightarrow> (\<exists>b. p c = Inr b \<and> val x c = Some b)"
| "consistent val c (PlainLeaf p n) \<longleftrightarrow> True"
| "consistent val c (AndNode _ l r) \<longleftrightarrow> consistent val c l \<and> consistent val c r"
| "consistent val c (OrNode _ l r) \<longleftrightarrow> consistent val c l \<and> consistent val c r"
| "consistent val c (NotNode _ s) \<longleftrightarrow> consistent val c s"

lemma sql_value_in_memory:
  assumes "get_expression s = Inr e" "consistent val c s"
  shows "\<exists>b. sql_value val e c = Some b \<and> is_satisfied_by (in_memory s) c = Inr b"
  using assms
proof (induction s arbitrary: e rule: get_expression.induct)
  case (2 l r)
  then obtain a b where "get_expression l = Inr a" "get_expression r = Inr b" "e = SqlAnd a b"
    by (auto split: sum.splits)
  with 2 show ?case by (fastforce split: bool.splits)
next
  case (3 l r)
  then obtain a b where "get_expression l = Inr a" "get_expression r = Inr b" "e = SqlOr a b"
    by (auto split: sum.splits)
  with 3 show ?case by (fastforce split: bool.splits)
next
  case (4 s)
  then obtain a where "get_expression s = Inr a" "e = SqlNot a" by (auto split: sum.splits)
  with 4 show ?case by fastforce
qed auto

text \<open>The rows the database selects are those the specification accepts in memory.\<close>

theorem where_rows_correct:
  assumes "get_expression s = Inr e" "\<forall>c \<in> set rows. consistent val c s"
  shows "where_rows val e rows = filter (\<lambda>c. is_satisfied_by (in_memory s) c = Inr True) rows"
  unfolding where_rows_def using sql_value_in_memory[OF assms(1)] assms(2) by (intro filter_cong) fastforce+

text \<open>
  A condition exists exactly when no node is a plain specification. The composites of the operators are SQL-aware when their
  left operand is, so a tree of SQL leaves always has one.
\<close>

fun all_sql :: "('c, 'x) sql_spec \<Rightarrow> bool" where
  "all_sql (SqlLeaf _ _) = True"
| "all_sql (PlainLeaf _ _) = False"
| "all_sql (AndNode sql l r) = (sql \<and> all_sql l \<and> all_sql r)"
| "all_sql (OrNode sql l r) = (sql \<and> all_sql l \<and> all_sql r)"
| "all_sql (NotNode sql s) = (sql \<and> all_sql s)"

lemma get_expression_total: "(\<exists>e. get_expression s = Inr e) \<longleftrightarrow> all_sql s"
  by (induction s rule: get_expression.induct) (auto split: sum.splits)

lemma all_sql_has: "all_sql s \<Longrightarrow> has_to_expression s"
  by (cases s) auto

lemma operators_all_sql:
  "all_sql l \<Longrightarrow> all_sql r \<Longrightarrow> all_sql (spec_and l r)" "all_sql l \<Longrightarrow> all_sql r \<Longrightarrow> all_sql (spec_or l r)"
  "all_sql l \<Longrightarrow> all_sql (spec_invert l)"
  by (simp_all add: spec_and_def spec_or_def spec_invert_def all_sql_has)

text \<open>
  A column that is NULL breaks the agreement below a negation: the predicate says no, its negation yes, and the database selects
  the row for neither.
\<close>

theorem null_negation_diverges:
  assumes "p c = Inr False" "val x c = None"
  shows "is_satisfied_by (in_memory (spec_invert (SqlLeaf p x))) c = Inr True"
    and "\<exists>e. get_expression (spec_invert (SqlLeaf p x)) = Inr e \<and> where_rows val e [c] = []"
  using assms by (simp_all add: spec_invert_def where_rows_def)

end
