(* ===== verification/Py_Async.thy ===== *)
theory Py_Async
  imports Errors "HOL-Library.Sublist"
begin

text \<open>
  What the adapters of services and brokers share: \<^verbatim>\<open>async with\<close>, sequencing of fallible calls, \<^verbatim>\<open>raise ... from\<close>, the
  use of an object before it exists, and the tests adapters make on the name and the text of an exception
  (\<^verbatim>\<open>"404" in str(exc)\<close>), which they use in place of the exception classes of optional packages.
\<close>

subsection \<open>Sequencing\<close>

definition then_do :: "('w, 'a) act \<Rightarrow> ('a \<Rightarrow> ('w, 'b) act) \<Rightarrow> ('w, 'b) act" where
  "then_do m f w = (case m w of (Inl e, w') \<Rightarrow> (Inl e, w') | (Inr x, w') \<Rightarrow> f x w')"

definition give :: "'a \<Rightarrow> ('w, 'a) act" where
  "give x w = (Inr x, w)"

definition throw :: "exn \<Rightarrow> ('w, 'a) act" where
  "throw e w = (Inl e, w)"

text \<open>\<^verbatim>\<open>except Exception as exc\<close>: the handler runs for everything that derives from \<^verbatim>\<open>Exception\<close>.\<close>

definition try_except :: "('w, 'a) act \<Rightarrow> (exn \<Rightarrow> ('w, 'a) act) \<Rightarrow> ('w, 'a) act" where
  "try_except m handler w =
     (case m w of (Inr x, w') \<Rightarrow> (Inr x, w') | (Inl e, w') \<Rightarrow> if catchable e then handler e w' else (Inl e, w'))"

text \<open>\<^verbatim>\<open>async with\<close>: the context is left however the body ends; an exception on leaving replaces the outcome.\<close>

definition async_with :: "('w, 'c) act \<Rightarrow> ('c \<Rightarrow> ('w, unit) act) \<Rightarrow> ('c \<Rightarrow> ('w, 'a) act) \<Rightarrow> ('w, 'a) act" where
  "async_with enter leave body w =
     (case enter w of
        (Inl e, w1) \<Rightarrow> (Inl e, w1)
      | (Inr c, w1) \<Rightarrow>
          (case body c w1 of
             (r, w2) \<Rightarrow> (case leave c w2 of (Inl e, w3) \<Rightarrow> (Inl e, w3) | (Inr _, w3) \<Rightarrow> (r, w3))))"

text \<open>A loop that awaits one call per element, in order.\<close>

fun for_each :: "('a \<Rightarrow> ('w, unit) act) \<Rightarrow> 'a list \<Rightarrow> ('w, unit) act" where
  "for_each f [] w = (Inr (), w)"
| "for_each f (x # xs) w = (case f x w of (Inl e, w') \<Rightarrow> (Inl e, w') | (Inr _, w') \<Rightarrow> for_each f xs w')"

fun collect_each :: "('a \<Rightarrow> ('w, 'b) act) \<Rightarrow> 'a list \<Rightarrow> ('w, 'b list) act" where
  "collect_each f [] w = (Inr [], w)"
| "collect_each f (x # xs) w =
     (case f x w of
        (Inl e, w') \<Rightarrow> (Inl e, w')
      | (Inr y, w') \<Rightarrow> (case collect_each f xs w' of (Inl e, w'') \<Rightarrow> (Inl e, w'') | (Inr ys, w'') \<Rightarrow> (Inr (y # ys), w'')))"

lemma then_do_simps [simp]:
  "m w = (Inl e, w') \<Longrightarrow> then_do m f w = (Inl e, w')"
  "m w = (Inr x, w') \<Longrightarrow> then_do m f w = f x w'"
  by (simp_all add: then_do_def)

lemma give_simp [simp]: "give x w = (Inr x, w)"
  by (simp add: give_def)

lemma throw_simp [simp]: "throw e w = (Inl e, w)"
  by (simp add: throw_def)

lemma try_except_simps [simp]:
  "m w = (Inr x, w') \<Longrightarrow> try_except m h w = (Inr x, w')"
  "m w = (Inl e, w') \<Longrightarrow> try_except m h w = (if catchable e then h e w' else (Inl e, w'))"
  by (simp_all add: try_except_def)

lemma for_each_append:
  "for_each f (xs @ ys) w = (case for_each f xs w of (Inl e, w') \<Rightarrow> (Inl e, w') | (Inr _, w') \<Rightarrow> for_each f ys w')"
  by (induction xs arbitrary: w) (auto split: prod.split sum.split)

lemma collect_each_length: "collect_each f xs w = (Inr ys, w') \<Longrightarrow> length ys = length xs"
  by (induction xs arbitrary: w ys) (auto split: prod.splits sum.splits)

text \<open>A loop stops at the first call that raises.\<close>

lemma for_each_stops:
  assumes "for_each f xs w = (Inl e, w')"
  shows "\<exists>ys x zs w1. xs = ys @ x # zs \<and> for_each f ys w = (Inr (), w1) \<and> f x w1 = (Inl e, w')"
  using assms
proof (induction xs arbitrary: w)
  case (Cons x xs)
  show ?case
  proof (cases "f x w")
    case (Pair r v)
    show ?thesis
    proof (cases r)
      case (Inl e')
      with Cons.prems Pair have "xs = xs \<and> for_each f [] w = (Inr (), w) \<and> f x w = (Inl e, w')" by simp
      then show ?thesis by (metis append_Nil)
    next
      case (Inr u)
      then obtain ys y zs w1 where "xs = ys @ y # zs" "for_each f ys v = (Inr (), w1)" "f y w1 = (Inl e, w')"
        using Cons Pair by fastforce
      then have "x # xs = (x # ys) @ y # zs \<and> for_each f (x # ys) w = (Inr (), w1) \<and> f y w1 = (Inl e, w')"
        using Pair Inr by simp
      then show ?thesis by blast
    qed
  qed
qed simp

subsection \<open>Exceptions by name and text\<close>

text \<open>\<^verbatim>\<open>type(exc).__name__\<close>.\<close>

fun class_name :: "exc_class \<Rightarrow> string" where
  "class_name BaseException = ''BaseException''"
| "class_name Exception = ''Exception''"
| "class_name CancelledError = ''CancelledError''"
| "class_name ValueError = ''ValueError''"
| "class_name TypeError = ''TypeError''"
| "class_name LookupError = ''LookupError''"
| "class_name KeyError = ''KeyError''"
| "class_name RuntimeError = ''RuntimeError''"
| "class_name NotImplementedError = ''NotImplementedError''"
| "class_name OSError = ''OSError''"
| "class_name FileNotFoundError = ''FileNotFoundError''"
| "class_name BuiltinTimeoutError = ''TimeoutError''"
| "class_name BaseError = ''BaseError''"
| "class_name DomainError = ''DomainError''"
| "class_name InvariantViolationError = ''InvariantViolationError''"
| "class_name ValidationError = ''ValidationError''"
| "class_name NotFoundError = ''NotFoundError''"
| "class_name ConflictError = ''ConflictError''"
| "class_name ApplicationError = ''ApplicationError''"
| "class_name UnauthorizedError = ''UnauthorizedError''"
| "class_name ForbiddenError = ''ForbiddenError''"
| "class_name RateLimitError = ''RateLimitError''"
| "class_name AppTimeoutError = ''TimeoutError''"
| "class_name BulkheadFullError = ''BulkheadFullError''"
| "class_name ConfigError = ''ConfigError''"
| "class_name MissingRequiredSettingError = ''MissingRequiredSettingError''"
| "class_name InvalidSettingValueError = ''InvalidSettingValueError''"
| "class_name InfrastructureError = ''InfrastructureError''"
| "class_name InfraConnectionError = ''ConnectionError''"
| "class_name InfraTimeoutError = ''TimeoutError''"
| "class_name SerializationError = ''SerializationError''"
| "class_name ExternalServiceError = ''ExternalServiceError''"
| "class_name CircuitOpenError = ''CircuitOpenError''"
| "class_name SagaError = ''SagaError''"
| "class_name SagaFailedError = ''SagaFailedError''"
| "class_name SagaCompensationFailedError = ''SagaCompensationFailedError''"
| "class_name OptimisticConcurrencyError = ''OptimisticConcurrencyError''"
| "class_name InvalidTransitionError = ''InvalidTransitionError''"
| "class_name BackpressureError = ''BackpressureError''"
| "class_name ThrottledError = ''ThrottledError''"
| "class_name DeadlineExceededError = ''DeadlineExceededError''"
| "class_name PKCEError = ''PKCEError''"
| "class_name PKCEVerificationError = ''PKCEVerificationError''"
| "class_name FileValidationError = ''FileValidationError''"
| "class_name (UserError n c) = n"

definition named_like :: "string \<Rightarrow> exn \<Rightarrow> bool" where
  "named_like part e \<longleftrightarrow> sublist part (class_name (exn_class e))"

definition says :: "string \<Rightarrow> exn \<Rightarrow> bool" where
  "says part e \<longleftrightarrow> sublist part (exn_message e)"

text \<open>\<^verbatim>\<open>raise e from cause\<close>.\<close>

definition raised_from :: "exn \<Rightarrow> exn \<Rightarrow> exn" where
  "raised_from e cause = Exn (exn_class e) (exn_message e) (exn_code e) (exn_detail e) (exn_attrs e) (Some cause) (exn_other e)"

lemma raised_from_simps [simp]:
  "exn_class (raised_from e c) = exn_class e" "exn_message (raised_from e c) = exn_message e"
  "exn_cause (raised_from e c) = Some c"
  by (simp_all add: raised_from_def)

lemma exn_message_plain [simp]: "exn_message (plain_exn c m) = m"
  by (simp add: plain_exn_def)

text \<open>Reading an attribute of \<^verbatim>\<open>None\<close>.\<close>

definition none_attr :: "string \<Rightarrow> exn" where
  "none_attr a =
     plain_exn (UserError ''AttributeError'' Exception) (quoted ''NoneType'' @ '' object has no attribute '' @ quoted a)"

lemma catchable_simps [simp]:
  "catchable (none_attr a)" "catchable (plain_exn (UserError n Exception) m)"
  "catchable (plain_exn KeyError m)" "catchable (plain_exn ValueError m)" "catchable (plain_exn TypeError m)"
  "catchable (plain_exn RuntimeError m)" "catchable (plain_exn OSError m)" "catchable (plain_exn BuiltinTimeoutError m)"
  by (simp_all add: catchable_def isinstance_def none_attr_def issubclass_def mro_def eval_nat_numeral)

subsection \<open>Dictionaries and models\<close>

text \<open>\<^verbatim>\<open>d.update(new)\<close>.\<close>

definition dict_update :: "('k, 'v) pydict \<Rightarrow> ('k, 'v) pydict \<Rightarrow> ('k, 'v) pydict" where
  "dict_update d new = foldl (\<lambda>acc kv. dict_set (fst kv) (snd kv) acc) d new"

lemma dict_set_ne [simp]: "dict_set k v d \<noteq> []"
  by (cases d) (auto simp: dict_set_eval split: if_splits)

lemma map_of_dict_update: "map_of (dict_update d new) k = (case map_of (rev new) k of None \<Rightarrow> map_of d k | Some v \<Rightarrow> Some v)"
  by (induction new rule: rev_induct) (auto simp: dict_update_def split: option.splits)

type_synonym item = "(string, pyval) pydict"

text \<open>An application object as \<^verbatim>\<open>_to_dict\<close> inspects it: what \<^verbatim>\<open>model_dump()\<close> gives if it has that method, what
  \<^verbatim>\<open>dataclasses.asdict\<close> gives if it is a dataclass instance, and its \<^verbatim>\<open>__dict__\<close> if it has one.\<close>

record py_object =
  obj_model_dump :: "item option"
  obj_asdict :: "item option"
  obj_vars :: "item option"

definition obj_to_dict :: "py_object \<Rightarrow> exn + item" where
  "obj_to_dict obj =
     (case obj_model_dump obj of
        Some d \<Rightarrow> Inr d
      | None \<Rightarrow> (case obj_asdict obj of
                   Some d \<Rightarrow> Inr d
                 | None \<Rightarrow> (case obj_vars obj of
                              Some d \<Rightarrow> Inr d
                            | None \<Rightarrow> Inl (plain_exn TypeError ''vars() argument must have __dict__ attribute''))))"

text \<open>\<^verbatim>\<open>[model(**item) for item in items]\<close>: the first constructor that raises ends it.\<close>

fun build_all :: "('i \<Rightarrow> exn + 'a) \<Rightarrow> 'i list \<Rightarrow> exn + 'a list" where
  "build_all model [] = Inr []"
| "build_all model (i # is) =
     (case model i of
        Inl e \<Rightarrow> Inl e
      | Inr x \<Rightarrow> (case build_all model is of Inl e \<Rightarrow> Inl e | Inr xs \<Rightarrow> Inr (x # xs)))"

lemma build_all_map: "(\<And>i. i \<in> set is \<Longrightarrow> model i = Inr (f i)) \<Longrightarrow> build_all model is = Inr (map f is)"
  by (induction "is") auto

text \<open>The result of a computation that does not touch the world.\<close>

definition outcome :: "exn + 'a \<Rightarrow> ('w, 'a) act" where
  "outcome r w = (r, w)"

lemma outcome_simp [simp]: "outcome r w = (r, w)"
  by (simp add: outcome_def)

text \<open>Calls made by several callers one after the other, each with its own outcome.\<close>

fun each_outcome :: "('a \<Rightarrow> ('w, 'b) act) \<Rightarrow> 'a list \<Rightarrow> 'w \<Rightarrow> (exn + 'b) list \<times> 'w" where
  "each_outcome f [] w = ([], w)"
| "each_outcome f (x # xs) w =
     (case f x w of (r, w') \<Rightarrow> case each_outcome f xs w' of (rs, w'') \<Rightarrow> (r # rs, w''))"

end
