(* ===== verification/Object_Stores.thy ===== *)
theory Object_Stores
  imports Py_Async
begin

text \<open>
  Object storage: the in-memory fake and the S3 store (\<^verbatim>\<open>adapters/s3/object_store.py\<close>), the Google Cloud Storage store
  (\<^verbatim>\<open>adapters/gcs/object_store.py\<close>) and the Azure Blob store (\<^verbatim>\<open>adapters/azure_blob/object_store.py\<close>). The clients of the
  three services are parameters: \<open>blob_api\<close> has the calls the adapters make, and the locale \<open>blob_service\<close> states their
  documented behaviour. The locale \<open>object_store\<close> is the contract of the stores; every store of the library provides it,
  and a sequence of operations has the results of the specification \<open>store_run\<close> on each of them.
\<close>

subsection \<open>The in-memory store\<close>

record S3MemoryStore =
  os_store :: "(string, string) pydict"
  os_metadata :: "(string, string) pydict"

definition mem_init :: S3MemoryStore where
  "mem_init = \<lparr>os_store = [], os_metadata = []\<rparr>"

definition mem_put :: "string \<Rightarrow> string \<Rightarrow> string \<Rightarrow> (S3MemoryStore, unit) act" where
  "mem_put key data content_type s =
     (Inr (), \<lparr>os_store = dict_set key data (os_store s), os_metadata = dict_set key content_type (os_metadata s)\<rparr>)"

definition mem_get :: "string \<Rightarrow> (S3MemoryStore, string) act" where
  "mem_get key s =
     (case map_of (os_store s) key of
        None \<Rightarrow> (Inl (plain_exn KeyError (repr_str key)), s)
      | Some data \<Rightarrow> (Inr data, s))"

definition mem_delete :: "string \<Rightarrow> (S3MemoryStore, unit) act" where
  "mem_delete key s =
     (Inr (), \<lparr>os_store = dict_pop key (os_store s), os_metadata = dict_pop key (os_metadata s)\<rparr>)"

definition mem_exists :: "string \<Rightarrow> (S3MemoryStore, bool) act" where
  "mem_exists key s = (Inr (key \<in> fst ` set (os_store s)), s)"

definition mem_list_keys :: "string \<Rightarrow> (S3MemoryStore, string list) act" where
  "mem_list_keys pfx s = (Inr (filter (\<lambda>k. startswith k pfx) (dict_keys (os_store s))), s)"

subsection \<open>The services\<close>

text \<open>A call names the bucket or container first. \<open>api_enter\<close> and \<open>api_leave\<close> are the client context that S3 opens from
  keyword arguments and Azure opens per blob. A page of a listing has no \<^verbatim>\<open>Contents\<close> entry when it is empty.\<close>

record 'w blob_api =
  api_enter :: "(string, pyval) pydict \<Rightarrow> ('w, unit) act"
  api_leave :: "('w, unit) act"
  api_upload :: "string \<Rightarrow> string \<Rightarrow> string \<Rightarrow> string \<Rightarrow> ('w, unit) act"
  api_download :: "string \<Rightarrow> string \<Rightarrow> ('w, string) act"
  api_delete :: "string \<Rightarrow> string \<Rightarrow> ('w, unit) act"
  api_head :: "string \<Rightarrow> string \<Rightarrow> ('w, unit) act"
  api_page :: "string \<Rightarrow> string \<Rightarrow> ('w, string list option) act"
  api_list_all :: "string \<Rightarrow> string \<Rightarrow> ('w, string list) act"
  api_presign :: "string \<Rightarrow> (string, pyval) pydict \<Rightarrow> int \<Rightarrow> ('w, string) act"

subsection \<open>S3\<close>

record S3ObjectStore =
  s3_bucket :: string
  s3_region :: string
  s3_endpoint_url :: "string option"
  s3_session_kwargs :: "(string, pyval) pydict"

definition S3_client_kwargs :: "S3ObjectStore \<Rightarrow> (string, pyval) pydict" where
  "S3_client_kwargs s =
     (let kwargs = [(''region_name'', PStr (s3_region s))];
          kwargs' = (case s3_endpoint_url s of
                       None \<Rightarrow> kwargs
                     | Some u \<Rightarrow> if u = [] then kwargs else dict_set ''endpoint_url'' (PStr u) kwargs)
      in dict_update kwargs' (s3_session_kwargs s))"

definition S3_client_context :: "'w blob_api \<Rightarrow> S3ObjectStore \<Rightarrow> ('w, 'a) act \<Rightarrow> ('w, 'a) act" where
  "S3_client_context api s body = async_with (api_enter api (S3_client_kwargs s)) (\<lambda>_. api_leave api) (\<lambda>_. body)"

definition S3_put :: "'w blob_api \<Rightarrow> S3ObjectStore \<Rightarrow> string \<Rightarrow> string \<Rightarrow> string \<Rightarrow> ('w, unit) act" where
  "S3_put api s key data content_type = S3_client_context api s (api_upload api (s3_bucket s) key data content_type)"

definition s3_missing :: "exn \<Rightarrow> bool" where
  "s3_missing e \<longleftrightarrow> named_like ''NoSuchKey'' e \<or> says ''NoSuchKey'' e"

definition S3_get :: "'w blob_api \<Rightarrow> S3ObjectStore \<Rightarrow> string \<Rightarrow> ('w, string) act" where
  "S3_get api s key =
     S3_client_context api s
       (try_except (api_download api (s3_bucket s) key)
          (\<lambda>e. throw (if s3_missing e then raised_from (plain_exn KeyError (repr_str key)) e else e)))"

definition S3_delete :: "'w blob_api \<Rightarrow> S3ObjectStore \<Rightarrow> string \<Rightarrow> ('w, unit) act" where
  "S3_delete api s key = S3_client_context api s (api_delete api (s3_bucket s) key)"

definition S3_exists :: "'w blob_api \<Rightarrow> S3ObjectStore \<Rightarrow> string \<Rightarrow> ('w, bool) act" where
  "S3_exists api s key =
     S3_client_context api s
       (try_except (then_do (api_head api (s3_bucket s) key) (\<lambda>_. give True)) (\<lambda>_. give False))"

definition S3_list_keys :: "'w blob_api \<Rightarrow> S3ObjectStore \<Rightarrow> string \<Rightarrow> ('w, string list) act" where
  "S3_list_keys api s pfx =
     S3_client_context api s
       (then_do (api_page api (s3_bucket s) pfx)
          (\<lambda>contents. give (case contents of None \<Rightarrow> [] | Some ks \<Rightarrow> ks)))"

definition presign_get :: "'w blob_api \<Rightarrow> S3ObjectStore \<Rightarrow> string \<Rightarrow> int \<Rightarrow> ('w, string) act" where
  "presign_get api s key expires_in =
     S3_client_context api s
       (api_presign api ''get_object'' [(''Bucket'', PStr (s3_bucket s)), (''Key'', PStr key)] expires_in)"

definition presign_put :: "'w blob_api \<Rightarrow> S3ObjectStore \<Rightarrow> string \<Rightarrow> int \<Rightarrow> string \<Rightarrow> ('w, string) act" where
  "presign_put api s key expires_in content_type =
     S3_client_context api s
       (api_presign api ''put_object''
          [(''Bucket'', PStr (s3_bucket s)), (''Key'', PStr key), (''ContentType'', PStr content_type)] expires_in)"

subsection \<open>Google Cloud Storage\<close>

text \<open>The client and the bucket handle exist between \<^verbatim>\<open>__aenter__\<close> and \<^verbatim>\<open>__aexit__\<close>; \<open>gcs_client\<close> records the keyword arguments
  the client was built with.\<close>

record GCSObjectStore =
  gcs_bucket_name :: string
  gcs_project :: "string option"
  gcs_credentials :: pyval
  gcs_client :: "(string, pyval) pydict option"
  gcs_bucket :: "string option"

definition GCS_aenter :: "GCSObjectStore \<Rightarrow> GCSObjectStore" where
  "GCS_aenter s =
     (let kwargs = (case gcs_project s of None \<Rightarrow> [] | Some p \<Rightarrow> if p = [] then [] else [(''project'', PStr p)]);
          kwargs' = (if truthy (gcs_credentials s) then dict_set ''credentials'' (gcs_credentials s) kwargs else kwargs)
      in s\<lparr>gcs_client := Some kwargs', gcs_bucket := Some (gcs_bucket_name s)\<rparr>)"

text \<open>\<open>close\<close> is the client's \<^verbatim>\<open>close()\<close>, whose exceptions are swallowed.\<close>

definition GCS_aexit :: "('w, unit) act \<Rightarrow> GCSObjectStore \<Rightarrow> 'w \<Rightarrow> (exn + unit) \<times> GCSObjectStore \<times> 'w" where
  "GCS_aexit close s w =
     (case gcs_client s of
        None \<Rightarrow> (Inr (), s, w)
      | Some _ \<Rightarrow>
          (case try_except close (\<lambda>_. give ()) w of
             (Inl e, w') \<Rightarrow> (Inl e, s, w')
           | (Inr _, w') \<Rightarrow> (Inr (), s\<lparr>gcs_client := None, gcs_bucket := None\<rparr>, w')))"

definition GCS_blob :: "GCSObjectStore \<Rightarrow> (string \<Rightarrow> ('w, 'a) act) \<Rightarrow> ('w, 'a) act" where
  "GCS_blob s use = (case gcs_bucket s of None \<Rightarrow> throw (none_attr ''blob'') | Some b \<Rightarrow> use b)"

definition GCS_put :: "'w blob_api \<Rightarrow> GCSObjectStore \<Rightarrow> string \<Rightarrow> string \<Rightarrow> string \<Rightarrow> ('w, unit) act" where
  "GCS_put api s key data content_type = GCS_blob s (\<lambda>b. api_upload api b key data content_type)"

definition gcs_missing :: "exn \<Rightarrow> bool" where
  "gcs_missing e \<longleftrightarrow> named_like ''NotFound'' e \<or> says ''404'' e \<or> says ''No such object'' e"

definition GCS_get :: "'w blob_api \<Rightarrow> GCSObjectStore \<Rightarrow> string \<Rightarrow> ('w, string) act" where
  "GCS_get api s key =
     GCS_blob s (\<lambda>b. try_except (api_download api b key)
       (\<lambda>e. throw (if gcs_missing e then raised_from (plain_exn KeyError (repr_str key)) e else e)))"

definition GCS_delete :: "'w blob_api \<Rightarrow> GCSObjectStore \<Rightarrow> string \<Rightarrow> ('w, unit) act" where
  "GCS_delete api s key =
     GCS_blob s (\<lambda>b. try_except (api_delete api b key) (\<lambda>e. if gcs_missing e then give () else throw e))"

definition GCS_list :: "'w blob_api \<Rightarrow> GCSObjectStore \<Rightarrow> string \<Rightarrow> ('w, string list) act" where
  "GCS_list api s pfx =
     (case gcs_client s of
        None \<Rightarrow> throw (none_attr ''list_blobs'')
      | Some _ \<Rightarrow> api_list_all api (gcs_bucket_name s) pfx)"

text \<open>The expiration is a \<^verbatim>\<open>timedelta\<close> of whole seconds.\<close>

definition GCS_presigned_url :: "'w blob_api \<Rightarrow> GCSObjectStore \<Rightarrow> string \<Rightarrow> int \<Rightarrow> ('w, string) act" where
  "GCS_presigned_url api s key expires_in =
     GCS_blob s (\<lambda>b. api_presign api ''GET'' [(''Bucket'', PStr b), (''Key'', PStr key)] expires_in)"

subsection \<open>Azure Blob Storage\<close>

datatype azure_login = ByConnectionString string | ByManagedIdentity string

record AzureBlobObjectStore =
  az_account_url :: string
  az_container_name :: string
  az_connection_string :: "string option"
  az_client :: "azure_login option"

definition Azure_aenter :: "AzureBlobObjectStore \<Rightarrow> AzureBlobObjectStore" where
  "Azure_aenter s =
     s\<lparr>az_client := Some (case az_connection_string s of
                            None \<Rightarrow> ByManagedIdentity (az_account_url s)
                          | Some c \<Rightarrow> if c = [] then ByManagedIdentity (az_account_url s) else ByConnectionString c)\<rparr>"

definition Azure_aexit :: "('w, unit) act \<Rightarrow> AzureBlobObjectStore \<Rightarrow> 'w \<Rightarrow> (exn + unit) \<times> AzureBlobObjectStore \<times> 'w" where
  "Azure_aexit close s w =
     (case az_client s of
        None \<Rightarrow> (Inr (), s, w)
      | Some _ \<Rightarrow> (case close w of (Inl e, w') \<Rightarrow> (Inl e, s, w') | (Inr _, w') \<Rightarrow> (Inr (), s\<lparr>az_client := None\<rparr>, w')))"

definition Azure_blob_client :: "'w blob_api \<Rightarrow> AzureBlobObjectStore \<Rightarrow> string \<Rightarrow> ('w, 'a) act \<Rightarrow> ('w, 'a) act" where
  "Azure_blob_client api s key body =
     (case az_client s of
        None \<Rightarrow> throw (none_attr ''get_blob_client'')
      | Some _ \<Rightarrow>
          async_with (api_enter api [(''container'', PStr (az_container_name s)), (''blob'', PStr key)])
            (\<lambda>_. api_leave api) (\<lambda>_. body))"

definition Azure_put :: "'w blob_api \<Rightarrow> AzureBlobObjectStore \<Rightarrow> string \<Rightarrow> string \<Rightarrow> string \<Rightarrow> ('w, unit) act" where
  "Azure_put api s key data content_type =
     Azure_blob_client api s key (api_upload api (az_container_name s) key data content_type)"

definition azure_missing :: "exn \<Rightarrow> bool" where
  "azure_missing e \<longleftrightarrow> named_like ''BlobNotFound'' e \<or> says ''404'' e \<or> says ''BlobNotFound'' e"

definition Azure_get :: "'w blob_api \<Rightarrow> AzureBlobObjectStore \<Rightarrow> string \<Rightarrow> ('w, string) act" where
  "Azure_get api s key =
     Azure_blob_client api s key
       (try_except (api_download api (az_container_name s) key)
          (\<lambda>e. throw (if azure_missing e then raised_from (plain_exn KeyError (repr_str key)) e else e)))"

definition Azure_delete :: "'w blob_api \<Rightarrow> AzureBlobObjectStore \<Rightarrow> string \<Rightarrow> ('w, unit) act" where
  "Azure_delete api s key =
     Azure_blob_client api s key
       (try_except (api_delete api (az_container_name s) key) (\<lambda>e. if azure_missing e then give () else throw e))"

definition Azure_list :: "'w blob_api \<Rightarrow> AzureBlobObjectStore \<Rightarrow> string \<Rightarrow> ('w, string list) act" where
  "Azure_list api s pfx =
     (case az_client s of
        None \<Rightarrow> throw (none_attr ''get_container_client'')
      | Some _ \<Rightarrow> api_list_all api (az_container_name s) pfx)"

text \<open>\<open>sas\<close> is \<^verbatim>\<open>generate_blob_sas\<close> for the account of the client, reading only, with the expiry instant as its last argument.\<close>

definition Azure_presigned_url ::
    "(string \<Rightarrow> string \<Rightarrow> microseconds \<Rightarrow> exn + string) \<Rightarrow> microseconds \<Rightarrow> AzureBlobObjectStore \<Rightarrow> string \<Rightarrow> int \<Rightarrow> exn + string" where
  "Azure_presigned_url sas now s key expires_in =
     (case az_client s of
        None \<Rightarrow> Inl (none_attr ''account_name'')
      | Some _ \<Rightarrow>
          (case sas (az_container_name s) key (now + expires_in * 1000000) of
             Inl e \<Rightarrow> Inl e
           | Inr token \<Rightarrow> Inr (az_account_url s @ ''/'' @ az_container_name s @ ''/'' @ key @ ''?'' @ token)))"

subsection \<open>The contract\<close>

datatype obj_op = PutObject string string string | GetObject string | DeleteObject string

datatype obj_result = Stored | Found string | Removed | Raised exc_class string

fun obj_exec ::
    "(string \<Rightarrow> string \<Rightarrow> string \<Rightarrow> ('w, unit) act) \<Rightarrow> (string \<Rightarrow> ('w, string) act) \<Rightarrow> (string \<Rightarrow> ('w, unit) act)
      \<Rightarrow> obj_op \<Rightarrow> 'w \<Rightarrow> obj_result \<times> 'w" where
  "obj_exec put get del (PutObject k d ct) w =
     (case put k d ct w of (Inl e, w') \<Rightarrow> (Raised (exn_class e) (exn_message e), w') | (Inr _, w') \<Rightarrow> (Stored, w'))"
| "obj_exec put get del (GetObject k) w =
     (case get k w of (Inl e, w') \<Rightarrow> (Raised (exn_class e) (exn_message e), w') | (Inr d, w') \<Rightarrow> (Found d, w'))"
| "obj_exec put get del (DeleteObject k) w =
     (case del k w of (Inl e, w') \<Rightarrow> (Raised (exn_class e) (exn_message e), w') | (Inr _, w') \<Rightarrow> (Removed, w'))"

fun obj_run ::
    "(string \<Rightarrow> string \<Rightarrow> string \<Rightarrow> ('w, unit) act) \<Rightarrow> (string \<Rightarrow> ('w, string) act) \<Rightarrow> (string \<Rightarrow> ('w, unit) act)
      \<Rightarrow> obj_op list \<Rightarrow> 'w \<Rightarrow> obj_result list \<times> 'w" where
  "obj_run put get del [] w = ([], w)"
| "obj_run put get del (x # xs) w =
     (case obj_exec put get del x w of (r, w') \<Rightarrow> case obj_run put get del xs w' of (rs, w'') \<Rightarrow> (r # rs, w''))"

fun spec_step :: "obj_op \<Rightarrow> (string \<rightharpoonup> string) \<Rightarrow> obj_result \<times> (string \<rightharpoonup> string)" where
  "spec_step (PutObject k d ct) m = (Stored, m(k \<mapsto> d))"
| "spec_step (GetObject k) m = (case m k of None \<Rightarrow> Raised KeyError (repr_str k) | Some d \<Rightarrow> Found d, m)"
| "spec_step (DeleteObject k) m = (Removed, m(k := None))"

fun store_run :: "obj_op list \<Rightarrow> (string \<rightharpoonup> string) \<Rightarrow> obj_result list \<times> (string \<rightharpoonup> string)" where
  "store_run [] m = ([], m)"
| "store_run (x # xs) m = (case spec_step x m of (r, m') \<Rightarrow> case store_run xs m' of (rs, m'') \<Rightarrow> (r # rs, m''))"

locale object_store =
  fixes put :: "string \<Rightarrow> string \<Rightarrow> string \<Rightarrow> ('w, unit) act"
    and get :: "string \<Rightarrow> ('w, string) act"
    and del :: "string \<Rightarrow> ('w, unit) act"
    and objects :: "'w \<Rightarrow> string \<rightharpoonup> string"
  assumes put_law: "\<exists>w'. put k d ct w = (Inr (), w') \<and> objects w' = (objects w)(k \<mapsto> d)"
    and get_hit: "objects w k = Some d \<Longrightarrow> \<exists>w'. get k w = (Inr d, w') \<and> objects w' = objects w"
    and get_miss: "objects w k = None \<Longrightarrow>
      \<exists>e w'. get k w = (Inl e, w') \<and> exn_class e = KeyError \<and> exn_message e = repr_str k \<and> objects w' = objects w"
    and del_law: "\<exists>w'. del k w = (Inr (), w') \<and> objects w' = (objects w)(k := None)"
begin

lemma exec_refines:
  assumes "obj_exec put get del x w = (r, w')"
  shows "spec_step x (objects w) = (r, objects w')"
proof (cases x)
  case (PutObject k d ct)
  obtain v where "put k d ct w = (Inr (), v)" "objects v = (objects w)(k \<mapsto> d)" using put_law by blast
  then show ?thesis using assms PutObject by auto
next
  case (GetObject k)
  show ?thesis
  proof (cases "objects w k")
    case None
    obtain e v where "get k w = (Inl e, v)" "exn_class e = KeyError" "exn_message e = repr_str k" "objects v = objects w"
      using get_miss[OF None] by blast
    then show ?thesis using assms GetObject None by auto
  next
    case (Some d)
    obtain v where "get k w = (Inr d, v)" "objects v = objects w" using get_hit[OF Some] by blast
    then show ?thesis using assms GetObject Some by auto
  qed
next
  case (DeleteObject k)
  obtain v where "del k w = (Inr (), v)" "objects v = (objects w)(k := None)" using del_law by blast
  then show ?thesis using assms DeleteObject by auto
qed

lemma run_refines: "obj_run put get del xs w = (rs, w') \<Longrightarrow> store_run xs (objects w) = (rs, objects w')"
proof (induction xs arbitrary: w rs w')
  case (Cons x xs)
  obtain r v where e: "obj_exec put get del x w = (r, v)" by fastforce
  obtain qs u where run: "obj_run put get del xs v = (qs, u)" by fastforce
  show ?case using Cons.prems Cons.IH[OF run] exec_refines[OF e] e run by simp
qed simp

end

text \<open>What \<^verbatim>\<open>get\<close> gives for a key with the given content.\<close>

definition key_result :: "string \<Rightarrow> string option \<Rightarrow> exn + string \<Rightarrow> bool" where
  "key_result k content r \<longleftrightarrow>
     (case content of
        Some d \<Rightarrow> r = Inr d
      | None \<Rightarrow> \<exists>e. r = Inl e \<and> exn_class e = KeyError \<and> exn_message e = repr_str k)"

lemma object_storeI:
  assumes "\<And>k d ct w. \<exists>r w'. put k d ct w = (r, w') \<and> r = Inr () \<and> objects w' = (objects w)(k \<mapsto> d)"
    and "\<And>k w. \<exists>r w'. get k w = (r, w') \<and> key_result k (objects w k) r \<and> objects w' = objects w"
    and "\<And>k w. \<exists>r w'. del k w = (r, w') \<and> r = Inr () \<and> objects w' = (objects w)(k := None)"
  shows "object_store put get del objects"
proof unfold_locales
  fix k w
  show "objects w k = Some d \<Longrightarrow> \<exists>w'. get k w = (Inr d, w') \<and> objects w' = objects w" for d
    using assms(2)[of k w] by (auto simp: key_result_def)
  show "objects w k = None \<Longrightarrow>
      \<exists>e w'. get k w = (Inl e, w') \<and> exn_class e = KeyError \<and> exn_message e = repr_str k \<and> objects w' = objects w"
    using assms(2)[of k w] by (auto simp: key_result_def)
qed (use assms(1,3) in fastforce)+

interpretation memory_store: object_store mem_put mem_get mem_delete "\<lambda>s. map_of (os_store s)"
  by unfold_locales (auto simp: mem_put_def mem_get_def mem_delete_def)

lemma mem_exists_iff: "mem_exists k s = (Inr b, s') \<Longrightarrow> b \<longleftrightarrow> map_of (os_store s) k \<noteq> None"
  by (auto simp: mem_exists_def map_of_None_iff)

text \<open>The two dictionaries of the fake have the same keys, each once.\<close>

definition mem_store_ok :: "S3MemoryStore \<Rightarrow> bool" where
  "mem_store_ok s \<longleftrightarrow> dict_ok (os_store s) \<and> dict_ok (os_metadata s) \<and> fst ` set (os_store s) = fst ` set (os_metadata s)"

lemma mem_store_ok_init [inv_intros]: "mem_store_ok mem_init"
  by (simp add: mem_store_ok_def mem_init_def)

lemma mem_store_ok_exec [inv_intros]:
  "mem_store_ok s \<Longrightarrow> mem_store_ok (snd (obj_exec mem_put mem_get mem_delete x s))"
  by (cases x) (auto simp: mem_store_ok_def mem_put_def mem_get_def mem_delete_def intro: inv_intros split: option.split)

lemma mem_store_ok_run [inv_intros]:
  "mem_store_ok s \<Longrightarrow> mem_store_ok (snd (obj_run mem_put mem_get mem_delete xs s))"
proof (induction xs arbitrary: s)
  case (Cons x xs)
  then show ?case by (simp add: split_def mem_store_ok_exec)
qed simp

subsection \<open>What the services promise\<close>

text \<open>The content of every bucket is \<open>blobs\<close>; \<open>missing\<close> recognises the exception of an absent key. S3 deletes an absent key
  without complaint, the other services raise. A page holds at most \<open>page\<close> keys.\<close>

locale blob_service =
  fixes api :: "'w blob_api" and blobs :: "'w \<Rightarrow> string \<Rightarrow> string \<rightharpoonup> string" and missing :: "exn \<Rightarrow> bool" and page :: nat
  assumes enter_law: "\<exists>w'. api_enter api args w = (Inr (), w') \<and> blobs w' = blobs w"
    and leave_law: "\<exists>w'. api_leave api w = (Inr (), w') \<and> blobs w' = blobs w"
    and upload_law: "\<exists>w'. api_upload api b k d ct w = (Inr (), w') \<and> blobs w' = (blobs w)(b := (blobs w b)(k \<mapsto> d))"
    and download_hit: "blobs w b k = Some d \<Longrightarrow> \<exists>w'. api_download api b k w = (Inr d, w') \<and> blobs w' = blobs w"
    and download_miss: "blobs w b k = None \<Longrightarrow>
      \<exists>e w'. api_download api b k w = (Inl e, w') \<and> catchable e \<and> missing e \<and> blobs w' = blobs w"
    and delete_hit: "blobs w b k \<noteq> None \<Longrightarrow>
      \<exists>w'. api_delete api b k w = (Inr (), w') \<and> blobs w' = (blobs w)(b := (blobs w b)(k := None))"
    and delete_miss: "blobs w b k = None \<Longrightarrow>
      \<exists>r w'. api_delete api b k w = (r, w') \<and> (\<forall>e. r = Inl e \<longrightarrow> catchable e \<and> missing e) \<and> blobs w' = blobs w"
    and head_law: "\<exists>r w'. api_head api b k w = (r, w') \<and> (r = Inr () \<longleftrightarrow> blobs w b k \<noteq> None)
      \<and> (\<forall>e. r = Inl e \<longrightarrow> catchable e) \<and> blobs w' = blobs w"
    and page_law: "\<exists>r ks w'. api_page api b pfx w = (Inr r, w') \<and> blobs w' = blobs w
      \<and> set ks = {k. startswith k pfx \<and> blobs w b k \<noteq> None} \<and> distinct ks
      \<and> r = (if ks = [] then None else Some (take page ks))"
begin

lemma delete_law:
  "\<exists>r w'. api_delete api b k w = (r, w') \<and> (\<forall>e. r = Inl e \<longrightarrow> catchable e \<and> missing e)
     \<and> blobs w' = (blobs w)(b := (blobs w b)(k := None))"
proof (cases "blobs w b k")
  case None
  then have "(blobs w b)(k := None) = blobs w b" by auto
  then show ?thesis using delete_miss[of w b k] None by auto
next
  case (Some d)
  then show ?thesis using delete_hit[of w b k] by auto
qed

text \<open>A body inside the client context: its result, with the content it left.\<close>

lemma in_context:
  assumes "\<And>w1. blobs w1 = blobs w \<Longrightarrow> \<exists>r w2. body w1 = (r, w2) \<and> P r \<and> blobs w2 = m"
  shows "\<exists>r w'. async_with (api_enter api args) (\<lambda>_. api_leave api) (\<lambda>_. body) w = (r, w') \<and> P r \<and> blobs w' = m"
proof -
  obtain w1 where 1: "api_enter api args w = (Inr (), w1)" "blobs w1 = blobs w" using enter_law by blast
  obtain r w2 where 2: "body w1 = (r, w2)" "P r" "blobs w2 = m" using assms 1 by blast
  obtain w3 where 3: "api_leave api w2 = (Inr (), w3)" "blobs w3 = blobs w2" using leave_law by blast
  show ?thesis using 1 2 3 by (simp add: async_with_def)
qed

text \<open>Downloading with the absent key turned into a \<^verbatim>\<open>KeyError\<close>, and deleting with it ignored.\<close>

lemma download_law:
  assumes "blobs w1 = blobs w"
  shows "\<exists>r w2. try_except (api_download api b k)
      (\<lambda>e. throw (if missing e then raised_from (plain_exn KeyError (repr_str k)) e else e)) w1 = (r, w2)
    \<and> key_result k (blobs w b k) r \<and> blobs w2 = blobs w"
proof (cases "blobs w b k")
  case None
  then obtain e v where "api_download api b k w1 = (Inl e, v)" "catchable e" "missing e" "blobs v = blobs w1"
    using download_miss[of w1 b k] assms by auto
  then show ?thesis using None assms by (auto simp: key_result_def)
next
  case (Some d)
  then obtain v where "api_download api b k w1 = (Inr d, v)" "blobs v = blobs w1"
    using download_hit[of w1 b k d] assms by auto
  then show ?thesis using Some assms by (auto simp: key_result_def)
qed

lemma quiet_delete_law:
  assumes "blobs w1 = blobs w"
  shows "\<exists>r w2. try_except (api_delete api b k) (\<lambda>e. if missing e then give () else throw e) w1 = (r, w2)
    \<and> r = Inr () \<and> blobs w2 = (blobs w)(b := (blobs w b)(k := None))"
proof -
  obtain r v where "api_delete api b k w1 = (r, v)" "\<forall>e. r = Inl e \<longrightarrow> catchable e \<and> missing e"
    "blobs v = (blobs w)(b := (blobs w b)(k := None))" using delete_law[of b k w1] assms by auto
  then show ?thesis by (cases r) auto
qed

lemma put_in_context:
  "\<exists>r w'. async_with (api_enter api args) (\<lambda>_. api_leave api) (\<lambda>_. api_upload api b k d ct) w = (r, w')
     \<and> r = Inr () \<and> blobs w' = (blobs w)(b := (blobs w b)(k \<mapsto> d))"
proof (rule in_context)
  fix w1 assume "blobs w1 = blobs w"
  then show "\<exists>r w2. api_upload api b k d ct w1 = (r, w2) \<and> r = Inr () \<and> blobs w2 = (blobs w)(b := (blobs w b)(k \<mapsto> d))"
    using upload_law[of b k d ct w1] by auto
qed

lemma put_plain: "\<exists>r w'. api_upload api b k d ct w = (r, w') \<and> r = Inr () \<and> blobs w' = (blobs w)(b := (blobs w b)(k \<mapsto> d))"
  using upload_law[of b k d ct w] by auto

lemma get_in_context:
  "\<exists>r w'. async_with (api_enter api args) (\<lambda>_. api_leave api)
       (\<lambda>_. try_except (api_download api b k)
          (\<lambda>e. throw (if missing e then raised_from (plain_exn KeyError (repr_str k)) e else e))) w = (r, w')
     \<and> key_result k (blobs w b k) r \<and> blobs w' = blobs w"
  by (rule in_context) (rule download_law)

lemma delete_in_context:
  "\<exists>r w'. async_with (api_enter api args) (\<lambda>_. api_leave api)
       (\<lambda>_. try_except (api_delete api b k) (\<lambda>e. if missing e then give () else throw e)) w = (r, w')
     \<and> r = Inr () \<and> blobs w' = (blobs w)(b := (blobs w b)(k := None))"
  by (rule in_context) (rule quiet_delete_law)

end

subsection \<open>The stores keep the contract\<close>

locale s3_service = blob_service api blobs s3_missing page
  for api :: "'w blob_api" and blobs and page +
  fixes store :: S3ObjectStore
  assumes s3_delete: "\<exists>w'. api_delete api b k w = (Inr (), w')"

sublocale s3_service \<subseteq> object_store "S3_put api store" "S3_get api store" "S3_delete api store"
  "\<lambda>w. blobs w (s3_bucket store)"
proof (rule object_storeI)
  fix k d ct w
  show "\<exists>r w'. S3_put api store k d ct w = (r, w') \<and> r = Inr ()
      \<and> blobs w' (s3_bucket store) = (blobs w (s3_bucket store))(k \<mapsto> d)"
    unfolding S3_put_def S3_client_context_def
    using put_in_context[of "S3_client_kwargs store" "s3_bucket store" k d ct w] by fastforce
next
  fix k w
  show "\<exists>r w'. S3_get api store k w = (r, w') \<and> key_result k (blobs w (s3_bucket store) k) r
      \<and> blobs w' (s3_bucket store) = blobs w (s3_bucket store)"
    unfolding S3_get_def S3_client_context_def
    using get_in_context[of "S3_client_kwargs store" "s3_bucket store" k w] by fastforce
next
  fix k w
  have "\<exists>r w2. api_delete api (s3_bucket store) k w1 = (r, w2) \<and> r = Inr ()
      \<and> blobs w2 = (blobs w)(s3_bucket store := (blobs w (s3_bucket store))(k := None))" if "blobs w1 = blobs w" for w1
    using delete_law[of "s3_bucket store" k w1] s3_delete[of "s3_bucket store" k w1] that by auto
  from in_context[OF this, where args = "S3_client_kwargs store"]
  show "\<exists>r w'. S3_delete api store k w = (r, w') \<and> r = Inr ()
      \<and> blobs w' (s3_bucket store) = (blobs w (s3_bucket store))(k := None)"
    unfolding S3_delete_def S3_client_context_def by fastforce
qed

text \<open>The stores of the other two services are used after \<^verbatim>\<open>__aenter__\<close>.\<close>

locale gcs_service = blob_service api blobs gcs_missing page
  for api :: "'w blob_api" and blobs and page +
  fixes store :: GCSObjectStore
  assumes entered: "gcs_bucket store = Some (gcs_bucket_name store)"

sublocale gcs_service \<subseteq> object_store "GCS_put api store" "GCS_get api store" "GCS_delete api store"
  "\<lambda>w. blobs w (gcs_bucket_name store)"
proof (rule object_storeI)
  fix k d ct w
  show "\<exists>r w'. GCS_put api store k d ct w = (r, w') \<and> r = Inr ()
      \<and> blobs w' (gcs_bucket_name store) = (blobs w (gcs_bucket_name store))(k \<mapsto> d)"
    unfolding GCS_put_def GCS_blob_def using put_plain[of "gcs_bucket_name store" k d ct w] entered by fastforce
next
  fix k w
  show "\<exists>r w'. GCS_get api store k w = (r, w') \<and> key_result k (blobs w (gcs_bucket_name store) k) r
      \<and> blobs w' (gcs_bucket_name store) = blobs w (gcs_bucket_name store)"
    unfolding GCS_get_def GCS_blob_def using download_law[of w w "gcs_bucket_name store" k] entered by fastforce
  show "\<exists>r w'. GCS_delete api store k w = (r, w') \<and> r = Inr ()
      \<and> blobs w' (gcs_bucket_name store) = (blobs w (gcs_bucket_name store))(k := None)"
    unfolding GCS_delete_def GCS_blob_def using quiet_delete_law[of w w "gcs_bucket_name store" k] entered by fastforce
qed

locale azure_service = blob_service api blobs azure_missing page
  for api :: "'w blob_api" and blobs and page +
  fixes store :: AzureBlobObjectStore
  assumes connected: "az_client store \<noteq> None"

sublocale azure_service \<subseteq> object_store "Azure_put api store" "Azure_get api store" "Azure_delete api store"
  "\<lambda>w. blobs w (az_container_name store)"
proof (rule object_storeI)
  fix k d ct w
  show "\<exists>r w'. Azure_put api store k d ct w = (r, w') \<and> r = Inr ()
      \<and> blobs w' (az_container_name store) = (blobs w (az_container_name store))(k \<mapsto> d)"
    unfolding Azure_put_def Azure_blob_client_def
    using put_in_context[of _ "az_container_name store" k d ct w] connected by (fastforce split: option.split)
next
  fix k w
  show "\<exists>r w'. Azure_get api store k w = (r, w') \<and> key_result k (blobs w (az_container_name store) k) r
      \<and> blobs w' (az_container_name store) = blobs w (az_container_name store)"
    unfolding Azure_get_def Azure_blob_client_def
    using get_in_context[of _ "az_container_name store" k w] connected by (fastforce split: option.split)
  show "\<exists>r w'. Azure_delete api store k w = (r, w') \<and> r = Inr ()
      \<and> blobs w' (az_container_name store) = (blobs w (az_container_name store))(k := None)"
    unfolding Azure_delete_def Azure_blob_client_def
    using delete_in_context[of _ "az_container_name store" k w] connected by (fastforce split: option.split)
qed

subsection \<open>A reference service\<close>

text \<open>Buckets in one dictionary; \<open>gone\<close> is what the service raises for an absent key and \<open>quiet\<close> tells whether deleting such a
  key succeeds, as on S3.\<close>

type_synonym bucket_world = "(string \<times> string, string) pydict"

definition bucket_keys :: "string \<Rightarrow> string \<Rightarrow> bucket_world \<Rightarrow> string list" where
  "bucket_keys b pfx w = remdups (map (snd \<circ> fst) (filter (\<lambda>kv. fst (fst kv) = b \<and> startswith (snd (fst kv)) pfx) w))"

definition reference_api :: "exn \<Rightarrow> bool \<Rightarrow> nat \<Rightarrow> bucket_world blob_api" where
  "reference_api gone quiet page =
     \<lparr>api_enter = (\<lambda>_ w. (Inr (), w)), api_leave = (\<lambda>w. (Inr (), w)),
      api_upload = (\<lambda>b k d ct w. (Inr (), dict_set (b, k) d w)),
      api_download = (\<lambda>b k w. (case map_of w (b, k) of None \<Rightarrow> Inl gone | Some d \<Rightarrow> Inr d, w)),
      api_delete = (\<lambda>b k w. case map_of w (b, k) of
                       None \<Rightarrow> (if quiet then Inr () else Inl gone, w) | Some _ \<Rightarrow> (Inr (), dict_pop (b, k) w)),
      api_head = (\<lambda>b k w. (case map_of w (b, k) of None \<Rightarrow> Inl gone | Some _ \<Rightarrow> Inr (), w)),
      api_page = (\<lambda>b pfx w. (Inr (if bucket_keys b pfx w = [] then None else Some (take page (bucket_keys b pfx w))), w)),
      api_list_all = (\<lambda>b pfx w. (Inr (bucket_keys b pfx w), w)),
      api_presign = (\<lambda>verb params expires w. (Inr (''https://signed/'' @ verb), w))\<rparr>"

definition bucket_blobs :: "bucket_world \<Rightarrow> string \<Rightarrow> string \<rightharpoonup> string" where
  "bucket_blobs w b k = map_of w (b, k)"

lemma set_bucket_keys: "set (bucket_keys b pfx w) = {k. startswith k pfx \<and> bucket_blobs w b k \<noteq> None}"
  by (force simp: bucket_keys_def bucket_blobs_def map_of_None_iff)

lemma distinct_bucket_keys: "distinct (bucket_keys b pfx w)"
  by (simp add: bucket_keys_def)

lemma reference_service:
  assumes "catchable gone" "missing gone"
  shows "blob_service (reference_api gone quiet page) bucket_blobs missing page"
proof unfold_locales
  fix b pfx w
  show "\<exists>r ks w'. api_page (reference_api gone quiet page) b pfx w = (Inr r, w') \<and> bucket_blobs w' = bucket_blobs w
      \<and> set ks = {k. startswith k pfx \<and> bucket_blobs w b k \<noteq> None} \<and> distinct ks
      \<and> r = (if ks = [] then None else Some (take page ks))"
    using set_bucket_keys[of b pfx w] distinct_bucket_keys[of b pfx w] by (auto simp: reference_api_def)
qed (use assms in \<open>auto simp: reference_api_def bucket_blobs_def fun_eq_iff split: option.split\<close>)

definition no_such_key :: exn where
  "no_such_key = plain_exn (UserError ''NoSuchKey'' Exception) ''An error occurred''"

definition gcs_not_found :: exn where
  "gcs_not_found = plain_exn (UserError ''NotFound'' Exception) ''404 GET No such object''"

definition blob_not_found :: exn where
  "blob_not_found = plain_exn (UserError ''ResourceNotFoundError'' Exception) ''The specified blob does not exist. ErrorCode:BlobNotFound''"

lemma missing_examples: "s3_missing no_such_key" "gcs_missing gcs_not_found" "azure_missing blob_not_found"
  by code_simp+

interpretation s3_reference: s3_service "reference_api no_such_key True page" bucket_blobs page store for page store
proof (intro s3_service.intro s3_service_axioms.intro)
  show "blob_service (reference_api no_such_key True page) bucket_blobs s3_missing page"
    by (rule reference_service) (simp_all add: missing_examples, simp add: no_such_key_def)
qed (simp add: reference_api_def split: option.split)

interpretation gcs_reference: gcs_service "reference_api gcs_not_found False page" bucket_blobs page "GCS_aenter store"
  for page store
proof (intro gcs_service.intro gcs_service_axioms.intro)
  show "blob_service (reference_api gcs_not_found False page) bucket_blobs gcs_missing page"
    by (rule reference_service) (simp_all add: missing_examples, simp add: gcs_not_found_def)
qed (simp add: GCS_aenter_def Let_def)

interpretation azure_reference: azure_service "reference_api blob_not_found False page" bucket_blobs page "Azure_aenter store"
  for page store
proof (intro azure_service.intro azure_service_axioms.intro)
  show "blob_service (reference_api blob_not_found False page) bucket_blobs azure_missing page"
    by (rule reference_service) (simp_all add: missing_examples, simp add: blob_not_found_def)
qed (simp add: Azure_aenter_def)

subsection \<open>Agreement\<close>

lemma stores_same_replies:
  assumes "object_store put get del objects" "objects w = map_of (os_store m)"
  shows "fst (obj_run put get del xs w) = fst (obj_run mem_put mem_get mem_delete xs m)"
proof -
  obtain rs w' where run: "obj_run put get del xs w = (rs, w')" by fastforce
  obtain qs m' where mem: "obj_run mem_put mem_get mem_delete xs m = (qs, m')" by fastforce
  show ?thesis
    using object_store.run_refines[OF assms(1) run] memory_store.run_refines[OF mem] assms(2) run mem by simp
qed

context s3_service
begin

lemma is_object_store:
  "object_store (S3_put api store) (S3_get api store) (S3_delete api store) (\<lambda>w. blobs w (s3_bucket store))"
  by unfold_locales

lemma exists_law:
  "\<exists>w'. S3_exists api store k w = (Inr (blobs w (s3_bucket store) k \<noteq> None), w') \<and> blobs w' = blobs w"
proof -
  have "\<exists>r w2. try_except (then_do (api_head api (s3_bucket store) k) (\<lambda>_. give True)) (\<lambda>_. give False) w1 = (r, w2)
      \<and> r = Inr (blobs w (s3_bucket store) k \<noteq> None) \<and> blobs w2 = blobs w" if same: "blobs w1 = blobs w" for w1
  proof -
    obtain r w2 where "api_head api (s3_bucket store) k w1 = (r, w2)"
      "r = Inr () \<longleftrightarrow> blobs w (s3_bucket store) k \<noteq> None" "\<forall>e. r = Inl e \<longrightarrow> catchable e" "blobs w2 = blobs w"
      using head_law[of "s3_bucket store" k w1] unfolding same by blast
    then show ?thesis by (cases r) auto
  qed
  from in_context[OF this, where args = "S3_client_kwargs store"]
  show ?thesis unfolding S3_exists_def S3_client_context_def by auto
qed

text \<open>A listing is one page of the matching keys.\<close>

lemma list_law:
  "\<exists>ks w'. S3_list_keys api store pfx w = (Inr (take page ks), w') \<and> distinct ks
     \<and> set ks = {k. startswith k pfx \<and> blobs w (s3_bucket store) k \<noteq> None}"
proof -
  let ?P = "\<lambda>r. \<exists>ks. r = Inr (take page ks) \<and> distinct ks
    \<and> set ks = {k. startswith k pfx \<and> blobs w (s3_bucket store) k \<noteq> None}"
  have "\<exists>r w2. then_do (api_page api (s3_bucket store) pfx)
      (\<lambda>contents. give (case contents of None \<Rightarrow> [] | Some ks \<Rightarrow> ks)) w1 = (r, w2) \<and> ?P r \<and> blobs w2 = blobs w"
    if same: "blobs w1 = blobs w" for w1
  proof -
    obtain r ks w2 where "api_page api (s3_bucket store) pfx w1 = (Inr r, w2)" "blobs w2 = blobs w" "distinct ks"
      "set ks = {k. startswith k pfx \<and> blobs w (s3_bucket store) k \<noteq> None}" "r = (if ks = [] then None else Some (take page ks))"
      using page_law[of "s3_bucket store" pfx w1] unfolding same by blast
    then show ?thesis by (cases "ks = []") auto
  qed
  from in_context[OF this, where args = "S3_client_kwargs store"]
  show ?thesis unfolding S3_list_keys_def S3_client_context_def by fastforce
qed

end

context gcs_service
begin

lemma is_object_store:
  "object_store (GCS_put api store) (GCS_get api store) (GCS_delete api store) (\<lambda>w. blobs w (gcs_bucket_name store))"
  by unfold_locales

end

context azure_service
begin

lemma is_object_store:
  "object_store (Azure_put api store) (Azure_get api store) (Azure_delete api store) (\<lambda>w. blobs w (az_container_name store))"
  by unfold_locales

end


definition demo_s3 :: S3ObjectStore where
  "demo_s3 = \<lparr>s3_bucket = ''b'', s3_region = ''us-east-1'', s3_endpoint_url = None, s3_session_kwargs = []\<rparr>"

definition demo_gcs :: GCSObjectStore where
  "demo_gcs = \<lparr>gcs_bucket_name = ''b'', gcs_project = None, gcs_credentials = PNone, gcs_client = None, gcs_bucket = None\<rparr>"

definition demo_azure :: AzureBlobObjectStore where
  "demo_azure = \<lparr>az_account_url = ''https://acc'', az_container_name = ''b'', az_connection_string = None, az_client = None\<rparr>"

definition demo_obj_ops :: "obj_op list" where
  "demo_obj_ops = [PutObject ''k'' ''v1'' ''text/plain'', PutObject ''k'' ''v2'' ''text/plain'', GetObject ''k'',
     DeleteObject ''k'', DeleteObject ''k'', GetObject ''k'']"


subsection \<open>Boundaries\<close>

text \<open>A bucket with more matching keys than a page holds is listed incompletely: the code asks for the first page only.\<close>

lemma S3_list_keys_truncates:
  assumes "s3_service api blobs page"
    and "page < card {k. startswith k pfx \<and> blobs w (s3_bucket s) k \<noteq> None}"
    and "S3_list_keys api s pfx w = (Inr ks, w')"
  shows "length ks = page \<and> set ks \<subset> {k. startswith k pfx \<and> blobs w (s3_bucket s) k \<noteq> None}"
proof -
  obtain all_keys v where l: "S3_list_keys api s pfx w = (Inr (take page all_keys), v)" "distinct all_keys"
    "set all_keys = {k. startswith k pfx \<and> blobs w (s3_bucket s) k \<noteq> None}"
    using s3_service.list_law[OF assms(1)] by blast
  then have n: "ks = take page all_keys" "page < length all_keys" using assms(2,3) distinct_card[OF l(2)] by auto
  then have "card (set ks) < card (set all_keys)" using distinct_card[OF distinct_take[OF l(2)]] distinct_card[OF l(2)] by simp
  moreover have "set ks \<subseteq> set all_keys" using n(1) by (simp add: set_take_subset)
  ultimately show ?thesis using n l(3) by auto
qed

text \<open>Any failure of the service counts as absence.\<close>

lemma S3_exists_swallows_failures:
  assumes "api_enter api (S3_client_kwargs s) w = (Inr (), w1)" "api_head api (s3_bucket s) k w1 = (Inl e, w2)" "catchable e"
    and "api_leave api w2 = (Inr (), w3)"
  shows "S3_exists api s k w = (Inr False, w3)"
  using assms by (simp add: S3_exists_def S3_client_context_def async_with_def)

text \<open>Before \<^verbatim>\<open>__aenter__\<close> and after \<^verbatim>\<open>__aexit__\<close> every operation fails without calling the service.\<close>

lemma GCS_closed_operations_fail:
  assumes "GCS_aexit close s w = (Inr (), s', w')" "gcs_client s \<noteq> None \<or> gcs_bucket s = None"
  shows "GCS_put api s' k d ct v = (Inl (none_attr ''blob''), v) \<and> GCS_get api s' k v = (Inl (none_attr ''blob''), v)
    \<and> GCS_delete api s' k v = (Inl (none_attr ''blob''), v)"
  using assms by (auto simp: GCS_aexit_def GCS_put_def GCS_get_def GCS_delete_def GCS_blob_def split: option.splits prod.splits sum.splits)

text \<open>An Azure client whose closing fails is kept, a Google client is dropped in any case.\<close>

lemma aexit_failures:
  assumes "close w = (Inl e, w')" "catchable e" "gcs_client g \<noteq> None" "az_client a \<noteq> None"
  shows "GCS_aexit close g w = (Inr (), g\<lparr>gcs_client := None, gcs_bucket := None\<rparr>, w') \<and> Azure_aexit close a w = (Inl e, a, w')"
  using assms by (auto simp: GCS_aexit_def Azure_aexit_def)

end
