(* ===== verification/Nosql_Stores.thy ===== *)
theory Nosql_Stores
  imports Py_Async Pipeline Outbox
begin

text \<open>
  The DynamoDB and Cassandra adapters (\<^verbatim>\<open>adapters/dynamodb/repository.py\<close>, \<^verbatim>\<open>adapters/cassandra/repository.py\<close>): their
  repositories, outbox stores and the idempotency store built on conditional writes. The services are parameters: the
  calls the adapters make are the fields of \<open>dynamo_ops\<close> and \<open>cassandra_session\<close>, with their documented behaviour in the
  locales \<open>dynamo_service\<close> and \<open>cassandra_service\<close>. Items and rows are dictionaries.
\<close>

subsection \<open>DynamoDB\<close>

record DynamoDBTable =
  dt_table_name :: string
  dt_pk_field :: string
  dt_sk_field :: "string option"

datatype key_condition = KeyEq string pyval | KeyBegins string string | KeyBoth key_condition key_condition

text \<open>\<open>dy_put_item\<close> has the attribute of an \<^verbatim>\<open>attribute_not_exists\<close> condition, if there is one; \<open>dy_update_item\<close> has the key and
  the attributes its \<^verbatim>\<open>SET\<close> expression assigns. A response without \<^verbatim>\<open>Items\<close> is \<open>None\<close>.\<close>

record 'w dynamo_ops =
  dy_enter :: "item \<Rightarrow> ('w, unit) act"
  dy_leave :: "('w, unit) act"
  dy_table :: "string \<Rightarrow> ('w, unit) act"
  dy_get_item :: "string \<Rightarrow> item \<Rightarrow> ('w, item option) act"
  dy_put_item :: "string \<Rightarrow> item \<Rightarrow> string option \<Rightarrow> ('w, unit) act"
  dy_delete_item :: "string \<Rightarrow> item \<Rightarrow> ('w, unit) act"
  dy_query :: "string \<Rightarrow> string option \<Rightarrow> key_condition \<Rightarrow> nat option \<Rightarrow> ('w, item list option) act"
  dy_scan :: "string \<Rightarrow> pyval option \<Rightarrow> ('w, item list option) act"
  dy_update_item :: "string \<Rightarrow> item \<Rightarrow> item \<Rightarrow> ('w, unit) act"

record dynamo_config =
  dc_region :: string
  dc_endpoint_url :: "string option"

definition resource_kwargs :: "dynamo_config \<Rightarrow> item" where
  "resource_kwargs c =
     (case dc_endpoint_url c of
        None \<Rightarrow> [(''region_name'', PStr (dc_region c))]
      | Some u \<Rightarrow> if u = [] then [(''region_name'', PStr (dc_region c))]
                  else [(''region_name'', PStr (dc_region c)), (''endpoint_url'', PStr u)])"

definition with_table :: "'w dynamo_ops \<Rightarrow> dynamo_config \<Rightarrow> string \<Rightarrow> ('w, 'a) act \<Rightarrow> ('w, 'a) act" where
  "with_table ops c table_name body =
     async_with (dy_enter ops (resource_kwargs c)) (\<lambda>_. dy_leave ops) (\<lambda>_. then_do (dy_table ops table_name) (\<lambda>_. body))"

definition dynamo_key :: "DynamoDBTable \<Rightarrow> string \<Rightarrow> string option \<Rightarrow> item" where
  "dynamo_key t pk sk =
     (case (sk, dt_sk_field t) of
        (Some s, Some field) \<Rightarrow>
          if field = [] then [(dt_pk_field t, PStr pk)] else dict_set field (PStr s) [(dt_pk_field t, PStr pk)]
      | _ \<Rightarrow> [(dt_pk_field t, PStr pk)])"

definition DynamoDBRepository_get ::
    "'w dynamo_ops \<Rightarrow> dynamo_config \<Rightarrow> DynamoDBTable \<Rightarrow> (item \<Rightarrow> exn + 'a) \<Rightarrow> string \<Rightarrow> string option \<Rightarrow> ('w, 'a option) act" where
  "DynamoDBRepository_get ops c t model pk sk =
     with_table ops c (dt_table_name t)
       (then_do (dy_get_item ops (dt_table_name t) (dynamo_key t pk sk))
          (\<lambda>found. case found of None \<Rightarrow> give None | Some i \<Rightarrow> outcome (map_sum id Some (model i))))"

definition DynamoDBRepository_put :: "'w dynamo_ops \<Rightarrow> dynamo_config \<Rightarrow> DynamoDBTable \<Rightarrow> py_object \<Rightarrow> ('w, unit) act" where
  "DynamoDBRepository_put ops c t obj =
     with_table ops c (dt_table_name t)
       (then_do (outcome (obj_to_dict obj)) (\<lambda>body. dy_put_item ops (dt_table_name t) body None))"

definition DynamoDBRepository_delete ::
    "'w dynamo_ops \<Rightarrow> dynamo_config \<Rightarrow> DynamoDBTable \<Rightarrow> string \<Rightarrow> string option \<Rightarrow> ('w, unit) act" where
  "DynamoDBRepository_delete ops c t pk sk =
     with_table ops c (dt_table_name t) (dy_delete_item ops (dt_table_name t) (dynamo_key t pk sk))"

definition items_of :: "item list option \<Rightarrow> item list" where
  "items_of resp = (case resp of None \<Rightarrow> [] | Some is \<Rightarrow> is)"

definition query_condition :: "DynamoDBTable \<Rightarrow> string \<Rightarrow> string option \<Rightarrow> key_condition" where
  "query_condition t pk sk_prefix =
     (let cond = KeyEq (dt_pk_field t) (PStr pk)
      in case (sk_prefix, dt_sk_field t) of
           (Some p, Some field) \<Rightarrow> if p = [] \<or> field = [] then cond else KeyBoth cond (KeyBegins field p)
         | _ \<Rightarrow> cond)"

definition DynamoDBRepository_query ::
    "'w dynamo_ops \<Rightarrow> dynamo_config \<Rightarrow> DynamoDBTable \<Rightarrow> (item \<Rightarrow> exn + 'a) \<Rightarrow> string \<Rightarrow> string option \<Rightarrow> ('w, 'a list) act" where
  "DynamoDBRepository_query ops c t model pk sk_prefix =
     with_table ops c (dt_table_name t)
       (then_do (dy_query ops (dt_table_name t) None (query_condition t pk sk_prefix) None)
          (\<lambda>resp. outcome (build_all model (items_of resp))))"

definition DynamoDBRepository_scan ::
    "'w dynamo_ops \<Rightarrow> dynamo_config \<Rightarrow> DynamoDBTable \<Rightarrow> (item \<Rightarrow> exn + 'a) \<Rightarrow> pyval option \<Rightarrow> ('w, 'a list) act" where
  "DynamoDBRepository_scan ops c t model filter_expr =
     with_table ops c (dt_table_name t)
       (then_do (dy_scan ops (dt_table_name t) filter_expr) (\<lambda>resp. outcome (build_all model (items_of resp))))"

subsection \<open>The DynamoDB outbox\<close>

text \<open>A record as an item: \<open>isoformat\<close> is \<^verbatim>\<open>isoformat\<close>. Reading back applies the constructor to the item as it is, so the result is the
  item itself: its instants stay text.\<close>

definition status_text :: "OutboxStatus \<Rightarrow> string" where
  "status_text st = (case st of PENDING \<Rightarrow> ''PENDING'' | DISPATCHED \<Rightarrow> ''DISPATCHED'' | FAILED \<Rightarrow> ''FAILED'')"

definition outbox_item :: "(microseconds \<Rightarrow> string) \<Rightarrow> OutboxRecord \<Rightarrow> item" where
  "outbox_item isoformat r =
     [(''id'', PStr (ob_id r)), (''aggregate_id'', PStr (ob_aggregate_id r)), (''aggregate_type'', PStr (ob_aggregate_type r)),
      (''event_type'', PStr (ob_event_type r)), (''topic'', PStr (ob_topic r)), (''payload'', PStr (ob_payload r)),
      (''headers'', PDict (map (\<lambda>(k, v). (k, PStr v)) (ob_headers r))), (''status'', PStr (status_text (ob_status r))),
      (''created_at'', PStr (isoformat (ob_created_at r))),
      (''dispatched_at'', case ob_dispatched_at r of None \<Rightarrow> PNone | Some d \<Rightarrow> PStr (isoformat d)),
      (''retry_count'', PInt (ob_retry_count r)), (''last_error'', opt_str (ob_last_error r))]"

definition DynamoDBOutboxStore_save ::
    "'w dynamo_ops \<Rightarrow> dynamo_config \<Rightarrow> string \<Rightarrow> (microseconds \<Rightarrow> string) \<Rightarrow> OutboxRecord \<Rightarrow> ('w, unit) act" where
  "DynamoDBOutboxStore_save ops c t isoformat r = with_table ops c t (dy_put_item ops t (outbox_item isoformat r) None)"

definition DynamoDBOutboxStore_get_pending ::
    "'w dynamo_ops \<Rightarrow> dynamo_config \<Rightarrow> string \<Rightarrow> nat \<Rightarrow> ('w, item list) act" where
  "DynamoDBOutboxStore_get_pending ops c t limit =
     with_table ops c t
       (then_do (dy_query ops t (Some ''status-index'') (KeyEq ''status'' (PStr (status_text PENDING))) (Some limit))
          (\<lambda>resp. give (items_of resp)))"

definition DynamoDBOutboxStore_mark_dispatched ::
    "'w dynamo_ops \<Rightarrow> dynamo_config \<Rightarrow> string \<Rightarrow> string \<Rightarrow> string \<Rightarrow> ('w, unit) act" where
  "DynamoDBOutboxStore_mark_dispatched ops c t now_iso record_id =
     with_table ops c t
       (dy_update_item ops t [(''id'', PStr record_id)]
          [(''status'', PStr (status_text DISPATCHED)), (''dispatched_at'', PStr now_iso)])"

definition DynamoDBOutboxStore_mark_failed ::
    "'w dynamo_ops \<Rightarrow> dynamo_config \<Rightarrow> string \<Rightarrow> string \<Rightarrow> string \<Rightarrow> ('w, unit) act" where
  "DynamoDBOutboxStore_mark_failed ops c t record_id err =
     with_table ops c t
       (dy_update_item ops t [(''id'', PStr record_id)]
          [(''status'', PStr (status_text FAILED)), (''last_error'', PStr err)])"

subsection \<open>The DynamoDB idempotency store\<close>

text \<open>An item of this table has text in these attributes; another type is reported as a type error. The instant of creation
  is the default of the record's constructor, the time of reading.\<close>

definition item_text :: "item \<Rightarrow> string \<Rightarrow> exn + string" where
  "item_text i a =
     (case map_of i a of
        None \<Rightarrow> Inl (plain_exn KeyError (quoted a))
      | Some (PStr s) \<Rightarrow> Inr s
      | Some _ \<Rightarrow> Inl (plain_exn TypeError ''not an idempotency item''))"

definition idempotency_of_item :: "microseconds \<Rightarrow> item \<Rightarrow> exn + IdempotencyRecord" where
  "idempotency_of_item now i =
     (case item_text i ''key'' of Inl e \<Rightarrow> Inl e | Inr k \<Rightarrow>
      case (case map_of i ''response'' of None \<Rightarrow> Inr None | Some _ \<Rightarrow> map_sum id Some (item_text i ''response'')) of
        Inl e \<Rightarrow> Inl e | Inr resp \<Rightarrow>
      case (case map_of i ''status'' of None \<Rightarrow> Inr ''PROCESSING'' | Some _ \<Rightarrow> item_text i ''status'') of
        Inl e \<Rightarrow> Inl e | Inr st \<Rightarrow>
      Inr \<lparr>ir_key = k, ir_response = resp, ir_status = st, ir_created_at = now, ir_expires_at = None\<rparr>)"

definition DynamoDBIdempotencyStore_get ::
    "'w dynamo_ops \<Rightarrow> dynamo_config \<Rightarrow> string \<Rightarrow> microseconds \<Rightarrow> IdempotencyKey \<Rightarrow> ('w, IdempotencyRecord option) act" where
  "DynamoDBIdempotencyStore_get ops c t now key =
     with_table ops c t
       (then_do (dy_get_item ops t [(''key'', PStr (IdempotencyKey_str key))])
          (\<lambda>found. case found of None \<Rightarrow> give None | Some i \<Rightarrow> outcome (map_sum id Some (idempotency_of_item now i))))"

text \<open>\<^verbatim>\<open>calendar.timegm\<close> gives whole seconds.\<close>

definition idempotency_item :: "IdempotencyKey \<Rightarrow> IdempotencyRecord \<Rightarrow> item" where
  "idempotency_item key r =
     [(''key'', PStr (IdempotencyKey_str key)), (''status'', PStr (ir_status r))]
     @ (case ir_response r of None \<Rightarrow> [] | Some b \<Rightarrow> [(''response'', PStr b)])
     @ (case ir_expires_at r of None \<Rightarrow> [] | Some x \<Rightarrow> [(''expires_at'', PInt (x div 1000000))])"

definition conditional_failed :: "exn \<Rightarrow> bool" where
  "conditional_failed e \<longleftrightarrow> named_like ''ConditionalCheckFailed'' e \<or> says ''ConditionalCheckFailed'' e"

definition key_exists :: "IdempotencyKey \<Rightarrow> exn" where
  "key_exists key = base_exn ConflictError (''Idempotency key '' @ IdempotencyKey_str key @ '' already exists'')"

definition DynamoDBIdempotencyStore_save ::
    "'w dynamo_ops \<Rightarrow> dynamo_config \<Rightarrow> string \<Rightarrow> IdempotencyKey \<Rightarrow> IdempotencyRecord \<Rightarrow> ('w, unit) act" where
  "DynamoDBIdempotencyStore_save ops c t key r =
     with_table ops c t
       (try_except (dy_put_item ops t (idempotency_item key r) (Some ''key''))
          (\<lambda>e. throw (if conditional_failed e then raised_from (key_exists key) e else e)))"

definition DynamoDBIdempotencyStore_complete ::
    "'w dynamo_ops \<Rightarrow> dynamo_config \<Rightarrow> string \<Rightarrow> IdempotencyKey \<Rightarrow> string \<Rightarrow> ('w, unit) act" where
  "DynamoDBIdempotencyStore_complete ops c t key response =
     with_table ops c t
       (dy_update_item ops t [(''key'', PStr (IdempotencyKey_str key))]
          [(''status'', PStr ''COMPLETED''), (''response'', PStr response)])"

subsection \<open>What DynamoDB promises\<close>

text \<open>The content of a table maps keys to items; \<open>key_attrs\<close> are the key attributes of each table.\<close>

definition item_key :: "string list \<Rightarrow> item \<Rightarrow> item" where
  "item_key attrs i = map (\<lambda>a. (a, dict_get_or i a PNone)) attrs"

fun holds_key :: "key_condition \<Rightarrow> item \<Rightarrow> bool" where
  "holds_key (KeyEq a v) i = (map_of i a = Some v)"
| "holds_key (KeyBegins a p) i = (case map_of i a of Some (PStr s) \<Rightarrow> startswith s p | _ \<Rightarrow> False)"
| "holds_key (KeyBoth x y) i = (holds_key x i \<and> holds_key y i)"

definition limited :: "nat option \<Rightarrow> 'a list \<Rightarrow> 'a list" where
  "limited cap xs = (case cap of None \<Rightarrow> xs | Some n \<Rightarrow> take n xs)"

locale dynamo_service =
  fixes ops :: "'w dynamo_ops" and content :: "'w \<Rightarrow> string \<Rightarrow> item \<rightharpoonup> item" and key_attrs :: "string \<Rightarrow> string list"
  assumes enter_law: "\<exists>w'. dy_enter ops kw w = (Inr (), w') \<and> content w' = content w"
    and leave_law: "\<exists>w'. dy_leave ops w = (Inr (), w') \<and> content w' = content w"
    and table_law: "\<exists>w'. dy_table ops t w = (Inr (), w') \<and> content w' = content w"
    and get_law: "\<exists>w'. dy_get_item ops t k w = (Inr (content w t k), w') \<and> content w' = content w"
    and put_law: "\<exists>w'. dy_put_item ops t i None w = (Inr (), w')
      \<and> content w' = (content w)(t := (content w t)(item_key (key_attrs t) i \<mapsto> i))"
    and put_absent: "content w t (item_key (key_attrs t) i) = None \<Longrightarrow> a \<in> set (key_attrs t) \<Longrightarrow>
      \<exists>w'. dy_put_item ops t i (Some a) w = (Inr (), w')
        \<and> content w' = (content w)(t := (content w t)(item_key (key_attrs t) i \<mapsto> i))"
    and put_present: "content w t (item_key (key_attrs t) i) \<noteq> None \<Longrightarrow> a \<in> set (key_attrs t) \<Longrightarrow>
      \<exists>e w'. dy_put_item ops t i (Some a) w = (Inl e, w') \<and> catchable e \<and> conditional_failed e \<and> content w' = content w"
    and delete_law: "\<exists>w'. dy_delete_item ops t k w = (Inr (), w') \<and> content w' = (content w)(t := (content w t)(k := None))"
    and query_law: "\<exists>resp is w'. dy_query ops t idx cond cap w = (Inr resp, w') \<and> content w' = content w
      \<and> set is = {i. \<exists>k. content w t k = Some i \<and> holds_key cond i} \<and> items_of resp = limited cap is"
    and update_law: "\<exists>w'. dy_update_item ops t k sets w = (Inr (), w')
      \<and> content w' = (content w)(t := (content w t)(k \<mapsto> dict_update (case content w t k of None \<Rightarrow> k | Some i \<Rightarrow> i) sets))"
begin

lemma in_table:
  assumes "\<And>w1. content w1 = content w \<Longrightarrow> \<exists>r w2. body w1 = (r, w2) \<and> P r \<and> content w2 = m"
  shows "\<exists>r w'. with_table ops c t body w = (r, w') \<and> P r \<and> content w' = m"
proof -
  obtain w1 where 1: "dy_enter ops (resource_kwargs c) w = (Inr (), w1)" "content w1 = content w" using enter_law by blast
  obtain w2 where 2: "dy_table ops t w1 = (Inr (), w2)" "content w2 = content w1" using table_law by blast
  obtain r w3 where 3: "body w2 = (r, w3)" "P r" "content w3 = m" using assms[of w2] 1 2 by auto
  obtain w4 where 4: "dy_leave ops w3 = (Inr (), w4)" "content w4 = content w3" using leave_law by blast
  show ?thesis using 1 2 3 4 by (simp add: with_table_def async_with_def)
qed

lemma in_table_eq:
  assumes "\<And>w1. content w1 = content w \<Longrightarrow> \<exists>w2. body w1 = (r, w2) \<and> content w2 = m"
  shows "\<exists>w'. with_table ops c t body w = (r, w') \<and> content w' = m"
  using in_table[of w body "\<lambda>x. x = r" m] assms by auto

lemma repository_get:
  "\<exists>w'. DynamoDBRepository_get ops c t model pk sk w =
      (case content w (dt_table_name t) (dynamo_key t pk sk) of None \<Rightarrow> Inr None | Some i \<Rightarrow> map_sum id Some (model i), w')
    \<and> content w' = content w"
  unfolding DynamoDBRepository_get_def
proof (rule in_table_eq)
  fix w1 assume same: "content w1 = content w"
  obtain w2 where "dy_get_item ops (dt_table_name t) (dynamo_key t pk sk) w1
      = (Inr (content w1 (dt_table_name t) (dynamo_key t pk sk)), w2)" "content w2 = content w1" using get_law by blast
  then show "\<exists>w2. then_do (dy_get_item ops (dt_table_name t) (dynamo_key t pk sk))
        (\<lambda>found. case found of None \<Rightarrow> give None | Some i \<Rightarrow> outcome (map_sum id Some (model i))) w1
      = (case content w (dt_table_name t) (dynamo_key t pk sk) of None \<Rightarrow> Inr None | Some i \<Rightarrow> map_sum id Some (model i), w2)
      \<and> content w2 = content w"
    using same by (auto split: option.split)
qed

lemma repository_put:
  assumes "obj_to_dict obj = Inr i"
  shows "\<exists>w'. DynamoDBRepository_put ops c t obj w = (Inr (), w')
    \<and> content w' = (content w)(dt_table_name t := (content w (dt_table_name t))(item_key (key_attrs (dt_table_name t)) i \<mapsto> i))"
  unfolding DynamoDBRepository_put_def
proof (rule in_table_eq)
  fix w1 assume "content w1 = content w"
  then show "\<exists>w2. then_do (outcome (obj_to_dict obj)) (\<lambda>body. dy_put_item ops (dt_table_name t) body None) w1 = (Inr (), w2)
      \<and> content w2 = (content w)(dt_table_name t := (content w (dt_table_name t))(item_key (key_attrs (dt_table_name t)) i \<mapsto> i))"
    using put_law[of "dt_table_name t" i w1] assms by (simp add: then_do_def)
qed

lemma repository_delete:
  "\<exists>w'. DynamoDBRepository_delete ops c t pk sk w = (Inr (), w')
    \<and> content w' = (content w)(dt_table_name t := (content w (dt_table_name t))(dynamo_key t pk sk := None))"
  unfolding DynamoDBRepository_delete_def
proof (rule in_table_eq)
  fix w1 assume "content w1 = content w"
  then show "\<exists>w2. dy_delete_item ops (dt_table_name t) (dynamo_key t pk sk) w1 = (Inr (), w2)
      \<and> content w2 = (content w)(dt_table_name t := (content w (dt_table_name t))(dynamo_key t pk sk := None))"
    using delete_law[of "dt_table_name t" "dynamo_key t pk sk" w1] by simp
qed

text \<open>Idempotency items are found under their key.\<close>

lemma item_key_idempotency [simp]: "item_key [''key''] (idempotency_item key r) = [(''key'', PStr (IdempotencyKey_str key))]"
  by (simp add: item_key_def idempotency_item_def dict_get_or_def)

lemma idempotency_save_fresh:
  assumes "key_attrs t = [''key'']" "content w t [(''key'', PStr (IdempotencyKey_str key))] = None"
  shows "\<exists>w'. DynamoDBIdempotencyStore_save ops c t key r w = (Inr (), w')
    \<and> content w' = (content w)(t := (content w t)([(''key'', PStr (IdempotencyKey_str key))] \<mapsto> idempotency_item key r))"
  unfolding DynamoDBIdempotencyStore_save_def
proof (rule in_table_eq)
  fix w1 assume "content w1 = content w"
  then show "\<exists>w2. try_except (dy_put_item ops t (idempotency_item key r) (Some ''key''))
        (\<lambda>e. throw (if conditional_failed e then raised_from (key_exists key) e else e)) w1 = (Inr (), w2)
      \<and> content w2 = (content w)(t := (content w t)([(''key'', PStr (IdempotencyKey_str key))] \<mapsto> idempotency_item key r))"
    using put_absent[of w1 t "idempotency_item key r" "''key''"] assms by (auto simp: try_except_def)
qed

lemma idempotency_save_again:
  assumes "key_attrs t = [''key'']" "content w t [(''key'', PStr (IdempotencyKey_str key))] \<noteq> None"
  shows "\<exists>e w'. DynamoDBIdempotencyStore_save ops c t key r w = (Inl (raised_from (key_exists key) e), w')
    \<and> content w' = content w"
proof -
  have "\<exists>x w'. DynamoDBIdempotencyStore_save ops c t key r w = (x, w') \<and> (\<exists>e. x = Inl (raised_from (key_exists key) e))
      \<and> content w' = content w"
    unfolding DynamoDBIdempotencyStore_save_def
  proof (rule in_table)
    fix w1 assume "content w1 = content w"
    then show "\<exists>x w2. try_except (dy_put_item ops t (idempotency_item key r) (Some ''key''))
          (\<lambda>e. throw (if conditional_failed e then raised_from (key_exists key) e else e)) w1 = (x, w2)
        \<and> (\<exists>e. x = Inl (raised_from (key_exists key) e)) \<and> content w2 = content w"
      using put_present[of w1 t "idempotency_item key r" "''key''"] assms by (auto simp: try_except_def)
  qed
  then show ?thesis by blast
qed

lemma idempotency_get:
  "\<exists>w'. DynamoDBIdempotencyStore_get ops c t now key w =
      (case content w t [(''key'', PStr (IdempotencyKey_str key))] of
         None \<Rightarrow> Inr None | Some i \<Rightarrow> map_sum id Some (idempotency_of_item now i), w')
    \<and> content w' = content w"
  unfolding DynamoDBIdempotencyStore_get_def
proof (rule in_table_eq)
  fix w1 assume same: "content w1 = content w"
  obtain w2 where "dy_get_item ops t [(''key'', PStr (IdempotencyKey_str key))] w1
      = (Inr (content w1 t [(''key'', PStr (IdempotencyKey_str key))]), w2)" "content w2 = content w1" using get_law by blast
  then show "\<exists>w2. then_do (dy_get_item ops t [(''key'', PStr (IdempotencyKey_str key))])
        (\<lambda>found. case found of None \<Rightarrow> give None | Some i \<Rightarrow> outcome (map_sum id Some (idempotency_of_item now i))) w1
      = (case content w t [(''key'', PStr (IdempotencyKey_str key))] of
           None \<Rightarrow> Inr None | Some i \<Rightarrow> map_sum id Some (idempotency_of_item now i), w2) \<and> content w2 = content w"
    using same by (auto split: option.split)
qed

lemma idempotency_complete:
  "\<exists>w'. DynamoDBIdempotencyStore_complete ops c t key resp w = (Inr (), w')
    \<and> content w' = (content w)(t := (content w t)([(''key'', PStr (IdempotencyKey_str key))] \<mapsto>
        dict_update (case content w t [(''key'', PStr (IdempotencyKey_str key))] of
                       None \<Rightarrow> [(''key'', PStr (IdempotencyKey_str key))] | Some i \<Rightarrow> i)
          [(''status'', PStr ''COMPLETED''), (''response'', PStr resp)]))"
  unfolding DynamoDBIdempotencyStore_complete_def
proof (rule in_table_eq)
  fix w1 assume same: "content w1 = content w"
  show "\<exists>w2. dy_update_item ops t [(''key'', PStr (IdempotencyKey_str key))]
        [(''status'', PStr ''COMPLETED''), (''response'', PStr resp)] w1 = (Inr (), w2)
      \<and> content w2 = (content w)(t := (content w t)([(''key'', PStr (IdempotencyKey_str key))] \<mapsto>
        dict_update (case content w t [(''key'', PStr (IdempotencyKey_str key))] of
                       None \<Rightarrow> [(''key'', PStr (IdempotencyKey_str key))] | Some i \<Rightarrow> i)
          [(''status'', PStr ''COMPLETED''), (''response'', PStr resp)]))"
    using update_law[of t "[(''key'', PStr (IdempotencyKey_str key))]" _ w1] unfolding same .
qed

text \<open>Once the key is there, every save conflicts and leaves the table alone.\<close>

lemma all_saves_conflict:
  assumes "key_attrs t = [''key'']" "content w t [(''key'', PStr (IdempotencyKey_str key))] \<noteq> None"
    and "each_outcome (DynamoDBIdempotencyStore_save ops c t key) rs w = (xs, w')"
  shows "content w' = content w \<and> length xs = length rs
    \<and> (\<forall>x \<in> set xs. \<exists>e. x = Inl (raised_from (key_exists key) e))"
  using assms(2,3)
proof (induction rs arbitrary: w xs)
  case (Cons r rs)
  obtain e v where e: "DynamoDBIdempotencyStore_save ops c t key r w = (Inl (raised_from (key_exists key) e), v)"
    "content v = content w" using idempotency_save_again[OF assms(1) Cons.prems(1)] by blast
  obtain ys v' where run: "each_outcome (DynamoDBIdempotencyStore_save ops c t key) rs v = (ys, v')" by fastforce
  have "xs = Inl (raised_from (key_exists key) e) # ys" "w' = v'" using Cons.prems(2) e(1) run by auto
  then show ?case using Cons.IH[of v ys] Cons.prems(1) e run by auto
qed simp

text \<open>The outbox of a table with key \<^verbatim>\<open>id\<close>.\<close>

lemma outbox_pending:
  "\<exists>is pend w'. DynamoDBOutboxStore_get_pending ops c t n w = (Inr (take n pend), w') \<and> content w' = content w
    \<and> set pend = {i. \<exists>k. content w t k = Some i \<and> map_of i ''status'' = Some (PStr ''PENDING'')}"
proof -
  let ?P = "\<lambda>r. \<exists>pend. r = Inr (take n pend)
    \<and> set pend = {i. \<exists>k. content w t k = Some i \<and> map_of i ''status'' = Some (PStr ''PENDING'')}"
  have "\<exists>r w'. DynamoDBOutboxStore_get_pending ops c t n w = (r, w') \<and> ?P r \<and> content w' = content w"
    unfolding DynamoDBOutboxStore_get_pending_def
  proof (rule in_table)
    fix w1 assume same: "content w1 = content w"
    obtain resp "is" w2 where "dy_query ops t (Some ''status-index'') (KeyEq ''status'' (PStr (status_text PENDING))) (Some n) w1
        = (Inr resp, w2)" "content w2 = content w" "items_of resp = take n is"
      "set is = {i. \<exists>k. content w t k = Some i \<and> map_of i ''status'' = Some (PStr ''PENDING'')}"
      using query_law[of t "Some ''status-index''" "KeyEq ''status'' (PStr (status_text PENDING))" "Some n" w1]
      unfolding same by (auto simp: limited_def status_text_def)
    then show "\<exists>r w2. then_do (dy_query ops t (Some ''status-index'') (KeyEq ''status'' (PStr (status_text PENDING))) (Some n))
        (\<lambda>resp. give (items_of resp)) w1 = (r, w2) \<and> ?P r \<and> content w2 = content w"
      by auto
  qed
  then show ?thesis by blast
qed

lemma outbox_mark_dispatched:
  "\<exists>w' i. DynamoDBOutboxStore_mark_dispatched ops c t now_iso x w = (Inr (), w') \<and> map_of i ''status'' = Some (PStr ''DISPATCHED'')
    \<and> content w' = (content w)(t := (content w t)([(''id'', PStr x)] \<mapsto> i))"
proof -
  let ?i = "dict_update (case content w t [(''id'', PStr x)] of None \<Rightarrow> [(''id'', PStr x)] | Some i \<Rightarrow> i)
    [(''status'', PStr (status_text DISPATCHED)), (''dispatched_at'', PStr now_iso)]"
  have "\<exists>w'. DynamoDBOutboxStore_mark_dispatched ops c t now_iso x w = (Inr (), w')
      \<and> content w' = (content w)(t := (content w t)([(''id'', PStr x)] \<mapsto> ?i))"
    unfolding DynamoDBOutboxStore_mark_dispatched_def
  proof (rule in_table_eq)
    fix w1 assume same: "content w1 = content w"
    show "\<exists>w2. dy_update_item ops t [(''id'', PStr x)]
        [(''status'', PStr (status_text DISPATCHED)), (''dispatched_at'', PStr now_iso)] w1 = (Inr (), w2)
      \<and> content w2 = (content w)(t := (content w t)([(''id'', PStr x)] \<mapsto> ?i))"
      using update_law[of t "[(''id'', PStr x)]" _ w1] unfolding same .
  qed
  moreover have "map_of ?i ''status'' = Some (PStr ''DISPATCHED'')" by (simp add: map_of_dict_update status_text_def)
  ultimately show ?thesis by blast
qed

lemma is_dynamo_service: "dynamo_service ops content key_attrs"
  by unfold_locales

end

subsection \<open>A reference table service\<close>

type_synonym table_world = "(string \<times> item, item) pydict"

definition table_items :: "string \<Rightarrow> (item \<Rightarrow> bool) \<Rightarrow> table_world \<Rightarrow> item list" where
  "table_items t p w =
     filter p (map (\<lambda>k. the (map_of w k)) (filter (\<lambda>k. fst k = t) (remdups (map fst w))))"

definition condition_failure :: exn where
  "condition_failure = plain_exn (UserError ''ClientError'' Exception) ''ConditionalCheckFailedException''"

definition reference_dynamo :: "(string \<Rightarrow> string list) \<Rightarrow> table_world dynamo_ops" where
  "reference_dynamo attrs =
     \<lparr>dy_enter = (\<lambda>_ w. (Inr (), w)), dy_leave = (\<lambda>w. (Inr (), w)), dy_table = (\<lambda>_ w. (Inr (), w)),
      dy_get_item = (\<lambda>t k w. (Inr (map_of w (t, k)), w)),
      dy_put_item = (\<lambda>t i cond w.
        if cond \<noteq> None \<and> map_of w (t, item_key (attrs t) i) \<noteq> None then (Inl condition_failure, w)
        else (Inr (), dict_set (t, item_key (attrs t) i) i w)),
      dy_delete_item = (\<lambda>t k w. (Inr (), dict_pop (t, k) w)),
      dy_query = (\<lambda>t idx cond cap w. (Inr (Some (limited cap (table_items t (holds_key cond) w))), w)),
      dy_scan = (\<lambda>t _ w. (Inr (Some (table_items t (\<lambda>_. True) w)), w)),
      dy_update_item = (\<lambda>t k sets w.
        (Inr (), dict_set (t, k) (dict_update (case map_of w (t, k) of None \<Rightarrow> k | Some i \<Rightarrow> i) sets) w))\<rparr>"

lemma condition_failure_ok: "catchable condition_failure" "conditional_failed condition_failure"
  by (simp add: condition_failure_def, code_simp)

lemma set_table_items: "set (table_items t p w) = {i. \<exists>k. map_of w (t, k) = Some i \<and> p i}"
proof (rule set_eqI)
  fix i
  have keys: "kk \<in> set (map fst w) \<longleftrightarrow> (\<exists>j. map_of w kk = Some j)" for kk
    using map_of_None_iff[of w kk] by (cases "map_of w kk") simp_all
  have "i \<in> set (table_items t p w) \<longleftrightarrow> (\<exists>kk. kk \<in> set (map fst w) \<and> fst kk = t \<and> i = the (map_of w kk) \<and> p i)"
    unfolding table_items_def set_filter set_map set_remdups by blast
  also have "\<dots> \<longleftrightarrow> (\<exists>kk. fst kk = t \<and> map_of w kk = Some i \<and> p i)" unfolding keys by auto
  also have "\<dots> \<longleftrightarrow> (\<exists>k. map_of w (t, k) = Some i \<and> p i)" by auto
  finally show "i \<in> set (table_items t p w) \<longleftrightarrow> i \<in> {i. \<exists>k. map_of w (t, k) = Some i \<and> p i}" by simp
qed

interpretation reference_dynamo: dynamo_service "reference_dynamo attrs" "\<lambda>w t k. map_of w (t, k)" attrs for attrs
proof unfold_locales
  fix t idx cond cap and w :: table_world
  show "\<exists>resp is w'. dy_query (reference_dynamo attrs) t idx cond cap w = (Inr resp, w')
      \<and> (\<lambda>t k. map_of w' (t, k)) = (\<lambda>t k. map_of w (t, k))
      \<and> set is = {i. \<exists>k. map_of w (t, k) = Some i \<and> holds_key cond i} \<and> items_of resp = limited cap is"
    using set_table_items[of t "holds_key cond" w] by (auto simp: reference_dynamo_def items_of_def)
qed (auto simp: reference_dynamo_def fun_eq_iff condition_failure_ok)

subsection \<open>One winner per idempotency key\<close>


definition demo_idem_key :: IdempotencyKey where
  "demo_idem_key = \<lparr>ik_client_key = ''c1'', ik_operation = ''pay''\<rparr>"

definition demo_idem_record :: IdempotencyRecord where
  "demo_idem_record = IdempotencyRecord_init 0 ''pay:c1''"

definition demo_dynamo :: dynamo_config where
  "demo_dynamo = \<lparr>dc_region = ''us-east-1'', dc_endpoint_url = None\<rparr>"


text \<open>Completing records the response, also for a key that nobody saved.\<close>

lemma dynamo_completed_is_read:
  assumes "dynamo_service ops content key_attrs"
    and "DynamoDBIdempotencyStore_complete ops c t key resp w = (r, w')"
    and "content w t [(''key'', PStr (IdempotencyKey_str key))] = None
      \<or> (\<exists>r0. content w t [(''key'', PStr (IdempotencyKey_str key))] = Some (idempotency_item key r0))"
  shows "r = Inr () \<and> fst (DynamoDBIdempotencyStore_get ops c t now key w') =
    Inr (Some \<lparr>ir_key = IdempotencyKey_str key, ir_response = Some resp, ir_status = ''COMPLETED'',
               ir_created_at = now, ir_expires_at = None\<rparr>)"
proof -
  have "r = Inr ()" and c: "content w' t [(''key'', PStr (IdempotencyKey_str key))] = Some
      (dict_update (case content w t [(''key'', PStr (IdempotencyKey_str key))] of
         None \<Rightarrow> [(''key'', PStr (IdempotencyKey_str key))] | Some i \<Rightarrow> i)
        [(''status'', PStr ''COMPLETED''), (''response'', PStr resp)])"
    using dynamo_service.idempotency_complete[OF assms(1), of c t key resp w] assms(2) by auto
  then show ?thesis
    using dynamo_service.idempotency_get[OF assms(1), of c t now key w'] assms(3)
    by (auto simp: idempotency_of_item_def item_text_def map_of_dict_update idempotency_item_def)
qed

text \<open>A dispatched record is not pending any more, and every record that is returned is pending.\<close>

lemma dynamo_dispatched_not_pending:
  assumes "dynamo_service ops content key_attrs"
    and "\<forall>k i. content w t k = Some i \<longrightarrow> k = item_key [''id''] i"
    and "DynamoDBOutboxStore_mark_dispatched ops c t now_iso x w = (Inr (), w1)"
    and "DynamoDBOutboxStore_get_pending ops c t n w1 = (Inr is, w2)" "i \<in> set is"
  shows "map_of i ''id'' \<noteq> Some (PStr x) \<and> map_of i ''status'' = Some (PStr ''PENDING'')"
proof -
  obtain j where j: "map_of j ''status'' = Some (PStr ''DISPATCHED'')"
    "content w1 = (content w)(t := (content w t)([(''id'', PStr x)] \<mapsto> j))"
    using dynamo_service.outbox_mark_dispatched[OF assms(1), of c t now_iso x w] assms(3) by auto
  obtain k where k: "content w1 t k = Some i" "map_of i ''status'' = Some (PStr ''PENDING'')"
    using dynamo_service.outbox_pending[OF assms(1), of c t n w1] assms(4,5) by (auto dest: in_set_takeD)
  then have "k \<noteq> [(''id'', PStr x)]" using j by auto
  moreover from this have "content w t k = Some i" using j k by auto
  then have "k = item_key [''id''] i" using assms(2) by blast
  ultimately show ?thesis using k(2) by (auto simp: item_key_def dict_get_or_def)
qed

subsection \<open>Cassandra\<close>

record CassandraSession =
  cn_contact_points :: "string list"
  cn_keyspace :: string
  cn_session :: "string option"
  cn_cluster :: "string list option"

text \<open>\<open>link\<close> opens the cluster's connection to a keyspace; an assignment made before it raises stays.\<close>

definition CassandraSession_connect ::
    "(string list \<Rightarrow> string \<Rightarrow> ('w, string) act) \<Rightarrow> CassandraSession \<Rightarrow> 'w \<Rightarrow> (exn + string) \<times> CassandraSession \<times> 'w" where
  "CassandraSession_connect link c w =
     (let c1 = c\<lparr>cn_cluster := Some (cn_contact_points c)\<rparr>
      in case link (cn_contact_points c) (cn_keyspace c) w of
           (Inl e, w') \<Rightarrow> (Inl e, c1, w')
         | (Inr sess, w') \<Rightarrow> (Inr sess, c1\<lparr>cn_session := Some sess\<rparr>, w'))"

definition CassandraSession_session :: "CassandraSession \<Rightarrow> exn + string" where
  "CassandraSession_session c =
     (case cn_session c of
        None \<Rightarrow> Inl (plain_exn RuntimeError ''Call connect() before using the session.'')
      | Some sess \<Rightarrow> Inr sess)"

text \<open>Closing shuts the cluster down and keeps the session.\<close>

definition CassandraSession_close :: "('w, unit) act \<Rightarrow> CassandraSession \<Rightarrow> ('w, unit) act" where
  "CassandraSession_close shutdown c = (case cn_cluster c of None \<Rightarrow> give () | Some _ \<Rightarrow> shutdown)"

record ('w, 's) cassandra_ops =
  cs_prepare :: "string \<Rightarrow> ('w, 's) act"
  cs_execute :: "'s \<Rightarrow> pyval list option \<Rightarrow> ('w, item list option) act"

record 's CassandraRepository =
  cr_table :: string
  cr_pk_field :: string
  cr_prepared :: "(string, 's) pydict"

definition CassandraRepository_init :: "string \<Rightarrow> string \<Rightarrow> string option \<Rightarrow> 's CassandraRepository" where
  "CassandraRepository_init table pk_field pk_column =
     \<lparr>cr_table = table, cr_pk_field = (case pk_column of None \<Rightarrow> pk_field | Some col \<Rightarrow> col), cr_prepared = []\<rparr>"

definition Cassandra_prepare ::
    "('w, 's) cassandra_ops \<Rightarrow> string \<Rightarrow> 's CassandraRepository \<Rightarrow> 'w \<Rightarrow> (exn + 's) \<times> 's CassandraRepository \<times> 'w" where
  "Cassandra_prepare ops cql repo w =
     (case map_of (cr_prepared repo) cql of
        Some stmt \<Rightarrow> (Inr stmt, repo, w)
      | None \<Rightarrow>
          (case cs_prepare ops cql w of
             (Inl e, w') \<Rightarrow> (Inl e, repo, w')
           | (Inr stmt, w') \<Rightarrow> (Inr stmt, repo\<lparr>cr_prepared := dict_set cql stmt (cr_prepared repo)\<rparr>, w')))"

text \<open>An empty tuple of parameters is not passed on.\<close>

definition Cassandra_exec ::
    "('w, 's) cassandra_ops \<Rightarrow> string \<Rightarrow> pyval list option \<Rightarrow> 's CassandraRepository \<Rightarrow> 'w
      \<Rightarrow> (exn + item list option) \<times> 's CassandraRepository \<times> 'w" where
  "Cassandra_exec ops cql params repo w =
     (case Cassandra_prepare ops cql repo w of
        (Inl e, repo', w') \<Rightarrow> (Inl e, repo', w')
      | (Inr stmt, repo', w') \<Rightarrow>
          (case cs_execute ops stmt (case params of None \<Rightarrow> None | Some ps \<Rightarrow> if ps = [] then None else Some ps) w' of
             (r, w'') \<Rightarrow> (r, repo', w'')))"

definition select_cql :: "'s CassandraRepository \<Rightarrow> string" where
  "select_cql repo = ''SELECT * FROM '' @ cr_table repo @ '' WHERE '' @ cr_pk_field repo @ '' = ?''"

definition Cassandra_get ::
    "('w, 's) cassandra_ops \<Rightarrow> (item \<Rightarrow> exn + 'a) \<Rightarrow> pyval \<Rightarrow> 's CassandraRepository \<Rightarrow> 'w
      \<Rightarrow> (exn + 'a option) \<times> 's CassandraRepository \<times> 'w" where
  "Cassandra_get ops model pk repo w =
     (case Cassandra_exec ops (select_cql repo) (Some [pk]) repo w of
        (Inl e, repo', w') \<Rightarrow> (Inl e, repo', w')
      | (Inr (Some (row # _)), repo', w') \<Rightarrow> (map_sum id Some (model row), repo', w')
      | (Inr _, repo', w') \<Rightarrow> (Inr None, repo', w'))"

definition insert_cql :: "string \<Rightarrow> item \<Rightarrow> string" where
  "insert_cql table body =
     ''INSERT INTO '' @ table @ '' ('' @ join_with '', '' (dict_keys body) @ '') VALUES (''
       @ join_with '', '' (map (\<lambda>_. ''?'') body) @ '')''"

definition Cassandra_save ::
    "('w, 's) cassandra_ops \<Rightarrow> py_object \<Rightarrow> 's CassandraRepository \<Rightarrow> 'w \<Rightarrow> (exn + unit) \<times> 's CassandraRepository \<times> 'w" where
  "Cassandra_save ops entity repo w =
     (case obj_to_dict entity of
        Inl e \<Rightarrow> (Inl e, repo, w)
      | Inr body \<Rightarrow>
          (case Cassandra_exec ops (insert_cql (cr_table repo) body) (Some (dict_values body)) repo w of
             (r, repo', w') \<Rightarrow> (map_sum id (\<lambda>_. ()) r, repo', w')))"

definition Cassandra_delete ::
    "('w, 's) cassandra_ops \<Rightarrow> pyval \<Rightarrow> 's CassandraRepository \<Rightarrow> 'w \<Rightarrow> (exn + unit) \<times> 's CassandraRepository \<times> 'w" where
  "Cassandra_delete ops pk repo w =
     (case Cassandra_exec ops (''DELETE FROM '' @ cr_table repo @ '' WHERE '' @ cr_pk_field repo @ '' = ?'') (Some [pk]) repo w of
        (r, repo', w') \<Rightarrow> (map_sum id (\<lambda>_. ()) r, repo', w'))"

definition Cassandra_find_by ::
    "('w, 's) cassandra_ops \<Rightarrow> (item \<Rightarrow> exn + 'a) \<Rightarrow> string \<Rightarrow> pyval \<Rightarrow> 's CassandraRepository \<Rightarrow> 'w
      \<Rightarrow> (exn + 'a list) \<times> 's CassandraRepository \<times> 'w" where
  "Cassandra_find_by ops model column v repo w =
     (case Cassandra_exec ops (''SELECT * FROM '' @ cr_table repo @ '' WHERE '' @ column @ '' = ? ALLOW FILTERING'') (Some [v]) repo w of
        (Inl e, repo', w') \<Rightarrow> (Inl e, repo', w')
      | (Inr rows, repo', w') \<Rightarrow> (build_all model (items_of rows), repo', w'))"

subsection \<open>Prepared statements\<close>

text \<open>A session that notes the texts it prepared.\<close>

definition noting :: "('w, 's) cassandra_ops \<Rightarrow> (string list \<times> 'w, 's) cassandra_ops" where
  "noting ops =
     \<lparr>cs_prepare = (\<lambda>cql (seen, w). case cs_prepare ops cql w of
                       (Inl e, w') \<Rightarrow> (Inl e, (seen, w')) | (Inr s, w') \<Rightarrow> (Inr s, (seen @ [cql], w'))),
      cs_execute = (\<lambda>s ps (seen, w). case cs_execute ops s ps w of (r, w') \<Rightarrow> (r, (seen, w')))\<rparr>"

fun Cassandra_session_run ::
    "('w, 's) cassandra_ops \<Rightarrow> (string \<times> pyval list option) list \<Rightarrow> 's CassandraRepository \<Rightarrow> 'w
      \<Rightarrow> 's CassandraRepository \<times> 'w" where
  "Cassandra_session_run ops [] repo w = (repo, w)"
| "Cassandra_session_run ops (q # qs) repo w =
     (case Cassandra_exec ops (fst q) (snd q) repo w of (r, repo', w') \<Rightarrow> Cassandra_session_run ops qs repo' w')"

definition noted_ok :: "'s CassandraRepository \<Rightarrow> string list \<times> 'w \<Rightarrow> bool" where
  "noted_ok repo sw \<longleftrightarrow> distinct (fst sw) \<and> set (fst sw) = fst ` set (cr_prepared repo)"

lemma exec_noted:
  assumes "noted_ok repo sw" "Cassandra_exec (noting ops) cql ps repo sw = (r, repo', sw')"
  shows "noted_ok repo' sw'"
proof -
  obtain seen w where sw: "sw = (seen, w)" by fastforce
  have exec: "fst (snd (cs_execute (noting ops) stmt qs (seen', v))) = seen'" for stmt qs seen' v
    by (simp add: noting_def split_def)
  show ?thesis
  proof (cases "map_of (cr_prepared repo) cql")
    case (Some stmt)
    then have "repo' = repo" "fst sw' = seen"
      using assms(2) exec[of stmt] unfolding sw
      by (auto simp: Cassandra_exec_def Cassandra_prepare_def split: prod.splits) (metis fst_conv snd_conv)
    then show ?thesis using assms(1) unfolding sw noted_ok_def by simp
  next
    case None
    then have new: "cql \<notin> fst ` set (cr_prepared repo)" by (simp add: map_of_None_iff)
    show ?thesis
    proof (cases "cs_prepare ops cql w")
      case (Pair x v)
      show ?thesis
      proof (cases x)
        case (Inl e)
        then have "repo' = repo" "fst sw' = seen"
          using assms(2) None Pair unfolding sw by (auto simp: Cassandra_exec_def Cassandra_prepare_def noting_def)
        then show ?thesis using assms(1) unfolding sw noted_ok_def by simp
      next
        case (Inr stmt)
        then have "repo' = repo\<lparr>cr_prepared := dict_set cql stmt (cr_prepared repo)\<rparr>" "fst sw' = seen @ [cql]"
          using assms(2) None Pair exec[of stmt _ "seen @ [cql]" v] unfolding sw
          by (auto simp: Cassandra_exec_def Cassandra_prepare_def noting_def split: prod.splits)
        then show ?thesis using assms(1) new unfolding sw noted_ok_def by simp
      qed
    qed
  qed
qed

lemma run_noted:
  "noted_ok repo sw \<Longrightarrow> Cassandra_session_run (noting ops) qs repo sw = (repo', sw') \<Longrightarrow> noted_ok repo' sw'"
proof (induction qs arbitrary: repo sw)
  case (Cons q qs)
  obtain r repo1 sw1 where e: "Cassandra_exec (noting ops) (fst q) (snd q) repo sw = (r, repo1, sw1)"
    by (metis prod_cases3)
  show ?case using Cons.IH[OF exec_noted[OF Cons.prems(1) e]] Cons.prems(2) e by simp
qed simp

text \<open>A repository prepares each statement text at most once, however many statements it executes.\<close>

lemma cassandra_prepares_once:
  assumes "Cassandra_session_run (noting ops) qs (CassandraRepository_init table pk col) ([], w) = (repo, (seen, w'))"
  shows "distinct seen \<and> set seen = fst ` set (cr_prepared repo)"
  using run_noted[OF _ assms] by (simp add: noted_ok_def CassandraRepository_init_def)

subsection \<open>The Cassandra outbox\<close>

text \<open>The date of a day counted from 1 January 1970 in the proleptic Gregorian calendar, as year, month and day. Years are counted
  from March in cycles of 400.\<close>

definition civil_date :: "int \<Rightarrow> int \<times> int \<times> int" where
  "civil_date days =
     (let z = days + 719468; era = z div 146097; doe = z mod 146097;
          yoe = (doe - doe div 1460 + doe div 36524 - doe div 146096) div 365;
          doy = doe - (365 * yoe + yoe div 4 - yoe div 100); mp = (5 * doy + 2) div 153;
          d = doy - (153 * mp + 2) div 5 + 1; m = (if mp < 10 then mp + 3 else mp - 9)
      in (yoe + era * 400 + (if m \<le> 2 then 1 else 0), m, d))"

definition padded :: "nat \<Rightarrow> int \<Rightarrow> string" where
  "padded n i = replicate (n - length (show_int i)) (CHR ''0'') @ show_int i"

text \<open>\<^verbatim>\<open>strftime("%Y-%m-%dT%H:00:00")\<close> of a UTC instant.\<close>

definition bucket_hour :: "microseconds \<Rightarrow> string" where
  "bucket_hour dt =
     (let hours = dt div 3600000000
      in case civil_date (hours div 24) of
           (y, m, d) \<Rightarrow> padded 4 y @ ''-'' @ padded 2 m @ ''-'' @ padded 2 d @ ''T'' @ padded 2 (hours mod 24) @ '':00:00'')"

text \<open>A row keeps the instants as values of the driver.\<close>

definition outbox_row :: "OutboxRecord \<Rightarrow> item" where
  "outbox_row r =
     [(''id'', PStr (ob_id r)), (''aggregate_id'', PStr (ob_aggregate_id r)), (''aggregate_type'', PStr (ob_aggregate_type r)),
      (''event_type'', PStr (ob_event_type r)), (''topic'', PStr (ob_topic r)), (''payload'', PStr (ob_payload r)),
      (''headers'', PDict (map (\<lambda>(k, v). (k, PStr v)) (ob_headers r))), (''status'', PStr (status_text (ob_status r))),
      (''created_at'', PInt (ob_created_at r)),
      (''dispatched_at'', case ob_dispatched_at r of None \<Rightarrow> PNone | Some d \<Rightarrow> PInt d),
      (''retry_count'', PInt (ob_retry_count r)), (''last_error'', opt_str (ob_last_error r)),
      (''bucket_hour'', PStr (bucket_hour (ob_created_at r)))]"

definition run_statement :: "('w, 's) cassandra_ops \<Rightarrow> string \<Rightarrow> pyval list \<Rightarrow> ('w, item list option) act" where
  "run_statement ops cql ps = then_do (cs_prepare ops cql) (\<lambda>stmt. cs_execute ops stmt (Some ps))"

definition CassandraOutboxStore_save :: "('w, 's) cassandra_ops \<Rightarrow> string \<Rightarrow> OutboxRecord \<Rightarrow> ('w, unit) act" where
  "CassandraOutboxStore_save ops table r =
     then_do (run_statement ops (insert_cql table (outbox_row r)) (dict_values (outbox_row r))) (\<lambda>_. give ())"

definition pending_cql :: "string \<Rightarrow> nat \<Rightarrow> string" where
  "pending_cql table limit =
     ''SELECT * FROM '' @ table @ '' WHERE topic = ? AND bucket_hour = ? AND status = ? LIMIT '' @ show_nat limit
       @ '' ALLOW FILTERING''"

definition CassandraOutboxStore_get_pending ::
    "('w, 's) cassandra_ops \<Rightarrow> string \<Rightarrow> microseconds \<Rightarrow> string \<Rightarrow> nat \<Rightarrow> ('w, item list) act" where
  "CassandraOutboxStore_get_pending ops table now topic limit =
     then_do (cs_prepare ops (pending_cql table limit))
       (\<lambda>stmt. then_do
          (collect_each (\<lambda>bucket. then_do (cs_execute ops stmt (Some [PStr topic, PStr bucket, PStr (status_text PENDING)]))
             (\<lambda>rows. give (items_of rows))) [bucket_hour now, bucket_hour (now - 3600000000)])
          (\<lambda>parts. give (concat parts)))"

definition CassandraOutboxStore_mark_dispatched :: "('w, 's) cassandra_ops \<Rightarrow> string \<Rightarrow> string \<Rightarrow> ('w, unit) act" where
  "CassandraOutboxStore_mark_dispatched ops table record_id =
     then_do (run_statement ops (''UPDATE '' @ table @ '' SET status = ? WHERE id = ?'')
        [PStr (status_text DISPATCHED), PStr record_id]) (\<lambda>_. give ())"

text \<open>What the outbox relies on: the statements it prepares do what their text says on the rows of the table.\<close>

definition in_bucket :: "pyval list \<Rightarrow> item \<Rightarrow> bool" where
  "in_bucket ps row \<longleftrightarrow> map Some ps = map (map_of row) [''topic'', ''bucket_hour'', ''status'']"

locale cassandra_service =
  fixes ops :: "('w, 's) cassandra_ops" and table :: string and rows :: "'w \<Rightarrow> item list"
  assumes select_law: "\<exists>stmt w'. cs_prepare ops (pending_cql table limit) w = (Inr stmt, w') \<and> rows w' = rows w
      \<and> (\<forall>ps v. \<exists>resp v'. cs_execute ops stmt (Some ps) v = (Inr resp, v') \<and> rows v' = rows v
           \<and> items_of resp = take limit (filter (in_bucket ps) (rows v)))"
    and insert_law: "\<exists>stmt w'. cs_prepare ops (insert_cql table (outbox_row r)) w = (Inr stmt, w') \<and> rows w' = rows w
      \<and> (\<forall>v. \<exists>resp v'. cs_execute ops stmt (Some (dict_values (outbox_row r))) v = (Inr resp, v') \<and> rows v' = rows v @ [outbox_row r])"
begin

lemma save_law: "\<exists>w'. CassandraOutboxStore_save ops table r w = (Inr (), w') \<and> rows w' = rows w @ [outbox_row r]"
proof -
  obtain stmt w1 where 1: "cs_prepare ops (insert_cql table (outbox_row r)) w = (Inr stmt, w1)" "rows w1 = rows w"
    "\<forall>v. \<exists>resp v'. cs_execute ops stmt (Some (dict_values (outbox_row r))) v = (Inr resp, v') \<and> rows v' = rows v @ [outbox_row r]"
    using insert_law by blast
  then obtain resp w2 where "cs_execute ops stmt (Some (dict_values (outbox_row r))) w1 = (Inr resp, w2)"
    "rows w2 = rows w @ [outbox_row r]" by metis
  then show ?thesis using 1 by (simp add: CassandraOutboxStore_save_def run_statement_def then_do_def)
qed

lemma pending_law:
  "\<exists>w'. CassandraOutboxStore_get_pending ops table now topic limit w =
      (Inr (take limit (filter (in_bucket [PStr topic, PStr (bucket_hour now), PStr ''PENDING'']) (rows w))
          @ take limit (filter (in_bucket [PStr topic, PStr (bucket_hour (now - 3600000000)), PStr ''PENDING'']) (rows w))), w')
    \<and> rows w' = rows w"
proof -
  let ?ps = "\<lambda>b. [PStr topic, PStr b, PStr ''PENDING'']"
  obtain stmt w1 where 1: "cs_prepare ops (pending_cql table limit) w = (Inr stmt, w1)" "rows w1 = rows w"
    "\<forall>ps v. \<exists>resp v'. cs_execute ops stmt (Some ps) v = (Inr resp, v') \<and> rows v' = rows v
       \<and> items_of resp = take limit (filter (in_bucket ps) (rows v))"
    using select_law by blast
  obtain resp2 w2 where 2: "cs_execute ops stmt (Some (?ps (bucket_hour now))) w1 = (Inr resp2, w2)" "rows w2 = rows w1"
    "items_of resp2 = take limit (filter (in_bucket (?ps (bucket_hour now))) (rows w1))" using 1(3) by blast
  obtain resp3 w3 where 3: "cs_execute ops stmt (Some (?ps (bucket_hour (now - 3600000000)))) w2 = (Inr resp3, w3)"
    "rows w3 = rows w2" "items_of resp3 = take limit (filter (in_bucket (?ps (bucket_hour (now - 3600000000)))) (rows w2))"
    using 1(3) by blast
  show ?thesis
    using 1(1,2) 2 3 by (simp add: CassandraOutboxStore_get_pending_def then_do_def status_text_def)
qed

lemma is_cassandra_service: "cassandra_service ops table rows"
  by unfold_locales

end

text \<open>A reference session on one table: a statement is its text.\<close>

definition outbox_columns :: "string list" where
  "outbox_columns = [''id'', ''aggregate_id'', ''aggregate_type'', ''event_type'', ''topic'', ''payload'', ''headers'', ''status'',
     ''created_at'', ''dispatched_at'', ''retry_count'', ''last_error'', ''bucket_hour'']"

definition limit_of_cql :: "string \<Rightarrow> string \<Rightarrow> nat" where
  "limit_of_cql table cql =
     digits_val (takeWhile is_digit
       (drop (length (''SELECT * FROM '' @ table @ '' WHERE topic = ? AND bucket_hour = ? AND status = ? LIMIT '')) cql))"

definition reference_cassandra :: "string \<Rightarrow> (item list, string) cassandra_ops" where
  "reference_cassandra table =
     \<lparr>cs_prepare = (\<lambda>cql w. (Inr cql, w)),
      cs_execute = (\<lambda>cql ps w.
        if startswith cql ''SELECT''
        then (Inr (Some (take (limit_of_cql table cql) (filter (in_bucket (case ps of None \<Rightarrow> [] | Some p \<Rightarrow> p)) w))), w)
        else if startswith cql ''INSERT'' then (Inr None, w @ [zip outbox_columns (case ps of None \<Rightarrow> [] | Some p \<Rightarrow> p)])
        else (Inr None, w))\<rparr>"

lemma limit_of_pending_cql [simp]: "limit_of_cql table (pending_cql table n) = n"
proof -
  have "takeWhile is_digit (show_nat n @ '' ALLOW FILTERING'') = show_nat n"
    using show_nat_digits[of n] by (subst takeWhile_append2) (auto simp: list_all_iff is_digit_def)
  then show ?thesis by (simp add: limit_of_cql_def pending_cql_def)
qed

lemma outbox_row_columns: "zip outbox_columns (dict_values (outbox_row r)) = outbox_row r"
  by (simp add: outbox_columns_def outbox_row_def dict_values_def)

interpretation reference_cassandra: cassandra_service "reference_cassandra table" table "\<lambda>w. w" for table
  by unfold_locales
     (auto simp: reference_cassandra_def outbox_row_columns items_of_def startswith_def pending_cql_def[symmetric] intro!: exI,
      auto simp: pending_cql_def insert_cql_def)

subsection \<open>Pending records are forgotten\<close>


definition demo_outbox_record :: "microseconds \<Rightarrow> OutboxRecord" where
  "demo_outbox_record created =
     \<lparr>ob_id = ''r1'', ob_aggregate_id = ''a1'', ob_aggregate_type = ''Order'', ob_event_type = ''Placed'', ob_topic = ''orders'',
      ob_payload = ''{}'', ob_headers = [], ob_status = PENDING, ob_created_at = created, ob_dispatched_at = None,
      ob_retry_count = 0, ob_last_error = None\<rparr>"


end
