(* ===== verification/Repositories.thy ===== *)
theory Repositories
  imports Py_Async Pipeline
begin

text \<open>
  Repositories over document stores and sessions: the Elasticsearch and OpenSearch clients with their query builders and
  repositories (\<^verbatim>\<open>adapters/elasticsearch/client.py\<close>, \<^verbatim>\<open>adapters/opensearch/client.py\<close>), the MongoDB repository and unit of
  work (\<^verbatim>\<open>adapters/mongodb\<close>), and the SQLAlchemy repository, unit of work and idempotency store (\<^verbatim>\<open>adapters/sqlalchemy\<close>). The
  clients and sessions are parameters with their documented behaviour in the locales \<open>search_service\<close> and \<open>mongo_collection\<close>.
\<close>

subsection \<open>The query builder\<close>

record SearchQueryBuilder =
  qb_must :: "pyval list"
  qb_should :: "pyval list"
  qb_sort :: "pyval list"
  qb_from :: int
  qb_size :: int

definition ES_init :: SearchQueryBuilder where
  "ES_init = \<lparr>qb_must = [], qb_should = [], qb_sort = [], qb_from = 0, qb_size = 10\<rparr>"

definition ES_must :: "string \<Rightarrow> pyval \<Rightarrow> SearchQueryBuilder \<Rightarrow> SearchQueryBuilder" where
  "ES_must field v q = q\<lparr>qb_must := qb_must q @ [PDict [(''term'', PDict [(field, v)])]]\<rparr>"

definition ES_should :: "string \<Rightarrow> pyval \<Rightarrow> SearchQueryBuilder \<Rightarrow> SearchQueryBuilder" where
  "ES_should field v q = q\<lparr>qb_should := qb_should q @ [PDict [(''term'', PDict [(field, v)])]]\<rparr>"

definition ES_range :: "string \<Rightarrow> pyval \<Rightarrow> pyval \<Rightarrow> SearchQueryBuilder \<Rightarrow> SearchQueryBuilder" where
  "ES_range field gte lte q =
     (let c1 = (if gte \<noteq> PNone then dict_set ''gte'' gte [] else []);
          c2 = (if lte \<noteq> PNone then dict_set ''lte'' lte c1 else c1)
      in q\<lparr>qb_must := qb_must q @ [PDict [(''range'', PDict [(field, PDict c2)])]]\<rparr>)"

definition ES_sort :: "string \<Rightarrow> string \<Rightarrow> SearchQueryBuilder \<Rightarrow> SearchQueryBuilder" where
  "ES_sort field order q = q\<lparr>qb_sort := qb_sort q @ [PDict [(field, PDict [(''order'', PStr order)])]]\<rparr>"

definition ES_paginate :: "int \<Rightarrow> int \<Rightarrow> SearchQueryBuilder \<Rightarrow> SearchQueryBuilder" where
  "ES_paginate page sz q = q\<lparr>qb_from := (page - 1) * sz, qb_size := sz\<rparr>"

definition ES_build :: "SearchQueryBuilder \<Rightarrow> item" where
  "ES_build q =
     (let b1 = (if qb_must q \<noteq> [] then dict_set ''must'' (PList (qb_must q)) [] else []);
          bool_clause = (if qb_should q \<noteq> [] then dict_set ''should'' (PList (qb_should q)) b1 else b1);
          dsl = [(''query'', if bool_clause \<noteq> [] then PDict [(''bool'', PDict bool_clause)] else PDict [(''match_all'', PDict [])]),
                 (''from'', PInt (qb_from q)), (''size'', PInt (qb_size q))]
      in if qb_sort q \<noteq> [] then dict_set ''sort'' (PList (qb_sort q)) dsl else dsl)"

text \<open>OpenSearch has its own copy of the builder.\<close>

definition OS_init :: SearchQueryBuilder where
  "OS_init = \<lparr>qb_must = [], qb_should = [], qb_sort = [], qb_from = 0, qb_size = 10\<rparr>"

definition OS_must :: "string \<Rightarrow> pyval \<Rightarrow> SearchQueryBuilder \<Rightarrow> SearchQueryBuilder" where
  "OS_must field v q = q\<lparr>qb_must := qb_must q @ [PDict [(''term'', PDict [(field, v)])]]\<rparr>"

definition OS_should :: "string \<Rightarrow> pyval \<Rightarrow> SearchQueryBuilder \<Rightarrow> SearchQueryBuilder" where
  "OS_should field v q = q\<lparr>qb_should := qb_should q @ [PDict [(''term'', PDict [(field, v)])]]\<rparr>"

definition OS_range :: "string \<Rightarrow> pyval \<Rightarrow> pyval \<Rightarrow> SearchQueryBuilder \<Rightarrow> SearchQueryBuilder" where
  "OS_range field gte lte q =
     (let c1 = (if gte \<noteq> PNone then dict_set ''gte'' gte [] else []);
          c2 = (if lte \<noteq> PNone then dict_set ''lte'' lte c1 else c1)
      in q\<lparr>qb_must := qb_must q @ [PDict [(''range'', PDict [(field, PDict c2)])]]\<rparr>)"

definition OS_sort :: "string \<Rightarrow> string \<Rightarrow> SearchQueryBuilder \<Rightarrow> SearchQueryBuilder" where
  "OS_sort field order q = q\<lparr>qb_sort := qb_sort q @ [PDict [(field, PDict [(''order'', PStr order)])]]\<rparr>"

definition OS_paginate :: "int \<Rightarrow> int \<Rightarrow> SearchQueryBuilder \<Rightarrow> SearchQueryBuilder" where
  "OS_paginate page sz q = q\<lparr>qb_from := (page - 1) * sz, qb_size := sz\<rparr>"

definition OS_build :: "SearchQueryBuilder \<Rightarrow> item" where
  "OS_build q =
     (let b1 = (if qb_must q \<noteq> [] then dict_set ''must'' (PList (qb_must q)) [] else []);
          bool_clause = (if qb_should q \<noteq> [] then dict_set ''should'' (PList (qb_should q)) b1 else b1);
          dsl = [(''query'', if bool_clause \<noteq> [] then PDict [(''bool'', PDict bool_clause)] else PDict [(''match_all'', PDict [])]),
                 (''from'', PInt (qb_from q)), (''size'', PInt (qb_size q))]
      in if qb_sort q \<noteq> [] then dict_set ''sort'' (PList (qb_sort q)) dsl else dsl)"

datatype query_step =
    Must string pyval
  | Should string pyval
  | Between string pyval pyval
  | Sorted string string
  | PageOf int int

fun ES_apply :: "query_step \<Rightarrow> SearchQueryBuilder \<Rightarrow> SearchQueryBuilder" where
  "ES_apply (Must f v) = ES_must f v"
| "ES_apply (Should f v) = ES_should f v"
| "ES_apply (Between f a b) = ES_range f a b"
| "ES_apply (Sorted f d) = ES_sort f d"
| "ES_apply (PageOf p n) = ES_paginate p n"

fun OS_apply :: "query_step \<Rightarrow> SearchQueryBuilder \<Rightarrow> SearchQueryBuilder" where
  "OS_apply (Must f v) = OS_must f v"
| "OS_apply (Should f v) = OS_should f v"
| "OS_apply (Between f a b) = OS_range f a b"
| "OS_apply (Sorted f d) = OS_sort f d"
| "OS_apply (PageOf p n) = OS_paginate p n"

text \<open>The same chain of calls gives the same query for both engines.\<close>

lemma OS_apply_eq: "OS_apply = ES_apply"
proof
  fix st show "OS_apply st = ES_apply st"
    by (cases st) (simp_all add: fun_eq_iff OS_must_def ES_must_def OS_should_def ES_should_def OS_range_def ES_range_def
        OS_sort_def ES_sort_def OS_paginate_def ES_paginate_def)
qed

lemma opensearch_builder_equal: "OS_build (fold OS_apply steps OS_init) = ES_build (fold ES_apply steps ES_init)"
  by (simp add: OS_apply_eq OS_init_def ES_init_def OS_build_def ES_build_def)

text \<open>The clauses of a chain, in the order of the calls.\<close>

definition must_clauses :: "query_step list \<Rightarrow> pyval list" where
  "must_clauses steps = concat (map (\<lambda>st. qb_must (ES_apply st ES_init)) steps)"

lemma fold_must: "qb_must (fold ES_apply steps q) = qb_must q @ must_clauses steps"
proof (induction steps arbitrary: q)
  case (Cons st steps)
  have "qb_must (ES_apply st q) = qb_must q @ qb_must (ES_apply st ES_init)"
    by (cases st) (simp_all add: ES_must_def ES_should_def ES_range_def ES_sort_def ES_paginate_def ES_init_def Let_def)
  then show ?case using Cons by (simp add: must_clauses_def)
qed (simp add: must_clauses_def)

lemma build_keeps_must:
  "must_clauses steps \<noteq> [] \<Longrightarrow> \<exists>b. map_of (ES_build (fold ES_apply steps ES_init)) ''query'' = Some (PDict [(''bool'', PDict b)])
     \<and> map_of b ''must'' = Some (PList (must_clauses steps))"
  by (auto simp: ES_build_def Let_def fold_must ES_init_def)

text \<open>Consecutive pages are adjacent windows, and a page below one starts before the first hit.\<close>

lemma pages_adjacent: "qb_from (ES_paginate (p + 1) n q) = qb_from (ES_paginate p n q) + qb_size (ES_paginate p n q)"
  by (simp add: ES_paginate_def algebra_simps)

lemma page_zero_negative: "0 < n \<Longrightarrow> p < 1 \<Longrightarrow> qb_from (ES_paginate p n q) < 0"
  by (simp add: ES_paginate_def mult_neg_pos)

subsection \<open>The clients\<close>

record 'w search_ops =
  so_index :: "string \<Rightarrow> string \<Rightarrow> item \<Rightarrow> ('w, unit) act"
  so_get :: "string \<Rightarrow> string \<Rightarrow> ('w, item) act"
  so_delete :: "string \<Rightarrow> string \<Rightarrow> ('w, unit) act"
  so_search :: "string \<Rightarrow> item \<Rightarrow> ('w, item list) act"

definition prefixed_index :: "string \<Rightarrow> string \<Rightarrow> string" where
  "prefixed_index pfx name = (if pfx \<noteq> [] then pfx @ name else name)"

definition not_found_text :: "exn \<Rightarrow> bool" where
  "not_found_text e \<longleftrightarrow> named_like ''NotFoundError'' e \<or> says ''404'' e"

definition ES_index :: "'w search_ops \<Rightarrow> string \<Rightarrow> string \<Rightarrow> string \<Rightarrow> item \<Rightarrow> ('w, unit) act" where
  "ES_index ops pfx index doc_id body = so_index ops (prefixed_index pfx index) doc_id body"

definition ES_get :: "'w search_ops \<Rightarrow> string \<Rightarrow> string \<Rightarrow> string \<Rightarrow> ('w, item option) act" where
  "ES_get ops pfx index doc_id =
     try_except (then_do (so_get ops (prefixed_index pfx index) doc_id) (\<lambda>source. give (Some source)))
       (\<lambda>e. if not_found_text e then give None else throw e)"

text \<open>\<open>not_found\<close> is the class \<^verbatim>\<open>elasticsearch.NotFoundError\<close>, which this method catches by type.\<close>

definition ES_delete :: "exc_class \<Rightarrow> 'w search_ops \<Rightarrow> string \<Rightarrow> string \<Rightarrow> string \<Rightarrow> ('w, unit) act" where
  "ES_delete not_found ops pfx index doc_id w =
     (case so_delete ops (prefixed_index pfx index) doc_id w of
        (Inr _, w') \<Rightarrow> (Inr (), w')
      | (Inl e, w') \<Rightarrow> if isinstance e [not_found] then (Inr (), w') else (Inl e, w'))"

definition ES_search :: "'w search_ops \<Rightarrow> string \<Rightarrow> string \<Rightarrow> item \<Rightarrow> ('w, item list) act" where
  "ES_search ops pfx index dsl = so_search ops (prefixed_index pfx index) dsl"

definition OS_get :: "'w search_ops \<Rightarrow> string \<Rightarrow> string \<Rightarrow> string \<Rightarrow> ('w, item option) act" where
  "OS_get ops pfx index doc_id =
     try_except (then_do (so_get ops (prefixed_index pfx index) doc_id) (\<lambda>source. give (Some source)))
       (\<lambda>e. if named_like ''NotFoundError'' e \<or> says ''404'' e then give None else throw e)"

definition OS_delete :: "'w search_ops \<Rightarrow> string \<Rightarrow> string \<Rightarrow> string \<Rightarrow> ('w, unit) act" where
  "OS_delete ops pfx index doc_id =
     try_except (so_delete ops (prefixed_index pfx index) doc_id)
       (\<lambda>e. if named_like ''NotFoundError'' e \<or> says ''404'' e \<or> says ''NotFoundError'' e then give () else throw e)"

record 'a SearchRepository =
  sr_index :: string
  sr_model :: "item \<Rightarrow> exn + 'a"

definition ES_find_by_id :: "'w search_ops \<Rightarrow> string \<Rightarrow> 'a SearchRepository \<Rightarrow> string \<Rightarrow> ('w, 'a option) act" where
  "ES_find_by_id ops pfx repo doc_id =
     then_do (ES_get ops pfx (sr_index repo) doc_id)
       (\<lambda>raw. case raw of None \<Rightarrow> give None | Some d \<Rightarrow> outcome (map_sum id Some (sr_model repo d)))"

text \<open>\<open>str_of\<close> is \<^verbatim>\<open>str\<close>.\<close>

definition ES_save :: "(pyval \<Rightarrow> string) \<Rightarrow> 'w search_ops \<Rightarrow> string \<Rightarrow> 'a SearchRepository \<Rightarrow> py_object \<Rightarrow> ('w, unit) act" where
  "ES_save str_of ops pfx repo doc =
     then_do (outcome (obj_to_dict doc))
       (\<lambda>body. case map_of body ''id'' of
          None \<Rightarrow> throw (plain_exn KeyError (quoted ''id''))
        | Some i \<Rightarrow> ES_index ops pfx (sr_index repo) (str_of i) (dict_pop ''id'' body))"

definition ES_repo_search :: "'w search_ops \<Rightarrow> string \<Rightarrow> 'a SearchRepository \<Rightarrow> item \<Rightarrow> ('w, 'a list) act" where
  "ES_repo_search ops pfx repo dsl =
     then_do (ES_search ops pfx (sr_index repo) dsl) (\<lambda>raws. outcome (build_all (sr_model repo) raws))"

text \<open>A prefix separates environments only if it cannot be continued by an index name.\<close>

lemma prefixed_index_collision: "prefixed_index ''prod-eu-'' ''orders'' = prefixed_index ''prod-'' ''eu-orders''"
  by (simp add: prefixed_index_def)

locale search_service =
  fixes ops :: "'w search_ops" and docs :: "'w \<Rightarrow> string \<Rightarrow> string \<rightharpoonup> item"
  assumes index_law: "\<exists>w'. so_index ops x i d w = (Inr (), w') \<and> docs w' = (docs w)(x := (docs w x)(i \<mapsto> d))"
    and get_hit: "docs w x i = Some d \<Longrightarrow> \<exists>w'. so_get ops x i w = (Inr d, w') \<and> docs w' = docs w"
    and get_miss: "docs w x i = None \<Longrightarrow> \<exists>e w'. so_get ops x i w = (Inl e, w') \<and> catchable e \<and> not_found_text e \<and> docs w' = docs w"
    and delete_law: "\<exists>r w'. so_delete ops x i w = (r, w') \<and> docs w' = (docs w)(x := (docs w x)(i := None))
      \<and> (\<forall>e. r = Inl e \<longrightarrow> docs w x i = None \<and> catchable e \<and> not_found_text e)"
begin

lemma client_get: "\<exists>w'. ES_get ops pfx index i w = (Inr (docs w (prefixed_index pfx index) i), w') \<and> docs w' = docs w"
proof (cases "docs w (prefixed_index pfx index) i")
  case None
  then show ?thesis using get_miss[OF None] by (auto simp: ES_get_def try_except_def then_do_def)
next
  case (Some d)
  then show ?thesis using get_hit[OF Some] by (auto simp: ES_get_def try_except_def then_do_def)
qed

lemma opensearch_delete:
  "\<exists>w'. OS_delete ops pfx index i w = (Inr (), w')
    \<and> docs w' = (docs w)(prefixed_index pfx index := (docs w (prefixed_index pfx index))(i := None))"
proof -
  obtain r w' where "so_delete ops (prefixed_index pfx index) i w = (r, w')"
    "docs w' = (docs w)(prefixed_index pfx index := (docs w (prefixed_index pfx index))(i := None))"
    "\<forall>e. r = Inl e \<longrightarrow> catchable e \<and> not_found_text e" using delete_law by blast
  then show ?thesis by (cases r) (auto simp: OS_delete_def try_except_def not_found_text_def)
qed

lemma find_after_save:
  assumes "obj_to_dict doc = Inr body" "map_of body ''id'' = Some i"
    and "ES_save str_of ops pfx repo doc w = (r, w1)"
  shows "r = Inr () \<and> fst (ES_find_by_id ops pfx repo (str_of i) w1) = map_sum id Some (sr_model repo (dict_pop ''id'' body))"
proof -
  obtain v where v: "so_index ops (prefixed_index pfx (sr_index repo)) (str_of i) (dict_pop ''id'' body) w = (Inr (), v)"
    "docs v (prefixed_index pfx (sr_index repo)) (str_of i) = Some (dict_pop ''id'' body)"
    using index_law[of "prefixed_index pfx (sr_index repo)" "str_of i" "dict_pop ''id'' body" w] by auto
  have saved: "r = Inr ()" "w1 = v" using assms v(1) by (auto simp: ES_save_def then_do_def ES_index_def)
  obtain v' where "ES_get ops pfx (sr_index repo) (str_of i) v = (Inr (Some (dict_pop ''id'' body)), v')"
    using client_get[of pfx "sr_index repo" "str_of i" v] v(2) by auto
  then show ?thesis using saved by (simp add: ES_find_by_id_def then_do_def)
qed

lemma is_search_service: "search_service ops docs"
  by unfold_locales

end

type_synonym index_world = "(string \<times> string, item) pydict"

definition no_document :: exn where
  "no_document = plain_exn (UserError ''NotFoundError'' Exception) ''404''"

definition reference_search :: "index_world search_ops" where
  "reference_search =
     \<lparr>so_index = (\<lambda>x i d w. (Inr (), dict_set (x, i) d w)),
      so_get = (\<lambda>x i w. (case map_of w (x, i) of None \<Rightarrow> Inl no_document | Some d \<Rightarrow> Inr d, w)),
      so_delete = (\<lambda>x i w. case map_of w (x, i) of None \<Rightarrow> (Inl no_document, w) | Some _ \<Rightarrow> (Inr (), dict_pop (x, i) w)),
      so_search = (\<lambda>x dsl w. (Inr (map snd (filter (\<lambda>kv. fst (fst kv) = x) w)), w))\<rparr>"

lemma no_document_ok: "catchable no_document" "not_found_text no_document"
  by (simp add: no_document_def, code_simp)

interpretation reference_search: search_service reference_search "\<lambda>w x i. map_of w (x, i)"
  by unfold_locales (auto simp: reference_search_def no_document_ok fun_eq_iff split: option.split)

subsection \<open>The round trip of a document\<close>

text \<open>The constructor of a dataclass or model with the given fields: an unknown or a missing one is a \<^verbatim>\<open>TypeError\<close>.\<close>

definition dataclass_model :: "string list \<Rightarrow> item \<Rightarrow> exn + item" where
  "dataclass_model flds kwargs =
     (if \<exists>k \<in> set (dict_keys kwargs). k \<notin> set flds then Inl (plain_exn TypeError ''got an unexpected keyword argument'')
      else if \<exists>f \<in> set flds. f \<notin> set (dict_keys kwargs) then Inl (plain_exn TypeError ''missing required argument'')
      else Inr kwargs)"

text \<open>Whatever document an Elasticsearch or OpenSearch repository saves, looking it up afterwards hands the constructor the body
  without \<^verbatim>\<open>id\<close>: for a model whose \<^verbatim>\<open>id\<close> is a required field the lookup of a saved document always fails with a
  \<^verbatim>\<open>TypeError\<close>.\<close>

theorem search_round_trip_loses_id:
  assumes "search_service ops docs" "obj_to_dict doc = Inr body" "map_of body ''id'' = Some i"
    and "ES_save str_of ops pfx repo doc w = (r, w1)"
  shows "r = Inr () \<and> fst (ES_find_by_id ops pfx repo (str_of i) w1) = map_sum id Some (sr_model repo (dict_pop ''id'' body))
    \<and> (sr_model repo = dataclass_model flds \<and> ''id'' \<in> set flds
         \<longrightarrow> (\<exists>e. fst (ES_find_by_id ops pfx repo (str_of i) w1) = Inl e \<and> exn_class e = TypeError))"
proof -
  note found = search_service.find_after_save[OF assms]
  have "''id'' \<notin> set (dict_keys (dict_pop ''id'' body))" by (simp add: dict_keys_def)
  then have "\<exists>e. dataclass_model flds (dict_pop ''id'' body) = Inl e \<and> exn_class e = TypeError" if "''id'' \<in> set flds"
    using that by (auto simp: dataclass_model_def)
  then show ?thesis using found by auto
qed

definition demo_doc :: py_object where
  "demo_doc = \<lparr>obj_model_dump = None, obj_asdict = Some [(''id'', PStr ''p1''), (''name'', PStr ''Pen'')], obj_vars = None\<rparr>"

definition demo_doc_repo :: "item SearchRepository" where
  "demo_doc_repo = \<lparr>sr_index = ''products'', sr_model = dataclass_model [''id'', ''name'']\<rparr>"

definition text_of :: "pyval \<Rightarrow> string" where
  "text_of v = (case v of PStr s \<Rightarrow> s | _ \<Rightarrow> [])"

theorem search_round_trip_loses_id_witness:
  "\<exists>e. fst (ES_find_by_id reference_search [] demo_doc_repo ''p1'' (snd (ES_save text_of reference_search [] demo_doc_repo demo_doc [])))
     = Inl e \<and> exn_class e = TypeError"
proof -
  obtain r w1 where s: "ES_save text_of reference_search [] demo_doc_repo demo_doc [] = (r, w1)" by fastforce
  have d: "obj_to_dict demo_doc = Inr [(''id'', PStr ''p1''), (''name'', PStr ''Pen'')]"
    "map_of [(''id'', PStr ''p1''), (''name'', PStr ''Pen'')] ''id'' = Some (PStr ''p1'')"
    by (simp_all add: demo_doc_def obj_to_dict_def)
  have m: "sr_model demo_doc_repo = dataclass_model [''id'', ''name'']" "text_of (PStr ''p1'') = ''p1''"
    by (simp_all add: demo_doc_repo_def text_of_def)
  have "\<exists>e. fst (ES_find_by_id reference_search [] demo_doc_repo ''p1'' w1) = Inl e \<and> exn_class e = TypeError"
    using search_round_trip_loses_id[OF reference_search.is_search_service d s, of "[''id'', ''name'']", THEN conjunct2,
        THEN conjunct2] m by simp
  then show ?thesis using s by simp
qed

subsection \<open>The MongoDB repository\<close>

record 'w mongo_ops =
  mo_find_one :: "item \<Rightarrow> ('w, item option) act"
  mo_replace_one :: "item \<Rightarrow> item \<Rightarrow> ('w, unit) act"
  mo_delete_one :: "item \<Rightarrow> ('w, unit) act"
  mo_find :: "item \<Rightarrow> ('w, item list) act"

text \<open>The hooks a subclass writes. A specification may offer a filter of the server next to its own test.\<close>

record 'a MongoRepository =
  mr_class_name :: string
  mr_to_document :: "'a \<Rightarrow> item"
  mr_from_document :: "item \<Rightarrow> exn + 'a"

record 'a mongo_spec =
  ms_is_satisfied_by :: "'a \<Rightarrow> bool"
  ms_to_mongo_filter :: "item option"

definition Mongo_get :: "'w mongo_ops \<Rightarrow> 'a MongoRepository \<Rightarrow> string \<Rightarrow> ('w, 'a option) act" where
  "Mongo_get ops repo i =
     then_do (mo_find_one ops [(''_id'', PStr i)])
       (\<lambda>doc. case doc of None \<Rightarrow> give None | Some d \<Rightarrow> outcome (map_sum id Some (mr_from_document repo d)))"

definition Mongo_get_or_raise :: "'w mongo_ops \<Rightarrow> 'a MongoRepository \<Rightarrow> string \<Rightarrow> ('w, 'a) act" where
  "Mongo_get_or_raise ops repo i =
     then_do (Mongo_get ops repo i)
       (\<lambda>obj. case obj of None \<Rightarrow> throw (NotFoundError_init (mr_class_name repo) (Some i)) | Some x \<Rightarrow> give x)"

definition Mongo_save :: "'w mongo_ops \<Rightarrow> 'a MongoRepository \<Rightarrow> 'a \<Rightarrow> ('w, unit) act" where
  "Mongo_save ops repo agg =
     (let doc = mr_to_document repo agg
      in case map_of doc ''_id'' of
           None \<Rightarrow> throw (plain_exn KeyError (quoted ''_id''))
         | Some i \<Rightarrow> mo_replace_one ops [(''_id'', i)] doc)"

definition Mongo_delete :: "'w mongo_ops \<Rightarrow> string \<Rightarrow> ('w, unit) act" where
  "Mongo_delete ops i = mo_delete_one ops [(''_id'', PStr i)]"

definition Mongo_find_all :: "'w mongo_ops \<Rightarrow> 'a MongoRepository \<Rightarrow> ('w, 'a list) act" where
  "Mongo_find_all ops repo = then_do (mo_find ops []) (\<lambda>docs. outcome (build_all (mr_from_document repo) docs))"

definition Mongo_find_by :: "'w mongo_ops \<Rightarrow> 'a MongoRepository \<Rightarrow> 'a mongo_spec \<Rightarrow> ('w, 'a list) act" where
  "Mongo_find_by ops repo spec =
     (case ms_to_mongo_filter spec of
        Some f \<Rightarrow> then_do (mo_find ops f) (\<lambda>docs. outcome (build_all (mr_from_document repo) docs))
      | None \<Rightarrow> then_do (Mongo_find_all ops repo) (\<lambda>aggs. give (filter (ms_is_satisfied_by spec) aggs)))"

subsection \<open>The SQLAlchemy repository\<close>

record ('w, 'a) sql_session =
  sa_get :: "string \<Rightarrow> ('w, 'a option) act"
  sa_add :: "'a \<Rightarrow> ('w, unit) act"
  sa_delete :: "'a \<Rightarrow> ('w, unit) act"
  sa_select_all :: "('w, 'a list) act"

definition Sql_get_or_raise :: "('w, 'a) sql_session \<Rightarrow> string \<Rightarrow> string \<Rightarrow> ('w, 'a) act" where
  "Sql_get_or_raise s model_name i =
     then_do (sa_get s i) (\<lambda>obj. case obj of None \<Rightarrow> throw (NotFoundError_init model_name (Some i)) | Some x \<Rightarrow> give x)"

definition Sql_delete :: "('w, 'a) sql_session \<Rightarrow> string \<Rightarrow> string \<Rightarrow> ('w, unit) act" where
  "Sql_delete s model_name i = then_do (Sql_get_or_raise s model_name i) (sa_delete s)"

definition Sql_find_by :: "('w, 'a) sql_session \<Rightarrow> ('a \<Rightarrow> bool) \<Rightarrow> ('w, 'a list) act" where
  "Sql_find_by s satisfied = then_do (sa_select_all s) (\<lambda>items. give (filter satisfied items))"

subsection \<open>The contract of a repository\<close>

text \<open>\<open>stored\<close> maps identifiers to aggregates. Reading gives what was saved last; deleting an absent identifier differs between the
  two repositories and is not part of it.\<close>

locale repository =
  fixes get_agg :: "string \<Rightarrow> ('w, 'a option) act" and save :: "'a \<Rightarrow> ('w, unit) act" and delete :: "string \<Rightarrow> ('w, unit) act"
    and identity :: "'a \<Rightarrow> string" and stored :: "'w \<Rightarrow> string \<rightharpoonup> 'a"
  assumes get_law: "\<exists>w'. get_agg i w = (Inr (stored w i), w') \<and> stored w' = stored w"
    and save_law: "\<exists>w'. save a w = (Inr (), w') \<and> stored w' = (stored w)(identity a \<mapsto> a)"
    and delete_law: "stored w i \<noteq> None \<Longrightarrow> \<exists>w'. delete i w = (Inr (), w') \<and> stored w' = (stored w)(i := None)"
begin

lemma get_after_save:
  assumes "save a w = (r, w1)"
  shows "fst (get_agg i w1) = Inr (if i = identity a then Some a else stored w i)"
  using save_law[of a w] get_law[of i w1] assms by auto

lemma get_after_delete:
  assumes "stored w i \<noteq> None" "delete i w = (r, w1)"
  shows "r = Inr () \<and> fst (get_agg i w1) = Inr None"
  using delete_law[OF assms(1)] get_law[of i w1] assms(2) by auto

end

text \<open>A collection whose documents are the images of aggregates; \<open>matches\<close> is the server's evaluation of a filter.\<close>

locale mongo_collection =
  fixes ops :: "'w mongo_ops" and repo :: "'a MongoRepository" and identity :: "'a \<Rightarrow> string" and stored :: "'w \<Rightarrow> (string, 'a) pydict"
    and matches :: "item \<Rightarrow> item \<Rightarrow> bool"
  assumes hooks: "mr_from_document repo (mr_to_document repo a) = Inr a"
      "map_of (mr_to_document repo a) ''_id'' = Some (PStr (identity a))"
    and find_one_law: "\<exists>w'. mo_find_one ops [(''_id'', PStr i)] w = (Inr (map_option (mr_to_document repo) (map_of (stored w) i)), w')
      \<and> stored w' = stored w"
    and replace_law: "\<exists>w'. mo_replace_one ops [(''_id'', PStr (identity a))] (mr_to_document repo a) w = (Inr (), w')
      \<and> stored w' = dict_set (identity a) a (stored w)"
    and delete_one_law: "\<exists>w'. mo_delete_one ops [(''_id'', PStr i)] w = (Inr (), w') \<and> stored w' = dict_pop i (stored w)"
    and find_law: "\<exists>w'. mo_find ops f w = (Inr (filter (matches f) (map (mr_to_document repo) (dict_values (stored w)))), w')
      \<and> stored w' = stored w"
    and match_all: "matches [] d"

sublocale mongo_collection \<subseteq> repository "Mongo_get ops repo" "Mongo_save ops repo" "Mongo_delete ops" identity
  "\<lambda>w. map_of (stored w)"
proof unfold_locales
  fix i w
  show "\<exists>w'. Mongo_get ops repo i w = (Inr (map_of (stored w) i), w') \<and> map_of (stored w') = map_of (stored w)"
    using find_one_law[of i w] by (auto simp: Mongo_get_def then_do_def hooks split: option.split)
next
  fix a w
  show "\<exists>w'. Mongo_save ops repo a w = (Inr (), w') \<and> map_of (stored w') = (map_of (stored w))(identity a \<mapsto> a)"
    using replace_law[of a w] by (auto simp: Mongo_save_def hooks Let_def fun_eq_iff)
next
  fix i w
  show "\<exists>w'. Mongo_delete ops i w = (Inr (), w') \<and> map_of (stored w') = (map_of (stored w))(i := None)"
    using delete_one_law[of i w] by (auto simp: Mongo_delete_def fun_eq_iff)
qed

context mongo_collection
begin

lemma build_stored: "build_all (mr_from_document repo) (map (mr_to_document repo) as) = Inr as"
  by (induction "as") (simp_all add: hooks)

lemma find_filtered:
  assumes "\<And>a. matches f (mr_to_document repo a) \<longleftrightarrow> p a"
  shows "\<exists>w'. then_do (mo_find ops f) (\<lambda>docs. outcome (build_all (mr_from_document repo) docs)) w
    = (Inr (filter p (dict_values (stored w))), w')"
proof -
  have "filter (matches f) (map (mr_to_document repo) as) = map (mr_to_document repo) (filter p as)" for as
    by (induction "as") (auto simp: assms)
  then show ?thesis using find_law[of f w] by (auto simp: then_do_def build_stored)
qed

text \<open>A filter pushed down to the server finds what the specification finds in memory.\<close>

lemma pushdown_agrees:
  assumes "\<And>a. matches f (mr_to_document repo a) \<longleftrightarrow> p a"
  shows "fst (Mongo_find_by ops repo \<lparr>ms_is_satisfied_by = p, ms_to_mongo_filter = Some f\<rparr> w)
    = fst (Mongo_find_by ops repo \<lparr>ms_is_satisfied_by = p, ms_to_mongo_filter = None\<rparr> w)"
proof -
  obtain w1 where "Mongo_find_all ops repo w = (Inr (dict_values (stored w)), w1)"
    using find_filtered[of "[]" "\<lambda>_. True" w] match_all by (auto simp: Mongo_find_all_def)
  then show ?thesis using find_filtered[of f p w] assms by (auto simp: Mongo_find_by_def then_do_def)
qed

end

text \<open>A reference collection of documents keyed by their identifier, for filters on single attributes.\<close>

definition attr_matches :: "item \<Rightarrow> item \<Rightarrow> bool" where
  "attr_matches f d \<longleftrightarrow> list_all (\<lambda>kv. map_of d (fst kv) = Some (snd kv)) f"

definition reference_mongo :: "('a \<Rightarrow> item) \<Rightarrow> (item \<Rightarrow> exn + 'a) \<Rightarrow> ((string, 'a) pydict) mongo_ops" where
  "reference_mongo enc dec =
     \<lparr>mo_find_one = (\<lambda>f w. case map_of f ''_id'' of
                        Some (PStr i) \<Rightarrow> (Inr (map_option enc (map_of w i)), w) | _ \<Rightarrow> (Inr None, w)),
      mo_replace_one = (\<lambda>f d w. case (map_of f ''_id'', dec d) of
                        (Some (PStr i), Inr a) \<Rightarrow> (Inr (), dict_set i a w) | _ \<Rightarrow> (Inr (), w)),
      mo_delete_one = (\<lambda>f w. case map_of f ''_id'' of Some (PStr i) \<Rightarrow> (Inr (), dict_pop i w) | _ \<Rightarrow> (Inr (), w)),
      mo_find = (\<lambda>f w. (Inr (filter (attr_matches f) (map enc (dict_values w))), w))\<rparr>"

definition product_repo :: "(string \<times> int) MongoRepository" where
  "product_repo =
     \<lparr>mr_class_name = ''ProductRepository'', mr_to_document = (\<lambda>(i, price). [(''_id'', PStr i), (''price'', PInt price)]),
      mr_from_document = (\<lambda>d. case (map_of d ''_id'', map_of d ''price'') of
        (Some (PStr i), Some (PInt p)) \<Rightarrow> Inr (i, p) | _ \<Rightarrow> Inl (plain_exn KeyError (quoted ''price'')))\<rparr>"

interpretation products: mongo_collection
  "reference_mongo (mr_to_document product_repo) (mr_from_document product_repo)" product_repo fst "\<lambda>w. w" attr_matches
  by unfold_locales (auto simp: product_repo_def reference_mongo_def attr_matches_def split_def)

text \<open>Deleting what is not there: silent in MongoDB, an error with SQLAlchemy.\<close>

lemma delete_absent_differs:
  assumes "mongo_collection ops repo identity stored matches" "map_of (stored w) i = None"
    and "sa_get s i v = (Inr None, v')"
  shows "fst (Mongo_delete ops i w) = Inr () \<and> fst (Sql_delete s name i v) = Inl (NotFoundError_init name (Some i))"
proof -
  obtain w' where "mo_delete_one ops [(''_id'', PStr i)] w = (Inr (), w')"
    using mongo_collection.delete_one_law[OF assms(1)] by blast
  then show ?thesis using assms(3) by (simp add: Mongo_delete_def Sql_delete_def Sql_get_or_raise_def then_do_def)
qed

subsection \<open>Units of work\<close>

record 'w session_ops =
  uw_start :: "('w, unit) act"
  uw_commit :: "('w, unit) act"
  uw_rollback :: "('w, unit) act"
  uw_close :: "('w, unit) act"

text \<open>\<^verbatim>\<open>try ... finally\<close>: the session is closed whatever committing or rolling back does.\<close>

definition Mongo_aexit :: "'w session_ops \<Rightarrow> bool \<Rightarrow> ('w, unit) act" where
  "Mongo_aexit s failed w =
     (case (if failed then uw_rollback s else uw_commit s) w of
        (r, w1) \<Rightarrow> (case uw_close s w1 of (Inl e, w2) \<Rightarrow> (Inl e, w2) | (Inr _, w2) \<Rightarrow> (r, w2)))"

definition Sql_aexit :: "'w session_ops \<Rightarrow> bool \<Rightarrow> ('w, unit) act" where
  "Sql_aexit s failed = then_do (if failed then uw_rollback s else uw_commit s) (\<lambda>_. uw_close s)"

definition in_mongo_uow :: "'w session_ops \<Rightarrow> ('w, 'a) act \<Rightarrow> ('w, 'a) act" where
  "in_mongo_uow s body = then_do (uw_start s) (\<lambda>_. with_uow (Mongo_aexit s False) (Mongo_aexit s True) body)"

definition in_sql_uow :: "'w session_ops \<Rightarrow> ('w, 'a) act \<Rightarrow> ('w, 'a) act" where
  "in_sql_uow s body = then_do (uw_start s) (\<lambda>_. with_uow (Sql_aexit s False) (Sql_aexit s True) body)"

text \<open>Sessions over a store with a working copy, which commit or fail to, and note whether they are open.\<close>

record 's session_world =
  sw_committed :: 's
  sw_working :: 's
  sw_open :: bool
  sw_commit_error :: "exn option"

definition store_session :: "'s session_world session_ops" where
  "store_session =
     \<lparr>uw_start = (\<lambda>w. (Inr (), w\<lparr>sw_open := True, sw_working := sw_committed w\<rparr>)),
      uw_commit = (\<lambda>w. case sw_commit_error w of
                      None \<Rightarrow> (Inr (), w\<lparr>sw_committed := sw_working w\<rparr>) | Some e \<Rightarrow> (Inl e, w)),
      uw_rollback = (\<lambda>w. (Inr (), w\<lparr>sw_working := sw_committed w\<rparr>)),
      uw_close = (\<lambda>w. (Inr (), w\<lparr>sw_open := False\<rparr>))\<rparr>"

definition on_working :: "('s, 'a) act \<Rightarrow> ('s session_world, 'a) act" where
  "on_working body w = (case body (sw_working w) of (r, s) \<Rightarrow> (r, w\<lparr>sw_working := s\<rparr>))"

lemmas session_defs = store_session_def on_working_def with_uow_def Mongo_aexit_def Sql_aexit_def in_mongo_uow_def in_sql_uow_def
  then_do_def

text \<open>Both units of work publish the body's effect exactly when the body and the commit succeed. The MongoDB one always ends its
  session; the SQLAlchemy one leaves it open when the commit raises.\<close>

lemma uow_sessions:
  assumes "body (sw_committed w) = (r, s)"
  shows "sw_committed (snd (in_mongo_uow store_session (on_working body) w))
      = (if (\<exists>x. r = Inr x) \<and> sw_commit_error w = None then s else sw_committed w)
    \<and> sw_committed (snd (in_sql_uow store_session (on_working body) w))
      = (if (\<exists>x. r = Inr x) \<and> sw_commit_error w = None then s else sw_committed w)
    \<and> \<not> sw_open (snd (in_mongo_uow store_session (on_working body) w))
    \<and> (sw_open (snd (in_sql_uow store_session (on_working body) w)) \<longleftrightarrow> (\<exists>x. r = Inr x) \<and> sw_commit_error w \<noteq> None)
    \<and> fst (in_mongo_uow store_session (on_working body) w) = fst (in_sql_uow store_session (on_working body) w)"
  using assms by (cases r) (simp_all add: session_defs split: option.split)

subsection \<open>The SQLAlchemy idempotency store\<close>

record 'w sql_idem =
  sq_get :: "string \<Rightarrow> ('w, IdempotencyRecord option) act"
  sq_add :: "string \<Rightarrow> string option \<Rightarrow> string \<Rightarrow> ('w, unit) act"
  sq_update :: "string \<Rightarrow> string \<Rightarrow> string \<Rightarrow> ('w, unit) act"

definition idem_unconfigured :: exn where
  "idem_unconfigured = plain_exn RuntimeError ''IdempotencyModel not configured''"

text \<open>\<open>configured\<close> tells whether the store was given a model class.\<close>

definition SqlIdempotencyStore_get :: "'w sql_idem \<Rightarrow> bool \<Rightarrow> IdempotencyKey \<Rightarrow> ('w, IdempotencyRecord option) act" where
  "SqlIdempotencyStore_get s configured key = (if \<not> configured then give None else sq_get s (IdempotencyKey_str key))"

definition SqlIdempotencyStore_save :: "'w sql_idem \<Rightarrow> bool \<Rightarrow> IdempotencyKey \<Rightarrow> IdempotencyRecord \<Rightarrow> ('w, unit) act" where
  "SqlIdempotencyStore_save s configured key r =
     (if \<not> configured then throw idem_unconfigured
      else sq_add s (IdempotencyKey_str key) (ir_response r) (ir_status r))"

definition SqlIdempotencyStore_complete :: "'w sql_idem \<Rightarrow> bool \<Rightarrow> IdempotencyKey \<Rightarrow> string \<Rightarrow> ('w, unit) act" where
  "SqlIdempotencyStore_complete s configured key response =
     (if \<not> configured then throw idem_unconfigured else sq_update s (IdempotencyKey_str key) response ''COMPLETED'')"

text \<open>Without a model every key counts as new, and the first save fails.\<close>

lemma unconfigured_store_never_deduplicates:
  "fst (SqlIdempotencyStore_get s False key w) = Inr None \<and> fst (SqlIdempotencyStore_save s False key r w) = Inl idem_unconfigured"
  by (simp add: SqlIdempotencyStore_get_def SqlIdempotencyStore_save_def)

end
