(* ===== verification/Message_Brokers.thy ===== *)
theory Message_Brokers
  imports Py_Async Retry Outbox
begin

text \<open>
  The adapters of message brokers and task queues: Kafka (\<^verbatim>\<open>adapters/kafka\<close>), RabbitMQ, NATS, Pulsar, Azure Service Bus,
  Google Pub/Sub, SQS and Celery (\<^verbatim>\<open>adapters/...\<close>). The clients are parameters; a producer's own state (started, connected,
  cached producers) is passed along. Pulling from a broker is an asynchronous generator: the model says how many times its
  consumer asks for the next message.
\<close>

subsection \<open>Messages on a bus\<close>

text \<open>A payload is bytes or a JSON value; \<open>dumps\<close> is \<^verbatim>\<open>json.dumps(value, default=str)\<close> for JSON values. Bytes are not JSON, so
  \<^verbatim>\<open>default=str\<close> turns them into the text of their literal.\<close>

datatype payload = Bytes string | Json pyval

record BusMessage =
  bm_id :: string
  bm_topic :: string
  bm_payload :: payload
  bm_correlation_id :: "string option"
  bm_extra :: "(string, string) pydict"

definition repr_byte :: "char \<Rightarrow> char \<Rightarrow> string" where
  "repr_byte q c =
     (if ord_of c < 128 then repr_char q c
      else [char_of (92::nat), CHR ''x'', hex_digit (ord_of c div 16), hex_digit (ord_of c mod 16)])"

definition bytes_repr :: "string \<Rightarrow> string" where
  "bytes_repr b =
     (let q = (if char_of (39::nat) \<in> set b \<and> char_of (34::nat) \<notin> set b then char_of (34::nat) else char_of (39::nat))
      in CHR ''b'' # q # concat (map (repr_byte q) b) @ [q])"

definition json_default_str :: "(pyval \<Rightarrow> string) \<Rightarrow> payload \<Rightarrow> string" where
  "json_default_str dumps p = (case p of Json v \<Rightarrow> dumps v | Bytes b \<Rightarrow> dumps (PStr (bytes_repr b)))"

text \<open>The messages of the outbox relay carry bytes.\<close>

definition bus_message :: "Message \<Rightarrow> BusMessage" where
  "bus_message m =
     \<lparr>bm_id = ms_id m, bm_topic = ms_topic m, bm_payload = Bytes (ms_payload m),
      bm_correlation_id = mh_correlation_id (ms_headers m), bm_extra = mh_extra (ms_headers m)\<rparr>"

subsection \<open>Kafka\<close>

definition KafkaMessageSerializer_serialize :: "(pyval \<Rightarrow> string) \<Rightarrow> payload \<Rightarrow> string" where
  "KafkaMessageSerializer_serialize dumps p = (case p of Bytes b \<Rightarrow> b | Json v \<Rightarrow> dumps v)"

text \<open>\<open>validate\<close> is the target type's \<^verbatim>\<open>model_validate\<close>, if it has one.\<close>

definition KafkaMessageSerializer_deserialize ::
    "(string \<Rightarrow> exn + pyval) \<Rightarrow> (pyval \<Rightarrow> exn + pyval) option \<Rightarrow> string \<Rightarrow> exn + pyval" where
  "KafkaMessageSerializer_deserialize loads validate data =
     (case loads data of Inl e \<Rightarrow> Inl e | Inr v \<Rightarrow> (case validate of None \<Rightarrow> Inr v | Some f \<Rightarrow> f v))"

record 'w kafka_ops =
  ka_start :: "('w, unit) act"
  ka_stop :: "('w, unit) act"
  ka_send :: "string \<Rightarrow> string \<Rightarrow> (string \<times> string) list \<Rightarrow> string \<Rightarrow> ('w, unit) act"

text \<open>The state is the flag \<^verbatim>\<open>_started\<close>, next to the world.\<close>

definition KafkaProducer_start :: "'w kafka_ops \<Rightarrow> (bool \<times> 'w, unit) act" where
  "KafkaProducer_start ops sw =
     (case ka_start ops (snd sw) of (Inl e, w') \<Rightarrow> (Inl e, fst sw, w') | (Inr _, w') \<Rightarrow> (Inr (), True, w'))"

definition KafkaProducer_stop :: "'w kafka_ops \<Rightarrow> (bool \<times> 'w, unit) act" where
  "KafkaProducer_stop ops sw =
     (case ka_stop ops (snd sw) of (Inl e, w') \<Rightarrow> (Inl e, fst sw, w') | (Inr _, w') \<Rightarrow> (Inr (), False, w'))"

definition kafka_headers :: "BusMessage \<Rightarrow> (string \<times> string) list" where
  "kafka_headers m =
     bm_extra m @ (case bm_correlation_id m of None \<Rightarrow> [] | Some c \<Rightarrow> if c = [] then [] else [(''correlation-id'', c)])"

definition KafkaProducer_publish :: "(pyval \<Rightarrow> string) \<Rightarrow> 'w kafka_ops \<Rightarrow> BusMessage \<Rightarrow> (bool \<times> 'w, unit) act" where
  "KafkaProducer_publish dumps ops m =
     then_do (\<lambda>sw. if fst sw then (Inr (), sw) else KafkaProducer_start ops sw)
       (\<lambda>_ sw. case ka_send ops (bm_topic m) (KafkaMessageSerializer_serialize dumps (bm_payload m)) (kafka_headers m) (bm_id m) (snd sw) of
                 (r, w') \<Rightarrow> (r, fst sw, w'))"

definition KafkaProducer_publish_batch :: "(pyval \<Rightarrow> string) \<Rightarrow> 'w kafka_ops \<Rightarrow> BusMessage list \<Rightarrow> (bool \<times> 'w, unit) act" where
  "KafkaProducer_publish_batch dumps ops ms = for_each (KafkaProducer_publish dumps ops) ms"

subsection \<open>RabbitMQ and NATS\<close>

record 'w amqp_ops =
  am_connect :: "string \<Rightarrow> ('w, unit) act"
  am_channel :: "('w, unit) act"
  am_close :: "('w, unit) act"
  am_publish :: "string \<Rightarrow> (string \<times> string) list \<Rightarrow> string \<Rightarrow> ('w, unit) act"

record RabbitMQMessageBus =
  rb_url :: string
  rb_retry :: "RetryPolicy option"
  rb_connection :: bool
  rb_channel :: bool

definition RabbitMQ_connect :: "'w retry_env \<Rightarrow> 'w amqp_ops \<Rightarrow> (RabbitMQMessageBus \<times> 'w, unit) act" where
  "RabbitMQ_connect env ops bw =
     (case (case rb_retry (fst bw) of
              Some p \<Rightarrow> RetryPolicy_execute_async env p (am_connect ops (rb_url (fst bw))) (snd bw)
            | None \<Rightarrow> am_connect ops (rb_url (fst bw)) (snd bw)) of
        (Inl e, w1) \<Rightarrow> (Inl e, fst bw, w1)
      | (Inr _, w1) \<Rightarrow>
          (case am_channel ops w1 of
             (Inl e, w2) \<Rightarrow> (Inl e, (fst bw)\<lparr>rb_connection := True\<rparr>, w2)
           | (Inr _, w2) \<Rightarrow> (Inr (), (fst bw)\<lparr>rb_connection := True, rb_channel := True\<rparr>, w2)))"

definition RabbitMQ_close :: "'w amqp_ops \<Rightarrow> (RabbitMQMessageBus \<times> 'w, unit) act" where
  "RabbitMQ_close ops bw =
     (if rb_connection (fst bw) then (case am_close ops (snd bw) of (r, w') \<Rightarrow> (r, fst bw, w')) else (Inr (), bw))"

definition RabbitMQ_publish ::
    "(pyval \<Rightarrow> string) \<Rightarrow> 'w retry_env \<Rightarrow> 'w amqp_ops \<Rightarrow> BusMessage \<Rightarrow> (RabbitMQMessageBus \<times> 'w, unit) act" where
  "RabbitMQ_publish dumps env ops m =
     then_do (\<lambda>bw. if rb_channel (fst bw) then (Inr (), bw) else RabbitMQ_connect env ops bw)
       (\<lambda>_ bw. case am_publish ops (json_default_str dumps (bm_payload m)) (bm_extra m) (bm_topic m) (snd bw) of
                 (r, w') \<Rightarrow> (r, fst bw, w'))"

definition RabbitMQ_publish_batch ::
    "(pyval \<Rightarrow> string) \<Rightarrow> 'w retry_env \<Rightarrow> 'w amqp_ops \<Rightarrow> BusMessage list \<Rightarrow> (RabbitMQMessageBus \<times> 'w, unit) act" where
  "RabbitMQ_publish_batch dumps env ops ms = for_each (RabbitMQ_publish dumps env ops) ms"

record 'w nats_ops =
  na_connect :: "('w, unit) act"
  na_close :: "('w, unit) act"
  na_publish :: "string \<Rightarrow> string \<Rightarrow> ('w, unit) act"

definition Nats_connect :: "'w nats_ops \<Rightarrow> (bool \<times> 'w, unit) act" where
  "Nats_connect ops cw =
     (case na_connect ops (snd cw) of (Inl e, w') \<Rightarrow> (Inl e, fst cw, w') | (Inr _, w') \<Rightarrow> (Inr (), True, w'))"

definition Nats_close :: "'w nats_ops \<Rightarrow> (bool \<times> 'w, unit) act" where
  "Nats_close ops cw = (if fst cw then (case na_close ops (snd cw) of (r, w') \<Rightarrow> (r, fst cw, w')) else (Inr (), cw))"

definition Nats_publish :: "(pyval \<Rightarrow> string) \<Rightarrow> 'w nats_ops \<Rightarrow> BusMessage \<Rightarrow> (bool \<times> 'w, unit) act" where
  "Nats_publish dumps ops m =
     then_do (\<lambda>cw. if fst cw then (Inr (), cw) else Nats_connect ops cw)
       (\<lambda>_ cw. case na_publish ops (bm_topic m) (json_default_str dumps (bm_payload m)) (snd cw) of (r, w') \<Rightarrow> (r, fst cw, w'))"

definition Nats_publish_batch :: "(pyval \<Rightarrow> string) \<Rightarrow> 'w nats_ops \<Rightarrow> BusMessage list \<Rightarrow> (bool \<times> 'w, unit) act" where
  "Nats_publish_batch dumps ops ms = for_each (Nats_publish dumps ops) ms"

subsection \<open>What the relay puts on the wire\<close>

text \<open>Brokers that only note what they are sent: key, topic, body.\<close>

definition noting_kafka :: "((string \<times> string) list) kafka_ops" where
  "noting_kafka = \<lparr>ka_start = (\<lambda>w. (Inr (), w)), ka_stop = (\<lambda>w. (Inr (), w)),
     ka_send = (\<lambda>topic val hs key w. (Inr (), w @ [(topic, val)]))\<rparr>"

definition noting_nats :: "((string \<times> string) list) nats_ops" where
  "noting_nats = \<lparr>na_connect = (\<lambda>w. (Inr (), w)), na_close = (\<lambda>w. (Inr (), w)),
     na_publish = (\<lambda>topic body w. (Inr (), w @ [(topic, body)]))\<rparr>"

definition noting_amqp :: "((string \<times> string) list) amqp_ops" where
  "noting_amqp = \<lparr>am_connect = (\<lambda>url w. (Inr (), w)), am_channel = (\<lambda>w. (Inr (), w)), am_close = (\<lambda>w. (Inr (), w)),
     am_publish = (\<lambda>body hs topic w. (Inr (), w @ [(topic, body)]))\<rparr>"

text \<open>A batch of relay messages: Kafka gets every payload byte for byte, in order. RabbitMQ and NATS get the JSON text of the
  payload's literal.\<close>

lemma kafka_batch_noted:
  "KafkaProducer_publish_batch dumps noting_kafka (map bus_message ms) (st, w)
     = (Inr (), (if ms = [] then st else True), w @ map (\<lambda>m. (ms_topic m, ms_payload m)) ms)"
  unfolding KafkaProducer_publish_batch_def
  by (induction ms arbitrary: st w)
     (simp_all add: KafkaProducer_publish_def KafkaProducer_start_def then_do_def noting_kafka_def bus_message_def
       KafkaMessageSerializer_serialize_def)

lemma nats_batch_noted:
  "Nats_publish_batch dumps noting_nats (map bus_message ms) (st, w)
     = (Inr (), (if ms = [] then st else True), w @ map (\<lambda>m. (ms_topic m, dumps (PStr (bytes_repr (ms_payload m))))) ms)"
  unfolding Nats_publish_batch_def
  by (induction ms arbitrary: st w)
     (simp_all add: Nats_publish_def Nats_connect_def then_do_def noting_nats_def bus_message_def json_default_str_def)

lemma rabbitmq_batch_noted:
  assumes "rb_channel b"
  shows "RabbitMQ_publish_batch dumps env noting_amqp (map bus_message ms) (b, w)
     = (Inr (), b, w @ map (\<lambda>m. (ms_topic m, dumps (PStr (bytes_repr (ms_payload m))))) ms)"
  unfolding RabbitMQ_publish_batch_def using assms
  by (induction ms arbitrary: w)
     (simp_all add: RabbitMQ_publish_def then_do_def noting_amqp_def bus_message_def json_default_str_def)

text \<open>The text of JSON for a string is longer than the string, so the body never is the payload.\<close>

lemma length_repr_bytes: "length s \<le> length (concat (map (repr_byte q) s))"
proof (induction s)
  case (Cons c s)
  have "1 \<le> length (repr_byte q c)" by (simp add: repr_byte_def repr_char_def)
  then show ?case using Cons by simp
qed simp

lemma json_of_bytes_differs:
  assumes "\<And>s. length s < length (dumps (PStr s))"
  shows "dumps (PStr (bytes_repr b)) \<noteq> b"
proof
  assume eq: "dumps (PStr (bytes_repr b)) = b"
  obtain q where "bytes_repr b = CHR ''b'' # q # concat (map (repr_byte q) b) @ [q]" unfolding bytes_repr_def Let_def by blast
  then have "length b < length (bytes_repr b)" using length_repr_bytes[of b q] by simp
  then show False using assms[of "bytes_repr b"] eq by simp
qed


definition demo_dumps :: "pyval \<Rightarrow> string" where
  "demo_dumps v = (case v of PStr s \<Rightarrow> CHR 0x22 # s @ [CHR 0x22] | _ \<Rightarrow> ''null'')"

definition demo_rabbit :: RabbitMQMessageBus where
  "demo_rabbit = \<lparr>rb_url = ''amqp://localhost/'', rb_retry = None, rb_connection = True, rb_channel = True\<rparr>"

definition still_env :: "'w retry_env" where
  "still_env = \<lparr>env_random = (\<lambda>w. (0, w)), env_sleep = (\<lambda>_ w. w)\<rparr>"


subsection \<open>Pulsar\<close>

record ('w, 'p) pulsar_ops =
  pu_client :: "string \<Rightarrow> ('w, unit) act"
  pu_create_producer :: "string \<Rightarrow> ('w, 'p) act"
  pu_send :: "'p \<Rightarrow> string \<Rightarrow> ('w, unit) act"
  pu_flush_close :: "'p \<Rightarrow> ('w, unit) act"
  pu_close :: "('w, unit) act"

record 'p PulsarProducer =
  pp_service_url :: string
  pp_client :: "string option"
  pp_producers :: "(string, 'p) pydict"

definition PulsarProducer_init :: "string \<Rightarrow> 'p PulsarProducer" where
  "PulsarProducer_init url = \<lparr>pp_service_url = url, pp_client = None, pp_producers = []\<rparr>"

definition PulsarProducer_connect :: "('w, 'p) pulsar_ops \<Rightarrow> string option \<Rightarrow> ('p PulsarProducer \<times> 'w, unit) act" where
  "PulsarProducer_connect ops service_url pw =
     (let url = str_or service_url (pp_service_url (fst pw))
      in case pu_client ops url (snd pw) of
           (Inl e, w') \<Rightarrow> (Inl e, fst pw, w')
         | (Inr _, w') \<Rightarrow> (Inr (), (fst pw)\<lparr>pp_client := Some url\<rparr>, w'))"

definition Pulsar_get_producer :: "('w, 'p) pulsar_ops \<Rightarrow> string \<Rightarrow> ('p PulsarProducer \<times> 'w, 'p) act" where
  "Pulsar_get_producer ops topic pw =
     (case map_of (pp_producers (fst pw)) topic of
        Some p \<Rightarrow> (Inr p, pw)
      | None \<Rightarrow>
          (case pp_client (fst pw) of
             None \<Rightarrow> (Inl (none_attr ''create_producer''), pw)
           | Some _ \<Rightarrow>
               (case pu_create_producer ops topic (snd pw) of
                  (Inl e, w') \<Rightarrow> (Inl e, fst pw, w')
                | (Inr p, w') \<Rightarrow> (Inr p, (fst pw)\<lparr>pp_producers := dict_set topic p (pp_producers (fst pw))\<rparr>, w'))))"

definition pulsar_envelope :: "BusMessage \<Rightarrow> pyval" where
  "pulsar_envelope m =
     PDict [(''id'', PStr (bm_id m)), (''type'', PStr ''Message''), (''correlation_id'', opt_str (bm_correlation_id m)),
            (''payload'', case bm_payload m of Json (PDict d) \<Rightarrow> PDict d | _ \<Rightarrow> PDict [])]"

definition Pulsar_send_to :: "('w, 'p) pulsar_ops \<Rightarrow> string \<Rightarrow> string \<Rightarrow> ('p PulsarProducer \<times> 'w, unit) act" where
  "Pulsar_send_to ops topic data =
     then_do (Pulsar_get_producer ops topic) (\<lambda>p pw. case pu_send ops p data (snd pw) of (r, w') \<Rightarrow> (r, fst pw, w'))"

definition PulsarProducer_publish :: "(pyval \<Rightarrow> string) \<Rightarrow> ('w, 'p) pulsar_ops \<Rightarrow> BusMessage \<Rightarrow> ('p PulsarProducer \<times> 'w, unit) act" where
  "PulsarProducer_publish dumps ops m =
     then_do (\<lambda>pw. if pp_client (fst pw) = None then PulsarProducer_connect ops None pw else (Inr (), pw))
       (\<lambda>_. Pulsar_send_to ops (bm_topic m) (dumps (pulsar_envelope m)))"

text \<open>Closing swallows the exceptions of every producer and of the client.\<close>

definition PulsarProducer_close :: "('w, 'p) pulsar_ops \<Rightarrow> ('p PulsarProducer \<times> 'w, unit) act" where
  "PulsarProducer_close ops pw =
     (case for_each (\<lambda>p. try_except (pu_flush_close ops p) (\<lambda>_. give ())) (dict_values (pp_producers (fst pw))) (snd pw) of
        (Inl e, w1) \<Rightarrow> (Inl e, fst pw, w1)
      | (Inr _, w1) \<Rightarrow>
          (let p1 = (fst pw)\<lparr>pp_producers := []\<rparr>
           in if pp_client p1 = None then (Inr (), p1, w1)
              else case try_except (pu_close ops) (\<lambda>_. give ()) w1 of
                     (Inl e, w2) \<Rightarrow> (Inl e, p1, w2)
                   | (Inr _, w2) \<Rightarrow> (Inr (), p1\<lparr>pp_client := None\<rparr>, w2)))"

lemma pulsar_publishes_only_dicts:
  assumes "bm_payload m = Bytes b \<or> (\<exists>v. bm_payload m = Json v \<and> (\<forall>d. v \<noteq> PDict d))"
  shows "pulsar_envelope m = pulsar_envelope (m\<lparr>bm_payload := Json (PDict [])\<rparr>)"
  using assms by (auto simp: pulsar_envelope_def split: pyval.split)

text \<open>Closing after any use leaves neither a client nor a producer, unless it is cancelled.\<close>

lemma pulsar_close_resets:
  assumes "PulsarProducer_close ops (p, w) = (Inr (), p', w')"
  shows "pp_client p' = None \<and> pp_producers p' = []"
  using assms by (auto simp: PulsarProducer_close_def Let_def split: prod.splits sum.splits if_splits)

record PulsarConsumer =
  pc_service_url :: string
  pc_topic :: string
  pc_subscription :: string
  pc_client :: "string option"
  pc_consumer :: "(string \<times> string) option"

text \<open>\<open>open_client\<close> and \<open>subscribe\<close> are calls of the Pulsar package.\<close>

definition PulsarConsumer_connect ::
    "(string \<Rightarrow> ('w, unit) act) \<Rightarrow> (string \<Rightarrow> string \<Rightarrow> ('w, unit) act) \<Rightarrow> string option \<Rightarrow> string option \<Rightarrow> string option
      \<Rightarrow> (PulsarConsumer \<times> 'w, unit) act" where
  "PulsarConsumer_connect open_client subscribe service_url topic subscription cw =
     (let c = fst cw; url = str_or service_url (pc_service_url c); t = str_or topic (pc_topic c);
          sub = str_or subscription (pc_subscription c)
      in case open_client url (snd cw) of
           (Inl e, w1) \<Rightarrow> (Inl e, c, w1)
         | (Inr _, w1) \<Rightarrow>
             (case subscribe t sub w1 of
                (Inl e, w2) \<Rightarrow> (Inl e, c\<lparr>pc_client := Some url\<rparr>, w2)
              | (Inr _, w2) \<Rightarrow> (Inr (), c\<lparr>pc_client := Some url, pc_consumer := Some (t, sub)\<rparr>, w2)))"

definition StopAsyncIteration :: exc_class where
  "StopAsyncIteration = UserError ''StopAsyncIteration'' Exception"

definition PulsarConsumer_anext :: "('w, 'm) act \<Rightarrow> PulsarConsumer \<Rightarrow> ('w, 'm) act" where
  "PulsarConsumer_anext receive c =
     (case pc_consumer c of
        None \<Rightarrow> throw (plain_exn StopAsyncIteration [])
      | Some _ \<Rightarrow>
          try_except receive
            (\<lambda>e. throw (if named_like ''Timeout'' e \<or> sublist ''timeout'' (lower (exn_message e))
                        then raised_from (plain_exn StopAsyncIteration []) e else e)))"

subsection \<open>The Pulsar outbox dispatcher\<close>

text \<open>Repository and producer side by side. A record's payload goes out as it is, without the envelope.\<close>

definition pulsar_dispatch_one ::
    "('w, 'p) pulsar_ops \<Rightarrow> (string \<Rightarrow> 's \<Rightarrow> 's) \<Rightarrow> (string \<Rightarrow> string \<Rightarrow> 's \<Rightarrow> 's) \<Rightarrow> OutboxRecord
      \<Rightarrow> ('s \<times> ('p PulsarProducer \<times> 'w), bool) act" where
  "pulsar_dispatch_one ops md mf r sb =
     (case Pulsar_send_to ops (ob_topic r) (ob_payload r) (snd sb) of
        (Inr _, b') \<Rightarrow> (Inr True, md (ob_id r) (fst sb), b')
      | (Inl e, b') \<Rightarrow>
          if catchable e then (Inr False, mf (ob_id r) ''pulsar dispatch failed'' (fst sb), b') else (Inl e, fst sb, b'))"

fun pulsar_dispatch_records ::
    "('w, 'p) pulsar_ops \<Rightarrow> (string \<Rightarrow> 's \<Rightarrow> 's) \<Rightarrow> (string \<Rightarrow> string \<Rightarrow> 's \<Rightarrow> 's) \<Rightarrow> OutboxRecord list \<Rightarrow> nat
      \<Rightarrow> ('s \<times> ('p PulsarProducer \<times> 'w), nat) act" where
  "pulsar_dispatch_records ops md mf [] dispatched sb = (Inr dispatched, sb)"
| "pulsar_dispatch_records ops md mf (r # rs) dispatched sb =
     (case pulsar_dispatch_one ops md mf r sb of
        (Inl e, sb') \<Rightarrow> (Inl e, sb')
      | (Inr ok, sb') \<Rightarrow> pulsar_dispatch_records ops md mf rs (if ok then Suc dispatched else dispatched) sb')"

definition PulsarOutboxDispatcher_dispatch_pending ::
    "('w, 'p) pulsar_ops \<Rightarrow> ('s \<Rightarrow> OutboxRecord list) \<Rightarrow> (string \<Rightarrow> 's \<Rightarrow> 's) \<Rightarrow> (string \<Rightarrow> string \<Rightarrow> 's \<Rightarrow> 's)
      \<Rightarrow> ('s \<times> ('p PulsarProducer \<times> 'w), nat) act" where
  "PulsarOutboxDispatcher_dispatch_pending ops get_pending md mf =
     then_do (\<lambda>sb. if pp_client (fst (snd sb)) = None
                   then (case PulsarProducer_connect ops None (snd sb) of (r, b') \<Rightarrow> (r, fst sb, b')) else (Inr (), sb))
       (\<lambda>_ sb. pulsar_dispatch_records ops md mf (get_pending (fst sb)) 0 sb)"

text \<open>The dispatcher is the relay on the bus that sends a message's payload to its topic.\<close>

definition pulsar_bus :: "('w, 'p) pulsar_ops \<Rightarrow> Message \<Rightarrow> ('p PulsarProducer \<times> 'w, unit) act" where
  "pulsar_bus ops m = Pulsar_send_to ops (ms_topic m) (ms_payload m)"

lemma pulsar_one_is_relay:
  "pulsar_dispatch_one ops md mf r sb =
     dispatch_one (\<lambda>_. 0) (on_bus (pulsar_bus ops)) (\<lambda>i. on_repo (md i)) (\<lambda>i err. on_repo (mf i err))
       (\<lambda>_. ''pulsar dispatch failed'') r sb"
  by (auto simp: pulsar_dispatch_one_def dispatch_one_def on_bus_def on_repo_def pulsar_bus_def outbox_message_def Let_def
      split: prod.splits sum.splits)

lemma pulsar_records_is_relay:
  "pulsar_dispatch_records ops md mf rs n sb =
     dispatch_records (\<lambda>_. 0) (on_bus (pulsar_bus ops)) (\<lambda>i. on_repo (md i)) (\<lambda>i err. on_repo (mf i err))
       (\<lambda>_. ''pulsar dispatch failed'') rs n sb"
  by (induction rs arbitrary: n sb) (auto simp: pulsar_one_is_relay split: prod.split sum.split)

lemma pulsar_dispatch_settles:
  assumes "ordinary_bus (pulsar_bus ops)" "outbox_ok d" "pp_client p \<noteq> None"
  shows "\<exists>k d' b'. PulsarOutboxDispatcher_dispatch_pending ops (outbox_get_pending n) outbox_mark_dispatched outbox_mark_failed (d, p, w)
      = (Inr k, d', b')
    \<and> (\<forall>r \<in> set (outbox_get_pending n d). outbox_status_of d' (ob_id r) \<in> {Some DISPATCHED, Some FAILED})
    \<and> (\<forall>i. i \<notin> ob_id ` set (outbox_get_pending n d) \<longrightarrow> outbox_status_of d' i = outbox_status_of d i)
    \<and> k = length (filter (\<lambda>r. outbox_status_of d' (ob_id r) = Some DISPATCHED) (outbox_get_pending n d))"
proof -
  have "outbox_status_of d (ob_id r) \<noteq> None" if "r \<in> set (outbox_get_pending n d)" for r
    using mem_outbox.pending_status[OF assms(2) that] by simp
  from mem_outbox.relay_correct[OF assms(1,2) mem_outbox.pending_distinct[OF assms(2)] this, of n "\<lambda>_. 0"
      "\<lambda>_. ''pulsar dispatch failed''" 0 "(p, w)"]
  show ?thesis using assms(3)
    by (auto simp: PulsarOutboxDispatcher_dispatch_pending_def then_do_def pulsar_records_is_relay)
qed

subsection \<open>Azure Service Bus\<close>

datatype bus_login = WithConnectionString string | WithIdentity string

record AzureServiceBusClient =
  sb_namespace :: string
  sb_entity :: string
  sb_subscription :: "string option"
  sb_connection_string :: "string option"
  sb_client :: "bus_login option"

definition ServiceBus_aenter :: "AzureServiceBusClient \<Rightarrow> AzureServiceBusClient" where
  "ServiceBus_aenter c =
     c\<lparr>sb_client := Some (case sb_connection_string c of
                           None \<Rightarrow> WithIdentity (sb_namespace c)
                         | Some s \<Rightarrow> if s = [] then WithIdentity (sb_namespace c) else WithConnectionString s)\<rparr>"

definition ServiceBus_aexit :: "('w, unit) act \<Rightarrow> (AzureServiceBusClient \<times> 'w, unit) act" where
  "ServiceBus_aexit close cw =
     (case sb_client (fst cw) of
        None \<Rightarrow> (Inr (), cw)
      | Some _ \<Rightarrow> (case close (snd cw) of
                     (Inl e, w') \<Rightarrow> (Inl e, fst cw, w') | (Inr _, w') \<Rightarrow> (Inr (), (fst cw)\<lparr>sb_client := None\<rparr>, w')))"

record 'w sender_ops =
  sn_queue_sender :: "string \<Rightarrow> ('w, unit) act"
  sn_leave :: "('w, unit) act"
  sn_create_batch :: "('w, unit) act"
  sn_add :: "string list \<Rightarrow> string \<Rightarrow> ('w, unit) act"
  sn_send :: "string list \<Rightarrow> ('w, unit) act"

definition ServiceBus_send :: "(pyval \<Rightarrow> string) \<Rightarrow> 'w sender_ops \<Rightarrow> AzureServiceBusClient \<Rightarrow> item \<Rightarrow> ('w, unit) act" where
  "ServiceBus_send dumps ops c payload =
     (case sb_client c of
        None \<Rightarrow> throw (none_attr ''get_queue_sender'')
      | Some _ \<Rightarrow> async_with (sn_queue_sender ops (sb_entity c)) (\<lambda>_. sn_leave ops) (\<lambda>_. sn_send ops [dumps (PDict payload)]))"

text \<open>\<open>sn_add\<close> gets the messages the batch already has; it raises when the batch would be too large.\<close>

fun add_all :: "'w sender_ops \<Rightarrow> string list \<Rightarrow> string list \<Rightarrow> ('w, string list) act" where
  "add_all ops batch [] w = (Inr batch, w)"
| "add_all ops batch (m # ms) w =
     (case sn_add ops batch m w of (Inl e, w') \<Rightarrow> (Inl e, w') | (Inr _, w') \<Rightarrow> add_all ops (batch @ [m]) ms w')"

definition ServiceBus_send_batch :: "(pyval \<Rightarrow> string) \<Rightarrow> 'w sender_ops \<Rightarrow> AzureServiceBusClient \<Rightarrow> item list \<Rightarrow> ('w, unit) act" where
  "ServiceBus_send_batch dumps ops c payloads =
     (case sb_client c of
        None \<Rightarrow> throw (none_attr ''get_queue_sender'')
      | Some _ \<Rightarrow>
          async_with (sn_queue_sender ops (sb_entity c)) (\<lambda>_. sn_leave ops)
            (\<lambda>_. then_do (sn_create_batch ops)
               (\<lambda>_. then_do (add_all ops [] (map (\<lambda>p. dumps (PDict p)) payloads)) (sn_send ops))))"

datatype receiver = QueueReceiver string | SubscriptionReceiver string string

definition ServiceBus_receiver :: "AzureServiceBusClient \<Rightarrow> receiver" where
  "ServiceBus_receiver c =
     (case sb_subscription c of
        None \<Rightarrow> QueueReceiver (sb_entity c)
      | Some s \<Rightarrow> if s = [] then QueueReceiver (sb_entity c) else SubscriptionReceiver (sb_entity c) s)"

text \<open>The body of \<^verbatim>\<open>receive\<close>. After it yielded a payload the consumer comes back \<open>n\<close> more times; when it does not, the generator
  is closed at the \<^verbatim>\<open>yield\<close>, by an exception \<^verbatim>\<open>except Exception\<close> does not catch.\<close>

fun ServiceBus_receive ::
    "('m \<Rightarrow> exn + 'p) \<Rightarrow> ('m \<Rightarrow> ('w, unit) act) \<Rightarrow> ('m \<Rightarrow> ('w, unit) act) \<Rightarrow> nat \<Rightarrow> 'm list \<Rightarrow> 'w
      \<Rightarrow> 'p list \<times> (exn + unit) \<times> 'w" where
  "ServiceBus_receive loads finish abandon n [] w = ([], Inr (), w)"
| "ServiceBus_receive loads finish abandon n (m # ms) w =
     (case loads m of
        Inl e \<Rightarrow>
          if catchable e
          then (case abandon m w of
                  (Inl e', w') \<Rightarrow> ([], Inl e', w')
                | (Inr _, w') \<Rightarrow> ServiceBus_receive loads finish abandon n ms w')
          else ([], Inl e, w)
      | Inr p \<Rightarrow>
          (case n of
             0 \<Rightarrow> ([p], Inr (), w)
           | Suc k \<Rightarrow>
               (case try_except (finish m) (\<lambda>_. abandon m) w of
                  (Inl e, w') \<Rightarrow> ([p], Inl e, w')
                | (Inr _, w') \<Rightarrow> (case ServiceBus_receive loads finish abandon k ms w' of (ps, r, w'') \<Rightarrow> (p # ps, r, w'')))))"

subsection \<open>Google Pub/Sub\<close>

record PubSubClient =
  ps_project_id :: string
  ps_name :: string
  ps_credentials :: pyval
  ps_client :: "item option"
  ps_path :: string

text \<open>\<open>path\<close> is \<^verbatim>\<open>topic_path\<close> or \<^verbatim>\<open>subscription_path\<close> of the client.\<close>

definition PubSub_aenter :: "(string \<Rightarrow> string \<Rightarrow> string) \<Rightarrow> PubSubClient \<Rightarrow> PubSubClient" where
  "PubSub_aenter path c =
     c\<lparr>ps_client := Some (if truthy (ps_credentials c) then [(''credentials'', ps_credentials c)] else []),
       ps_path := path (ps_project_id c) (ps_name c)\<rparr>"

definition PubSub_aexit :: "('w, unit) act \<Rightarrow> (PubSubClient \<times> 'w, unit) act" where
  "PubSub_aexit close cw =
     (case ps_client (fst cw) of
        None \<Rightarrow> (Inr (), cw)
      | Some _ \<Rightarrow> (case try_except close (\<lambda>_. give ()) (snd cw) of
                     (Inl e, w') \<Rightarrow> (Inl e, fst cw, w') | (Inr _, w') \<Rightarrow> (Inr (), (fst cw)\<lparr>ps_client := None\<rparr>, w')))"

definition PubSub_send ::
    "(pyval \<Rightarrow> string) \<Rightarrow> (string \<Rightarrow> string \<Rightarrow> (string \<times> string) list \<Rightarrow> ('w, string) act) \<Rightarrow> PubSubClient \<Rightarrow> item
      \<Rightarrow> (string \<times> string) list \<Rightarrow> ('w, string) act" where
  "PubSub_send dumps publish c payload attributes =
     (case ps_client c of
        None \<Rightarrow> throw (none_attr ''publish'')
      | Some _ \<Rightarrow> publish (ps_path c) (dumps (PDict payload)) attributes)"

definition PubSub_send_batch ::
    "(pyval \<Rightarrow> string) \<Rightarrow> (string \<Rightarrow> string \<Rightarrow> (string \<times> string) list \<Rightarrow> ('w, string) act) \<Rightarrow> PubSubClient \<Rightarrow> item list
      \<Rightarrow> ('w, string list) act" where
  "PubSub_send_batch dumps publish c payloads = collect_each (\<lambda>p. PubSub_send dumps publish c p []) payloads"

text \<open>One pull as a generator. Identifiers of decoded messages are collected and acknowledged in one request at the end, which the
  generator reaches only if the consumer exhausts it.\<close>

fun PubSub_decode :: "('m \<Rightarrow> exn + 'p) \<Rightarrow> ('m \<Rightarrow> string) \<Rightarrow> nat \<Rightarrow> string list \<Rightarrow> 'm list \<Rightarrow> 'p list \<times> (exn + string list option)" where
  "PubSub_decode loads ack_id n acks [] = ([], Inr (Some acks))"
| "PubSub_decode loads ack_id n acks (m # ms) =
     (case loads m of
        Inl e \<Rightarrow> if catchable e then PubSub_decode loads ack_id n acks ms else ([], Inl e)
      | Inr p \<Rightarrow>
          (case n of
             0 \<Rightarrow> ([p], Inr None)
           | Suc k \<Rightarrow> (case PubSub_decode loads ack_id k (acks @ [ack_id m]) ms of (ps, r) \<Rightarrow> (p # ps, r))))"

definition PubSub_pull ::
    "('w, 'm list) act \<Rightarrow> (string list \<Rightarrow> ('w, unit) act) \<Rightarrow> ('m \<Rightarrow> exn + 'p) \<Rightarrow> ('m \<Rightarrow> string) \<Rightarrow> PubSubClient \<Rightarrow> nat \<Rightarrow> 'w
      \<Rightarrow> 'p list \<times> (exn + unit) \<times> 'w" where
  "PubSub_pull fetch acknowledge loads ack_id c n w =
     (case ps_client c of
        None \<Rightarrow> ([], Inl (none_attr ''pull''), w)
      | Some _ \<Rightarrow>
          (case fetch w of
             (Inl e, w1) \<Rightarrow> ([], Inl e, w1)
           | (Inr ms, w1) \<Rightarrow>
               (case PubSub_decode loads ack_id n [] ms of
                  (ps, Inl e) \<Rightarrow> (ps, Inl e, w1)
                | (ps, Inr None) \<Rightarrow> (ps, Inr (), w1)
                | (ps, Inr (Some acks)) \<Rightarrow>
                    if acks = [] then (ps, Inr (), w1) else (case acknowledge acks w1 of (r, w2) \<Rightarrow> (ps, r, w2)))))"

subsection \<open>When a message is settled\<close>

datatype 'm settlement = Completed 'm | Abandoned 'm

definition note_complete :: "'m \<Rightarrow> ('m settlement list, unit) act" where
  "note_complete m w = (Inr (), w @ [Completed m])"

definition note_abandon :: "'m \<Rightarrow> ('m settlement list, unit) act" where
  "note_abandon m w = (Inr (), w @ [Abandoned m])"

fun completed :: "'m settlement list \<Rightarrow> 'm list" where
  "completed [] = []"
| "completed (Completed m # ss) = m # completed ss"
| "completed (Abandoned m # ss) = completed ss"

lemma completed_append [simp]: "completed (a @ b) = completed a @ completed b"
  by (induction a rule: completed.induct) auto

definition decodable :: "('m \<Rightarrow> exn + 'p) \<Rightarrow> 'm list \<Rightarrow> 'm list" where
  "decodable loads ms = filter (\<lambda>m. \<not> isl (loads m)) ms"

text \<open>Decoding fails with ordinary exceptions only.\<close>

definition ordinary_decoding :: "('m \<Rightarrow> exn + 'p) \<Rightarrow> 'm list \<Rightarrow> bool" where
  "ordinary_decoding loads ms \<longleftrightarrow> list_all (\<lambda>m. case loads m of Inl e \<Rightarrow> catchable e | Inr _ \<Rightarrow> True) ms"

lemma ordinary_decoding_Cons [simp]:
  "ordinary_decoding loads (m # ms) \<longleftrightarrow> (case loads m of Inl e \<Rightarrow> catchable e | Inr _ \<Rightarrow> True) \<and> ordinary_decoding loads ms"
  by (simp add: ordinary_decoding_def)

lemma servicebus_receive_noted:
  assumes "ordinary_decoding loads ms"
    and "ServiceBus_receive loads note_complete note_abandon n ms w = (ps, r, w')"
  shows "r = Inr () \<and> ps = map (projr \<circ> loads) (take (Suc n) (decodable loads ms))
    \<and> completed w' = completed w @ take n (decodable loads ms)"
  using assms
proof (induction ms arbitrary: n w ps)
  case (Cons m ms)
  show ?case
  proof (cases "loads m")
    case (Inl e)
    then have "catchable e" using Cons.prems(1) by simp
    then have "ServiceBus_receive loads note_complete note_abandon n ms (w @ [Abandoned m]) = (ps, r, w')"
      using Cons.prems(2) Inl note_abandon_def[of m w] by simp
    then show ?thesis using Cons.IH[of n "w @ [Abandoned m]" ps] Cons.prems(1) Inl by (simp add: decodable_def)
  next
    case (Inr p)
    show ?thesis
    proof (cases n)
      case 0
      then show ?thesis using Cons.prems(2) Inr by (simp add: decodable_def)
    next
      case (Suc k)
      obtain qs q v where run: "ServiceBus_receive loads note_complete note_abandon k ms (w @ [Completed m]) = (qs, q, v)"
        using prod_cases3 by blast
      then have "ps = p # qs" "r = q" "w' = v" using Cons.prems(2) Inr Suc note_complete_def[of m w] by (simp_all add: try_except_def)
      then show ?thesis using Cons.IH[of k "w @ [Completed m]" qs] run Cons.prems(1) Inr Suc by (simp add: decodable_def)
    qed
  qed
qed (simp add: decodable_def)

lemma pubsub_decode_noted:
  assumes "ordinary_decoding loads ms"
  shows "PubSub_decode loads ack_id n acks ms =
    (map (projr \<circ> loads) (take (Suc n) (decodable loads ms)),
     Inr (if length (decodable loads ms) \<le> n then Some (acks @ map ack_id (decodable loads ms)) else None))"
  using assms
proof (induction ms arbitrary: n acks)
  case (Cons m ms)
  show ?case
  proof (cases "loads m")
    case (Inl e)
    then show ?thesis using Cons.IH[of n acks] Cons.prems by (simp add: decodable_def)
  next
    case (Inr p)
    then show ?thesis using Cons.IH[of "n - 1" "acks @ [ack_id m]"] Cons.prems by (cases n) (simp_all add: decodable_def)
  qed
qed (simp add: decodable_def)

text \<open>C36. No message is settled before its consumer comes back for the next one. A Service Bus consumer that comes back \<open>n\<close> times is
  given the first \<open>n + 1\<close> decodable messages, and exactly the first \<open>n\<close> are completed; a Pub/Sub consumer that comes back
  \<open>n\<close> times is given the same ones, and either all decodable messages of the pull are acknowledged, when it exhausted them, or
  none.\<close>

theorem pulled_messages_at_least_once:
  assumes "ordinary_decoding loads ms" "ps_client c \<noteq> None" "fetch w = (Inr ms, w1)"
    and "ServiceBus_receive loads note_complete note_abandon n ms [] = (ps, r, settled)"
    and "PubSub_pull fetch (\<lambda>acks w. (Inr (), acks @ w)) loads ack_id c n w = (qs, q, w2)"
  shows "ps = map (projr \<circ> loads) (take (Suc n) (decodable loads ms)) \<and> completed settled = take n (decodable loads ms)
    \<and> qs = ps \<and> w2 = (if length (decodable loads ms) \<le> n then map ack_id (decodable loads ms) else []) @ w1"
  using servicebus_receive_noted[OF assms(1,4)] assms(2,3,5) pubsub_decode_noted[OF assms(1), of ack_id n "[]"]
  by (auto simp: PubSub_pull_def split: if_splits)

definition demo_loads :: "string \<Rightarrow> exn + string" where
  "demo_loads m = (if m = ''bad'' then Inl (plain_exn ValueError ''Expecting value'') else Inr m)"

definition demo_pubsub :: PubSubClient where
  "demo_pubsub = PubSub_aenter (\<lambda>p s. ''projects/'' @ p @ ''/subscriptions/'' @ s)
     \<lparr>ps_project_id = ''p'', ps_name = ''s'', ps_credentials = PNone, ps_client = None, ps_path = []\<rparr>"

theorem pulled_messages_at_least_once_witness:
  "completed (snd (snd (ServiceBus_receive demo_loads note_complete note_abandon 1 [''a'', ''bad'', ''b'', ''c''] []))) = [''a'']
   \<and> snd (snd (PubSub_pull (\<lambda>w. (Inr [''a'', ''bad'', ''b'', ''c''], w)) (\<lambda>acks w. (Inr (), acks @ w)) demo_loads id demo_pubsub 1 [])) = []"
proof -
  let ?ms = "[''a'', ''bad'', ''b'', ''c'']"
  obtain ps r settled where 1: "ServiceBus_receive demo_loads note_complete note_abandon 1 ?ms [] = (ps, r, settled)"
    using prod_cases3 by blast
  obtain qs q w2 where 2: "PubSub_pull (\<lambda>w. (Inr ?ms, w)) (\<lambda>acks w. (Inr (), acks @ w)) demo_loads id demo_pubsub 1 [] = (qs, q, w2)"
    using prod_cases3 by blast
  have "ordinary_decoding demo_loads ?ms" by (simp add: ordinary_decoding_def demo_loads_def)
  moreover have "ps_client demo_pubsub \<noteq> None" by (simp add: demo_pubsub_def PubSub_aenter_def)
  ultimately show ?thesis
    using pulled_messages_at_least_once[of demo_loads ?ms demo_pubsub "\<lambda>w. (Inr ?ms, w)" "[]" "[]" 1 ps r settled id qs q w2] 1 2
    by (simp add: decodable_def demo_loads_def)
qed

subsection \<open>SQS\<close>

record SQSTaskBus =
  sqs_queue_url :: string
  sqs_region_name :: string
  sqs_access_key_id :: "string option"
  sqs_secret_access_key :: "string option"
  sqs_session_token :: "string option"
  sqs_endpoint_url :: "string option"
  sqs_default_group :: string
  sqs_is_fifo :: bool

definition SQSTaskBus_init ::
    "string \<Rightarrow> string \<Rightarrow> string option \<Rightarrow> string option \<Rightarrow> string option \<Rightarrow> string option \<Rightarrow> string \<Rightarrow> SQSTaskBus" where
  "SQSTaskBus_init url region key secret token endpoint default_group =
     \<lparr>sqs_queue_url = url, sqs_region_name = region, sqs_access_key_id = key, sqs_secret_access_key = secret,
      sqs_session_token = token, sqs_endpoint_url = endpoint, sqs_default_group = default_group,
      sqs_is_fifo = endswith url ''.fifo''\<rparr>"

definition add_if_set :: "string \<Rightarrow> string option \<Rightarrow> item \<Rightarrow> item" where
  "add_if_set k v d = (case v of None \<Rightarrow> d | Some s \<Rightarrow> if s = [] then d else dict_set k (PStr s) d)"

definition SQS_client_kwargs :: "SQSTaskBus \<Rightarrow> item" where
  "SQS_client_kwargs b =
     add_if_set ''endpoint_url'' (sqs_endpoint_url b)
       (add_if_set ''aws_session_token'' (sqs_session_token b)
         (add_if_set ''aws_secret_access_key'' (sqs_secret_access_key b)
           (add_if_set ''aws_access_key_id'' (sqs_access_key_id b) [(''region_name'', PStr (sqs_region_name b))])))"

text \<open>\<open>uuid\<close> is \<^verbatim>\<open>str(uuid.uuid4())\<close>.\<close>

definition SQS_message ::
    "(pyval \<Rightarrow> string) \<Rightarrow> string \<Rightarrow> SQSTaskBus \<Rightarrow> string \<Rightarrow> item \<Rightarrow> int \<Rightarrow> string option \<Rightarrow> string option \<Rightarrow> item" where
  "SQS_message dumps uuid b task_name payload countdown grp dedup =
     (let kwargs = [(''QueueUrl'', PStr (sqs_queue_url b)),
                    (''MessageBody'', PStr (dumps (PDict [(''task'', PStr task_name), (''payload'', PDict payload)]))),
                    (''MessageAttributes'', PDict [(''TaskName'', PDict [(''StringValue'', PStr task_name), (''DataType'', PStr ''String'')])])];
          delayed = (if countdown \<noteq> 0 then dict_set ''DelaySeconds'' (PInt (min countdown 900)) kwargs else kwargs)
      in if sqs_is_fifo b
         then dict_set ''MessageDeduplicationId'' (PStr (str_or dedup uuid))
                (dict_set ''MessageGroupId'' (PStr (str_or grp (sqs_default_group b))) delayed)
         else delayed)"

definition SQS_dispatch ::
    "(item \<Rightarrow> ('w, unit) act) \<Rightarrow> ('w, unit) act \<Rightarrow> (item \<Rightarrow> ('w, string) act) \<Rightarrow> (pyval \<Rightarrow> string) \<Rightarrow> string \<Rightarrow> SQSTaskBus
      \<Rightarrow> string \<Rightarrow> item \<Rightarrow> int \<Rightarrow> string option \<Rightarrow> string option \<Rightarrow> ('w, string) act" where
  "SQS_dispatch enter leave send_message dumps uuid b task_name payload countdown grp dedup =
     async_with (enter (SQS_client_kwargs b)) (\<lambda>_. leave)
       (\<lambda>_. send_message (SQS_message dumps uuid b task_name payload countdown grp dedup))"

text \<open>Delays are capped, never raised, and absent for none; group and deduplication identifiers are there exactly for FIFO queues.\<close>

lemma sqs_message_fields:
  "map_of (SQS_message dumps uuid b t p c g d) ''DelaySeconds'' = (if c = 0 then None else Some (PInt (min c 900)))
   \<and> map_of (SQS_message dumps uuid b t p c g d) ''MessageGroupId''
       = (if sqs_is_fifo b then Some (PStr (str_or g (sqs_default_group b))) else None)
   \<and> map_of (SQS_message dumps uuid b t p c g d) ''MessageDeduplicationId'' = (if sqs_is_fifo b then Some (PStr (str_or d uuid)) else None)"
  by (simp add: SQS_message_def Let_def)

subsection \<open>Celery and the in-memory task bus\<close>

datatype TaskStatus = TPENDING | TSTARTED | TSUCCESS | TFAILURE | TREVOKED | TRETRY

record TaskResult =
  tr_task_id :: string
  tr_status :: TaskStatus
  tr_result :: pyval
  tr_error :: "string option"

record DispatchedTask =
  dk_task_name :: string
  dk_payload :: item
  dk_queue :: string
  dk_countdown :: int

definition InMemoryTaskBus_dispatch :: "string \<Rightarrow> item \<Rightarrow> string \<Rightarrow> int \<Rightarrow> DispatchedTask list \<Rightarrow> string \<times> DispatchedTask list" where
  "InMemoryTaskBus_dispatch task_name payload queue countdown tasks =
     (''memory-'' @ show_nat (length tasks + 1),
      tasks @ [\<lparr>dk_task_name = task_name, dk_payload = payload, dk_queue = queue, dk_countdown = countdown\<rparr>])"

definition InMemoryTaskBus_clear :: "DispatchedTask list \<Rightarrow> DispatchedTask list" where
  "InMemoryTaskBus_clear tasks = []"

definition CeleryTaskBus_dispatch ::
    "(string \<Rightarrow> item \<Rightarrow> string \<Rightarrow> int \<Rightarrow> ('w, string) act) \<Rightarrow> string \<Rightarrow> item \<Rightarrow> string \<Rightarrow> int \<Rightarrow> ('w, string) act" where
  "CeleryTaskBus_dispatch send_task task_name payload queue countdown = send_task task_name payload queue countdown"

definition TaskStatus_of :: "string \<Rightarrow> exn + TaskStatus" where
  "TaskStatus_of s =
     (if s = ''PENDING'' then Inr TPENDING else if s = ''STARTED'' then Inr TSTARTED else if s = ''SUCCESS'' then Inr TSUCCESS
      else if s = ''FAILURE'' then Inr TFAILURE else if s = ''REVOKED'' then Inr TREVOKED else if s = ''RETRY'' then Inr TRETRY
      else Inl (plain_exn ValueError (repr_str s @ '' is not a valid TaskStatus'')))"

text \<open>\<open>lookup\<close> is Celery's \<^verbatim>\<open>AsyncResult\<close>: status and result of a task; \<open>str_of\<close> is \<^verbatim>\<open>str\<close>.\<close>

definition CeleryResultBackend_get_result :: "(pyval \<Rightarrow> string) \<Rightarrow> (string \<Rightarrow> string \<times> pyval) \<Rightarrow> string \<Rightarrow> exn + TaskResult" where
  "CeleryResultBackend_get_result str_of lookup task_id =
     (case TaskStatus_of (fst (lookup task_id)) of
        Inl e \<Rightarrow> Inl e
      | Inr st \<Rightarrow>
          Inr \<lparr>tr_task_id = task_id, tr_status = st,
               tr_result = (if st = TSUCCESS then snd (lookup task_id) else PNone),
               tr_error = (if st = TFAILURE then Some (str_of (snd (lookup task_id))) else None)\<rparr>)"

fun dispatch_tasks :: "(string \<times> item \<times> string \<times> int) list \<Rightarrow> DispatchedTask list \<Rightarrow> string list \<times> DispatchedTask list" where
  "dispatch_tasks [] tasks = ([], tasks)"
| "dispatch_tasks ((n, p, q, c) # xs) tasks =
     (case InMemoryTaskBus_dispatch n p q c tasks of (i, tasks') \<Rightarrow> case dispatch_tasks xs tasks' of (is, ts) \<Rightarrow> (i # is, ts))"

text \<open>Identifiers are distinct until the bus is cleared; then they start again.\<close>

lemma memory_task_ids: "fst (dispatch_tasks xs tasks) = map (\<lambda>k. ''memory-'' @ show_nat k) [Suc (length tasks)..<Suc (length tasks + length xs)]"
proof (induction xs arbitrary: tasks)
  case (Cons x xs)
  obtain n p q c where x: "x = (n, p, q, c)" by (cases x) auto
  have "[Suc (length tasks)..<Suc (length tasks + length (x # xs))] =
      Suc (length tasks) # [Suc (Suc (length tasks))..<Suc (length tasks + length (x # xs))]"
    by (subst upt_conv_Cons) auto
  then show ?case using Cons[of "tasks @ [_]"] by (simp add: x InMemoryTaskBus_dispatch_def split_def del: upt_Suc)
qed simp

lemma memory_task_ids_distinct: "distinct (fst (dispatch_tasks xs tasks))"
  unfolding memory_task_ids by (simp add: distinct_map inj_on_def)

lemma memory_task_ids_repeat:
  "fst (InMemoryTaskBus_dispatch n p q c (InMemoryTaskBus_clear tasks)) = fst (InMemoryTaskBus_dispatch n' p' q' c' [])"
  by (simp add: InMemoryTaskBus_dispatch_def InMemoryTaskBus_clear_def)

lemma celery_result_total:
  "(\<exists>r. CeleryResultBackend_get_result str_of lookup i = Inr r)
     \<longleftrightarrow> fst (lookup i) \<in> {''PENDING'', ''STARTED'', ''SUCCESS'', ''FAILURE'', ''REVOKED'', ''RETRY''}"
  by (auto simp: CeleryResultBackend_get_result_def TaskStatus_of_def)

text \<open>A Service Bus batch that does not fit is not sent at all.\<close>

lemma add_all_complete: "add_all ops batch ms w = (Inr out, w') \<Longrightarrow> out = batch @ ms"
  by (induction ms arbitrary: batch w) (fastforce split: prod.splits sum.splits)+

lemma servicebus_batch_atomic:
  assumes "sb_client c \<noteq> None" "sn_queue_sender ops (sb_entity c) w = (Inr (), w1)" "sn_create_batch ops w1 = (Inr (), w2)"
    and "add_all ops [] (map (\<lambda>p. dumps (PDict p)) ps) w2 = (r, w3)"
  shows "case r of
      Inl e \<Rightarrow> ServiceBus_send_batch dumps ops c ps w = (case sn_leave ops w3 of (Inl e', w4) \<Rightarrow> (Inl e', w4) | (Inr _, w4) \<Rightarrow> (Inl e, w4))
    | Inr batch \<Rightarrow> batch = map (\<lambda>p. dumps (PDict p)) ps
        \<and> ServiceBus_send_batch dumps ops c ps w = (case sn_send ops batch w3 of (q, w4) \<Rightarrow>
            case sn_leave ops w4 of (Inl e', w5) \<Rightarrow> (Inl e', w5) | (Inr _, w5) \<Rightarrow> (q, w5))"
  using assms add_all_complete[of ops "[]" "map (\<lambda>p. dumps (PDict p)) ps" w2]
  by (cases r) (auto simp: ServiceBus_send_batch_def async_with_def then_do_def)

end
