(* ===== verification/Mail_Delivery.thy ===== *)
theory Mail_Delivery
  imports Py_Async Py_Base64
begin

text \<open>
  Mail and notifications: messages, the in-memory, SMTP and SES senders and the renderer (\<^verbatim>\<open>application/email\<close>), the Mailgun and
  SendGrid senders (\<^verbatim>\<open>adapters/mailgun\<close>, \<^verbatim>\<open>adapters/sendgrid\<close>), push notifications and text messages
  (\<^verbatim>\<open>application/notifications\<close>). The HTTP client, the SMTP client, SES and the template engine are parameters. A request is modelled
  as the code builds it, and \<open>..._recipients\<close> read off a request whom the service delivers it to.
\<close>

subsection \<open>Messages\<close>

record Attachment =
  at_filename :: string
  at_content_type :: string
  at_data :: string

record EmailMessage =
  em_to :: "string list"
  em_subject :: string
  em_html_body :: string
  em_cc :: "string list"
  em_bcc :: "string list"
  em_text_body :: "string option"
  em_attachments :: "Attachment list"
  em_reply_to :: "string option"

definition all_recipients :: "EmailMessage \<Rightarrow> string list" where
  "all_recipients m = em_to m @ em_cc m @ em_bcc m"

definition given :: "string option \<Rightarrow> bool" where
  "given x \<longleftrightarrow> x \<noteq> None \<and> x \<noteq> Some []"

text \<open>\<^verbatim>\<open>base64.b64encode\<close> of the standard alphabet.\<close>

definition std_b64 :: "string \<Rightarrow> string" where
  "std_b64 s =
     map (\<lambda>c. if c = CHR ''-'' then CHR ''+'' else if c = CHR ''_'' then CHR ''/'' else c)
       (urlsafe_b64encode (map (\<lambda>c. of_nat (ord_of c)) s))"

subsection \<open>The in-memory sender\<close>

record InMemoryEmailSender =
  is_sent :: "EmailMessage list"
  is_ids :: "string list"

definition InMemoryEmailSender_send :: "string \<Rightarrow> EmailMessage \<Rightarrow> InMemoryEmailSender \<Rightarrow> string \<times> InMemoryEmailSender" where
  "InMemoryEmailSender_send uuid m s = (uuid, \<lparr>is_sent = is_sent s @ [m], is_ids = is_ids s @ [uuid]\<rparr>)"

definition InMemoryEmailSender_reset :: "InMemoryEmailSender \<Rightarrow> InMemoryEmailSender" where
  "InMemoryEmailSender_reset s = \<lparr>is_sent = [], is_ids = []\<rparr>"

definition InMemoryEmailSender_last :: "InMemoryEmailSender \<Rightarrow> EmailMessage option" where
  "InMemoryEmailSender_last s = (if is_sent s = [] then None else Some (last (is_sent s)))"

subsection \<open>SMTP\<close>

record SmtpConfig =
  sm_hostname :: string
  sm_port :: int
  sm_username :: "string option"
  sm_password :: "string option"
  sm_use_tls :: bool
  sm_start_tls :: bool

record mime =
  mi_headers :: "(string, string) pydict"
  mi_parts :: "(string \<times> string) list"

definition build_mime :: "SmtpConfig \<Rightarrow> EmailMessage \<Rightarrow> mime" where
  "build_mime c m =
     \<lparr>mi_headers =
        [(''Subject'', em_subject m), (''From'', str_or (sm_username c) ''noreply@localhost''), (''To'', join_with '', '' (em_to m))]
        @ (if em_cc m \<noteq> [] then [(''Cc'', join_with '', '' (em_cc m))] else [])
        @ (case em_reply_to m of None \<Rightarrow> [] | Some r \<Rightarrow> if r = [] then [] else [(''Reply-To'', r)]),
      mi_parts =
        (case em_text_body m of None \<Rightarrow> [] | Some t \<Rightarrow> if t = [] then [] else [(''plain'', t)])
        @ [(''html'', em_html_body m)]\<rparr>"

record 'w smtp_ops =
  st_connect :: "string \<Rightarrow> int \<Rightarrow> bool \<Rightarrow> ('w, unit) act"
  st_starttls :: "('w, unit) act"
  st_login :: "string \<Rightarrow> string \<Rightarrow> ('w, unit) act"
  st_send :: "mime \<Rightarrow> ('w, unit) act"
  st_quit :: "('w, unit) act"

text \<open>The state is whether \<^verbatim>\<open>_client\<close> is set: it is set before the connection is made.\<close>

definition Smtp_connect :: "'w smtp_ops \<Rightarrow> SmtpConfig \<Rightarrow> (bool \<times> 'w, unit) act" where
  "Smtp_connect ops c sw =
     (case then_do (st_connect ops (sm_hostname c) (sm_port c) (sm_use_tls c))
             (\<lambda>_. then_do (if sm_start_tls c then st_starttls ops else give ())
               (\<lambda>_. case (sm_username c, sm_password c) of
                      (Some u, Some p) \<Rightarrow> if u = [] \<or> p = [] then give () else st_login ops u p
                    | _ \<Rightarrow> give ())) (snd sw) of
        (r, w') \<Rightarrow> (r, True, w'))"

definition Smtp_close :: "'w smtp_ops \<Rightarrow> (bool \<times> 'w, unit) act" where
  "Smtp_close ops sw =
     (if fst sw then (case st_quit ops (snd sw) of (Inl e, w') \<Rightarrow> (Inl e, True, w') | (Inr _, w') \<Rightarrow> (Inr (), False, w'))
      else (Inr (), sw))"

definition Smtp_send :: "'w smtp_ops \<Rightarrow> SmtpConfig \<Rightarrow> string \<Rightarrow> EmailMessage \<Rightarrow> (bool \<times> 'w, string) act" where
  "Smtp_send ops c uuid m =
     then_do (\<lambda>sw. if fst sw then (Inr (), sw) else Smtp_connect ops c sw)
       (\<lambda>_ sw. case st_send ops (build_mime c m) (snd sw) of
                 (Inl e, w') \<Rightarrow> (Inl e, fst sw, w') | (Inr _, w') \<Rightarrow> (Inr uuid, fst sw, w'))"

text \<open>\<^verbatim>\<open>send_message\<close> delivers to the addresses of the \<^verbatim>\<open>To\<close>, \<^verbatim>\<open>Cc\<close> and \<^verbatim>\<open>Bcc\<close> headers.\<close>

definition addresses :: "string \<Rightarrow> string list" where
  "addresses h = filter (\<lambda>a. a \<noteq> []) (map strip (split_on (CHR '','') h))"

definition mime_recipients :: "mime \<Rightarrow> string list" where
  "mime_recipients x = concat (map (\<lambda>h. case map_of (mi_headers x) h of None \<Rightarrow> [] | Some t \<Rightarrow> addresses t) [''To'', ''Cc'', ''Bcc''])"

subsection \<open>SES\<close>

record SesConfig =
  se_region_name :: string
  se_access_key_id :: "string option"
  se_secret_access_key :: "string option"
  se_source_email :: string

definition ses_client_kwargs :: "SesConfig \<Rightarrow> item" where
  "ses_client_kwargs c =
     (''region_name'', PStr (se_region_name c))
     # (if given (se_access_key_id c)
        then [(''aws_access_key_id'', opt_str (se_access_key_id c)), (''aws_secret_access_key'', opt_str (se_secret_access_key c))]
        else [])"

record ses_request =
  sr_source :: string
  sr_destination :: "(string, string list) pydict"
  sr_subject :: string
  sr_body :: "(string, string) pydict"

definition ses_build :: "SesConfig \<Rightarrow> EmailMessage \<Rightarrow> ses_request" where
  "ses_build c m =
     \<lparr>sr_source = se_source_email c,
      sr_destination =
        [(''ToAddresses'', em_to m)] @ (if em_cc m \<noteq> [] then [(''CcAddresses'', em_cc m)] else [])
        @ (if em_bcc m \<noteq> [] then [(''BccAddresses'', em_bcc m)] else []),
      sr_subject = em_subject m,
      sr_body = (''Html'', em_html_body m) # (case em_text_body m of None \<Rightarrow> [] | Some t \<Rightarrow> if t = [] then [] else [(''Text'', t)])\<rparr>"

definition Ses_send ::
    "(item \<Rightarrow> ('w, unit) act) \<Rightarrow> ('w, unit) act \<Rightarrow> (ses_request \<Rightarrow> ('w, string option) act) \<Rightarrow> SesConfig \<Rightarrow> string \<Rightarrow> EmailMessage
      \<Rightarrow> ('w, string) act" where
  "Ses_send enter leave send_email c uuid m =
     async_with (enter (ses_client_kwargs c)) (\<lambda>_. leave)
       (\<lambda>_. then_do (send_email (ses_build c m)) (\<lambda>i. give (case i of None \<Rightarrow> uuid | Some x \<Rightarrow> x)))"

definition ses_recipients :: "ses_request \<Rightarrow> string list" where
  "ses_recipients r =
     concat (map (\<lambda>k. case map_of (sr_destination r) k of None \<Rightarrow> [] | Some xs \<Rightarrow> xs) [''ToAddresses'', ''CcAddresses'', ''BccAddresses''])"

subsection \<open>Mailgun\<close>

record http_response =
  hr_status :: int
  hr_json :: "exn + item"
  hr_headers :: "(string, string) pydict"
  hr_text :: string

record MailgunEmailSender =
  mg_api_key :: string
  mg_from_email :: string
  mg_from_name :: "string option"
  mg_endpoint :: string

definition Mailgun_init :: "string \<Rightarrow> string \<Rightarrow> string \<Rightarrow> string option \<Rightarrow> string \<Rightarrow> string option \<Rightarrow> exn + MailgunEmailSender" where
  "Mailgun_init api_key domain from_email from_name region base_url =
     (let urls = [(''us'', ''https://api.mailgun.net/v3''), (''eu'', ''https://api.eu.mailgun.net/v3'')];
          make_with = (\<lambda>b. Inr \<lparr>mg_api_key = api_key, mg_from_email = from_email, mg_from_name = from_name,
                                mg_endpoint = b @ ''/'' @ domain @ ''/messages''\<rparr>)
      in if map_of urls region = None \<and> base_url = None
         then Inl (plain_exn ValueError (''region must be '' @ quoted ''us'' @ '' or '' @ quoted ''eu'' @ '', got '' @ repr_str region))
         else if given base_url then make_with (case base_url of None \<Rightarrow> [] | Some b \<Rightarrow> b)
         else case map_of urls region of None \<Rightarrow> Inl (plain_exn KeyError (repr_str region)) | Some b \<Rightarrow> make_with b)"

definition mailgun_from_address :: "MailgunEmailSender \<Rightarrow> string" where
  "mailgun_from_address s =
     (case mg_from_name s of
        None \<Rightarrow> mg_from_email s
      | Some n \<Rightarrow> if n = [] then mg_from_email s else n @ '' <'' @ mg_from_email s @ ''>'')"

definition mailgun_data :: "MailgunEmailSender \<Rightarrow> EmailMessage \<Rightarrow> (string, string) pydict" where
  "mailgun_data s m =
     [(''from'', mailgun_from_address s), (''to'', join_with '', '' (em_to m)), (''subject'', em_subject m), (''html'', em_html_body m)]
     @ (case em_text_body m of None \<Rightarrow> [] | Some t \<Rightarrow> if t = [] then [] else [(''text'', t)])
     @ (if em_cc m \<noteq> [] then [(''cc'', join_with '', '' (em_cc m))] else [])
     @ (if em_bcc m \<noteq> [] then [(''bcc'', join_with '', '' (em_bcc m))] else [])
     @ (case em_reply_to m of None \<Rightarrow> [] | Some r \<Rightarrow> if r = [] then [] else [(''h:Reply-To'', r)])"

definition mailgun_files :: "EmailMessage \<Rightarrow> (string \<times> Attachment) list option" where
  "mailgun_files m = (if em_attachments m \<noteq> [] then Some (map (\<lambda>a. (''attachment'', a)) (em_attachments m)) else None)"

text \<open>\<open>post\<close> has the endpoint, the API key of its basic authentication, data and files; \<open>status_error\<close> is \<^verbatim>\<open>raise_for_status\<close>;
  \<open>id_of\<close> is the identifier as the text it is declared to be.\<close>

definition Mailgun_send ::
    "(string \<Rightarrow> string \<Rightarrow> (string, string) pydict \<Rightarrow> (string \<times> Attachment) list option \<Rightarrow> ('w, http_response) act)
      \<Rightarrow> (http_response \<Rightarrow> exn option) \<Rightarrow> (pyval \<Rightarrow> string) \<Rightarrow> MailgunEmailSender \<Rightarrow> EmailMessage \<Rightarrow> ('w, string) act" where
  "Mailgun_send post status_error id_of s m =
     then_do (post (mg_endpoint s) (mg_api_key s) (mailgun_data s m) (mailgun_files m))
       (\<lambda>resp. case status_error resp of
          Some e \<Rightarrow> throw e
        | None \<Rightarrow> outcome (map_sum id (\<lambda>body. id_of (dict_get_or body ''id'' (PStr []))) (hr_json resp)))"

definition Mailgun_send_bulk ::
    "(string \<Rightarrow> string \<Rightarrow> (string, string) pydict \<Rightarrow> (string \<times> Attachment) list option \<Rightarrow> ('w, http_response) act)
      \<Rightarrow> (http_response \<Rightarrow> exn option) \<Rightarrow> (pyval \<Rightarrow> string) \<Rightarrow> MailgunEmailSender \<Rightarrow> EmailMessage list \<Rightarrow> ('w, string list) act" where
  "Mailgun_send_bulk post status_error id_of s ms = collect_each (Mailgun_send post status_error id_of s) ms"

definition mailgun_recipients :: "(string, string) pydict \<Rightarrow> string list" where
  "mailgun_recipients d = concat (map (\<lambda>k. case map_of d k of None \<Rightarrow> [] | Some t \<Rightarrow> addresses t) [''to'', ''cc'', ''bcc''])"

subsection \<open>SendGrid\<close>

definition email_objects :: "string list \<Rightarrow> pyval" where
  "email_objects xs = PList (map (\<lambda>a. PDict [(''email'', PStr a)]) xs)"

definition sendgrid_payload :: "EmailMessage \<Rightarrow> string \<Rightarrow> string option \<Rightarrow> item" where
  "sendgrid_payload m from_email from_name =
     (let from_field = (''email'', PStr from_email) # (if given from_name then [(''name'', opt_str from_name)] else []);
          personalizations =
            [(''to'', email_objects (em_to m))]
            @ (if em_cc m \<noteq> [] then [(''cc'', email_objects (em_cc m))] else [])
            @ (if em_bcc m \<noteq> [] then [(''bcc'', email_objects (em_bcc m))] else [])
            @ (if em_subject m \<noteq> [] then [(''subject'', PStr (em_subject m))] else []);
          html = PDict [(''type'', PStr ''text/html''), (''value'', PStr (em_html_body m))];
          content = (if given (em_text_body m)
                     then [PDict [(''type'', PStr ''text/plain''), (''value'', opt_str (em_text_body m))], html] else [html])
      in [(''personalizations'', PList [PDict personalizations]), (''from'', PDict from_field), (''subject'', PStr (em_subject m)),
          (''content'', PList content)]
         @ (if given (em_reply_to m) then [(''reply_to'', PDict [(''email'', opt_str (em_reply_to m))])] else [])
         @ (if em_attachments m \<noteq> []
            then [(''attachments'', PList (map (\<lambda>a.
                     PDict [(''filename'', PStr (at_filename a)), (''type'', PStr (at_content_type a)),
                            (''content'', PStr (std_b64 (at_data a))), (''disposition'', PStr ''attachment'')]) (em_attachments m)))]
            else []))"

definition SendGrid_send ::
    "(item \<Rightarrow> (string, string) pydict \<Rightarrow> ('w, http_response) act) \<Rightarrow> (http_response \<Rightarrow> exn option) \<Rightarrow> string \<Rightarrow> string \<Rightarrow> string option
      \<Rightarrow> EmailMessage \<Rightarrow> ('w, string) act" where
  "SendGrid_send post status_error api_key from_email from_name m =
     then_do (post (sendgrid_payload m from_email from_name)
               [(''Authorization'', ''Bearer '' @ api_key), (''Content-Type'', ''application/json'')])
       (\<lambda>resp. case status_error resp of Some e \<Rightarrow> throw e | None \<Rightarrow> give (dict_get_or (hr_headers resp) ''x-message-id'' []))"

definition SendGrid_send_bulk ::
    "(item \<Rightarrow> (string, string) pydict \<Rightarrow> ('w, http_response) act) \<Rightarrow> (http_response \<Rightarrow> exn option) \<Rightarrow> string \<Rightarrow> string \<Rightarrow> string option
      \<Rightarrow> EmailMessage list \<Rightarrow> ('w, string list) act" where
  "SendGrid_send_bulk post status_error api_key from_email from_name ms =
     collect_each (SendGrid_send post status_error api_key from_email from_name) ms"

fun address_of :: "pyval \<Rightarrow> string list" where
  "address_of (PDict [(k, PStr a)]) = (if k = ''email'' then [a] else [])"
| "address_of _ = []"

definition object_addresses :: "pyval option \<Rightarrow> string list" where
  "object_addresses v = (case v of Some (PList xs) \<Rightarrow> concat (map address_of xs) | _ \<Rightarrow> [])"

definition sendgrid_recipients :: "item \<Rightarrow> string list" where
  "sendgrid_recipients p =
     (case map_of p ''personalizations'' of
        Some (PList [PDict d]) \<Rightarrow> concat (map (\<lambda>k. object_addresses (map_of d k)) [''to'', ''cc'', ''bcc''])
      | _ \<Rightarrow> [])"

subsection \<open>Who receives a message\<close>

text \<open>An address without commas and without blanks at its ends.\<close>

definition plain_address :: "string \<Rightarrow> bool" where
  "plain_address a \<longleftrightarrow> a \<noteq> [] \<and> CHR '','' \<notin> set a \<and> strip a = a"

lemma strip_space: "plain_address a \<Longrightarrow> strip (CHR '' '' # a) = a"
  unfolding plain_address_def strip_def strip_by_def lstrip_by_def by (simp add: is_space_def)

lemma split_comma_space:
  "xs \<noteq> [] \<Longrightarrow> \<forall>x \<in> set xs. plain_address x \<Longrightarrow>
     split_on (CHR '','') (join_with '', '' xs) = hd xs # map (\<lambda>x. CHR '' '' # x) (tl xs)"
  by (induction xs rule: induct_list012) (auto simp: split_on_no_sep split_on_append plain_address_def)

lemma addresses_join: "\<forall>x \<in> set xs. plain_address x \<Longrightarrow> addresses (join_with '', '' xs) = xs"
proof (cases xs)
  case (Cons a as)
  assume ok: "\<forall>x \<in> set xs. plain_address x"
  then have "map strip (hd xs # map (\<lambda>x. CHR '' '' # x) (tl xs)) = xs" using Cons
    by (auto simp: plain_address_def strip_space intro!: map_idI)
  then show ?thesis using split_comma_space[of xs] Cons ok
    by (auto simp: addresses_def plain_address_def filter_id_conv simp del: list.map)
qed (simp add: addresses_def strip_def strip_by_def lstrip_by_def rstrip_by_def)

lemma concat_address_of [simp]: "object_addresses (Some (email_objects xs)) = xs"
  by (induction xs) (simp_all add: object_addresses_def email_objects_def)


definition demo_mail :: EmailMessage where
  "demo_mail =
     \<lparr>em_to = [''a@x.org'', ''b@x.org''], em_subject = ''Hi'', em_html_body = ''<p>Hi</p>'', em_cc = [''c@x.org''], em_bcc = [''d@x.org''],
      em_text_body = None, em_attachments = [], em_reply_to = None\<rparr>"

definition demo_smtp :: SmtpConfig where
  "demo_smtp = \<lparr>sm_hostname = ''mail'', sm_port = 587, sm_username = None, sm_password = None, sm_use_tls = False, sm_start_tls = True\<rparr>"


text \<open>A message with attachments: SMTP and SES requests are the same without them, SMTP requests also without the blind copies, SES
  requests without the reply address.\<close>

lemma dropped_fields:
  "build_mime c m = build_mime c (m\<lparr>em_attachments := [], em_bcc := []\<rparr>)"
  "ses_build sc m = ses_build sc (m\<lparr>em_attachments := [], em_reply_to := None\<rparr>)"
  by (simp_all add: build_mime_def ses_build_def)

text \<open>Identifiers of a bulk come in the order of the messages, one for each; the first failure ends it.\<close>

lemma mailgun_bulk_ids:
  "Mailgun_send_bulk post status_error id_of s ms w = (Inr ids, w') \<Longrightarrow> length ids = length ms"
  by (simp add: Mailgun_send_bulk_def collect_each_length)

lemma in_memory_last: "InMemoryEmailSender_last (snd (InMemoryEmailSender_send uuid m s)) = Some m"
  by (simp add: InMemoryEmailSender_last_def InMemoryEmailSender_send_def)

text \<open>A connection that failed half-way leaves a client that later sends use without connecting again.\<close>

lemma smtp_failed_connect_sticks:
  assumes "Smtp_connect ops c (False, w) = (Inl e, st, w1)"
  shows "st \<and> Smtp_send ops c uuid m (st, w1) = (case st_send ops (build_mime c m) w1 of
    (Inl e', w2) \<Rightarrow> (Inl e', True, w2) | (Inr _, w2) \<Rightarrow> (Inr uuid, True, w2))"
proof -
  have "st" using assms by (auto simp: Smtp_connect_def split: prod.splits)
  then show ?thesis by (auto simp: Smtp_send_def then_do_def split: prod.split sum.split)
qed

subsection \<open>Rendering\<close>

text \<open>\<open>template name ctx\<close> loads and renders a template.\<close>

definition render_mail ::
    "(string \<Rightarrow> item \<Rightarrow> exn + string) \<Rightarrow> string \<Rightarrow> item \<Rightarrow> string list \<Rightarrow> string option \<Rightarrow> string list option \<Rightarrow> string list option
      \<Rightarrow> string option \<Rightarrow> exn + EmailMessage" where
  "render_mail template name ctx to subject cc bcc reply_to =
     (case template (name @ ''.html.j2'') ctx of
        Inl e \<Rightarrow> Inl e
      | Inr html \<Rightarrow>
          (case (case template (name @ ''.txt.j2'') ctx of Inr t \<Rightarrow> Inr (Some t) | Inl e \<Rightarrow> if catchable e then Inr None else Inl e) of
             Inl e \<Rightarrow> Inl e
           | Inr text_body \<Rightarrow>
               (case (case template (name @ ''.subject.j2'') ctx of
                        Inr t \<Rightarrow> Inr (strip t) | Inl e \<Rightarrow> if catchable e then Inr (str_or subject []) else Inl e) of
                  Inl e \<Rightarrow> Inl e
                | Inr resolved \<Rightarrow>
                    Inr \<lparr>em_to = to, em_subject = resolved, em_html_body = html,
                         em_cc = (case cc of None \<Rightarrow> [] | Some x \<Rightarrow> x), em_bcc = (case bcc of None \<Rightarrow> [] | Some x \<Rightarrow> x),
                         em_text_body = text_body, em_attachments = [], em_reply_to = reply_to\<rparr>)))"

text \<open>A subject template wins over the subject the caller passes; errors in optional templates are swallowed.\<close>

lemma render_subject:
  assumes "render_mail template name ctx to subject cc bcc reply_to = Inr m"
  shows "em_subject m = (case template (name @ ''.subject.j2'') ctx of Inr t \<Rightarrow> strip t | Inl _ \<Rightarrow> str_or subject [])"
  using assms by (auto simp: render_mail_def split: sum.splits if_splits)

subsection \<open>Push notifications\<close>

record PushNotification =
  pn_device_tokens :: "string list"
  pn_title :: string
  pn_body :: string
  pn_data :: item
  pn_badge :: "int option"
  pn_sound :: "string option"

record SendResult =
  sd_token :: string
  sd_success :: bool
  sd_error :: "pyval option"

definition fcm_payload :: "(pyval \<Rightarrow> string) \<Rightarrow> PushNotification \<Rightarrow> string \<Rightarrow> item" where
  "fcm_payload str_of n token =
     [(''message'', PDict (
        [(''token'', PStr token), (''notification'', PDict [(''title'', PStr (pn_title n)), (''body'', PStr (pn_body n))])]
        @ (if pn_data n \<noteq> [] then [(''data'', PDict (map (\<lambda>(k, v). (k, PStr (str_of v))) (pn_data n)))] else [])
        @ (case pn_badge n of None \<Rightarrow> []
           | Some b \<Rightarrow> [(''apns'', PDict [(''payload'', PDict [(''aps'', PDict [(''badge'', PInt b)])])])])
        @ (if given (pn_sound n) then [(''android'', PDict [(''notification'', PDict [(''sound'', opt_str (pn_sound n))])])] else [])))]"

text \<open>\<open>has_content\<close> is the truth of \<^verbatim>\<open>resp.content\<close>. An error that is no dictionary has no \<^verbatim>\<open>get\<close>, which is an exception like any other.\<close>

definition fcm_error :: "(http_response \<Rightarrow> bool) \<Rightarrow> http_response \<Rightarrow> exn + pyval" where
  "fcm_error has_content resp =
     (case (if has_content resp then hr_json resp else Inr []) of
        Inl e \<Rightarrow> Inl e
      | Inr body \<Rightarrow>
          (case dict_get_or body ''error'' (PDict []) of
             PDict d \<Rightarrow> Inr (dict_get_or d ''message'' (PStr (hr_text resp)))
           | _ \<Rightarrow> Inl (plain_exn (UserError ''AttributeError'' Exception) ''object has no attribute get'')))"

definition fcm_one ::
    "(item \<Rightarrow> ('w, http_response) act) \<Rightarrow> (http_response \<Rightarrow> bool) \<Rightarrow> (pyval \<Rightarrow> string) \<Rightarrow> PushNotification \<Rightarrow> string \<Rightarrow> ('w, SendResult) act" where
  "fcm_one post has_content str_of n token =
     try_except
       (then_do (post (fcm_payload str_of n token))
         (\<lambda>resp. if hr_status resp \<in> {200, 204} then give \<lparr>sd_token = token, sd_success = True, sd_error = None\<rparr>
                 else outcome (map_sum id (\<lambda>err. \<lparr>sd_token = token, sd_success = False, sd_error = Some err\<rparr>) (fcm_error has_content resp))))
       (\<lambda>e. give \<lparr>sd_token = token, sd_success = False, sd_error = Some (PStr (exn_message e))\<rparr>)"

definition FCM_send ::
    "(item \<Rightarrow> ('w, http_response) act) \<Rightarrow> (http_response \<Rightarrow> bool) \<Rightarrow> (pyval \<Rightarrow> string) \<Rightarrow> PushNotification \<Rightarrow> ('w, SendResult list) act" where
  "FCM_send post has_content str_of n = collect_each (fcm_one post has_content str_of n) (pn_device_tokens n)"

definition InMemoryPushSender_send :: "PushNotification \<Rightarrow> PushNotification list \<Rightarrow> SendResult list \<times> PushNotification list" where
  "InMemoryPushSender_send n sent =
     (map (\<lambda>t. \<lparr>sd_token = t, sd_success = True, sd_error = None\<rparr>) (pn_device_tokens n), sent @ [n])"

text \<open>One result for every token, in order, whatever the service answers, unless a call is cancelled.\<close>

lemma fcm_one_total:
  assumes "\<And>p w e w'. post p w = (Inl e, w') \<Longrightarrow> catchable e" "\<And>(resp :: http_response) e. hr_json resp = Inl e \<Longrightarrow> catchable e"
  shows "\<exists>r w'. fcm_one post has_content str_of n token w = (Inr r, w') \<and> sd_token r = token"
proof -
  obtain x v where p: "post (fcm_payload str_of n token) w = (x, v)" by fastforce
  show ?thesis
  proof (cases x)
    case (Inl e)
    then show ?thesis using p assms(1)[of _ _ e v] by (auto simp: fcm_one_def try_except_def then_do_def)
  next
    case (Inr resp)
    have "catchable e" if "fcm_error has_content resp = Inl e" for e
      using that assms(2)[of resp] by (auto simp: fcm_error_def split: sum.splits if_splits pyval.splits)
    then show ?thesis using p Inr
      by (cases "fcm_error has_content resp") (auto simp: fcm_one_def try_except_def then_do_def)
  qed
qed

lemma fcm_one_result_per_token:
  assumes "\<And>p w e w'. post p w = (Inl e, w') \<Longrightarrow> catchable e" "\<And>(resp :: http_response) e. hr_json resp = Inl e \<Longrightarrow> catchable e"
  shows "\<exists>rs w'. FCM_send post has_content str_of n w = (Inr rs, w') \<and> map sd_token rs = pn_device_tokens n"
proof -
  have "\<exists>rs w'. collect_each (fcm_one post has_content str_of n) ts w = (Inr rs, w') \<and> map sd_token rs = ts" for ts w
  proof (induction ts arbitrary: w)
    case (Cons t ts)
    obtain r v where r: "fcm_one post has_content str_of n t w = (Inr r, v)" "sd_token r = t"
      using fcm_one_total[of post has_content str_of n t w] assms by blast
    obtain rs v' where "collect_each (fcm_one post has_content str_of n) ts v = (Inr rs, v')" "map sd_token rs = ts"
      using Cons by blast
    then show ?case using r by simp
  qed simp
  then show ?thesis by (simp add: FCM_send_def)
qed

subsection \<open>Text messages\<close>

record SmsMessage =
  ss_to :: string
  ss_body :: string
  ss_sender_id :: "string option"

record TwilioConfig =
  tw_account_sid :: string
  tw_auth_token :: string
  tw_from_number :: string
  tw_max_retries :: nat

definition twilio_headers :: "TwilioConfig \<Rightarrow> (string, string) pydict" where
  "twilio_headers c = [(''Authorization'', ''Basic '' @ std_b64 (tw_account_sid c @ '':'' @ tw_auth_token c))]"

definition twilio_data :: "TwilioConfig \<Rightarrow> SmsMessage \<Rightarrow> (string, string) pydict" where
  "twilio_data c m = [(''To'', ss_to m), (''From'', str_or (ss_sender_id m) (tw_from_number c)), (''Body'', ss_body m)]"

text \<open>The loop over \<^verbatim>\<open>range(max_retries)\<close>; \<open>id_of\<close> is the identifier as text.\<close>

fun twilio_loop ::
    "((string, string) pydict \<Rightarrow> (string, string) pydict \<Rightarrow> ('w, http_response) act) \<Rightarrow> (nat \<Rightarrow> 'w \<Rightarrow> 'w)
      \<Rightarrow> (http_response \<Rightarrow> exn option) \<Rightarrow> (pyval \<Rightarrow> string) \<Rightarrow> TwilioConfig \<Rightarrow> SmsMessage \<Rightarrow> nat list \<Rightarrow> ('w, string) act" where
  "twilio_loop post sleep status_error id_of c m [] w =
     (Inl (plain_exn RuntimeError ''Twilio: exceeded max retries (rate limited)''), w)"
| "twilio_loop post sleep status_error id_of c m (attempt # rest) w =
     (case post (twilio_data c m) (twilio_headers c) w of
        (Inl e, w') \<Rightarrow> (Inl e, w')
      | (Inr resp, w') \<Rightarrow>
          if hr_status resp = 429 then twilio_loop post sleep status_error id_of c m rest (sleep (2 ^ attempt) w')
          else case status_error resp of
                 Some e \<Rightarrow> (Inl e, w')
               | None \<Rightarrow> (map_sum id (\<lambda>body. id_of (dict_get_or body ''sid'' (PStr []))) (hr_json resp), w'))"

definition Twilio_send where
  "Twilio_send post sleep status_error id_of c m = twilio_loop post sleep status_error id_of c m [0..<tw_max_retries c]"

definition InMemorySmsSender_send :: "SmsMessage \<Rightarrow> SmsMessage list \<Rightarrow> string \<times> SmsMessage list" where
  "InMemorySmsSender_send m sent = (''mem-sms-'' @ show_nat (length sent + 1), sent @ [m])"

text \<open>A service that only ever answers 429: the sender makes \<^verbatim>\<open>max_retries\<close> attempts and sleeps after each, the last one included, for
  \<^verbatim>\<open>2 ** max_retries - 1\<close> seconds in all.\<close>

definition limited_post :: "http_response \<Rightarrow> (string, string) pydict \<Rightarrow> (string, string) pydict \<Rightarrow> (nat \<times> nat, http_response) act" where
  "limited_post resp d h w = (Inr resp, Suc (fst w), snd w)"

definition count_sleep :: "nat \<Rightarrow> nat \<times> nat \<Rightarrow> nat \<times> nat" where
  "count_sleep n w = (fst w, snd w + n)"

lemma twilio_rate_limited:
  assumes "hr_status resp = 429"
  shows "Twilio_send (limited_post resp) count_sleep status_error id_of c m (0, 0) =
    (Inl (plain_exn RuntimeError ''Twilio: exceeded max retries (rate limited)''), tw_max_retries c, 2 ^ tw_max_retries c - 1)"
proof -
  have "twilio_loop (limited_post resp) count_sleep status_error id_of c m [k..<k + n] (a, 2 ^ k - 1) =
      (Inl (plain_exn RuntimeError ''Twilio: exceeded max retries (rate limited)''), a + n, 2 ^ (k + n) - 1)" for k n a
  proof (induction n arbitrary: k a)
    case (Suc n)
    have "[k..<k + Suc n] = k # [Suc k..<Suc k + n]" by (simp add: upt_conv_Cons)
    moreover have "(2 :: nat) ^ k - 1 + 2 ^ k = 2 ^ Suc k - 1" by simp
    ultimately show ?case using Suc[of "Suc k" "Suc a"] assms by (simp add: limited_post_def count_sleep_def del: upt_Suc)
  qed simp
  from this[of 0 "tw_max_retries c" 0] show ?thesis by (simp add: Twilio_send_def)
qed

end
