(* ===== verification/Data_Export.thy ===== *)
theory Data_Export
  imports Py_Async
begin

text \<open>
  Data export (\<^verbatim>\<open>application/export\<close>): requests, the CSV exporter with the writer of the \<^verbatim>\<open>csv\<close> module, the JSON export and the service
  that chooses between them. A reader for CSV (the state machine of \<^verbatim>\<open>csv.reader\<close>) states what an exported file contains. The Excel
  exporter is a sequence of calls of the openpyxl package and is a parameter of the service.
\<close>

subsection \<open>Writing CSV\<close>

record ColumnDef =
  cd_key :: string
  cd_header :: string
  cd_format :: string

record ExportRequest =
  xr_columns :: "ColumnDef list"
  xr_rows :: "item list"
  xr_format :: string
  xr_filename :: string

definition quote_char :: char where
  "quote_char = CHR 0x22"

definition cr :: char where
  "cr = CHR 0x0D"

definition lf :: char where
  "lf = CHR 0x0A"

text \<open>\<^verbatim>\<open>QUOTE_MINIMAL\<close> quotes a field with a special character, \<^verbatim>\<open>QUOTE_ALL\<close> every field. A row that would be an empty line because its
  only field is empty is written as a quoted empty field.\<close>

datatype quoting = QUOTE_MINIMAL | QUOTE_ALL

definition special :: "char \<Rightarrow> char \<Rightarrow> bool" where
  "special d c \<longleftrightarrow> c \<in> {d, quote_char, cr, lf}"

definition escape_quotes :: "string \<Rightarrow> string" where
  "escape_quotes f = concat (map (\<lambda>c. if c = quote_char then [quote_char, quote_char] else [c]) f)"

definition csv_field :: "quoting \<Rightarrow> char \<Rightarrow> string \<Rightarrow> string" where
  "csv_field q d f = (if q = QUOTE_ALL \<or> list_ex (special d) f then quote_char # escape_quotes f @ [quote_char] else f)"

definition csv_row :: "quoting \<Rightarrow> char \<Rightarrow> string list \<Rightarrow> string" where
  "csv_row q d fs =
     (let line = join_with [d] (map (csv_field q d) fs)
      in (if fs \<noteq> [] \<and> line = [] then [quote_char, quote_char] else line) @ [cr, lf])"

record CsvExporter =
  ce_delimiter :: char
  ce_quoting :: quoting
  ce_bom :: bool

text \<open>The writer turns \<^verbatim>\<open>None\<close> into the empty field and other values into their \<^verbatim>\<open>str\<close>.\<close>

definition cell_text :: "(pyval \<Rightarrow> string) \<Rightarrow> pyval \<Rightarrow> string" where
  "cell_text str_of v = (case v of PNone \<Rightarrow> [] | PStr s \<Rightarrow> s | _ \<Rightarrow> str_of v)"

definition export_table :: "(pyval \<Rightarrow> string) \<Rightarrow> ExportRequest \<Rightarrow> string list list" where
  "export_table str_of r =
     map cd_header (xr_columns r)
     # map (\<lambda>row. map (\<lambda>col. cell_text str_of (dict_get_or row (cd_key col) (PStr []))) (xr_columns r)) (xr_rows r)"

definition utf8_bom :: string where
  "utf8_bom = [CHR 0xEF, CHR 0xBB, CHR 0xBF]"

definition CsvExporter_export :: "(pyval \<Rightarrow> string) \<Rightarrow> CsvExporter \<Rightarrow> ExportRequest \<Rightarrow> string" where
  "CsvExporter_export str_of c r =
     (if ce_bom c then utf8_bom else []) @ concat (map (csv_row (ce_quoting c) (ce_delimiter c)) (export_table str_of r))"

subsection \<open>The service\<close>

text \<open>A dictionary comprehension over the columns: a key named twice is there once.\<close>

definition json_row :: "ExportRequest \<Rightarrow> item \<Rightarrow> item" where
  "json_row r row = foldl (\<lambda>d col. dict_set (cd_key col) (dict_get_or row (cd_key col) PNone) d) [] (xr_columns r)"

definition export_json :: "(pyval \<Rightarrow> string) \<Rightarrow> ExportRequest \<Rightarrow> string" where
  "export_json dumps r = dumps (PList (map (\<lambda>row. PDict (json_row r row)) (xr_rows r)))"

definition ExportService_export ::
    "(pyval \<Rightarrow> string) \<Rightarrow> (pyval \<Rightarrow> string) \<Rightarrow> (ExportRequest \<Rightarrow> exn + string) \<Rightarrow> bool \<Rightarrow> ExportRequest \<Rightarrow> exn + string" where
  "ExportService_export str_of dumps excel bom r =
     (if xr_format r = ''csv'' then Inr (CsvExporter_export str_of \<lparr>ce_delimiter = CHR '','', ce_quoting = QUOTE_MINIMAL, ce_bom = bom\<rparr> r)
      else if xr_format r = ''xlsx'' then excel r
      else if xr_format r = ''json'' then Inr (export_json dumps r)
      else Inl (plain_exn ValueError (''Unsupported export format: '' @ repr_str (xr_format r))))"

subsection \<open>Reading CSV\<close>

datatype csv_state = StartRecord | StartField | InField | InQuoted | QuoteSeen

fun csv_read :: "char \<Rightarrow> csv_state \<Rightarrow> string \<Rightarrow> string list \<Rightarrow> string \<Rightarrow> string list list" where
  "csv_read d st f row [] = (if st = StartRecord then [] else [row @ [f]])"
| "csv_read d StartRecord f row (c # cs) =
     (if c = lf then csv_read d StartRecord [] [] cs
      else if c = cr then [] # csv_read d StartRecord [] [] cs
      else if c = quote_char then csv_read d InQuoted [] row cs
      else if c = d then csv_read d StartField [] (row @ [[]]) cs
      else csv_read d InField [c] row cs)"
| "csv_read d StartField f row (c # cs) =
     (if c = cr \<or> c = lf then (row @ [[]]) # csv_read d StartRecord [] [] cs
      else if c = quote_char then csv_read d InQuoted [] row cs
      else if c = d then csv_read d StartField [] (row @ [[]]) cs
      else csv_read d InField [c] row cs)"
| "csv_read d InField f row (c # cs) =
     (if c = cr \<or> c = lf then (row @ [f]) # csv_read d StartRecord [] [] cs
      else if c = d then csv_read d StartField [] (row @ [f]) cs
      else csv_read d InField (f @ [c]) row cs)"
| "csv_read d InQuoted f row (c # cs) =
     (if c = quote_char then csv_read d QuoteSeen f row cs else csv_read d InQuoted (f @ [c]) row cs)"
| "csv_read d QuoteSeen f row (c # cs) =
     (if c = quote_char then csv_read d InQuoted (f @ [quote_char]) row cs
      else if c = cr \<or> c = lf then (row @ [f]) # csv_read d StartRecord [] [] cs
      else if c = d then csv_read d StartField [] (row @ [f]) cs
      else csv_read d InField (f @ [c]) row cs)"

lemma quoted_text: "csv_read d InQuoted f row (escape_quotes s @ quote_char # rest) = csv_read d QuoteSeen (f @ s) row rest"
  by (induction s arbitrary: f) (simp_all add: escape_quotes_def)

lemma unquoted_text: "\<not> list_ex (special d) s \<Longrightarrow> csv_read d InField f row (s @ rest) = csv_read d InField (f @ s) row rest"
  by (induction s arbitrary: f) (auto simp: special_def)

text \<open>What is read when a field has ended with a delimiter or at the end of the line.\<close>

definition after_field :: "char \<Rightarrow> string list \<Rightarrow> char \<Rightarrow> string \<Rightarrow> string list list" where
  "after_field d row t rest = (if t = d then csv_read d StartField [] row rest else row # csv_read d StartRecord [] [] rest)"

definition ok_delimiter :: "char \<Rightarrow> bool" where
  "ok_delimiter d \<longleftrightarrow> d \<notin> {quote_char, cr, lf}"

lemma ends_differ: "quote_char \<noteq> cr" "cr \<noteq> quote_char" "lf \<noteq> cr" "cr \<noteq> lf" "lf \<noteq> quote_char" "quote_char \<noteq> lf"
  by (simp_all add: quote_char_def cr_def lf_def)

lemma read_field:
  assumes "ok_delimiter d" "t \<in> {d, cr}" "st = StartField \<or> st = StartRecord \<and> \<not> (csv_field q d x = [] \<and> t = cr)"
  shows "csv_read d st f row (csv_field q d x @ t # rest) = after_field d (row @ [x]) t rest"
proof (cases "q = QUOTE_ALL \<or> list_ex (special d) x")
  case True
  have "csv_read d st f row (csv_field q d x @ t # rest) = csv_read d QuoteSeen x row (t # rest)"
    using True assms(3) ends_differ quoted_text[of d "[]" row x "t # rest"] by (auto simp: csv_field_def)
  then show ?thesis using assms(1,2) ends_differ by (auto simp: after_field_def ok_delimiter_def)
next
  case False
  show ?thesis
  proof (cases x)
    case Nil
    then show ?thesis using False assms ends_differ by (auto simp: csv_field_def after_field_def ok_delimiter_def)
  next
    case (Cons c cs)
    then have c: "\<not> special d c" "\<not> list_ex (special d) cs" using False by auto
    then have "csv_read d st f row (x @ t # rest) = csv_read d InField [c] row (cs @ t # rest)"
      using Cons assms(3) by (auto simp: special_def)
    then show ?thesis using False c(2) Cons assms(1,2) ends_differ unquoted_text[of d cs "[c]" row "t # rest"]
      by (auto simp: csv_field_def after_field_def ok_delimiter_def)
  qed
qed

lemma read_more_fields:
  assumes "ok_delimiter d" "fs \<noteq> []"
  shows "csv_read d StartField [] row (join_with [d] (map (csv_field q d) fs) @ cr # rest) = (row @ fs) # csv_read d StartRecord [] [] rest"
  using assms(2)
proof (induction fs arbitrary: row rule: induct_list012)
  case (2 x)
  then show ?case using read_field[OF assms(1), of cr StartField q x "[]" row rest] assms(1)
    by (auto simp: after_field_def ok_delimiter_def)
next
  case (3 x y zs)
  then show ?case using read_field[OF assms(1), of d StartField q x "[]" row] by (simp add: after_field_def)
qed simp

lemma read_row:
  assumes "ok_delimiter d" "fs \<noteq> []"
  shows "csv_read d StartRecord [] [] (csv_row q d fs @ rest) = fs # csv_read d StartRecord [] [] rest"
proof (cases fs)
  case (Cons x ys)
  have lf_skip: "csv_read d StartRecord [] [] (lf # rest) = csv_read d StartRecord [] [] rest" by simp
  show ?thesis
  proof (cases ys)
    case Nil
    show ?thesis
    proof (cases "csv_field q d x = []")
      case True
      then have "x = []" by (auto simp: csv_field_def split: if_splits)
      then show ?thesis using True Cons Nil ends_differ by (simp add: csv_row_def)
    next
      case False
      then show ?thesis
        using read_field[OF assms(1), of cr StartRecord q x "[]" "[]" "lf # rest"] Cons Nil assms(1) lf_skip
        by (auto simp: csv_row_def after_field_def ok_delimiter_def)
    qed
  next
    case (Cons y zs)
    have f: "csv_read d StartRecord [] [] (csv_field q d x @ d # join_with [d] (map (csv_field q d) ys) @ cr # lf # rest)
        = csv_read d StartField [] [x] (join_with [d] (map (csv_field q d) ys) @ cr # lf # rest)"
      using read_field[OF assms(1), of d StartRecord q x "[]" "[]"] assms(1) by (auto simp: after_field_def ok_delimiter_def)
    show ?thesis
      using f read_more_fields[OF assms(1), of ys "[x]" q "lf # rest"] \<open>fs = x # ys\<close> Cons lf_skip
      by (simp add: csv_row_def)
  qed
qed (use assms in simp)

text \<open>C38. Exported CSV read back gives the table that was exported: the headers and, for every row and column, the value's text,
  whatever delimiters, quotes or line breaks it contains, for every delimiter other than a quote or a line end and with at
  least one column.\<close>

theorem csv_export_round_trip:
  assumes "ce_delimiter c \<notin> {quote_char, cr, lf}" "xr_columns r \<noteq> []"
  shows "csv_read (ce_delimiter c) StartRecord [] []
      (drop (if ce_bom c then length utf8_bom else 0) (CsvExporter_export str_of c r)) = export_table str_of r"
proof -
  have d: "ok_delimiter (ce_delimiter c)" using assms(1) by (simp add: ok_delimiter_def)
  have "csv_read (ce_delimiter c) StartRecord [] [] (concat (map (csv_row (ce_quoting c) (ce_delimiter c)) rows)) = rows"
    if "\<forall>fs \<in> set rows. fs \<noteq> []" for rows
    using that by (induction rows) (simp_all add: read_row[OF d])
  moreover have "\<forall>fs \<in> set (export_table str_of r). fs \<noteq> []" using assms(2) by (auto simp: export_table_def)
  ultimately show ?thesis by (simp add: CsvExporter_export_def utf8_bom_def)
qed

definition demo_csv :: CsvExporter where
  "demo_csv = \<lparr>ce_delimiter = CHR '','', ce_quoting = QUOTE_MINIMAL, ce_bom = True\<rparr>"

definition demo_export :: ExportRequest where
  "demo_export = \<lparr>xr_columns = [\<lparr>cd_key = ''n'', cd_header = ''Name'', cd_format = []\<rparr>],
     xr_rows = [[(''n'', PStr (''a,b'' @ [quote_char, cr, lf]))], []], xr_format = ''csv'', xr_filename = ''x''\<rparr>"

theorem csv_export_round_trip_witness:
  "csv_read (CHR '','') StartRecord [] [] (drop (length utf8_bom) (CsvExporter_export (\<lambda>_. []) demo_csv demo_export))
     = [[''Name''], [''a,b'' @ [quote_char, cr, lf]], [[]]]"
proof -
  have "ce_delimiter demo_csv \<notin> {quote_char, cr, lf}" by code_simp
  moreover have "xr_columns demo_export \<noteq> []" by (simp add: demo_export_def)
  ultimately show ?thesis
    using csv_export_round_trip[of demo_csv demo_export "\<lambda>_. []"]
    by (simp add: demo_csv_def export_table_def demo_export_def cell_text_def dict_get_or_def)
qed

text \<open>A missing value is an empty text in CSV and \<^verbatim>\<open>null\<close> in JSON.\<close>

lemma json_row_keys:
  assumes "k \<in> cd_key ` set (xr_columns r)"
  shows "map_of (json_row r row) k = Some (dict_get_or row k PNone)"
proof -
  have "map_of (foldl (\<lambda>d col. dict_set (cd_key col) (dict_get_or row (cd_key col) PNone) d) d cols) k =
      (if k \<in> cd_key ` set cols then Some (dict_get_or row k PNone) else map_of d k)" for cols :: "ColumnDef list" and d
    by (induction cols arbitrary: d) auto
  then show ?thesis using assms by (simp add: json_row_def)
qed

end
