(* ===== verification/Identity_And_Secrets.thy ===== *)
theory Identity_And_Secrets
  imports Py_Async Access_Control Configuration
begin

text \<open>
  Identity and secrets: the Keycloak token verifier, key client and policy engine (\<^verbatim>\<open>adapters/keycloak\<close>), the Azure Key Vault store
  (\<^verbatim>\<open>adapters/azure_keyvault/store.py\<close>) and the HashiCorp Vault store with its token renewer (\<^verbatim>\<open>adapters/vault/store.py\<close>). PyJWT and
  the clients of the vaults are parameters.
\<close>

subsection \<open>Verifying tokens\<close>

record OIDCTokenVerifier =
  ov_audience :: "string option"
  ov_algorithms :: "string list"
  ov_realm_roles_claim :: string
  ov_permissions_claim :: string

definition OIDCTokenVerifier_init :: "string option \<Rightarrow> string list option \<Rightarrow> string \<Rightarrow> string \<Rightarrow> OIDCTokenVerifier" where
  "OIDCTokenVerifier_init audience algorithms roles_claim permissions_claim =
     \<lparr>ov_audience = audience,
      ov_algorithms = (case algorithms of None \<Rightarrow> [''RS256''] | Some as \<Rightarrow> if as = [] then [''RS256''] else as),
      ov_realm_roles_claim = roles_claim, ov_permissions_claim = permissions_claim\<rparr>"

text \<open>\<^verbatim>\<open>node.get(part)\<close> along the path; a missing entry is \<^verbatim>\<open>None\<close>.\<close>

fun claim_path :: "string list \<Rightarrow> pyval \<Rightarrow> pyval option" where
  "claim_path [] node = Some node"
| "claim_path (p # ps) node = (case node of PDict d \<Rightarrow> claim_path ps (dict_get_or d p PNone) | _ \<Rightarrow> None)"

definition extract_roles :: "OIDCTokenVerifier \<Rightarrow> item \<Rightarrow> string list" where
  "extract_roles v claims =
     (case claim_path (split_on (CHR ''.'') (ov_realm_roles_claim v)) (PDict claims) of
        Some (PList xs) \<Rightarrow> concat (map (\<lambda>x. case x of PStr s \<Rightarrow> [s] | _ \<Rightarrow> []) xs)
      | _ \<Rightarrow> [])"

text \<open>\<^verbatim>\<open>s.split()\<close>: the maximal pieces without white space.\<close>

definition split_space :: "string \<Rightarrow> string list" where
  "split_space s = filter (\<lambda>x. x \<noteq> []) (split_on (CHR '' '') (map (\<lambda>c. if is_space c then CHR '' '' else c) s))"

text \<open>A scope that is neither false nor a text has no \<^verbatim>\<open>split\<close>.\<close>

definition extract_permissions :: "OIDCTokenVerifier \<Rightarrow> item \<Rightarrow> exn + string list" where
  "extract_permissions v claims =
     (let scope = dict_get_or claims (ov_permissions_claim v) (PStr [])
      in if \<not> truthy scope then Inr []
         else case scope of
                PStr s \<Rightarrow> Inr (split_space s)
              | _ \<Rightarrow> Inl (plain_exn (UserError ''AttributeError'' Exception) ''object has no attribute split''))"

text \<open>\<open>decode\<close> is \<^verbatim>\<open>jwt.decode\<close> with key, algorithms, audience and whether the audience is checked; \<open>invalid_token\<close> is
  \<^verbatim>\<open>jwt.InvalidTokenError\<close>. The claims the principal takes are text or absent.\<close>

definition claim_text :: "item \<Rightarrow> string \<Rightarrow> string option" where
  "claim_text claims k = (case map_of claims k of Some (PStr s) \<Rightarrow> Some s | _ \<Rightarrow> None)"

definition verify_token ::
    "exc_class \<Rightarrow> (string \<Rightarrow> ('w, 'k) act) \<Rightarrow> (string \<Rightarrow> 'k \<Rightarrow> string list \<Rightarrow> string option \<Rightarrow> bool \<Rightarrow> exn + item)
      \<Rightarrow> OIDCTokenVerifier \<Rightarrow> string \<Rightarrow> ('w, Principal) act" where
  "verify_token invalid_token get_signing_key decode v token w =
     (let attempt = then_do (get_signing_key token)
            (\<lambda>key. outcome (decode token key (ov_algorithms v) (ov_audience v) (ov_audience v \<noteq> None)))
      in case attempt w of
           (Inl e, w') \<Rightarrow>
             (if isinstance e [invalid_token]
              then Inl (raised_from (base_exn UnauthorizedError (''Invalid token: '' @ exn_message e)) e)
              else if catchable e
              then Inl (raised_from (base_exn UnauthorizedError (''Token verification failed: '' @ exn_message e)) e)
              else Inl e, w')
         | (Inr claims, w') \<Rightarrow>
             (case extract_permissions v claims of
                Inl e \<Rightarrow> (Inl e, w')
              | Inr perms \<Rightarrow>
                  (Inr \<lparr>pr_subject = (case claim_text claims ''sub'' of None \<Rightarrow> [] | Some s \<Rightarrow> s),
                        pr_tenant_id = claim_text claims ''tenant_id'', pr_roles = remdups (extract_roles v claims),
                        pr_permissions = remdups perms, pr_claims = claims, pr_is_service_account = False\<rparr>, w')))"

text \<open>The key client is created on first use and dropped by \<^verbatim>\<open>invalidate\<close>; \<open>create\<close> is the constructor of PyJWT's client with the
  lifespan in whole seconds.\<close>

record 'c JWKSClient =
  jk_uri :: string
  jk_cache_ttl :: rat
  jk_client :: "'c option"

definition JWKS_get_client :: "(string \<Rightarrow> int \<Rightarrow> 'c) \<Rightarrow> 'c JWKSClient \<Rightarrow> 'c \<times> 'c JWKSClient" where
  "JWKS_get_client create j =
     (case jk_client j of
        Some c \<Rightarrow> (c, j)
      | None \<Rightarrow> (let c = create (jk_uri j) (if jk_cache_ttl j \<ge> 0 then \<lfloor>jk_cache_ttl j\<rfloor> else \<lceil>jk_cache_ttl j\<rceil>)
                 in (c, j\<lparr>jk_client := Some c\<rparr>)))"

definition JWKS_invalidate :: "'c JWKSClient \<Rightarrow> 'c JWKSClient" where
  "JWKS_invalidate j = j\<lparr>jk_client := None\<rparr>"

definition Keycloak_evaluate :: "PolicyContext \<Rightarrow> PolicyDecision" where
  "Keycloak_evaluate c =
     (if has_permission (pc_principal c) (pc_resource c @ '':'' @ pc_action c) then ALLOW
      else if has_role (pc_principal c) ''admin'' then ALLOW else DENY)"

subsection \<open>From a token to a decision\<close>

text \<open>A token is accepted only when its key was found and it decoded with the configured algorithms and audience; the policy engine
  then allows an action exactly when the token's scope names it or its realm roles include \<^verbatim>\<open>admin\<close>.\<close>

theorem keycloak_decision:
  assumes "verify_token invalid_token get_signing_key decode v token w = (Inr p, w')"
    and "pc_principal c = p"
  shows "\<exists>key w1 claims perms. get_signing_key token w = (Inr key, w1)
    \<and> decode token key (ov_algorithms v) (ov_audience v) (ov_audience v \<noteq> None) = Inr claims
    \<and> extract_permissions v claims = Inr perms
    \<and> (Keycloak_evaluate c = ALLOW \<longleftrightarrow> pc_resource c @ '':'' @ pc_action c \<in> set perms \<or> ''admin'' \<in> set (extract_roles v claims))"
proof -
  obtain r w1 where k: "get_signing_key token w = (r, w1)" by fastforce
  then obtain key where key: "r = Inr key" using assms(1) by (cases r) (auto simp: verify_token_def then_do_def Let_def split: if_splits)
  then obtain claims where c: "decode token key (ov_algorithms v) (ov_audience v) (ov_audience v \<noteq> None) = Inr claims"
    using assms(1) k by (cases "decode token key (ov_algorithms v) (ov_audience v) (ov_audience v \<noteq> None)")
      (auto simp: verify_token_def then_do_def Let_def split: if_splits)
  then obtain perms where p: "extract_permissions v claims = Inr perms"
    using assms(1) k key by (cases "extract_permissions v claims") (auto simp: verify_token_def then_do_def Let_def)
  have "pr_permissions p = remdups perms" "pr_roles p = remdups (extract_roles v claims)"
    using assms(1) k key c p by (auto simp: verify_token_def then_do_def Let_def)
  then show ?thesis using k key c p assms(2) by (auto simp: Keycloak_evaluate_def has_permission_def has_role_def)
qed

definition demo_oidc :: OIDCTokenVerifier where
  "demo_oidc = OIDCTokenVerifier_init (Some ''api'') None ''realm_access.roles'' ''scope''"

definition demo_claims :: item where
  "demo_claims = [(''sub'', PStr ''u1''), (''scope'', PStr ''orders:read profile''),
     (''realm_access'', PDict [(''roles'', PList [PStr ''user'', PInt 3])])]"

definition demo_decode :: "string \<Rightarrow> unit \<Rightarrow> string list \<Rightarrow> string option \<Rightarrow> bool \<Rightarrow> exn + item" where
  "demo_decode token key algs aud check =
     (if token = ''good'' \<and> aud = Some ''api'' then Inr demo_claims else Inl (plain_exn (UserError ''InvalidTokenError'' Exception) ''bad''))"

theorem keycloak_decision_witness:
  "\<exists>p w'. verify_token (UserError ''InvalidTokenError'' Exception) (\<lambda>_ w. (Inr (), w)) demo_decode demo_oidc ''good'' () = (Inr p, w')
    \<and> Keycloak_evaluate \<lparr>pc_principal = p, pc_resource = ''orders'', pc_action = ''read'', pc_attributes = []\<rparr> = ALLOW
    \<and> Keycloak_evaluate \<lparr>pc_principal = p, pc_resource = ''orders'', pc_action = ''write'', pc_attributes = []\<rparr> = DENY"
proof -
  have x: "extract_permissions demo_oidc demo_claims = Inr [''orders:read'', ''profile'']" "extract_roles demo_oidc demo_claims = [''user'']"
    by code_simp+
  obtain p w' where v: "verify_token (UserError ''InvalidTokenError'' Exception) (\<lambda>_ w. (Inr (), w)) demo_decode demo_oidc ''good'' () = (Inr p, w')"
    using x by (simp add: verify_token_def then_do_def Let_def demo_decode_def demo_oidc_def OIDCTokenVerifier_init_def)
  have d: "Keycloak_evaluate \<lparr>pc_principal = p, pc_resource = res, pc_action = a, pc_attributes = []\<rparr> = ALLOW
      \<longleftrightarrow> res @ '':'' @ a \<in> {''orders:read'', ''profile''}" for res a
    using keycloak_decision[OF v, of "\<lparr>pc_principal = p, pc_resource = res, pc_action = a, pc_attributes = []\<rparr>"] x
    by (auto simp: demo_decode_def demo_oidc_def OIDCTokenVerifier_init_def split: if_splits)
  show ?thesis using v d[of "''orders''" "''read''"] d[of "''orders''" "''write''"]
    by (cases "Keycloak_evaluate \<lparr>pc_principal = p, pc_resource = ''orders'', pc_action = ''write'', pc_attributes = []\<rparr>") auto
qed

text \<open>Failures of decoding are reported as unauthorized; a scope claim of another type is not.\<close>

lemma verify_failure_class:
  assumes "verify_token invalid_token get_signing_key decode v token w = (Inl e, w')"
    and "\<And>x w1. get_signing_key token w = (Inl x, w1) \<Longrightarrow> catchable x" "\<And>key x. decode token key (ov_algorithms v) (ov_audience v) (ov_audience v \<noteq> None) = Inl x \<Longrightarrow> catchable x"
  shows "exn_class e = UnauthorizedError
    \<or> (\<exists>key w1 claims. get_signing_key token w = (Inr key, w1)
        \<and> decode token key (ov_algorithms v) (ov_audience v) (ov_audience v \<noteq> None) = Inr claims \<and> extract_permissions v claims = Inl e)"
proof -
  obtain r w1 where k: "get_signing_key token w = (r, w1)" by fastforce
  show ?thesis
  proof (cases r)
    case (Inl x)
    then show ?thesis using assms(1) assms(2)[of x w1] k by (auto simp: verify_token_def then_do_def Let_def split: if_splits)
  next
    case (Inr key)
    then show ?thesis using assms(1) assms(3)[of key] k
      by (cases "decode token key (ov_algorithms v) (ov_audience v) (ov_audience v \<noteq> None)")
         (auto simp: verify_token_def then_do_def Let_def split: if_splits sum.splits)
  qed
qed

lemma list_scope_not_unauthorized:
  "truthy (PList xs) \<Longrightarrow> map_of claims (ov_permissions_claim v) = Some (PList xs) \<Longrightarrow>
     \<exists>e. extract_permissions v claims = Inl e \<and> exn_class e \<noteq> UnauthorizedError"
  by (simp add: extract_permissions_def dict_get_or_def Let_def)

lemma jwks_client_cached:
  "JWKS_get_client create (snd (JWKS_get_client create j)) = (fst (JWKS_get_client create j), snd (JWKS_get_client create j))"
  by (simp add: JWKS_get_client_def Let_def split: option.split)

subsection \<open>Azure Key Vault\<close>

definition vault_name :: "string \<Rightarrow> string" where
  "vault_name s = map (\<lambda>c. if c = CHR ''_'' then CHR ''-'' else c) (map (\<lambda>c. if c = CHR ''/'' then CHR ''-'' else c) s)"

definition secret_name :: "string \<Rightarrow> string \<Rightarrow> string" where
  "secret_name path key = vault_name (if path \<noteq> [] then path @ ''-'' @ key else key)"

record 'w keyvault_ops =
  kv_enter :: "('w, unit) act"
  kv_leave :: "('w, unit) act"
  kv_get :: "string \<Rightarrow> string option \<Rightarrow> ('w, string) act"
  kv_list :: "('w, (string \<times> bool) list) act"

definition secret_missing :: "exn \<Rightarrow> bool" where
  "secret_missing e \<longleftrightarrow> named_like ''SecretNotFound'' e \<or> says ''404'' e \<or> says ''SecretNotFound'' e"

definition KeyVault_get :: "'w keyvault_ops \<Rightarrow> SecretRef \<Rightarrow> ('w, string) act" where
  "KeyVault_get ops r =
     (let name = secret_name (sref_path r) (sref_key r)
      in async_with (kv_enter ops) (\<lambda>_. kv_leave ops)
           (\<lambda>_. try_except (kv_get ops name (sref_version r))
              (\<lambda>e. throw (if secret_missing e
                          then raised_from (plain_exn KeyError (''Secret '' @ quoted name @ '' not found in vault'')) e else e))))"

fun read_secrets :: "'w keyvault_ops \<Rightarrow> string \<Rightarrow> (string, string) pydict \<Rightarrow> (string \<times> bool) list \<Rightarrow> ('w, (string, string) pydict) act" where
  "read_secrets ops pfx result [] w = (Inr result, w)"
| "read_secrets ops pfx result ((name, enabled) # ps) w =
     (if name \<noteq> [] \<and> startswith name pfx \<and> enabled
      then (case kv_get ops name None w of
              (Inl e, w') \<Rightarrow> (Inl e, w')
            | (Inr v, w') \<Rightarrow> read_secrets ops pfx (dict_set name v result) ps w')
      else read_secrets ops pfx result ps w)"

definition KeyVault_get_all :: "'w keyvault_ops \<Rightarrow> string \<Rightarrow> ('w, (string, string) pydict) act" where
  "KeyVault_get_all ops path =
     async_with (kv_enter ops) (\<lambda>_. kv_leave ops)
       (\<lambda>_. then_do (kv_list ops) (\<lambda>ps. read_secrets ops (vault_name path) [] ps))"

text \<open>Different references may name the same secret: the separators of a path, of a key and between them all become hyphens.\<close>

lemma secret_name_chars: "CHR ''/'' \<notin> set (secret_name path key) \<and> CHR ''_'' \<notin> set (secret_name path key)"
  by (auto simp: secret_name_def vault_name_def split: if_splits)

lemma secret_name_shifts: "p \<noteq> [] \<Longrightarrow> secret_name (p @ ''/'' @ q) k = secret_name p (q @ ''_'' @ k)"
  by (simp add: secret_name_def vault_name_def)

lemma read_secrets_keys:
  "read_secrets ops pfx result ps w = (Inr d, w') \<Longrightarrow>
     fst ` set d = fst ` set result \<union> {n. (n, True) \<in> set ps \<and> n \<noteq> [] \<and> startswith n pfx}"
  by (induction ops pfx result ps w rule: read_secrets.induct) (auto split: if_splits prod.splits sum.splits)

text \<open>Listing a path also returns the secrets of every path it is a textual prefix of.\<close>

lemma get_all_includes_neighbours:
  assumes "kv_enter ops w = (Inr (), w1)" "kv_list ops w1 = (Inr ps, w2)" "KeyVault_get_all ops path w = (Inr d, w')"
    and "(secret_name (path @ rest) key, True) \<in> set ps" "path \<noteq> []"
  shows "secret_name (path @ rest) key \<in> fst ` set d"
proof -
  obtain d' w3 where r: "read_secrets ops (vault_name path) [] ps w2 = (Inr d', w3)" and "d' = d"
    using assms(1-3) by (auto simp: KeyVault_get_all_def async_with_def then_do_def split: prod.splits sum.splits)
  have "startswith (secret_name (path @ rest) key) (vault_name path)"
    using assms(5) by (simp add: secret_name_def vault_name_def startswith_def)
  moreover have "secret_name (path @ rest) key \<noteq> []" using assms(5) by (simp add: secret_name_def vault_name_def)
  ultimately show ?thesis using read_secrets_keys[OF r] assms(4) \<open>d' = d\<close> by auto
qed

subsection \<open>HashiCorp Vault\<close>

definition Vault_sync_get :: "(string \<Rightarrow> ('w, (string, string) pydict) act) \<Rightarrow> SecretRef \<Rightarrow> ('w, string) act" where
  "Vault_sync_get read r =
     then_do (read (sref_path r))
       (\<lambda>data. case map_of data (sref_key r) of
          None \<Rightarrow> throw (plain_exn KeyError (''Key '' @ quoted (sref_key r) @ '' not found at path '' @ quoted (sref_path r)))
        | Some v \<Rightarrow> give v)"

text \<open>The version of a reference is not passed on: two references that differ only there read the same secret.\<close>

lemma vault_ignores_version: "Vault_sync_get read (r\<lparr>sref_version := v\<rparr>) = Vault_sync_get read r"
  by (simp add: Vault_sync_get_def cong: option.case_cong)

text \<open>One round of the renewal loop; the rest of a round is sleeping.\<close>

definition renew_round :: "('w, int) act \<Rightarrow> ('w, unit) act \<Rightarrow> int \<Rightarrow> ('w, unit) act" where
  "renew_round lookup_ttl renew_self renew_before =
     try_except (then_do lookup_ttl (\<lambda>ttl. if ttl \<le> renew_before then renew_self else give ())) (\<lambda>_. give ())"

lemma renew_round_survives:
  assumes "\<And>w e w'. lookup_ttl w = (Inl e, w') \<Longrightarrow> catchable e" "\<And>w e w'. renew_self w = (Inl e, w') \<Longrightarrow> catchable e"
  shows "fst (renew_round lookup_ttl renew_self n w) = Inr ()"
proof -
  obtain r w1 where l: "lookup_ttl w = (r, w1)" by fastforce
  obtain q w2 where "renew_self w1 = (q, w2)" by fastforce
  then show ?thesis using l assms(1)[of w _ w1] assms(2)[of w1 _ w2]
    by (cases r; cases q) (auto simp: renew_round_def try_except_def then_do_def)
qed

end
