(* ===== verification/Audit_And_Tracing.thy ===== *)
theory Audit_And_Tracing
  imports Py_Async Access_Control Monitoring
begin

text \<open>
  Auditing and tracing: the SQLAlchemy audit store (\<^verbatim>\<open>adapters/sqlalchemy/audit.py\<close>) against the in-memory one, the audit logger
  (\<^verbatim>\<open>observability/logging/audit.py\<close>), the trace-header carriers of Kafka and NATS (\<^verbatim>\<open>adapters/opentelemetry\<close>), and the Prometheus
  health exporter (\<^verbatim>\<open>adapters/prometheus/health_exporter.py\<close>). A select statement is the list of its conditions; the locale
  \<open>audit_table\<close> says what a database makes of the two statements the store builds.
\<close>

subsection \<open>The SQL audit store\<close>

record audit_row =
  ar_event_id :: string
  ar_principal_id :: string
  ar_action :: string
  ar_resource_type :: string
  ar_resource_id :: string
  ar_outcome :: AuditOutcome
  ar_occurred_at :: microseconds
  ar_metadata_json :: string

datatype audit_condition =
    PrincipalIs string
  | FromTime microseconds
  | ToTime microseconds
  | ActionContains string
  | OutcomeIs AuditOutcome

definition audit_insert :: "((string, pyval) pydict \<Rightarrow> string) \<Rightarrow> AuditEvent \<Rightarrow> audit_row" where
  "audit_insert dumps e =
     \<lparr>ar_event_id = au_event_id e, ar_principal_id = au_principal_id e, ar_action = au_action e,
      ar_resource_type = au_resource_type e, ar_resource_id = au_resource_id e, ar_outcome = au_outcome e,
      ar_occurred_at = au_occurred_at e, ar_metadata_json = dumps (au_metadata e)\<rparr>"

definition opt_cond :: "'a option \<Rightarrow> ('a \<Rightarrow> audit_condition) \<Rightarrow> audit_condition list" where
  "opt_cond x f = (case x of None \<Rightarrow> [] | Some a \<Rightarrow> [f a])"

definition audit_select :: "audit_query \<Rightarrow> audit_condition list" where
  "audit_select q =
     opt_cond (aq_principal_id q) PrincipalIs @ opt_cond (aq_from_dt q) FromTime @ opt_cond (aq_to_dt q) ToTime
     @ opt_cond (aq_action_filter q) ActionContains @ opt_cond (aq_outcome q) OutcomeIs"

definition audit_of_row :: "(string \<Rightarrow> exn + (string, pyval) pydict) \<Rightarrow> audit_row \<Rightarrow> exn + AuditEvent" where
  "audit_of_row loads r =
     (case (if ar_metadata_json r \<noteq> [] then loads (ar_metadata_json r) else Inr []) of
        Inl e \<Rightarrow> Inl e
      | Inr md \<Rightarrow>
          Inr \<lparr>au_principal_id = ar_principal_id r, au_action = ar_action r, au_resource_type = ar_resource_type r,
               au_resource_id = ar_resource_id r, au_outcome = ar_outcome r, au_event_id = ar_event_id r,
               au_occurred_at = ar_occurred_at r, au_metadata = md\<rparr>)"

record 'w audit_session =
  as_insert :: "audit_row \<Rightarrow> ('w, unit) act"
  as_select :: "audit_condition list \<Rightarrow> int \<Rightarrow> ('w, audit_row list) act"

definition SqlAuditStore_record :: "'w audit_session \<Rightarrow> ((string, pyval) pydict \<Rightarrow> string) \<Rightarrow> AuditEvent \<Rightarrow> ('w, unit) act" where
  "SqlAuditStore_record s dumps e = as_insert s (audit_insert dumps e)"

definition SqlAuditStore_query ::
    "'w audit_session \<Rightarrow> (string \<Rightarrow> exn + (string, pyval) pydict) \<Rightarrow> audit_query \<Rightarrow> ('w, AuditEvent list) act" where
  "SqlAuditStore_query s loads q =
     then_do (as_select s (audit_select q) (aq_limit q)) (\<lambda>rows. outcome (build_all (audit_of_row loads) rows))"

subsection \<open>Patterns\<close>

text \<open>\<^verbatim>\<open>column.contains(x)\<close> is \<^verbatim>\<open>LIKE '%' || x || '%'\<close>: a percent sign or an underscore in \<^verbatim>\<open>x\<close> is a wildcard.\<close>

fun like_match :: "string \<Rightarrow> string \<Rightarrow> bool" where
  "like_match [] s = (s = [])"
| "like_match (p # ps) s =
     (if p = CHR ''%'' then list_ex (\<lambda>i. like_match ps (drop i s)) [0..<Suc (length s)]
      else case s of [] \<Rightarrow> False | c # cs \<Rightarrow> (p = CHR ''_'' \<or> p = c) \<and> like_match ps cs)"

definition sql_contains :: "string \<Rightarrow> string \<Rightarrow> bool" where
  "sql_contains x s \<longleftrightarrow> like_match (''%'' @ x @ ''%'') s"

definition no_wildcards :: "string \<Rightarrow> bool" where
  "no_wildcards x \<longleftrightarrow> CHR ''%'' \<notin> set x \<and> CHR ''_'' \<notin> set x"

lemma like_percent: "like_match ''%'' s"
  by (auto simp: list_ex_iff intro!: bexI[of _ "length s"])

lemma like_prefix: "no_wildcards x \<Longrightarrow> like_match (x @ ''%'') s \<longleftrightarrow> prefix x s"
proof (induction x arbitrary: s)
  case Nil
  then show ?case using like_percent[of s] by simp
next
  case (Cons c x)
  then show ?case by (cases s) (auto simp: no_wildcards_def simp del: upt_Suc)
qed

lemma contains_sublist: "no_wildcards x \<Longrightarrow> sql_contains x s \<longleftrightarrow> sublist x s"
proof -
  assume ok: "no_wildcards x"
  have "sql_contains x s \<longleftrightarrow> (\<exists>i \<le> length s. prefix x (drop i s))"
    unfolding sql_contains_def using like_prefix[OF ok] by (auto simp: list_ex_iff less_Suc_eq_le simp del: upt_Suc)
  also have "\<dots> \<longleftrightarrow> sublist x s"
  proof
    assume "\<exists>i \<le> length s. prefix x (drop i s)"
    then obtain i zs where "drop i s = x @ zs" by (auto simp: prefix_def)
    then have "s = take i s @ x @ zs" by (metis append_take_drop_id)
    then show "sublist x s" unfolding sublist_def by blast
  next
    assume "sublist x s"
    then obtain ps ss where "s = ps @ x @ ss" by (auto simp: sublist_def)
    then show "\<exists>i \<le> length s. prefix x (drop i s)" by (intro exI[of _ "length ps"]) simp
  qed
  finally show ?thesis .
qed

lemma contains_wildcard: "sql_contains ''user_created'' ''user.created'' \<and> \<not> sublist ''user_created'' ''user.created''"
  by code_simp

fun row_holds :: "audit_condition \<Rightarrow> audit_row \<Rightarrow> bool" where
  "row_holds (PrincipalIs p) r = (ar_principal_id r = p)"
| "row_holds (FromTime t) r = (t \<le> ar_occurred_at r)"
| "row_holds (ToTime t) r = (ar_occurred_at r \<le> t)"
| "row_holds (ActionContains a) r = sql_contains a (ar_action r)"
| "row_holds (OutcomeIs x) r = (ar_outcome r = x)"

text \<open>A table with its rows in the order of insertion; rows of the same instant are returned in that order.\<close>

locale audit_table =
  fixes s :: "'w audit_session" and rows :: "'w \<Rightarrow> audit_row list"
  assumes insert_law: "\<exists>w'. as_insert s r w = (Inr (), w') \<and> rows w' = rows w @ [r]"
    and select_law: "0 \<le> n \<Longrightarrow> \<exists>w'. as_select s conds n w =
      (Inr (take (nat n) (sort_key ar_occurred_at (filter (\<lambda>r. list_all (\<lambda>c. row_holds c r) conds) (rows w)))), w') \<and> rows w' = rows w"
begin

lemma record_law:
  "\<exists>w'. SqlAuditStore_record s dumps e w = (Inr (), w') \<and> rows w' = rows w @ [audit_insert dumps e]"
  unfolding SqlAuditStore_record_def by (rule insert_law)

lemma is_audit_table: "audit_table s rows"
  by unfold_locales

end

lemma select_holds:
  assumes "\<forall>a. aq_action_filter q = Some a \<longrightarrow> no_wildcards a"
  shows "list_all (\<lambda>c. row_holds c (audit_insert dumps e)) (audit_select q) \<longleftrightarrow> audit_matches q e"
  using assms by (auto simp: audit_select_def opt_cond_def audit_matches_def opt_holds_def audit_insert_def contains_sublist split: option.splits)

lemma sort_key_map: "sort_key f (map g xs) = map g (sort_key (f \<circ> g) xs)"
proof -
  have "insort_key f (g x) (map g ys) = map g (insort_key (f \<circ> g) x ys)" for x ys by (induction ys) auto
  then show ?thesis by (induction xs) auto
qed

text \<open>Events recorded one after the other.\<close>

fun record_all :: "'w audit_session \<Rightarrow> ((string, pyval) pydict \<Rightarrow> string) \<Rightarrow> AuditEvent list \<Rightarrow> 'w \<Rightarrow> 'w" where
  "record_all s dumps [] w = w"
| "record_all s dumps (e # es) w = record_all s dumps es (snd (SqlAuditStore_record s dumps e w))"

lemma record_all_rows:
  assumes "audit_table s rows"
  shows "rows (record_all s dumps es w) = rows w @ map (audit_insert dumps) es"
proof (induction es arbitrary: w)
  case (Cons e es)
  obtain w' where "SqlAuditStore_record s dumps e w = (Inr (), w')" "rows w' = rows w @ [audit_insert dumps e]"
    using audit_table.record_law[OF assms] by blast
  then show ?case using Cons[of w'] by simp
qed simp


definition reference_audit :: "(audit_row list) audit_session" where
  "reference_audit =
     \<lparr>as_insert = (\<lambda>r w. (Inr (), w @ [r])),
      as_select = (\<lambda>conds n w. (Inr (take (nat n) (sort_key ar_occurred_at (filter (\<lambda>r. list_all (\<lambda>c. row_holds c r) conds) w))), w))\<rparr>"

interpretation reference_audit: audit_table reference_audit "\<lambda>w. w"
  by unfold_locales (simp_all add: reference_audit_def)

definition demo_sql_query :: audit_query where
  "demo_sql_query = \<lparr>aq_principal_id = Some ''bob'', aq_from_dt = None, aq_to_dt = None, aq_action_filter = Some ''re'',
     aq_outcome = None, aq_limit = 10\<rparr>"


subsection \<open>The audit logger\<close>

text \<open>\<open>who\<close> is \<^verbatim>\<open>getattr(principal, "id", None) or str(principal)\<close>, \<open>stamp\<close> the time in ISO format. The fields the caller passes come last
  in the dictionary display.\<close>

definition access_entry :: "string \<Rightarrow> pyval \<Rightarrow> string \<Rightarrow> string \<Rightarrow> string \<Rightarrow> string \<Rightarrow> item \<Rightarrow> item" where
  "access_entry service who resource action result stamp extra =
     dict_update
       [(''event'', PStr ''audit.access''), (''service'', PStr service), (''principal_id'', who), (''resource'', PStr resource),
        (''action'', PStr action), (''outcome'', PStr result), (''timestamp'', PStr stamp)] extra"

definition security_entry :: "string \<Rightarrow> string \<Rightarrow> pyval option \<Rightarrow> string \<Rightarrow> string \<Rightarrow> item \<Rightarrow> item" where
  "security_entry service event_type who description stamp extra =
     (let entry = dict_update
        [(''event'', PStr (''audit.'' @ event_type)), (''service'', PStr service), (''event_type'', PStr event_type),
         (''description'', PStr description), (''timestamp'', PStr stamp)] extra
      in case who of None \<Rightarrow> entry | Some p \<Rightarrow> dict_set ''principal_id'' p entry)"

datatype log_call = Structured pyval item | Formatted pyval item

text \<open>\<open>structlog\<close> tells whether that package is installed, \<open>accepts\<close> whether the logger takes keyword fields; the standard one raises a
  \<^verbatim>\<open>TypeError\<close> for them. In the handler the event is taken out of the entry a second time.\<close>

definition audit_emit :: "bool \<Rightarrow> bool \<Rightarrow> item \<Rightarrow> log_call" where
  "audit_emit structlog accepts entry =
     (if structlog
      then (let event = dict_get_or entry ''event'' (PStr ''audit''); rest = dict_pop ''event'' entry
            in if accepts \<or> rest = [] then Structured event rest
               else Formatted (dict_get_or rest ''event'' (PStr ''audit'')) (dict_pop ''event'' rest))
      else Formatted (dict_get_or entry ''event'' (PStr ''audit'')) (dict_pop ''event'' entry))"

definition AuditLogger_log_access ::
    "bool \<Rightarrow> bool \<Rightarrow> string \<Rightarrow> pyval \<Rightarrow> string \<Rightarrow> string \<Rightarrow> string \<Rightarrow> string \<Rightarrow> item \<Rightarrow> log_call" where
  "AuditLogger_log_access structlog accepts service who resource action result stamp extra =
     audit_emit structlog accepts (access_entry service who resource action result stamp extra)"

definition AuditLogger_log_security_event ::
    "bool \<Rightarrow> bool \<Rightarrow> string \<Rightarrow> string \<Rightarrow> pyval option \<Rightarrow> string \<Rightarrow> string \<Rightarrow> item \<Rightarrow> log_call" where
  "AuditLogger_log_security_event structlog accepts service event_type who description stamp extra =
     audit_emit structlog accepts (security_entry service event_type who description stamp extra)"

lemma map_of_access_entry:
  "map_of (access_entry service who resource action result stamp extra) ''service'' =
     (case map_of (rev extra) ''service'' of None \<Rightarrow> Some (PStr service) | Some v \<Rightarrow> Some v)"
  by (simp add: access_entry_def map_of_dict_update split: option.split)

text \<open>With structlog installed and the default logger every event is logged under the name \<^verbatim>\<open>audit\<close>; without structlog it keeps its own
  name.\<close>

lemma audit_event_name_lost:
  assumes "map_of entry ''event'' = Some ev" "dict_pop ''event'' entry \<noteq> []"
  shows "audit_emit True False entry = Formatted (PStr ''audit'') (dict_pop ''event'' entry)
    \<and> audit_emit False False entry = Formatted ev (dict_pop ''event'' entry)"
proof -
  have "''event'' \<notin> fst ` set (dict_pop ''event'' entry)" by simp
  then have "dict_pop ''event'' (dict_pop ''event'' entry) = dict_pop ''event'' entry" by (rule dict_pop_idem)
  then show ?thesis using assms by (simp add: audit_emit_def dict_get_or_def Let_def)
qed

text \<open>A caller's fields replace those the logger fills in.\<close>

lemma audit_fields_replaceable:
  "map_of (access_entry service who resource action result stamp [(''principal_id'', other)]) ''principal_id'' = Some other"
  by (simp add: access_entry_def map_of_dict_update)

subsection \<open>Trace headers\<close>

text \<open>Keys of Kafka headers are decoded text.\<close>

definition kafka_carrier_get :: "string \<Rightarrow> (string \<times> string) list \<Rightarrow> string list" where
  "kafka_carrier_get key headers = map snd (filter (\<lambda>kv. lower (fst kv) = lower key) headers)"

definition kafka_carrier_set :: "string \<Rightarrow> string \<Rightarrow> (string \<times> string) list \<Rightarrow> (string \<times> string) list" where
  "kafka_carrier_set key v headers = headers @ [(key, v)]"

definition nats_carrier_get :: "string \<Rightarrow> (string, string) pydict \<Rightarrow> string list" where
  "nats_carrier_get key headers = (case map_of headers key of None \<Rightarrow> [] | Some v \<Rightarrow> [v])"

definition nats_carrier_set :: "string \<Rightarrow> string \<Rightarrow> (string, string) pydict \<Rightarrow> (string, string) pydict" where
  "nats_carrier_set key v headers = dict_set key v headers"

text \<open>A propagator writes into a carrier and may raise on the way: it returns the carrier as it left it. \<open>None\<close> stands for a missing
  package. The same functions serve Kafka lists and NATS dictionaries.\<close>

definition inject_trace_headers :: "('h \<Rightarrow> 'h \<times> (exn + unit)) option \<Rightarrow> 'h \<Rightarrow> (exn + unit) \<times> 'h" where
  "inject_trace_headers propagator headers =
     (case propagator of
        None \<Rightarrow> (Inr (), headers)
      | Some inject \<Rightarrow>
          (case inject headers of
             (h, Inr _) \<Rightarrow> (Inr (), h)
           | (h, Inl e) \<Rightarrow> if catchable e then (Inr (), h) else (Inl e, h)))"

definition kafka_extract ::
    "((string \<times> string) list \<Rightarrow> exn + 'c) option \<Rightarrow> ('c \<Rightarrow> ('w, 't) act) \<Rightarrow> (string \<times> string) list option \<Rightarrow> ('w, 't option) act" where
  "kafka_extract propagator attach headers =
     (case headers of
        None \<Rightarrow> give None
      | Some hs \<Rightarrow>
          if hs = [] then give None
          else case propagator of
                 None \<Rightarrow> give None
               | Some extract \<Rightarrow>
                   try_except (then_do (outcome (extract hs)) (\<lambda>ctx. then_do (attach ctx) (\<lambda>t. give (Some t)))) (\<lambda>_. give None))"

definition nats_extract ::
    "((string, string) pydict \<Rightarrow> exn + 'c) option \<Rightarrow> ('c \<Rightarrow> ('w, 't) act) option \<Rightarrow> (string, string) pydict option \<Rightarrow> ('w, 't option) act" where
  "nats_extract propagator context_api headers =
     (case headers of
        None \<Rightarrow> give None
      | Some hs \<Rightarrow>
          if hs = [] then give None
          else case (propagator, context_api) of
                 (Some extract, Some attach) \<Rightarrow>
                   try_except (then_do (outcome (extract hs)) (\<lambda>ctx. then_do (attach ctx) (\<lambda>t. give (Some t)))) (\<lambda>_. give None)
               | _ \<Rightarrow> give None)"

text \<open>Setting a Kafka header keeps an older value in front of the new one; a NATS header is replaced.\<close>

lemma kafka_carrier_get_set: "kafka_carrier_get key (kafka_carrier_set key v hs) = kafka_carrier_get key hs @ [v]"
  by (simp add: kafka_carrier_get_def kafka_carrier_set_def)

lemma nats_carrier_get_set: "nats_carrier_get key (nats_carrier_set k v hs) = (if key = k then [v] else nats_carrier_get key hs)"
  by (simp add: nats_carrier_get_def nats_carrier_set_def)

lemma kafka_stale_parent:
  "kafka_carrier_get ''traceparent'' hs \<noteq> [] \<Longrightarrow>
     hd (kafka_carrier_get ''traceparent'' (kafka_carrier_set ''traceparent'' v hs)) = hd (kafka_carrier_get ''traceparent'' hs)"
  by (simp add: kafka_carrier_get_set)

text \<open>Neither injecting nor extracting ever raises an ordinary exception.\<close>

lemma inject_never_raises: "fst (inject_trace_headers p h) = Inl e \<Longrightarrow> \<not> catchable e"
  by (auto simp: inject_trace_headers_def split: option.splits prod.splits sum.splits if_splits)

lemma kafka_extract_never_raises: "fst (kafka_extract p attach hs w) = Inl e \<Longrightarrow> \<not> catchable e"
  by (auto simp: kafka_extract_def try_except_def split: option.splits prod.splits sum.splits if_splits)

subsection \<open>Health metrics\<close>

record 'w gauges =
  ga_status :: "rat \<Rightarrow> string \<Rightarrow> ('w, unit) act"
  ga_latency :: "(rat \<Rightarrow> string \<Rightarrow> ('w, unit) act) option"

definition health_collect :: "('w, (string, HealthStatus) pydict) act \<Rightarrow> 'w gauges \<Rightarrow> ('w, unit) act" where
  "health_collect run_all g =
     then_do run_all
       (\<lambda>results. for_each
          (\<lambda>(name, st). then_do (ga_status g (if hs_healthy st then 1 else 0) name)
             (\<lambda>_. case ga_latency g of None \<Rightarrow> give () | Some set_latency \<Rightarrow> set_latency (hs_latency_ms st) name)) results)"

text \<open>A round of \<^verbatim>\<open>collect_loop\<close> swallows what \<^verbatim>\<open>collect\<close> raises and sleeps.\<close>

definition collect_round :: "('w, (string, HealthStatus) pydict) act \<Rightarrow> 'w gauges \<Rightarrow> ('w \<Rightarrow> 'w) \<Rightarrow> ('w, unit) act" where
  "collect_round run_all g sleep =
     then_do (try_except (health_collect run_all g) (\<lambda>_. give ())) (\<lambda>_ w. (Inr (), sleep w))"

definition note_gauges :: "((string \<times> rat) list) gauges" where
  "note_gauges = \<lparr>ga_status = (\<lambda>v n w. (Inr (), w @ [(n, v)])), ga_latency = None\<rparr>"

lemma health_collect_noted:
  assumes "run_all w = (Inr results, w)"
  shows "health_collect run_all note_gauges w = (Inr (), w @ map (\<lambda>(n, st). (n, if hs_healthy st then 1 else 0)) results)"
proof -
  have "for_each (\<lambda>(name, st). then_do (ga_status note_gauges (if hs_healthy st then 1 else 0) name)
      (\<lambda>_. case ga_latency note_gauges of None \<Rightarrow> give () | Some set_latency \<Rightarrow> set_latency (hs_latency_ms st) name)) rs v
      = (Inr (), v @ map (\<lambda>(n, st). (n, if hs_healthy st then 1 else 0)) rs)" for rs v
    by (induction rs arbitrary: v) (auto simp: note_gauges_def then_do_def)
  then show ?thesis using assms by (simp add: health_collect_def then_do_def)
qed

end
