(* ===== verification/Tenant_Isolation.thy ===== *)
theory Tenant_Isolation
  imports Py_Async Contexts
begin

text \<open>
  Tenant isolation: the query filter of \<^verbatim>\<open>adapters/sqlalchemy/tenant_filter.py\<close> and the repository proxy of
  \<^verbatim>\<open>testing/tenant_isolation.py\<close>. The ORM is a parameter: its queries are values of a type \<open>'q\<close> whose methods return new
  queries, and the locale \<open>query_events\<close> states what a listener may do to a query that is about to be compiled.
\<close>

subsection \<open>The filter\<close>

record entity =
  en_name :: string
  en_tenant_aware :: bool

text \<open>\<^verbatim>\<open>column_descriptions\<close> (the \<^verbatim>\<open>entity\<close> of each), the keys of the mapped columns or the exception of \<^verbatim>\<open>inspect\<close>, and
  the two methods of a query.\<close>

record 'q orm =
  orm_descriptions :: "'q \<Rightarrow> entity option list"
  orm_column_keys :: "entity \<Rightarrow> exn + string list"
  orm_enable_assertions :: "bool \<Rightarrow> 'q \<Rightarrow> 'q"
  orm_filter_tenant :: "entity \<Rightarrow> string \<Rightarrow> 'q \<Rightarrow> 'q"

type_synonym ('w, 'q) listener = "'w ambient \<Rightarrow> 'q \<Rightarrow> exn + 'q option"

text \<open>The value of the local variable \<^verbatim>\<open>query\<close> when the handler ends. Every early \<^verbatim>\<open>return\<close> leaves it as it was.\<close>

definition narrowed_query :: "'q orm \<Rightarrow> 'w ambient \<Rightarrow> 'q \<Rightarrow> exn + 'q" where
  "narrowed_query orm c query =
     (case amb_tenant c of
        None \<Rightarrow> Inr query
      | Some tenant_id \<Rightarrow>
          (case orm_descriptions orm query of
             [] \<Rightarrow> Inr query
           | None # _ \<Rightarrow> Inr query
           | Some entity # _ \<Rightarrow>
               (case orm_column_keys orm entity of
                  Inl e \<Rightarrow> if catchable e then Inr query else Inl e
                | Inr keys \<Rightarrow>
                    if \<not> en_tenant_aware entity then Inr query
                    else if ''tenant_id'' \<notin> set keys then Inr query
                    else Inr (orm_filter_tenant orm entity tenant_id (orm_enable_assertions orm False query)))))"

text \<open>The handler has no \<^verbatim>\<open>return\<close> with a value: it returns \<^verbatim>\<open>None\<close>.\<close>

definition before_compile_handler :: "'q orm \<Rightarrow> ('w, 'q) listener" where
  "before_compile_handler orm c query =
     (case narrowed_query orm c query of Inl e \<Rightarrow> Inl e | Inr query' \<Rightarrow> Inr None)"

text \<open>The registry of the ORM: listeners with their \<^verbatim>\<open>retval\<close> flag, known by name.\<close>

record ('w, 'q) tenant_filter =
  tf_installed :: bool
  tf_listeners :: "(string \<times> ('w, 'q) listener \<times> bool) list"

definition TenantFilter_install :: "(unit, unit) act \<Rightarrow> 'q orm \<Rightarrow> (('w, 'q) tenant_filter, unit) act" where
  "TenantFilter_install require_sqlalchemy orm w =
     (if tf_installed w then (Inr (), w)
      else case fst (require_sqlalchemy ()) of
             Inl e \<Rightarrow> (Inl e, w)
           | Inr _ \<Rightarrow> (Inr (), w\<lparr>tf_listeners := tf_listeners w @ [(''_before_compile_handler'', before_compile_handler orm, False)],
                              tf_installed := True\<rparr>))"

text \<open>\<open>remove\<close> is \<^verbatim>\<open>event.remove\<close>; whatever it raises is dropped.\<close>

definition TenantFilter_uninstall ::
  "(string \<Rightarrow> (('w, 'q) tenant_filter, unit) act) \<Rightarrow> (('w, 'q) tenant_filter, unit) act" where
  "TenantFilter_uninstall remove w =
     (if \<not> tf_installed w then (Inr (), w)
      else case remove ''_before_compile_handler'' w of
             (Inr _, w') \<Rightarrow> (Inr (), w'\<lparr>tf_installed := False\<rparr>)
           | (Inl e, w') \<Rightarrow> if catchable e then (Inr (), w'\<lparr>tf_installed := False\<rparr>) else (Inl e, w'))"

definition TenantFilter_is_installed :: "('w, 'q) tenant_filter \<Rightarrow> bool" where
  "TenantFilter_is_installed w = tf_installed w"

subsection \<open>Listeners\<close>

text \<open>\<open>compile_query\<close> runs the listeners in order and gives the query that is compiled. A listener that was registered with
  \<^verbatim>\<open>retval=False\<close> is only told of the query; one that was registered with \<^verbatim>\<open>retval=True\<close> replaces the query by what it returns,
  if that is not \<^verbatim>\<open>None\<close>. What a listener raises is raised.\<close>

locale query_events =
  fixes compile_query :: "(string \<times> ('w, 'q) listener \<times> bool) list \<Rightarrow> 'w ambient \<Rightarrow> 'q \<Rightarrow> exn + 'q"
  assumes no_listener: "compile_query [] c q = Inr q"
    and raising: "h c q = Inl e \<Longrightarrow> compile_query ((n, h, rv) # ls) c q = Inl e"
    and told: "h c q = Inr r \<Longrightarrow> compile_query ((n, h, False) # ls) c q = compile_query ls c q"
    and replaced: "h c q = Inr (Some q') \<Longrightarrow> compile_query ((n, h, True) # ls) c q = compile_query ls c q'"
    and kept: "h c q = Inr None \<Longrightarrow> compile_query ((n, h, True) # ls) c q = compile_query ls c q"
begin

text \<open>The laws determine the query: there is one outcome for every list of listeners.\<close>

lemma listener_step:
  "compile_query ((n, h, rv) # ls) c q =
     (case h c q of
        Inl e \<Rightarrow> Inl e
      | Inr r \<Rightarrow> compile_query ls c (if rv then (case r of None \<Rightarrow> q | Some q' \<Rightarrow> q') else q))"
  by (cases "h c q"; cases rv; cases "case h c q of Inr r \<Rightarrow> r | _ \<Rightarrow> None")
     (auto simp: raising told replaced kept split: option.split)

lemma silent_listener:
  assumes "\<And>q. h c q = Inr None"
  shows "compile_query (xs @ (n, h, rv) # ys) c q = compile_query (xs @ ys) c q"
proof (induction xs arbitrary: q)
  case Nil
  then show ?case using assms by (simp add: listener_step)
next
  case (Cons x xs)
  obtain m g f where "x = (m, g, f)" by (cases x) auto
  then show ?case using Cons.IH by (simp add: listener_step split: sum.split)
qed

end

fun run_listeners :: "(string \<times> ('w, 'q) listener \<times> bool) list \<Rightarrow> 'w ambient \<Rightarrow> 'q \<Rightarrow> exn + 'q" where
  "run_listeners [] c q = Inr q"
| "run_listeners ((n, h, rv) # ls) c q =
     (case h c q of
        Inl e \<Rightarrow> Inl e
      | Inr None \<Rightarrow> run_listeners ls c q
      | Inr (Some q') \<Rightarrow> run_listeners ls c (if rv then q' else q))"

interpretation listeners: query_events run_listeners
  by unfold_locales (auto split: option.split)

text \<open>Installing is idempotent, and uninstalling restores the registry unless \<^verbatim>\<open>event.remove\<close> fails; then the flag is cleared while
  the listener stays, so that the next installation registers it a second time.\<close>

lemma install_idempotent:
  assumes "TenantFilter_install req orm w = (Inr (), w')"
  shows "TenantFilter_install req orm w' = (Inr (), w')"
  using assms by (auto simp: TenantFilter_install_def split: if_splits sum.splits)

lemma uninstall_idempotent:
  assumes "TenantFilter_uninstall remove w = (Inr (), w')"
  shows "\<not> TenantFilter_is_installed w' \<and> TenantFilter_uninstall remove w' = (Inr (), w')"
  using assms
  by (auto simp: TenantFilter_uninstall_def TenantFilter_is_installed_def split: if_splits sum.splits prod.splits)

lemma failed_uninstall_registers_twice:
  assumes "\<And>n v. remove n v = (Inl (plain_exn ValueError m), v)" "\<not> tf_installed w" "fst (req ()) = Inr ()"
    and "TenantFilter_install req orm w = (Inr (), w1)" "TenantFilter_uninstall remove w1 = (Inr (), w2)"
    and "TenantFilter_install req orm w2 = (Inr (), w3)"
  shows "length (tf_listeners w3) = length (tf_listeners w) + 2"
  using assms by (auto simp: TenantFilter_install_def TenantFilter_uninstall_def)

subsection \<open>The validating proxy\<close>

text \<open>What a repository call returns, as \<^verbatim>\<open>_validate\<close> tells values apart: \<^verbatim>\<open>None\<close>, a list, tuple or other container, an iterator
  that can be read once, or a single object (also text, bytes and dictionaries). \<open>tenant_of\<close> is the text of the attribute, if the
  object has it and it is not \<^verbatim>\<open>None\<close>.\<close>

datatype 'o returned = Nothing | Items "'o list" | Once "'o list" | Single 'o

fun returned_items :: "'o returned \<Rightarrow> 'o list" where
  "returned_items Nothing = []"
| "returned_items (Items xs) = xs"
| "returned_items (Once xs) = xs"
| "returned_items (Single x) = [x]"

text \<open>What is left of the value after \<^verbatim>\<open>list(result)\<close>.\<close>

fun after_listing :: "'o returned \<Rightarrow> 'o returned" where
  "after_listing (Once xs) = Once []"
| "after_listing r = r"

definition is_foreign :: "('o \<Rightarrow> string option) \<Rightarrow> string \<Rightarrow> 'o \<Rightarrow> bool" where
  "is_foreign tenant_of expected x = (case tenant_of x of None \<Rightarrow> False | Some tid \<Rightarrow> tid \<noteq> expected)"

text \<open>\<open>shown\<close> is the text of a set; \<^verbatim>\<open>leaked_tenants\<close> is a set, listed here without repetitions.\<close>

definition TenantLeakError_init :: "(string list \<Rightarrow> string) \<Rightarrow> string \<Rightarrow> string list \<Rightarrow> nat \<Rightarrow> exn" where
  "TenantLeakError_init shown expected leaked count =
     Exn (UserError ''TenantLeakError'' (UserError ''AssertionError'' Exception))
       (''TenantLeakError: found '' @ show_nat count @ '' result(s) belonging to other tenant(s): '' @ shown leaked
        @ ''. Expected only: '' @ quoted expected) [] []
       [(''expected_tenant'', PStr expected), (''leaked_tenants'', PList (map PStr leaked))] None None"

definition validate_returned ::
  "(string list \<Rightarrow> string) \<Rightarrow> ('o \<Rightarrow> string option) \<Rightarrow> string \<Rightarrow> 'o returned \<Rightarrow> exn + 'o returned" where
  "validate_returned shown tenant_of expected result =
     (let items = returned_items result;
          leaked = remdups (map (the \<circ> tenant_of) (filter (is_foreign tenant_of expected) items))
      in if leaked = [] then Inr (after_listing result)
         else Inl (TenantLeakError_init shown expected leaked (length (filter (is_foreign tenant_of expected) items))))"

definition validated_call ::
  "(string list \<Rightarrow> string) \<Rightarrow> ('o \<Rightarrow> string option) \<Rightarrow> string \<Rightarrow> ('w, 'o returned) act \<Rightarrow> ('w, 'o returned) act" where
  "validated_call shown tenant_of expected call =
     then_do call (\<lambda>result. outcome (validate_returned shown tenant_of expected result))"

datatype ('w, 'o, 'v) attribute = Value 'v | Callable "('w, 'o returned) act"

definition validator_getattr ::
  "(string list \<Rightarrow> string) \<Rightarrow> ('o \<Rightarrow> string option) \<Rightarrow> string \<Rightarrow> (string \<Rightarrow> exn + ('w, 'o, 'v) attribute) \<Rightarrow> string
   \<Rightarrow> exn + ('w, 'o, 'v) attribute" where
  "validator_getattr shown tenant_of expected repo_getattr name =
     (case repo_getattr name of
        Inl e \<Rightarrow> Inl e
      | Inr (Value v) \<Rightarrow> Inr (Value v)
      | Inr (Callable call) \<Rightarrow> Inr (Callable (validated_call shown tenant_of expected call)))"

lemma leaked_empty: "remdups (map f xs) = [] \<longleftrightarrow> xs = []"
  by (cases xs) (auto simp: remdups_eq_nil_iff)

lemma validated_call_returns:
  "call w = (Inr result, w') \<Longrightarrow>
   validated_call shown tenant_of t call w = (validate_returned shown tenant_of t result, w')"
  by (simp add: validated_call_def)

text \<open>The proxy lets a result through exactly when no object in it carries another tenant, and the error it raises otherwise names
  exactly the other tenants.\<close>

lemma validate_exact:
  "(\<exists>r. validate_returned shown tenant_of t result = Inr r) \<longleftrightarrow>
     (\<forall>x \<in> set (returned_items result). tenant_of x \<in> {None, Some t})"
proof -
  have "(\<exists>r. validate_returned shown tenant_of t result = Inr r) \<longleftrightarrow>
      (\<forall>x \<in> set (returned_items result). \<not> is_foreign tenant_of t x)"
    by (simp add: validate_returned_def Let_def leaked_empty filter_empty_conv)
  also have "\<dots> \<longleftrightarrow> (\<forall>x \<in> set (returned_items result). tenant_of x \<in> {None, Some t})"
    by (intro ball_cong refl) (simp add: is_foreign_def split: option.split)
  finally show ?thesis .
qed

lemma foreign_tenants:
  "set (map (the \<circ> tenant_of) (filter (is_foreign tenant_of t) xs)) = {u. u \<noteq> t \<and> (\<exists>x \<in> set xs. tenant_of x = Some u)}"
proof (induction xs)
  case (Cons x xs)
  then show ?case by (cases "tenant_of x") (auto simp: is_foreign_def)
qed simp

lemma validate_error_names:
  assumes "validate_returned shown tenant_of t result = Inl e"
  shows "\<exists>names. exn_attrs e = [(''expected_tenant'', PStr t), (''leaked_tenants'', PList (map PStr names))]
     \<and> distinct names \<and> set names = {u. u \<noteq> t \<and> (\<exists>x \<in> set (returned_items result). tenant_of x = Some u)}"
proof (intro exI conjI)
  let ?names = "remdups (map (the \<circ> tenant_of) (filter (is_foreign tenant_of t) (returned_items result)))"
  show "exn_attrs e = [(''expected_tenant'', PStr t), (''leaked_tenants'', PList (map PStr ?names))]"
    using assms by (auto simp: validate_returned_def Let_def TenantLeakError_init_def split: if_splits)
  show "distinct ?names" by simp
  show "set ?names = {u. u \<noteq> t \<and> (\<exists>x \<in> set (returned_items result). tenant_of x = Some u)}"
    unfolding set_remdups by (rule foreign_tenants)
qed

text \<open>Results that can be read only once reach the caller empty.\<close>

lemma iterator_consumed:
  "validate_returned shown tenant_of t (Once xs) = Inr r \<Longrightarrow> r = Once []"
  by (auto simp: validate_returned_def Let_def split: if_splits)

subsection \<open>The filter at work\<close>

text \<open>A query run through the ORM: the listeners, then the rows it selects.\<close>

definition run_query ::
  "((string \<times> ('w, 'q) listener \<times> bool) list \<Rightarrow> 'w ambient \<Rightarrow> 'q \<Rightarrow> exn + 'q) \<Rightarrow> ('q \<Rightarrow> 'o list)
   \<Rightarrow> (string \<times> ('w, 'q) listener \<times> bool) list \<Rightarrow> 'q \<Rightarrow> ('w ambient, 'o returned) act" where
  "run_query compile_query select ls q c =
     (case compile_query ls c q of Inl e \<Rightarrow> (Inl e, c) | Inr q' \<Rightarrow> (Inr (Items (select q')), c))"

text \<open>\<^verbatim>\<open>filter\<close> keeps the rows of the tenant, and \<^verbatim>\<open>enable_assertions\<close> does not change what a query selects.\<close>

definition filters_by_tenant :: "'q orm \<Rightarrow> ('q \<Rightarrow> 'o list) \<Rightarrow> ('o \<Rightarrow> string option) \<Rightarrow> bool" where
  "filters_by_tenant orm select tenant_of \<longleftrightarrow>
     (\<forall>e t q. select (orm_filter_tenant orm e t q) = filter (\<lambda>x. tenant_of x = Some t) (select q))
     \<and> (\<forall>b q. select (orm_enable_assertions orm b q) = select q)"

definition ordinary_inspection :: "'q orm \<Rightarrow> bool" where
  "ordinary_inspection orm \<longleftrightarrow> (\<forall>entity e. orm_column_keys orm entity = Inl e \<longrightarrow> catchable e)"

definition tenant_entity :: "'q orm \<Rightarrow> 'q \<Rightarrow> bool" where
  "tenant_entity orm q \<longleftrightarrow>
     (case orm_descriptions orm q of
        Some entity # _ \<Rightarrow> en_tenant_aware entity
          \<and> (case orm_column_keys orm entity of Inl _ \<Rightarrow> False | Inr keys \<Rightarrow> ''tenant_id'' \<in> set keys)
      | _ \<Rightarrow> False)"

lemma narrowed_selects_tenant:
  assumes "filters_by_tenant orm select tenant_of" "tenant_entity orm q" "amb_tenant c = Some t"
  shows "\<exists>q'. narrowed_query orm c q = Inr q' \<and> select q' = filter (\<lambda>x. tenant_of x = Some t) (select q)"
  using assms
  by (auto simp: tenant_entity_def narrowed_query_def filters_by_tenant_def split: list.splits option.splits sum.splits)

lemma handler_silent:
  assumes "ordinary_inspection orm"
  shows "before_compile_handler orm c q = Inr None"
  using assms
  by (auto simp: before_compile_handler_def narrowed_query_def ordinary_inspection_def
        split: option.split list.split sum.split)

lemma installed_without_effect:
  assumes "query_events compile_query" "ordinary_inspection orm" "TenantFilter_install req orm w = (Inr (), w')"
  shows "compile_query (tf_listeners w') c q = compile_query (tf_listeners w) c q"
  using assms(3) query_events.silent_listener[OF assms(1) handler_silent[OF assms(2)], where ys = "[]"]
  by (auto simp: TenantFilter_install_def split: if_splits sum.splits)

text \<open>C40. Installing the tenant filter does not isolate tenants. In a tenant's scope the handler computes, for a query on a
  tenant-aware entity with the column, a query that selects exactly the tenant's rows, but it assigns that query to a local variable:
  the listener is registered without \<^verbatim>\<open>retval\<close> and returns nothing, so the query that is compiled is the one that would have been
  compiled without the filter. When that query selects a row of another tenant, the validating proxy around the call raises
  \<^verbatim>\<open>TenantLeakError\<close> and names the other tenant.\<close>

theorem tenant_filter_leaks:
  assumes events: "query_events compile_query" and inspection: "ordinary_inspection orm"
    and installed: "TenantFilter_install req orm w = (Inr (), w')"
    and "filters_by_tenant orm select tenant_of" "tenant_entity orm q"
    and unfiltered: "compile_query (tf_listeners w) (put_tenant (Some t) c) q = Inr q"
    and foreign: "x \<in> set (select q)" "tenant_of x = Some u" "u \<noteq> t"
  shows "(\<exists>q'. narrowed_query orm (put_tenant (Some t) c) q = Inr q' \<and> select q' = filter (\<lambda>y. tenant_of y = Some t) (select q))
    \<and> compile_query (tf_listeners w') (put_tenant (Some t) c) q = Inr q
    \<and> (\<exists>e names. TenantContext_scoped t (validated_call shown tenant_of t (run_query compile_query select (tf_listeners w') q)) c
          = (Inl e, c)
        \<and> exn_attrs e = [(''expected_tenant'', PStr t), (''leaked_tenants'', PList (map PStr names))] \<and> u \<in> set names)"
proof (intro conjI)
  show "\<exists>q'. narrowed_query orm (put_tenant (Some t) c) q = Inr q' \<and> select q' = filter (\<lambda>y. tenant_of y = Some t) (select q)"
    using narrowed_selects_tenant[OF assms(4,5), of "put_tenant (Some t) c" t] by simp
  show compiled: "compile_query (tf_listeners w') (put_tenant (Some t) c) q = Inr q"
    using installed_without_effect[OF events inspection installed] unfiltered by simp
  obtain e where e: "validate_returned shown tenant_of t (Items (select q)) = Inl e"
    using validate_exact[of shown tenant_of t "Items (select q)"] foreign
    by (cases "validate_returned shown tenant_of t (Items (select q))") fastforce+
  then obtain names where "exn_attrs e = [(''expected_tenant'', PStr t), (''leaked_tenants'', PList (map PStr names))]" "u \<in> set names"
    using validate_error_names[OF e] foreign by auto
  moreover have "TenantContext_scoped t (validated_call shown tenant_of t (run_query compile_query select (tf_listeners w') q)) c = (Inl e, c)"
    using compiled e by (simp add: TenantContext_scoped_def ctx_scoped_def validated_call_def run_query_def)
  ultimately show "\<exists>e names. TenantContext_scoped t (validated_call shown tenant_of t (run_query compile_query select (tf_listeners w') q)) c
          = (Inl e, c)
        \<and> exn_attrs e = [(''expected_tenant'', PStr t), (''leaked_tenants'', PList (map PStr names))] \<and> u \<in> set names"
    by blast
qed

definition demo_orm :: "(string \<times> nat) list orm" where
  "demo_orm = \<lparr>orm_descriptions = \<lambda>_. [Some \<lparr>en_name = ''Order'', en_tenant_aware = True\<rparr>],
     orm_column_keys = \<lambda>_. Inr [''id'', ''tenant_id''], orm_enable_assertions = \<lambda>_ q. q,
     orm_filter_tenant = \<lambda>_ t q. filter (\<lambda>r. fst r = t) q\<rparr>"

definition demo_ambient :: "unit ambient" where
  "demo_ambient = \<lparr>amb_tenant = None, amb_principal = None, amb_request = None, amb_deadline = None, amb_world = ()\<rparr>"

theorem tenant_filter_leaks_witness:
  "\<exists>w' names e. TenantFilter_install (\<lambda>_. (Inr (), ())) demo_orm \<lparr>tf_installed = False, tf_listeners = []\<rparr> = (Inr (), w')
   \<and> run_listeners (tf_listeners w') (put_tenant (Some ''acme'') demo_ambient) [(''acme'', 1), (''globex'', 2)]
       = Inr [(''acme'', 1), (''globex'', 2)]
   \<and> TenantContext_scoped ''acme'' (validated_call concat (Some \<circ> fst) ''acme''
         (run_query run_listeners id (tf_listeners w') [(''acme'', 1), (''globex'', 2)])) demo_ambient = (Inl e, demo_ambient)
   \<and> exn_attrs e = [(''expected_tenant'', PStr ''acme''), (''leaked_tenants'', PList (map PStr names))] \<and> ''globex'' \<in> set names"
proof -
  define w :: "(unit, (string \<times> nat) list) tenant_filter" where "w = \<lparr>tf_installed = False, tf_listeners = []\<rparr>"
  obtain w' where installed: "TenantFilter_install (\<lambda>_. (Inr (), ())) demo_orm w = (Inr (), w')"
    by (simp add: TenantFilter_install_def w_def)
  have pre: "ordinary_inspection demo_orm" "filters_by_tenant demo_orm id (Some \<circ> fst)"
      "tenant_entity demo_orm [(''acme'', 1), (''globex'', 2)]" "tf_listeners w = []"
    by (auto simp: ordinary_inspection_def filters_by_tenant_def tenant_entity_def demo_orm_def w_def)
  show ?thesis
    using tenant_filter_leaks[OF listeners.query_events_axioms pre(1) installed pre(2,3),
        where t = "''acme''" and c = demo_ambient and x = "(''globex'', 2)" and u = "''globex''" and shown = concat]
      installed pre(4)
    unfolding w_def by (auto simp: id_def)
qed

end
