(* ===== verification/Text_Files.thy ===== *)
theory Text_Files
  imports Py_Async
begin

text \<open>
  Text files: the generated migration set-up (\<^verbatim>\<open>adapters/sqlalchemy/migrations.py\<close>), snapshot and approval tests
  (\<^verbatim>\<open>testing/snapshot/asserter.py\<close>, \<^verbatim>\<open>testing/approval/asserter.py\<close>). A file system is a dictionary of paths and contents with
  the directories that were made; paths are joined with a slash. The contract \<open>baseline\<close> of a stored expectation is provided by both
  asserters. Serialisation, normalisation and the text of a diff are parameters.
\<close>

record fs =
  fs_files :: "(string, string) pydict"
  fs_dirs :: "string list"

definition path_join :: "string \<Rightarrow> string \<Rightarrow> string" where
  "path_join d n = d @ ''/'' @ n"

definition read_text :: "string \<Rightarrow> fs \<Rightarrow> string option" where
  "read_text p w = map_of (fs_files w) p"

definition write_text :: "string \<Rightarrow> string \<Rightarrow> fs \<Rightarrow> fs" where
  "write_text p t w = w\<lparr>fs_files := dict_set p t (fs_files w)\<rparr>"

definition unlink :: "string \<Rightarrow> fs \<Rightarrow> fs" where
  "unlink p w = w\<lparr>fs_files := dict_pop p (fs_files w)\<rparr>"

definition mkdirs :: "string \<Rightarrow> fs \<Rightarrow> fs" where
  "mkdirs p w = (if p \<in> set (fs_dirs w) then w else w\<lparr>fs_dirs := p # fs_dirs w\<rparr>)"

lemma read_write [simp]: "read_text p (write_text q t w) = (if p = q then Some t else read_text p w)"
  by (simp add: read_text_def write_text_def)

lemma read_mkdirs [simp]: "read_text p (mkdirs q w) = read_text p w"
  by (simp add: read_text_def mkdirs_def)

lemma read_unlink [simp]: "p \<noteq> q \<Longrightarrow> read_text p (unlink q w) = read_text p w"
  by (simp add: read_text_def unlink_def)

subsection \<open>Migration files\<close>

text \<open>\<open>files\<close> are the three templates in the order of the dictionary; the first file that exists ends the loop, after the
  files before it were written.\<close>

fun write_files :: "bool \<Rightarrow> (string \<times> string \<times> string) list \<Rightarrow> string list \<Rightarrow> (fs, string list) act" where
  "write_files overwrite [] created w = (Inr created, w)"
| "write_files overwrite ((parent, path, content) # files) created w =
     (let w1 = mkdirs parent w
      in if read_text path w1 \<noteq> None \<and> \<not> overwrite
         then (Inl (plain_exn (UserError ''FileExistsError'' OSError)
                 (path @ '' already exists. Pass overwrite=True to replace it.'')), w1)
         else write_files overwrite files (created @ [path]) (write_text path content w1))"

definition alembic_files :: "string \<times> string \<times> string \<Rightarrow> string \<Rightarrow> (string \<times> string \<times> string) list" where
  "alembic_files templates dest =
     (case templates of (ini, env, mako) \<Rightarrow>
        let migrations = path_join dest ''migrations''
        in [(dest, path_join dest ''alembic.ini'', ini), (migrations, path_join migrations ''env.py'', env),
            (migrations, path_join migrations ''script.py.mako'', mako)])"

definition generate_alembic_files :: "string \<times> string \<times> string \<Rightarrow> string \<Rightarrow> bool \<Rightarrow> (fs, string list) act" where
  "generate_alembic_files templates dest overwrite w =
     (let versions = path_join (path_join dest ''migrations'') ''versions'';
          gitkeep = path_join versions ''.gitkeep''
      in case write_files overwrite (alembic_files templates dest) [] (mkdirs versions w) of
           (Inl e, w1) \<Rightarrow> (Inl e, w1)
         | (Inr created, w1) \<Rightarrow>
             if read_text gitkeep w1 = None then (Inr (created @ [gitkeep]), write_text gitkeep [] w1) else (Inr created, w1))"

lemma write_files_result:
  "write_files ov files created w = (Inr paths, w') \<Longrightarrow>
   paths = created @ map (fst \<circ> snd) files
   \<and> (\<forall>p. p \<notin> (fst \<circ> snd) ` set files \<longrightarrow> read_text p w' = read_text p w)
   \<and> (distinct (map (fst \<circ> snd) files) \<longrightarrow> (\<forall>(d, p, t) \<in> set files. read_text p w' = Some t))"
proof (induction ov files created w rule: write_files.induct)
  case (2 ov parent path content files created w)
  let ?w1 = "write_text path content (mkdirs parent w)"
  have rest: "write_files ov files (created @ [path]) ?w1 = (Inr paths, w')"
    using "2.prems" by (auto simp: Let_def split: if_splits)
  have "\<not> (read_text path (mkdirs parent w) \<noteq> None \<and> \<not> ov)"
    using "2.prems" by (auto simp: Let_def split: if_splits)
  from "2.IH"[OF refl this rest] show ?case by (auto simp: image_iff split: if_splits)
qed simp

text \<open>When nothing is in the way the three files and \<^verbatim>\<open>.gitkeep\<close> are written; a second run without \<^verbatim>\<open>overwrite\<close> refuses at
  the first one and changes no file.\<close>

lemma alembic_paths_distinct: "distinct (map (fst \<circ> snd) (alembic_files ts dest))"
  by (cases ts) (simp add: alembic_files_def path_join_def Let_def)

lemma alembic_second_run_refused:
  assumes "generate_alembic_files ts dest ov w = (Inr created, w')"
  shows "\<exists>e w''. generate_alembic_files ts dest False w' = (Inl e, w'') \<and> (\<forall>p. read_text p w'' = read_text p w')"
proof -
  obtain ini env mako where ts: "ts = (ini, env, mako)" by (cases ts) auto
  let ?versions = "path_join (path_join dest ''migrations'') ''versions''"
  obtain created1 w1 where w1: "write_files ov (alembic_files ts dest) [] (mkdirs ?versions w) = (Inr created1, w1)"
    using assms by (auto simp: generate_alembic_files_def Let_def split: prod.splits sum.splits)
  then have "read_text (path_join dest ''alembic.ini'') w1 = Some ini"
    using write_files_result[OF w1] alembic_paths_distinct[of ts dest] by (auto simp: alembic_files_def ts Let_def)
  then have "read_text (path_join dest ''alembic.ini'') w' \<noteq> None"
    using assms w1 by (auto simp: generate_alembic_files_def Let_def split: if_splits)
  then show ?thesis
    by (auto simp: generate_alembic_files_def alembic_files_def ts Let_def)
qed

text \<open>A project that only lacks \<^verbatim>\<open>alembic.ini\<close> gets it before the call is refused.\<close>

lemma alembic_refusal_leaves_files:
  assumes "read_text (path_join dest ''alembic.ini'') w = None"
    and "read_text (path_join (path_join dest ''migrations'') ''env.py'') w \<noteq> None"
  shows "\<exists>e w'. generate_alembic_files (ini, env, mako) dest False w = (Inl e, w')
     \<and> read_text (path_join dest ''alembic.ini'') w' = Some ini"
  using assms by (auto simp: generate_alembic_files_def alembic_files_def Let_def path_join_def)

subsection \<open>Stored expectations\<close>

locale baseline =
  fixes store :: "string \<Rightarrow> string \<Rightarrow> (fs, unit) act"
    and verify :: "string \<Rightarrow> string \<Rightarrow> (fs, unit) act"
    and stored :: "string \<Rightarrow> fs \<Rightarrow> string option"
  assumes store_law: "\<exists>w'. store n t w = (Inr (), w') \<and> stored n w' = Some t"
    and verify_law: "stored n w = Some s \<Longrightarrow> verify n t w = (r, w') \<Longrightarrow> (r = Inr ()) = (s = t) \<and> stored n w' = Some s"
begin

text \<open>Once a text is stored, a series of checks succeeds exactly for that text, whatever failed before.\<close>

lemma verify_series:
  assumes "stored n w = Some s" "each_outcome (verify n) ts w = (rs, w')"
  shows "map (\<lambda>r. r = Inr ()) rs = map (\<lambda>t. s = t) ts \<and> stored n w' = Some s"
  using assms
proof (induction ts arbitrary: w rs)
  case (Cons t ts)
  obtain r v where first: "verify n t w = (r, v)" by (cases "verify n t w") auto
  obtain rs' where rest: "each_outcome (verify n) ts v = (rs', w')" "rs = r # rs'"
    using Cons.prems(2) first by (auto split: prod.splits)
  then show ?case using Cons.IH[OF _ rest(1)] verify_law[OF Cons.prems(1) first] by simp
qed simp

lemma stored_then_verified:
  "store n s w = (Inr (), w1) \<Longrightarrow> each_outcome (verify n) ts w1 = (rs, w2) \<Longrightarrow> map (\<lambda>r. r = Inr ()) rs = map (\<lambda>t. s = t) ts"
  using store_law[of n s w] verify_series[of n w1 s ts rs w2] by auto

end

definition safe_name :: "string \<Rightarrow> string" where
  "safe_name n = map (\<lambda>c. if c = CHR ''/'' \<or> c = CHR 0x5C then CHR ''_'' else c) n"

text \<open>Names that differ only in these characters share a file.\<close>

lemma safe_name_collision: "safe_name ''a/b'' = safe_name ''a_b''"
  by (simp add: safe_name_def)

subsection \<open>Snapshots\<close>

definition snapshot_path :: "string \<Rightarrow> string \<Rightarrow> string" where
  "snapshot_path d n = path_join d (safe_name n @ ''.snap'')"

definition SnapshotStore_load :: "string \<Rightarrow> string \<Rightarrow> fs \<Rightarrow> string option" where
  "SnapshotStore_load d n w = read_text (snapshot_path d n) w"

definition SnapshotStore_save :: "string \<Rightarrow> string \<Rightarrow> string \<Rightarrow> fs \<Rightarrow> fs" where
  "SnapshotStore_save d n t w = write_text (snapshot_path d n) t (mkdirs d w)"

definition SnapshotStore_exists :: "string \<Rightarrow> string \<Rightarrow> fs \<Rightarrow> bool" where
  "SnapshotStore_exists d n w \<longleftrightarrow> read_text (snapshot_path d n) w \<noteq> None"

definition SnapshotStore_delete :: "string \<Rightarrow> string \<Rightarrow> fs \<Rightarrow> fs" where
  "SnapshotStore_delete d n w = (if read_text (snapshot_path d n) w \<noteq> None then unlink (snapshot_path d n) w else w)"

definition assertion_error :: "string \<Rightarrow> exn" where
  "assertion_error m = plain_exn (UserError ''AssertionError'' Exception) m"

text \<open>\<open>serialised\<close> is the value after the serializer, \<open>diff\<close> the joined lines of the unified diff.\<close>

definition assert_matches_snapshot ::
  "(string \<Rightarrow> string \<Rightarrow> string) \<Rightarrow> string \<Rightarrow> bool \<Rightarrow> string \<Rightarrow> string \<Rightarrow> (fs, unit) act" where
  "assert_matches_snapshot diff d update serialised name w =
     (if update \<or> \<not> SnapshotStore_exists d name w then (Inr (), SnapshotStore_save d name serialised w)
      else case SnapshotStore_load d name w of
             Some stored \<Rightarrow>
               if stored = serialised then (Inr (), w)
               else (Inl (assertion_error (''Snapshot mismatch for '' @ quoted name @ '':'' @ [CHR 0x0A] @ diff stored serialised)), w)
           | None \<Rightarrow>
               (Inl (assertion_error (''Snapshot mismatch for '' @ quoted name @ '':'' @ [CHR 0x0A] @ diff [] serialised)), w))"

lemmas snapshot_defs = assert_matches_snapshot_def SnapshotStore_exists_def SnapshotStore_load_def SnapshotStore_save_def

interpretation snapshots: baseline
  "\<lambda>n t. assert_matches_snapshot diff d True t n" "\<lambda>n t. assert_matches_snapshot diff d False t n" "SnapshotStore_load d" for diff d
  by unfold_locales (auto simp: snapshot_defs split: if_splits)

text \<open>The first check of a name always succeeds and stores what it was given.\<close>

lemma first_snapshot_accepted:
  "SnapshotStore_load d n w = None \<Longrightarrow>
   \<exists>w'. assert_matches_snapshot diff d False t n w = (Inr (), w') \<and> SnapshotStore_load d n w' = Some t"
  by (simp add: snapshot_defs)

subsection \<open>Approvals\<close>

record ApprovalAsserter =
  ap_dir :: string
  ap_approve :: bool

text \<open>\<open>mp_approve\<close> is the environment variable \<^verbatim>\<open>MP_APPROVE\<close>, if it is set.\<close>

definition ApprovalAsserter_init :: "string option \<Rightarrow> string \<Rightarrow> bool option \<Rightarrow> ApprovalAsserter" where
  "ApprovalAsserter_init mp_approve d approve =
     \<lparr>ap_dir = d,
      ap_approve = (case approve of
                      Some b \<Rightarrow> b
                    | None \<Rightarrow> lower (case mp_approve of None \<Rightarrow> [] | Some v \<Rightarrow> v) \<in> {''1'', ''true'', ''yes''})\<rparr>"

definition received_path :: "string \<Rightarrow> string \<Rightarrow> string" where
  "received_path d n = path_join d (safe_name n @ ''.received.txt'')"

definition approved_path :: "string \<Rightarrow> string \<Rightarrow> string" where
  "approved_path d n = path_join d (safe_name n @ ''.approved.txt'')"

definition approval_error :: "string \<Rightarrow> exn" where
  "approval_error m = plain_exn (UserError ''ApprovalError'' (UserError ''AssertionError'' Exception)) m"

definition ApprovalAsserter_approve ::
  "(string \<Rightarrow> string) \<Rightarrow> (string \<Rightarrow> string \<Rightarrow> string) \<Rightarrow> ApprovalAsserter \<Rightarrow> string \<Rightarrow> string \<Rightarrow> (fs, unit) act" where
  "ApprovalAsserter_approve normalise diff a received test_name w =
     (let normalised = normalise received;
          received_p = received_path (ap_dir a) test_name;
          approved_p = approved_path (ap_dir a) test_name;
          w1 = write_text received_p normalised (mkdirs (ap_dir a) w)
      in if ap_approve a then (Inr (), write_text approved_p normalised w1)
         else case read_text approved_p w1 of
                None \<Rightarrow> (Inl (approval_error (''No approved file for '' @ quoted test_name @ ''. Inspect '' @ received_p
                          @ '' and copy to '' @ approved_p @ '' to approve.'')), w1)
              | Some approved \<Rightarrow>
                  if approved = normalised then (Inr (), unlink received_p w1)
                  else (Inl (approval_error (''Approval mismatch for '' @ quoted test_name @ '':'' @ [CHR 0x0A] @ diff approved normalised)), w1))"

definition approved_text :: "string \<Rightarrow> string \<Rightarrow> fs \<Rightarrow> string option" where
  "approved_text d n w = read_text (approved_path d n) w"

lemma received_not_approved [simp]: "received_path d n \<noteq> approved_path d m" "approved_path d m \<noteq> received_path d n"
proof -
  have "rev (received_path d n) \<noteq> rev (approved_path d m)"
    by (simp add: received_path_def approved_path_def path_join_def)
  then show "received_path d n \<noteq> approved_path d m" "approved_path d m \<noteq> received_path d n" by auto
qed

interpretation approvals: baseline
  "\<lambda>n t. ApprovalAsserter_approve (\<lambda>x. x) diff \<lparr>ap_dir = d, ap_approve = True\<rparr> t n"
  "\<lambda>n t. ApprovalAsserter_approve (\<lambda>x. x) diff \<lparr>ap_dir = d, ap_approve = False\<rparr> t n" "approved_text d" for diff d
  by unfold_locales (auto simp: ApprovalAsserter_approve_def approved_text_def Let_def split: if_splits)

text \<open>Without an approved text the check fails, whatever was received, and leaves the received text for inspection. Approving
  leaves it too: only a successful comparison removes it.\<close>

lemma unapproved_fails:
  "approved_text d n w = None \<Longrightarrow>
   \<exists>e w'. ApprovalAsserter_approve f diff \<lparr>ap_dir = d, ap_approve = False\<rparr> t n w = (Inl e, w')
     \<and> read_text (received_path d n) w' = Some (f t) \<and> approved_text d n w' = None"
  by (simp add: ApprovalAsserter_approve_def approved_text_def Let_def)

lemma approving_leaves_received:
  "ApprovalAsserter_approve f diff \<lparr>ap_dir = d, ap_approve = True\<rparr> t n w = (r, w') \<Longrightarrow>
   read_text (received_path d n) w' = Some (f t)"
  by (auto simp: ApprovalAsserter_approve_def Let_def)

text \<open>The two asserters agree on what they accept once a text is stored.\<close>

lemma snapshots_and_approvals:
  assumes "assert_matches_snapshot diff d True s n w = (Inr (), w1)"
    and "each_outcome (\<lambda>t. assert_matches_snapshot diff d False t n) ts w1 = (rs, w2)"
    and "ApprovalAsserter_approve (\<lambda>x. x) diff' \<lparr>ap_dir = d', ap_approve = True\<rparr> s n v = (Inr (), v1)"
    and "each_outcome (\<lambda>t. ApprovalAsserter_approve (\<lambda>x. x) diff' \<lparr>ap_dir = d', ap_approve = False\<rparr> t n) ts v1 = (qs, v2)"
  shows "map (\<lambda>r. r = Inr ()) rs = map (\<lambda>r. r = Inr ()) qs"
  using snapshots.stored_then_verified[OF assms(1,2)] approvals.stored_then_verified[OF assms(3,4)] by simp

end
