(* ===== verification/Test_Doubles.thy ===== *)
theory Test_Doubles
  imports Py_Async Access_Control Configuration "HOL-Library.Multiset"
begin

text \<open>
  Doubles and measurements for the tests of services (\<^verbatim>\<open>testing\<close>): clocks, fakes of the ports for policies, flags, secrets and
  metrics, failure injection, load reports and schema compatibility. The fakes are compared with the implementations they stand
  for where the library has one. Dashes and signs beyond ASCII in messages are written in ASCII.
\<close>

subsection \<open>Clocks\<close>

text \<open>\<^verbatim>\<open>FrozenClock.advance\<close> adds a duration to the fixed instant.\<close>

definition FrozenClock_advance :: "microseconds \<Rightarrow> microseconds \<Rightarrow> microseconds" where
  "FrozenClock_advance delta fixed = fixed + delta"

record StepClock =
  sk_current :: microseconds
  sk_step :: microseconds
  sk_call_count :: nat

text \<open>\<^verbatim>\<open>datetime(2026, 1, 1, tzinfo=UTC)\<close> in microseconds of the epoch.\<close>

definition step_epoch :: microseconds where
  "step_epoch = 1767225600000000"

text \<open>\<open>step_kwargs\<close> is the duration the keyword arguments give, if there are any.\<close>

definition StepClock_init :: "microseconds option \<Rightarrow> microseconds option \<Rightarrow> microseconds option \<Rightarrow> StepClock" where
  "StepClock_init start step step_kwargs =
     \<lparr>sk_current = (case start of None \<Rightarrow> step_epoch | Some t \<Rightarrow> t),
      sk_step = (case step of Some s \<Rightarrow> s | None \<Rightarrow> (case step_kwargs of Some s \<Rightarrow> s | None \<Rightarrow> 1000000)), sk_call_count = 0\<rparr>"

definition StepClock_now :: "StepClock \<Rightarrow> microseconds \<times> StepClock" where
  "StepClock_now k = (sk_current k, k\<lparr>sk_current := sk_current k + sk_step k, sk_call_count := Suc (sk_call_count k)\<rparr>)"

definition StepClock_reset :: "microseconds option \<Rightarrow> StepClock \<Rightarrow> StepClock" where
  "StepClock_reset start k = k\<lparr>sk_current := (case start of Some t \<Rightarrow> t | None \<Rightarrow> step_epoch), sk_call_count := 0\<rparr>"

definition StepClock_peek :: "StepClock \<Rightarrow> microseconds" where
  "StepClock_peek k = sk_current k"

fun StepClock_reads :: "nat \<Rightarrow> StepClock \<Rightarrow> microseconds list \<times> StepClock" where
  "StepClock_reads 0 k = ([], k)"
| "StepClock_reads (Suc n) k = (case StepClock_now k of (t, k') \<Rightarrow> case StepClock_reads n k' of (ts, k'') \<Rightarrow> (t # ts, k''))"

lemma StepClock_series:
  "StepClock_reads n k = (ts, k') \<Longrightarrow>
   ts = map (\<lambda>i. sk_current k + int i * sk_step k) [0..<n] \<and> StepClock_peek k' = sk_current k + int n * sk_step k
   \<and> sk_call_count k' = sk_call_count k + n"
proof (induction n arbitrary: k ts)
  case (Suc n)
  obtain us where us: "StepClock_reads n (snd (StepClock_now k)) = (us, k')" "ts = sk_current k # us"
    using Suc.prems by (auto simp: StepClock_now_def split: prod.splits)
  from Suc.IH[OF us(1)] us(2) show ?case
    by (auto simp: StepClock_now_def algebra_simps upt_conv_Cons map_Suc_upt[symmetric] simp del: upt_Suc)
qed (simp add: StepClock_peek_def)

text \<open>Resetting without an argument goes back to the default start, not to the start the clock was made with.\<close>

lemma StepClock_reset_forgets_start:
  "StepClock_peek (StepClock_reset None (StepClock_init (Some t) s kw)) = StepClock_peek (StepClock_init (Some t) s kw) \<longleftrightarrow> t = step_epoch"
  by (auto simp: StepClock_reset_def StepClock_init_def StepClock_peek_def)

subsection \<open>Load reports\<close>

record LoadReport =
  lr_total_requests :: nat
  lr_failures :: nat
  lr_latencies_ms :: "rat list"
  lr_duration_sec :: rat

definition success_count :: "LoadReport \<Rightarrow> int" where
  "success_count r = int (lr_total_requests r) - int (lr_failures r)"

definition error_rate :: "LoadReport \<Rightarrow> rat" where
  "error_rate r = (if lr_total_requests r = 0 then 0 else of_nat (lr_failures r) / of_nat (lr_total_requests r))"

definition rps :: "LoadReport \<Rightarrow> rat" where
  "rps r = (if lr_duration_sec r \<le> 0 then 0 else of_nat (lr_total_requests r) / lr_duration_sec r)"

definition percentile :: "nat \<Rightarrow> LoadReport \<Rightarrow> rat" where
  "percentile pct r =
     (if lr_latencies_ms r = [] then 0
      else let sorted_lat = sort (lr_latencies_ms r)
           in sorted_lat ! (length sorted_lat * pct div 100 - 1))"

definition load_test_error :: "string \<Rightarrow> exn" where
  "load_test_error m = plain_exn (UserError ''LoadTestError'' (UserError ''AssertionError'' Exception)) m"

text \<open>\<open>fixed1\<close> and \<open>percent2\<close> are the number formats of the messages.\<close>

definition assert_p99_below :: "(rat \<Rightarrow> string) \<Rightarrow> rat \<Rightarrow> LoadReport \<Rightarrow> exn + unit" where
  "assert_p99_below fixed1 ms r =
     (if ms < percentile 99 r
      then Inl (load_test_error (''p99 latency '' @ fixed1 (percentile 99 r) @ '' ms exceeds threshold '' @ fixed1 ms @ '' ms''))
      else Inr ())"

definition assert_error_rate_below :: "(rat \<Rightarrow> string) \<Rightarrow> rat \<Rightarrow> LoadReport \<Rightarrow> exn + unit" where
  "assert_error_rate_below percent2 rate r =
     (if rate < error_rate r
      then Inl (load_test_error (''error rate '' @ percent2 (error_rate r) @ '' exceeds threshold '' @ percent2 rate))
      else Inr ())"

definition assert_rps_above :: "(rat \<Rightarrow> string) \<Rightarrow> rat \<Rightarrow> LoadReport \<Rightarrow> exn + unit" where
  "assert_rps_above fixed1 min_rps r =
     (if rps r < min_rps
      then Inl (load_test_error (''rps '' @ fixed1 (rps r) @ '' is below minimum '' @ fixed1 min_rps)) else Inr ())"

lemma filter_sort_length: "length (filter P (sort xs)) = length (filter P (xs :: 'a :: linorder list))"
  by (metis mset_filter mset_sort size_mset)

text \<open>The percentile is one of the samples, and at least \<open>n * pct div 100\<close> of the samples do not exceed it.\<close>

lemma percentile_covers:
  assumes "pct \<le> 100" "lr_latencies_ms r \<noteq> []"
  shows "percentile pct r \<in> set (lr_latencies_ms r)
    \<and> length (lr_latencies_ms r) * pct div 100 \<le> length (filter (\<lambda>x. x \<le> percentile pct r) (lr_latencies_ms r))"
proof
  let ?s = "sort (lr_latencies_ms r)" and ?k = "length (lr_latencies_ms r) * pct div 100"
  have k: "?k \<le> length ?s" using assms(1) div_le_mono[of "length ?s * pct" "length ?s * 100" 100] by simp
  have p: "percentile pct r = ?s ! (?k - 1)" using assms(2) by (simp add: percentile_def Let_def)
  have in_range: "?k - 1 < length ?s"
    using k assms(2) by (cases ?k) auto
  then show "percentile pct r \<in> set (lr_latencies_ms r)"
    unfolding p by (metis nth_mem set_sort)
  have "x \<le> ?s ! (?k - 1)" if "x \<in> set (take ?k ?s)" for x
  proof -
    obtain i where "i < ?k" "i < length ?s" "x = ?s ! i" using \<open>x \<in> set (take ?k ?s)\<close> by (auto simp: in_set_conv_nth)
    then show ?thesis using in_range by (auto intro!: sorted_nth_mono)
  qed
  then have "filter (\<lambda>x. x \<le> percentile pct r) (take ?k ?s) = take ?k ?s"
    by (simp add: p filter_id_conv)
  moreover have "length (filter (\<lambda>x. x \<le> percentile pct r) (take ?k ?s)) \<le> length (filter (\<lambda>x. x \<le> percentile pct r) ?s)"
    by (subst (2) append_take_drop_id[of ?k ?s, symmetric]) (simp del: append_take_drop_id)
  ultimately show "?k \<le> length (filter (\<lambda>x. x \<le> percentile pct r) (lr_latencies_ms r))"
    using k by (simp add: filter_sort_length)
qed

text \<open>Below a hundred samples the rank of the 99th percentile is rounded down to the last but one: a tenth of the requests may
  exceed the threshold that is asserted.\<close>

lemma p99_misses_slowest:
  "assert_p99_below fixed1 100 \<lparr>lr_total_requests = 10, lr_failures = 0, lr_latencies_ms = replicate 9 20 @ [5000], lr_duration_sec = 1\<rparr>
     = Inr ()"
proof -
  have "sort (replicate 9 20 @ [5000]) = replicate 9 20 @ [5000 :: rat]"
    by (rule sorted_sort_id) (simp add: sorted_append)
  then show ?thesis by (simp add: assert_p99_below_def percentile_def Let_def nth_append)
qed

subsection \<open>Timing\<close>

definition assert_completes_within :: "(rat \<Rightarrow> string) \<Rightarrow> ('w \<Rightarrow> rat \<times> 'w) \<Rightarrow> ('w, 'a) act \<Rightarrow> rat \<Rightarrow> ('w, 'a) act" where
  "assert_completes_within fixed1 perf_counter coro max_ms w =
     (case perf_counter w of (start, w1) \<Rightarrow>
        case coro w1 of
          (Inl e, w2) \<Rightarrow> (Inl e, w2)
        | (Inr result, w2) \<Rightarrow>
            (case perf_counter w2 of (stop, w3) \<Rightarrow>
               let elapsed_ms = (stop - start) * 1000
               in if max_ms < elapsed_ms
                  then (Inl (plain_exn (UserError ''PerformanceAssertionError'' (UserError ''AssertionError'' Exception))
                          (''Coroutine took '' @ fixed1 elapsed_ms @ '' ms, expected <= '' @ fixed1 max_ms @ '' ms'')), w3)
                  else (Inr result, w3)))"

subsection \<open>Failure injection\<close>

definition FailureInjector_init :: "rat \<Rightarrow> exn + rat" where
  "FailureInjector_init failure_rate =
     (if 0 \<le> failure_rate \<and> failure_rate \<le> 1 then Inr failure_rate
      else Inl (plain_exn ValueError ''failure_rate must be between 0.0 and 1.0''))"

datatype ('w, 'a) injected = Awaitable "('w, 'a) act" | Plain 'a

text \<open>\<open>random\<close> draws from [0, 1); a coroutine that is not awaited is closed and does not run.\<close>

definition FailureInjector_call :: "('w \<Rightarrow> rat \<times> 'w) \<Rightarrow> exn \<Rightarrow> rat \<Rightarrow> ('w, 'a) injected \<Rightarrow> ('w, 'a) act" where
  "FailureInjector_call random failure rate coro w =
     (case random w of (x, w1) \<Rightarrow>
        if x < rate then (Inl failure, w1)
        else case coro of Awaitable m \<Rightarrow> m w1 | Plain v \<Rightarrow> (Inr v, w1))"

lemma failure_rate_extremes:
  assumes "\<And>w. 0 \<le> fst (random w) \<and> fst (random w) < 1"
  shows "FailureInjector_call random failure 0 (Awaitable m) w = m (snd (random w))"
    and "FailureInjector_call random failure 1 coro w = (Inl failure, snd (random w))"
  using assms[of w] by (auto simp: FailureInjector_call_def split: prod.split)

subsection \<open>Fakes of ports\<close>

record FakePolicyEngine =
  fpe_overrides :: "(string \<times> string, PolicyDecision) pydict"
  fpe_default :: PolicyDecision

definition FakePolicyEngine_set :: "string \<Rightarrow> string \<Rightarrow> PolicyDecision \<Rightarrow> FakePolicyEngine \<Rightarrow> FakePolicyEngine" where
  "FakePolicyEngine_set resource action decision e = e\<lparr>fpe_overrides := dict_set (resource, action) decision (fpe_overrides e)\<rparr>"

definition FakePolicyEngine_deny_all :: "FakePolicyEngine \<Rightarrow> FakePolicyEngine" where
  "FakePolicyEngine_deny_all e = e\<lparr>fpe_default := DENY\<rparr>"

definition FakePolicyEngine_evaluate :: "FakePolicyEngine PolicyEngine" where
  "FakePolicyEngine_evaluate ctx e = (Inr (dict_get_or (fpe_overrides e) (pc_resource ctx, pc_action ctx) (fpe_default e)), e)"

text \<open>\<^verbatim>\<open>deny_all\<close> does not deny what was allowed explicitly before.\<close>

lemma deny_all_keeps_overrides:
  "fst (FakePolicyEngine_evaluate ctx (FakePolicyEngine_deny_all (FakePolicyEngine_set (pc_resource ctx) (pc_action ctx) d e))) = Inr d"
  by (simp add: FakePolicyEngine_evaluate_def FakePolicyEngine_deny_all_def FakePolicyEngine_set_def dict_get_or_def)

record FakeFeatureFlagProvider =
  ffp_enabled :: "(string, bool) pydict"
  ffp_variants :: "(string, string option) pydict"
  ffp_default :: bool

definition FakeFlags_set :: "FeatureFlag + string \<Rightarrow> bool \<Rightarrow> FakeFeatureFlagProvider \<Rightarrow> FakeFeatureFlagProvider" where
  "FakeFlags_set flag b p = p\<lparr>ffp_enabled := dict_set (case flag of Inl f \<Rightarrow> fl_key f | Inr k \<Rightarrow> k) b (ffp_enabled p)\<rparr>"

definition FakeFlags_is_enabled :: "FeatureFlag \<Rightarrow> FakeFeatureFlagProvider \<Rightarrow> bool" where
  "FakeFlags_is_enabled flag p =
     (case map_of (ffp_enabled p) (fl_key flag) of
        Some b \<Rightarrow> b
      | None \<Rightarrow> if \<not> ffp_default p then fl_default_value flag else ffp_default p)"

definition FakeFlags_reset :: "FakeFeatureFlagProvider \<Rightarrow> FakeFeatureFlagProvider" where
  "FakeFlags_reset p = p\<lparr>ffp_enabled := [], ffp_variants := []\<rparr>"

text \<open>With its default argument the fake decides as the in-memory provider of the library after the same changes.\<close>

lemma fake_flags_agree:
  fixes changes :: "((FeatureFlag + string) \<times> bool) list"
  shows "FakeFlags_is_enabled flag (foldl (\<lambda>p c. FakeFlags_set (fst c) (snd c) p) \<lparr>ffp_enabled = [], ffp_variants = vs, ffp_default = False\<rparr> changes)
     = mem_flag_is_enabled (foldl (\<lambda>fs c. mem_flag_set (fst c) (snd c) fs) [] changes) flag"
proof -
  have "foldl (\<lambda>p c. FakeFlags_set (fst c) (snd c) p) \<lparr>ffp_enabled = fs, ffp_variants = vs, ffp_default = False\<rparr> changes
      = \<lparr>ffp_enabled = foldl (\<lambda>fs c. mem_flag_set (fst c) (snd c) fs) fs changes, ffp_variants = vs, ffp_default = False\<rparr>" for fs
    by (induction changes arbitrary: fs) (simp_all add: FakeFlags_set_def mem_flag_set_def)
  then show ?thesis
    by (simp add: FakeFlags_is_enabled_def mem_flag_is_enabled_def dict_get_or_def split: option.split)
qed

text \<open>The fake of the secret store.\<close>

definition FakeSecretStore_get :: "SecretRef \<Rightarrow> (string, string) pydict \<Rightarrow> exn + string" where
  "FakeSecretStore_get ref s =
     (case map_of s (SecretRef_str ref) of
        None \<Rightarrow> Inl (plain_exn KeyError (''Secret not found: '' @ SecretRef_str ref))
      | Some v \<Rightarrow> Inr v)"

definition FakeSecretStore_get_all :: "string \<Rightarrow> (string, string) pydict \<Rightarrow> (string, string) pydict" where
  "FakeSecretStore_get_all path s =
     (let prfx = rstrip_by (\<lambda>c. c = CHR ''/'') path @ ''/''
      in dict_update [] (map (\<lambda>(k, v). (drop (length prfx) k, v)) (filter (\<lambda>(k, v). startswith k prfx) s)))"

definition FakeSecretStore_seed :: "string \<Rightarrow> string \<Rightarrow> (string, string) pydict \<Rightarrow> (string, string) pydict" where
  "FakeSecretStore_seed key v s = dict_set key v s"

definition FakeSecretStore_seed_ref :: "SecretRef \<Rightarrow> string \<Rightarrow> (string, string) pydict \<Rightarrow> (string, string) pydict" where
  "FakeSecretStore_seed_ref ref v s = dict_set (SecretRef_str ref) v s"

lemma fake_secret_seeded: "FakeSecretStore_get ref (FakeSecretStore_seed_ref ref v s) = Inr v"
  by (simp add: FakeSecretStore_get_def FakeSecretStore_seed_ref_def)

subsection \<open>Schema compatibility\<close>

record schema =
  sch_required :: "string list"
  sch_properties :: "string list"

definition schema_error :: "string \<Rightarrow> exn" where
  "schema_error m = plain_exn (UserError ''AssertionError'' Exception) m"

text \<open>\<open>shown\<close> is the text of the set of missing names.\<close>

definition assert_backward_compatible :: "(string list \<Rightarrow> string) \<Rightarrow> schema \<Rightarrow> schema \<Rightarrow> exn + unit" where
  "assert_backward_compatible shown old_schema new_schema =
     (let missing = filter (\<lambda>n. n \<notin> set (sch_properties new_schema)) (remdups (sch_required old_schema))
      in if missing \<noteq> [] then Inl (schema_error (''Backward compatibility violated - fields removed: '' @ shown missing)) else Inr ())"

definition assert_forward_compatible :: "(string list \<Rightarrow> string) \<Rightarrow> schema \<Rightarrow> schema \<Rightarrow> exn + unit" where
  "assert_forward_compatible shown old_schema new_schema =
     (let missing = filter (\<lambda>n. n \<notin> set (sch_properties old_schema)) (remdups (sch_required new_schema))
      in if missing \<noteq> [] then Inl (schema_error (''Forward compatibility violated - new required fields: '' @ shown missing)) else Inr ())"

text \<open>A document, given by its keys, is valid when it has the required ones.\<close>

definition accepts :: "schema \<Rightarrow> string list \<Rightarrow> bool" where
  "accepts s doc \<longleftrightarrow> set (sch_required s) \<subseteq> set doc"

lemma forward_is_backward_flipped:
  "(assert_forward_compatible shown old_schema new_schema = Inr ()) = (assert_backward_compatible shown' new_schema old_schema = Inr ())"
  by (simp add: assert_forward_compatible_def assert_backward_compatible_def Let_def)

lemma backward_compatible_iff:
  "assert_backward_compatible shown old_schema new_schema = Inr () \<longleftrightarrow> set (sch_required old_schema) \<subseteq> set (sch_properties new_schema)"
  by (auto simp: assert_backward_compatible_def Let_def filter_empty_conv)

text \<open>The assertion does not say that the new schema reads old documents: a field that became required passes it.\<close>

lemma backward_compatible_misses_required:
  "\<exists>old_schema new_schema doc. assert_backward_compatible shown old_schema new_schema = Inr () \<and> accepts old_schema doc \<and> \<not> accepts new_schema doc"
  by (intro exI[of _ "\<lparr>sch_required = [''id''], sch_properties = [''id'']\<rparr>"]
        exI[of _ "\<lparr>sch_required = [''id'', ''email''], sch_properties = [''id'', ''email'']\<rparr>"] exI[of _ "[''id'']"])
     (simp add: assert_backward_compatible_def accepts_def)

end
