(* ===== verification/Spec2Isabelle.thy ===== *)
theory Spec2Isabelle
  imports Redis_Breaker Retry Token_Bucket Bulkhead Fallbacks Contexts Saga Event_Sourcing Workflow Inbox Tagged_Cache Rate_Limit Pagination Pipeline Value_Objects Policies Privacy Pkce Credentials Configuration Outbox Asgi Connections Monitoring Localization Event_Stores Redis_Adapters Redis_Streams Grpc Http_Clients Data_Rights Webhooks Search Uploads Scheduling Sql_Specifications Object_Stores Nosql_Stores Repositories Message_Brokers Mail_Delivery Data_Export Identity_And_Secrets Audit_And_Tracing Tenant_Isolation Text_Files Test_Doubles
begin

text \<open>
  Verification of \<^verbatim>\<open>mp_commons\<close> (\<^verbatim>\<open>src/src/mp_commons\<close>), a library of building blocks for Python services.

  \<^bold>\<open>The program.\<close> The kernel holds errors, value objects, aggregates, security and messaging records. The application layer adds
  pipelines, caches, sagas, workflows, event sourcing, inbox and outbox, webhooks, search, uploads, jobs and data-subject rights on
  top of the kernel. The resilience package wraps calls in breakers, retries, buckets, bulkheads and fallbacks. The adapters connect
  the ports of the inner layers to web frameworks, gRPC, HTTP, databases, brokers, object stores, mail and identity services. Inner layers know the outer ones only
  as ports: here a port is a \<open>locale\<close> that names the operations and the laws a client relies on, every in-memory class of the
  library is an \<open>interpretation\<close> of its port, and the persistent stores reach the same ports by \<open>sublocale\<close>.

  \<^bold>\<open>Conventions.\<close> A class is a \<open>record\<close> or a \<open>datatype\<close> with the source's fields, a method a function with the name
  \<open>Class_method\<close>. Effects are explicit: \<open>('w, 'a) act\<close> maps a world to a result (\<open>Inl\<close> an exception, \<open>Inr\<close> a value) and the new
  world; \<open>ambient\<close> holds the context variables of a task. Exceptions are values with class, message, code and attributes, and
  \<open>isinstance\<close> follows the real hierarchy, so that \<^verbatim>\<open>except Exception\<close> does not catch cancellations. Dictionaries are association
  lists in insertion order, floats are rationals, instants are integers in microseconds, strings are lists of characters.
  Interleavings of tasks are inductive step relations whose steps are the stretches between two \<^verbatim>\<open>await\<close>s or under one lock.
  Third-party code (drivers, clocks, hashes, JSON, HTTP) is a parameter; what is relied on is a named law with an instance.

  \<^bold>\<open>Foundations.\<close> \<open>Py_Prelude\<close> (dictionaries, slices, rounding, \<open>kv_store\<close>), \<open>Py_Text\<close> (string methods, numerals), \<open>Py_Regex\<close>
  (backtracking matcher and substitution for the patterns the library uses), \<open>Py_Base64\<close> (encoding and its inverse), \<open>Errors\<close>
  (\<^verbatim>\<open>kernel/errors\<close>), \<open>Contexts\<close> (\<^verbatim>\<open>kernel/security\<close>, \<^verbatim>\<open>observability/correlation\<close>, \<^verbatim>\<open>resilience/timeouts\<close>:
  context variables obey \<open>context_var\<close>, scopes restore what they changed on every exit).

  \<^bold>\<open>Resilience.\<close> \<open>Circuit_Breaker\<close>: invariant, three-state contract and refinement under interleaving, opening exactly at the
  threshold, recovery. \<open>Redis_Breaker\<close>: the scripts of the shared breaker. \<open>Retry\<close>: number, order, outcome and delays of the
  attempts. \<open>Token_Bucket\<close>: rate bound and exact waiting time. \<open>Bulkhead\<close>: capacity under cancellation, backpressure. \<open>Fallbacks\<close>:
  fallbacks, hedging, dead letters, shutdown hooks.

  \<^bold>\<open>Application.\<close> \<open>Saga\<close>: compensation order and stored record. \<open>Event_Sourcing\<close>: contiguous streams, round trip, conflicts.
  \<open>Workflow\<close>: histories are paths. \<open>Inbox\<close>, \<open>Outbox\<close>: what is dispatched and how records are settled. \<open>Lru_Cache\<close>,
  \<open>Tagged_Cache\<close>: recency, invalidation, one load per key. \<open>Rate_Limit\<close>, \<open>Pagination\<close>, \<open>Pipeline\<close> (nesting, deduplication),
  \<open>Policies\<close> (verdict of a tree is its formula), \<open>Privacy\<close> (masking does not leak), \<open>Configuration\<close>, \<open>Localization\<close>,
  \<open>Webhooks\<close> (delivery loop), \<open>Search\<close> (pages partition the sorted matches), \<open>Uploads\<close>, \<open>Scheduling\<close>, \<open>Data_Rights\<close>.

  \<^bold>\<open>Kernel and security.\<close> \<open>Domain_Model\<close>, \<open>Value_Objects\<close> (validated types, slugs), \<open>Access_Control\<close> (permissions decide
  execution), \<open>Pkce\<close>, \<open>Credentials\<close> (keys, rotation, tokens, encryption).

  \<^bold>\<open>Adapters.\<close> \<open>Asgi\<close> (\<^verbatim>\<open>adapters/fastapi\<close>): middlewares, the body loop and webhook authentication. \<open>Grpc\<close>: interceptors;
  no unauthenticated call reaches a handler. \<open>Http_Clients\<close>: error mapping, composition with \<open>Circuit_Breaker\<close> and \<open>Retry\<close>.
  \<open>Event_Stores\<close>: MongoDB and SQLAlchemy stores refine the in-memory one; concurrent appends stay contiguous but are not atomic.
  \<open>Redis_Adapters\<close>: mutual exclusion of the lock with expiry, rate limiter, idempotency store. \<open>Redis_Streams\<close>: entries and the
  dispatcher, which settles records as the relay of \<open>Outbox\<close> does. \<open>Sql_Specifications\<close>: the rows a condition selects are those
  its specification accepts, except where a NULL meets a negation. \<open>Connections\<close> (\<^verbatim>\<open>adapters/graphql\<close>,
  \<^verbatim>\<open>adapters/websocket\<close>): cursors and the hub. \<open>Monitoring\<close> (\<^verbatim>\<open>observability\<close>): error budgets, health, events, log queue.

  \<^bold>\<open>Services and brokers.\<close> \<open>Py_Async\<close> holds what these theories share (\<^verbatim>\<open>async with\<close>, loops of awaited calls, tests of
  exceptions by name and text). \<open>Object_Stores\<close> (S3, Google Cloud, Azure): every sequence of operations has the replies of the
  in-memory store. \<open>Nosql_Stores\<close> (DynamoDB, Cassandra): one winner per idempotency key, the window of the hourly outbox.
  \<open>Repositories\<close> (Elasticsearch, OpenSearch, MongoDB, SQLAlchemy): query builders, round trips, units of work. \<open>Message_Brokers\<close>
  (Kafka, RabbitMQ, NATS, Pulsar, Service Bus, Pub/Sub, SQS, Celery): what is put on the wire and when a message is settled.
  \<open>Mail_Delivery\<close> (\<^verbatim>\<open>application/email\<close>, \<^verbatim>\<open>application/notifications\<close>, Mailgun, SendGrid): recipients, retries, results.
  \<open>Data_Export\<close>: CSV is read back as it was written. \<open>Identity_And_Secrets\<close> (Keycloak, Key Vault, Vault): from token claims to the
  policy decision, names of secrets. \<open>Audit_And_Tracing\<close>: the SQL audit store answers as the in-memory one, header carriers, health
  gauges. \<open>Tenant_Isolation\<close>: the query filter, which has no effect, and the proxy that detects this.

  \<^bold>\<open>Test support.\<close> \<open>Text_Files\<close>: migration files, snapshots and approvals over a dictionary of files, the last two under one contract.
  \<open>Test_Doubles\<close>: clocks, load reports, failure injection, fakes that agree with what they stand for, schema compatibility.

  \<^bold>\<open>Composition.\<close> This theory joins \<open>Webhooks\<close> and \<open>Asgi\<close>: a delivery as the dispatcher posts it, seen by the receiving
  middleware.

  \<^bold>\<open>Bounds and termination.\<close> Loops over lists are structural. The receive loop of the webhook middleware may wait forever and is a
  \<open>partial_function\<close>; that it returns exactly when a last message or a failure arrives is proved. Retry loops run over the list of
  attempt numbers, delivery loops over the number of attempts left. Exception classes are at most six deep below
  \<^verbatim>\<open>BaseException\<close>, with one more for each user class, which bounds the computation of
  \<open>mro\<close>. A greedy repetition of \<open>Py_Regex\<close> is unrolled as often as characters are left, which is enough because every round consumes
  one. No other fuel is used.

  \<^bold>\<open>Not modelled.\<close> Floating-point rounding, characters beyond ASCII, logging, \<^verbatim>\<open>repr\<close> texts and docstring-only modules. Methods that
  only forward their arguments to a driver (the Redis cache, the Kafka consumer, SQLAlchemy sessions and column mixins, tracers and
  metric instruments): their behaviour is that of the driver. Abstract interfaces and no-op implementations, which have none.
  Spreadsheets and images, which are written by other packages. Background tasks that repeat a modelled round for ever. Of the package
  \<^verbatim>\<open>testing\<close> the pytest fixtures, random generators, collecting fakes and wrappers of test tools.
\<close>

subsection \<open>Webhooks from sender to receiver\<close>

definition webhook_request :: "'w webhook_env \<Rightarrow> WebhookEndpoint \<Rightarrow> string \<Rightarrow> pyval \<Rightarrow> string \<times> (string \<times> string) list" where
  "webhook_request env ep event_type payload =
     (let body = wv_dumps env event_type payload
      in (body, webhook_headers (WebhookSigner_sign (wv_hmac env) body (we_secret ep)) event_type))"

lemma webhook_deliver_posts:
  "webhook_deliver env p ep event_type payload =
     deliver_loop (case webhook_request env ep event_type payload of (body, hs) \<Rightarrow> wv_post env (we_url ep) body hs) (wv_monotonic env)
       (wp_retry_on p) (wv_exn_str env) (wp_max_retries p) 1 None
       \<lparr>wd_endpoint_id = we_id ep, wd_event_type = event_type, wd_http_status = None, wd_duration_ms = 0,
        wd_attempts = 0, wd_last_error = None\<rparr>"
  by (simp add: webhook_deliver_def webhook_request_def Let_def)

definition asgi_headers :: "(string \<times> string) list \<Rightarrow> (string \<times> string) list" where
  "asgi_headers hs = map (\<lambda>(n, v). (lower n, v)) hs"

lemma webhook_header_names:
  "lower ''Content-Type'' = ''content-type''" "lower ''X-Webhook-Signature'' = ''x-webhook-signature''"
  "lower ''X-Webhook-Event'' = ''x-webhook-event''" "lower ''x-hub-signature-256'' = ''x-hub-signature-256''"
  by (code_simp+)

lemma strip_prefixed: "\<forall>c \<in> set h. \<not> is_space c \<Longrightarrow> strip (''sha256='' @ h) = ''sha256='' @ h"
  unfolding strip_def by (rule strip_by_fixed) (auto simp: is_space_def last_append)

lemma webhook_signature_header:
  assumes "sp_headers sc = asgi_headers (webhook_headers (''sha256='' @ h) ev)" "\<forall>c \<in> set h. \<not> is_space c"
  shows "header_of sc (lower ''X-Webhook-Signature'') = ''sha256='' @ h" "header_of sc (lower ''x-hub-signature-256'') = []"
  using assms strip_prefixed[of h]
  by (simp_all add: header_of_def asgi_headers_def webhook_headers_def webhook_header_names)


definition demo_env :: "unit webhook_env" where
  "demo_env = \<lparr>wv_hmac = (\<lambda>secret body. ''7f''), wv_dumps = (\<lambda>_ _. ''{}''), wv_post = (\<lambda>_ _ _ w. (Inr 401, w)),
     wv_monotonic = (\<lambda>_. 0), wv_exn_str = exn_message\<rparr>"

definition demo_endpoint :: WebhookEndpoint where
  "demo_endpoint = \<lparr>we_url = ''u'', we_secret = ''s'', we_events = [], we_enabled = True, we_id = ''e''\<rparr>"

definition demo_delivery :: scope where
  "demo_delivery = \<lparr>sp_type = ''http'', sp_headers = asgi_headers (webhook_headers ''sha256=7f'' ''paid''), sp_path = Some ''/webhooks/x'',
     sp_raw_path = [], sp_method = ''POST'', sp_client = None\<rparr>"


end
